(* ===== verification/Go_Prelude.thy ===== *)
theory Go_Prelude
  imports
    Main
    "HOL-Library.AList"
    "HOL-Library.Char_ord"
    "HOL-Library.List_Lexorder"
    "HOL-Library.Sublist"
begin

text \<open>
  The part of Go and of its standard library that the backend uses, shared by every
  component theory.

  \<^item> A Go string is a list of bytes: \<open>string\<close>, so \<open>length\<close> is Go's \<open>len\<close> and the list
    order of \<open>HOL-Library.List_Lexorder\<close> is Go's \<open><\<close>. \<open>strings.ToLower\<close>,
    \<open>strings.TrimSpace\<close> and \<open>strings.EqualFold\<close> are modelled on ASCII: bytes of 128 and
    more are neither letters nor spaces here, where Go consults the Unicode tables.
  \<^item> \<open>time.Time\<close> is an \<open>int\<close>, the nanoseconds since Go's zero time, so that the zero
    time is 0; \<open>time.Duration\<close> is an \<open>int\<close> of nanoseconds and \<open>Time.Sub\<close> saturates.
  \<^item> A Go map is an association list. Its list order stands for the iteration order of
    one \<open>range\<close>, which Go leaves open; the theorems quantify over all lists.
  \<^item> An error result is a sum, \<open>Inl\<close> the error. An HTTP answer is a status and a payload.
\<close>

named_theorems go_defs \<open>definitions of the string, time and map operations\<close>
named_theorems map_simps \<open>lookups in updated Go maps\<close>

section \<open>Bytes and strings\<close>

definition is_space :: "char \<Rightarrow> bool" where
  "is_space c \<longleftrightarrow> c \<in> {CHR '' '', CHR 0x09, CHR 0x0A, CHR 0x0B, CHR 0x0C, CHR 0x0D}"

definition is_digit :: "char \<Rightarrow> bool" where
  "is_digit c \<longleftrightarrow> 48 \<le> (of_char c :: nat) \<and> (of_char c :: nat) \<le> 57"

definition lower_char :: "char \<Rightarrow> char" where
  "lower_char c = (if 65 \<le> (of_char c :: nat) \<and> (of_char c :: nat) \<le> 90
     then char_of ((of_char c :: nat) + 32) else c)"

definition upper_char :: "char \<Rightarrow> char" where
  "upper_char c = (if 97 \<le> (of_char c :: nat) \<and> (of_char c :: nat) \<le> 122
     then char_of ((of_char c :: nat) - 32) else c)"

definition to_lower :: "string \<Rightarrow> string" where
  "to_lower s = map lower_char s"

definition to_upper :: "string \<Rightarrow> string" where
  "to_upper s = map upper_char s"

definition trim_left :: "(char \<Rightarrow> bool) \<Rightarrow> string \<Rightarrow> string" where
  "trim_left P s = dropWhile P s"

definition trim_right :: "(char \<Rightarrow> bool) \<Rightarrow> string \<Rightarrow> string" where
  "trim_right P s = rev (dropWhile P (rev s))"

definition trim_space :: "string \<Rightarrow> string" where
  "trim_space s = trim_right is_space (trim_left is_space s)"

definition has_prefix :: "string \<Rightarrow> string \<Rightarrow> bool" where
  "has_prefix s p \<longleftrightarrow> take (length p) s = p"

definition has_suffix :: "string \<Rightarrow> string \<Rightarrow> bool" where
  "has_suffix s p \<longleftrightarrow> length p \<le> length s \<and> drop (length s - length p) s = p"

definition trim_prefix :: "string \<Rightarrow> string \<Rightarrow> string" where
  "trim_prefix s p = (if has_prefix s p then drop (length p) s else s)"

fun contains :: "string \<Rightarrow> string \<Rightarrow> bool" where
  "contains [] sub = (sub = [])"
| "contains (c # cs) sub = (has_prefix (c # cs) sub \<or> contains cs sub)"

definition equal_fold :: "string \<Rightarrow> string \<Rightarrow> bool" where
  "equal_fold s t \<longleftrightarrow> to_lower s = to_lower t"

definition contains_any :: "string \<Rightarrow> string \<Rightarrow> bool" where
  "contains_any s cs \<longleftrightarrow> list_ex (\<lambda>c. c \<in> set cs) s"

fun index_byte :: "string \<Rightarrow> char \<Rightarrow> nat option" where
  "index_byte [] b = None"
| "index_byte (c # cs) b = (if c = b then Some 0 else map_option Suc (index_byte cs b))"

definition last_index_byte :: "string \<Rightarrow> char \<Rightarrow> nat option" where
  "last_index_byte s b = map_option (\<lambda>i. length s - 1 - i) (index_byte (rev s) b)"

fun split_by :: "(char \<Rightarrow> bool) \<Rightarrow> string \<Rightarrow> string list" where
  "split_by P [] = [[]]"
| "split_by P (c # cs) = (if P c then [] # split_by P cs
     else (case split_by P cs of [] \<Rightarrow> [[c]] | p # ps \<Rightarrow> (c # p) # ps))"

definition split_on :: "char \<Rightarrow> string \<Rightarrow> string list" where
  "split_on b s = split_by (\<lambda>c. c = b) s"

definition fields_func :: "(char \<Rightarrow> bool) \<Rightarrow> string \<Rightarrow> string list" where
  "fields_func P s = filter (\<lambda>p. p \<noteq> []) (split_by P s)"

fun join :: "string \<Rightarrow> string list \<Rightarrow> string" where
  "join sep [] = []"
| "join sep [x] = x"
| "join sep (x # y # ys) = x @ sep @ join sep (y # ys)"

lemma lower_char_idem [simp]: "lower_char (lower_char c) = lower_char c"
  by (auto simp: lower_char_def)

lemma is_space_lower [simp]: "is_space (lower_char c) = is_space c"
proof -
  have "is_space c \<longleftrightarrow> (of_char c :: nat) \<in> {32, 9, 10, 11, 12, 13}" for c
    unfolding is_space_def
    by (auto simp: of_char_eq_iff [symmetric, where ?'a = nat]
        simp del: of_char_eq_iff)
  then show ?thesis by (auto simp: lower_char_def)
qed

lemma length_to_lower [simp]: "length (to_lower s) = length s"
  by (simp add: to_lower_def)

lemma to_lower_idem [simp]: "to_lower (to_lower s) = to_lower s"
  by (simp add: to_lower_def)

lemma to_lower_Nil [simp]: "to_lower [] = []" "to_lower s = [] \<longleftrightarrow> s = []"
  by (simp_all add: to_lower_def)

lemma to_lower_append [simp]: "to_lower (s @ t) = to_lower s @ to_lower t"
  by (simp add: to_lower_def)

lemma trim_space_Nil [simp]: "trim_space [] = []"
  by (simp add: trim_space_def trim_left_def trim_right_def)

lemma dropWhile_idem2 [simp]: "dropWhile P (dropWhile P s) = dropWhile P s"
  by (induction s) auto

lemma hd_trim_right: "trim_right P s \<noteq> [] \<Longrightarrow> hd (trim_right P s) = hd s"
proof -
  assume a: "trim_right P s \<noteq> []"
  have "s = trim_right P s @ rev (takeWhile P (rev s))"
    by (metis rev_append rev_rev_ident takeWhile_dropWhile_id trim_right_def)
  then show "hd (trim_right P s) = hd s" using a by (metis hd_append)
qed

lemma trim_left_trim_right:
  assumes "trim_left P s = s" shows "trim_left P (trim_right P s) = trim_right P s"
proof (cases "trim_right P s")
  case Nil then show ?thesis by (simp add: trim_left_def)
next
  case (Cons c cs)
  then have "hd s = c" using hd_trim_right [of P s] by simp
  moreover have "s \<noteq> []" using Cons by (auto simp: trim_right_def)
  ultimately have "\<not> P c" using assms
    by (metis hd_dropWhile trim_left_def)
  with Cons show ?thesis by (simp add: trim_left_def)
qed

lemma trim_space_idem [simp]: "trim_space (trim_space s) = trim_space s"
proof -
  have "trim_left is_space (trim_space s) = trim_space s"
    unfolding trim_space_def by (rule trim_left_trim_right) (simp add: trim_left_def)
  then show ?thesis
    by (simp add: trim_space_def) (simp add: trim_right_def)
qed

lemma dropWhile_lower: "dropWhile is_space (map lower_char s) = map lower_char (dropWhile is_space s)"
  by (induction s) auto

lemma trim_space_lower: "trim_space (to_lower s) = to_lower (trim_space s)"
  by (simp add: trim_space_def trim_left_def trim_right_def to_lower_def dropWhile_lower
      rev_map)

lemma has_prefix_iff: "has_prefix s p \<longleftrightarrow> prefix p s"
  by (metis has_prefix_def prefix_def append_eq_conv_conj append_take_drop_id)

lemma has_prefix_append [simp]: "has_prefix (p @ s) p"
  by (simp add: has_prefix_def)

lemma trim_prefix_append [simp]: "trim_prefix (p @ s) p = s"
  by (simp add: trim_prefix_def)

lemma contains_iff: "contains s sub \<longleftrightarrow> sublist sub s"
  by (induction s) (auto simp: has_prefix_iff sublist_Cons_right)

lemma contains_Nil [simp]: "contains s []"
  by (simp add: contains_iff)

lemma contains_self [simp]: "contains s s"
  by (simp add: contains_iff)

lemma index_byte_Some: "index_byte s b = Some i \<Longrightarrow> i < length s \<and> s ! i = b"
  by (induction s arbitrary: i) (auto split: if_splits)

lemma index_byte_None: "index_byte s b = None \<longleftrightarrow> b \<notin> set s"
  by (induction s) auto

lemma split_by_neq [simp]: "split_by P s \<noteq> []"
  by (induction s) (auto split: list.splits)

lemma split_on_no_sep: "b \<notin> set s \<Longrightarrow> split_on b s = [s]"
  unfolding split_on_def by (induction s) auto

lemma split_on_append: "b \<notin> set s \<Longrightarrow> split_on b (s @ b # t) = s # split_on b t"
  unfolding split_on_def by (induction s) auto

lemma split_by_piece: "p \<in> set (split_by P s) \<Longrightarrow> c \<in> set p \<Longrightarrow> \<not> P c \<and> c \<in> set s"
proof (induction s arbitrary: p)
  case Nil then show ?case by simp
next
  case (Cons a s)
  obtain q qs where q: "split_by P s = q # qs" by (cases "split_by P s") auto
  with Cons show ?case by (fastforce split: if_splits)
qed

section \<open>Numbers as text\<close>

definition digit_char :: "nat \<Rightarrow> char" where
  "digit_char d = char_of (48 + d)"

definition digit_val :: "char \<Rightarrow> nat" where
  "digit_val c = of_char c - 48"

fun nat_digits :: "nat \<Rightarrow> string" where
  "nat_digits n = (if n < 10 then [digit_char n] else nat_digits (n div 10) @ [digit_char (n mod 10)])"

declare nat_digits.simps [simp del]

definition itoa :: "int \<Rightarrow> string" where
  "itoa i = (if i < 0 then CHR ''-'' # nat_digits (nat (- i)) else nat_digits (nat i))"

definition dec_val :: "string \<Rightarrow> nat" where
  "dec_val s = foldl (\<lambda>a c. a * 10 + digit_val c) 0 s"

definition parse_int64 :: "string \<Rightarrow> int option" where
  "parse_int64 s =
     (let neg = (has_prefix s ''-'');
          ds = (if neg \<or> has_prefix s ''+'' then tl s else s);
          v = (if neg then - int (dec_val ds) else int (dec_val ds))
      in if ds = [] \<or> \<not> list_all is_digit ds then None
         else if - (2 ^ 63) \<le> v \<and> v < 2 ^ 63 then Some v else None)"

lemma digit_val_digit_char [simp]: "d < 10 \<Longrightarrow> digit_val (digit_char d) = d"
  by (simp add: digit_val_def digit_char_def)

lemma is_digit_digit_char [simp]: "d < 10 \<Longrightarrow> is_digit (digit_char d)"
  by (simp add: is_digit_def digit_char_def)

lemma nat_digits_neq [simp]: "nat_digits n \<noteq> []"
  by (subst nat_digits.simps) simp

lemma nat_digits_digit: "list_all is_digit (nat_digits n)"
proof (induction n rule: nat_digits.induct)
  case (1 n) then show ?case by (subst nat_digits.simps) auto
qed

lemma dec_val_snoc: "dec_val (s @ [c]) = dec_val s * 10 + digit_val c"
  by (simp add: dec_val_def)

lemma dec_val_nat_digits [simp]: "dec_val (nat_digits n) = n"
proof (induction n rule: nat_digits.induct)
  case (1 n)
  show ?case
  proof (cases "n < 10")
    case True
    then show ?thesis by (subst nat_digits.simps) (simp add: dec_val_def)
  next
    case False
    with 1 show ?thesis by (subst nat_digits.simps) (simp add: dec_val_snoc)
  qed
qed

lemma nat_digits_inj: "nat_digits m = nat_digits n \<Longrightarrow> m = n"
  by (metis dec_val_nat_digits)

lemma is_digit_not_sign: "is_digit c \<Longrightarrow> c \<noteq> CHR ''-'' \<and> c \<noteq> CHR ''+''"
  by (auto simp: is_digit_def)

lemma nat_digits_hd: "is_digit (hd (nat_digits n))"
  using nat_digits_digit [of n] nat_digits_neq [of n]
  by (metis hd_in_set list.pred_set)

lemma itoa_inj: "itoa m = itoa n \<Longrightarrow> m = n"
proof -
  assume eq: "itoa m = itoa n"
  have neg: "CHR ''-'' # s \<noteq> nat_digits k" for s k
    using nat_digits_hd [of k] is_digit_not_sign by (metis list.sel(1))
  from eq neg show ?thesis
    by (auto simp: itoa_def split: if_splits dest: nat_digits_inj intro: neg [THEN notE] sym)
qed

lemma parse_int64_itoa:
  assumes "- (2 ^ 63) \<le> n" "n < 2 ^ 63"
  shows "parse_int64 (itoa n) = Some n"
proof (cases "n < 0")
  case True
  then show ?thesis using assms nat_digits_digit [of "nat (- n)"]
    by (simp add: parse_int64_def itoa_def has_prefix_def Let_def)
next
  case False
  obtain c cs where c: "nat_digits (nat n) = c # cs" by (cases "nat_digits (nat n)") auto
  then have "is_digit c" using nat_digits_hd [of "nat n"] by simp
  then have s: "\<not> has_prefix (c # cs) ''-''" "\<not> has_prefix (c # cs) ''+''"
    using is_digit_not_sign by (auto simp: has_prefix_def)
  have d: "dec_val (c # cs) = nat n" using c dec_val_nat_digits [of "nat n"] by simp
  show ?thesis using False assms s d nat_digits_digit [of "nat n"] c
    by (simp add: parse_int64_def itoa_def Let_def)
qed

text \<open>Code equations that stay on \<open>int\<close>, whose literals are binary, instead of unary \<open>nat\<close>.\<close>

definition int_digits :: "int \<Rightarrow> string" where
  "int_digits i = nat_digits (nat i)"

definition int_val :: "string \<Rightarrow> int" where
  "int_val s = int (dec_val s)"

lemma int_digits_code [code]:
  "int_digits i = (if i < 10 then [digit_char (nat i)] else int_digits (i div 10) @ [digit_char (nat (i mod 10))])"
  unfolding int_digits_def by (subst nat_digits.simps) (simp add: nat_div_distrib nat_mod_distrib nat_less_iff, linarith)

lemma int_val_code [code]: "int_val s = foldl (\<lambda>a c. a * 10 + int (digit_val c)) 0 s"
proof -
  have "int (foldl (\<lambda>a c. a * 10 + digit_val c) k s) = foldl (\<lambda>a c. a * 10 + int (digit_val c)) (int k) s" for k
    by (induction s arbitrary: k) simp_all
  from this [of 0] show ?thesis by (simp add: int_val_def dec_val_def)
qed

lemma itoa_code [code]: "itoa i = (if i < 0 then CHR ''-'' # int_digits (- i) else int_digits i)"
  by (simp add: itoa_def int_digits_def)

lemma parse_int64_code [code]:
  "parse_int64 s =
     (let neg = (has_prefix s ''-'');
          ds = (if neg \<or> has_prefix s ''+'' then tl s else s);
          v = (if neg then - int_val ds else int_val ds)
      in if ds = [] \<or> \<not> list_all is_digit ds then None
         else if - (2 ^ 63) \<le> v \<and> v < 2 ^ 63 then Some v else None)"
  unfolding parse_int64_def int_val_def ..

text \<open>The same for the classes of bytes.\<close>

lemma of_char_int: "(of_char c :: int) = int (of_char c)"
  by (simp add: of_nat_of_char)

lemma is_digit_code [code]: "is_digit c \<longleftrightarrow> 48 \<le> (of_char c :: int) \<and> (of_char c :: int) \<le> 57"
  unfolding is_digit_def of_char_int by linarith

lemma lower_char_code [code]:
  "lower_char c = (let k = (of_char c :: int) in if 65 \<le> k \<and> k \<le> 90 then char_of (k + 32) else c)"
proof -
  have "char_of (int n + 32) = char_of (n + 32)" for n
    using char_of_nat [of "n + 32", where ?'a = int] by simp
  then show ?thesis by (auto simp: lower_char_def Let_def of_char_int)
qed

lemma digit_val_code [code]: "digit_val c = nat (of_char c - 48)"
  by (simp add: digit_val_def of_char_int nat_diff_distrib)

lemma less_char_code [code]: "(c :: char) < d \<longleftrightarrow> (of_char c :: int) < of_char d"
  by (simp add: less_char_def of_char_int)

lemma less_eq_char_code [code]: "(c :: char) \<le> d \<longleftrightarrow> (of_char c :: int) \<le> of_char d"
  by (simp add: less_eq_char_def of_char_int)

section \<open>Time\<close>

type_synonym time = int
type_synonym duration = int

definition zero_time :: time where "zero_time = 0"

definition is_zero_time :: "time \<Rightarrow> bool" where
  "is_zero_time t \<longleftrightarrow> t = zero_time"

definition after :: "time \<Rightarrow> time \<Rightarrow> bool" where
  "after t u \<longleftrightarrow> u < t"

definition before :: "time \<Rightarrow> time \<Rightarrow> bool" where
  "before t u \<longleftrightarrow> t < u"

definition add_dur :: "time \<Rightarrow> duration \<Rightarrow> time" where
  "add_dur t d = t + d"

definition max_duration :: duration where "max_duration = 2 ^ 63 - 1"

definition min_duration :: duration where "min_duration = - (2 ^ 63)"

definition time_sub :: "time \<Rightarrow> time \<Rightarrow> duration" where
  "time_sub t u = max min_duration (min max_duration (t - u))"

definition seconds :: "int \<Rightarrow> duration" where "seconds n = n * 1000000000"

definition minutes :: "int \<Rightarrow> duration" where "minutes n = seconds (n * 60)"

definition hours :: "int \<Rightarrow> duration" where "hours n = minutes (n * 60)"

lemmas time_defs [go_defs] =
  zero_time_def is_zero_time_def after_def before_def add_dur_def

section \<open>Maps\<close>

type_synonym ('k, 'v) gomap = "('k \<times> 'v) list"

definition gok :: "('k, 'v) gomap \<Rightarrow> bool" where
  "gok m \<longleftrightarrow> distinct (map fst m)"

definition gget :: "('k, 'v) gomap \<Rightarrow> 'k \<Rightarrow> 'v option" where
  "gget m k = map_of m k"

definition gput :: "'k \<Rightarrow> 'v \<Rightarrow> ('k, 'v) gomap \<Rightarrow> ('k, 'v) gomap" where
  "gput k v m = AList.update k v m"

definition gdel :: "'k \<Rightarrow> ('k, 'v) gomap \<Rightarrow> ('k, 'v) gomap" where
  "gdel k m = AList.delete k m"

definition gdel_if :: "('k \<Rightarrow> 'v \<Rightarrow> bool) \<Rightarrow> ('k, 'v) gomap \<Rightarrow> ('k, 'v) gomap" where
  "gdel_if P m = filter (\<lambda>(k, v). \<not> P k v) m"

definition gmap :: "('k \<Rightarrow> 'v \<Rightarrow> 'w) \<Rightarrow> ('k, 'v) gomap \<Rightarrow> ('k, 'w) gomap" where
  "gmap f m = map (\<lambda>(k, v). (k, f k v)) m"

definition gvals :: "('k, 'v) gomap \<Rightarrow> 'v list" where
  "gvals m = map snd m"

lemma gok_Nil [simp]: "gok []"
  by (simp add: gok_def)

lemma gget_Nil [simp, map_simps]: "gget [] k = None"
  by (simp add: gget_def)

lemma gget_put [simp, map_simps]: "gget (gput k v m) k' = (if k' = k then Some v else gget m k')"
  by (simp add: gget_def gput_def update_conv')

lemma gget_del [simp, map_simps]: "gget (gdel k m) k' = (if k' = k then None else gget m k')"
  by (simp add: gget_def gdel_def delete_conv')

lemma gok_put [simp]: "gok m \<Longrightarrow> gok (gput k v m)"
  by (simp add: gok_def gput_def distinct_update)

lemma gok_del [simp]: "gok m \<Longrightarrow> gok (gdel k m)"
  by (simp add: gok_def gdel_def distinct_delete)

lemma gok_del_if [simp]: "gok m \<Longrightarrow> gok (gdel_if P m)"
  by (induction m) (auto simp: gok_def gdel_if_def)

lemma gok_gmap [simp]: "gok (gmap f m) = gok m"
  by (simp add: gok_def gmap_def comp_def case_prod_unfold)

lemma gget_del_if:
  "gok m \<Longrightarrow> gget (gdel_if P m) k =
     (case gget m k of None \<Rightarrow> None | Some v \<Rightarrow> if P k v then None else Some v)"
proof (induction m)
  case Nil then show ?case by (simp add: gdel_if_def)
next
  case (Cons a m)
  obtain k' v where a: "a = (k', v)" by (cases a)
  from Cons.prems a have "gok m" "map_of m k' = None"
    by (auto simp: gok_def map_of_eq_None_iff)
  with Cons.IH a show ?case by (auto simp: gget_def gdel_if_def split: option.splits)
qed

lemma gget_gmap [simp, map_simps]: "gget (gmap f m) k = map_option (f k) (gget m k)"
  by (induction m) (auto simp: gget_def gmap_def)

lemma gget_mem: "gok m \<Longrightarrow> gget m k = Some v \<longleftrightarrow> (k, v) \<in> set m"
  by (simp add: gget_def gok_def)

lemma gget_SomeD: "gget m k = Some v \<Longrightarrow> (k, v) \<in> set m"
  by (simp add: gget_def map_of_SomeD)

lemma gvals_mem: "gok m \<Longrightarrow> v \<in> set (gvals m) \<longleftrightarrow> (\<exists>k. gget m k = Some v)"
  by (force simp: gvals_def gget_mem)

lemma gvals_put:
  "set (gvals (gput k v m)) \<subseteq> insert v (set (gvals m))"
  by (induction m) (auto simp: gvals_def gput_def)

section \<open>HTTP answers\<close>

datatype 'b resp = Resp (status: nat) (payload: 'b)

section \<open>Sample identifiers\<close>

text \<open>Identifiers of growing length: a sequence that never repeats.\<close>

definition demo_uuid :: "nat \<Rightarrow> string" where
  "demo_uuid n = replicate (Suc n) CHR ''i''"

lemma demo_uuid_inj [simp]: "inj demo_uuid"
  by (auto simp: inj_def demo_uuid_def dest: arg_cong [where f = length])

end
