(* ===== verification/Auth_Limiter.thy ===== *)
theory Auth_Limiter
  imports Go_Prelude
begin

text \<open>
  The fixed-window attempt limiter of \<open>auth/ratelimit.go\<close>: its map of windows, the lazy
  sweep, \<open>Allow\<close>, \<open>Reset\<close> and \<open>size\<close>. The mutex makes each operation one atomic step.
  \<open>live\<close> is the abstract view: the window of a key that still counts at a given time.
  The two properties say that a burst of attempts on one key, interleaved with any other
  keys, lets exactly the limit through, and that the sweep keeps the map free of keys that
  expired more than one window ago.
\<close>

record windowState =
  ws_count :: int
  ws_resetAt :: time

record rateLimiter =
  rl_max :: int
  rl_window :: duration
  rl_hits :: "(string, windowState) gomap"
  rl_nextSweep :: time

definition newRateLimiter :: "int \<Rightarrow> duration \<Rightarrow> rateLimiter" where
  "newRateLimiter mx window =
     \<lparr>rl_max = mx, rl_window = window, rl_hits = [], rl_nextSweep = zero_time\<rparr>"

definition sweep :: "rateLimiter \<Rightarrow> time \<Rightarrow> rateLimiter" where
  "sweep r now =
     (if before now (rl_nextSweep r) then r
      else r\<lparr>rl_hits := gdel_if (\<lambda>_ st. after now (ws_resetAt st)) (rl_hits r),
             rl_nextSweep := add_dur now (rl_window r)\<rparr>)"

definition Allow :: "rateLimiter \<Rightarrow> string \<Rightarrow> time \<Rightarrow> rateLimiter \<times> bool" where
  "Allow r0 key now =
     (let r = sweep r0 now;
          fresh = r\<lparr>rl_hits := gput key \<lparr>ws_count = 1, ws_resetAt = add_dur now (rl_window r)\<rparr> (rl_hits r)\<rparr>
      in case gget (rl_hits r) key of
           None \<Rightarrow> (fresh, True)
         | Some st \<Rightarrow>
             if after now (ws_resetAt st) then (fresh, True)
             else if rl_max r \<le> ws_count st then (r, False)
             else (r\<lparr>rl_hits := gput key (st\<lparr>ws_count := ws_count st + 1\<rparr>) (rl_hits r)\<rparr>, True))"

definition Reset :: "rateLimiter \<Rightarrow> string \<Rightarrow> rateLimiter" where
  "Reset r key = r\<lparr>rl_hits := gdel key (rl_hits r)\<rparr>"

definition limiterSize :: "rateLimiter \<Rightarrow> nat" where
  "limiterSize r = length (rl_hits r)"

section \<open>The live window of a key\<close>

definition live :: "rateLimiter \<Rightarrow> string \<Rightarrow> time \<Rightarrow> windowState option" where
  "live r key now =
     (case gget (rl_hits r) key of
        None \<Rightarrow> None
      | Some st \<Rightarrow> if after now (ws_resetAt st) then None else Some st)"

definition limiter_ok :: "rateLimiter \<Rightarrow> bool" where
  "limiter_ok r \<longleftrightarrow> gok (rl_hits r)"

lemma limiter_ok_new [simp]: "limiter_ok (newRateLimiter mx w)"
  by (simp add: limiter_ok_def newRateLimiter_def)

lemma live_new [simp]: "live (newRateLimiter mx w) k t = None"
  by (simp add: live_def newRateLimiter_def)

lemma rl_const [simp]:
  "rl_max (sweep r t) = rl_max r" "rl_window (sweep r t) = rl_window r"
  "rl_max (fst (Allow r k t)) = rl_max r" "rl_window (fst (Allow r k t)) = rl_window r"
  "rl_max (Reset r k) = rl_max r" "rl_window (Reset r k) = rl_window r"
  by (auto simp: sweep_def Allow_def Reset_def Let_def split: option.splits)

lemma limiter_ok_sweep [simp]: "limiter_ok r \<Longrightarrow> limiter_ok (sweep r t)"
  by (simp add: limiter_ok_def sweep_def)

lemma limiter_ok_Allow [simp]: "limiter_ok r \<Longrightarrow> limiter_ok (fst (Allow r k t))"
  using limiter_ok_sweep [of r t]
  by (auto simp: limiter_ok_def Allow_def Let_def split: option.splits)

lemma limiter_ok_Reset [simp]: "limiter_ok r \<Longrightarrow> limiter_ok (Reset r k)"
  by (simp add: limiter_ok_def Reset_def)

text \<open>Sweeping at an earlier time changes no live window: it drops only expired ones.\<close>

lemma live_sweep:
  "limiter_ok r \<Longrightarrow> u \<le> t \<Longrightarrow> live (sweep r u) k t = live r k t"
  by (auto simp: live_def sweep_def limiter_ok_def gget_del_if go_defs split: option.splits)

lemma Allow_verdict:
  assumes "limiter_ok r"
  shows "snd (Allow r k t) =
     (case live r k t of None \<Rightarrow> True | Some st \<Rightarrow> ws_count st < rl_max r)"
proof -
  have "live (sweep r t) k t = live r k t" using assms by (simp add: live_sweep)
  then show ?thesis
    by (auto simp: Allow_def live_def Let_def split: option.splits if_splits)
qed

lemma live_Allow_other:
  assumes "limiter_ok r" "t \<le> u" "k' \<noteq> k"
  shows "live (fst (Allow r k t)) k' u = live r k' u"
proof -
  have "live (fst (Allow r k t)) k' u = live (sweep r t) k' u"
    using assms(3) by (auto simp: Allow_def live_def Let_def split: option.splits)
  then show ?thesis using assms live_sweep by simp
qed

lemma live_Allow_same:
  assumes "limiter_ok r" "t \<le> u" "u \<le> t + rl_window r"
  shows "live r k t = None \<Longrightarrow>
       live (fst (Allow r k t)) k u = Some \<lparr>ws_count = 1, ws_resetAt = t + rl_window r\<rparr>"
    and "live r k t = Some st \<Longrightarrow> u \<le> ws_resetAt st \<Longrightarrow>
       live (fst (Allow r k t)) k u =
         Some (if rl_max r \<le> ws_count st then st else st\<lparr>ws_count := ws_count st + 1\<rparr>)"
proof -
  have s: "live (sweep r t) k t = live r k t" using assms(1) by (simp add: live_sweep)
  show "live r k t = None \<Longrightarrow>
       live (fst (Allow r k t)) k u = Some \<lparr>ws_count = 1, ws_resetAt = t + rl_window r\<rparr>"
    using s assms(3)
    by (auto simp: Allow_def live_def Let_def go_defs split: option.splits if_splits)
  show "live r k t = Some st \<Longrightarrow> u \<le> ws_resetAt st \<Longrightarrow>
       live (fst (Allow r k t)) k u =
         Some (if rl_max r \<le> ws_count st then st else st\<lparr>ws_count := ws_count st + 1\<rparr>)"
    using s assms(2)
    by (auto simp: Allow_def live_def Let_def go_defs split: option.splits if_splits)
qed

section \<open>Sequences of attempts\<close>

fun attempts :: "rateLimiter \<Rightarrow> (string \<times> time) list \<Rightarrow> rateLimiter \<times> bool list" where
  "attempts r [] = (r, [])"
| "attempts r ((k, t) # xs) =
     (let (r1, ok) = Allow r k t; (r2, oks) = attempts r1 xs in (r2, ok # oks))"

definition tries :: "string \<Rightarrow> (string \<times> time) list \<Rightarrow> nat" where
  "tries key xs = length (filter (\<lambda>x. fst x = key) xs)"

definition allowed :: "string \<Rightarrow> (string \<times> time) list \<Rightarrow> bool list \<Rightarrow> nat" where
  "allowed key xs oks = length (filter (\<lambda>(x, ok). fst x = key \<and> ok) (zip xs oks))"

lemma allowed_Cons:
  "allowed key ((k, t) # xs) (ok # oks) = (if k = key \<and> ok then 1 else 0) + allowed key xs oks"
  by (simp add: allowed_def)

lemma tries_Cons: "tries key ((k, t) # xs) = (if k = key then 1 else 0) + tries key xs"
  by (simp add: tries_def)

lemma allowed_attempts_Cons:
  "allowed key ((k, t) # xs) (snd (attempts r ((k, t) # xs))) =
     (if k = key \<and> snd (Allow r k t) then 1 else 0) +
     allowed key xs (snd (attempts (fst (Allow r k t)) xs))"
  by (simp add: allowed_Cons case_prod_unfold Let_def)

lemmas burst_simps = allowed_attempts_Cons tries_Cons

declare attempts.simps [simp del]

lemma burst_live:
  assumes "limiter_ok r" "sorted (map snd xs)" "\<forall>x \<in> set xs. t0 \<le> snd x"
    and "\<forall>x \<in> set xs. fst x = key \<longrightarrow> snd x \<le> t1" "t1 \<le> t0 + rl_window r"
    and "\<forall>u. t0 \<le> u \<and> u \<le> t1 \<longrightarrow> live r key u = Some st" "t1 \<le> ws_resetAt st"
  shows "int (allowed key xs (snd (attempts r xs))) =
     min (int (tries key xs)) (max 0 (rl_max r - ws_count st))"
  using assms
proof (induction xs arbitrary: r st t0)
  case Nil then show ?case by (simp add: allowed_def tries_def)
next
  case (Cons x xs)
  obtain k t where x: "x = (k, t)" by (cases x)
  let ?r = "fst (Allow r k t)"
  have ok: "limiter_ok ?r" "sorted (map snd xs)" "\<forall>y \<in> set xs. t \<le> snd y"
    "\<forall>y \<in> set xs. fst y = key \<longrightarrow> snd y \<le> t1" "t1 \<le> t + rl_window ?r" "t0 \<le> t"
    using Cons.prems x by auto
  show ?case
  proof (cases "k = key")
    case False
    have l: "\<forall>u. t \<le> u \<and> u \<le> t1 \<longrightarrow> live ?r key u = Some st"
      using Cons.prems ok False by (simp add: live_Allow_other)
    show ?thesis using Cons.IH [OF ok(1-5) l] Cons.prems(7) False
      by (simp add: x burst_simps)
  next
    case True
    have tt: "t \<le> t1" using Cons.prems(4) x True by simp
    have lt: "live r key t = Some st" using Cons.prems(6) ok(6) tt by simp
    let ?st = "if rl_max r \<le> ws_count st then st else st\<lparr>ws_count := ws_count st + 1\<rparr>"
    have l: "\<forall>u. t \<le> u \<and> u \<le> t1 \<longrightarrow> live ?r key u = Some ?st"
      using Cons.prems ok True lt by (auto simp: live_Allow_same(2))
    have v: "snd (Allow r k t) = (ws_count st < rl_max r)"
      using Allow_verdict [OF Cons.prems(1)] lt True by simp
    show ?thesis using Cons.IH [OF ok(1-5) l] Cons.prems(7) True v
      by (auto simp: x burst_simps min_def max_def split: if_splits)
  qed
qed

text \<open>
  C18: The limiter throttles a burst to its limit. Take any sequence of attempts in time
  order, on any mix of keys, in which every attempt on \<open>key\<close> falls within one window of
  \<open>t0\<close> and no window of \<open>key\<close> is live at \<open>t0\<close> or later. Then exactly the first \<open>max\<close>
  attempts on \<open>key\<close> are allowed (one if the limit is below one), whatever the attempts on
  the other keys and whenever the sweep runs.
\<close>

theorem limiter_burst_exact:
  assumes "limiter_ok r" "sorted (map snd xs)" "\<forall>x \<in> set xs. t0 \<le> snd x"
    and "\<forall>x \<in> set xs. fst x = key \<longrightarrow> snd x \<le> t0 + rl_window r"
    and "\<forall>u \<ge> t0. live r key u = None"
  shows "int (allowed key xs (snd (attempts r xs))) = min (int (tries key xs)) (max 1 (rl_max r))"
  using assms
proof (induction xs arbitrary: r t0)
  case Nil then show ?case by (simp add: allowed_def tries_def)
next
  case (Cons x xs)
  obtain k t where x: "x = (k, t)" by (cases x)
  let ?r = "fst (Allow r k t)"
  have ok: "limiter_ok ?r" "sorted (map snd xs)" "\<forall>y \<in> set xs. t \<le> snd y" "t0 \<le> t"
    using Cons.prems x by auto
  have v: "live r k t = None \<Longrightarrow> snd (Allow r k t)" using Allow_verdict [OF Cons.prems(1)] by simp
  show ?case
  proof (cases "k = key")
    case True
    let ?st = "\<lparr>ws_count = 1, ws_resetAt = t + rl_window r\<rparr>"
    have "\<forall>u. t \<le> u \<and> u \<le> t0 + rl_window r \<longrightarrow> live ?r key u = Some ?st"
      using Cons.prems ok(4) True by (auto simp: live_Allow_same(1))
    from burst_live [OF ok(1-3) _ _ this] Cons.prems x ok(4)
    have "int (allowed key xs (snd (attempts ?r xs))) = min (int (tries key xs)) (max 0 (rl_max r - 1))"
      by simp
    then
    show ?thesis using True v Cons.prems(5) ok(4)
      by (auto simp: x burst_simps min_def max_def)
  next
    case False
    have n: "\<forall>u \<ge> t. live ?r key u = None"
      using Cons.prems ok(4) False by (auto simp: live_Allow_other)
    have *: "int (allowed key xs (snd (attempts ?r xs))) = min (int (tries key xs)) (max 1 (rl_max r))"
      using Cons.IH [OF ok(1-3) _ n] Cons.prems(4) ok(4) by fastforce
    show ?thesis using * False by (simp add: x burst_simps)
  qed
qed

theorem limiter_burst_exact_witness:
  "int (allowed ''a'' [(''a'', 10), (''b'', 11), (''a'', 12), (''a'', 13)]
     (snd (attempts (newRateLimiter 2 100) [(''a'', 10), (''b'', 11), (''a'', 12), (''a'', 13)]))) = 2"
proof -
  let ?r = "newRateLimiter 2 100"
  have "limiter_ok ?r" "rl_window ?r = 100" "rl_max ?r = 2" "\<forall>u \<ge> 10. live ?r ''a'' u = None"
    by (simp_all, simp_all add: newRateLimiter_def)
  then show ?thesis
    using limiter_burst_exact [of ?r "[(''a'', 10), (''b'', 11), (''a'', 12), (''a'', 13)]" 10 "''a''"]
    by (simp add: tries_def)
qed

section \<open>Eviction\<close>

definition evicted :: "rateLimiter \<Rightarrow> time \<Rightarrow> bool" where
  "evicted r now \<longleftrightarrow> limiter_ok r \<and> rl_nextSweep r \<le> now + rl_window r \<and>
     (\<forall>k st. gget (rl_hits r) k = Some st \<longrightarrow> rl_nextSweep r - rl_window r \<le> ws_resetAt st)"

lemma evicted_sweep:
  assumes "evicted r u" "u \<le> t" "0 < rl_window r"
  shows "evicted (sweep r t) t" "t < rl_nextSweep (sweep r t)"
proof -
  have "limiter_ok r" using assms(1) by (simp add: evicted_def)
  then have g: "gget (gdel_if P (rl_hits r)) k =
      (case gget (rl_hits r) k of None \<Rightarrow> None | Some v \<Rightarrow> if P k v then None else Some v)" for P k
    by (simp add: gget_del_if limiter_ok_def)
  show "t < rl_nextSweep (sweep r t)" using assms by (auto simp: sweep_def go_defs)
  show "evicted (sweep r t) t"
    using assms limiter_ok_sweep [OF \<open>limiter_ok r\<close>, of t]
    by (fastforce simp: evicted_def sweep_def go_defs g split: option.splits if_splits)
qed

lemma evicted_Allow:
  assumes "evicted r u" "u \<le> t" "0 < rl_window r"
  shows "evicted (fst (Allow r k t)) t \<and> t < rl_nextSweep (fst (Allow r k t))"
proof -
  note s = evicted_sweep [OF assms]
  have "limiter_ok (fst (Allow r k t))" using assms(1) by (simp add: evicted_def)
  then show ?thesis using s assms(3)
    by (auto simp: evicted_def Allow_def Let_def go_defs split: option.splits if_splits)
qed

text \<open>
  The map of windows stays swept. After any sequence of attempts in time order on a new
  limiter with a positive window, the last at time \<open>t\<close>, every tracked key has a window
  that ended less than one window before \<open>t\<close>: keys sprayed by an attacker are forgotten
  one window after they expire.
\<close>

theorem limiter_eviction:
  assumes "0 < w" "sorted (map snd (xs @ [(k, t)]))" "\<forall>x \<in> set (xs @ [(k, t)]). 0 \<le> snd x"
    and "gget (rl_hits (fst (attempts (newRateLimiter mx w) (xs @ [(k, t)])))) key = Some st"
  shows "t - w < ws_resetAt st"
proof -
  have gen: "\<And>r u. evicted r u \<Longrightarrow> rl_window r = w \<Longrightarrow> \<forall>x \<in> set (xs @ [(k, t)]). u \<le> snd x \<Longrightarrow>
      sorted (map snd (xs @ [(k, t)])) \<Longrightarrow>
      evicted (fst (attempts r (xs @ [(k, t)]))) t \<and>
      t < rl_nextSweep (fst (attempts r (xs @ [(k, t)]))) \<and>
      rl_window (fst (attempts r (xs @ [(k, t)]))) = w"
  proof (induction xs)
    case Nil then show ?case using evicted_Allow [of _ _ t k] assms(1)
      by (auto simp: attempts.simps case_prod_unfold Let_def)
  next
    case (Cons x xs)
    obtain k1 t1 where x: "x = (k1, t1)" by (cases x)
    have "evicted (fst (Allow r k1 t1)) t1"
      using evicted_Allow Cons.prems x assms(1) by auto
    then show ?case using Cons.IH [of "fst (Allow r k1 t1)" t1] Cons.prems x
      by (auto simp: attempts.simps case_prod_unfold Let_def)
  qed
  have "evicted (newRateLimiter mx w) 0"
    using assms(1) by (simp add: evicted_def newRateLimiter_def go_defs limiter_ok_def)
  from gen [OF this] assms show ?thesis by (fastforce simp: evicted_def newRateLimiter_def)
qed

theorem limiter_eviction_witness:
  "(35::int) - 10 < ws_resetAt \<lparr>ws_count = 1, ws_resetAt = 45\<rparr> \<and>
   gget (rl_hits (fst (attempts (newRateLimiter 2 10) ([(''a'', 5), (''b'', 20)] @ [(''a'', 35)])))) ''a''
     = Some \<lparr>ws_count = 1, ws_resetAt = 45\<rparr>"
proof -
  have g: "gget (rl_hits (fst (attempts (newRateLimiter 2 10) ([(''a'', 5), (''b'', 20)] @ [(''a'', 35)])))) ''a''
     = Some \<lparr>ws_count = 1, ws_resetAt = 45\<rparr>"
    by code_simp
  show ?thesis using limiter_eviction [OF _ _ _ g] g by simp
qed

end
