(* ===== verification/Auth_Repo.thy ===== *)
theory Auth_Repo
  imports Go_Prelude
begin

text \<open>
  The accounts store of the \<open>auth\<close> package. \<open>authRepo\<close> is the Go interface \<open>Repo\<close> as a
  record of operations over a state type; \<open>memAuth\<close> is \<open>MemoryRepo\<close> with one definition
  per method. \<open>authView\<close> is what a client can observe, the locale \<open>auth_repo\<close> states what
  the interface promises about it and \<open>memRepo\<close> interprets it on the in-memory store.
  Every read and write of a method happens under the repository's mutex, so a method is
  one step of the state.
\<close>

section \<open>Records and errors\<close>

datatype auth_err = EmailTaken | AuthNotFound | InvalidToken | AuthOther

record user =
  u_ID :: string
  u_Email :: string
  u_PasswordHash :: string
  u_Verified :: bool
  u_CreatedAt :: time
  u_ConsentAt :: time

record session =
  s_Token :: string
  s_UserID :: string
  s_ExpiresAt :: time

record resetRecord =
  rr_userID :: string
  rr_expiresAt :: time

definition zeroUser :: user where
  "zeroUser = \<lparr>u_ID = [], u_Email = [], u_PasswordHash = [], u_Verified = False,
     u_CreatedAt = zero_time, u_ConsentAt = zero_time\<rparr>"

definition normalizeEmail :: "string \<Rightarrow> string" where
  "normalizeEmail email = to_lower (trim_space email)"

lemma normalizeEmail_idem [simp]: "normalizeEmail (normalizeEmail e) = normalizeEmail e"
  by (simp add: normalizeEmail_def trim_space_lower)

lemma to_lower_normalizeEmail [simp]: "to_lower (normalizeEmail e) = normalizeEmail e"
  by (simp add: normalizeEmail_def)

section \<open>The interface\<close>

record 's authRepo =
  ar_CreateUser :: "'s \<Rightarrow> string \<Rightarrow> string \<Rightarrow> 's \<times> (auth_err + user)"
  ar_UserByEmail :: "'s \<Rightarrow> string \<Rightarrow> auth_err + user"
  ar_UserByID :: "'s \<Rightarrow> string \<Rightarrow> auth_err + user"
  ar_SetVerified :: "'s \<Rightarrow> string \<Rightarrow> 's \<times> auth_err option"
  ar_SetConsent :: "'s \<Rightarrow> string \<Rightarrow> time \<Rightarrow> 's \<times> auth_err option"
  ar_UpdatePassword :: "'s \<Rightarrow> string \<Rightarrow> string \<Rightarrow> 's \<times> auth_err option"
  ar_DeleteUser :: "'s \<Rightarrow> string \<Rightarrow> 's \<times> auth_err option"
  ar_CreateVerification :: "'s \<Rightarrow> string \<Rightarrow> string \<Rightarrow> time \<Rightarrow> 's \<times> auth_err option"
  ar_VerifyUser :: "'s \<Rightarrow> string \<Rightarrow> time \<Rightarrow> 's \<times> auth_err option"
  ar_CreateSession :: "'s \<Rightarrow> session \<Rightarrow> 's \<times> auth_err option"
  ar_SessionByToken :: "'s \<Rightarrow> string \<Rightarrow> auth_err + session"
  ar_DeleteSession :: "'s \<Rightarrow> string \<Rightarrow> 's \<times> auth_err option"
  ar_CreateReset :: "'s \<Rightarrow> string \<Rightarrow> string \<Rightarrow> time \<Rightarrow> 's \<times> auth_err option"
  ar_ResetPassword :: "'s \<Rightarrow> string \<Rightarrow> string \<Rightarrow> time \<Rightarrow> 's \<times> auth_err option"

section \<open>MemoryRepo\<close>

record memAuth =
  ma_seq :: int
  ma_users :: "(string, user) gomap"
  ma_byEmail :: "(string, string) gomap"
  ma_verifs :: "(string, resetRecord) gomap"
  ma_sessions :: "(string, session) gomap"
  ma_resets :: "(string, resetRecord) gomap"

definition NewMemoryRepo :: memAuth where
  "NewMemoryRepo = \<lparr>ma_seq = 0, ma_users = [], ma_byEmail = [], ma_verifs = [],
     ma_sessions = [], ma_resets = []\<rparr>"

text \<open>\<open>wall\<close> is the value of \<open>time.Now()\<close> that \<open>CreateUser\<close> reads itself.\<close>

definition mem_CreateUser :: "time \<Rightarrow> memAuth \<Rightarrow> string \<Rightarrow> string \<Rightarrow> memAuth \<times> (auth_err + user)" where
  "mem_CreateUser wall m email0 passwordHash =
     (let email = normalizeEmail email0; key = email in
      case gget (ma_byEmail m) key of
        Some _ \<Rightarrow> (m, Inl EmailTaken)
      | None \<Rightarrow>
          (let sq = ma_seq m + 1;
               u = \<lparr>u_ID = ''u'' @ itoa sq, u_Email = email, u_PasswordHash = passwordHash,
                    u_Verified = False, u_CreatedAt = wall, u_ConsentAt = zero_time\<rparr>
           in (m\<lparr>ma_seq := sq, ma_users := gput (u_ID u) u (ma_users m),
                 ma_byEmail := gput key (u_ID u) (ma_byEmail m)\<rparr>, Inr u)))"

definition mem_UserByEmail :: "memAuth \<Rightarrow> string \<Rightarrow> auth_err + user" where
  "mem_UserByEmail m email =
     (case gget (ma_byEmail m) (normalizeEmail email) of
        None \<Rightarrow> Inl AuthNotFound
      | Some i \<Rightarrow> Inr (case gget (ma_users m) i of None \<Rightarrow> zeroUser | Some u \<Rightarrow> u))"

definition mem_UserByID :: "memAuth \<Rightarrow> string \<Rightarrow> auth_err + user" where
  "mem_UserByID m i =
     (case gget (ma_users m) i of None \<Rightarrow> Inl AuthNotFound | Some u \<Rightarrow> Inr u)"

definition mem_SetVerified :: "memAuth \<Rightarrow> string \<Rightarrow> memAuth \<times> auth_err option" where
  "mem_SetVerified m userID =
     (case gget (ma_users m) userID of
        None \<Rightarrow> (m, Some AuthNotFound)
      | Some u \<Rightarrow> (m\<lparr>ma_users := gput userID (u\<lparr>u_Verified := True\<rparr>) (ma_users m)\<rparr>, None))"

definition mem_SetConsent :: "memAuth \<Rightarrow> string \<Rightarrow> time \<Rightarrow> memAuth \<times> auth_err option" where
  "mem_SetConsent m userID at =
     (case gget (ma_users m) userID of
        None \<Rightarrow> (m, Some AuthNotFound)
      | Some u \<Rightarrow> (m\<lparr>ma_users := gput userID (u\<lparr>u_ConsentAt := at\<rparr>) (ma_users m)\<rparr>, None))"

definition mem_DeleteUser :: "memAuth \<Rightarrow> string \<Rightarrow> memAuth \<times> auth_err option" where
  "mem_DeleteUser m userID =
     (case gget (ma_users m) userID of
        None \<Rightarrow> (m, Some AuthNotFound)
      | Some u \<Rightarrow>
          (m\<lparr>ma_users := gdel userID (ma_users m),
             ma_byEmail := gdel (to_lower (u_Email u)) (ma_byEmail m),
             ma_verifs := gdel_if (\<lambda>_ r. rr_userID r = userID) (ma_verifs m),
             ma_sessions := gdel_if (\<lambda>_ s. s_UserID s = userID) (ma_sessions m),
             ma_resets := gdel_if (\<lambda>_ r. rr_userID r = userID) (ma_resets m)\<rparr>, None))"

definition mem_UpdatePassword :: "memAuth \<Rightarrow> string \<Rightarrow> string \<Rightarrow> memAuth \<times> auth_err option" where
  "mem_UpdatePassword m userID passwordHash =
     (case gget (ma_users m) userID of
        None \<Rightarrow> (m, Some AuthNotFound)
      | Some u \<Rightarrow>
          (m\<lparr>ma_users := gput userID (u\<lparr>u_PasswordHash := passwordHash\<rparr>) (ma_users m)\<rparr>, None))"

definition mem_CreateVerification ::
  "memAuth \<Rightarrow> string \<Rightarrow> string \<Rightarrow> time \<Rightarrow> memAuth \<times> auth_err option" where
  "mem_CreateVerification m userID token expiresAt =
     (m\<lparr>ma_verifs := gput token \<lparr>rr_userID = userID, rr_expiresAt = expiresAt\<rparr> (ma_verifs m)\<rparr>, None)"

definition mem_VerifyUser :: "memAuth \<Rightarrow> string \<Rightarrow> time \<Rightarrow> memAuth \<times> auth_err option" where
  "mem_VerifyUser m token now =
     (let bad = (m\<lparr>ma_verifs := gdel token (ma_verifs m)\<rparr>, Some InvalidToken) in
      case gget (ma_verifs m) token of
        None \<Rightarrow> bad
      | Some rec \<Rightarrow>
          if after now (rr_expiresAt rec) then bad
          else (case gget (ma_users m) (rr_userID rec) of
                  None \<Rightarrow> (m, Some AuthNotFound)
                | Some u \<Rightarrow>
                    (m\<lparr>ma_users := gput (rr_userID rec) (u\<lparr>u_Verified := True\<rparr>) (ma_users m),
                       ma_verifs := gdel token (ma_verifs m)\<rparr>, None)))"

definition mem_CreateSession :: "memAuth \<Rightarrow> session \<Rightarrow> memAuth \<times> auth_err option" where
  "mem_CreateSession m s = (m\<lparr>ma_sessions := gput (s_Token s) s (ma_sessions m)\<rparr>, None)"

definition mem_SessionByToken :: "memAuth \<Rightarrow> string \<Rightarrow> auth_err + session" where
  "mem_SessionByToken m token =
     (case gget (ma_sessions m) token of None \<Rightarrow> Inl AuthNotFound | Some s \<Rightarrow> Inr s)"

definition mem_DeleteSession :: "memAuth \<Rightarrow> string \<Rightarrow> memAuth \<times> auth_err option" where
  "mem_DeleteSession m token = (m\<lparr>ma_sessions := gdel token (ma_sessions m)\<rparr>, None)"

definition mem_CreateReset ::
  "memAuth \<Rightarrow> string \<Rightarrow> string \<Rightarrow> time \<Rightarrow> memAuth \<times> auth_err option" where
  "mem_CreateReset m userID token expiresAt =
     (m\<lparr>ma_resets := gput token \<lparr>rr_userID = userID, rr_expiresAt = expiresAt\<rparr> (ma_resets m)\<rparr>, None)"

definition mem_ResetPassword ::
  "memAuth \<Rightarrow> string \<Rightarrow> string \<Rightarrow> time \<Rightarrow> memAuth \<times> auth_err option" where
  "mem_ResetPassword m token passwordHash now =
     (case gget (ma_resets m) token of
        None \<Rightarrow> (m, Some InvalidToken)
      | Some rec \<Rightarrow>
          if after now (rr_expiresAt rec)
          then (m\<lparr>ma_resets := gdel token (ma_resets m)\<rparr>, Some InvalidToken)
          else (case gget (ma_users m) (rr_userID rec) of
                  None \<Rightarrow> (m, Some AuthNotFound)
                | Some u \<Rightarrow>
                    (m\<lparr>ma_users := gput (rr_userID rec) (u\<lparr>u_PasswordHash := passwordHash\<rparr>) (ma_users m),
                       ma_sessions := gdel_if (\<lambda>_ s. s_UserID s = rr_userID rec) (ma_sessions m),
                       ma_resets := gdel token (ma_resets m)\<rparr>, None)))"

text \<open>The two test and development helpers read the first record of a user.\<close>

definition mem_VerificationToken :: "memAuth \<Rightarrow> string \<Rightarrow> string option" where
  "mem_VerificationToken m userID =
     map_option fst (find (\<lambda>(_, r). rr_userID r = userID) (ma_verifs m))"

definition mem_ResetToken :: "memAuth \<Rightarrow> string \<Rightarrow> string option" where
  "mem_ResetToken m userID =
     map_option fst (find (\<lambda>(_, r). rr_userID r = userID) (ma_resets m))"

definition memRepoOps :: "time \<Rightarrow> memAuth authRepo" where
  "memRepoOps wall =
     \<lparr>ar_CreateUser = mem_CreateUser wall, ar_UserByEmail = mem_UserByEmail,
      ar_UserByID = mem_UserByID, ar_SetVerified = mem_SetVerified,
      ar_SetConsent = mem_SetConsent, ar_UpdatePassword = mem_UpdatePassword,
      ar_DeleteUser = mem_DeleteUser, ar_CreateVerification = mem_CreateVerification,
      ar_VerifyUser = mem_VerifyUser, ar_CreateSession = mem_CreateSession,
      ar_SessionByToken = mem_SessionByToken, ar_DeleteSession = mem_DeleteSession,
      ar_CreateReset = mem_CreateReset, ar_ResetPassword = mem_ResetPassword\<rparr>"

lemmas mem_auth_defs =
  mem_CreateUser_def mem_UserByEmail_def mem_UserByID_def mem_SetVerified_def mem_SetConsent_def
  mem_UpdatePassword_def mem_DeleteUser_def mem_CreateVerification_def mem_VerifyUser_def
  mem_CreateSession_def mem_SessionByToken_def mem_DeleteSession_def mem_CreateReset_def
  mem_ResetPassword_def

section \<open>What a client observes\<close>

record authView =
  v_users :: "string \<Rightarrow> user option"
  v_verifs :: "string \<Rightarrow> resetRecord option"
  v_sessions :: "string \<Rightarrow> session option"
  v_resets :: "string \<Rightarrow> resetRecord option"

definition without :: "('r \<Rightarrow> string) \<Rightarrow> string \<Rightarrow> (string \<Rightarrow> 'r option) \<Rightarrow> (string \<Rightarrow> 'r option)" where
  "without own userID f =
     (\<lambda>t. case f t of None \<Rightarrow> None | Some r \<Rightarrow> if own r = userID then None else Some r)"

definition erase :: "string \<Rightarrow> authView \<Rightarrow> authView" where
  "erase userID v =
     v\<lparr>v_users := (v_users v)(userID := None), v_verifs := without rr_userID userID (v_verifs v),
       v_sessions := without s_UserID userID (v_sessions v),
       v_resets := without rr_userID userID (v_resets v)\<rparr>"

definition updated_user ::
  "authView \<Rightarrow> string \<Rightarrow> (user \<Rightarrow> user) \<Rightarrow> authView \<times> auth_err option \<Rightarrow> bool" where
  "updated_user v userID f = (\<lambda>(v', r).
     case r of
       None \<Rightarrow> (\<exists>u. v_users v userID = Some u \<and> v' = v\<lparr>v_users := (v_users v)(userID \<mapsto> f u)\<rparr>)
     | Some e \<Rightarrow> v' = v \<and> (e = AuthNotFound \<longrightarrow> v_users v userID = None))"

definition token_for :: "(string \<Rightarrow> resetRecord option) \<Rightarrow> string \<Rightarrow> time \<Rightarrow> string \<Rightarrow> bool" where
  "token_for f token now userID \<longleftrightarrow>
     (\<exists>r. f token = Some r \<and> rr_userID r = userID \<and> \<not> after now (rr_expiresAt r))"

text \<open>
  The contract. \<open>stamp\<close> is what the store keeps of an instant: the in-memory store keeps it
  as it is, a database cuts it to microseconds.
\<close>

locale auth_repo =
  fixes R :: "'s authRepo"
    and inv :: "'s \<Rightarrow> bool"
    and view :: "'s \<Rightarrow> authView"
    and stamp :: "time \<Rightarrow> time"
  assumes user_keys: "\<And>s i u. inv s \<Longrightarrow> v_users (view s) i = Some u \<Longrightarrow>
        u_ID u = i \<and> normalizeEmail (u_Email u) = u_Email u"
    and user_emails: "\<And>s i j u w. inv s \<Longrightarrow> v_users (view s) i = Some u \<Longrightarrow> v_users (view s) j = Some w \<Longrightarrow>
        u_Email u = u_Email w \<Longrightarrow> i = j"
    and CreateUser: "\<And>s s' e h r. inv s \<Longrightarrow> ar_CreateUser R s e h = (s', r) \<Longrightarrow> inv s' \<and>
        (case r of
           Inl err \<Rightarrow> view s' = view s
         | Inr u \<Rightarrow> v_users (view s) (u_ID u) = None \<and> u_Email u = normalizeEmail e \<and>
             u_PasswordHash u = h \<and> \<not> u_Verified u \<and> u_ConsentAt u = zero_time \<and>
             (\<forall>i w. v_users (view s) i = Some w \<longrightarrow> u_Email w \<noteq> normalizeEmail e) \<and>
             view s' = (view s)\<lparr>v_users := (v_users (view s))(u_ID u \<mapsto> u)\<rparr>)"
    and UserByEmail: "\<And>s e. inv s \<Longrightarrow>
        (case ar_UserByEmail R s e of
           Inl err \<Rightarrow> err = AuthNotFound \<longrightarrow>
             (\<forall>i w. v_users (view s) i = Some w \<longrightarrow> u_Email w \<noteq> normalizeEmail e)
         | Inr u \<Rightarrow> u_Email u = normalizeEmail e \<and> v_users (view s) (u_ID u) = Some u)"
    and UserByID: "\<And>s i. inv s \<Longrightarrow>
        (case ar_UserByID R s i of
           Inl err \<Rightarrow> err = AuthNotFound \<longrightarrow> v_users (view s) i = None
         | Inr u \<Rightarrow> v_users (view s) i = Some u)"
    and SetVerified: "\<And>s s' i r. inv s \<Longrightarrow> ar_SetVerified R s i = (s', r) \<Longrightarrow> inv s' \<and>
        updated_user (view s) i (\<lambda>u. u\<lparr>u_Verified := True\<rparr>) (view s', r)"
    and SetConsent: "\<And>s s' i t r. inv s \<Longrightarrow> ar_SetConsent R s i t = (s', r) \<Longrightarrow> inv s' \<and>
        updated_user (view s) i (\<lambda>u. u\<lparr>u_ConsentAt := stamp t\<rparr>) (view s', r)"
    and UpdatePassword: "\<And>s s' i h r. inv s \<Longrightarrow> ar_UpdatePassword R s i h = (s', r) \<Longrightarrow> inv s' \<and>
        updated_user (view s) i (\<lambda>u. u\<lparr>u_PasswordHash := h\<rparr>) (view s', r)"
    and DeleteUser: "\<And>s s' i r. inv s \<Longrightarrow> ar_DeleteUser R s i = (s', r) \<Longrightarrow> inv s' \<and>
        (case r of
           None \<Rightarrow> v_users (view s) i \<noteq> None \<and> view s' = erase i (view s)
         | Some e \<Rightarrow> view s' = view s \<and> (e = AuthNotFound \<longrightarrow> v_users (view s) i = None))"
    and CreateVerification: "\<And>s s' i tok t r. inv s \<Longrightarrow> ar_CreateVerification R s i tok t = (s', r) \<Longrightarrow> inv s' \<and>
        view s' = (if r = None then (view s)\<lparr>v_verifs := (v_verifs (view s))(tok \<mapsto> \<lparr>rr_userID = i, rr_expiresAt = stamp t\<rparr>)\<rparr>
                   else view s)"
    and VerifyUser: "\<And>s s' tok now r. inv s \<Longrightarrow> ar_VerifyUser R s tok now = (s', r) \<Longrightarrow> inv s' \<and>
        (case r of
           None \<Rightarrow> (\<exists>i u. token_for (v_verifs (view s)) tok (stamp now) i \<and> v_users (view s) i = Some u \<and>
             view s' = (view s)\<lparr>v_users := (v_users (view s))(i \<mapsto> u\<lparr>u_Verified := True\<rparr>),
                                v_verifs := (v_verifs (view s))(tok := None)\<rparr>)
         | Some e \<Rightarrow> v_users (view s') = v_users (view s) \<and> v_sessions (view s') = v_sessions (view s) \<and>
             v_resets (view s') = v_resets (view s) \<and> v_verifs (view s') \<subseteq>\<^sub>m v_verifs (view s))"
    and CreateSession: "\<And>s s' x r. inv s \<Longrightarrow> ar_CreateSession R s x = (s', r) \<Longrightarrow> inv s' \<and>
        view s' = (if r = None then (view s)\<lparr>v_sessions := (v_sessions (view s))(s_Token x \<mapsto> x\<lparr>s_ExpiresAt := stamp (s_ExpiresAt x)\<rparr>)\<rparr> else view s)"
    and SessionByToken: "\<And>s tok. inv s \<Longrightarrow>
        (case ar_SessionByToken R s tok of
           Inl err \<Rightarrow> err = AuthNotFound \<longrightarrow> v_sessions (view s) tok = None
         | Inr x \<Rightarrow> v_sessions (view s) tok = Some x)"
    and DeleteSession: "\<And>s s' tok r. inv s \<Longrightarrow> ar_DeleteSession R s tok = (s', r) \<Longrightarrow> inv s' \<and>
        view s' = (if r = None then (view s)\<lparr>v_sessions := (v_sessions (view s))(tok := None)\<rparr> else view s)"
    and CreateReset: "\<And>s s' i tok t r. inv s \<Longrightarrow> ar_CreateReset R s i tok t = (s', r) \<Longrightarrow> inv s' \<and>
        view s' = (if r = None then (view s)\<lparr>v_resets := (v_resets (view s))(tok \<mapsto> \<lparr>rr_userID = i, rr_expiresAt = stamp t\<rparr>)\<rparr>
                   else view s)"
    and ResetPassword: "\<And>s s' tok h now r. inv s \<Longrightarrow> ar_ResetPassword R s tok h now = (s', r) \<Longrightarrow> inv s' \<and>
        (case r of
           None \<Rightarrow> (\<exists>i u. token_for (v_resets (view s)) tok (stamp now) i \<and> v_users (view s) i = Some u \<and>
             view s' = (view s)\<lparr>v_users := (v_users (view s))(i \<mapsto> u\<lparr>u_PasswordHash := h\<rparr>),
                                v_sessions := without s_UserID i (v_sessions (view s)),
                                v_resets := (v_resets (view s))(tok := None)\<rparr>)
         | Some e \<Rightarrow> v_users (view s') = v_users (view s) \<and> v_sessions (view s') = v_sessions (view s) \<and>
             v_verifs (view s') = v_verifs (view s) \<and> v_resets (view s') \<subseteq>\<^sub>m v_resets (view s))"

text \<open>
  A repository that never fails for reasons of its own: what the in-memory store promises
  beyond the interface, and what rolling a registration back needs.
\<close>

locale auth_repo_total = auth_repo +
  assumes DeleteUser_total: "\<And>s i. inv s \<Longrightarrow> v_users (view s) i \<noteq> None \<Longrightarrow> snd (ar_DeleteUser R s i) = None"
    and CreateUser_total: "\<And>s e h err. inv s \<Longrightarrow> snd (ar_CreateUser R s e h) = Inl err \<Longrightarrow>
          err = EmailTaken \<and> (\<exists>i w. v_users (view s) i = Some w \<and> u_Email w = normalizeEmail e)"
    and UserByEmail_total: "\<And>s e err. inv s \<Longrightarrow> ar_UserByEmail R s e = Inl err \<Longrightarrow> err = AuthNotFound"
    and UserByID_total: "\<And>s i err. inv s \<Longrightarrow> ar_UserByID R s i = Inl err \<Longrightarrow> err = AuthNotFound"
    and SessionByToken_total: "\<And>s t err. inv s \<Longrightarrow> ar_SessionByToken R s t = Inl err \<Longrightarrow> err = AuthNotFound"

section \<open>The in-memory store keeps its maps consistent\<close>

definition mem_inv :: "memAuth \<Rightarrow> bool" where
  "mem_inv m \<longleftrightarrow>
     0 \<le> ma_seq m \<and> gok (ma_users m) \<and> gok (ma_byEmail m) \<and> gok (ma_verifs m) \<and>
     gok (ma_sessions m) \<and> gok (ma_resets m) \<and>
     (\<forall>i u. gget (ma_users m) i = Some u \<longrightarrow>
        u_ID u = i \<and> normalizeEmail (u_Email u) = u_Email u \<and>
        gget (ma_byEmail m) (u_Email u) = Some i \<and>
        (\<exists>k. 1 \<le> k \<and> k \<le> ma_seq m \<and> i = ''u'' @ itoa k)) \<and>
     (\<forall>e i. gget (ma_byEmail m) e = Some i \<longrightarrow> (\<exists>u. gget (ma_users m) i = Some u \<and> u_Email u = e))"

definition mem_view :: "memAuth \<Rightarrow> authView" where
  "mem_view m = \<lparr>v_users = gget (ma_users m), v_verifs = gget (ma_verifs m),
     v_sessions = gget (ma_sessions m), v_resets = gget (ma_resets m)\<rparr>"

lemma mem_inv_new [simp]: "mem_inv NewMemoryRepo"
  by (simp add: mem_inv_def NewMemoryRepo_def)

lemma mem_inv_user:
  assumes "mem_inv m" "gget (ma_users m) i = Some u"
  shows "u_ID u = i" "normalizeEmail (u_Email u) = u_Email u" "gget (ma_byEmail m) (u_Email u) = Some i"
    "to_lower (u_Email u) = u_Email u"
proof -
  show "u_ID u = i" "normalizeEmail (u_Email u) = u_Email u" "gget (ma_byEmail m) (u_Email u) = Some i"
    using assms by (metis mem_inv_def)+
  then show "to_lower (u_Email u) = u_Email u" by (metis to_lower_normalizeEmail)
qed

lemma mem_inv_email:
  "mem_inv m \<Longrightarrow> gget (ma_byEmail m) e = Some i \<Longrightarrow> \<exists>u. gget (ma_users m) i = Some u \<and> u_Email u = e"
  by (simp add: mem_inv_def)

lemma mem_inv_id:
  "mem_inv m \<Longrightarrow> gget (ma_users m) i = Some u \<Longrightarrow> \<exists>k. 1 \<le> k \<and> k \<le> ma_seq m \<and> i = ''u'' @ itoa k"
  unfolding mem_inv_def by blast

lemma mem_inv_fresh:
  assumes "mem_inv m" shows "gget (ma_users m) (''u'' @ itoa (ma_seq m + 1)) = None"
proof (rule ccontr)
  assume "\<not> ?thesis"
  then obtain u where "gget (ma_users m) (''u'' @ itoa (ma_seq m + 1)) = Some u" by blast
  from mem_inv_id [OF assms this] obtain k where "k \<le> ma_seq m" "itoa (ma_seq m + 1) = itoa k"
    by auto
  then show False using itoa_inj by force
qed

lemma mem_inv_gok:
  "mem_inv m \<Longrightarrow> 0 \<le> ma_seq m \<and> gok (ma_users m) \<and> gok (ma_byEmail m) \<and> gok (ma_verifs m) \<and>
     gok (ma_sessions m) \<and> gok (ma_resets m)"
  by (simp add: mem_inv_def)

lemma mem_invI:
  assumes "0 \<le> ma_seq m" "gok (ma_users m)" "gok (ma_byEmail m)" "gok (ma_verifs m)"
    "gok (ma_sessions m)" "gok (ma_resets m)"
    and "\<And>i u. gget (ma_users m) i = Some u \<Longrightarrow>
        u_ID u = i \<and> normalizeEmail (u_Email u) = u_Email u \<and> gget (ma_byEmail m) (u_Email u) = Some i \<and>
        (\<exists>k. 1 \<le> k \<and> k \<le> ma_seq m \<and> i = ''u'' @ itoa k)"
    and "\<And>e i. gget (ma_byEmail m) e = Some i \<Longrightarrow> \<exists>u. gget (ma_users m) i = Some u \<and> u_Email u = e"
  shows "mem_inv m"
  unfolding mem_inv_def using assms(1-6) assms(7,8) by (intro conjI allI impI) simp_all

lemma mem_inv_keep:
  assumes "mem_inv m"
    and "ma_seq m' = ma_seq m" "ma_users m' = ma_users m" "ma_byEmail m' = ma_byEmail m"
    and "gok (ma_verifs m')" "gok (ma_sessions m')" "gok (ma_resets m')"
  shows "mem_inv m'"
  using assms unfolding mem_inv_def by simp

lemma mem_inv_set_user:
  assumes "mem_inv m" "gget (ma_users m) i = Some u"
    and "u_ID u' = u_ID u" "u_Email u' = u_Email u"
    and "ma_seq m' = ma_seq m" "ma_users m' = gput i u' (ma_users m)" "ma_byEmail m' = ma_byEmail m"
    and "gok (ma_verifs m')" "gok (ma_sessions m')" "gok (ma_resets m')"
  shows "mem_inv m'"
proof (rule mem_invI)
  note u = mem_inv_user [OF assms(1,2)] mem_inv_id [OF assms(1,2)]
  show "u_ID w = j \<and> normalizeEmail (u_Email w) = u_Email w \<and> gget (ma_byEmail m') (u_Email w) = Some j \<and>
        (\<exists>k. 1 \<le> k \<and> k \<le> ma_seq m' \<and> j = ''u'' @ itoa k)" if "gget (ma_users m') j = Some w" for j w
  proof (cases "j = i")
    case True
    then have "w = u'" using that assms(6) by simp
    then show ?thesis using True u assms(3-5,7) by simp
  next
    case False
    then have "gget (ma_users m) j = Some w" using that assms(6) by simp
    then show ?thesis using mem_inv_user [OF assms(1)] mem_inv_id [OF assms(1)] assms(5,7) by simp
  qed
  show "\<exists>w. gget (ma_users m') j = Some w \<and> u_Email w = e" if "gget (ma_byEmail m') e = Some j" for e j
    using mem_inv_email [OF assms(1), of e j] that assms(2,4,6,7) by (cases "j = i") auto
qed (use assms mem_inv_gok [OF assms(1)] in simp_all)

lemma mem_CreateUser_inv:
  assumes "mem_inv m" shows "mem_inv (fst (mem_CreateUser wall m e h))"
proof (cases "gget (ma_byEmail m) (normalizeEmail e)")
  case None
  let ?m = "fst (mem_CreateUser wall m e h)" and ?i = "''u'' @ itoa (ma_seq m + 1)"
  obtain u where m: "ma_seq ?m = ma_seq m + 1" "ma_users ?m = gput ?i u (ma_users m)"
    "ma_byEmail ?m = gput (normalizeEmail e) ?i (ma_byEmail m)" "ma_verifs ?m = ma_verifs m"
    "ma_sessions ?m = ma_sessions m" "ma_resets ?m = ma_resets m"
    and u: "u_ID u = ?i" "u_Email u = normalizeEmail e"
    using None by (simp add: mem_CreateUser_def Let_def)
  have f: "gget (ma_users m) ?i = None" using assms by (rule mem_inv_fresh)
  show ?thesis
  proof (rule mem_invI)
    show "u_ID w = j \<and> normalizeEmail (u_Email w) = u_Email w \<and> gget (ma_byEmail ?m) (u_Email w) = Some j \<and>
        (\<exists>k. 1 \<le> k \<and> k \<le> ma_seq ?m \<and> j = ''u'' @ itoa k)" if "gget (ma_users ?m) j = Some w" for j w
    proof (cases "j = ?i")
      case True
      then have "w = u" using that m(2) by simp
      moreover have "\<exists>k. 1 \<le> k \<and> k \<le> ma_seq ?m \<and> ?i = ''u'' @ itoa k"
        using m(1) mem_inv_gok [OF assms] by (intro exI [of _ "ma_seq m + 1"]) simp
      ultimately show ?thesis using True u m(3) by simp
    next
      case False
      then have w: "gget (ma_users m) j = Some w" using that m(2) by simp
      note ww = mem_inv_user [OF assms w]
      obtain k where "1 \<le> k" "k \<le> ma_seq m" "j = ''u'' @ itoa k" using mem_inv_id [OF assms w] by blast
      then have "1 \<le> k \<and> k \<le> ma_seq ?m \<and> j = ''u'' @ itoa k" using m(1) by simp
      moreover have "u_Email w \<noteq> normalizeEmail e" using ww(3) None by auto
      ultimately show ?thesis using ww m(3) by auto
    qed
    show "\<exists>w. gget (ma_users ?m) j = Some w \<and> u_Email w = x" if "gget (ma_byEmail ?m) x = Some j" for x j
    proof (cases "x = normalizeEmail e")
      case True then show ?thesis using that m(2,3) u(2) by simp
    next
      case False
      then have "gget (ma_byEmail m) x = Some j" using that m(3) by simp
      then show ?thesis using mem_inv_email [OF assms] f m(2) by fastforce
    qed
  qed (use mem_inv_gok [OF assms] m in simp_all)
qed (use assms in \<open>simp add: mem_CreateUser_def Let_def\<close>)

lemma mem_DeleteUser_inv:
  assumes "mem_inv m" shows "mem_inv (fst (mem_DeleteUser m i))"
proof (cases "gget (ma_users m) i")
  case (Some u)
  let ?m = "fst (mem_DeleteUser m i)"
  note u = mem_inv_user [OF assms Some]
  have m: "ma_seq ?m = ma_seq m" "ma_users ?m = gdel i (ma_users m)"
    "ma_byEmail ?m = gdel (u_Email u) (ma_byEmail m)"
    using Some u(4) by (simp_all add: mem_DeleteUser_def)
  show ?thesis
  proof (rule mem_invI)
    show "u_ID w = j \<and> normalizeEmail (u_Email w) = u_Email w \<and> gget (ma_byEmail ?m) (u_Email w) = Some j \<and>
        (\<exists>k. 1 \<le> k \<and> k \<le> ma_seq ?m \<and> j = ''u'' @ itoa k)" if "gget (ma_users ?m) j = Some w" for j w
    proof -
      have w: "gget (ma_users m) j = Some w" "j \<noteq> i" using that m(2) by (auto split: if_splits)
      note ww = mem_inv_user [OF assms w(1)]
      have "u_Email w \<noteq> u_Email u" using ww(3) u(3) w(2) by auto
      then show ?thesis using ww mem_inv_id [OF assms w(1)] m by simp
    qed
    show "\<exists>w. gget (ma_users ?m) j = Some w \<and> u_Email w = x" if "gget (ma_byEmail ?m) x = Some j" for x j
    proof -
      have x: "gget (ma_byEmail m) x = Some j" "x \<noteq> u_Email u" using that m(3) by (auto split: if_splits)
      then show ?thesis using mem_inv_email [OF assms x(1)] Some m(2) by (cases "j = i") auto
    qed
  qed (use mem_inv_gok [OF assms] Some m in \<open>simp_all add: mem_DeleteUser_def\<close>)
qed (use assms in \<open>simp add: mem_DeleteUser_def\<close>)

lemma mem_user_update_inv:
  assumes "mem_inv m"
  shows "mem_inv (fst (mem_SetVerified m i))" "mem_inv (fst (mem_SetConsent m i t))"
    "mem_inv (fst (mem_UpdatePassword m i h))"
proof -
  note g = mem_inv_gok [OF assms]
  have "mem_inv (fst (mem_SetVerified m i)) \<and> mem_inv (fst (mem_SetConsent m i t)) \<and>
    mem_inv (fst (mem_UpdatePassword m i h))"
  proof (cases "gget (ma_users m) i")
    case (Some u)
    then show ?thesis using g
      by (simp add: mem_SetVerified_def mem_SetConsent_def mem_UpdatePassword_def
          mem_inv_set_user [OF assms Some, of "u\<lparr>u_Verified := True\<rparr>"]
          mem_inv_set_user [OF assms Some, of "u\<lparr>u_ConsentAt := t\<rparr>"]
          mem_inv_set_user [OF assms Some, of "u\<lparr>u_PasswordHash := h\<rparr>"])
  qed (use assms in \<open>simp add: mem_SetVerified_def mem_SetConsent_def mem_UpdatePassword_def\<close>)
  then show "mem_inv (fst (mem_SetVerified m i))" "mem_inv (fst (mem_SetConsent m i t))"
    "mem_inv (fst (mem_UpdatePassword m i h))" by simp_all
qed

lemma mem_token_inv:
  assumes "mem_inv m"
  shows "mem_inv (fst (mem_CreateVerification m i tok t))" "mem_inv (fst (mem_CreateReset m i tok t))"
    "mem_inv (fst (mem_CreateSession m x))" "mem_inv (fst (mem_DeleteSession m tok))"
  using mem_inv_gok [OF assms]
  by (simp_all add: mem_CreateVerification_def mem_CreateReset_def mem_CreateSession_def
      mem_DeleteSession_def mem_inv_keep [OF assms])

lemma mem_VerifyUser_inv:
  assumes "mem_inv m" shows "mem_inv (fst (mem_VerifyUser m tok now))"
proof (cases "gget (ma_verifs m) tok")
  case None
  then show ?thesis using mem_inv_gok [OF assms]
    by (simp add: mem_VerifyUser_def Let_def mem_inv_keep [OF assms])
next
  case (Some rec)
  show ?thesis
  proof (cases "gget (ma_users m) (rr_userID rec)")
    case None
    then show ?thesis using mem_inv_gok [OF assms] Some assms
      by (simp add: mem_VerifyUser_def Let_def mem_inv_keep [OF assms])
  next
    case u: (Some u)
    show ?thesis using mem_inv_gok [OF assms] Some u
      by (simp add: mem_VerifyUser_def Let_def mem_inv_keep [OF assms]
          mem_inv_set_user [OF assms u, of "u\<lparr>u_Verified := True\<rparr>"])
  qed
qed

lemma mem_ResetPassword_inv:
  assumes "mem_inv m" shows "mem_inv (fst (mem_ResetPassword m tok h now))"
proof (cases "gget (ma_resets m) tok")
  case None
  then show ?thesis using assms by (simp add: mem_ResetPassword_def)
next
  case (Some rec)
  show ?thesis
  proof (cases "gget (ma_users m) (rr_userID rec)")
    case None
    then show ?thesis using mem_inv_gok [OF assms] Some assms
      by (simp add: mem_ResetPassword_def mem_inv_keep [OF assms])
  next
    case u: (Some u)
    show ?thesis using mem_inv_gok [OF assms] Some u
      by (simp add: mem_ResetPassword_def mem_inv_keep [OF assms]
          mem_inv_set_user [OF assms u, of "u\<lparr>u_PasswordHash := h\<rparr>"])
  qed
qed

lemmas mem_ops_inv = mem_CreateUser_inv mem_DeleteUser_inv mem_user_update_inv mem_token_inv
  mem_VerifyUser_inv mem_ResetPassword_inv

interpretation memRepo: auth_repo_total "memRepoOps wall" mem_inv mem_view "\<lambda>t. t"
proof (unfold_locales, goal_cases)
  case (1 s i u) then show ?case using mem_inv_user by (simp add: mem_view_def)
next
  case (2 s i j u w) then show ?case using mem_inv_user(3) by (simp add: mem_view_def) (metis option.inject)
next
  case (3 s s' e h r)
  have c: "gget (ma_byEmail s) (normalizeEmail e) = None \<Longrightarrow> gget (ma_users s) i = Some w \<Longrightarrow>
      u_Email w \<noteq> normalizeEmail e" for i w
    using mem_inv_user(3) [OF 3(1), of i w] by auto
  show ?case
  proof (cases "gget (ma_byEmail s) (normalizeEmail e)")
    case None
    then show ?thesis using 3 mem_inv_fresh [OF 3(1)] mem_CreateUser_inv [OF 3(1), of wall e h] c
      by (auto simp: memRepoOps_def mem_CreateUser_def mem_view_def Let_def fun_eq_iff)
  next
    case (Some i)
    then show ?thesis using 3 by (auto simp: memRepoOps_def mem_CreateUser_def Let_def)
  qed
next
  case (4 s e)
  then show ?case using mem_inv_email [of s "normalizeEmail e"] mem_inv_user [of s]
    by (fastforce simp: memRepoOps_def mem_UserByEmail_def mem_view_def split: option.splits)
next
  case (5 s i) then show ?case by (auto simp: memRepoOps_def mem_UserByID_def mem_view_def split: option.splits)
next
  case (6 s s' i r) then show ?case using mem_user_update_inv(1) [OF 6(1), of i]
    by (auto simp: memRepoOps_def mem_SetVerified_def mem_view_def updated_user_def split: option.splits)
next
  case (7 s s' i t r) then show ?case using mem_user_update_inv(2) [OF 7(1), of i t]
    by (auto simp: memRepoOps_def mem_SetConsent_def mem_view_def updated_user_def split: option.splits)
next
  case (8 s s' i h r) then show ?case using mem_user_update_inv(3) [OF 8(1), of i h]
    by (auto simp: memRepoOps_def mem_UpdatePassword_def mem_view_def updated_user_def split: option.splits)
next
  case (9 s s' i r)
  have "\<And>P. gget (gdel_if P (ma_verifs s)) = (\<lambda>k. case gget (ma_verifs s) k of None \<Rightarrow> None | Some v \<Rightarrow> if P k v then None else Some v)"
    "\<And>P. gget (gdel_if P (ma_sessions s)) = (\<lambda>k. case gget (ma_sessions s) k of None \<Rightarrow> None | Some v \<Rightarrow> if P k v then None else Some v)"
    "\<And>P. gget (gdel_if P (ma_resets s)) = (\<lambda>k. case gget (ma_resets s) k of None \<Rightarrow> None | Some v \<Rightarrow> if P k v then None else Some v)"
    using mem_inv_gok [OF 9(1)] by (auto simp: gget_del_if)
  then show ?case using 9 mem_DeleteUser_inv [OF 9(1), of i]
    by (auto simp: memRepoOps_def mem_DeleteUser_def mem_view_def erase_def without_def fun_eq_iff split: option.splits)
next
  case (10 s s' i tok t r) then show ?case using mem_token_inv(1) [OF 10(1), of i tok t]
    by (auto simp: memRepoOps_def mem_CreateVerification_def mem_view_def)
next
  case (11 s s' tok now r)
  then show ?case using mem_VerifyUser_inv [OF 11(1), of tok now]
    by (auto simp: memRepoOps_def mem_VerifyUser_def mem_view_def token_for_def map_le_def Let_def
        split: option.splits if_splits)
next
  case (12 s s' x r) then show ?case using mem_token_inv(3) [OF 12(1), of x]
    by (auto simp: memRepoOps_def mem_CreateSession_def mem_view_def)
next
  case (13 s tok) then show ?case by (auto simp: memRepoOps_def mem_SessionByToken_def mem_view_def split: option.splits)
next
  case (14 s s' tok r) then show ?case using mem_token_inv(4) [OF 14(1), of tok]
    by (auto simp: memRepoOps_def mem_DeleteSession_def mem_view_def)
next
  case (15 s s' i tok t r) then show ?case using mem_token_inv(2) [OF 15(1), of i tok t]
    by (auto simp: memRepoOps_def mem_CreateReset_def mem_view_def)
next
  case (16 s s' tok h now r)
  have "\<And>P. gget (gdel_if P (ma_sessions s)) = (\<lambda>k. case gget (ma_sessions s) k of None \<Rightarrow> None | Some v \<Rightarrow> if P k v then None else Some v)"
    using mem_inv_gok [OF 16(1)] by (auto simp: gget_del_if)
  then show ?case using 16 mem_ResetPassword_inv [OF 16(1), of tok h now]
    by (auto simp: memRepoOps_def mem_ResetPassword_def mem_view_def token_for_def without_def map_le_def Let_def
        split: option.splits if_splits)
next
  case (17 s i) then show ?case by (auto simp: memRepoOps_def mem_DeleteUser_def mem_view_def)
next
  case (18 s e h err) then show ?case using mem_inv_email [of s "normalizeEmail e"]
    by (auto simp: memRepoOps_def mem_CreateUser_def mem_view_def Let_def split: option.splits)
next
  case (19 s e err) then show ?case by (auto simp: memRepoOps_def mem_UserByEmail_def split: option.splits)
next
  case (20 s i err) then show ?case by (auto simp: memRepoOps_def mem_UserByID_def split: option.splits)
next
  case (21 s t err) then show ?case by (auto simp: memRepoOps_def mem_SessionByToken_def split: option.splits)
qed

section \<open>Reachable stores\<close>

text \<open>One step is one method call, with any arguments; \<open>mem_reach\<close> closes over them.\<close>

inductive mem_step :: "memAuth \<Rightarrow> memAuth \<Rightarrow> bool" where
  create_user: "mem_step m (fst (mem_CreateUser wall m e h))"
| set_verified: "mem_step m (fst (mem_SetVerified m i))"
| set_consent: "mem_step m (fst (mem_SetConsent m i t))"
| update_password: "mem_step m (fst (mem_UpdatePassword m i h))"
| delete_user: "mem_step m (fst (mem_DeleteUser m i))"
| create_verification: "mem_step m (fst (mem_CreateVerification m i tok t))"
| verify_user: "mem_step m (fst (mem_VerifyUser m tok t))"
| create_session: "mem_step m (fst (mem_CreateSession m x))"
| delete_session: "mem_step m (fst (mem_DeleteSession m tok))"
| create_reset: "mem_step m (fst (mem_CreateReset m i tok t))"
| reset_password: "mem_step m (fst (mem_ResetPassword m tok h t))"

inductive mem_reach :: "memAuth \<Rightarrow> bool" where
  start: "mem_reach NewMemoryRepo"
| step: "mem_reach m \<Longrightarrow> mem_step m m' \<Longrightarrow> mem_reach m'"

lemma mem_step_inv: "mem_step m m' \<Longrightarrow> mem_inv m \<Longrightarrow> mem_inv m'"
  by (induction rule: mem_step.induct) (simp_all add: mem_ops_inv)

lemma mem_reach_inv: "mem_reach m \<Longrightarrow> mem_inv m"
  by (induction rule: mem_reach.induct) (auto intro: mem_step_inv)

text \<open>
  The two indexes of the accounts store never drift apart. In every store reachable
  by method calls, looking a stored account up by its id or its address returns exactly
  it, no two accounts share an address, and a lookup by address returns only a stored
  account with the normalised address, never the zero record of a missing map entry.
\<close>

theorem auth_store_consistent:
  assumes "mem_reach m"
  shows "(gget (ma_users m) i = Some u \<longrightarrow>
        mem_UserByID m (u_ID u) = Inr u \<and> mem_UserByEmail m (u_Email u) = Inr u \<and>
        (\<forall>j w. gget (ma_users m) j = Some w \<longrightarrow> u_Email w = u_Email u \<longrightarrow> j = i)) \<and>
    (mem_UserByEmail m e = Inr u' \<longrightarrow>
        gget (ma_users m) (u_ID u') = Some u' \<and> u_Email u' = normalizeEmail e)"
proof -
  have inv: "mem_inv m" using assms by (rule mem_reach_inv)
  have a: "mem_UserByID m (u_ID u) = Inr u \<and> mem_UserByEmail m (u_Email u) = Inr u \<and>
        (\<forall>j w. gget (ma_users m) j = Some w \<longrightarrow> u_Email w = u_Email u \<longrightarrow> j = i)"
    if "gget (ma_users m) i = Some u"
  proof -
    have "j = i" if "gget (ma_users m) j = Some w" "u_Email w = u_Email u" for j w
      using mem_inv_user(3) [OF inv that(1)] that(2) mem_inv_user(3) [OF inv \<open>gget (ma_users m) i = Some u\<close>]
      by (metis option.inject)
    moreover have "u_ID u = i" "gget (ma_byEmail m) (normalizeEmail (u_Email u)) = Some i"
      unfolding mem_inv_user(2) [OF inv that] using mem_inv_user(1,3) [OF inv that] by blast+
    then have "mem_UserByID m (u_ID u) = Inr u" "mem_UserByEmail m (u_Email u) = Inr u"
      using that unfolding mem_UserByID_def mem_UserByEmail_def by simp_all
    ultimately show ?thesis by blast
  qed
  have b: "gget (ma_users m) (u_ID u') = Some u' \<and> u_Email u' = normalizeEmail e"
    if "mem_UserByEmail m e = Inr u'"
  proof -
    from that obtain k where k: "gget (ma_byEmail m) (normalizeEmail e) = Some k"
      by (auto simp: mem_UserByEmail_def split: option.splits)
    then obtain w where w: "gget (ma_users m) k = Some w" "u_Email w = normalizeEmail e"
      using mem_inv_email [OF inv k] by blast
    have "u' = w" using that k w(1) by (simp add: mem_UserByEmail_def)
    then show ?thesis using w mem_inv_user(1) [OF inv w(1)] by simp
  qed
  from a b show ?thesis by blast
qed

theorem auth_store_consistent_witness:
  "mem_UserByEmail (fst (mem_CreateUser 5 NewMemoryRepo '' Ana@Example.com '' ''h'')) ''ANA@example.com'' =
     Inr \<lparr>u_ID = ''u1'', u_Email = ''ana@example.com'', u_PasswordHash = ''h'', u_Verified = False,
          u_CreatedAt = 5, u_ConsentAt = 0\<rparr>"
proof -
  let ?m = "fst (mem_CreateUser 5 NewMemoryRepo '' Ana@Example.com '' ''h'')"
  let ?u = "\<lparr>u_ID = ''u1'', u_Email = ''ana@example.com'', u_PasswordHash = ''h'', u_Verified = False,
          u_CreatedAt = 5, u_ConsentAt = 0\<rparr>"
  have r: "mem_reach ?m" by (rule mem_reach.step [OF mem_reach.start mem_step.create_user])
  have g: "gget (ma_users ?m) ''u1'' = Some ?u" by code_simp
  have n: "normalizeEmail ''ANA@example.com'' = normalizeEmail (u_Email ?u)" by code_simp
  have "mem_UserByEmail ?m (u_Email ?u) = Inr ?u" using auth_store_consistent [OF r] g by blast
  then show ?thesis using n by (simp only: mem_UserByEmail_def)
qed

end
