(* ===== verification/Go_Base64.thy ===== *)
theory Go_Base64
  imports Go_Prelude
begin

text \<open>
  The \<open>encoding/base64\<close> and \<open>encoding/hex\<close> functions the backend calls:
  \<open>RawStdEncoding\<close>, \<open>RawURLEncoding\<close> and \<open>StdEncoding\<close>. As in Go, decoding skips carriage
  returns and line feeds and accepts non-zero trailing bits. The lemmas are the round
  trips of the raw and of the padded encoding.
\<close>

definition std_char :: "nat \<Rightarrow> char" where
  "std_char n = (if n < 26 then char_of (65 + n) else if n < 52 then char_of (71 + n)
     else if n < 62 then char_of (n - 4) else if n = 62 then CHR ''+'' else CHR ''/'')"

definition url_char :: "nat \<Rightarrow> char" where
  "url_char n = (if n = 62 then CHR ''-'' else if n = 63 then CHR ''_'' else std_char n)"

definition std_val :: "char \<Rightarrow> nat option" where
  "std_val c = (let k = (of_char c :: nat) in
     if 65 \<le> k \<and> k \<le> 90 then Some (k - 65) else if 97 \<le> k \<and> k \<le> 122 then Some (k - 71)
     else if 48 \<le> k \<and> k \<le> 57 then Some (k + 4) else if k = 43 then Some 62
     else if k = 47 then Some 63 else None)"

fun b64_groups :: "nat list \<Rightarrow> nat list" where
  "b64_groups [] = []"
| "b64_groups [a] = [a div 4, (a mod 4) * 16]"
| "b64_groups [a, b] = [a div 4, (a mod 4) * 16 + b div 16, (b mod 16) * 4]"
| "b64_groups (a # b # c # r) =
     a div 4 # ((a mod 4) * 16 + b div 16) # ((b mod 16) * 4 + c div 64) # c mod 64 # b64_groups r"

fun b64_bytes :: "nat list \<Rightarrow> nat list option" where
  "b64_bytes [] = Some []"
| "b64_bytes [w] = None"
| "b64_bytes [w, x] = Some [w * 4 + x div 16]"
| "b64_bytes [w, x, y] = Some [w * 4 + x div 16, (x mod 16) * 16 + y div 4]"
| "b64_bytes (w # x # y # z # r) =
     map_option (\<lambda>bs. (w * 4 + x div 16) # ((x mod 16) * 16 + y div 4) # ((y mod 4) * 64 + z) # bs)
       (b64_bytes r)"

fun all_some :: "'a option list \<Rightarrow> 'a list option" where
  "all_some [] = Some []"
| "all_some (x # xs) = (case x of None \<Rightarrow> None | Some a \<Rightarrow> map_option (Cons a) (all_some xs))"

definition str_bytes :: "string \<Rightarrow> nat list" where
  "str_bytes s = map of_char s"

definition bytes_str :: "nat list \<Rightarrow> string" where
  "bytes_str bs = map char_of bs"

definition raw_std_encode :: "string \<Rightarrow> string" where
  "raw_std_encode s = map std_char (b64_groups (str_bytes s))"

definition raw_url_encode :: "string \<Rightarrow> string" where
  "raw_url_encode s = map url_char (b64_groups (str_bytes s))"

definition std_encode :: "string \<Rightarrow> string" where
  "std_encode s = raw_std_encode s @ replicate ((3 - length s mod 3) mod 3) CHR ''=''"

definition skip_newlines :: "string \<Rightarrow> string" where
  "skip_newlines s = filter (\<lambda>c. c \<noteq> CHR 0x0A \<and> c \<noteq> CHR 0x0D) s"

definition raw_chars_decode :: "string \<Rightarrow> string option" where
  "raw_chars_decode s = (case all_some (map std_val s) of None \<Rightarrow> None
     | Some vs \<Rightarrow> map_option bytes_str (b64_bytes vs))"

definition raw_std_decode :: "string \<Rightarrow> string option" where
  "raw_std_decode s = raw_chars_decode (skip_newlines s)"

definition std_decode :: "string \<Rightarrow> string option" where
  "std_decode s0 =
     (let s = skip_newlines s0;
          body = (if has_suffix s ''=='' then take (length s - 2) s
                  else if has_suffix s ''='' then take (length s - 1) s else s)
      in if length s mod 4 \<noteq> 0 then None else raw_chars_decode body)"

definition hex_char :: "nat \<Rightarrow> char" where
  "hex_char n = (if n < 10 then char_of (48 + n) else char_of (87 + n))"

definition hex_encode :: "string \<Rightarrow> string" where
  "hex_encode s = concat (map (\<lambda>c. let k = of_char c in [hex_char (k div 16), hex_char (k mod 16)]) s)"

lemma hex_char_inj: "a < 16 \<Longrightarrow> b < 16 \<Longrightarrow> hex_char a = hex_char b \<longleftrightarrow> a = b"
  by (auto simp: hex_char_def)

lemma hex_encode_inj: "hex_encode s = hex_encode t \<longleftrightarrow> s = t"
proof (induction s arbitrary: t)
  case Nil then show ?case by (cases t) (auto simp: hex_encode_def Let_def)
next
  case (Cons a s)
  show ?case
  proof (cases t)
    case Nil then show ?thesis by (simp add: hex_encode_def Let_def)
  next
    case (Cons b u)
    have "n < 256 \<Longrightarrow> n div 16 < 16" for n :: nat by presburger
    then have l: "(of_char x :: nat) div 16 < 16" for x using nat_of_char_less_256 [of x] by simp
    have "(of_char a :: nat) = of_char b"
      if "(of_char a :: nat) div 16 = of_char b div 16" "(of_char a :: nat) mod 16 = of_char b mod 16"
      using that by (metis div_mult_mod_eq)
    then have "hex_char (of_char a div 16) = hex_char (of_char b div 16) \<and>
        hex_char (of_char a mod 16) = hex_char (of_char b mod 16) \<longleftrightarrow> a = b"
      by (auto simp: hex_char_inj l)
    then show ?thesis using Cons.IH [of u] Cons by (simp add: hex_encode_def Let_def) blast
  qed
qed

lemma std_char_val [simp]: "n < 64 \<Longrightarrow> std_val (std_char n) = Some n"
  by (auto simp: std_char_def std_val_def Let_def)

lemma std_char_plain:
  "n < 64 \<Longrightarrow> std_char n \<noteq> CHR 0x0A \<and> std_char n \<noteq> CHR 0x0D \<and> std_char n \<noteq> CHR ''$'' \<and> std_char n \<noteq> CHR ''=''"
proof -
  assume "n < 64"
  then have v: "std_val (std_char n) \<noteq> None" by simp
  have "std_val CHR 0x0A = None" "std_val CHR 0x0D = None" "std_val CHR ''$'' = None" "std_val CHR ''='' = None"
    by (simp_all add: std_val_def)
  with v show ?thesis by metis
qed

lemma b64_groups_small: "\<forall>b \<in> set bs. b < 256 \<Longrightarrow> \<forall>g \<in> set (b64_groups bs). g < 64"
  by (induction bs rule: b64_groups.induct) auto

lemma b64_bytes_groups: "\<forall>b \<in> set bs. b < 256 \<Longrightarrow> b64_bytes (b64_groups bs) = Some bs"
proof (induction bs rule: b64_groups.induct)
  case (4 a b c r)
  have "a < 256" "b < 256" "c < 256" using 4 by auto
  then have "b div 16 < 16" "c div 64 < 4" by (simp_all add: less_mult_imp_div_less)
  then have "b div 16 div 16 = 0" "b div 16 mod 16 = b div 16" "c div 64 div 4 = 0" "c div 64 mod 4 = c div 64"
    by simp_all
  then show ?case using 4 by (simp add: div_mult_mod_eq)
qed auto

lemma all_some_map: "\<forall>x \<in> set xs. f (g x) = Some x \<Longrightarrow> all_some (map f (map g xs)) = Some xs"
  by (induction xs) auto

lemma str_bytes_small: "\<forall>b \<in> set (str_bytes s). b < 256"
  by (auto simp: str_bytes_def)

lemma bytes_str_bytes [simp]: "bytes_str (str_bytes s) = s"
  by (induction s) (auto simp: bytes_str_def str_bytes_def)

lemma raw_chars_decode_encode: "raw_chars_decode (raw_std_encode s) = Some s"
proof -
  have "all_some (map std_val (map std_char (b64_groups (str_bytes s)))) = Some (b64_groups (str_bytes s))"
    by (rule all_some_map) (use b64_groups_small [OF str_bytes_small] in auto)
  then show ?thesis
    by (simp add: raw_chars_decode_def raw_std_encode_def b64_bytes_groups [OF str_bytes_small])
qed

lemma raw_std_encode_plain:
  "c \<in> set (raw_std_encode s) \<Longrightarrow> c \<noteq> CHR 0x0A \<and> c \<noteq> CHR 0x0D \<and> c \<noteq> CHR ''$'' \<and> c \<noteq> CHR ''=''"
  using b64_groups_small [OF str_bytes_small, of s] std_char_plain by (auto simp: raw_std_encode_def)

lemma raw_std_roundtrip [simp]: "raw_std_decode (raw_std_encode s) = Some s"
proof -
  have "skip_newlines (raw_std_encode s) = raw_std_encode s"
    unfolding skip_newlines_def using raw_std_encode_plain by (simp add: filter_id_conv)
  then show ?thesis by (simp add: raw_std_decode_def raw_chars_decode_encode)
qed

lemma length_b64_groups: "length (b64_groups bs) = (4 * length bs + 2) div 3"
  by (induction bs rule: b64_groups.induct) auto

lemma length_raw_std_encode: "length (raw_std_encode s) = (4 * length s + 2) div 3"
  by (simp add: raw_std_encode_def length_b64_groups str_bytes_def)

lemma std_roundtrip [simp]: "std_decode (std_encode s) = Some s"
proof -
  let ?e = "raw_std_encode s"
  have skip: "skip_newlines (std_encode s) = std_encode s"
    unfolding skip_newlines_def std_encode_def using raw_std_encode_plain
    by (auto simp: filter_id_conv)
  have nosuf: "\<not> has_suffix ?e [CHR ''='']"
  proof
    assume "has_suffix (raw_std_encode s) [CHR ''='']"
    then have "CHR ''='' \<in> set (raw_std_encode s)"
      by (metis has_suffix_def in_set_dropD list.set_intros(1))
    then show False using raw_std_encode_plain by blast
  qed
  have nosuf2: "\<not> has_suffix (?e @ [CHR ''='']) ''==''"
  proof
    assume a: "has_suffix (?e @ [CHR ''='']) ''==''"
    then have "has_suffix ?e [CHR ''='']" by (auto simp: has_suffix_def Suc_diff_le)
    then show False using nosuf by blast
  qed
  have nosuf3: "\<not> has_suffix ?e ''==''"
    using nosuf by (auto simp: has_suffix_def)
      (metis in_set_dropD list.set_intros(1) raw_std_encode_plain)
  have len: "length (std_encode s) mod 4 = 0"
  proof -
    define q r where "q = length s div 3" and "r = length s mod 3"
    then have l: "length s = 3 * q + r" "r < 3" by simp_all
    then have "r = 0 \<or> r = 1 \<or> r = 2" by linarith
    then have "(4 * (3 * q + r) + 2) div 3 + (3 - r) mod 3 = 4 * (q + (if r = 0 then 0 else 1))" by auto
    then show ?thesis using l by (simp add: std_encode_def length_raw_std_encode r_def [symmetric])
  qed
  consider "length s mod 3 = 0" | "length s mod 3 = 1" | "length s mod 3 = 2" by linarith
  then show ?thesis
  proof cases
    case 1
    then have "std_encode s = ?e" by (simp add: std_encode_def)
    then show ?thesis using skip len nosuf nosuf3
      by (simp add: std_decode_def raw_chars_decode_encode)
  next
    case 2
    then have e: "std_encode s = ?e @ ''==''" by (simp add: std_encode_def numeral_2_eq_2)
    have "has_suffix (?e @ ''=='') ''==''" by (simp add: has_suffix_def)
    then show ?thesis using skip len e by (simp add: std_decode_def raw_chars_decode_encode)
  next
    case 3
    then have e: "std_encode s = ?e @ ''=''" by (simp add: std_encode_def)
    have "has_suffix (?e @ ''='') ''=''" by (simp add: has_suffix_def)
    then show ?thesis using skip len e nosuf2 by (simp add: std_decode_def raw_chars_decode_encode)
  qed
qed

end
