(* ===== verification/Auth_Service.thy ===== *)
theory Auth_Service
  imports Auth_Limiter Auth_Repo Go_Base64
begin

text \<open>
  The HTTP layer of the \<open>auth\<close> package: \<open>auth/service.go\<close>, \<open>auth/oauth.go\<close> and
  \<open>auth/password.go\<close>, over any \<open>Repo\<close>. A handler takes the service state and a request
  and returns the new state and the answer.

  What the process does not decide is an argument: \<open>authEnv\<close> holds the reading of the
  clock at each place where a handler reads it, the random bytes, PBKDF2 as a function, the
  mail server's verdict on a message and the identity provider's answer. A request body is
  what the JSON decoder made of it, \<open>None\<close> when decoding failed. Logging is left out.
\<close>

section \<open>Requests, answers and the environment\<close>

record authReq =
  rq_RemoteAddr :: string
  rq_XForwardedFor :: string
  rq_sessionCookie :: "string option"
  rq_Authorization :: string

record httpCookie =
  ck_Name :: string
  ck_Value :: string
  ck_Path :: string
  ck_HttpOnly :: bool
  ck_Secure :: bool
  ck_SameSiteLax :: bool
  ck_Expires :: "time option"
  ck_MaxAge :: int

datatype authBody =
    AErr string
  | ARegistered string string bool bool "string option"
  | AStatus string
  | AReset string "string option"
  | AMe string string bool
  | AOAuth string string

record authResp =
  ap_status :: nat
  ap_body :: authBody
  ap_cookie :: "httpCookie option"

record mail =
  ml_to :: string
  ml_subject :: string
  ml_token :: string
  ml_ttl :: duration

record OIDCClaims =
  cl_Subject :: string
  cl_Email :: string
  cl_EmailVerified :: bool

record authEnv =
  ev_clock :: "nat \<Rightarrow> time"
  ev_randToken :: "string option"
  ev_randSalt :: "string option"
  ev_pbkdf2 :: "string \<Rightarrow> string \<Rightarrow> int \<Rightarrow> nat \<Rightarrow> string option"
  ev_send :: "mail \<Rightarrow> bool"
  ev_exchange :: "string \<Rightarrow> OIDCClaims option"

record authConfig =
  cf_SessionTTL :: duration
  cf_VerificationTTL :: duration
  cf_ResetTTL :: duration
  cf_LoginMaxAttempts :: int
  cf_LoginWindow :: duration
  cf_IPMaxAttempts :: int
  cf_IPWindow :: duration
  cf_TrustedProxyHops :: int
  cf_GoogleOIDC :: bool
  cf_Mailer :: bool
  cf_DevExposeTokens :: bool

record 's authSvc =
  sv_repo :: 's
  sv_limiter :: rateLimiter
  sv_ipLimiter :: rateLimiter
  sv_outbox :: "mail list"

definition writeErr :: "nat \<Rightarrow> string \<Rightarrow> authResp" where
  "writeErr st msg = \<lparr>ap_status = st, ap_body = AErr msg, ap_cookie = None\<rparr>"

definition writeJSON :: "nat \<Rightarrow> authBody \<Rightarrow> authResp" where
  "writeJSON st b = \<lparr>ap_status = st, ap_body = b, ap_cookie = None\<rparr>"

section \<open>Configuration\<close>

definition withDefaults :: "authConfig \<Rightarrow> authConfig" where
  "withDefaults c =
     c\<lparr>cf_SessionTTL := (if cf_SessionTTL c = 0 then hours 24 else cf_SessionTTL c),
       cf_VerificationTTL := (if cf_VerificationTTL c = 0 then hours 24 else cf_VerificationTTL c),
       cf_ResetTTL := (if cf_ResetTTL c = 0 then hours 1 else cf_ResetTTL c),
       cf_LoginMaxAttempts := (if cf_LoginMaxAttempts c = 0 then 5 else cf_LoginMaxAttempts c),
       cf_LoginWindow := (if cf_LoginWindow c = 0 then minutes 15 else cf_LoginWindow c),
       cf_IPMaxAttempts := (if cf_IPMaxAttempts c = 0 then 30 else cf_IPMaxAttempts c),
       cf_IPWindow := (if cf_IPWindow c = 0 then minutes 15 else cf_IPWindow c)\<rparr>"

definition NewAuthService :: "'s \<Rightarrow> authConfig \<Rightarrow> authConfig \<times> 's authSvc" where
  "NewAuthService repo cfg0 =
     (let cfg = withDefaults cfg0 in
      (cfg, \<lparr>sv_repo = repo,
             sv_limiter = newRateLimiter (cf_LoginMaxAttempts cfg) (cf_LoginWindow cfg),
             sv_ipLimiter = newRateLimiter (cf_IPMaxAttempts cfg) (cf_IPWindow cfg),
             sv_outbox = []\<rparr>))"

text \<open>The registered routes, and whether \<open>RequireVerified\<close> wraps them.\<close>

definition auth_Routes :: "authConfig \<Rightarrow> (string \<times> bool) list" where
  "auth_Routes cfg =
     [(''POST /auth/register'', False), (''POST /auth/verify'', False), (''POST /auth/login'', False),
      (''POST /auth/logout'', False), (''POST /auth/password-reset/request'', False),
      (''POST /auth/password-reset/confirm'', False), (''GET /auth/me'', True)] @
     (if cf_GoogleOIDC cfg then [(''POST /auth/oauth/google/callback'', False)] else [])"

section \<open>Passwords and tokens\<close>

definition pbkdf2Iterations :: int where "pbkdf2Iterations = 210000"

definition keyLen :: nat where "keyLen = 32"

definition HashPassword :: "authEnv \<Rightarrow> string \<Rightarrow> string option" where
  "HashPassword env password =
     (if password = [] then None
      else case ev_randSalt env of
        None \<Rightarrow> None
      | Some salt \<Rightarrow>
          (case ev_pbkdf2 env password salt pbkdf2Iterations keyLen of
             None \<Rightarrow> None
           | Some dk \<Rightarrow>
               Some (''pbkdf2_sha256$'' @ itoa pbkdf2Iterations @ ''$'' @ raw_std_encode salt @ ''$'' @
                     raw_std_encode dk)))"

definition VerifyPassword :: "authEnv \<Rightarrow> string \<Rightarrow> string \<Rightarrow> bool" where
  "VerifyPassword env encoded password =
     (case split_on CHR ''$'' encoded of
        [p0, p1, p2, p3] \<Rightarrow>
          if p0 \<noteq> ''pbkdf2_sha256'' then False
          else (case parse_int64 p1 of
            None \<Rightarrow> False
          | Some iter \<Rightarrow>
              if iter \<le> 0 then False
              else (case raw_std_decode p2 of
                None \<Rightarrow> False
              | Some salt \<Rightarrow>
                  (case raw_std_decode p3 of
                     None \<Rightarrow> False
                   | Some want \<Rightarrow>
                       (case ev_pbkdf2 env password salt iter (length want) of
                          None \<Rightarrow> False
                        | Some got \<Rightarrow> got = want))))
      | _ \<Rightarrow> False)"

definition NewToken :: "authEnv \<Rightarrow> string option" where
  "NewToken env = map_option raw_url_encode (ev_randToken env)"

section \<open>Helpers\<close>

text \<open>\<open>net.SplitHostPort\<close>, \<open>None\<close> standing for its errors.\<close>

definition splitHostPort :: "string \<Rightarrow> (string \<times> string) option" where
  "splitHostPort hp =
     (case last_index_byte hp CHR '':'' of
        None \<Rightarrow> None
      | Some i \<Rightarrow>
          if has_prefix hp ''['' then
            (case index_byte hp CHR '']'' of
               None \<Rightarrow> None
             | Some e \<Rightarrow>
                 if e + 1 \<noteq> i then None
                 else if index_byte (drop 1 hp) CHR ''['' \<noteq> None then None
                 else if index_byte (drop (e + 1) hp) CHR '']'' \<noteq> None then None
                 else Some (take (e - 1) (drop 1 hp), drop (i + 1) hp))
          else if index_byte (take i hp) CHR '':'' \<noteq> None then None
          else if index_byte hp CHR ''['' \<noteq> None \<or> index_byte hp CHR '']'' \<noteq> None then None
          else Some (take i hp, drop (i + 1) hp))"

definition hostOnly :: "string \<Rightarrow> string" where
  "hostOnly addr = (case splitHostPort addr of Some (host, _) \<Rightarrow> host | None \<Rightarrow> addr)"

definition xffItems :: "string \<Rightarrow> string list" where
  "xffItems xff = (if xff = [] then []
     else filter (\<lambda>ip. ip \<noteq> []) (map trim_space (rev (split_on CHR '','' xff))))"

definition clientIP :: "authConfig \<Rightarrow> authReq \<Rightarrow> string" where
  "clientIP cfg r =
     (let peer = hostOnly (rq_RemoteAddr r); hops = cf_TrustedProxyHops cfg in
      if hops \<le> 0 then peer
      else let chain = peer # xffItems (rq_XForwardedFor r);
               idx = (if int (length chain) \<le> hops then length chain - 1 else nat hops)
           in chain ! idx)"

definition ipAllowed ::
  "authConfig \<Rightarrow> authEnv \<Rightarrow> 's authSvc \<Rightarrow> authReq \<Rightarrow> 's authSvc \<times> bool" where
  "ipAllowed cfg env st r =
     (let (l, ok) = Allow (sv_ipLimiter st) (''ip:'' @ clientIP cfg r) (ev_clock env 0)
      in (st\<lparr>sv_ipLimiter := l\<rparr>, ok))"

definition sessionToken :: "authReq \<Rightarrow> string" where
  "sessionToken r =
     (case rq_sessionCookie r of
        Some v \<Rightarrow> if v \<noteq> [] then v
                   else if has_prefix (rq_Authorization r) ''Bearer ''
                        then trim_prefix (rq_Authorization r) ''Bearer '' else []
      | None \<Rightarrow> if has_prefix (rq_Authorization r) ''Bearer ''
                then trim_prefix (rq_Authorization r) ''Bearer '' else [])"

definition validEmail :: "string \<Rightarrow> bool" where
  "validEmail email =
     (case index_byte email CHR ''@'' of
        None \<Rightarrow> False
      | Some at \<Rightarrow> 0 < at \<and> at < length email - 1 \<and>
          \<not> contains_any email [CHR '' '', CHR 0x09, CHR 0x0A])"

definition deleteNewUser :: "'s authRepo \<Rightarrow> 's \<Rightarrow> string \<Rightarrow> 's" where
  "deleteNewUser R s userID = fst (ar_DeleteUser R s userID)"

definition setSessionCookie :: "session \<Rightarrow> httpCookie" where
  "setSessionCookie sess =
     \<lparr>ck_Name = ''session'', ck_Value = s_Token sess, ck_Path = ''/'', ck_HttpOnly = True,
      ck_Secure = True, ck_SameSiteLax = True, ck_Expires = Some (s_ExpiresAt sess), ck_MaxAge = 0\<rparr>"

definition clearSessionCookie :: httpCookie where
  "clearSessionCookie =
     \<lparr>ck_Name = ''session'', ck_Value = [], ck_Path = ''/'', ck_HttpOnly = True,
      ck_Secure = True, ck_SameSiteLax = True, ck_Expires = None, ck_MaxAge = -1\<rparr>"

section \<open>Handlers\<close>

record registerReq =
  rg_Email :: string
  rg_Password :: string
  rg_Consent :: bool

definition verificationMail :: "authConfig \<Rightarrow> user \<Rightarrow> string \<Rightarrow> mail" where
  "verificationMail cfg u token =
     \<lparr>ml_to = u_Email u, ml_subject = ''Verify your Auto Applier account'', ml_token = token,
      ml_ttl = cf_VerificationTTL cfg\<rparr>"

text \<open>
  The second half of \<open>handleRegister\<close>, from \<open>CreateUser\<close> on: every later failure deletes
  the new account again.
\<close>

definition registerAccount ::
  "'s authRepo \<Rightarrow> authConfig \<Rightarrow> authEnv \<Rightarrow> 's authSvc \<Rightarrow> string \<Rightarrow> string \<Rightarrow> 's authSvc \<times> authResp" where
  "registerAccount R cfg env st email hash =
     (case ar_CreateUser R (sv_repo st) email hash of
        (s1, Inl e) \<Rightarrow>
          (st\<lparr>sv_repo := s1\<rparr>, if e = EmailTaken then writeErr 409 ''email already registered''
                              else writeErr 500 ''create user error'')
      | (s1, Inr u) \<Rightarrow>
          (let undo = (\<lambda>s code msg.
             (st\<lparr>sv_repo := deleteNewUser R s (u_ID u)\<rparr>, writeErr code msg)) in
           case ar_SetConsent R s1 (u_ID u) (ev_clock env 1) of
             (s2, Some _) \<Rightarrow> undo s2 500 ''consent error''
           | (s2, None) \<Rightarrow>
               (case NewToken env of
                  None \<Rightarrow> undo s2 500 ''token error''
                | Some token \<Rightarrow>
                    (case ar_CreateVerification R s2 (u_ID u) token
                            (add_dur (ev_clock env 2) (cf_VerificationTTL cfg)) of
                       (s3, Some _) \<Rightarrow> undo s3 500 ''verification error''
                     | (s3, None) \<Rightarrow>
                         (let m = verificationMail cfg u token;
                              resp = writeJSON 201 (ARegistered (u_ID u) (u_Email u) (u_Verified u) True
                                (if cf_DevExposeTokens cfg then Some token else None)) in
                          if cf_Mailer cfg then
                            (if ev_send env m
                             then (st\<lparr>sv_repo := s3, sv_outbox := sv_outbox st @ [m]\<rparr>, resp)
                             else undo s3 502 ''verification email failed'')
                          else (st\<lparr>sv_repo := s3\<rparr>, resp))))))"

definition handleRegister ::
  "'s authRepo \<Rightarrow> authConfig \<Rightarrow> authEnv \<Rightarrow> 's authSvc \<Rightarrow> authReq \<Rightarrow> registerReq option \<Rightarrow>
   's authSvc \<times> authResp" where
  "handleRegister R cfg env st0 r body =
     (let (st, ok) = ipAllowed cfg env st0 r in
      if \<not> ok then (st, writeErr 429 ''too many requests'')
      else case body of
        None \<Rightarrow> (st, writeErr 400 ''invalid JSON body'')
      | Some req \<Rightarrow>
          (let email = normalizeEmail (rg_Email req) in
           if \<not> validEmail email \<or> length (rg_Password req) < 8
           then (st, writeErr 400 ''invalid email or password too short (min 8)'')
           else if \<not> rg_Consent req
           then (st, writeErr 400 ''consent to data processing is required'')
           else if \<not> cf_Mailer cfg \<and> \<not> cf_DevExposeTokens cfg
           then (st, writeErr 503 ''email delivery unavailable'')
           else case HashPassword env (rg_Password req) of
             None \<Rightarrow> (st, writeErr 500 ''hash error'')
           | Some hash \<Rightarrow> registerAccount R cfg env st email hash))"

definition handleVerify ::
  "'s authRepo \<Rightarrow> authEnv \<Rightarrow> 's authSvc \<Rightarrow> string option \<Rightarrow> 's authSvc \<times> authResp" where
  "handleVerify R env st body =
     (case body of
        None \<Rightarrow> (st, writeErr 400 ''invalid JSON body'')
      | Some token \<Rightarrow>
          (case ar_VerifyUser R (sv_repo st) token (ev_clock env 0) of
             (s1, Some InvalidToken) \<Rightarrow> (st\<lparr>sv_repo := s1\<rparr>, writeErr 400 ''invalid verification token'')
           | (s1, Some _) \<Rightarrow> (st\<lparr>sv_repo := s1\<rparr>, writeErr 500 ''verify error'')
           | (s1, None) \<Rightarrow> (st\<lparr>sv_repo := s1\<rparr>, writeJSON 200 (AStatus ''verified''))))"

definition handleLogin ::
  "'s authRepo \<Rightarrow> authConfig \<Rightarrow> authEnv \<Rightarrow> 's authSvc \<Rightarrow> authReq \<Rightarrow> registerReq option \<Rightarrow>
   's authSvc \<times> authResp" where
  "handleLogin R cfg env st0 r body =
     (let (st, ok) = ipAllowed cfg env st0 r in
      if \<not> ok then (st, writeErr 429 ''too many requests'')
      else case body of
        None \<Rightarrow> (st, writeErr 400 ''invalid JSON body'')
      | Some req \<Rightarrow>
          (let email = normalizeEmail (rg_Email req);
               key = ''login:'' @ clientIP cfg r @ ''|'' @ email;
               (l, okl) = Allow (sv_limiter st) key (ev_clock env 1);
               st1 = st\<lparr>sv_limiter := l\<rparr> in
           if \<not> okl then (st1, writeErr 429 ''too many login attempts'')
           else case ar_UserByEmail R (sv_repo st1) email of
             Inl _ \<Rightarrow> (st1, writeErr 401 ''invalid credentials'')
           | Inr u \<Rightarrow>
               if \<not> VerifyPassword env (u_PasswordHash u) (rg_Password req)
               then (st1, writeErr 401 ''invalid credentials'')
               else (case NewToken env of
                 None \<Rightarrow> (st1, writeErr 500 ''token error'')
               | Some token \<Rightarrow>
                   (let sess = \<lparr>s_Token = token, s_UserID = u_ID u,
                                s_ExpiresAt = add_dur (ev_clock env 2) (cf_SessionTTL cfg)\<rparr> in
                    case ar_CreateSession R (sv_repo st1) sess of
                      (s1, Some _) \<Rightarrow> (st1\<lparr>sv_repo := s1\<rparr>, writeErr 500 ''session error'')
                    | (s1, None) \<Rightarrow>
                        (st1\<lparr>sv_repo := s1, sv_limiter := Reset (sv_limiter st1) key\<rparr>,
                         (writeJSON 200 (AStatus ''authenticated''))\<lparr>ap_cookie := Some (setSessionCookie sess)\<rparr>)))))"

text \<open>\<open>startSession\<close>: \<open>k\<close> is the position of its clock reading in the request.\<close>

definition startSession ::
  "'s authRepo \<Rightarrow> authConfig \<Rightarrow> authEnv \<Rightarrow> nat \<Rightarrow> 's \<Rightarrow> string \<Rightarrow> 's \<times> session option" where
  "startSession R cfg env k s userID =
     (case NewToken env of
        None \<Rightarrow> (s, None)
      | Some token \<Rightarrow>
          (let sess = \<lparr>s_Token = token, s_UserID = userID,
                       s_ExpiresAt = add_dur (ev_clock env k) (cf_SessionTTL cfg)\<rparr> in
           case ar_CreateSession R s sess of
             (s1, Some _) \<Rightarrow> (s1, None)
           | (s1, None) \<Rightarrow> (s1, Some sess)))"

definition handleLogout ::
  "'s authRepo \<Rightarrow> 's authSvc \<Rightarrow> authReq \<Rightarrow> 's authSvc \<times> authResp" where
  "handleLogout R st r =
     (let token = sessionToken r;
          fin = (writeJSON 200 (AStatus ''logged_out''))\<lparr>ap_cookie := Some clearSessionCookie\<rparr> in
      if token \<noteq> [] then
        (case ar_DeleteSession R (sv_repo st) token of
           (s1, Some _) \<Rightarrow> (st\<lparr>sv_repo := s1\<rparr>, writeErr 500 ''logout error'')
         | (s1, None) \<Rightarrow> (st\<lparr>sv_repo := s1\<rparr>, fin))
      else (st, fin))"

definition handleMe :: "user \<Rightarrow> authResp" where
  "handleMe u = writeJSON 200 (AMe (u_ID u) (u_Email u) (u_Verified u))"

definition resetMail :: "authConfig \<Rightarrow> user \<Rightarrow> string \<Rightarrow> mail" where
  "resetMail cfg u token =
     \<lparr>ml_to = u_Email u, ml_subject = ''Reset your Auto Applier password'', ml_token = token,
      ml_ttl = cf_ResetTTL cfg\<rparr>"

definition handleResetRequest ::
  "'s authRepo \<Rightarrow> authConfig \<Rightarrow> authEnv \<Rightarrow> 's authSvc \<Rightarrow> authReq \<Rightarrow> string option \<Rightarrow>
   's authSvc \<times> authResp" where
  "handleResetRequest R cfg env st0 r body =
     (let (st, ok) = ipAllowed cfg env st0 r in
      if \<not> ok then (st, writeErr 429 ''too many requests'')
      else case body of
        None \<Rightarrow> (st, writeErr 400 ''invalid JSON body'')
      | Some email \<Rightarrow>
          (let plain = writeJSON 200 (AReset ''ok'' None) in
           case ar_UserByEmail R (sv_repo st) email of
             Inl _ \<Rightarrow> (st, plain)
           | Inr u \<Rightarrow>
               (case NewToken env of
                  None \<Rightarrow> (st, plain)
                | Some token \<Rightarrow>
                    (case ar_CreateReset R (sv_repo st) (u_ID u) token
                            (add_dur (ev_clock env 1) (cf_ResetTTL cfg)) of
                       (s1, Some _) \<Rightarrow> (st\<lparr>sv_repo := s1\<rparr>, plain)
                     | (s1, None) \<Rightarrow>
                         (let m = resetMail cfg u token;
                              sent = (if cf_Mailer cfg \<and> ev_send env m then [m] else []) in
                          (st\<lparr>sv_repo := s1, sv_outbox := sv_outbox st @ sent\<rparr>,
                           if cf_DevExposeTokens cfg then writeJSON 200 (AReset ''ok'' (Some token))
                           else plain))))))"

record resetConfirmReq =
  rc_Token :: string
  rc_NewPassword :: string

definition handleResetConfirm ::
  "'s authRepo \<Rightarrow> authConfig \<Rightarrow> authEnv \<Rightarrow> 's authSvc \<Rightarrow> authReq \<Rightarrow> resetConfirmReq option \<Rightarrow>
   's authSvc \<times> authResp" where
  "handleResetConfirm R cfg env st0 r body =
     (let (st, ok) = ipAllowed cfg env st0 r in
      if \<not> ok then (st, writeErr 429 ''too many requests'')
      else case body of
        None \<Rightarrow> (st, writeErr 400 ''invalid JSON body'')
      | Some req \<Rightarrow>
          if length (rc_NewPassword req) < 8 then (st, writeErr 400 ''password too short (min 8)'')
          else case HashPassword env (rc_NewPassword req) of
            None \<Rightarrow> (st, writeErr 500 ''hash error'')
          | Some hash \<Rightarrow>
              (case ar_ResetPassword R (sv_repo st) (rc_Token req) hash (ev_clock env 1) of
                 (s1, Some InvalidToken) \<Rightarrow> (st\<lparr>sv_repo := s1\<rparr>, writeErr 400 ''invalid or expired reset token'')
               | (s1, Some _) \<Rightarrow> (st\<lparr>sv_repo := s1\<rparr>, writeErr 500 ''update error'')
               | (s1, None) \<Rightarrow> (st\<lparr>sv_repo := s1\<rparr>, writeJSON 200 (AStatus ''password_updated''))))"

section \<open>Middleware\<close>

text \<open>\<open>Inr u\<close>: the wrapped handler runs with \<open>u\<close> in its context.\<close>

definition RequireVerified :: "'s authRepo \<Rightarrow> authEnv \<Rightarrow> 's \<Rightarrow> authReq \<Rightarrow> authResp + user" where
  "RequireVerified R env s r =
     (let token = sessionToken r in
      if token = [] then Inl (writeErr 401 ''authentication required'')
      else case ar_SessionByToken R s token of
        Inl AuthNotFound \<Rightarrow> Inl (writeErr 401 ''invalid or expired session'')
      | Inl _ \<Rightarrow> Inl (writeErr 500 ''session lookup error'')
      | Inr sess \<Rightarrow>
          if after (ev_clock env 0) (s_ExpiresAt sess) then Inl (writeErr 401 ''invalid or expired session'')
          else (case ar_UserByID R s (s_UserID sess) of
            Inl AuthNotFound \<Rightarrow> Inl (writeErr 401 ''invalid session'')
          | Inl _ \<Rightarrow> Inl (writeErr 500 ''user lookup error'')
          | Inr u \<Rightarrow> if \<not> u_Verified u then Inl (writeErr 403 ''email not verified'') else Inr u))"

definition OptionalVerified :: "'s authRepo \<Rightarrow> authEnv \<Rightarrow> 's \<Rightarrow> authReq \<Rightarrow> user option" where
  "OptionalVerified R env s r =
     (let token = sessionToken r in
      if token = [] then None
      else case ar_SessionByToken R s token of
        Inl _ \<Rightarrow> None
      | Inr sess \<Rightarrow>
          if after (ev_clock env 0) (s_ExpiresAt sess) then None
          else (case ar_UserByID R s (s_UserID sess) of
            Inl _ \<Rightarrow> None
          | Inr u \<Rightarrow> if \<not> u_Verified u then None else Some u))"

section \<open>Google sign-in\<close>

record oauthCallbackReq =
  oc_Code :: string
  oc_Consent :: bool

text \<open>
  The account the claims lead to: found or created, with consent on record, as the
  first half of \<open>handleGoogleCallback\<close> does. \<open>Inl\<close> carries the answer of an early return.
\<close>

definition oauthAccount ::
  "'s authRepo \<Rightarrow> authEnv \<Rightarrow> 's \<Rightarrow> OIDCClaims \<Rightarrow> bool \<Rightarrow> 's \<times> (authResp + user)" where
  "oauthAccount R env s claims consent =
     (case ar_UserByEmail R s (cl_Email claims) of
        Inl AuthNotFound \<Rightarrow>
          if \<not> consent then (s, Inl (writeErr 400 ''consent to data processing is required''))
          else (case ar_CreateUser R s (cl_Email claims) [] of
            (s1, Inl _) \<Rightarrow> (s1, Inl (writeErr 500 ''create user error''))
          | (s1, Inr u) \<Rightarrow>
              (case ar_SetConsent R s1 (u_ID u) (ev_clock env 1) of
                 (s2, Some _) \<Rightarrow> (deleteNewUser R s2 (u_ID u), Inl (writeErr 500 ''consent error''))
               | (s2, None) \<Rightarrow>
                   (case ar_SetVerified R s2 (u_ID u) of
                      (s3, Some _) \<Rightarrow> (deleteNewUser R s3 (u_ID u), Inl (writeErr 500 ''verify error''))
                    | (s3, None) \<Rightarrow> (s3, Inr (u\<lparr>u_Verified := True\<rparr>)))))
      | Inl _ \<Rightarrow> (s, Inl (writeErr 500 ''lookup error''))
      | Inr u \<Rightarrow>
          if is_zero_time (u_ConsentAt u) then
            (if \<not> consent then (s, Inl (writeErr 400 ''consent to data processing is required''))
             else (case ar_SetConsent R s (u_ID u) (ev_clock env 1) of
               (s1, Some _) \<Rightarrow> (s1, Inl (writeErr 500 ''consent error''))
             | (s1, None) \<Rightarrow> (s1, Inr u)))
          else (s, Inr u))"

definition handleGoogleCallback ::
  "'s authRepo \<Rightarrow> authConfig \<Rightarrow> authEnv \<Rightarrow> 's authSvc \<Rightarrow> authReq \<Rightarrow> oauthCallbackReq option \<Rightarrow>
   's authSvc \<times> authResp" where
  "handleGoogleCallback R cfg env st0 r body =
     (let (st, ok) = ipAllowed cfg env st0 r in
      if \<not> ok then (st, writeErr 429 ''too many requests'')
      else case body of
        None \<Rightarrow> (st, writeErr 400 ''invalid JSON body'')
      | Some req \<Rightarrow>
          if oc_Code req = [] then (st, writeErr 400 ''missing code'')
          else case ev_exchange env (oc_Code req) of
            None \<Rightarrow> (st, writeErr 401 ''oauth exchange failed'')
          | Some claims \<Rightarrow>
              if cl_Email claims = [] \<or> \<not> cl_EmailVerified claims
              then (st, writeErr 401 ''email not present or unverified'')
              else (case oauthAccount R env (sv_repo st) claims (oc_Consent req) of
                (s1, Inl resp) \<Rightarrow> (st\<lparr>sv_repo := s1\<rparr>, resp)
              | (s1, Inr u) \<Rightarrow>
                  (case (if \<not> u_Verified u then ar_SetVerified R s1 (u_ID u) else (s1, None)) of
                     (s2, Some _) \<Rightarrow> (st\<lparr>sv_repo := s2\<rparr>, writeErr 500 ''verify error'')
                   | (s2, None) \<Rightarrow>
                       (case startSession R cfg env 2 s2 (u_ID u) of
                          (s3, None) \<Rightarrow> (st\<lparr>sv_repo := s3\<rparr>, writeErr 500 ''session error'')
                        | (s3, Some sess) \<Rightarrow>
                            (st\<lparr>sv_repo := s3\<rparr>,
                             (writeJSON 200 (AOAuth ''authenticated'' (u_ID u)))
                               \<lparr>ap_cookie := Some (setSessionCookie sess)\<rparr>)))))"

end
