(* ===== verification/Auth_Props.thy ===== *)
theory Auth_Props
  imports Auth_Service
begin

text \<open>
  What the account endpoints guarantee. The client lemmas are proved in the locales of
  \<open>Auth_Repo\<close>, for any repository that keeps the contract, and the properties are their
  instances for the in-memory repository.
\<close>

section \<open>Inputs of the witnesses\<close>

definition sampleEnv :: authEnv where
  "sampleEnv = \<lparr>ev_clock = (\<lambda>k. 1000 + int k), ev_randToken = Some ''tok'', ev_randSalt = Some ''salt'',
     ev_pbkdf2 = (\<lambda>pw salt it n. Some (take n (pw @ replicate n CHR ''0''))), ev_send = (\<lambda>_. True),
     ev_exchange = (\<lambda>c. Some \<lparr>cl_Subject = c, cl_Email = ''ana@example.com'', cl_EmailVerified = True\<rparr>)\<rparr>"

definition sampleCfg :: authConfig where
  "sampleCfg = withDefaults \<lparr>cf_SessionTTL = 0, cf_VerificationTTL = 0, cf_ResetTTL = 0,
     cf_LoginMaxAttempts = 0, cf_LoginWindow = 0, cf_IPMaxAttempts = 0, cf_IPWindow = 0,
     cf_TrustedProxyHops = 1, cf_GoogleOIDC = True, cf_Mailer = True, cf_DevExposeTokens = False\<rparr>"

definition sampleReq :: authReq where
  "sampleReq = \<lparr>rq_RemoteAddr = ''10.0.0.1:443'', rq_XForwardedFor = ''1.2.3.4'',
     rq_sessionCookie = None, rq_Authorization = []\<rparr>"

definition sampleSvc :: "memAuth authSvc" where
  "sampleSvc = snd (NewAuthService NewMemoryRepo sampleCfg)"

definition sampleRegister :: registerReq where
  "sampleRegister = \<lparr>rg_Email = ''ana@example.com'', rg_Password = ''longenough'', rg_Consent = True\<rparr>"

definition sampleRegistered :: "memAuth authSvc" where
  "sampleRegistered = fst (handleRegister (memRepoOps 7) sampleCfg sampleEnv sampleSvc sampleReq (Some sampleRegister))"

definition sampleUser :: user where
  "sampleUser = \<lparr>u_ID = ''u1'', u_Email = ''ana@example.com'', u_PasswordHash = ''h'', u_Verified = True,
     u_CreatedAt = 7, u_ConsentAt = 0\<rparr>"

definition sampleStore :: memAuth where
  "sampleStore = fst (mem_CreateReset (fst (mem_CreateSession
     (fst (mem_SetVerified (fst (mem_CreateUser 7 NewMemoryRepo ''Ana@example.com'' ''h'')) ''u1''))
     \<lparr>s_Token = ''t'', s_UserID = ''u1'', s_ExpiresAt = 2000\<rparr>)) ''u1'' ''reset'' 2000)"

lemma sampleStore_inv: "mem_inv sampleStore"
  by (simp add: sampleStore_def mem_ops_inv)

lemma sampleSvc_inv [simp]: "mem_inv (sv_repo sampleSvc)"
  by (simp add: sampleSvc_def NewAuthService_def Let_def)

section \<open>Client addresses\<close>

lemma split_on_append_sep: "split_on b (s @ b # t) = split_on b s @ split_on b t"
  unfolding split_on_def by (induction s) (auto split: list.splits)

lemma xffItems_append: "xffItems (a @ CHR '','' # t) = xffItems t @ xffItems a"
  by (auto simp: xffItems_def split_on_append_sep split_on_no_sep)

lemma ipAllowed_repo [simp]:
  "sv_repo (fst (ipAllowed cfg env st r)) = sv_repo st"
  "sv_outbox (fst (ipAllowed cfg env st r)) = sv_outbox st"
  by (simp_all add: ipAllowed_def case_prod_unfold Let_def)

text \<open>
  The key of the per-IP limiters cannot be spoofed. Whatever a client puts in front of
  the \<open>X-Forwarded-For\<close> entries its proxies append, the derived client address is the same,
  both without trusted proxies and when at least as many entries follow as proxies are
  trusted.
\<close>

theorem clientIP_unspoofable:
  assumes "cf_TrustedProxyHops cfg \<le> int (length (xffItems trusted))"
  shows "clientIP cfg (r\<lparr>rq_XForwardedFor := forged @ CHR '','' # trusted\<rparr>) =
         clientIP cfg (r\<lparr>rq_XForwardedFor := trusted\<rparr>)"
  using assms by (auto simp: clientIP_def Let_def xffItems_append nth_Cons' nth_append)

theorem clientIP_unspoofable_witness:
  "clientIP sampleCfg (sampleReq\<lparr>rq_XForwardedFor := ''6.6.6.6'' @ CHR '','' # '' 1.2.3.4''\<rparr>) = ''1.2.3.4''"
proof -
  have l: "cf_TrustedProxyHops sampleCfg \<le> int (length (xffItems '' 1.2.3.4''))" by code_simp
  have v: "clientIP sampleCfg (sampleReq\<lparr>rq_XForwardedFor := '' 1.2.3.4''\<rparr>) = ''1.2.3.4''" by code_simp
  show ?thesis using clientIP_unspoofable [OF l, where r = sampleReq and forged = "''6.6.6.6''"] v by simp
qed

section \<open>Passwords\<close>

lemma digits_no_dollar: "CHR ''$'' \<notin> set (itoa n)"
proof -
  have "c \<in> set (nat_digits k) \<Longrightarrow> is_digit c" for c k
    using nat_digits_digit [of k] by (simp add: list.pred_set)
  moreover have "\<not> is_digit CHR ''$''" by (simp add: is_digit_def)
  ultimately show ?thesis by (auto simp: itoa_def)
qed

lemma hash_parts:
  "split_on CHR ''$'' (''pbkdf2_sha256$'' @ itoa n @ ''$'' @ raw_std_encode salt @ ''$'' @ raw_std_encode dk) =
     [''pbkdf2_sha256'', itoa n, raw_std_encode salt, raw_std_encode dk]"
proof -
  have p: "CHR ''$'' \<notin> set (raw_std_encode s)" for s using raw_std_encode_plain by blast
  have "split_on CHR ''$'' (''pbkdf2_sha256'' @ CHR ''$'' # (itoa n @ CHR ''$'' #
      (raw_std_encode salt @ CHR ''$'' # raw_std_encode dk))) =
      [''pbkdf2_sha256'', itoa n, raw_std_encode salt, raw_std_encode dk]"
    by (simp only: split_on_append_sep split_on_no_sep [OF digits_no_dollar] split_on_no_sep [OF p])
      (simp add: split_on_def)
  then show ?thesis by simp
qed

text \<open>
  A stored password hash accepts exactly the passwords with the same derived key. The
  self-describing text \<open>HashPassword\<close> writes is parsed back by \<open>VerifyPassword\<close> into the same
  iteration count, salt and key length, so checking a password against it is comparing its
  PBKDF2 output with the stored one; the password it was made from is accepted.
\<close>

theorem password_roundtrip:
  assumes kdf: "\<forall>pw salt it n dk. ev_pbkdf2 env pw salt it n = Some dk \<longrightarrow> length dk = n"
    and h: "HashPassword env pw = Some h"
  shows "VerifyPassword env h pw \<and> (VerifyPassword env h pw' \<longleftrightarrow>
      (\<exists>salt dk. ev_randSalt env = Some salt \<and> ev_pbkdf2 env pw salt pbkdf2Iterations keyLen = Some dk \<and>
        ev_pbkdf2 env pw' salt pbkdf2Iterations keyLen = Some dk))"
proof -
  obtain salt dk where s: "ev_randSalt env = Some salt" "ev_pbkdf2 env pw salt pbkdf2Iterations keyLen = Some dk"
    and h': "h = ''pbkdf2_sha256$'' @ itoa pbkdf2Iterations @ ''$'' @ raw_std_encode salt @ ''$'' @ raw_std_encode dk"
    using h by (auto simp: HashPassword_def split: option.splits if_splits)
  have i: "parse_int64 (itoa pbkdf2Iterations) = Some pbkdf2Iterations"
    by (rule parse_int64_itoa) (simp_all add: pbkdf2Iterations_def)
  have v: "VerifyPassword env h x \<longleftrightarrow> ev_pbkdf2 env x salt pbkdf2Iterations keyLen = Some dk" for x
    using kdf [rule_format, OF s(2)] i
    by (simp add: VerifyPassword_def h' hash_parts [simplified] pbkdf2Iterations_def split: option.splits)
  show ?thesis using v s by auto
qed

theorem password_roundtrip_witness:
  "\<exists>h. HashPassword sampleEnv ''secret12'' = Some h \<and> VerifyPassword sampleEnv h ''secret12''"
proof -
  have k: "\<forall>pw salt it n dk. ev_pbkdf2 sampleEnv pw salt it n = Some dk \<longrightarrow> length dk = n"
    by (auto simp: sampleEnv_def)
  obtain h where h: "HashPassword sampleEnv ''secret12'' = Some h"
    by (auto simp: HashPassword_def sampleEnv_def)
  from password_roundtrip [OF k h] have "VerifyPassword sampleEnv h ''secret12''" by blast
  with h show ?thesis by blast
qed

section \<open>Registration\<close>

context auth_repo_total begin

lemma SetConsent_users:
  assumes "inv s" "ar_SetConsent R s i t = (s', r)" "v_users (view s) i = Some u"
  shows "inv s'" "r = None \<Longrightarrow> v_users (view s') = (v_users (view s))(i \<mapsto> u\<lparr>u_ConsentAt := stamp t\<rparr>)"
    "r \<noteq> None \<Longrightarrow> v_users (view s') = v_users (view s)"
  using SetConsent [OF assms(1,2)] assms(3) by (auto simp: updated_user_def split: option.splits)

lemma rollback_users:
  assumes "inv s" "v_users (view s) = f(i \<mapsto> w)" "f i = None"
  shows "inv (deleteNewUser R s i) \<and> v_users (view (deleteNewUser R s i)) = f"
proof -
  obtain s' r where d: "ar_DeleteUser R s i = (s', r)" by fastforce
  have "r = None" using DeleteUser_total [OF assms(1), of i] assms(2) d by simp
  then show ?thesis using DeleteUser [OF assms(1) d] assms(2,3) d
    by (simp add: deleteNewUser_def erase_def fun_upd_idem)
qed

lemma registerAccount_outcome:
  assumes "inv (sv_repo st)" "registerAccount R cfg env st email hash = (st', resp)"
  shows "inv (sv_repo st') \<and>
    (ap_status resp \<noteq> 201 \<longrightarrow>
       v_users (view (sv_repo st')) = v_users (view (sv_repo st)) \<and> sv_outbox st' = sv_outbox st) \<and>
    (ap_status resp = 201 \<longrightarrow> (\<exists>u token.
       NewToken env = Some token \<and> v_users (view (sv_repo st)) (u_ID u) = None \<and>
       u_Email u = normalizeEmail email \<and> u_PasswordHash u = hash \<and> \<not> u_Verified u \<and>
       u_ConsentAt u = stamp (ev_clock env 1) \<and>
       v_users (view (sv_repo st')) = (v_users (view (sv_repo st)))(u_ID u \<mapsto> u) \<and>
       v_verifs (view (sv_repo st')) token =
         Some \<lparr>rr_userID = u_ID u, rr_expiresAt = stamp (ev_clock env 2 + cf_VerificationTTL cfg)\<rparr> \<and>
       sv_outbox st' = sv_outbox st @ (if cf_Mailer cfg then [verificationMail cfg u token] else [])))"
proof -
  let ?s = "sv_repo st"
  obtain s1 r where c: "ar_CreateUser R ?s email hash = (s1, r)" by fastforce
  note c' = CreateUser [OF assms(1) c]
  show ?thesis
  proof (cases r)
    case (Inl e)
    then show ?thesis using assms(2) c c'
      by (cases "e = EmailTaken") (auto simp: registerAccount_def writeErr_def)
  next
    case (Inr u)
    have s1: "inv s1" "v_users (view s1) = (v_users (view ?s))(u_ID u \<mapsto> u)" "v_users (view ?s) (u_ID u) = None"
      using c' Inr by auto
    obtain s2 r2 where k: "ar_SetConsent R s1 (u_ID u) (ev_clock env 1) = (s2, r2)" by fastforce
    let ?u = "u\<lparr>u_ConsentAt := stamp (ev_clock env 1)\<rparr>"
    have s2: "inv s2" "v_users (view s2) = (v_users (view ?s))(u_ID u \<mapsto> (if r2 = None then ?u else u))"
      using SetConsent_users [OF s1(1) k, of u] s1(2) by auto
    note undo2 = rollback_users [OF s2 s1(3)]
    show ?thesis
    proof (cases "r2 = None \<and> NewToken env \<noteq> None")
      case False
      then show ?thesis using assms(2) c Inr k undo2
        by (auto simp: registerAccount_def writeErr_def Let_def split: option.splits)
    next
      case True
      then obtain token where tok: "NewToken env = Some token" "r2 = None" by auto
      obtain s3 r3 where v: "ar_CreateVerification R s2 (u_ID u) token
          (add_dur (ev_clock env 2) (cf_VerificationTTL cfg)) = (s3, r3)" by fastforce
      note v' = CreateVerification [OF s2(1) v]
      have s3: "inv s3" "v_users (view s3) = (v_users (view ?s))(u_ID u \<mapsto> ?u)" using v' s2(2) tok by auto
      note undo3 = rollback_users [OF s3 s1(3)]
      have m: "verificationMail cfg ?u token = verificationMail cfg u token" by (simp add: verificationMail_def)
      show ?thesis
      proof (cases "r3 = None \<and> (cf_Mailer cfg \<longrightarrow> ev_send env (verificationMail cfg u token))")
        case False
        then show ?thesis using assms(2) c Inr k tok v undo3
          by (auto simp: registerAccount_def writeErr_def Let_def split: option.splits if_splits)
      next
        case True
        then have "resp = writeJSON 201 (ARegistered (u_ID u) (u_Email u) (u_Verified u) True
            (if cf_DevExposeTokens cfg then Some token else None))" "sv_repo st' = s3"
          "sv_outbox st' = sv_outbox st @ (if cf_Mailer cfg then [verificationMail cfg u token] else [])"
          using assms(2) c Inr k tok v by (auto simp: registerAccount_def Let_def split: if_splits)
        then show ?thesis using True c' Inr s3 v' tok m
          by (auto simp: writeJSON_def add_dur_def intro!: exI [of _ ?u])
      qed
    qed
  qed
qed

lemma handleRegister_outcome:
  assumes "inv (sv_repo st)" "handleRegister R cfg env st r body = (st', resp)"
  shows "inv (sv_repo st') \<and>
    (ap_status resp \<noteq> 201 \<longrightarrow>
       v_users (view (sv_repo st')) = v_users (view (sv_repo st)) \<and> sv_outbox st' = sv_outbox st) \<and>
    (ap_status resp = 201 \<longrightarrow> (\<exists>req u token.
       body = Some req \<and> rg_Consent req \<and> 8 \<le> length (rg_Password req) \<and>
       NewToken env = Some token \<and> v_users (view (sv_repo st)) (u_ID u) = None \<and>
       u_Email u = normalizeEmail (rg_Email req) \<and> HashPassword env (rg_Password req) = Some (u_PasswordHash u) \<and>
       \<not> u_Verified u \<and> u_ConsentAt u = stamp (ev_clock env 1) \<and>
       v_users (view (sv_repo st')) = (v_users (view (sv_repo st)))(u_ID u \<mapsto> u) \<and>
       v_verifs (view (sv_repo st')) token =
         Some \<lparr>rr_userID = u_ID u, rr_expiresAt = stamp (ev_clock env 2 + cf_VerificationTTL cfg)\<rparr> \<and>
       sv_outbox st' = sv_outbox st @ (if cf_Mailer cfg then [verificationMail cfg u token] else [])))"
proof -
  obtain st1 ok where ip: "ipAllowed cfg env st r = (st1, ok)" by fastforce
  have st1: "sv_repo st1 = sv_repo st" "sv_outbox st1 = sv_outbox st"
    using ipAllowed_repo [of cfg env st r] ip by auto
  show ?thesis
  proof (cases "\<exists>req hash. ok \<and> body = Some req \<and> validEmail (normalizeEmail (rg_Email req)) \<and>
      8 \<le> length (rg_Password req) \<and> rg_Consent req \<and> (cf_Mailer cfg \<or> cf_DevExposeTokens cfg) \<and>
      HashPassword env (rg_Password req) = Some hash")
    case False
    then have "sv_repo st' = sv_repo st \<and> sv_outbox st' = sv_outbox st \<and> ap_status resp \<noteq> 201"
      using assms(2) ip st1
      by (auto simp: handleRegister_def writeErr_def Let_def not_le split: option.splits if_splits)
    then show ?thesis using assms(1) by simp
  next
    case True
    then obtain req hash where g: "ok" "body = Some req" "8 \<le> length (rg_Password req)" "rg_Consent req"
      "HashPassword env (rg_Password req) = Some hash"
      and v: "validEmail (normalizeEmail (rg_Email req))" "cf_Mailer cfg \<or> cf_DevExposeTokens cfg"
      by blast
    then have "registerAccount R cfg env st1 (normalizeEmail (rg_Email req)) hash = (st', resp)"
      using assms(2) ip by (auto simp: handleRegister_def Let_def)
    note o = registerAccount_outcome [OF _ this, unfolded st1, OF assms(1)]
    show ?thesis
    proof (cases "ap_status resp = 201")
      case False
      then show ?thesis using o by simp
    next
      case True
      then obtain u token where "NewToken env = Some token" "v_users (view (sv_repo st)) (u_ID u) = None"
        "u_Email u = normalizeEmail (rg_Email req)" "u_PasswordHash u = hash" "\<not> u_Verified u"
        "u_ConsentAt u = stamp (ev_clock env 1)"
        "v_users (view (sv_repo st')) = (v_users (view (sv_repo st)))(u_ID u \<mapsto> u)"
        "v_verifs (view (sv_repo st')) token =
           Some \<lparr>rr_userID = u_ID u, rr_expiresAt = stamp (ev_clock env 2 + cf_VerificationTTL cfg)\<rparr>"
        "sv_outbox st' = sv_outbox st @ (if cf_Mailer cfg then [verificationMail cfg u token] else [])"
        using o by (auto simp only: normalizeEmail_idem simp_thms)
      then show ?thesis using True o g by (auto intro!: exI [of _ u] exI [of _ token])
    qed
  qed
qed

end

text \<open>
  C9: Registration is all or nothing. Unless the answer is 201, the accounts are exactly
  those before the request and no message was accepted, whichever step failed: the new row
  is deleted again after a failed consent, token, verification or mail step. A 201 means
  that one unverified account was added, under a fresh id, for a consenting user with a
  password of at least eight bytes, with consent time, hash and outstanding verification
  token, and that every other account is untouched.
\<close>

theorem register_all_or_nothing:
  assumes "mem_inv (sv_repo st)"
    and "handleRegister (memRepoOps wall) cfg env st r body = (st', resp)"
  shows "mem_inv (sv_repo st') \<and>
    (ap_status resp \<noteq> 201 \<longrightarrow>
       gget (ma_users (sv_repo st')) = gget (ma_users (sv_repo st)) \<and> sv_outbox st' = sv_outbox st) \<and>
    (ap_status resp = 201 \<longrightarrow> (\<exists>req u token.
       body = Some req \<and> rg_Consent req \<and> 8 \<le> length (rg_Password req) \<and>
       NewToken env = Some token \<and> gget (ma_users (sv_repo st)) (u_ID u) = None \<and>
       u_Email u = normalizeEmail (rg_Email req) \<and> HashPassword env (rg_Password req) = Some (u_PasswordHash u) \<and>
       \<not> u_Verified u \<and> u_ConsentAt u = ev_clock env 1 \<and>
       gget (ma_users (sv_repo st')) = (gget (ma_users (sv_repo st)))(u_ID u \<mapsto> u) \<and>
       gget (ma_verifs (sv_repo st')) token =
         Some \<lparr>rr_userID = u_ID u, rr_expiresAt = ev_clock env 2 + cf_VerificationTTL cfg\<rparr> \<and>
       sv_outbox st' = sv_outbox st @ (if cf_Mailer cfg then [verificationMail cfg u token] else [])))"
  using memRepo.handleRegister_outcome [OF assms] by (simp add: mem_view_def)

theorem register_all_or_nothing_witness:
  "\<exists>u. gget (ma_users (sv_repo sampleRegistered)) (u_ID u) = Some u \<and> u_Email u = ''ana@example.com'' \<and>
     \<not> u_Verified u \<and> u_ConsentAt u = 1001"
proof -
  let ?out = "handleRegister (memRepoOps 7) sampleCfg sampleEnv sampleSvc sampleReq (Some sampleRegister)"
  have o: "?out = (sampleRegistered, snd ?out)" unfolding sampleRegistered_def by (rule prod.collapse [symmetric])
  have s: "ap_status (snd ?out) = 201" by code_simp
  have n: "normalizeEmail (rg_Email sampleRegister) = ''ana@example.com''" by code_simp
  have c: "ev_clock sampleEnv 1 = 1001" by code_simp
  obtain req u where u: "Some sampleRegister = Some req" "u_Email u = normalizeEmail (rg_Email req)" "\<not> u_Verified u"
    "u_ConsentAt u = ev_clock sampleEnv 1"
    "gget (ma_users (sv_repo sampleRegistered)) = (gget (ma_users (sv_repo sampleSvc)))(u_ID u \<mapsto> u)"
    using register_all_or_nothing [OF sampleSvc_inv o] s by blast
  have "gget (ma_users (sv_repo sampleRegistered)) (u_ID u) = Some u" unfolding u(5) by simp
  moreover have "u_Email u = ''ana@example.com''" using u(1,2) n by simp
  ultimately show ?thesis using u(3,4) c by metis
qed

section \<open>Sessions\<close>

context auth_repo_total begin

lemma RequireVerified_iff:
  assumes "inv s"
  shows "RequireVerified R env s r = Inr u \<longleftrightarrow>
    sessionToken r \<noteq> [] \<and>
    (\<exists>x. v_sessions (view s) (sessionToken r) = Some x \<and> ev_clock env 0 \<le> s_ExpiresAt x \<and>
         v_users (view s) (s_UserID x) = Some u \<and> u_Verified u)"
proof (cases "ar_SessionByToken R s (sessionToken r)")
  case (Inl e)
  then have "v_sessions (view s) (sessionToken r) = None"
    using SessionByToken [OF assms, of "sessionToken r"] SessionByToken_total [OF assms Inl] by simp
  then show ?thesis using Inl by (simp add: RequireVerified_def Let_def split: auth_err.splits)
next
  case (Inr x)
  then have x: "v_sessions (view s) (sessionToken r) = Some x"
    using SessionByToken [OF assms, of "sessionToken r"] by simp
  show ?thesis
  proof (cases "ar_UserByID R s (s_UserID x)")
    case (Inl e)
    then have "v_users (view s) (s_UserID x) = None"
      using UserByID [OF assms, of "s_UserID x"] UserByID_total [OF assms Inl] by simp
    then show ?thesis using Inr Inl x by (auto simp: RequireVerified_def Let_def split: auth_err.splits)
  next
    case (Inr w)
    then have "v_users (view s) (s_UserID x) = Some w" using UserByID [OF assms, of "s_UserID x"] by simp
    then show ?thesis using \<open>ar_SessionByToken R s (sessionToken r) = Inr x\<close> Inr x
      by (auto simp: RequireVerified_def Let_def after_def)
  qed
qed

end

lemma OptionalVerified_RequireVerified:
  "OptionalVerified R env s r = (case RequireVerified R env s r of Inl _ \<Rightarrow> None | Inr u \<Rightarrow> Some u)"
  by (simp add: OptionalVerified_def RequireVerified_def Let_def split: sum.splits auth_err.splits)

text \<open>
  C4: The guard of every private route lets a request through exactly when it carries the
  token of a stored session that has not expired and whose account exists and is verified,
  and it hands the handler that account; the optional guard of the public feed recognises
  the same requests.
\<close>

theorem require_verified_exact:
  assumes "mem_inv m"
  shows "(RequireVerified (memRepoOps wall) env m r = Inr u \<longleftrightarrow>
      sessionToken r \<noteq> [] \<and>
      (\<exists>x. gget (ma_sessions m) (sessionToken r) = Some x \<and> ev_clock env 0 \<le> s_ExpiresAt x \<and>
           gget (ma_users m) (s_UserID x) = Some u \<and> u_Verified u)) \<and>
    (OptionalVerified (memRepoOps wall) env m r = Some u \<longleftrightarrow>
      RequireVerified (memRepoOps wall) env m r = Inr u)"
  using memRepo.RequireVerified_iff [OF assms, of wall env r u]
  by (auto simp: OptionalVerified_RequireVerified mem_view_def split: sum.splits)

theorem require_verified_exact_witness:
  "RequireVerified (memRepoOps 7) sampleEnv sampleStore (sampleReq\<lparr>rq_sessionCookie := Some ''t''\<rparr>) = Inr sampleUser"
proof -
  let ?r = "sampleReq\<lparr>rq_sessionCookie := Some ''t''\<rparr>"
  have t: "sessionToken ?r = ''t''" by code_simp
  have s: "gget (ma_sessions sampleStore) ''t'' = Some \<lparr>s_Token = ''t'', s_UserID = ''u1'', s_ExpiresAt = 2000\<rparr>"
    by code_simp
  have u: "gget (ma_users sampleStore) ''u1'' = Some sampleUser" by code_simp
  have v: "u_Verified sampleUser" by (simp add: sampleUser_def)
  have c: "ev_clock sampleEnv 0 = 1000" by code_simp
  show ?thesis
    using require_verified_exact [OF sampleStore_inv, of 7 sampleEnv ?r sampleUser, unfolded t s u c] u v by simp
qed

section \<open>Password reset\<close>

context auth_repo begin

lemma handleResetConfirm_outcome:
  assumes "inv (sv_repo st)" "handleResetConfirm R cfg env st r body = (st', resp)"
  shows "inv (sv_repo st') \<and>
    (ap_status resp \<noteq> 200 \<longrightarrow> v_users (view (sv_repo st')) = v_users (view (sv_repo st)) \<and>
       v_sessions (view (sv_repo st')) = v_sessions (view (sv_repo st))) \<and>
    (ap_status resp = 200 \<longrightarrow> (\<exists>req hash i u. body = Some req \<and>
       HashPassword env (rc_NewPassword req) = Some hash \<and>
       token_for (v_resets (view (sv_repo st))) (rc_Token req) (stamp (ev_clock env 1)) i \<and>
       v_users (view (sv_repo st)) i = Some u \<and>
       view (sv_repo st') = (view (sv_repo st))
         \<lparr>v_users := (v_users (view (sv_repo st)))(i \<mapsto> u\<lparr>u_PasswordHash := hash\<rparr>),
          v_sessions := without s_UserID i (v_sessions (view (sv_repo st))),
          v_resets := (v_resets (view (sv_repo st)))(rc_Token req := None)\<rparr>))"
proof -
  obtain st1 ok where ip: "ipAllowed cfg env st r = (st1, ok)" by fastforce
  have st1: "sv_repo st1 = sv_repo st" using ipAllowed_repo(1) [of cfg env st r] ip by auto
  show ?thesis
  proof (cases "\<exists>req hash. ok \<and> body = Some req \<and> 8 \<le> length (rc_NewPassword req) \<and>
      HashPassword env (rc_NewPassword req) = Some hash")
    case False
    then have "sv_repo st' = sv_repo st \<and> ap_status resp \<noteq> 200"
      using assms(2) ip st1
      by (auto simp: handleResetConfirm_def writeErr_def Let_def not_le split: option.splits if_splits)
    then show ?thesis using assms(1) by simp
  next
    case True
    then obtain req hash where g: "ok" "body = Some req" "\<not> length (rc_NewPassword req) < 8"
      "HashPassword env (rc_NewPassword req) = Some hash" by auto
    obtain s1 e where p: "ar_ResetPassword R (sv_repo st) (rc_Token req) hash (ev_clock env 1) = (s1, e)"
      by fastforce
    have st': "sv_repo st' = s1" "ap_status resp = 200 \<longleftrightarrow> e = None"
      using assms(2) ip g p st1
      by (auto simp: handleResetConfirm_def writeErr_def writeJSON_def split: option.splits auth_err.splits)
    show ?thesis using ResetPassword [OF assms(1) p] st' g(2,4) by (cases e) auto
  qed
qed

end

text \<open>
  C10: A confirmed password reset logs the account out everywhere and burns its token. When
  the answer is 200, an unexpired reset token of exactly one account was presented, that
  account's hash and nothing else about any account changed, the token is gone, no request
  passes the guard as that account any more, and every other account keeps its sessions.
\<close>

theorem reset_logs_out_everywhere:
  assumes "mem_inv (sv_repo st)"
    and "handleResetConfirm (memRepoOps wall) cfg env st r (Some req) = (st', resp)"
    and "ap_status resp = 200"
  shows "\<exists>hash i u. HashPassword env (rc_NewPassword req) = Some hash \<and>
    token_for (gget (ma_resets (sv_repo st))) (rc_Token req) (ev_clock env 1) i \<and>
    gget (ma_users (sv_repo st)) i = Some u \<and>
    gget (ma_users (sv_repo st')) = (gget (ma_users (sv_repo st)))(i \<mapsto> u\<lparr>u_PasswordHash := hash\<rparr>) \<and>
    gget (ma_resets (sv_repo st')) (rc_Token req) = None \<and>
    (\<forall>env' r' w. RequireVerified (memRepoOps wall) env' (sv_repo st') r' = Inr w \<longrightarrow> u_ID w \<noteq> i) \<and>
    (\<forall>tok x. gget (ma_sessions (sv_repo st)) tok = Some x \<longrightarrow> s_UserID x \<noteq> i \<longrightarrow>
       gget (ma_sessions (sv_repo st')) tok = Some x)"
proof -
  note o = memRepo.handleResetConfirm_outcome [OF assms(1,2)]
  have inv: "mem_inv (sv_repo st')" using o by simp
  obtain hash i u where w: "HashPassword env (rc_NewPassword req) = Some hash"
    "token_for (gget (ma_resets (sv_repo st))) (rc_Token req) (ev_clock env 1) i"
    "gget (ma_users (sv_repo st)) i = Some u"
    and v: "mem_view (sv_repo st') = (mem_view (sv_repo st))
         \<lparr>v_users := (v_users (mem_view (sv_repo st)))(i \<mapsto> u\<lparr>u_PasswordHash := hash\<rparr>),
          v_sessions := without s_UserID i (v_sessions (mem_view (sv_repo st))),
          v_resets := (v_resets (mem_view (sv_repo st)))(rc_Token req := None)\<rparr>"
    using o assms(3) by (auto simp: mem_view_def)
  have s: "gget (ma_users (sv_repo st')) = (gget (ma_users (sv_repo st)))(i \<mapsto> u\<lparr>u_PasswordHash := hash\<rparr>)"
    "gget (ma_resets (sv_repo st')) = (gget (ma_resets (sv_repo st)))(rc_Token req := None)"
    "gget (ma_sessions (sv_repo st')) = without s_UserID i (gget (ma_sessions (sv_repo st)))"
    using v by (simp_all add: mem_view_def)
  have "u_ID w \<noteq> i" if "RequireVerified (memRepoOps wall) env' (sv_repo st') r' = Inr w" for env' r' w
  proof -
    from that obtain x where x: "gget (ma_sessions (sv_repo st')) (sessionToken r') = Some x"
      "gget (ma_users (sv_repo st')) (s_UserID x) = Some w"
      using memRepo.RequireVerified_iff [OF inv, of wall env' r' w] that by (auto simp: mem_view_def)
    have "s_UserID x \<noteq> i" using x(1) s(3) by (auto simp: without_def split: option.splits if_splits)
    then show ?thesis using mem_inv_user(1) [OF inv x(2)] by simp
  qed
  then show ?thesis using w s by (auto simp: without_def)
qed

theorem reset_logs_out_everywhere_witness:
  "\<exists>st' :: memAuth authSvc. gget (ma_resets (sv_repo st')) ''reset'' = None \<and>
     (\<forall>env' r' w. RequireVerified (memRepoOps 7) env' (sv_repo st') r' = Inr w \<longrightarrow> u_ID w \<noteq> ''u1'')"
proof -
  let ?req = "\<lparr>rc_Token = ''reset'', rc_NewPassword = ''anotherone''\<rparr>"
  let ?st = "sampleSvc\<lparr>sv_repo := sampleStore\<rparr>"
  let ?out = "handleResetConfirm (memRepoOps 7) sampleCfg sampleEnv ?st sampleReq (Some ?req)"
  have i: "mem_inv (sv_repo ?st)" using sampleStore_inv by simp
  have s: "ap_status (snd ?out) = 200" by code_simp
  have t: "gget (ma_resets sampleStore) ''reset'' = Some \<lparr>rr_userID = ''u1'', rr_expiresAt = 2000\<rparr>" by code_simp
  obtain st' resp where o: "?out = (st', resp)" by (cases ?out) blast
  have s': "ap_status resp = 200" using s unfolding o snd_conv .
  obtain i where k: "token_for (gget (ma_resets (sv_repo ?st))) (rc_Token ?req) (ev_clock sampleEnv 1) i"
    "gget (ma_resets (sv_repo st')) (rc_Token ?req) = None"
    "\<forall>env' r' w. RequireVerified (memRepoOps 7) env' (sv_repo st') r' = Inr w \<longrightarrow> u_ID w \<noteq> i"
    using reset_logs_out_everywhere [OF i o s'] by blast
  have "i = ''u1''" using k(1) t by (simp add: token_for_def)
  then show ?thesis using k(2,3) by (intro exI [of _ st']) simp
qed

text \<open>
  Asking for a reset does not reveal who has an account. With token exposure off, the
  answer to a reset request is the same for any two addresses, whether or not they are
  registered and whatever the repository, the token source and the mail server do.
\<close>

theorem reset_request_no_enumeration:
  assumes "\<not> cf_DevExposeTokens cfg"
    and "sv_ipLimiter st' = sv_ipLimiter st" "ev_clock env' 0 = ev_clock env 0"
  shows "snd (handleResetRequest R cfg env st r (Some email1)) =
         snd (handleResetRequest R' cfg env' st' r (Some email2))"
proof -
  have a: "snd (handleResetRequest Q cfg e x r (Some em)) =
      (if snd (ipAllowed cfg e x r) then writeJSON 200 (AReset ''ok'' None)
       else writeErr 429 ''too many requests'')" for Q e x em
    using assms(1)
    by (auto simp: handleResetRequest_def Let_def case_prod_unfold split: sum.splits option.splits prod.splits)
  show ?thesis unfolding a using assms(2,3) by (simp add: ipAllowed_def Let_def case_prod_unfold)
qed

theorem reset_request_no_enumeration_witness:
  "snd (handleResetRequest (memRepoOps 7) sampleCfg sampleEnv sampleSvc sampleReq (Some ''ana@example.com'')) =
   snd (handleResetRequest (memRepoOps 7) sampleCfg (sampleEnv\<lparr>ev_randToken := None\<rparr>)
      (sampleSvc\<lparr>sv_repo := sv_repo sampleRegistered\<rparr>) sampleReq (Some ''nobody@example.com''))"
  by (rule reset_request_no_enumeration) (simp_all add: sampleCfg_def withDefaults_def sampleEnv_def)

section \<open>Login\<close>

context auth_repo begin

lemma handleLogin_outcome:
  assumes "inv (sv_repo st)" "handleLogin R cfg env st r body = (st', resp)"
  shows "inv (sv_repo st') \<and> v_users (view (sv_repo st')) = v_users (view (sv_repo st)) \<and>
    (ap_status resp \<noteq> 200 \<longrightarrow> v_sessions (view (sv_repo st')) = v_sessions (view (sv_repo st)) \<and>
       ap_cookie resp = None) \<and>
    (ap_status resp = 200 \<longrightarrow> (\<exists>req u token sess. body = Some req \<and> NewToken env = Some token \<and>
       v_users (view (sv_repo st)) (u_ID u) = Some u \<and> u_Email u = normalizeEmail (rg_Email req) \<and>
       VerifyPassword env (u_PasswordHash u) (rg_Password req) \<and>
       sess = \<lparr>s_Token = token, s_UserID = u_ID u, s_ExpiresAt = ev_clock env 2 + cf_SessionTTL cfg\<rparr> \<and>
       v_sessions (view (sv_repo st')) = (v_sessions (view (sv_repo st)))(token \<mapsto> sess\<lparr>s_ExpiresAt := stamp (s_ExpiresAt sess)\<rparr>) \<and>
       ap_cookie resp = Some (setSessionCookie sess)))"
proof -
  obtain st1 ok where ip: "ipAllowed cfg env st r = (st1, ok)" by fastforce
  have st1: "sv_repo st1 = sv_repo st" using ipAllowed_repo(1) [of cfg env st r] ip by auto
  show ?thesis
  proof (cases "\<exists>req u token. ok \<and> body = Some req \<and>
      snd (Allow (sv_limiter st1) (''login:'' @ clientIP cfg r @ ''|'' @ normalizeEmail (rg_Email req)) (ev_clock env 1)) \<and>
      ar_UserByEmail R (sv_repo st) (normalizeEmail (rg_Email req)) = Inr u \<and>
      VerifyPassword env (u_PasswordHash u) (rg_Password req) \<and> NewToken env = Some token")
    case False
    then have "sv_repo st' = sv_repo st \<and> ap_status resp \<noteq> 200 \<and> ap_cookie resp = None"
      using assms(2) ip st1
      by (auto simp: handleLogin_def writeErr_def Let_def case_prod_unfold
          split: option.splits if_splits sum.splits)
    then show ?thesis using assms(1) by simp
  next
    case True
    then obtain req u token where g: "ok" "body = Some req"
      "snd (Allow (sv_limiter st1) (''login:'' @ clientIP cfg r @ ''|'' @ normalizeEmail (rg_Email req)) (ev_clock env 1))"
      and u: "ar_UserByEmail R (sv_repo st) (normalizeEmail (rg_Email req)) = Inr u"
      "VerifyPassword env (u_PasswordHash u) (rg_Password req)" "NewToken env = Some token" by blast
    let ?x = "\<lparr>s_Token = token, s_UserID = u_ID u, s_ExpiresAt = ev_clock env 2 + cf_SessionTTL cfg\<rparr>"
    obtain s1 e where c: "ar_CreateSession R (sv_repo st) ?x = (s1, e)" by fastforce
    have st': "sv_repo st' = s1" "ap_status resp = 200 \<longleftrightarrow> e = None"
      "ap_cookie resp = (if e = None then Some (setSessionCookie ?x) else None)"
      using assms(2) ip g u c st1
      by (auto simp: handleLogin_def writeErr_def writeJSON_def Let_def case_prod_unfold add_dur_def
          split: option.splits)
    have usr: "u_Email u = normalizeEmail (rg_Email req)" "v_users (view (sv_repo st)) (u_ID u) = Some u"
      using UserByEmail [OF assms(1), of "normalizeEmail (rg_Email req)"] u(1) by simp_all
    show ?thesis using CreateSession [OF assms(1) c] st' usr u g(2) by (cases e) auto
  qed
qed

end

text \<open>
  C27: A login opens a session only for the right password. Whatever the answer, no account
  changes; an answer other than 200 stores no session and sets no cookie; a 200 names a
  stored account with the normalised address whose hash accepts the password, and the one
  new session carries the fresh token, that account and the configured lifetime and is
  what the cookie holds.
\<close>

theorem login_requires_password:
  assumes "mem_inv (sv_repo st)"
    and "handleLogin (memRepoOps wall) cfg env st r body = (st', resp)"
  shows "gget (ma_users (sv_repo st')) = gget (ma_users (sv_repo st)) \<and>
    (ap_status resp \<noteq> 200 \<longrightarrow> gget (ma_sessions (sv_repo st')) = gget (ma_sessions (sv_repo st)) \<and>
       ap_cookie resp = None) \<and>
    (ap_status resp = 200 \<longrightarrow> (\<exists>req u token sess. body = Some req \<and> NewToken env = Some token \<and>
       gget (ma_users (sv_repo st)) (u_ID u) = Some u \<and> u_Email u = normalizeEmail (rg_Email req) \<and>
       VerifyPassword env (u_PasswordHash u) (rg_Password req) \<and>
       sess = \<lparr>s_Token = token, s_UserID = u_ID u, s_ExpiresAt = ev_clock env 2 + cf_SessionTTL cfg\<rparr> \<and>
       gget (ma_sessions (sv_repo st')) = (gget (ma_sessions (sv_repo st)))(token \<mapsto> sess) \<and>
       ap_cookie resp = Some (setSessionCookie sess)))"
  using memRepo.handleLogin_outcome [OF assms] by (simp add: mem_view_def)

theorem login_requires_password_witness:
  "\<exists>(st' :: memAuth authSvc) sess. gget (ma_sessions (sv_repo st')) ''dG9r'' = Some sess \<and> s_ExpiresAt sess = 1002 + cf_SessionTTL sampleCfg"
proof -
  let ?req = "\<lparr>rg_Email = ''ANA@example.com'', rg_Password = ''longenough'', rg_Consent = False\<rparr>"
  let ?out = "handleLogin (memRepoOps 7) sampleCfg sampleEnv sampleRegistered sampleReq (Some ?req)"
  have i: "mem_inv (sv_repo sampleRegistered)"
    using memRepo.handleRegister_outcome [OF sampleSvc_inv prod.collapse [symmetric]]
    unfolding sampleRegistered_def by blast
  have s: "ap_status (snd ?out) = 200" by code_simp
  have k: "NewToken sampleEnv = Some ''dG9r''" "ev_clock sampleEnv 2 = 1002" by code_simp+
  obtain st' resp where o: "?out = (st', resp)" by (cases ?out) blast
  have s': "ap_status resp = 200" using s unfolding o snd_conv .
  obtain u :: user and token sess where "NewToken sampleEnv = Some token"
    "sess = \<lparr>s_Token = token, s_UserID = u_ID u, s_ExpiresAt = ev_clock sampleEnv 2 + cf_SessionTTL sampleCfg\<rparr>"
    "gget (ma_sessions (sv_repo st')) = (gget (ma_sessions (sv_repo sampleRegistered)))(token \<mapsto> sess)"
    using login_requires_password [OF i o, THEN conjunct2, THEN conjunct2, THEN mp, OF s'] by blast
  then show ?thesis using k by (intro exI [of _ st'] exI [of _ sess]) simp
qed

section \<open>Google sign-in\<close>

context auth_repo begin

lemma oauthAccount_outcome:
  assumes "inv s" "oauthAccount R env s claims consent = (s', Inr u)"
  shows "inv s' \<and> u_Email u = normalizeEmail (cl_Email claims) \<and> (\<exists>w.
    v_users (view s') = (v_users (view s))(u_ID u \<mapsto> w) \<and> u_Email w = u_Email u \<and>
    (u_Verified u \<longrightarrow> u_Verified w) \<and> (stamp (ev_clock env 1) \<noteq> zero_time \<longrightarrow> u_ConsentAt w \<noteq> zero_time))"
proof (cases "ar_UserByEmail R s (cl_Email claims)")
  case (Inr w)
  note w = UserByEmail [OF assms(1), of "cl_Email claims", unfolded Inr, simplified]
  obtain s1 e where c: "ar_SetConsent R s (u_ID w) (ev_clock env 1) = (s1, e)" by fastforce
  show ?thesis
  proof (cases "is_zero_time (u_ConsentAt w)")
    case True
    then show ?thesis using assms Inr w c SetConsent [OF assms(1) c]
      by (auto simp: oauthAccount_def updated_user_def split: if_splits option.splits)
  next
    case False
    then have "s' = s" "u = w" using assms(2) Inr by (auto simp: oauthAccount_def)
    then show ?thesis using False w assms(1)
      by (intro conjI exI [of _ w]) (auto simp: is_zero_time_def fun_upd_idem)
  qed
next
  case (Inl err)
  then have err: "err = AuthNotFound" using assms(2) by (auto simp: oauthAccount_def split: auth_err.splits)
  obtain s1 r1 where c: "ar_CreateUser R s (cl_Email claims) [] = (s1, r1)" by fastforce
  have "consent" using assms(2) Inl err by (auto simp: oauthAccount_def split: if_splits)
  then obtain u0 where u0: "r1 = Inr u0"
    using assms(2) Inl err c by (cases r1) (auto simp: oauthAccount_def)
  obtain s2 e2 where k: "ar_SetConsent R s1 (u_ID u0) (ev_clock env 1) = (s2, e2)" by fastforce
  obtain s3 e3 where v: "ar_SetVerified R s2 (u_ID u0) = (s3, e3)" by fastforce
  have e: "e2 = None" "e3 = None" "s' = s3" "u = u0\<lparr>u_Verified := True\<rparr>"
    using assms(2) Inl err \<open>consent\<close> c u0 k v by (auto simp: oauthAccount_def split: option.splits)
  have s1: "inv s1" "v_users (view s1) = (v_users (view s))(u_ID u0 \<mapsto> u0)"
    "u_Email u0 = normalizeEmail (cl_Email claims)" using CreateUser [OF assms(1) c] u0 by auto
  have s2: "inv s2" "v_users (view s2) = (v_users (view s))(u_ID u0 \<mapsto> u0\<lparr>u_ConsentAt := stamp (ev_clock env 1)\<rparr>)"
    using SetConsent [OF s1(1) k] s1(2) e by (auto simp: updated_user_def)
  show ?thesis using SetVerified [OF s2(1) v] s1(3) s2(2) e by (auto simp: updated_user_def)
qed

lemma handleGoogleCallback_outcome:
  assumes "inv (sv_repo st)" "handleGoogleCallback R cfg env st r body = (st', resp)" "ap_status resp = 200"
  shows "\<exists>req claims u sess. body = Some req \<and> ev_exchange env (oc_Code req) = Some claims \<and>
    cl_EmailVerified claims \<and> cl_Email claims \<noteq> [] \<and>
    v_users (view (sv_repo st')) = (v_users (view (sv_repo st)))(u_ID u \<mapsto> u) \<and>
    u_Email u = normalizeEmail (cl_Email claims) \<and> u_Verified u \<and>
    (stamp (ev_clock env 1) \<noteq> zero_time \<longrightarrow> u_ConsentAt u \<noteq> zero_time) \<and>
    s_UserID sess = u_ID u \<and> v_sessions (view (sv_repo st')) (s_Token sess) = Some (sess\<lparr>s_ExpiresAt := stamp (s_ExpiresAt sess)\<rparr>) \<and>
    ap_cookie resp = Some (setSessionCookie sess)"
proof -
  obtain st1 ok where ip: "ipAllowed cfg env st r = (st1, ok)" by fastforce
  have st1: "sv_repo st1 = sv_repo st" using ipAllowed_repo(1) [of cfg env st r] ip by auto
  obtain req claims where g: "ok" "body = Some req" "oc_Code req \<noteq> []" "ev_exchange env (oc_Code req) = Some claims"
    "cl_EmailVerified claims" "cl_Email claims \<noteq> []"
    using assms(2,3) ip
    by (auto simp: handleGoogleCallback_def writeErr_def split: option.splits if_splits)
  obtain s1 a where o: "oauthAccount R env (sv_repo st) claims (oc_Consent req) = (s1, a)" by fastforce
  have "ap_status x \<noteq> 200" if "a = Inl x" for x
    using o that by (auto simp: oauthAccount_def writeErr_def split: sum.splits auth_err.splits if_splits option.splits prod.splits)
  then obtain u where u: "a = Inr u"
    using assms(2,3) ip g o st1 by (cases a) (auto simp: handleGoogleCallback_def)
  obtain w where w: "inv s1" "v_users (view s1) = (v_users (view (sv_repo st)))(u_ID u \<mapsto> w)" "u_Email w = u_Email u"
    "u_Email u = normalizeEmail (cl_Email claims)" "u_Verified u \<longrightarrow> u_Verified w"
    "stamp (ev_clock env 1) \<noteq> zero_time \<longrightarrow> u_ConsentAt w \<noteq> zero_time"
    using oauthAccount_outcome [OF assms(1) o [unfolded u]] by blast
  have wid: "u_ID w = u_ID u" using user_keys [OF w(1), of "u_ID u" w] w(2) by simp
  obtain s2 e2 where v: "(if \<not> u_Verified u then ar_SetVerified R s1 (u_ID u) else (s1, None)) = (s2, e2)" by fastforce
  have e2: "e2 = None" using assms(2,3) ip g o u v st1
    by (cases e2) (auto simp: handleGoogleCallback_def writeErr_def)
  obtain w2 where w2: "inv s2" "v_users (view s2) = (v_users (view (sv_repo st)))(u_ID u \<mapsto> w2)" "u_Verified w2"
    "u_ID w2 = u_ID u" "u_Email w2 = u_Email u" "stamp (ev_clock env 1) \<noteq> zero_time \<longrightarrow> u_ConsentAt w2 \<noteq> zero_time"
  proof (cases "u_Verified u")
    case True
    then show thesis using that [of w] v w wid by auto
  next
    case False
    then have "ar_SetVerified R s1 (u_ID u) = (s2, None)" using v e2 by simp
    from SetVerified [OF w(1) this] show thesis
      using that [of "w\<lparr>u_Verified := True\<rparr>"] w wid by (auto simp: updated_user_def)
  qed
  obtain s3 x where s: "startSession R cfg env 2 s2 (u_ID u) = (s3, x)" by fastforce
  obtain sess where sess: "x = Some sess" "sv_repo st' = s3" "ap_cookie resp = Some (setSessionCookie sess)"
    using assms(2,3) ip g o u v e2 s st1
    by (cases x) (auto simp: handleGoogleCallback_def writeErr_def writeJSON_def)
  have c: "ar_CreateSession R s2 sess = (s3, None)" "s_UserID sess = u_ID u"
    using s sess(1) by (auto simp: startSession_def Let_def split: option.splits prod.splits)
  show ?thesis using CreateSession [OF w2(1) c(1)] c(2) sess w2 g w(4) by (auto intro!: exI [of _ w2])
qed

end

text \<open>
  C28: Google sign-in never trusts an unverified address. A 200 needs a code the provider
  accepted with a verified, non-empty address; afterwards the account with that normalised
  address is stored, verified and, whenever the clock is not at Go's zero time, has a
  consent time; no other account changed, and the cookie is a stored session of it.
\<close>

theorem google_signin_verified:
  assumes "mem_inv (sv_repo st)"
    and "handleGoogleCallback (memRepoOps wall) cfg env st r body = (st', resp)" "ap_status resp = 200"
  shows "\<exists>req claims u sess. body = Some req \<and> ev_exchange env (oc_Code req) = Some claims \<and>
    cl_EmailVerified claims \<and> cl_Email claims \<noteq> [] \<and>
    gget (ma_users (sv_repo st')) = (gget (ma_users (sv_repo st)))(u_ID u \<mapsto> u) \<and>
    u_Email u = normalizeEmail (cl_Email claims) \<and> u_Verified u \<and>
    (ev_clock env 1 \<noteq> zero_time \<longrightarrow> u_ConsentAt u \<noteq> zero_time) \<and>
    s_UserID sess = u_ID u \<and> gget (ma_sessions (sv_repo st')) (s_Token sess) = Some sess \<and>
    ap_cookie resp = Some (setSessionCookie sess)"
  using memRepo.handleGoogleCallback_outcome [OF assms] by (simp add: mem_view_def)

theorem google_signin_verified_witness:
  "\<exists>(st' :: memAuth authSvc) u. gget (ma_users (sv_repo st')) (u_ID u) = Some u \<and> u_Email u = ''ana@example.com'' \<and> u_Verified u"
proof -
  let ?req = "\<lparr>oc_Code = ''code'', oc_Consent = True\<rparr>"
  let ?out = "handleGoogleCallback (memRepoOps 7) sampleCfg sampleEnv sampleSvc sampleReq (Some ?req)"
  have s: "ap_status (snd ?out) = 200" by code_simp
  obtain st' resp where o: "?out = (st', resp)" by (cases ?out) blast
  have s': "ap_status resp = 200" using s unfolding o snd_conv .
  obtain claims u where g: "ev_exchange sampleEnv (oc_Code ?req) = Some claims"
    "gget (ma_users (sv_repo st')) = (gget (ma_users (sv_repo sampleSvc)))(u_ID u \<mapsto> u)"
    "u_Email u = normalizeEmail (cl_Email claims)" "u_Verified u"
    using google_signin_verified [OF sampleSvc_inv o s'] by blast
  have "cl_Email claims = ''ana@example.com''" using g(1) by (auto simp: sampleEnv_def)
  moreover have "normalizeEmail ''ana@example.com'' = ''ana@example.com''" by code_simp
  ultimately show ?thesis using g(2-4) by (intro exI [of _ st'] exI [of _ u]) simp
qed

end
