(* ===== verification/Ingest_Model.thy ===== *)
theory Ingest_Model
  imports Go_Prelude
begin

text \<open>
  The data of the ingestion domain (\<open>internal/ingest/source.go\<close>, \<open>feed_query.go\<close>,
  \<open>staleness.go\<close>): raw and normalized listings, the registry of sources with its tier
  policy, the feed's query with its validation, and the staleness rule.
\<close>

section \<open>Listings\<close>

type_synonym tier = int

definition Tier1 :: tier where "Tier1 = 1"

definition Tier2 :: tier where "Tier2 = 2"

definition Tier3 :: tier where "Tier3 = 3"

record RawJob =
  rj_Source :: string
  rj_SourceURL :: string
  rj_Synthetic :: bool
  rj_Title :: string
  rj_Company :: string
  rj_Location :: string
  rj_Remote :: bool
  rj_SalaryText :: string
  rj_Seniority :: string
  rj_EmploymentType :: string
  rj_Requirements :: "string list"
  rj_PostedAt :: "time option"

record Job =
  j_Source :: string
  j_SourceURL :: string
  j_Synthetic :: bool
  j_DedupKey :: string
  j_Title :: string
  j_Company :: string
  j_Location :: string
  j_Remote :: bool
  j_SalaryStatedMin :: "int option"
  j_SalaryStatedMax :: "int option"
  j_SalaryCurrency :: string
  j_Seniority :: string
  j_EmploymentType :: string
  j_YearsExperience :: "int option"
  j_Requirements :: "string list"
  j_PostedAt :: "time option"

section \<open>The registry of sources\<close>

text \<open>
  A source as the registry sees it; what \<open>Fetch\<close> returns in a pass is an argument of the
  runner.
\<close>

record source =
  src_ID :: string
  src_Tier :: tier

datatype reg_err = TierExcluded | SourceIDEmpty | AlreadyRegistered

record registry =
  rg_sources :: "(string, source) gomap"
  rg_order :: "string list"

definition NewRegistry :: registry where
  "NewRegistry = \<lparr>rg_sources = [], rg_order = []\<rparr>"

definition Register :: "registry \<Rightarrow> source \<Rightarrow> registry \<times> reg_err option" where
  "Register r s =
     (if src_Tier s \<noteq> Tier1 \<and> src_Tier s \<noteq> Tier2 then (r, Some TierExcluded)
      else if src_ID s = [] then (r, Some SourceIDEmpty)
      else if gget (rg_sources r) (src_ID s) \<noteq> None then (r, Some AlreadyRegistered)
      else (r\<lparr>rg_sources := gput (src_ID s) s (rg_sources r), rg_order := rg_order r @ [src_ID s]\<rparr>, None))"

text \<open>Looking an id up in the Go map yields a nil source when it is missing, \<open>None\<close> here.\<close>

definition reg_Sources :: "registry \<Rightarrow> source option list" where
  "reg_Sources r = map (gget (rg_sources r)) (rg_order r)"

inductive reg_reach :: "registry \<Rightarrow> bool" where
  reg_new: "reg_reach NewRegistry"
| reg_step: "reg_reach r \<Longrightarrow> reg_reach (fst (Register r s))"

definition reg_inv :: "registry \<Rightarrow> bool" where
  "reg_inv r \<longleftrightarrow> distinct (rg_order r) \<and> set (rg_order r) = dom (gget (rg_sources r)) \<and>
     (\<forall>i s. gget (rg_sources r) i = Some s \<longrightarrow> src_ID s = i \<and> i \<noteq> [] \<and> src_Tier s \<in> {Tier1, Tier2})"

lemma reg_inv_Register: "reg_inv r \<Longrightarrow> reg_inv (fst (Register r s))"
  unfolding reg_inv_def Register_def by (auto simp: domIff split: if_splits)

lemma reg_reach_inv: "reg_reach r \<Longrightarrow> reg_inv r"
  by (induction rule: reg_reach.induct) (auto simp: reg_inv_Register, simp add: reg_inv_def NewRegistry_def dom_def)

text \<open>
  Login-walled sources can never be ingested. In every registry reachable by calls of
  \<open>Register\<close>, the listed sources are exactly the registered ones, in registration order,
  none is nil, their ids are distinct and not empty, and each is of tier 1 or 2; a
  registration that is refused leaves the registry as it was.
\<close>

theorem registry_tiers:
  assumes "reg_reach r"
  shows "(\<exists>ss. reg_Sources r = map Some ss \<and> map src_ID ss = rg_order r \<and> distinct (map src_ID ss) \<and>
      (\<forall>s\<in>set ss. src_ID s \<noteq> [] \<and> (src_Tier s = Tier1 \<or> src_Tier s = Tier2))) \<and>
    (snd (Register r s) \<noteq> None \<longrightarrow> fst (Register r s) = r) \<and>
    (snd (Register r s) = None \<longrightarrow> reg_Sources (fst (Register r s)) = reg_Sources r @ [Some s])"
proof -
  have inv: "reg_inv r" using assms by (rule reg_reach_inv)
  define ss where "ss = map (the \<circ> gget (rg_sources r)) (rg_order r)"
  have g: "gget (rg_sources r) i = Some (the (gget (rg_sources r) i))" if "i \<in> set (rg_order r)" for i
    using that inv by (auto simp: reg_inv_def domIff)
  have "reg_Sources r = map Some ss" unfolding reg_Sources_def ss_def by (simp add: g [symmetric])
  moreover have "map src_ID ss = rg_order r"
    unfolding ss_def map_map by (rule map_idI) (use inv g in \<open>auto simp: reg_inv_def\<close>)
  moreover have "\<forall>s\<in>set ss. src_ID s \<noteq> [] \<and> (src_Tier s = Tier1 \<or> src_Tier s = Tier2)"
    using inv g unfolding reg_inv_def ss_def by fastforce
  moreover have "reg_Sources (fst (Register r s)) = reg_Sources r @ [Some s]" if "snd (Register r s) = None"
    using that inv unfolding Register_def reg_inv_def reg_Sources_def by (auto simp: domIff split: if_splits)
  moreover have "fst (Register r s) = r" if "snd (Register r s) \<noteq> None"
    using that unfolding Register_def by (auto split: if_splits)
  ultimately show ?thesis using inv by (auto simp: reg_inv_def)
qed

theorem registry_tiers_witness:
  "reg_Sources (fst (Register (fst (Register NewRegistry \<lparr>src_ID = ''jobstreet'', src_Tier = 2\<rparr>))
     \<lparr>src_ID = ''linkedin'', src_Tier = 3\<rparr>)) = [Some \<lparr>src_ID = ''jobstreet'', src_Tier = 2\<rparr>]"
proof -
  let ?r = "fst (Register NewRegistry \<lparr>src_ID = ''jobstreet'', src_Tier = 2\<rparr>)"
  let ?s = "\<lparr>src_ID = ''linkedin'', src_Tier = 3\<rparr>"
  have r: "reg_reach ?r" by (intro reg_step reg_new)
  have e: "snd (Register ?r ?s) \<noteq> None" by code_simp
  have "fst (Register ?r ?s) = ?r" using registry_tiers [OF r, of ?s] e by blast
  moreover have "reg_Sources ?r = [Some \<lparr>src_ID = ''jobstreet'', src_Tier = 2\<rparr>]" by code_simp
  ultimately show ?thesis by simp
qed

section \<open>Feed queries\<close>

record JobQuery =
  jq_Search :: string
  jq_PayMin :: "int option"
  jq_PayMax :: "int option"
  jq_Location :: string
  jq_Remote :: "bool option"
  jq_Skills :: "string list"
  jq_MaxYoE :: "int option"
  jq_EmploymentType :: string
  jq_Source :: string
  jq_PostedAfter :: "time option"
  jq_Limit :: int
  jq_Offset :: int

record JobPage =
  jp_Total :: int
  jp_Jobs :: "Job list"

definition opt_neg :: "int option \<Rightarrow> bool" where
  "opt_neg v = (case v of None \<Rightarrow> False | Some x \<Rightarrow> x < 0)"

text \<open>\<open>Some\<close> message stands for an error that wraps \<open>ErrInvalidJobQuery\<close>.\<close>

definition ValidateJobQuery :: "JobQuery \<Rightarrow> string option" where
  "ValidateJobQuery q =
     (if opt_neg (jq_PayMin q) then Some ''pay_min must be non-negative''
      else if opt_neg (jq_PayMax q) then Some ''pay_max must be non-negative''
      else if opt_neg (jq_MaxYoE q) then Some ''max_yoe must be non-negative''
      else (case (jq_PayMin q, jq_PayMax q) of
          (Some lo, Some hi) \<Rightarrow> if lo > hi then Some ''pay_min must not exceed pay_max'' else None
        | _ \<Rightarrow> None))"

section \<open>Staleness\<close>

definition StaleAfter :: duration where "StaleAfter = hours 48"

definition IsStale :: "time \<Rightarrow> time \<Rightarrow> duration \<Rightarrow> bool" where
  "IsStale lastSeen now maxAge \<longleftrightarrow> \<not> is_zero_time lastSeen \<and> maxAge \<le> time_sub now lastSeen"

end
