(* ===== verification/Go_Regex.thy ===== *)
theory Go_Regex
  imports Go_Prelude
begin

text \<open>
  Go regular expressions. A position is the byte before it (\<open>None\<close> at the start of the
  text) with the rest of the text; \<open>mt r p\<close> lists the positions where a match of \<open>r\<close> that
  starts at \<open>p\<close> can end, in the order of preference of Go's leftmost-first semantics, so
  that the match is the first of the list. \<open>\\d\<close>, \<open>\\s\<close> and \<open>\\b\<close> are ASCII in Go too;
  non-ASCII literals are matched as their UTF-8 bytes.
\<close>

section \<open>Matching\<close>

type_synonym rpos = "char option \<times> string"

datatype rx =
    Eps
  | Ch "char \<Rightarrow> bool"
  | Seq rx rx
  | Alt rx rx
  | Star rx
  | WordB
  | AtEnd

fun star_ends :: "(rpos \<Rightarrow> rpos list) \<Rightarrow> nat \<Rightarrow> rpos \<Rightarrow> rpos list" where
  "star_ends f 0 p = [p]"
| "star_ends f (Suc n) p =
     concat (map (\<lambda>q. if length (snd q) < length (snd p) then star_ends f n q else []) (f p)) @ [p]"

definition is_word :: "char \<Rightarrow> bool" where
  "is_word c \<longleftrightarrow> is_digit c \<or> c = CHR ''_'' \<or>
     97 \<le> (of_char (lower_char c) :: nat) \<and> (of_char (lower_char c) :: nat) \<le> 122"

definition word_opt :: "char option \<Rightarrow> bool" where
  "word_opt c = (case c of None \<Rightarrow> False | Some d \<Rightarrow> is_word d)"

primrec mt :: "rx \<Rightarrow> rpos \<Rightarrow> rpos list" where
  "mt Eps p = [p]"
| "mt (Ch P) p = (case snd p of [] \<Rightarrow> [] | c # cs \<Rightarrow> if P c then [(Some c, cs)] else [])"
| "mt (Seq a b) p = concat (map (mt b) (mt a p))"
| "mt (Alt a b) p = mt a p @ mt b p"
| "mt (Star a) p = star_ends (mt a) (length (snd p)) p"
| "mt WordB p = (if word_opt (fst p) \<noteq> word_opt (case snd p of [] \<Rightarrow> None | c # _ \<Rightarrow> Some c) then [p] else [])"
| "mt AtEnd p = (if snd p = [] then [p] else [])"

definition rx_opt :: "rx \<Rightarrow> rx" where "rx_opt r = Alt r Eps"

definition rx_plus :: "rx \<Rightarrow> rx" where "rx_plus r = Seq r (Star r)"

fun rx_lit :: "string \<Rightarrow> rx" where
  "rx_lit [] = Eps"
| "rx_lit (c # cs) = Seq (Ch (\<lambda>d. d = c)) (rx_lit cs)"

fun rx_seq :: "rx list \<Rightarrow> rx" where
  "rx_seq [] = Eps"
| "rx_seq [r] = r"
| "rx_seq (r # rs) = Seq r (rx_seq rs)"

fun rx_alt :: "rx list \<Rightarrow> rx" where
  "rx_alt [] = Ch (\<lambda>_. False)"
| "rx_alt [r] = r"
| "rx_alt (r # rs) = Alt r (rx_alt rs)"

definition rx_digit :: rx where "rx_digit = Ch is_digit"

definition re_space :: "char \<Rightarrow> bool" where
  "re_space c \<longleftrightarrow> c \<in> {CHR '' '', CHR 0x09, CHR 0x0A, CHR 0x0C, CHR 0x0D}"

definition rx_space :: rx where "rx_space = Ch re_space"

section \<open>Searching and replacing\<close>

text \<open>\<open>MatchString\<close>.\<close>

fun search :: "rx \<Rightarrow> char option \<Rightarrow> string \<Rightarrow> bool" where
  "search r p [] \<longleftrightarrow> mt r (p, []) \<noteq> []"
| "search r p (c # cs) \<longleftrightarrow> mt r (p, c # cs) \<noteq> [] \<or> search r (Some c) cs"

definition match_string :: "rx \<Rightarrow> string \<Rightarrow> bool" where
  "match_string r s = search r None s"

text \<open>
  \<open>FindAllString\<close> and \<open>ReplaceAllString\<close>: the successive matches that do not overlap, and
  the text with each replaced. They are used on patterns that match no empty text, so an
  empty match is treated as none.
\<close>

definition first_end :: "rx \<Rightarrow> rpos \<Rightarrow> rpos option" where
  "first_end r p = (case mt r p of [] \<Rightarrow> None | q # _ \<Rightarrow> if length (snd q) < length (snd p) then Some q else None)"

function find_all :: "rx \<Rightarrow> char option \<Rightarrow> string \<Rightarrow> string list" where
  "find_all r p s =
     (case s of [] \<Rightarrow> []
      | c # cs \<Rightarrow>
          (case first_end r (p, s) of
             None \<Rightarrow> find_all r (Some c) cs
           | Some q \<Rightarrow> take (length s - length (snd q)) s # find_all r (fst q) (snd q)))"
  by pat_completeness auto
termination by (relation "measure (\<lambda>(r, p, s). length s)") (auto simp: first_end_def split: list.splits if_splits)

declare find_all.simps [simp del]

text \<open>
  \<open>FindAllStringSubmatch\<close> of a pattern \<open>(a)b\<close>: the texts of its group \<open>a\<close>.
\<close>

definition first_pair :: "rx \<Rightarrow> rx \<Rightarrow> rpos \<Rightarrow> (rpos \<times> rpos) option" where
  "first_pair a b p =
     (case concat (map (\<lambda>q. map (Pair q) (mt b q)) (mt a p)) of
        [] \<Rightarrow> None
      | (q, e) # _ \<Rightarrow> if length (snd e) < length (snd p) then Some (q, e) else None)"

function find_groups :: "rx \<Rightarrow> rx \<Rightarrow> char option \<Rightarrow> string \<Rightarrow> string list" where
  "find_groups a b p s =
     (case s of [] \<Rightarrow> []
      | c # cs \<Rightarrow>
          (case first_pair a b (p, s) of
             None \<Rightarrow> find_groups a b (Some c) cs
           | Some (q, e) \<Rightarrow> take (length s - length (snd q)) s # find_groups a b (fst e) (snd e)))"
  by pat_completeness auto
termination by (relation "measure (\<lambda>(a, b, p, s). length s)")
  (auto simp: first_pair_def split: list.splits if_splits prod.splits)

declare find_groups.simps [simp del]

function replace_from :: "rx \<Rightarrow> string \<Rightarrow> char option \<Rightarrow> string \<Rightarrow> string" where
  "replace_from r rep p s =
     (case s of [] \<Rightarrow> []
      | c # cs \<Rightarrow>
          (case first_end r (p, s) of
             None \<Rightarrow> c # replace_from r rep (Some c) cs
           | Some q \<Rightarrow> rep @ replace_from r rep (fst q) (snd q)))"
  by pat_completeness auto
termination by (relation "measure (\<lambda>(r, rep, p, s). length s)") (auto simp: first_end_def split: list.splits if_splits)

declare replace_from.simps [simp del]

definition replace_all :: "rx \<Rightarrow> string \<Rightarrow> string \<Rightarrow> string" where
  "replace_all r rep s = replace_from r rep None s"

section \<open>Runs of a byte class\<close>

text \<open>
  The two replacements of the normalizer squeeze runs of a byte class into one space;
  \<open>squeeze\<close> is that function without the matcher.
\<close>

function squeeze :: "(char \<Rightarrow> bool) \<Rightarrow> string \<Rightarrow> string" where
  "squeeze P [] = []"
| "squeeze P (c # cs) = (if P c then CHR '' '' # squeeze P (dropWhile P cs) else c # squeeze P cs)"
  by pat_completeness auto
termination by (relation "measure (\<lambda>(P, s). length s)") (auto simp: le_imp_less_Suc length_dropWhile_le)

lemma star_ends_class:
  "length s \<le> n \<Longrightarrow> \<exists>p rest. star_ends (mt (Ch P)) n (q, s) = (p, dropWhile P s) # rest"
proof (induction n arbitrary: q s)
  case 0 then show ?case by simp
next
  case (Suc n)
  show ?case
  proof (cases s)
    case Nil then show ?thesis by simp
  next
    case (Cons c cs)
    then have "length cs \<le> n" using Suc.prems by simp
    from Suc.IH [OF this] obtain p rest
      where "star_ends (mt (Ch P)) n (Some c, cs) = (p, dropWhile P cs) # rest" by blast
    then show ?thesis using Cons by (simp del: mt.simps) (simp only: mt.simps, simp)
  qed
qed

lemma first_end_class [simp]:
  "first_end (rx_plus (Ch P)) (q, []) = None"
  "\<not> P c \<Longrightarrow> first_end (rx_plus (Ch P)) (q, c # cs) = None"
  by (simp_all add: first_end_def rx_plus_def)

lemma first_end_class_Some:
  assumes "P c"
  shows "\<exists>p. first_end (rx_plus (Ch P)) (q, c # cs) = Some (p, dropWhile P cs)"
proof -
  obtain p rest where "star_ends (mt (Ch P)) (length cs) (Some c, cs) = (p, dropWhile P cs) # rest"
    using star_ends_class [of cs "length cs" P "Some c"] by blast
  then show ?thesis using assms length_dropWhile_le [of P cs]
    by (simp add: first_end_def rx_plus_def)
qed

lemma replace_from_class: "replace_from (rx_plus (Ch P)) '' '' q s = squeeze P s"
proof (induction P s arbitrary: q rule: squeeze.induct)
  case (1 P) then show ?case by (simp add: replace_from.simps)
next
  case (2 P c cs)
  show ?case
  proof (cases "P c")
    case True
    then obtain p where "first_end (rx_plus (Ch P)) (q, c # cs) = Some (p, dropWhile P cs)"
      using first_end_class_Some by blast
    then show ?thesis using 2(1) True by (subst replace_from.simps) simp
  next
    case False
    then show ?thesis using 2(2) by (subst replace_from.simps) simp
  qed
qed

lemma replace_all_class: "replace_all (rx_plus (Ch P)) '' '' s = squeeze P s"
  by (simp add: replace_all_def replace_from_class)

lemma squeeze_id:
  assumes "\<not> list_ex P s"
  shows "squeeze P s = s"
  using assms by (induction P s rule: squeeze.induct) auto

lemma squeeze_set: "set (squeeze P s) \<subseteq> insert CHR '' '' {c \<in> set s. \<not> P c}"
proof (induction P s rule: squeeze.induct)
  case (2 P c cs)
  then show ?case using set_dropWhileD [of _ P cs] by (auto split: if_splits)
qed simp

text \<open>A squeezed text in which the class contains the space is left alone.\<close>

lemma squeeze_hd: "squeeze P s \<noteq> [] \<Longrightarrow> hd (squeeze P s) = (if P (hd s) then CHR '' '' else hd s)"
  by (cases s) auto

lemma squeeze_Nil [simp]: "squeeze P s = [] \<longleftrightarrow> s = []"
  by (cases s) auto

lemma squeeze_idem:
  assumes "P CHR '' ''"
  shows "squeeze P (squeeze P s) = squeeze P s"
  using assms
proof (induction P s rule: squeeze.induct)
  case (2 P c cs)
  show ?case
  proof (cases "P c")
    case True
    have "dropWhile P (squeeze P (dropWhile P cs)) = squeeze P (dropWhile P cs)"
    proof (cases "dropWhile P cs")
      case (Cons x xs)
      then have "\<not> P x" by (simp add: dropWhile_eq_Cons_conv)
      then show ?thesis using Cons by simp
    next
      case Nil then show ?thesis unfolding Nil by simp
    qed
    then show ?thesis using True 2(1,3) by simp
  next
    case False
    then show ?thesis using 2 by simp
  qed
qed simp

end
