(* ===== verification/Go_Float.thy ===== *)
theory Go_Float
  imports Go_Prelude
begin

text \<open>
  Non-negative IEEE 754 doubles, exactly. A value is \<open>m * 2 ^ e\<close> with \<open>m < 2 ^ 53\<close>;
  \<open>round_double\<close> rounds a fraction to the nearest double, ties to even, which is what
  \<open>strconv.ParseFloat\<close> and a multiplication do. Subnormal results, below \<open>2 ^ -1022\<close>, are
  kept at full precision: the backend only truncates them, to 0, or multiplies them first by
  a number far too small to bring them near 1.
\<close>

type_synonym double = "int \<times> int"

function bit_len :: "int \<Rightarrow> int" where
  "bit_len n = (if n \<le> 0 then 0 else 1 + bit_len (n div 2))"
  by pat_completeness auto
termination by (relation "measure nat") auto

declare bit_len.simps [simp del]

text \<open>\<open>half_even n d\<close> is \<open>n / d\<close> rounded to an integer, ties to even, for \<open>d > 0\<close>.\<close>

definition half_even :: "int \<Rightarrow> int \<Rightarrow> int" where
  "half_even n d =
     (let q = n div d; r = n mod d in
      if 2 * r < d \<or> 2 * r = d \<and> even q then q else q + 1)"

text \<open>\<open>scaled n d e\<close> is the fraction \<open>n / (d * 2 ^ e)\<close>.\<close>

definition scaled :: "int \<Rightarrow> int \<Rightarrow> int \<Rightarrow> int \<times> int" where
  "scaled n d e = (if e < 0 then (n * 2 ^ nat (- e), d) else (n, d * 2 ^ nat e))"

definition round_double :: "int \<Rightarrow> int \<Rightarrow> double" where
  "round_double n d =
     (if n = 0 then (0, 0)
      else let e0 = bit_len n - bit_len d - 53;
               (a, b) = scaled n d e0;
               e = (if a < b * 2 ^ 53 then e0 else e0 + 1);
               (a', b') = scaled n d e
           in (half_even a' b', e))"

definition double_mult :: "double \<Rightarrow> int \<Rightarrow> double" where
  "double_mult f k =
     (case f of (m, e) \<Rightarrow> if e < 0 then round_double (m * k) (2 ^ nat (- e)) else round_double (m * k * 2 ^ nat e) 1)"

definition double_trunc :: "double \<Rightarrow> int" where
  "double_trunc f = (case f of (m, e) \<Rightarrow> if e < 0 then m div 2 ^ nat (- e) else m * 2 ^ nat e)"

text \<open>
  \<open>strconv.ParseFloat\<close> on digits with at most one point between digits, \<open>None\<close> when the
  value is out of range.
\<close>

definition parse_float :: "string \<Rightarrow> double option" where
  "parse_float s =
     (let whole = takeWhile (\<lambda>c. c \<noteq> CHR ''.'') s;
          frac = drop (length whole + 1) s;
          f = round_double (int_val (whole @ frac)) (10 ^ length frac)
      in if 2 ^ 1024 \<le> double_trunc f then None else Some f)"

text \<open>
  The conversion \<open>int64(f)\<close>; outside the range Go leaves the value to the machine, here the
  parameter \<open>big\<close>.
\<close>

definition int64_of_double :: "int \<Rightarrow> double \<Rightarrow> int" where
  "int64_of_double big f = (if double_trunc f < 2 ^ 63 then double_trunc f else big)"

text \<open>Multiplication, division and addition of doubles, each rounded once.\<close>

definition scale2 :: "int \<Rightarrow> int \<Rightarrow> int \<times> int" where
  "scale2 m e = (if e < 0 then (m, 2 ^ nat (- e)) else (m * 2 ^ nat e, 1))"

definition double_times :: "double \<Rightarrow> double \<Rightarrow> double" where
  "double_times f g = (case scale2 (fst f * fst g) (snd f + snd g) of (a, b) \<Rightarrow> round_double a b)"

definition double_div :: "double \<Rightarrow> double \<Rightarrow> double" where
  "double_div f g = (case (scale2 (fst f) (snd f), scale2 (fst g) (snd g)) of
     ((a, b), (c, d)) \<Rightarrow> round_double (a * d) (b * c))"

definition double_add :: "double \<Rightarrow> double \<Rightarrow> double" where
  "double_add f g = (case (scale2 (fst f) (snd f), scale2 (fst g) (snd g)) of
     ((a, b), (c, d)) \<Rightarrow> round_double (a * d + c * b) (b * d))"

definition double_of_int :: "int \<Rightarrow> double" where
  "double_of_int n = round_double n 1"

section \<open>Rounding keeps whole numbers\<close>

lemma half_even_nonneg: "0 \<le> n \<Longrightarrow> 0 < d \<Longrightarrow> 0 \<le> half_even n d"
  by (simp add: half_even_def Let_def pos_imp_zdiv_nonneg_iff add_nonneg_nonneg)

lemma half_even_exact: "0 < d \<Longrightarrow> half_even (q * d) d = q"
  by (simp add: half_even_def)

lemma bit_len_bounds: "0 < n \<Longrightarrow> 0 < bit_len n \<and> 2 ^ nat (bit_len n - 1) \<le> n \<and> n < 2 ^ nat (bit_len n)"
proof (induction n rule: bit_len.induct)
  case (1 n)
  show ?case
  proof (cases "n = 1")
    case True then show ?thesis by (simp add: bit_len.simps)
  next
    case False
    with 1(2) have h: "0 < n div 2" by linarith
    let ?b = "bit_len (n div 2)"
    have IH: "0 < ?b" "2 ^ nat (?b - 1) \<le> n div 2" "n div 2 < 2 ^ nat ?b" using 1(1) 1(2) h by auto
    have b: "bit_len n = 1 + ?b" using 1(2) by (subst bit_len.simps) simp
    have "nat ?b = Suc (nat (?b - 1))" "nat (bit_len n) = Suc (nat ?b)" using IH(1) b by simp_all
    then have "(2 :: int) ^ nat ?b = 2 * 2 ^ nat (?b - 1)" "(2 :: int) ^ nat (bit_len n) = 2 * 2 ^ nat ?b"
      by simp_all
    then have "2 ^ nat ?b \<le> n" "n < 2 ^ nat (bit_len n)" using IH by linarith+
    then show ?thesis using b IH(1) by simp
  qed
qed

lemma pow2_less: "(2::int) ^ a < 2 ^ b \<Longrightarrow> a < b"
  by (rule power_less_imp_less_exp [where a = "2::int"]) simp_all

lemma bit_len_le_53:
  assumes "0 < n" "n < 2 ^ 53"
  shows "bit_len n \<le> 53"
proof -
  have "(2::int) ^ nat (bit_len n - 1) < 2 ^ 53" using bit_len_bounds [OF assms(1)] assms(2) by linarith
  from pow2_less [OF this] show ?thesis by linarith
qed

lemma bit_len_unique:
  assumes "2 ^ k \<le> n" "n < 2 ^ Suc k"
  shows "bit_len n = int k + 1"
proof -
  have n: "0 < n" using assms(1) by (smt (verit) zero_less_power)
  note b = bit_len_bounds [OF n]
  have "(2::int) ^ nat (bit_len n - 1) < 2 ^ Suc k" "(2::int) ^ k < 2 ^ nat (bit_len n)"
    using b assms by linarith+
  then have "nat (bit_len n - 1) < Suc k" "k < nat (bit_len n)"
    by (simp_all only: pow2_less)
  then show ?thesis using b by linarith
qed

text \<open>A whole number below \<open>2 ^ 53\<close>, given as any fraction over a power of two, is exact.\<close>

lemma round_double_exact:
  assumes n: "0 < n" "n < 2 ^ 53"
  shows "round_double (n * 2 ^ k) (2 ^ k) = (n * 2 ^ nat (53 - bit_len n), bit_len n - 53)"
proof -
  let ?b = "bit_len n"
  note b = bit_len_bounds [OF n(1)]
  have b53: "0 < ?b" "?b \<le> 53" using b bit_len_le_53 [OF n] by simp_all
  have p: "(2::int) ^ nat ?b = 2 * 2 ^ nat (?b - 1)" using b53 by (simp add: nat_diff_distrib power_eq_if)
  have bk: "bit_len (2 ^ k) = int k + 1" by (rule bit_len_unique) simp_all
  have "bit_len (n * 2 ^ k) = int (nat (?b - 1) + k) + 1"
  proof (rule bit_len_unique)
    show "2 ^ (nat (?b - 1) + k) \<le> n * 2 ^ k" using b by (simp add: power_add)
    show "n * 2 ^ k < 2 ^ Suc (nat (?b - 1) + k)" using b p by (simp add: power_add)
  qed
  then have e0: "bit_len (n * 2 ^ k) - bit_len (2 ^ k) - 53 = ?b - 54" using b53 bk by simp
  have s0: "scaled (n * 2 ^ k) (2 ^ k) (?b - 54) = (n * 2 ^ k * 2 ^ nat (54 - ?b), 2 ^ k)"
    using b53 by (simp add: scaled_def)
  have "(2::int) ^ 53 = 2 ^ nat (?b - 1) * 2 ^ nat (54 - ?b)"
    using b53 by (simp add: power_add [symmetric] nat_add_distrib [symmetric])
  moreover have "2 ^ nat (?b - 1) * 2 ^ nat (54 - ?b) \<le> n * 2 ^ nat (54 - ?b)"
    by (rule mult_right_mono) (use b in simp_all)
  ultimately have "2 ^ 53 \<le> n * 2 ^ nat (54 - ?b)" by linarith
  then have "2 ^ k * 2 ^ 53 \<le> n * 2 ^ k * 2 ^ nat (54 - ?b)" by (simp add: algebra_simps)
  then have e: "\<not> n * 2 ^ k * 2 ^ nat (54 - ?b) < 2 ^ k * 2 ^ 53" by linarith
  have "scaled (n * 2 ^ k) (2 ^ k) (?b - 53) = ((n * 2 ^ nat (53 - ?b)) * 2 ^ k, 2 ^ k)"
    using b53 by (cases "?b = 53") (simp_all add: scaled_def algebra_simps)
  note s1 = this
  have "n * 2 ^ k \<noteq> 0" using n(1) by simp
  moreover have "?b - 54 + 1 = ?b - 53" by simp
  ultimately show ?thesis
    unfolding round_double_def Let_def e0 s0 prod.case using e
    by (simp only: if_False s1 prod.case half_even_exact zero_less_power zero_less_numeral)
qed

lemma double_trunc_exact:
  assumes "0 < n" "n < 2 ^ 53"
  shows "double_trunc (n * 2 ^ nat (53 - bit_len n), bit_len n - 53) = n"
proof (cases "bit_len n < 53")
  case True
  then show ?thesis by (simp add: double_trunc_def)
next
  case False
  then have "bit_len n = 53" using bit_len_le_53 [OF assms] by linarith
  then show ?thesis by (simp add: double_trunc_def)
qed

lemma whole_product_exact:
  assumes "0 \<le> n" "0 < k" "n * k < 2 ^ 53"
  shows "double_trunc (double_mult (round_double n 1) k) = n * k"
proof (cases "n = 0")
  case True
  then show ?thesis by (simp add: round_double_def double_mult_def double_trunc_def)
next
  case False
  then have n: "0 < n" using assms(1) by simp
  then have "n \<le> n * k" using assms(2) by simp
  then have n53: "n < 2 ^ 53" using assms(3) by linarith
  have r: "round_double n 1 = (n * 2 ^ nat (53 - bit_len n), bit_len n - 53)"
    using round_double_exact [OF n n53, of 0] by simp
  have nk: "0 < n * k" using n assms(2) by simp
  have "bit_len n \<le> 53" by (rule bit_len_le_53 [OF n n53])
  then have "double_mult (round_double n 1) k =
      round_double (n * k * 2 ^ nat (53 - bit_len n)) (2 ^ nat (53 - bit_len n))"
    by (cases "bit_len n = 53") (simp_all add: r double_mult_def algebra_simps)
  then show ?thesis using round_double_exact [OF nk assms(3)] double_trunc_exact [OF nk assms(3)] by simp
qed

end
