(* ===== verification/Go_Net.thy ===== *)
theory Go_Net
  imports Go_Prelude
begin

text \<open>
  What the backend uses of \<open>net/url\<close> and \<open>net\<close>: \<open>url.Parse\<close> with the fields \<open>Scheme\<close>,
  \<open>User\<close> (only whether it is set), \<open>Host\<close>, \<open>Path\<close> and \<open>RawQuery\<close>, the method \<open>Hostname\<close>,
  and \<open>net.ParseIP\<close> followed by \<open>IsLoopback\<close>.
\<close>

section \<open>Helpers\<close>

definition is_lower_az :: "char \<Rightarrow> bool" where
  "is_lower_az c \<longleftrightarrow> 97 \<le> (of_char c :: int) \<and> (of_char c :: int) \<le> 122"

definition is_letter :: "char \<Rightarrow> bool" where
  "is_letter c \<longleftrightarrow> is_lower_az (lower_char c)"

definition is_alnum :: "char \<Rightarrow> bool" where
  "is_alnum c \<longleftrightarrow> is_letter c \<or> is_digit c"

definition hex_val :: "char \<Rightarrow> int option" where
  "hex_val c = (let k = (of_char (lower_char c) :: int) in
     if is_digit c then Some (k - 48) else if 97 \<le> k \<and> k \<le> 102 then Some (k - 87) else None)"

text \<open>\<open>strings.Cut\<close> on a byte: the part before and, when the byte occurs, the part after it.\<close>

fun cut :: "char \<Rightarrow> string \<Rightarrow> string \<times> string option" where
  "cut b [] = ([], None)"
| "cut b (c # cs) = (if c = b then ([], Some cs) else (case cut b cs of (x, r) \<Rightarrow> (c # x, r)))"

text \<open>\<open>unescape\<close>, \<open>None\<close> for a malformed escape or a byte the test \<open>bad\<close> refuses.\<close>

fun unescape :: "(char \<Rightarrow> bool) \<Rightarrow> (int \<Rightarrow> int \<Rightarrow> bool) \<Rightarrow> string \<Rightarrow> string option" where
  "unescape bad okesc [] = Some []"
| "unescape bad okesc (c # cs) =
     (if c = CHR ''%'' then
        (case cs of
           a # b # r \<Rightarrow>
             (case (hex_val a, hex_val b) of
                (Some x, Some y) \<Rightarrow>
                  if okesc x y then map_option (Cons (char_of (16 * x + y))) (unescape bad okesc r) else None
              | _ \<Rightarrow> None)
         | _ \<Rightarrow> None)
      else if bad c then None
      else map_option (Cons c) (unescape bad okesc cs))"

definition path_unescape :: "string \<Rightarrow> string option" where
  "path_unescape = unescape (\<lambda>_. False) (\<lambda>_ _. True)"

definition host_bad :: "char \<Rightarrow> bool" where
  "host_bad c \<longleftrightarrow> (of_char c :: int) < 128 \<and> \<not> is_alnum c \<and>
     c \<notin> set ''!$&()*+,;=:[]<>-_.~'' \<and> c \<noteq> CHR 0x27 \<and> c \<noteq> CHR 0x22"

definition host_unescape :: "string \<Rightarrow> string option" where
  "host_unescape = unescape host_bad (\<lambda>x y. 8 \<le> x \<or> x = 2 \<and> y = 5)"

section \<open>IP addresses\<close>

definition parse_octet :: "string \<Rightarrow> int option" where
  "parse_octet s = (if s \<noteq> [] \<and> length s \<le> 3 \<and> list_all is_digit s \<and> (length s = 1 \<or> hd s \<noteq> CHR ''0'') \<and> int_val s \<le> 255
     then Some (int_val s) else None)"

definition parse_ip4 :: "string \<Rightarrow> (int \<times> int \<times> int \<times> int) option" where
  "parse_ip4 s = (case map parse_octet (split_on CHR ''.'' s) of
     [Some a, Some b, Some c, Some d] \<Rightarrow> Some (a, b, c, d) | _ \<Rightarrow> None)"

definition parse_hextet :: "string \<Rightarrow> int option" where
  "parse_hextet s = (if s \<noteq> [] \<and> length s \<le> 4 \<and> list_all (\<lambda>c. hex_val c \<noteq> None) s
     then Some (foldl (\<lambda>a c. 16 * a + the (hex_val c)) 0 s) else None)"

text \<open>Colon-separated groups; the last may be a dotted quad.\<close>

fun parse_groups :: "string list \<Rightarrow> int list option" where
  "parse_groups [] = Some []"
| "parse_groups [g] = (case parse_ip4 g of
      Some (a, b, c, d) \<Rightarrow> Some [256 * a + b, 256 * c + d]
    | None \<Rightarrow> map_option (\<lambda>x. [x]) (parse_hextet g))"
| "parse_groups (g # h # gs) = (case parse_hextet g of None \<Rightarrow> None
      | Some x \<Rightarrow> map_option (Cons x) (parse_groups (h # gs)))"

fun split_ellipsis :: "string \<Rightarrow> (string \<times> string) option" where
  "split_ellipsis (a # b # s) = (if a = CHR '':'' \<and> b = CHR '':'' then Some ([], s)
     else map_option (\<lambda>(x, y). (a # x, y)) (split_ellipsis (b # s)))"
| "split_ellipsis s = None"

definition colon_groups :: "string \<Rightarrow> int list option" where
  "colon_groups s = (if s = [] then Some [] else parse_groups (split_on CHR '':'' s))"

definition parse_ip6 :: "string \<Rightarrow> int list option" where
  "parse_ip6 s = (case split_ellipsis s of
      None \<Rightarrow> (case colon_groups s of Some g \<Rightarrow> if length g = 8 then Some g else None | None \<Rightarrow> None)
    | Some (l, r) \<Rightarrow>
        (case (colon_groups l, colon_groups r) of
           (Some a, Some b) \<Rightarrow> if length a + length b \<le> 7 \<and> CHR ''.'' \<notin> set l
             then Some (a @ replicate (8 - length a - length b) 0 @ b) else None
         | _ \<Rightarrow> None))"

text \<open>\<open>net.ParseIP(s)\<close> is an address and \<open>IsLoopback\<close> holds of it.\<close>

definition is_loopback_ip :: "string \<Rightarrow> bool" where
  "is_loopback_ip s = (case parse_ip4 s of
      Some (a, _, _, _) \<Rightarrow> a = 127
    | None \<Rightarrow> (case parse_ip6 s of
        None \<Rightarrow> False
      | Some g \<Rightarrow> g = [0, 0, 0, 0, 0, 0, 0, 1] \<or> take 6 g = [0, 0, 0, 0, 0, 65535] \<and> g ! 6 div 256 = 127))"

section \<open>URLs\<close>

record url =
  url_Scheme :: string
  url_User :: bool
  url_Host :: string
  url_Path :: string
  url_RawQuery :: string

text \<open>\<open>getScheme\<close>: \<open>None\<close> is the error, the first component empty when there is no scheme.\<close>

fun scheme_len :: "string \<Rightarrow> bool \<Rightarrow> (nat option) option" where
  "scheme_len [] first = Some None"
| "scheme_len (c # cs) first =
     (if is_letter c then (case scheme_len cs False of None \<Rightarrow> None | Some n \<Rightarrow> Some (map_option Suc n))
      else if is_digit c \<or> c \<in> set ''+-.''
        then (if first then Some None
              else (case scheme_len cs False of None \<Rightarrow> None | Some n \<Rightarrow> Some (map_option Suc n)))
      else if c = CHR '':'' then (if first then None else Some (Some 0))
      else Some None)"

definition getScheme :: "string \<Rightarrow> (string \<times> string) option" where
  "getScheme s = (case scheme_len s True of
      None \<Rightarrow> None
    | Some None \<Rightarrow> Some ([], s)
    | Some (Some n) \<Rightarrow> Some (take n s, drop (Suc n) s))"

definition validOptionalPort :: "string \<Rightarrow> bool" where
  "validOptionalPort p \<longleftrightarrow> (case p of [] \<Rightarrow> True | c # ds \<Rightarrow> c = CHR '':'' \<and> list_all is_digit ds)"

definition parseHost :: "string \<Rightarrow> string option" where
  "parseHost host =
     (case last_index_byte host CHR ''['' of
        Some open_ix \<Rightarrow>
          (case last_index_byte host CHR '']'' of
             None \<Rightarrow> None
           | Some close_ix \<Rightarrow>
               (let port = drop (Suc close_ix) host; name = take (close_ix - Suc open_ix) (drop (Suc open_ix) host) in
                if \<not> validOptionalPort port \<or> close_ix < open_ix then None
                else (case host_unescape (fst (cut CHR ''%'' name)) of
                   None \<Rightarrow> None
                 | Some u \<Rightarrow> if parse_ip6 u = None then None
                     else (case host_unescape name of None \<Rightarrow> None | Some n \<Rightarrow> Some (CHR ''['' # n @ CHR '']'' # port)))))
      | None \<Rightarrow>
          (case cut CHR '':'' host of
             (_, Some port) \<Rightarrow> if list_all is_digit port then host_unescape host else None
           | (_, None) \<Rightarrow> host_unescape host))"

definition validUserinfo :: "string \<Rightarrow> bool" where
  "validUserinfo s \<longleftrightarrow> list_all (\<lambda>c. is_alnum c \<or> c \<in> set ''-._:~!$&()*+,;=%@'' \<or> c = CHR 0x27) s"

text \<open>\<open>parseAuthority\<close>: whether a user is given, and the host.\<close>

definition parseAuthority :: "string \<Rightarrow> (bool \<times> string) option" where
  "parseAuthority a =
     (case last_index_byte a CHR ''@'' of
        None \<Rightarrow> map_option (Pair False) (parseHost a)
      | Some i \<Rightarrow>
          (if validUserinfo (take i a) \<and> path_unescape (take i a) \<noteq> None
           then map_option (Pair True) (parseHost (drop (Suc i) a)) else None))"

definition url_parse :: "string \<Rightarrow> url option" where
  "url_parse raw =
     (let (u, frag) = cut CHR ''#'' raw in
      if list_ex (\<lambda>c. (of_char c :: int) < 32 \<or> c = CHR 0x7F) u
         \<or> (case frag of None \<Rightarrow> False | Some f \<Rightarrow> path_unescape f = None) then None
      else case getScheme u of
        None \<Rightarrow> None
      | Some (sch, rest0) \<Rightarrow>
          (let (rest, q) = (case cut CHR ''?'' rest0 of (r, None) \<Rightarrow> (r, []) | (r, Some q) \<Rightarrow> (r, q));
               scheme = to_lower sch;
               plain = (\<lambda>usr host path. map_option (\<lambda>p. \<lparr>url_Scheme = scheme, url_User = usr, url_Host = host,
                          url_Path = p, url_RawQuery = q\<rparr>) (path_unescape path))
           in if \<not> has_prefix rest ''/'' \<and> scheme \<noteq> []
              then Some \<lparr>url_Scheme = scheme, url_User = False, url_Host = [], url_Path = [], url_RawQuery = q\<rparr>
              else if \<not> has_prefix rest ''/'' \<and> CHR '':'' \<in> set (fst (cut CHR ''/'' rest)) then None
              else if (scheme \<noteq> [] \<or> \<not> has_prefix rest ''///'') \<and> has_prefix rest ''//''
              then (let body = drop 2 rest; auth = fst (cut CHR ''/'' body) in
                    case parseAuthority auth of
                      None \<Rightarrow> None
                    | Some (usr, host) \<Rightarrow> plain usr host (drop (length auth) body))
              else plain False [] rest))"

text \<open>The method \<open>Hostname\<close>.\<close>

definition url_Hostname :: "url \<Rightarrow> string" where
  "url_Hostname u =
     (let hp = url_Host u;
          host = (case last_index_byte hp CHR '':'' of
                    Some i \<Rightarrow> if validOptionalPort (drop i hp) then take i hp else hp
                  | None \<Rightarrow> hp)
      in if has_prefix host ''['' \<and> has_suffix host '']'' then take (length host - 2) (drop 1 host) else host)"

end
