(* ===== verification/Ingest_Normalize.thy ===== *)
theory Ingest_Normalize
  imports Ingest_Model Go_Regex Go_Float Go_Net Go_Base64
begin

text \<open>
  The normalizer of listings (\<open>internal/ingest/normalize.go\<close>): whitespace, source URLs,
  remote and location detection, the cross-source dedup key, employment and seniority
  labels, years of experience and stated salaries.

  The environment holds what the code takes from its surroundings: SHA-256, the order in
  which one \<open>range\<close> over the map of employment synonyms visits it (Go leaves it open, so it
  is any list with the entries of the map) and the result of converting a float that does
  not fit \<open>int64\<close>, which Go leaves to the machine.
\<close>

record normEnv =
  ne_sha256 :: "string \<Rightarrow> string"
  ne_order :: "(string \<times> string) list"
  ne_big :: int

datatype norm_err = Incomplete | InvalidSourceURL

section \<open>Text\<close>

definition wsRe :: rx where "wsRe = rx_plus rx_space"

definition nonAlnum :: "char \<Rightarrow> bool" where
  "nonAlnum c \<longleftrightarrow> \<not> (is_lower_az c \<or> is_digit c)"

definition nonAlnumRe :: rx where "nonAlnumRe = rx_plus (Ch nonAlnum)"

definition collapse :: "string \<Rightarrow> string" where
  "collapse s = replace_all wsRe '' '' (trim_space s)"

definition remoteWords :: "string list" where
  "remoteWords = [''remote'', ''wfh'', ''work from home'', ''kerja dari rumah'', ''wfa'', ''anywhere'']"

definition jabodetabekTokens :: "string list" where
  "jabodetabekTokens = [''jakarta'', ''bogor'', ''depok'', ''tangerang'', ''bekasi'']"

definition detectRemote :: "string \<Rightarrow> bool" where
  "detectRemote s = list_ex (contains (to_lower s)) remoteWords"

definition isJabodetabekOrRemote :: "Job \<Rightarrow> bool" where
  "isJabodetabekOrRemote j =
     (if j_Remote j then True
      else let location = to_lower (trim_space (j_Location j)) in
        if location = [] then False else list_ex (contains location) jabodetabekTokens)"

section \<open>Source URLs\<close>

definition isLoopbackHost :: "string \<Rightarrow> bool" where
  "isLoopbackHost host = (if equal_fold host ''localhost'' then True else is_loopback_ip host)"

text \<open>\<open>True\<close> when the Go function returns no error.\<close>

definition ValidateSourceURL :: "string \<Rightarrow> bool" where
  "ValidateSourceURL raw =
     (case url_parse (trim_space raw) of
        None \<Rightarrow> False
      | Some p \<Rightarrow>
          if url_Scheme p = [] \<or> url_Host p = [] \<or> url_Hostname p = [] \<or> url_User p then False
          else if equal_fold (url_Scheme p) ''https'' then True
          else equal_fold (url_Scheme p) ''http'' \<and> isLoopbackHost (url_Hostname p))"

section \<open>Dedup key\<close>

definition cityOf :: "string \<Rightarrow> string" where
  "cityOf location = (case index_byte location CHR '','' of
      Some i \<Rightarrow> trim_space (take i location) | None \<Rightarrow> location)"

definition trim_cut :: "char \<Rightarrow> string \<Rightarrow> string" where
  "trim_cut b s = trim_right (\<lambda>c. c = b) (trim_left (\<lambda>c. c = b) s)"

definition canon :: "string \<Rightarrow> string" where
  "canon s = trim_cut CHR '' '' (replace_all nonAlnumRe '' '' (to_lower s))"

definition dedupSeed :: "string \<Rightarrow> string \<Rightarrow> string \<Rightarrow> string" where
  "dedupSeed company title location =
     canon company @ ''|'' @ canon title @ ''|'' @ canon (cityOf location)"

definition dedupKey :: "normEnv \<Rightarrow> string \<Rightarrow> string \<Rightarrow> string \<Rightarrow> string" where
  "dedupKey env company title location =
     hex_encode (take 16 (ne_sha256 env (dedupSeed company title location)))"

section \<open>Labels\<close>

definition employmentSynonyms :: "(string \<times> string) list" where
  "employmentSynonyms =
    [(''full time'', ''full_time''), (''fulltime'', ''full_time''), (''full-time'', ''full_time''),
     (''full_time'', ''full_time''),
     (''penuh waktu'', ''full_time''), (''tetap'', ''full_time''), (''permanent'', ''full_time''),
     (''part time'', ''part_time''), (''part-time'', ''part_time''), (''paruh waktu'', ''part_time''),
     (''part_time'', ''part_time''),
     (''contract'', ''contract''), (''kontrak'', ''contract''),
     (''internship'', ''internship''), (''intern'', ''internship''), (''magang'', ''internship''),
     (''freelance'', ''freelance''), (''lepas'', ''freelance''),
     (''temporary'', ''temporary''), (''sementara'', ''temporary'')]"

definition normalizeEmploymentType :: "normEnv \<Rightarrow> string \<Rightarrow> string" where
  "normalizeEmploymentType env s =
     (let key = to_lower (collapse s) in
      if key = [] then []
      else case map_of employmentSynonyms key of
        Some v \<Rightarrow> v
      | None \<Rightarrow> (case find (\<lambda>(syn, v). contains key syn) (ne_order env) of
          Some (syn, v) \<Rightarrow> v | None \<Rightarrow> []))"

definition senioritySynonyms :: "(string \<times> string) list" where
  "senioritySynonyms =
    [(''intern'', ''intern''), (''magang'', ''intern''),
     (''fresh grad'', ''entry''), (''entry'', ''entry''), (''pemula'', ''entry''),
     (''junior'', ''junior''),
     (''mid'', ''mid''), (''intermediate'', ''mid''), (''menengah'', ''mid''),
     (''principal'', ''lead''), (''lead'', ''lead''),
     (''manager'', ''manager''), (''head'', ''manager''), (''kepala'', ''manager''),
     (''senior'', ''senior'')]"

definition normalizeSeniority :: "string \<Rightarrow> string" where
  "normalizeSeniority s =
     (let key = to_lower (collapse s) in
      if key = [] then []
      else case find (\<lambda>(needle, v). contains key needle) senioritySynonyms of
        Some (needle, v) \<Rightarrow> v | None \<Rightarrow> [])"

fun deriveSeniority :: "string list \<Rightarrow> string" where
  "deriveSeniority [] = []"
| "deriveSeniority (t # ts) = (if normalizeSeniority t \<noteq> [] then normalizeSeniority t else deriveSeniority ts)"

section \<open>Years of experience\<close>

definition yoeNum :: rx where "yoeNum = Seq rx_digit (rx_opt rx_digit)"

definition yoeRest :: rx where
  "yoeRest = rx_seq [Star rx_space, rx_opt (rx_lit ''+''), Star rx_space,
     rx_opt (rx_seq [rx_lit ''-'', Star rx_space, Seq rx_digit (rx_opt rx_digit), Star rx_space]),
     rx_alt [Seq (rx_lit ''year'') (rx_opt (rx_lit ''s'')), Seq (rx_lit ''yr'') (rx_opt (rx_lit ''s'')), rx_lit ''tahun'']]"

definition yoeBest :: "int option \<Rightarrow> string \<Rightarrow> int option" where
  "yoeBest best m =
     (case parse_int64 m of
        None \<Rightarrow> best
      | Some n \<Rightarrow> (case best of None \<Rightarrow> Some n | Some b \<Rightarrow> if n < b then Some n else best))"

definition yoeFound :: "string \<Rightarrow> string list" where
  "yoeFound t = find_groups yoeNum yoeRest None (to_lower t)"

definition parseYearsExperience :: "string list \<Rightarrow> int option" where
  "parseYearsExperience texts = foldl (\<lambda>best t. foldl yoeBest best (yoeFound t)) None texts"

section \<open>Stated salary\<close>

definition decSep :: rx where "decSep = Ch (\<lambda>c. c = CHR ''.'' \<or> c = CHR '','')"

definition floatTokRe :: rx where
  "floatTokRe = Seq (rx_plus rx_digit) (rx_opt (Seq decSep (rx_plus rx_digit)))"

definition intTokRe :: rx where
  "intTokRe = Seq rx_digit (Star (Ch (\<lambda>c. is_digit c \<or> c = CHR ''.'' \<or> c = CHR '','')))"

definition jtRe :: rx where
  "jtRe = rx_seq [floatTokRe, Star rx_space, rx_lit ''jt'', WordB]"

definition amountAfter :: rx where
  "amountAfter = Alt (Seq (Star rx_space) (Ch (\<lambda>c. is_digit c \<or> c = CHR ''.'' \<or> c = CHR '',''))) WordB"

definition idrRe :: rx where
  "idrRe = rx_alt [rx_seq [WordB, rx_lit ''rp'', amountAfter], rx_seq [WordB, rx_lit ''idr'', amountAfter],
     rx_seq [Alt WordB rx_digit, rx_lit ''juta'', WordB], jtRe]"

text \<open>The four currency signs are the UTF-8 bytes of dollar, euro, pound and yen.\<close>

definition foreignRe :: rx where
  "foreignRe = Alt
     (rx_alt [rx_lit ''$'', rx_lit [CHR 0xE2, CHR 0x82, CHR 0xAC], rx_lit [CHR 0xC2, CHR 0xA3], rx_lit [CHR 0xC2, CHR 0xA5]])
     (Seq (rx_alt (map rx_lit [''aud'', ''cad'', ''cny'', ''eur'', ''gbp'', ''inr'', ''jpy'', ''myr'', ''php'',
        ''sgd'', ''thb'', ''usd'', ''vnd''])) WordB)"

definition salarySkips :: "string list" where
  "salarySkips = [''nego'', ''competitive'', ''disclos'', ''undisclosed'', ''kompetitif'', ''estimate'',
     ''based on experience'']"

fun replace_first :: "char \<Rightarrow> char \<Rightarrow> string \<Rightarrow> string" where
  "replace_first a b [] = []"
| "replace_first a b (c # cs) = (if c = a then b # cs else c # replace_first a b cs)"

definition millionTok :: "normEnv \<Rightarrow> string \<Rightarrow> int option" where
  "millionTok env tok =
     map_option (\<lambda>f. int64_of_double (ne_big env) (double_mult f 1000000))
       (parse_float (replace_first CHR '','' CHR ''.'' tok))"

definition plainTok :: "string \<Rightarrow> int option" where
  "plainTok tok = parse_int64 (filter (\<lambda>c. c \<noteq> CHR ''.'' \<and> c \<noteq> CHR '','') tok)"

definition some_vals :: "('a \<Rightarrow> 'b option) \<Rightarrow> 'a list \<Rightarrow> 'b list" where
  "some_vals f xs = concat (map (\<lambda>x. case f x of None \<Rightarrow> [] | Some v \<Rightarrow> [v]) xs)"

definition salaryVals :: "normEnv \<Rightarrow> string \<Rightarrow> int list" where
  "salaryVals env s =
     (if contains s ''juta'' \<or> match_string jtRe s
      then some_vals (millionTok env) (find_all floatTokRe None s)
      else some_vals plainTok (find_all intTokRe None s))"

definition salaryRange :: "int list \<Rightarrow> int option \<times> int option" where
  "salaryRange vals =
     (case vals of
        [] \<Rightarrow> (None, None)
      | [v] \<Rightarrow> (Some v, Some v)
      | _ \<Rightarrow> (let lo = hd vals; hi = last vals in if lo > hi then (Some hi, Some lo) else (Some lo, Some hi)))"

definition ParseSalaryIDR :: "normEnv \<Rightarrow> string \<Rightarrow> int option \<times> int option" where
  "ParseSalaryIDR env text =
     (let s = to_lower text in
      if s = [] then (None, None)
      else if list_ex (contains s) salarySkips then (None, None)
      else if match_string foreignRe s \<or> \<not> match_string idrRe s then (None, None)
      else salaryRange (salaryVals env s))"

section \<open>Normalization\<close>

definition Normalize :: "normEnv \<Rightarrow> RawJob \<Rightarrow> norm_err + Job" where
  "Normalize env raw =
     (let source = collapse (rj_Source raw);
          url = trim_space (rj_SourceURL raw);
          title = collapse (rj_Title raw);
          company = collapse (rj_Company raw) in
      if source = [] \<or> url = [] \<or> title = [] \<or> company = [] then Inl Incomplete
      else if \<not> ValidateSourceURL url then Inl InvalidSourceURL
      else
        (let location = collapse (rj_Location raw);
             remote = (rj_Remote raw \<or> detectRemote location \<or> detectRemote title);
             (lo, hi) = ParseSalaryIDR env (rj_SalaryText raw);
             reqs = filter (\<lambda>c. c \<noteq> []) (map collapse (rj_Requirements raw));
             seniority = (if trim_space (rj_Seniority raw) = [] then deriveSeniority (title # reqs)
                          else normalizeSeniority (rj_Seniority raw))
         in Inr \<lparr>j_Source = source, j_SourceURL = url, j_Synthetic = rj_Synthetic raw,
              j_DedupKey = dedupKey env company title location,
              j_Title = title, j_Company = company, j_Location = location, j_Remote = remote,
              j_SalaryStatedMin = lo, j_SalaryStatedMax = hi, j_SalaryCurrency = ''IDR'',
              j_Seniority = seniority,
              j_EmploymentType = normalizeEmploymentType env (rj_EmploymentType raw),
              j_YearsExperience = parseYearsExperience ((title # reqs) @ [rj_Seniority raw]),
              j_Requirements = reqs, j_PostedAt = rj_PostedAt raw\<rparr>))"

end
