(* ===== verification/Ingest_NormProps.thy ===== *)
theory Ingest_NormProps
  imports Ingest_Normalize
begin

text \<open>
  What the normalizer guarantees: the shape of a normalized listing, when two listings share
  a dedup key, and which salaries are read from free text.
\<close>

definition sampleNorm :: normEnv where
  "sampleNorm = \<lparr>ne_sha256 = (\<lambda>s. s), ne_order = employmentSynonyms, ne_big = - (2 ^ 63)\<rparr>"

section \<open>Whitespace\<close>

lemma re_space_is_space: "re_space c \<Longrightarrow> is_space c"
  by (auto simp: re_space_def is_space_def)

lemma trim_left_eq: "trim_left P s = s \<longleftrightarrow> s = [] \<or> \<not> P (hd s)"
proof (cases s)
  case (Cons c cs)
  have "dropWhile P cs \<noteq> c # cs" using length_dropWhile_le [of P cs] by (metis Suc_n_not_le_n length_Cons)
  then show ?thesis using Cons by (simp add: trim_left_def)
qed (simp add: trim_left_def)

lemma trim_right_eq: "trim_right P s = s \<longleftrightarrow> s = [] \<or> \<not> P (last s)"
proof -
  have "trim_right P s = s \<longleftrightarrow> trim_left P (rev s) = rev s"
    by (simp add: trim_right_def trim_left_def rev_swap)
  then show ?thesis by (simp add: trim_left_eq hd_rev)
qed

lemma trim_space_eq: "trim_space s = s \<longleftrightarrow> s = [] \<or> \<not> is_space (hd s) \<and> \<not> is_space (last s)"
proof
  assume a: "trim_space s = s"
  have "trim_left is_space (trim_left is_space s) = trim_left is_space s" by (simp add: trim_left_def)
  from trim_left_trim_right [OF this] have l: "trim_left is_space s = s" using a by (simp add: trim_space_def)
  then have "trim_right is_space s = s" using a by (simp add: trim_space_def)
  then show "s = [] \<or> \<not> is_space (hd s) \<and> \<not> is_space (last s)"
    using l trim_left_eq [of is_space s] trim_right_eq [of is_space s] by blast
next
  assume "s = [] \<or> \<not> is_space (hd s) \<and> \<not> is_space (last s)"
  then have "trim_left is_space s = s" "trim_right is_space s = s"
    using trim_left_eq [of is_space s] trim_right_eq [of is_space s] by blast+
  then show "trim_space s = s" by (simp add: trim_space_def)
qed

lemma last_squeeze: "s \<noteq> [] \<Longrightarrow> last (squeeze P s) = (if P (last s) then CHR '' '' else last s)"
proof (induction P s rule: squeeze.induct)
  case (2 P c cs)
  have "last (dropWhile P cs) = last cs" if "dropWhile P cs \<noteq> []"
    using that by (metis last_appendR takeWhile_dropWhile_id)
  then show ?case using 2 by (auto simp: dropWhile_eq_Nil_conv split: if_splits)
qed simp

lemma collapse_squeeze: "collapse s = squeeze re_space (trim_space s)"
  by (simp add: collapse_def wsRe_def rx_space_def replace_all_class)

lemma collapse_idem [simp]: "collapse (collapse s) = collapse s"
proof -
  let ?t = "trim_space s"
  have "?t = [] \<or> \<not> is_space (hd ?t) \<and> \<not> is_space (last ?t)"
    using trim_space_eq [of ?t] by simp
  then have "?t = [] \<or> \<not> is_space (hd (squeeze re_space ?t)) \<and> \<not> is_space (last (squeeze re_space ?t))"
    using squeeze_hd [of re_space ?t] last_squeeze [of ?t re_space] re_space_is_space [of "hd ?t"]
      re_space_is_space [of "last ?t"] by (metis squeeze_Nil)
  then have "trim_space (squeeze re_space ?t) = squeeze re_space ?t"
    by (simp only: trim_space_eq squeeze_Nil)
  then show ?thesis using squeeze_idem [of re_space ?t] by (simp add: collapse_squeeze re_space_def)
qed

section \<open>The dedup key\<close>

text \<open>The words of a text: its maximal runs of ASCII letters and digits, in lower case.\<close>

definition words_of :: "string \<Rightarrow> string list" where
  "words_of s = fields_func nonAlnum (to_lower s)"

lemma fields_func_Cons:
  "fields_func P (c # cs) = (if P c then fields_func P cs
     else (c # takeWhile (\<lambda>x. \<not> P x) cs) # fields_func P (dropWhile (\<lambda>x. \<not> P x) cs))"
proof (induction cs arbitrary: c)
  case Nil then show ?case by (simp add: fields_func_def)
next
  case (Cons d ds)
  show ?case
  proof (cases "P d")
    case False
    obtain q qs where "split_by P ds = q # qs" by (cases "split_by P ds") auto
    then show ?thesis using Cons [of d] False by (auto simp: fields_func_def)
  qed (auto simp: fields_func_def)
qed

lemma fields_func_dropWhile: "fields_func P (dropWhile P s) = fields_func P s"
  by (induction s) (auto simp: fields_func_Cons)

lemma trim_right_append:
  "trim_right P t \<noteq> [] \<Longrightarrow> trim_right P (s @ t) = s @ trim_right P t"
  by (induction t rule: rev_induct) (auto simp: trim_right_def dropWhile_append)

lemma squeeze_append: "\<forall>c\<in>set w. \<not> P c \<Longrightarrow> squeeze P (w @ s) = w @ squeeze P s"
  by (induction w) auto

lemma trim_right_plain: "\<forall>c\<in>set w. \<not> P c \<Longrightarrow> trim_right P w = w"
  using trim_right_eq [of P w] last_in_set [of w] by blast

lemma join_fields_neq: "ws \<noteq> [] \<Longrightarrow> \<forall>w\<in>set ws. w \<noteq> [] \<Longrightarrow> join sep ws \<noteq> []"
  by (induction sep ws rule: join.induct) auto

lemma fields_func_ne: "w \<in> set (fields_func P s) \<Longrightarrow> w \<noteq> [] \<and> (\<forall>c\<in>set w. \<not> P c)"
  using split_by_piece by (fastforce simp: fields_func_def)

lemma trim_squeeze:
  assumes "P CHR '' ''" "s = [] \<or> \<not> P (hd s)"
  shows "trim_right (\<lambda>c. c = CHR '' '') (squeeze P s) = join '' '' (fields_func P s)"
  using assms(2)
proof (induction "length s" arbitrary: s rule: less_induct)
  case less
  show ?case
  proof (cases s)
    case Nil then show ?thesis by (simp add: trim_right_def fields_func_def)
  next
    case (Cons c cs)
    define w where "w = c # takeWhile (\<lambda>x. \<not> P x) cs"
    define r where "r = dropWhile (\<lambda>x. \<not> P x) cs"
    define t where "t = dropWhile P r"
    have c: "\<not> P c" using less.prems Cons by simp
    have w: "\<forall>x\<in>set w. \<not> P x" "\<forall>x\<in>set w. x \<noteq> CHR '' ''" "w \<noteq> []"
      unfolding w_def using c assms(1) by (auto dest: set_takeWhileD)
    have s: "s = w @ r" unfolding Cons w_def r_def by simp
    have f: "fields_func P s = w # fields_func P t"
      unfolding Cons t_def by (simp add: fields_func_Cons c w_def r_def fields_func_dropWhile)
    have r: "squeeze P r = (if r = [] then [] else CHR '' '' # squeeze P t)"
    proof (cases r)
      case (Cons x xs)
      then have "P x" using hd_dropWhile [of "\<lambda>x. \<not> P x" cs] unfolding r_def [symmetric] by simp
      then show ?thesis unfolding t_def Cons by simp
    qed simp
    have t: "t = [] \<or> \<not> P (hd t)" unfolding t_def using hd_dropWhile [of P r] by blast
    have "length t < length s" unfolding t_def s using w(3) length_dropWhile_le [of P r]
      by (simp add: order.strict_trans1)
    note IH = less.hyps [OF this t]
    show ?thesis
    proof (cases "t = []")
      case True
      have q: "squeeze P s = w \<or> squeeze P s = w @ '' ''"
        unfolding s squeeze_append [OF w(1)] r True by simp
      have p: "trim_right (\<lambda>c. c = CHR '' '') w = w" by (rule trim_right_plain) (use w(2) in simp)
      then have "trim_right (\<lambda>c. c = CHR '' '') (w @ '' '') = w" by (simp add: trim_right_def)
      then have "trim_right (\<lambda>c. c = CHR '' '') (squeeze P s) = w" using p q by metis
      then show ?thesis unfolding f True by (simp add: fields_func_def)
    next
      case False
      obtain x xs where x: "t = x # xs" "\<not> P x" using False t by (cases t) auto
      have ne: "fields_func P t \<noteq> []" using x by (simp add: fields_func_Cons)
      then have "join '' '' (fields_func P t) \<noteq> []"
        by (rule join_fields_neq) (use fields_func_ne in blast)
      then have "trim_right (\<lambda>c. c = CHR '' '') ((w @ '' '') @ squeeze P t) = (w @ '' '') @ join '' '' (fields_func P t)"
        using trim_right_append [of _ "squeeze P t" "w @ '' ''"] IH by simp
      moreover have "r \<noteq> []" using False t_def by auto
      moreover have "join '' '' (w # fields_func P t) = w @ '' '' @ join '' '' (fields_func P t)"
        using ne by (cases "fields_func P t") auto
      moreover have "squeeze P s = (w @ '' '') @ squeeze P t"
        unfolding s squeeze_append [OF w(1)] r using \<open>r \<noteq> []\<close> by simp
      ultimately show ?thesis by (simp add: f)
    qed
  qed
qed

lemma canon_words: "canon s = join '' '' (words_of s)"
proof -
  let ?s = "to_lower s" let ?sp = "\<lambda>c. c = CHR '' ''"
  have sp: "nonAlnum CHR '' ''" by code_simp
  have "trim_left ?sp (squeeze nonAlnum u) = squeeze nonAlnum (dropWhile nonAlnum u)" for u
  proof (cases u)
    case (Cons c cs)
    let ?d = "dropWhile nonAlnum cs"
    have "dropWhile ?sp (squeeze nonAlnum ?d) = squeeze nonAlnum ?d"
    proof (cases ?d)
      case Nil then show ?thesis unfolding Nil by simp
    next
      case (Cons x xs)
      then have "\<not> nonAlnum x" by (simp add: dropWhile_eq_Cons_conv)
      then show ?thesis using sp unfolding Cons by auto
    qed
    then show ?thesis using Cons sp by (auto simp: trim_left_def)
  qed (simp add: trim_left_def)
  then have "canon s = trim_right ?sp (squeeze nonAlnum (dropWhile nonAlnum ?s))"
    by (simp add: canon_def trim_cut_def nonAlnumRe_def replace_all_class)
  also have "\<dots> = join '' '' (fields_func nonAlnum (dropWhile nonAlnum ?s))"
    by (rule trim_squeeze [where P = nonAlnum, OF sp]) (use hd_dropWhile [of nonAlnum ?s] in blast)
  finally show ?thesis by (simp add: fields_func_dropWhile words_of_def)
qed

lemma words_of_plain: "w \<in> set (words_of s) \<Longrightarrow> w \<noteq> [] \<and> (\<forall>c\<in>set w. \<not> nonAlnum c)"
  unfolding words_of_def by (rule fields_func_ne)

lemma fields_join:
  assumes "\<forall>w\<in>set ws. w \<noteq> [] \<and> b \<notin> set w"
  shows "fields_func (\<lambda>c. c = b) (join [b] ws) = ws"
  using assms
proof (induction ws)
  case Nil then show ?case by (simp add: fields_func_def)
next
  case (Cons w ws)
  then have w: "w \<noteq> []" "b \<notin> set w" and IH: "fields_func (\<lambda>c. c = b) (join [b] ws) = ws" by auto
  show ?case
  proof (cases ws)
    case Nil
    then show ?thesis using w split_on_no_sep [OF w(2)] by (simp add: fields_func_def split_on_def)
  next
    case (Cons v vs)
    then have "join [b] (w # ws) = w @ b # join [b] ws" by simp
    then show ?thesis using w IH split_on_append [OF w(2), of "join [b] ws"]
      by (simp add: fields_func_def split_on_def)
  qed
qed

lemma canon_eq_iff: "canon s = canon t \<longleftrightarrow> words_of s = words_of t"
proof -
  have sp: "nonAlnum CHR '' ''" by code_simp
  have "fields_func (\<lambda>c. c = CHR '' '') (join '' '' (words_of u)) = words_of u" for u
    by (rule fields_join) (use words_of_plain [of _ u] sp in blast)
  then show ?thesis by (metis canon_words)
qed

lemma canon_no_bar: "CHR ''|'' \<notin> set (canon s)"
proof -
  have b: "nonAlnum CHR ''|''" by code_simp
  have "set (join sep ws) \<subseteq> set sep \<union> (\<Union>w\<in>set ws. set w)" for sep ws
    by (induction sep ws rule: join.induct) auto
  from this [of "'' ''" "words_of s"] show ?thesis
    using words_of_plain [of _ s] b by (auto simp: canon_words)
qed

lemma dedupSeed_eq_iff:
  "dedupSeed c t l = dedupSeed c' t' l' \<longleftrightarrow>
     canon c = canon c' \<and> canon t = canon t' \<and> canon (cityOf l) = canon (cityOf l')"
proof -
  have s: "split_on CHR ''|'' (dedupSeed x y z) = [canon x, canon y, canon (cityOf z)]" for x y z
    unfolding dedupSeed_def
    by (simp add: split_on_append canon_no_bar split_on_no_sep)
  show ?thesis
  proof
    assume "dedupSeed c t l = dedupSeed c' t' l'"
    then have "[canon c, canon t, canon (cityOf l)] = [canon c', canon t', canon (cityOf l')]"
      using s by metis
    then show "canon c = canon c' \<and> canon t = canon t' \<and> canon (cityOf l) = canon (cityOf l')" by blast
  qed (simp add: dedupSeed_def)
qed

text \<open>
  C30: When two listings are the same job. Unless SHA-256 truncated to 16 bytes collides on
  their two seeds, two listings get the same dedup key exactly when company, title and city
  have the same sequence of words, that is of runs of ASCII letters and digits, up to case:
  punctuation, spacing, what follows the first comma of the location, and the source do not
  count.
\<close>

theorem dedup_key_identity:
  assumes "take 16 (ne_sha256 env (dedupSeed c t l)) = take 16 (ne_sha256 env (dedupSeed c' t' l')) \<Longrightarrow>
    dedupSeed c t l = dedupSeed c' t' l'"
  shows "dedupKey env c t l = dedupKey env c' t' l' \<longleftrightarrow>
    words_of c = words_of c' \<and> words_of t = words_of t' \<and> words_of (cityOf l) = words_of (cityOf l')"
proof -
  have "dedupKey env c t l = dedupKey env c' t' l' \<longleftrightarrow> dedupSeed c t l = dedupSeed c' t' l'"
    using assms by (auto simp: dedupKey_def hex_encode_inj)
  then show ?thesis by (simp add: dedupSeed_eq_iff canon_eq_iff)
qed

theorem dedup_key_identity_witness:
  "dedupKey sampleNorm ''PT. Maju'' ''Go Dev'' ''Jakarta, ID'' = dedupKey sampleNorm ''pt maju'' ''GO-dev'' ''jakarta''"
proof -
  have s: "dedupSeed ''PT. Maju'' ''Go Dev'' ''Jakarta, ID'' = dedupSeed ''pt maju'' ''GO-dev'' ''jakarta''"
    by code_simp
  have w: "words_of ''PT. Maju'' = words_of ''pt maju''" "words_of ''Go Dev'' = words_of ''GO-dev''"
    "words_of (cityOf ''Jakarta, ID'') = words_of (cityOf ''jakarta'')" by code_simp+
  show ?thesis using w by (subst dedup_key_identity) (rule s, simp)
qed

section \<open>Stated salaries\<close>

lemma salaryRange_bounds:
  assumes r: "salaryRange vals = (lo, hi)"
  shows "(lo = None \<and> hi = None \<and> vals = []) \<or>
     (\<exists>a b. lo = Some a \<and> hi = Some b \<and> a \<le> b \<and> a \<in> set vals \<and> b \<in> set vals)"
proof -
  show ?thesis
  proof (cases "length vals \<le> 1")
    case True
    then consider "vals = []" | v where "vals = [v]" by (cases vals) auto
    then show ?thesis by cases (use r in \<open>auto simp: salaryRange_def\<close>)
  next
    case False
    then have m: "hd vals \<in> set vals" "last vals \<in> set vals" by (cases vals; simp)+
    have "salaryRange vals = (if last vals < hd vals then (Some (last vals), Some (hd vals))
        else (Some (hd vals), Some (last vals)))"
      using False by (cases vals; cases "tl vals") (simp_all add: salaryRange_def Let_def)
    then have "lo = Some (min (hd vals) (last vals)) \<and> hi = Some (max (hd vals) (last vals))"
      using r by (simp add: min_def max_def split: if_splits)
    then show ?thesis using m by (auto simp: min_def max_def)
  qed
qed

text \<open>
  A stated salary is a proper range that was really stated. \<open>ParseSalaryIDR\<close> gives
  both bounds or neither; the lower bound never exceeds the upper one, and both are numbers
  read from the text. Nothing is given for a negotiable, estimated or undisclosed salary,
  for a foreign currency, or without a rupiah marker.
\<close>

theorem salary_range_stated:
  "(case ParseSalaryIDR env text of
      (Some lo, Some hi) \<Rightarrow> lo \<le> hi \<and> lo \<in> set (salaryVals env (to_lower text)) \<and>
         hi \<in> set (salaryVals env (to_lower text)) \<and> match_string idrRe (to_lower text) \<and>
         \<not> match_string foreignRe (to_lower text) \<and> \<not> list_ex (contains (to_lower text)) salarySkips
    | (None, None) \<Rightarrow> True
    | _ \<Rightarrow> False)"
proof -
  obtain lo hi where p: "ParseSalaryIDR env text = (lo, hi)" by fastforce
  show ?thesis
  proof (cases "to_lower text = [] \<or> list_ex (contains (to_lower text)) salarySkips \<or>
      match_string foreignRe (to_lower text) \<or> \<not> match_string idrRe (to_lower text)")
    case True
    then show ?thesis by (auto simp: ParseSalaryIDR_def Let_def)
  next
    case False
    then have r: "salaryRange (salaryVals env (to_lower text)) = (lo, hi)"
      using p by (simp add: ParseSalaryIDR_def Let_def)
    show ?thesis using salaryRange_bounds [OF r] False p by auto
  qed
qed

lemma digits_no_sep:
  assumes "0 \<le> n" "\<not> is_digit b"
  shows "b \<notin> set (itoa n)"
  using nat_digits_digit [of "nat n"] assms by (auto simp: itoa_def list.pred_set)

lemma replace_first_id: "a \<notin> set s \<Longrightarrow> replace_first a b s = s"
  by (induction s) auto

lemma parse_float_whole:
  assumes "0 \<le> n" "n < 2 ^ 53"
  shows "parse_float (itoa n) = Some (round_double n 1)"
proof -
  have "CHR ''.'' \<notin> set (itoa n)" by (rule digits_no_sep [OF assms(1)]) code_simp
  then have w: "takeWhile (\<lambda>c. c \<noteq> CHR ''.'') (itoa n) = itoa n" by (auto simp: takeWhile_eq_all_conv)
  have v: "int_val (itoa n) = n" using assms(1) by (simp add: int_val_def itoa_def)
  have "double_trunc (round_double n 1) = n"
    using whole_product_exact [of n 1] assms double_trunc_exact [of n] round_double_exact [of n 0]
    by (cases "n = 0") (simp_all add: round_double_def double_trunc_def)
  then show ?thesis using assms(2) by (simp add: parse_float_def w v Let_def)
qed

text \<open>
  Whole millions are read exactly. Any amount of whole millions whose rupiah value is
  below \<open>2 ^ 53\<close>, written in the shorthand of millions, goes through the floating-point
  computation of \<open>ParseSalaryIDR\<close> without rounding.
\<close>

theorem whole_millions_exact:
  assumes "0 \<le> n" "n * 1000000 < 2 ^ 53"
  shows "millionTok env (itoa n) = Some (n * 1000000)"
proof -
  have c: "replace_first CHR '','' CHR ''.'' (itoa n) = itoa n"
    by (rule replace_first_id, rule digits_no_sep [OF assms(1)]) code_simp
  have "n < 2 ^ 53" using assms by linarith
  then have p: "parse_float (itoa n) = Some (round_double n 1)" by (rule parse_float_whole [OF assms(1)])
  have t: "double_trunc (double_mult (round_double n 1) 1000000) = n * 1000000"
    by (rule whole_product_exact) (use assms in simp_all)
  have "n * 1000000 < 2 ^ 63" using assms(2) by simp
  then show ?thesis by (simp add: millionTok_def c p int64_of_double_def t)
qed

theorem whole_millions_exact_witness: "millionTok sampleNorm ''12'' = Some 12000000"
proof -
  have "itoa 12 = ''12''" by code_simp
  then show ?thesis using whole_millions_exact [of 12 sampleNorm] by simp
qed

text \<open>
  Fractions of a million are not: the nearest double of 8.2 lies below it, the product is
  still below 8.2 million, and the conversion to \<open>int64\<close> truncates, so a rupiah is lost.
\<close>

lemma fractional_million_loses_a_rupiah:
  "ParseSalaryIDR sampleNorm ''Rp 8.2 juta'' = (Some 8199999, Some 8199999)"
  by code_simp

section \<open>Labels and years\<close>

lemma find_in: "find P xs = Some x \<Longrightarrow> x \<in> set xs"
  by (induction xs) (auto split: if_splits)

definition seniorities :: "string list" where
  "seniorities = [[], ''intern'', ''entry'', ''junior'', ''mid'', ''lead'', ''manager'', ''senior'']"

definition employments :: "string list" where
  "employments = [[], ''full_time'', ''part_time'', ''contract'', ''internship'', ''freelance'', ''temporary'']"

lemma normalizeSeniority_set: "normalizeSeniority s \<in> set seniorities"
proof -
  have "snd ` set senioritySynonyms \<subseteq> set seniorities" by code_simp
  then show ?thesis
    by (auto simp: normalizeSeniority_def Let_def seniorities_def split: option.splits prod.splits dest!: find_in)
qed

lemma deriveSeniority_set: "deriveSeniority ts \<in> set seniorities"
  by (induction ts) (use normalizeSeniority_set in \<open>auto simp: seniorities_def\<close>)

lemma normalizeEmploymentType_set:
  assumes "set (ne_order env) = set employmentSynonyms"
  shows "normalizeEmploymentType env s \<in> set employments"
proof -
  have v: "snd ` set employmentSynonyms \<subseteq> set employments" by code_simp
  have e: "[] \<in> set employments" by code_simp
  have "v \<in> set employments" if "map_of employmentSynonyms k = Some v \<or>
      find P (ne_order env) = Some (k, v)" for P k v
    using that v assms by (auto dest!: map_of_SomeD find_in intro!: subsetD [OF v] rev_image_eqI [of "(k, v)"])
  then show ?thesis using e
    by (auto simp: normalizeEmploymentType_def Let_def split: option.splits)
qed

text \<open>
  A label that contains synonyms of two classes is mapped by whichever entry the iteration
  over the Go map visits first, so it changes from run to run.
\<close>

lemma employment_depends_on_map_order:
  "normalizeEmploymentType sampleNorm ''Kontrak, full time'' = ''full_time''"
  "normalizeEmploymentType (sampleNorm\<lparr>ne_order := rev employmentSynonyms\<rparr>) ''Kontrak, full time'' = ''contract''"
  by code_simp+

lemma mt_yoeNum:
  assumes "q \<in> set (mt yoeNum (p, s))"
  shows "\<exists>w. s = w @ snd q \<and> list_all is_digit w \<and> w \<noteq> [] \<and> length w \<le> 2"
proof (cases s)
  case Nil
  then show ?thesis using assms by (simp add: yoeNum_def rx_digit_def)
next
  case (Cons c cs)
  then have c: "is_digit c" using assms by (auto simp: yoeNum_def rx_digit_def split: if_splits)
  show ?thesis
  proof (cases cs)
    case Nil
    then show ?thesis using assms Cons c
      by (auto simp: yoeNum_def rx_digit_def rx_opt_def intro!: exI [of _ "[c]"])
  next
    fix d ds assume "cs = d # ds"
    then show ?thesis using assms Cons c
      by (auto simp: yoeNum_def rx_digit_def rx_opt_def split: if_splits
          intro: exI [of _ "[c]"] exI [of _ "[c, d]"])
  qed
qed

lemma first_pair_mem:
  assumes "first_pair a b p = Some (q, e)"
  shows "q \<in> set (mt a p) \<and> length (snd e) < length (snd p)"
proof -
  obtain rest where c: "concat (map (\<lambda>q. map (Pair q) (mt b q)) (mt a p)) = (q, e) # rest"
    and l: "length (snd e) < length (snd p)"
    using assms by (auto simp: first_pair_def split: list.splits if_splits)
  have "(q, e) \<in> set (concat (map (\<lambda>q. map (Pair q) (mt b q)) (mt a p)))" unfolding c by simp
  then show ?thesis using l by auto
qed

lemma find_groups_yoe:
  "\<forall>m\<in>set (find_groups yoeNum yoeRest p s). list_all is_digit m \<and> m \<noteq> [] \<and> length m \<le> 2"
proof (induction "length s" arbitrary: p s rule: less_induct)
  case less
  show ?case
  proof (cases s)
    case Nil then show ?thesis by (simp add: find_groups.simps)
  next
    case (Cons c cs)
    show ?thesis
    proof (cases "first_pair yoeNum yoeRest (p, s)")
      case None
      then show ?thesis using less [of cs "Some c"] Cons by (subst find_groups.simps) simp
    next
      case (Some x)
      obtain q e where x: "x = (q, e)" by (cases x) blast
      have m: "q \<in> set (mt yoeNum (p, s))" "length (snd e) < length s"
        using first_pair_mem [OF Some [unfolded x]] by simp_all
      obtain w where w: "s = w @ snd q" "list_all is_digit w" "w \<noteq> []" "length w \<le> 2"
        using mt_yoeNum [OF m(1)] by blast
      have "find_groups yoeNum yoeRest p s = take (length s - length (snd q)) s # find_groups yoeNum yoeRest (fst e) (snd e)"
        using Some x Cons by (subst find_groups.simps) simp
      then show ?thesis using w less [OF m(2)] by simp
    qed
  qed
qed

lemma two_digits:
  assumes "list_all is_digit m" "m \<noteq> []" "length m \<le> 2"
  shows "\<exists>n. parse_int64 m = Some n \<and> 0 \<le> n \<and> n \<le> 99"
proof -
  have d: "is_digit c \<Longrightarrow> digit_val c \<le> 9" for c unfolding is_digit_def digit_val_def by linarith
  have s: "\<not> has_prefix m ''-''" "\<not> has_prefix m ''+''"
    using assms is_digit_not_sign by (cases m; force simp: has_prefix_def)+
  have "int (dec_val m) \<le> 99"
  proof (cases m)
    case (Cons a r)
    then show ?thesis using assms d [of a] d [of "hd r"] by (cases r) (auto simp: dec_val_def)
  qed (use assms in simp)
  then show ?thesis using assms s by (simp add: parse_int64_def Let_def)
qed

lemma parseYears_bounds:
  assumes "parseYearsExperience ts = Some n"
  shows "0 \<le> n \<and> n \<le> 99"
proof -
  define ok where "ok = (\<lambda>b :: int option. \<forall>n. b = Some n \<longrightarrow> 0 \<le> n \<and> n \<le> 99)"
  have step: "ok (yoeBest b m)" if "ok b" "list_all is_digit m" "m \<noteq> []" "length m \<le> 2" for b m
    using that(1) two_digits [OF that(2-4)] unfolding yoeBest_def ok_def by (auto split: option.splits)
  have fold: "ok (foldl yoeBest b ms)" if "ok b" "\<forall>m\<in>set ms. list_all is_digit m \<and> m \<noteq> [] \<and> length m \<le> 2" for b ms
    using that
  proof (induction ms arbitrary: b)
    case (Cons m ms) then show ?case using step [of b m] by simp
  qed simp
  have all: "ok (foldl (\<lambda>best t. foldl yoeBest best (yoeFound t)) b ts)" if "ok b" for b ts
    using that
  proof (induction ts arbitrary: b)
    case (Cons t ts)
    have "ok (foldl yoeBest b (yoeFound t))"
      by (rule fold [OF Cons.prems]) (use find_groups_yoe in \<open>simp add: yoeFound_def\<close>)
    then show ?case using Cons.IH by simp
  qed simp
  have "ok (parseYearsExperience ts)"
    unfolding parseYearsExperience_def by (rule all) (simp add: ok_def)
  then show ?thesis using assms by (simp add: ok_def)
qed

section \<open>Normalized listings\<close>

definition tidy :: "string \<Rightarrow> bool" where
  "tidy s \<longleftrightarrow> collapse s = s"

definition normalized :: "Job \<Rightarrow> bool" where
  "normalized j \<longleftrightarrow>
     j_Source j \<noteq> [] \<and> j_Title j \<noteq> [] \<and> j_Company j \<noteq> [] \<and>
     tidy (j_Source j) \<and> tidy (j_Title j) \<and> tidy (j_Company j) \<and> tidy (j_Location j) \<and>
     ValidateSourceURL (j_SourceURL j) \<and> trim_space (j_SourceURL j) = j_SourceURL j \<and>
     (case (j_SalaryStatedMin j, j_SalaryStatedMax j) of
        (Some lo, Some hi) \<Rightarrow> lo \<le> hi | (None, None) \<Rightarrow> True | _ \<Rightarrow> False) \<and>
     j_SalaryCurrency j = ''IDR'' \<and> j_Seniority j \<in> set seniorities \<and>
     j_EmploymentType j \<in> set employments \<and>
     (case j_YearsExperience j of None \<Rightarrow> True | Some n \<Rightarrow> 0 \<le> n \<and> n \<le> 99) \<and>
     (\<forall>r\<in>set (j_Requirements j). r \<noteq> [] \<and> tidy r)"

text \<open>What a listing must carry: a source, a URL, a title and a company that are not blank.\<close>

definition lacks_field :: "RawJob \<Rightarrow> bool" where
  "lacks_field raw \<longleftrightarrow> (\<exists>s\<in>{rj_Source raw, rj_SourceURL raw, rj_Title raw, rj_Company raw}. trim_space s = [])"

lemma collapse_blank: "collapse s = [] \<longleftrightarrow> trim_space s = []"
  by (simp add: collapse_squeeze)

lemma lacks_field_iff:
  "lacks_field raw \<longleftrightarrow> collapse (rj_Source raw) = [] \<or> trim_space (rj_SourceURL raw) = [] \<or> collapse (rj_Title raw) = [] \<or>
     collapse (rj_Company raw) = []"
  by (auto simp: lacks_field_def collapse_blank)

lemma validate_trimmed: "ValidateSourceURL (trim_space x) = ValidateSourceURL x"
  by (simp add: ValidateSourceURL_def)

lemma normalize_fails:
  "Normalize env raw = Inl Incomplete \<longleftrightarrow> lacks_field raw"
  "Normalize env raw = Inl InvalidSourceURL \<longleftrightarrow> \<not> lacks_field raw \<and> \<not> ValidateSourceURL (rj_SourceURL raw)"
  by (auto simp: Normalize_def Let_def lacks_field_iff validate_trimmed split: prod.split)

text \<open>The raw listing in the normalized one.\<close>

definition carries_raw :: "RawJob \<Rightarrow> Job \<Rightarrow> bool" where
  "carries_raw raw j \<longleftrightarrow>
     j_Source j = collapse (rj_Source raw) \<and> j_Title j = collapse (rj_Title raw) \<and> j_Company j = collapse (rj_Company raw) \<and>
     j_Location j = collapse (rj_Location raw) \<and> j_SourceURL j = trim_space (rj_SourceURL raw) \<and>
     j_Synthetic j = rj_Synthetic raw \<and> j_PostedAt j = rj_PostedAt raw \<and>
     j_Requirements j = filter (\<lambda>c. c \<noteq> []) (map collapse (rj_Requirements raw)) \<and>
     (j_Remote j \<longleftrightarrow> rj_Remote raw \<or> detectRemote (j_Location j) \<or> detectRemote (j_Title j)) \<and>
     (j_Seniority j = (if trim_space (rj_Seniority raw) \<noteq> [] then normalizeSeniority (rj_Seniority raw)
        else deriveSeniority (j_Title j # j_Requirements j))) \<and>
     j_YearsExperience j = parseYearsExperience (j_Title j # j_Requirements j @ [rj_Seniority raw])"

lemma normalize_carries:
  assumes "Normalize env raw = Inr j"
  shows "carries_raw raw j" "j_DedupKey j = dedupKey env (j_Company j) (j_Title j) (j_Location j)"
    "(j_SalaryStatedMin j, j_SalaryStatedMax j) = ParseSalaryIDR env (rj_SalaryText raw)" "j_SalaryCurrency j = ''IDR''"
    "j_EmploymentType j = normalizeEmploymentType env (rj_EmploymentType raw)" "\<not> lacks_field raw" "ValidateSourceURL (rj_SourceURL raw)"
proof -
  show n: "\<not> lacks_field raw" "ValidateSourceURL (rj_SourceURL raw)"
    using assms normalize_fails [of env raw] by auto
  obtain lo hi where s: "ParseSalaryIDR env (rj_SalaryText raw) = (lo, hi)" by fastforce
  note e = assms [unfolded Normalize_def Let_def validate_trimmed]
  show "carries_raw raw j" using e n s by (simp add: lacks_field_iff carries_raw_def del: filter.simps) auto
  show "j_DedupKey j = dedupKey env (j_Company j) (j_Title j) (j_Location j)"
    "(j_SalaryStatedMin j, j_SalaryStatedMax j) = ParseSalaryIDR env (rj_SalaryText raw)" "j_SalaryCurrency j = ''IDR''"
    "j_EmploymentType j = normalizeEmploymentType env (rj_EmploymentType raw)"
    using e n s by (auto simp: lacks_field_iff simp del: filter.simps)
qed

lemma salary_range:
  assumes "ParseSalaryIDR env x = (lo, hi)"
  shows "case (lo, hi) of (Some a, Some b) \<Rightarrow> a \<le> b | (None, None) \<Rightarrow> True | _ \<Rightarrow> False"
  using salaryRange_bounds [of "salaryVals env (to_lower x)" lo hi] assms
  by (auto simp: ParseSalaryIDR_def Let_def split: if_splits)

text \<open>
  C29: Every listing that enters the store is well formed and is the listing that was read.
  Normalizing fails as incomplete exactly when source, URL, title or company is blank, and for
  the URL exactly when nothing is blank and the source check refuses it. Otherwise the result
  carries the raw listing: its source, title, company, location and requirements with their
  spacing collapsed, its trimmed URL, its date, the salary, employment type, seniority and
  years read from its texts, and a key made of company, title and location. It is also well
  formed: the salary range is proper and in rupiah, seniority and employment type are among the
  known labels, years of experience lie between 0 and 99 and no requirement is blank.
\<close>

theorem normalize_well_formed:
  assumes "set (ne_order env) = set employmentSynonyms"
  shows "(Normalize env raw = Inl Incomplete \<longleftrightarrow> lacks_field raw) \<and>
    (Normalize env raw = Inl InvalidSourceURL \<longleftrightarrow> \<not> lacks_field raw \<and> \<not> ValidateSourceURL (rj_SourceURL raw)) \<and>
    (\<not> lacks_field raw \<and> ValidateSourceURL (rj_SourceURL raw) \<longrightarrow> (\<exists>j. Normalize env raw = Inr j \<and>
      normalized j \<and> carries_raw raw j \<and> j_DedupKey j = dedupKey env (j_Company j) (j_Title j) (j_Location j) \<and>
      (j_SalaryStatedMin j, j_SalaryStatedMax j) = ParseSalaryIDR env (rj_SalaryText raw) \<and>
      j_EmploymentType j = normalizeEmploymentType env (rj_EmploymentType raw)))"
proof (intro conjI impI)
  show "Normalize env raw = Inl Incomplete \<longleftrightarrow> lacks_field raw"
    "Normalize env raw = Inl InvalidSourceURL \<longleftrightarrow> \<not> lacks_field raw \<and> \<not> ValidateSourceURL (rj_SourceURL raw)"
    by (rule normalize_fails)+
  assume n: "\<not> lacks_field raw \<and> ValidateSourceURL (rj_SourceURL raw)"
  then have "Normalize env raw \<noteq> Inl e" for e using normalize_fails [of env raw] by (cases e) auto
  then obtain j where j: "Normalize env raw = Inr j" by (cases "Normalize env raw") auto
  note c = normalize_carries [OF j]
  have car: "j_Source j = collapse (rj_Source raw)" "j_Title j = collapse (rj_Title raw)" "j_Company j = collapse (rj_Company raw)"
    "j_Location j = collapse (rj_Location raw)" "j_SourceURL j = trim_space (rj_SourceURL raw)"
    "j_Requirements j = filter (\<lambda>c. c \<noteq> []) (map collapse (rj_Requirements raw))"
    using c(1) by (simp_all add: carries_raw_def del: filter.simps)
  have sen: "j_Seniority j \<in> set seniorities"
    using c(1) normalizeSeniority_set deriveSeniority_set unfolding carries_raw_def by auto
  have yoe: "case j_YearsExperience j of None \<Rightarrow> True | Some n \<Rightarrow> 0 \<le> n \<and> n \<le> 99"
    using c(1) parseYears_bounds unfolding carries_raw_def by (auto split: option.split)
  have "normalized j"
    using salary_range [OF c(3) [symmetric]] sen yoe c(4,5) n
      normalizeEmploymentType_set [OF assms, of "rj_EmploymentType raw"]
    by (auto simp: normalized_def tidy_def car lacks_field_iff validate_trimmed)
  then show "\<exists>j. Normalize env raw = Inr j \<and> normalized j \<and> carries_raw raw j \<and>
      j_DedupKey j = dedupKey env (j_Company j) (j_Title j) (j_Location j) \<and>
      (j_SalaryStatedMin j, j_SalaryStatedMax j) = ParseSalaryIDR env (rj_SalaryText raw) \<and>
      j_EmploymentType j = normalizeEmploymentType env (rj_EmploymentType raw)"
    using j c by blast
qed

theorem normalize_well_formed_witness:
  "\<exists>j. Normalize sampleNorm \<lparr>rj_Source = '' jobstreet '', rj_SourceURL = ''https://id.jobstreet.com/1'',
     rj_Synthetic = False, rj_Title = ''Senior  Go dev'', rj_Company = ''PT Maju'', rj_Location = ''Jakarta, ID'',
     rj_Remote = False, rj_SalaryText = ''Rp 8 - 12 juta'', rj_Seniority = [], rj_EmploymentType = ''Full-time'',
     rj_Requirements = [''3+ years Go'', '' ''], rj_PostedAt = None\<rparr> = Inr j \<and> normalized j"
proof -
  let ?r = "\<lparr>rj_Source = '' jobstreet '', rj_SourceURL = ''https://id.jobstreet.com/1'',
     rj_Synthetic = False, rj_Title = ''Senior  Go dev'', rj_Company = ''PT Maju'', rj_Location = ''Jakarta, ID'',
     rj_Remote = False, rj_SalaryText = ''Rp 8 - 12 juta'', rj_Seniority = [], rj_EmploymentType = ''Full-time'',
     rj_Requirements = [''3+ years Go'', '' ''], rj_PostedAt = None\<rparr>"
  have o: "set (ne_order sampleNorm) = set employmentSynonyms" by (simp add: sampleNorm_def)
  have k: "(case Normalize sampleNorm ?r of Inl _ \<Rightarrow> False | Inr _ \<Rightarrow> True)" by code_simp
  then obtain j where j: "Normalize sampleNorm ?r = Inr j" by (auto split: sum.splits)
  show ?thesis using normalize_well_formed [OF o, of ?r] unfolding j by auto
qed

end
