(* ===== verification/Ingest_Store.thy ===== *)
theory Ingest_Store
  imports Ingest_Normalize "HOL-Library.Product_Lexorder"
begin

text \<open>
  The store of normalized listings: the interface the runner and the feed rely on, as a
  locale, and the in-memory implementation (\<open>internal/ingest/memstore.go\<close>) with its clock,
  its staleness sweep and its ordered snapshots.
\<close>

section \<open>The in-memory store\<close>

record storedJob =
  sj_job :: Job
  sj_lastSeen :: time
  sj_stale :: bool
  sj_staleAt :: "time option"

text \<open>
  The injected clock is the sequence of its readings; \<open>ms_calls\<close> counts those taken.
\<close>

record jobMemStore =
  ms_jobs :: "(string, storedJob) gomap"
  ms_now :: "nat \<Rightarrow> time"
  ms_calls :: nat

datatype store_err = BadSourceURL

definition NewMemoryStoreClock :: "(nat \<Rightarrow> time) \<Rightarrow> jobMemStore" where
  "NewMemoryStoreClock now = \<lparr>ms_jobs = [], ms_now = now, ms_calls = 0\<rparr>"

definition jm_Upsert :: "jobMemStore \<Rightarrow> Job \<Rightarrow> jobMemStore \<times> (store_err + bool)" where
  "jm_Upsert m j =
     (if \<not> ValidateSourceURL (j_SourceURL j) then (m, Inl BadSourceURL)
      else (let existed = (gget (ms_jobs m) (j_DedupKey j) \<noteq> None);
                sj = \<lparr>sj_job = j, sj_lastSeen = ms_now m (ms_calls m), sj_stale = False, sj_staleAt = None\<rparr>
            in (m\<lparr>ms_jobs := gput (j_DedupKey j) sj (ms_jobs m), ms_calls := Suc (ms_calls m)\<rparr>, Inr (\<not> existed))))"

definition toMark :: "time \<Rightarrow> duration \<Rightarrow> storedJob \<Rightarrow> bool" where
  "toMark now maxAge sj \<longleftrightarrow> \<not> sj_stale sj \<and> IsStale (sj_lastSeen sj) now maxAge"

definition jm_SweepStale :: "jobMemStore \<Rightarrow> duration \<Rightarrow> jobMemStore \<times> nat" where
  "jm_SweepStale m maxAge =
     (let now = ms_now m (ms_calls m) in
      (m\<lparr>ms_jobs := gmap (\<lambda>_ sj. if toMark now maxAge sj then sj\<lparr>sj_stale := True, sj_staleAt := Some now\<rparr> else sj)
                      (ms_jobs m),
         ms_calls := Suc (ms_calls m)\<rparr>,
       length (filter (toMark now maxAge) (gvals (ms_jobs m)))))"

definition jm_Len :: "jobMemStore \<Rightarrow> nat" where
  "jm_Len m = length (ms_jobs m)"

definition jm_RealActiveCount :: "jobMemStore \<Rightarrow> nat" where
  "jm_RealActiveCount m = length (filter (\<lambda>sj. \<not> sj_stale sj \<and> \<not> j_Synthetic (sj_job sj)) (gvals (ms_jobs m)))"

definition jm_IsStaleKey :: "jobMemStore \<Rightarrow> string \<Rightarrow> bool" where
  "jm_IsStaleKey m k = (case gget (ms_jobs m) k of None \<Rightarrow> False | Some sj \<Rightarrow> sj_stale sj)"

text \<open>
  \<open>sort.Slice\<close> is not stable; since the list order of the map is arbitrary, the stable
  sort of it ranges over the same results.
\<close>

definition jm_snapshot :: "jobMemStore \<Rightarrow> bool \<Rightarrow> Job list" where
  "jm_snapshot m activeOnly =
     sort_key (\<lambda>j. (j_Source j, j_Title j))
       (map sj_job (filter (\<lambda>sj. \<not> (activeOnly \<and> sj_stale sj)) (gvals (ms_jobs m))))"

definition jm_All :: "jobMemStore \<Rightarrow> Job list" where
  "jm_All m = jm_snapshot m False"

definition jm_Active :: "jobMemStore \<Rightarrow> Job list" where
  "jm_Active m = jm_snapshot m True"

section \<open>The interface\<close>

text \<open>
  What the runner relies on: an upsert either fails and stores nothing, or stores the
  listing under its dedup key and tells whether the key was new. \<open>view\<close> is the map from
  dedup keys to listings and \<open>kept\<close> what the store keeps of a listing.
\<close>

locale job_store =
  fixes upsert :: "'s \<Rightarrow> Job \<Rightarrow> 's \<times> ('e + bool)"
    and inv :: "'s \<Rightarrow> bool"
    and view :: "'s \<Rightarrow> string \<Rightarrow> Job option"
    and kept :: "Job \<Rightarrow> Job"
  assumes kept_key: "j_DedupKey (kept j) = j_DedupKey j"
    and upsert_ok: "inv s \<Longrightarrow> upsert s j = (s', Inr created) \<Longrightarrow>
      inv s' \<and> view s' = (view s)(j_DedupKey j \<mapsto> kept j) \<and> (created \<longleftrightarrow> view s (j_DedupKey j) = None)"
    and upsert_err: "inv s \<Longrightarrow> upsert s j = (s', Inl e) \<Longrightarrow> inv s' \<and> view s' = view s"

text \<open>A store that refuses no listing whose URL is valid.\<close>

locale job_store_total = job_store upsert inv view kept
  for upsert :: "'s \<Rightarrow> Job \<Rightarrow> 's \<times> ('e + bool)" and inv :: "'s \<Rightarrow> bool" and view :: "'s \<Rightarrow> string \<Rightarrow> Job option"
    and kept :: "Job \<Rightarrow> Job" +
  assumes upsert_total: "inv s \<Longrightarrow> ValidateSourceURL (j_SourceURL (j :: Job)) \<Longrightarrow> \<exists>s' created. upsert s j = (s', Inr created)"

definition jm_inv :: "jobMemStore \<Rightarrow> bool" where
  "jm_inv m \<longleftrightarrow> gok (ms_jobs m) \<and>
     (\<forall>k sj. gget (ms_jobs m) k = Some sj \<longrightarrow> j_DedupKey (sj_job sj) = k \<and> ValidateSourceURL (j_SourceURL (sj_job sj)) \<and>
        (sj_stale sj \<longleftrightarrow> sj_staleAt sj \<noteq> None))"

definition jm_view :: "jobMemStore \<Rightarrow> string \<Rightarrow> Job option" where
  "jm_view m k = map_option sj_job (gget (ms_jobs m) k)"

lemma jm_Upsert_inv: "jm_inv m \<Longrightarrow> jm_inv (fst (jm_Upsert m j))"
  by (auto simp: jm_inv_def jm_Upsert_def Let_def)

interpretation jobMem: job_store_total jm_Upsert jm_inv jm_view "\<lambda>j. j"
proof unfold_locales
  show "j_DedupKey j = j_DedupKey j" for j :: Job ..
next
  fix s j s' created assume a: "jm_inv s" "jm_Upsert s j = (s', Inr created)"
  show "jm_inv s' \<and> jm_view s' = (jm_view s)(j_DedupKey j \<mapsto> j) \<and> (created \<longleftrightarrow> jm_view s (j_DedupKey j) = None)"
    using jm_Upsert_inv [OF a(1), of j] a(2)
    by (auto simp: jm_Upsert_def jm_view_def Let_def fun_eq_iff split: if_splits)
next
  fix s j s' e assume a: "jm_inv s" "jm_Upsert s j = (s', Inl e)"
  show "jm_inv s' \<and> jm_view s' = jm_view s"
    using a by (auto simp: jm_Upsert_def Let_def split: if_splits)
next
  fix s and j :: Job assume "jm_inv s" "ValidateSourceURL (j_SourceURL j)"
  then show "\<exists>s' created. jm_Upsert s j = (s', Inr created)" by (simp add: jm_Upsert_def Let_def)
qed

section \<open>Staleness\<close>

lemma jm_SweepStale_inv: "jm_inv m \<Longrightarrow> jm_inv (fst (jm_SweepStale m maxAge))"
  by (auto simp: jm_inv_def jm_SweepStale_def Let_def)

lemma jm_SweepStale_get:
  "gget (ms_jobs (fst (jm_SweepStale m maxAge))) k =
     map_option (\<lambda>sj. if toMark (ms_now m (ms_calls m)) maxAge sj
        then sj\<lparr>sj_stale := True, sj_staleAt := Some (ms_now m (ms_calls m))\<rparr> else sj) (gget (ms_jobs m) k)"
  by (simp add: jm_SweepStale_def Let_def)

lemma gvals_gmap: "gvals (gmap f m) = map (\<lambda>(k, v). f k v) m"
  by (simp add: gvals_def gmap_def case_prod_unfold)

lemma jm_snapshot_mem:
  assumes "jm_inv m"
  shows "j \<in> set (jm_snapshot m activeOnly) \<longleftrightarrow>
    (\<exists>sj. gget (ms_jobs m) (j_DedupKey j) = Some sj \<and> sj_job sj = j \<and> (activeOnly \<longrightarrow> \<not> sj_stale sj))"
proof -
  have g: "gok (ms_jobs m)" using assms by (simp add: jm_inv_def)
  have k: "gget (ms_jobs m) k = Some sj \<Longrightarrow> j_DedupKey (sj_job sj) = k" for k sj
    using assms by (simp add: jm_inv_def)
  show ?thesis unfolding jm_snapshot_def using k by (auto simp: gvals_mem [OF g])
qed

inductive jm_reach :: "jobMemStore \<Rightarrow> bool" where
  jm_new: "jm_reach (NewMemoryStoreClock now)"
| jm_upsert: "jm_reach m \<Longrightarrow> jm_reach (fst (jm_Upsert m j))"
| jm_sweep: "jm_reach m \<Longrightarrow> jm_reach (fst (jm_SweepStale m maxAge))"

lemma jm_reach_inv: "jm_reach m \<Longrightarrow> jm_inv m"
proof (induction rule: jm_reach.induct)
  case (jm_new now) then show ?case by (simp add: jm_inv_def NewMemoryStoreClock_def)
qed (simp_all add: jm_Upsert_inv jm_SweepStale_inv)

text \<open>
  Listings that disappear go stale, once, and come back when seen again. In every
  reachable store, a sweep marks exactly the listings that were fresh and not seen for the
  given age, stamps them with the time of the sweep, changes nothing else, and returns
  their number; a second sweep at the same time marks nothing; and storing a listing again
  makes it active whatever its state was.
\<close>

theorem stale_sweep_exact:
  assumes "jm_reach m"
  shows "(let now = ms_now m (ms_calls m); m' = fst (jm_SweepStale m maxAge) in
      (\<forall>k. gget (ms_jobs m') k = map_option (\<lambda>sj. if toMark now maxAge sj
          then sj\<lparr>sj_stale := True, sj_staleAt := Some now\<rparr> else sj) (gget (ms_jobs m) k)) \<and>
      snd (jm_SweepStale m maxAge) =
        card {k. \<exists>sj. gget (ms_jobs m) k = Some sj \<and> \<not> sj_stale sj \<and> IsStale (sj_lastSeen sj) now maxAge} \<and>
      (ms_now m (Suc (ms_calls m)) = now \<longrightarrow> snd (jm_SweepStale m' maxAge) = 0) \<and>
      (ValidateSourceURL (j_SourceURL j) \<longrightarrow> j \<in> set (jm_Active (fst (jm_Upsert m' j)))))"
proof -
  let ?now = "ms_now m (ms_calls m)" let ?m = "fst (jm_SweepStale m maxAge)"
  have inv: "jm_inv m" using assms by (rule jm_reach_inv)
  have g: "distinct (map fst (ms_jobs m))" using inv by (simp add: jm_inv_def gok_def)
  have "snd (jm_SweepStale m maxAge) = length (filter (toMark ?now maxAge \<circ> snd) (ms_jobs m))"
    by (simp add: jm_SweepStale_def Let_def gvals_def filter_map)
  also have "\<dots> = card (fst ` set (filter (toMark ?now maxAge \<circ> snd) (ms_jobs m)))"
    using distinct_card [of "map fst (filter (toMark ?now maxAge \<circ> snd) (ms_jobs m))"] g
    by (simp add: distinct_map_filter)
  also have "fst ` set (filter (toMark ?now maxAge \<circ> snd) (ms_jobs m)) =
      {k. \<exists>sj. gget (ms_jobs m) k = Some sj \<and> \<not> sj_stale sj \<and> IsStale (sj_lastSeen sj) ?now maxAge}"
    using inv by (force simp: jm_inv_def gget_mem toMark_def)
  finally have count: "snd (jm_SweepStale m maxAge) =
      card {k. \<exists>sj. gget (ms_jobs m) k = Some sj \<and> \<not> sj_stale sj \<and> IsStale (sj_lastSeen sj) ?now maxAge}" .
  have again: "snd (jm_SweepStale ?m maxAge) = 0" if "ms_now m (Suc (ms_calls m)) = ?now"
  proof -
    have "\<not> toMark ?now maxAge sj" if "sj \<in> set (gvals (ms_jobs ?m))" for sj
      using that by (auto simp: jm_SweepStale_def Let_def gvals_gmap toMark_def split: if_splits)
    moreover have "ms_now ?m (ms_calls ?m) = ?now" using that by (simp add: jm_SweepStale_def Let_def)
    ultimately show ?thesis by (auto simp: jm_SweepStale_def [of ?m] Let_def filter_empty_conv)
  qed
  have revive: "j \<in> set (jm_Active (fst (jm_Upsert ?m j)))" if "ValidateSourceURL (j_SourceURL j)"
  proof -
    have "jm_inv (fst (jm_Upsert ?m j))" using inv by (simp add: jm_Upsert_inv jm_SweepStale_inv)
    from jm_snapshot_mem [OF this, of j True] show ?thesis
      using that by (simp add: jm_Active_def jm_Upsert_def Let_def)
  qed
  show ?thesis using jm_SweepStale_get [of m maxAge] count again revive by (simp add: Let_def)
qed

definition sampleJob :: Job where
  "sampleJob = \<lparr>j_Source = ''jobstreet'', j_SourceURL = ''https://id.jobstreet.com/1'', j_Synthetic = False,
     j_DedupKey = ''k1'', j_Title = ''Go dev'', j_Company = ''PT Maju'', j_Location = ''Jakarta'', j_Remote = False,
     j_SalaryStatedMin = Some 8000000, j_SalaryStatedMax = Some 12000000, j_SalaryCurrency = ''IDR'',
     j_Seniority = ''mid'', j_EmploymentType = ''full_time'', j_YearsExperience = Some 3,
     j_Requirements = [''Go''], j_PostedAt = None\<rparr>"

definition sampleClock :: "nat \<Rightarrow> time" where
  "sampleClock n = (if n = 0 then 1000 else hours 49)"

theorem stale_sweep_exact_witness:
  "jm_IsStaleKey (fst (jm_SweepStale (fst (jm_Upsert (NewMemoryStoreClock sampleClock) sampleJob)) StaleAfter)) ''k1'' \<and>
   sampleJob \<in> set (jm_Active (fst (jm_Upsert
     (fst (jm_SweepStale (fst (jm_Upsert (NewMemoryStoreClock sampleClock) sampleJob)) StaleAfter)) sampleJob)))"
proof -
  let ?m = "fst (jm_Upsert (NewMemoryStoreClock sampleClock) sampleJob)"
  have r: "jm_reach ?m" by (intro jm_upsert jm_new)
  have v: "ValidateSourceURL (j_SourceURL sampleJob)" by code_simp
  have s: "jm_IsStaleKey (fst (jm_SweepStale ?m StaleAfter)) ''k1''" by code_simp
  show ?thesis using stale_sweep_exact [OF r, of StaleAfter sampleJob] v s by (simp add: Let_def)
qed

end
