(* ===== verification/Ingest_Runner.thy ===== *)
theory Ingest_Runner
  imports Ingest_Store
begin

text \<open>
  The ingestion pass (\<open>internal/ingest/runner.go\<close>): a circuit breaker per source, and one
  pass over the registered sources that normalizes, filters and stores what they return and
  reports per source. The pass holds \<open>runMu\<close>, so it is one function of the state.
\<close>

section \<open>Circuit breakers\<close>

record breaker =
  b_maxFailures :: int
  b_cooldown :: duration
  b_failures :: int
  b_openedAt :: time

definition b_allow :: "breaker \<Rightarrow> time \<Rightarrow> bool" where
  "b_allow b now = (if b_failures b < b_maxFailures b then True else b_cooldown b \<le> time_sub now (b_openedAt b))"

definition b_onSuccess :: "breaker \<Rightarrow> breaker" where
  "b_onSuccess b = b\<lparr>b_failures := 0, b_openedAt := zero_time\<rparr>"

definition b_onFailure :: "breaker \<Rightarrow> time \<Rightarrow> breaker" where
  "b_onFailure b now =
     (let b1 = b\<lparr>b_failures := b_failures b + 1\<rparr> in
      if b_failures b1 \<ge> b_maxFailures b1 then b1\<lparr>b_openedAt := now\<rparr> else b1)"

text \<open>
  The history of a breaker is the list of its attempts, oldest first, each with its time
  and whether it succeeded.
\<close>

fun b_run :: "breaker \<Rightarrow> (time \<times> bool) list \<Rightarrow> breaker" where
  "b_run b [] = b"
| "b_run b ((t, ok) # h) = b_run (if ok then b_onSuccess b else b_onFailure b t) h"

definition newBreaker :: "int \<Rightarrow> duration \<Rightarrow> breaker" where
  "newBreaker maxF cd = \<lparr>b_maxFailures = maxF, b_cooldown = cd, b_failures = 0, b_openedAt = zero_time\<rparr>"

definition trailing_failures :: "(time \<times> bool) list \<Rightarrow> nat" where
  "trailing_failures h = length (takeWhile (\<lambda>(t, ok). \<not> ok) (rev h))"

lemma b_run_append: "b_run b (h @ h') = b_run (b_run b h) h'"
  by (induction b h rule: b_run.induct) auto

lemma b_run_state:
  "b_maxFailures (b_run (newBreaker maxF cd) h) = maxF \<and> b_cooldown (b_run (newBreaker maxF cd) h) = cd \<and>
   b_failures (b_run (newBreaker maxF cd) h) = int (trailing_failures h) \<and>
   (0 < maxF \<longrightarrow> maxF \<le> int (trailing_failures h) \<longrightarrow> b_openedAt (b_run (newBreaker maxF cd) h) = fst (last h))"
proof (induction h rule: rev_induct)
  case Nil then show ?case by (simp add: newBreaker_def trailing_failures_def)
next
  case (snoc x h)
  obtain t ok where "x = (t, ok)" by fastforce
  then show ?case using snoc
    by (cases ok) (simp_all add: b_run_append b_onSuccess_def b_onFailure_def Let_def trailing_failures_def)
qed

text \<open>
  The breaker of a source opens after the configured number of failures in a row and
  only then. After any history of attempts, a source is tried exactly when fewer than
  \<open>maxFailures\<close> attempts have failed since the last success, or when the cooldown since the
  last attempt has passed; so one success closes the breaker, and a failure after the
  cooldown opens it again for another cooldown.
\<close>

theorem breaker_history:
  assumes "0 < maxF"
  shows "b_allow (b_run (newBreaker maxF cd) h) now \<longleftrightarrow>
    int (trailing_failures h) < maxF \<or> cd \<le> time_sub now (fst (last h))"
  using b_run_state [of maxF cd h] assms by (auto simp: b_allow_def)

theorem breaker_history_witness:
  "\<not> b_allow (b_run (newBreaker 2 600) [(1, True), (2, False), (5, False)]) 604 \<and>
   b_allow (b_run (newBreaker 2 600) [(1, True), (2, False), (5, False)]) 605"
proof -
  have t: "int (trailing_failures [(1 :: time, True), (2, False), (5, False)]) = 2" by (simp add: trailing_failures_def)
  have s: "time_sub 604 5 = 599" "time_sub 605 5 = 600" by code_simp+
  show ?thesis
    using breaker_history [of 2 600 "[(1, True), (2, False), (5, False)]" 604]
      breaker_history [of 2 600 "[(1, True), (2, False), (5, False)]" 605] s by (simp add: t)
qed

section \<open>The runner\<close>

record ('f, 'e) SourceReport =
  sr_Source :: string
  sr_Fetched :: nat
  sr_Created :: nat
  sr_Updated :: nat
  sr_Skipped :: bool
  sr_Err :: "'f option"
  sr_PersistErr :: "'e option"

definition newReport :: "string \<Rightarrow> ('f, 'e) SourceReport" where
  "newReport src = \<lparr>sr_Source = src, sr_Fetched = 0, sr_Created = 0, sr_Updated = 0, sr_Skipped = False,
     sr_Err = None, sr_PersistErr = None\<rparr>"

definition TotalCreated :: "('f, 'e) SourceReport list \<Rightarrow> nat" where
  "TotalCreated rs = sum_list (map sr_Created rs)"

record 's runner =
  rn_store :: 's
  rn_breakers :: "(string, breaker) gomap"
  rn_maxFailures :: int
  rn_cooldown :: duration

definition NewRunner :: "'s \<Rightarrow> int \<Rightarrow> duration \<Rightarrow> 's runner" where
  "NewRunner store maxFailures cooldown =
     \<lparr>rn_store = store, rn_breakers = [],
      rn_maxFailures = (if maxFailures \<le> 0 then 3 else maxFailures),
      rn_cooldown = (if cooldown \<le> 0 then minutes 10 else cooldown)\<rparr>"

definition breakerFor :: "'s runner \<Rightarrow> string \<Rightarrow> breaker" where
  "breakerFor r i = (case gget (rn_breakers r) i of
      Some b \<Rightarrow> b | None \<Rightarrow> newBreaker (rn_maxFailures r) (rn_cooldown r))"

text \<open>One raw listing of a source that answered.\<close>

definition ingestRaw ::
  "('s \<Rightarrow> Job \<Rightarrow> 's \<times> ('e + bool)) \<Rightarrow> normEnv \<Rightarrow> 's \<times> ('f, 'e) SourceReport \<Rightarrow> RawJob \<Rightarrow> 's \<times> ('f, 'e) SourceReport" where
  "ingestRaw upsert env acc raw =
     (case acc of (s, sr) \<Rightarrow>
       (case Normalize env raw of
          Inl _ \<Rightarrow> (s, sr)
        | Inr job \<Rightarrow>
            if \<not> isJabodetabekOrRemote job then (s, sr)
            else (let sr1 = sr\<lparr>sr_Fetched := sr_Fetched sr + 1\<rparr> in
              case upsert s job of
                (s1, Inl e) \<Rightarrow> (s1, sr1\<lparr>sr_PersistErr := Some e\<rparr>)
              | (s1, Inr created) \<Rightarrow>
                  (s1, if created then sr1\<lparr>sr_Created := sr_Created sr1 + 1\<rparr>
                       else sr1\<lparr>sr_Updated := sr_Updated sr1 + 1\<rparr>))))"

text \<open>The body of the loop over the sources; the new report is appended.\<close>

definition runSource ::
  "('s \<Rightarrow> Job \<Rightarrow> 's \<times> ('e + bool)) \<Rightarrow> normEnv \<Rightarrow> (string \<Rightarrow> 'f + RawJob list) \<Rightarrow> time \<Rightarrow>
   's runner \<times> ('f, 'e) SourceReport list \<Rightarrow> source \<Rightarrow> 's runner \<times> ('f, 'e) SourceReport list" where
  "runSource upsert env fetch now acc src =
     (case acc of (r, reps) \<Rightarrow>
       (let i = src_ID src; b = breakerFor r i; r1 = r\<lparr>rn_breakers := gput i b (rn_breakers r)\<rparr> in
        if \<not> b_allow b now then (r1, reps @ [(newReport i)\<lparr>sr_Skipped := True\<rparr>])
        else case fetch i of
          Inl err \<Rightarrow> (r1\<lparr>rn_breakers := gput i (b_onFailure b now) (rn_breakers r)\<rparr>,
                      reps @ [(newReport i)\<lparr>sr_Err := Some err\<rparr>])
        | Inr raws \<Rightarrow>
            (let (s, sr) = foldl (ingestRaw upsert env) (rn_store r, newReport i) raws in
             (r1\<lparr>rn_breakers := gput i (b_onSuccess b) (rn_breakers r), rn_store := s\<rparr>, reps @ [sr]))))"

text \<open>
  \<open>RunOnce\<close>, with the sources of the registry, the answers of their \<open>Fetch\<close> in this pass and
  the one clock reading it takes.
\<close>

definition RunOnce ::
  "('s \<Rightarrow> Job \<Rightarrow> 's \<times> ('e + bool)) \<Rightarrow> normEnv \<Rightarrow> (string \<Rightarrow> 'f + RawJob list) \<Rightarrow> time \<Rightarrow> source list \<Rightarrow>
   's runner \<Rightarrow> 's runner \<times> ('f, 'e) SourceReport list" where
  "RunOnce upsert env fetch now srcs r = foldl (runSource upsert env fetch now) (r, []) srcs"

section \<open>What a pass does\<close>

text \<open>The listings of a fetch that are kept, in order.\<close>

definition accepted :: "normEnv \<Rightarrow> RawJob list \<Rightarrow> Job list" where
  "accepted env raws = filter isJabodetabekOrRemote (some_vals (\<lambda>raw. case Normalize env raw of Inl _ \<Rightarrow> None | Inr j \<Rightarrow> Some j) raws)"

definition healthy :: "'s runner \<Rightarrow> (string \<Rightarrow> 'f + RawJob list) \<Rightarrow> time \<Rightarrow> source \<Rightarrow> RawJob list" where
  "healthy r fetch now src = (if b_allow (breakerFor r (src_ID src)) now
     then (case fetch (src_ID src) of Inl _ \<Rightarrow> [] | Inr raws \<Rightarrow> raws) else [])"

definition put_job :: "(string \<Rightarrow> Job option) \<Rightarrow> Job \<Rightarrow> (string \<Rightarrow> Job option)" where
  "put_job v j = v(j_DedupKey j \<mapsto> j)"

lemma some_vals_Nil [simp]: "some_vals f [] = []"
  by (simp add: some_vals_def)

lemma some_vals_Cons [simp]: "some_vals f (x # xs) = (case f x of None \<Rightarrow> some_vals f xs | Some v \<Rightarrow> v # some_vals f xs)"
  by (simp add: some_vals_def split: option.split)

lemma accepted_Nil [simp]: "accepted env [] = []"
  by (simp add: accepted_def)

lemma accepted_Cons: "accepted env (raw # raws) =
  (case Normalize env raw of Inl _ \<Rightarrow> accepted env raws
   | Inr j \<Rightarrow> if isJabodetabekOrRemote j then j # accepted env raws else accepted env raws)"
  by (simp add: accepted_def split: sum.split)

lemma Normalize_url: "Normalize env raw = Inr j \<Longrightarrow> ValidateSourceURL (j_SourceURL j)"
  by (auto simp: Normalize_def Let_def split: if_splits prod.splits)

text \<open>The report of a source that was asked in a pass started in state \<open>r\<close>.\<close>

definition report_ok ::
  "normEnv \<Rightarrow> (string \<Rightarrow> 'f + RawJob list) \<Rightarrow> time \<Rightarrow> 's runner \<Rightarrow> source \<Rightarrow> ('f, 'e) SourceReport \<Rightarrow> bool" where
  "report_ok env fetch now r src sr \<longleftrightarrow>
     sr_Source sr = src_ID src \<and>
     sr_Skipped sr = (\<not> b_allow (breakerFor r (src_ID src)) now) \<and>
     sr_Err sr = (if b_allow (breakerFor r (src_ID src)) now
       then (case fetch (src_ID src) of Inl e \<Rightarrow> Some e | Inr _ \<Rightarrow> None) else None) \<and>
     sr_PersistErr sr = None \<and> sr_Fetched sr = length (accepted env (healthy r fetch now src)) \<and>
     sr_Created sr + sr_Updated sr = sr_Fetched sr"

context job_store_total begin

lemma ingestRaw_fold:
  assumes "inv s" "foldl (ingestRaw upsert env) (s, sr) raws = (s', sr')"
  shows "inv s' \<and> view s' = foldl put_job (view s) (map kept (accepted env raws)) \<and>
    sr_Source sr' = sr_Source sr \<and> sr_Skipped sr' = sr_Skipped sr \<and> sr_Err sr' = sr_Err sr \<and>
    sr_PersistErr sr' = sr_PersistErr sr \<and>
    sr_Fetched sr' = sr_Fetched sr + length (accepted env raws) \<and>
    sr_Created sr' + sr_Updated sr' = sr_Created sr + sr_Updated sr + length (accepted env raws)"
  using assms
proof (induction raws arbitrary: s sr)
  case Nil then show ?case by simp
next
  case (Cons raw raws)
  show ?case
  proof (cases "\<exists>j. Normalize env raw = Inr j \<and> isJabodetabekOrRemote j")
    case False
    then have "ingestRaw upsert env (s, sr) raw = (s, sr)" "accepted env (raw # raws) = accepted env raws"
      by (auto simp: ingestRaw_def accepted_Cons split: sum.splits)
    then show ?thesis using Cons by simp
  next
    case True
    then obtain j where j: "Normalize env raw = Inr j" "isJabodetabekOrRemote j" by blast
    obtain s1 c where u: "upsert s j = (s1, Inr c)"
      using upsert_total [OF Cons.prems(1) Normalize_url [OF j(1)]] by blast
    note u' = upsert_ok [OF Cons.prems(1) u]
    let ?sr = "snd (ingestRaw upsert env (s, sr) raw)"
    have i: "ingestRaw upsert env (s, sr) raw = (s1, ?sr)" using j u by (simp add: ingestRaw_def Let_def)
    have r: "sr_Source ?sr = sr_Source sr" "sr_Skipped ?sr = sr_Skipped sr" "sr_Err ?sr = sr_Err sr"
      "sr_PersistErr ?sr = sr_PersistErr sr" "sr_Fetched ?sr = sr_Fetched sr + 1"
      "sr_Created ?sr + sr_Updated ?sr = sr_Created sr + sr_Updated sr + 1"
      using j u by (simp_all add: ingestRaw_def Let_def)
    have "foldl (ingestRaw upsert env) (s1, ?sr) raws = (s', sr')" using Cons.prems(2) i by simp
    from Cons.IH [OF _ this] u' r j show ?thesis by (simp add: accepted_Cons put_job_def kept_key)
  qed
qed

lemma breakerFor_other [simp]:
  "breakerFor (r\<lparr>rn_breakers := gput i b m\<rparr>) k = (if k = i then b else breakerFor (r\<lparr>rn_breakers := m\<rparr>) k)"
  "breakerFor (r\<lparr>rn_store := s\<rparr>) k = breakerFor r k"
  by (simp_all add: breakerFor_def split: option.split)

lemma runSource_one:
  fixes fetch :: "string \<Rightarrow> 'f + RawJob list"
  assumes "inv (rn_store r)" "runSource upsert env fetch now (r, reps) src = (r', reps')"
  shows "inv (rn_store r') \<and>
    view (rn_store r') = foldl put_job (view (rn_store r)) (map kept (accepted env (healthy r fetch now src))) \<and>
    (\<forall>k. k \<noteq> src_ID src \<longrightarrow> breakerFor r' k = breakerFor r k) \<and>
    breakerFor r' (src_ID src) = (let b = breakerFor r (src_ID src) in if \<not> b_allow b now then b
      else case fetch (src_ID src) of Inl _ \<Rightarrow> b_onFailure b now | Inr _ \<Rightarrow> b_onSuccess b) \<and>
    (\<exists>sr. reps' = reps @ [sr] \<and> report_ok env fetch now r src sr)"
proof (cases "b_allow (breakerFor r (src_ID src)) now")
  case False
  then show ?thesis using assms by (auto simp: runSource_def healthy_def newReport_def report_ok_def Let_def)
next
  case True
  show ?thesis
  proof (cases "fetch (src_ID src)")
    case (Inl e)
    then show ?thesis using True assms by (auto simp: runSource_def healthy_def newReport_def report_ok_def Let_def)
  next
    case (Inr raws)
    obtain s and sr :: "('f, 'e) SourceReport"
      where f: "foldl (ingestRaw upsert env) (rn_store r, newReport (src_ID src)) raws = (s, sr)"
      by fastforce
    note f' = ingestRaw_fold [OF assms(1) f]
    have "r' = r\<lparr>rn_breakers := gput (src_ID src) (b_onSuccess (breakerFor r (src_ID src))) (rn_breakers r), rn_store := s\<rparr>"
      "reps' = reps @ [sr]" using assms(2) True Inr f by (auto simp: runSource_def Let_def)
    then show ?thesis using True Inr f' by (auto simp: healthy_def newReport_def report_ok_def)
  qed
qed

lemma runSources:
  fixes fetch :: "string \<Rightarrow> 'f + RawJob list"
  assumes "inv (rn_store r)" "distinct (map src_ID srcs)"
    and "foldl (runSource upsert env fetch now) (r, reps) srcs = (r', reps')"
  shows "inv (rn_store r') \<and>
    view (rn_store r') = foldl put_job (view (rn_store r)) (map kept (concat (map (\<lambda>src. accepted env (healthy r fetch now src)) srcs))) \<and>
    (\<exists>srs. reps' = reps @ srs \<and> list_all2 (report_ok env fetch now r) srcs srs)"
  using assms
proof (induction srcs arbitrary: r reps)
  case Nil then show ?case by simp
next
  case (Cons src srcs)
  obtain r1 reps1 where one: "runSource upsert env fetch now (r, reps) src = (r1, reps1)" by fastforce
  from runSource_one [OF Cons.prems(1) one] obtain sr where o: "inv (rn_store r1)"
    "view (rn_store r1) = foldl put_job (view (rn_store r)) (map kept (accepted env (healthy r fetch now src)))"
    "\<forall>k. k \<noteq> src_ID src \<longrightarrow> breakerFor r1 k = breakerFor r k"
    "reps1 = reps @ [sr]" "report_ok env fetch now r src sr" by blast
  have b: "breakerFor r1 (src_ID s) = breakerFor r (src_ID s)" if "s \<in> set srcs" for s
  proof -
    have "src_ID s \<noteq> src_ID src" using that Cons.prems(2) by (metis distinct.simps(2) imageI list.set_map list.simps(9))
    then show ?thesis using o(3) by blast
  qed
  then have h: "healthy r1 fetch now s = healthy r fetch now s" if "s \<in> set srcs" for s
    using that by (simp add: healthy_def)
  have ro: "report_ok env fetch now r1 s x = report_ok env fetch now r s x"
    if "s \<in> set srcs" for s and x :: "('f, 'e) SourceReport"
    unfolding report_ok_def b [OF that] h [OF that] ..
  have "foldl (runSource upsert env fetch now) (r1, reps1) srcs = (r', reps')" using Cons.prems(3) one by simp
  moreover have "distinct (map src_ID srcs)" using Cons.prems(2) by simp
  ultimately obtain srs where IH: "inv (rn_store r')"
    "view (rn_store r') = foldl put_job (view (rn_store r1)) (map kept (concat (map (\<lambda>src. accepted env (healthy r1 fetch now src)) srcs)))"
    "reps' = reps1 @ srs" "list_all2 (report_ok env fetch now r1) srcs srs"
    using Cons.IH [OF o(1)] by blast
  have m: "map (\<lambda>src. accepted env (healthy r1 fetch now src)) srcs = map (\<lambda>src. accepted env (healthy r fetch now src)) srcs"
    using h by simp
  have "list_all2 (report_ok env fetch now r) srcs srs"
    using IH(4) ro by (simp add: list_all2_conv_all_nth)
  then have "reps' = reps @ sr # srs \<and> list_all2 (report_ok env fetch now r) (src # srcs) (sr # srs)"
    using o(4,5) IH(3) by simp
  then show ?case using IH(1,2) o(2) by (auto simp: m)
qed

end

text \<open>
  C31: One broken source cannot spoil a pass. The pass reports every source exactly once, in
  registration order. A source whose breaker is open is skipped and one whose fetch fails is
  reported with its error; every other source contributes all its well-formed listings in
  Jabodetabek or remote. Afterwards the store holds what it held before, overwritten by
  exactly those listings in that order, and each report's counts add up.
\<close>

theorem run_once_isolation:
  fixes fetch :: "string \<Rightarrow> 'f + RawJob list"
  assumes "jm_inv (rn_store r)" "distinct (map src_ID srcs)"
    and "RunOnce jm_Upsert env fetch now srcs r = (r', reps)"
  shows "jm_inv (rn_store r') \<and>
    jm_view (rn_store r') = foldl put_job (jm_view (rn_store r)) (concat (map (\<lambda>src. accepted env (healthy r fetch now src)) srcs)) \<and>
    list_all2 (report_ok env fetch now r) srcs reps"
  using jobMem.runSources [OF assms(1,2), of env fetch now "[]" r' reps] assms(3) by (simp add: RunOnce_def)

definition sampleRaw :: RawJob where
  "sampleRaw = \<lparr>rj_Source = ''jobstreet'', rj_SourceURL = ''https://id.jobstreet.com/1'',
     rj_Synthetic = False, rj_Title = ''Go dev'', rj_Company = ''PT Maju'', rj_Location = ''Jakarta, ID'',
     rj_Remote = False, rj_SalaryText = [], rj_Seniority = [], rj_EmploymentType = [],
     rj_Requirements = [], rj_PostedAt = None\<rparr>"

definition sampleNormEnv :: normEnv where
  "sampleNormEnv = \<lparr>ne_sha256 = (\<lambda>s. s), ne_order = employmentSynonyms, ne_big = 0\<rparr>"

definition sampleFetch :: "string \<Rightarrow> string + RawJob list" where
  "sampleFetch i = (if i = ''down'' then Inl ''timeout'' else Inr [sampleRaw, sampleRaw\<lparr>rj_Company := []\<rparr>])"

definition sampleSources :: "source list" where
  "sampleSources = [\<lparr>src_ID = ''down'', src_Tier = 2\<rparr>, \<lparr>src_ID = ''jobstreet'', src_Tier = 2\<rparr>]"

theorem run_once_isolation_witness:
  "\<exists>r' reps. RunOnce jm_Upsert sampleNormEnv sampleFetch 5 sampleSources (NewRunner (NewMemoryStoreClock sampleClock) 0 0) = (r', reps) \<and>
     map sr_Fetched reps = [0, 1] \<and> jm_inv (rn_store r')"
proof -
  let ?r = "NewRunner (NewMemoryStoreClock sampleClock) 0 0"
  obtain r' reps where o: "RunOnce jm_Upsert sampleNormEnv sampleFetch 5 sampleSources ?r = (r', reps)" by fastforce
  have i: "jm_inv (rn_store ?r)" by (simp add: NewRunner_def jm_inv_def NewMemoryStoreClock_def)
  have d: "distinct (map src_ID sampleSources)" by code_simp
  have a: "map (\<lambda>src. length (accepted sampleNormEnv (healthy ?r sampleFetch 5 src))) sampleSources = [0, 1]" by code_simp
  have l: "list_all2 (\<lambda>src sr. sr_Fetched sr = length (accepted sampleNormEnv (healthy ?r sampleFetch 5 src))) sampleSources reps"
    using run_once_isolation [OF i d o] by (auto simp: report_ok_def elim: list_all2_mono)
  have "map sr_Fetched reps = map (\<lambda>src. length (accepted sampleNormEnv (healthy ?r sampleFetch 5 src))) sampleSources"
    using l by (simp add: list_all2_conv_all_nth list_eq_iff_nth_eq)
  then show ?thesis using o a run_once_isolation [OF i d o] by auto
qed

end
