(* ===== verification/Ingest_Fetch.thy ===== *)
theory Ingest_Fetch
  imports Ingest_Model
begin

text \<open>
  Conditional fetching (\<open>internal/ingest/conditionalfetch.go\<close>): a source remembers the
  validators and the decoded listings of its last good answer, and a 304 replays them.

  An answer of the transport is an \<open>httpResp\<close>; a body that cannot be read is \<open>None\<close>. The
  server is a parameter, and any answer may come. What is replayed on a 304 is fixed by the
  answers so far; that it is also current is shown for servers that keep to RFC 9110.
\<close>

datatype httpResp =
    NetErr
  | HttpResp (hr_status: int) (hr_etag: string) (hr_lastmod: string) (hr_body: "string option")

datatype fetch_err =
    BuildErr
  | TransportErr
  | NotModifiedWithoutCache
  | ReadErr
  | DecodeErr
  | StatusErr int

record condRequest =
  cq_IfNoneMatch :: "string option"
  cq_IfModifiedSince :: "string option"

record conditionalStore =
  cs_etag :: string
  cs_lastModified :: string
  cs_cached :: "RawJob list"
  cs_hasCache :: bool

definition newConditionalStore :: conditionalStore where
  "newConditionalStore = \<lparr>cs_etag = [], cs_lastModified = [], cs_cached = [], cs_hasCache = False\<rparr>"

definition maxFetchBody :: int where "maxFetchBody = 16 * 2 ^ 20"

text \<open>The copies made by \<open>cloneRawJobs\<close> are equal values: a slice here is its contents.\<close>

definition cond_request :: "conditionalStore \<Rightarrow> condRequest" where
  "cond_request s = \<lparr>cq_IfNoneMatch = (if cs_etag s \<noteq> [] then Some (cs_etag s) else None),
     cq_IfModifiedSince = (if cs_lastModified s \<noteq> [] then Some (cs_lastModified s) else None)\<rparr>"

text \<open>\<open>built\<close> tells whether the request could be built, \<open>server\<close> answers it.\<close>

definition cond_fetch ::
  "bool \<Rightarrow> (condRequest \<Rightarrow> httpResp) \<Rightarrow> (string \<Rightarrow> RawJob list option) \<Rightarrow> conditionalStore \<Rightarrow>
   conditionalStore \<times> (fetch_err + RawJob list)" where
  "cond_fetch built server decode s =
     (if \<not> built then (s, Inl BuildErr)
      else case server (cond_request s) of
        NetErr \<Rightarrow> (s, Inl TransportErr)
      | HttpResp code etag lastmod body \<Rightarrow>
          if code = 304 then
            (if \<not> cs_hasCache s then (s, Inl NotModifiedWithoutCache) else (s, Inr (cs_cached s)))
          else if code = 200 then
            (case body of
               None \<Rightarrow> (s, Inl ReadErr)
             | Some b \<Rightarrow>
                 (case decode (take (nat maxFetchBody) b) of
                    None \<Rightarrow> (s, Inl DecodeErr)
                  | Some jobs \<Rightarrow>
                      (\<lparr>cs_etag = etag, cs_lastModified = lastmod, cs_cached = jobs, cs_hasCache = True\<rparr>, Inr jobs)))
          else (s, Inl (StatusErr code)))"

section \<open>The cache against the answers\<close>

text \<open>
  One pass after the other: the trace has, for each pass, the request, the server's answer and
  the result of the fetch.
\<close>

type_synonym condExchange = "condRequest \<times> httpResp \<times> (fetch_err + RawJob list)"

definition cond_pass ::
  "(string \<Rightarrow> RawJob list option) \<Rightarrow> conditionalStore \<times> condExchange list \<Rightarrow> (condRequest \<Rightarrow> httpResp) \<Rightarrow>
   conditionalStore \<times> condExchange list" where
  "cond_pass decode st server =
     (let q = cond_request (fst st); (s', r) = cond_fetch True server decode (fst st)
      in (s', snd st @ [(q, server q, r)]))"

definition cond_run ::
  "(string \<Rightarrow> RawJob list option) \<Rightarrow> (condRequest \<Rightarrow> httpResp) list \<Rightarrow> conditionalStore \<times> condExchange list" where
  "cond_run decode servers = foldl (cond_pass decode) (newConditionalStore, []) servers"

text \<open>A good answer is a 200 whose body can be read and decoded; the last one so far counts.\<close>

definition decoded :: "(string \<Rightarrow> RawJob list option) \<Rightarrow> string \<Rightarrow> RawJob list option" where
  "decoded decode b = decode (take (nat maxFetchBody) b)"

definition good_answer :: "(string \<Rightarrow> RawJob list option) \<Rightarrow> httpResp \<Rightarrow> (string \<times> string \<times> RawJob list) option" where
  "good_answer decode a = (case a of
       HttpResp code e l (Some b) \<Rightarrow> if code = 200 then map_option (\<lambda>jobs. (e, l, jobs)) (decoded decode b) else None
     | _ \<Rightarrow> None)"

definition last_good :: "(string \<Rightarrow> RawJob list option) \<Rightarrow> httpResp list \<Rightarrow> (string \<times> string \<times> RawJob list) option" where
  "last_good decode as = foldl (\<lambda>g a. case good_answer decode a of None \<Rightarrow> g | Some h \<Rightarrow> Some h) None as"

definition not_modified :: "httpResp \<Rightarrow> bool" where
  "not_modified a \<longleftrightarrow> (case a of HttpResp code _ _ _ \<Rightarrow> code = 304 | NetErr \<Rightarrow> False)"

definition conditions :: "string \<Rightarrow> string \<Rightarrow> condRequest" where
  "conditions e l = \<lparr>cq_IfNoneMatch = (if e \<noteq> [] then Some e else None), cq_IfModifiedSince = (if l \<noteq> [] then Some l else None)\<rparr>"

lemma last_good_simps [simp]:
  "last_good decode [] = None"
  "last_good decode (as @ [a]) = (case good_answer decode a of None \<Rightarrow> last_good decode as | Some h \<Rightarrow> Some h)"
  by (simp add: last_good_def) (cases "good_answer decode a"; simp add: last_good_def)

lemma last_goodD: "last_good decode as = Some g \<Longrightarrow> \<exists>k<length as. good_answer decode (as ! k) = Some g"
proof (induction as rule: rev_induct)
  case (snoc a as)
  show ?case
  proof (cases "good_answer decode a")
    case None
    then have "last_good decode as = Some g" using snoc.prems by simp
    then obtain k where "k < length as" "good_answer decode (as ! k) = Some g" using snoc.IH by blast
    then show ?thesis by (intro exI [of _ k]) (simp add: nth_append)
  next
    case (Some h)
    then show ?thesis using snoc.prems by (intro exI [of _ "length as"]) simp
  qed
qed simp

text \<open>The store is the last good answer.\<close>

definition store_of :: "(string \<times> string \<times> RawJob list) option \<Rightarrow> conditionalStore" where
  "store_of g = (case g of None \<Rightarrow> newConditionalStore
     | Some (e, l, jobs) \<Rightarrow> \<lparr>cs_etag = e, cs_lastModified = l, cs_cached = jobs, cs_hasCache = True\<rparr>)"

lemma cond_request_store:
  "cond_request (store_of g) = (case g of None \<Rightarrow> conditions [] [] | Some (e, l, _) \<Rightarrow> conditions e l)"
  by (simp add: store_of_def cond_request_def conditions_def newConditionalStore_def split: option.split prod.split)

text \<open>What a fetch answers, given the last good answer before it.\<close>

definition fetched ::
  "(string \<Rightarrow> RawJob list option) \<Rightarrow> (string \<times> string \<times> RawJob list) option \<Rightarrow> httpResp \<Rightarrow> fetch_err + RawJob list \<Rightarrow> bool" where
  "fetched decode prev a r \<longleftrightarrow> (case good_answer decode a of
       Some (_, _, jobs) \<Rightarrow> r = Inr jobs
     | None \<Rightarrow> if not_modified a then r = (case prev of None \<Rightarrow> Inl NotModifiedWithoutCache | Some (_, _, jobs) \<Rightarrow> Inr jobs)
               else (\<exists>e. r = Inl e))"

lemma cond_fetch_step:
  assumes "cond_fetch True server decode (store_of g) = (s', r)"
  shows "s' = store_of (case good_answer decode (server (cond_request (store_of g))) of None \<Rightarrow> g | Some h \<Rightarrow> Some h) \<and>
    fetched decode g (server (cond_request (store_of g))) r"
proof (cases "server (cond_request (store_of g))")
  case NetErr
  then show ?thesis using assms by (auto simp: cond_fetch_def good_answer_def fetched_def not_modified_def)
next
  case (HttpResp code e l b)
  have c: "cs_hasCache (store_of g) = (g \<noteq> None)" "g = Some (x, y, jobs) \<Longrightarrow> cs_cached (store_of g) = jobs" for x y jobs
    by (auto simp: store_of_def newConditionalStore_def split: option.split)
  consider "code = 304" | "code = 200" | "code \<noteq> 304" "code \<noteq> 200" by blast
  then show ?thesis
  proof cases
    case 1
    then show ?thesis using assms HttpResp c
      by (cases g; cases b) (auto simp: cond_fetch_def good_answer_def fetched_def not_modified_def)
  next
    case 2
    then show ?thesis using assms HttpResp
      by (cases b) (auto simp: cond_fetch_def good_answer_def fetched_def not_modified_def decoded_def store_of_def split: option.splits)
  next
    case 3
    then show ?thesis using assms HttpResp
      by (cases b) (auto simp: cond_fetch_def good_answer_def fetched_def not_modified_def)
  qed
qed

definition answers :: "condExchange list \<Rightarrow> httpResp list" where
  "answers tr = map (\<lambda>(q, a, r). a) tr"

lemma answers_simps [simp]: "length (answers tr) = length tr" "answers (tr @ [(q, a, r)]) = answers tr @ [a]"
  "i < length tr \<Longrightarrow> answers tr ! i = (case tr ! i of (q, a, r) \<Rightarrow> a)" "answers (take i tr) = take i (answers tr)"
  by (simp_all add: answers_def take_map)

lemma cond_run_trace:
  assumes "cond_run decode servers = (s', tr)"
  shows "s' = store_of (last_good decode (answers tr)) \<and> length tr = length servers \<and>
    (\<forall>i<length servers. \<exists>q r. tr ! i = (q, (servers ! i) q, r) \<and>
       q = cond_request (store_of (last_good decode (take i (answers tr)))) \<and>
       fetched decode (last_good decode (take i (answers tr))) ((servers ! i) q) r)"
  using assms
proof (induction servers arbitrary: s' tr rule: rev_induct)
  case Nil
  then show ?case by (simp add: cond_run_def answers_def store_of_def)
next
  case (snoc server servers)
  obtain s0 tr0 where 0: "cond_run decode servers = (s0, tr0)" by fastforce
  note ih = snoc.IH [OF 0]
  let ?g = "last_good decode (answers tr0)" let ?q = "cond_request (store_of ?g)"
  obtain s1 r where f: "cond_fetch True server decode (store_of ?g) = (s1, r)" by fastforce
  have "cond_run decode (servers @ [server]) = cond_pass decode (s0, tr0) server" using 0 by (simp add: cond_run_def)
  then have e: "s' = s1" "tr = tr0 @ [(?q, server ?q, r)]" using snoc.prems ih f by (simp_all add: cond_pass_def Let_def)
  note st = cond_fetch_step [OF f]
  show ?case
  proof (intro conjI allI impI)
    show "s' = store_of (last_good decode (answers tr))" using st e by simp
    show "length tr = length (servers @ [server])" using ih e by simp
    fix i assume i: "i < length (servers @ [server])"
    show "\<exists>q r. tr ! i = (q, ((servers @ [server]) ! i) q, r) \<and>
       q = cond_request (store_of (last_good decode (take i (answers tr)))) \<and>
       fetched decode (last_good decode (take i (answers tr))) (((servers @ [server]) ! i) q) r"
    proof (cases "i < length servers")
      case True
      then show ?thesis using ih e by (simp add: nth_append)
    next
      case False
      then have "i = length servers" using i by simp
      then show ?thesis using ih e st by (simp add: nth_append)
    qed
  qed
qed

section \<open>Servers that keep to RFC 9110\<close>

text \<open>
  The content a server offers at some moment: its two validators and its body. A 200 carries
  the content. A 304 answers conditions that the content meets: If-None-Match alone decides
  where it is present, by weak comparison of entity tags; without it If-Modified-Since asks
  whether the content was modified later. How dates compare is the parameter \<open>not_after\<close>. Other
  answers and transport errors are unrestricted.
\<close>

record content =
  ct_etag :: string
  ct_lastmod :: string
  ct_body :: string

definition weak_match :: "string \<Rightarrow> string \<Rightarrow> bool" where
  "weak_match a b \<longleftrightarrow> trim_prefix a ''W/'' = trim_prefix b ''W/''"

definition unmodified :: "(string \<Rightarrow> string \<Rightarrow> bool) \<Rightarrow> condRequest \<Rightarrow> content \<Rightarrow> bool" where
  "unmodified not_after q c \<longleftrightarrow> (case cq_IfNoneMatch q of
       Some e \<Rightarrow> ct_etag c \<noteq> [] \<and> weak_match e (ct_etag c)
     | None \<Rightarrow> (case cq_IfModifiedSince q of
           Some t \<Rightarrow> ct_lastmod c \<noteq> [] \<and> not_after (ct_lastmod c) t
         | None \<Rightarrow> False))"

definition honest :: "(string \<Rightarrow> string \<Rightarrow> bool) \<Rightarrow> content \<Rightarrow> (condRequest \<Rightarrow> httpResp) \<Rightarrow> bool" where
  "honest not_after c server \<longleftrightarrow> (\<forall>q code e l b. server q = HttpResp code e l b \<longrightarrow>
     (code = 200 \<longrightarrow> e = ct_etag c \<and> l = ct_lastmod c \<and> (b = None \<or> b = Some (ct_body c))) \<and>
     (code = 304 \<longrightarrow> unmodified not_after q c))"

lemma honest_good:
  assumes "honest not_after c server" "good_answer decode (server q) = Some (e, l, jobs)"
  shows "e = ct_etag c" "l = ct_lastmod c" "decoded decode (ct_body c) = Some jobs"
proof -
  obtain code b where a: "server q = HttpResp code e l (Some b)" "code = 200" "decoded decode b = Some jobs"
    using assms(2) by (auto simp: good_answer_def split: httpResp.splits option.splits if_splits)
  then show "e = ct_etag c" "l = ct_lastmod c" "decoded decode (ct_body c) = Some jobs"
    using assms(1)[unfolded honest_def, rule_format, OF a(1)] by auto
qed

lemma honest_304: "honest not_after c server \<Longrightarrow> not_modified (server q) \<Longrightarrow> unmodified not_after q c"
  by (auto simp: honest_def not_modified_def split: httpResp.splits)

text \<open>
  C32: A conditional fetch never makes up a listing, and never replays a stale one. Against any
  servers at all, each request carries exactly the validators of the last good answer (none
  before the first one); the fetch returns the listings of the answer itself if it is a good
  one, on a 304 those of the last good answer, or an error when there was none, and an error on
  anything else; and a failed fetch leaves the cache as it was. Against servers that keep to
  RFC 9110, where contents that meet the conditions made from earlier contents decode to the
  same listings, every successful fetch returns exactly the decoding of the content the server
  has at that moment, whether it came with a 200 or was replayed.
\<close>

theorem conditional_fetch_current:
  assumes "cond_run decode servers = (s', tr)"
  shows "length tr = length servers \<and>
    (\<forall>i<length servers. \<exists>q a r. tr ! i = (q, a, r) \<and> a = (servers ! i) q \<and>
       (case last_good decode (take i (answers tr)) of
          None \<Rightarrow> q = conditions [] [] \<and> (not_modified a \<longrightarrow> r = Inl NotModifiedWithoutCache)
        | Some (e, l, jobs) \<Rightarrow> q = conditions e l \<and> (not_modified a \<longrightarrow> r = Inr jobs)) \<and>
       (\<forall>e l jobs. good_answer decode a = Some (e, l, jobs) \<longrightarrow> r = Inr jobs) \<and>
       (good_answer decode a = None \<and> \<not> not_modified a \<longrightarrow> (\<exists>e. r = Inl e))) \<and>
    (\<forall>built server s e. snd (cond_fetch built server decode s) = Inl e \<longrightarrow> fst (cond_fetch built server decode s) = s) \<and>
    (\<forall>not_after contents. list_all2 (honest not_after) contents servers \<and>
       sorted_wrt (\<lambda>c d. unmodified not_after (conditions (ct_etag c) (ct_lastmod c)) d \<longrightarrow>
         decoded decode (ct_body c) = decoded decode (ct_body d)) contents \<longrightarrow>
       (\<forall>i<length servers. \<forall>q a jobs. tr ! i = (q, a, Inr jobs) \<longrightarrow> decoded decode (ct_body (contents ! i)) = Some jobs))"
proof (intro conjI allI impI)
  note run = cond_run_trace [OF assms]
  have len: "length tr = length servers" using run by blast
  then show "length tr = length servers" .
  have at: "tr ! i = (q, (servers ! i) q, r) \<Longrightarrow>
      q = cond_request (store_of (last_good decode (take i (answers tr)))) \<and>
      fetched decode (last_good decode (take i (answers tr))) ((servers ! i) q) r" if "i < length servers" for i q r
    using run that by auto
  have ans: "tr ! i = (q, a, r) \<Longrightarrow> a = (servers ! i) q" if "i < length servers" for i q a r using run that by fastforce
  have nm: "good_answer decode a = None" if "not_modified a" for a
    using that by (auto simp: good_answer_def not_modified_def split: httpResp.splits option.splits)
  show "\<exists>q a r. tr ! i = (q, a, r) \<and> a = (servers ! i) q \<and>
       (case last_good decode (take i (answers tr)) of
          None \<Rightarrow> q = conditions [] [] \<and> (not_modified a \<longrightarrow> r = Inl NotModifiedWithoutCache)
        | Some (e, l, jobs) \<Rightarrow> q = conditions e l \<and> (not_modified a \<longrightarrow> r = Inr jobs)) \<and>
       (\<forall>e l jobs. good_answer decode a = Some (e, l, jobs) \<longrightarrow> r = Inr jobs) \<and>
       (good_answer decode a = None \<and> \<not> not_modified a \<longrightarrow> (\<exists>e. r = Inl e))" if i: "i < length servers" for i
  proof -
    obtain q a r where t: "tr ! i = (q, a, r)" by (cases "tr ! i") blast
    have a: "a = (servers ! i) q" by (rule ans [OF i t])
    have f: "q = cond_request (store_of (last_good decode (take i (answers tr))))"
      "fetched decode (last_good decode (take i (answers tr))) a r" using at [OF i] t a by blast+
    show ?thesis
      using t a f(2) unfolding f(1) cond_request_store fetched_def
      by (intro exI [of _ q] exI [of _ a] exI [of _ r]) (auto simp: nm f(1) cond_request_store split: option.splits if_splits)
  qed
  show "fst (cond_fetch built server decode s) = s"
    if "snd (cond_fetch built server decode s) = Inl e" for built server s e
    using that by (auto simp: cond_fetch_def split: httpResp.splits option.splits if_splits)
  fix not_after contents i q a jobs
  assume h: "list_all2 (honest not_after) contents servers \<and>
       sorted_wrt (\<lambda>c d. unmodified not_after (conditions (ct_etag c) (ct_lastmod c)) d \<longrightarrow>
         decoded decode (ct_body c) = decoded decode (ct_body d)) contents"
    and i: "i < length servers" and t: "tr ! i = (q, a, Inr jobs)"
  have n: "length contents = length servers" and hon: "honest not_after (contents ! k) (servers ! k)" if "k < length servers" for k
    using h that by (auto simp: list_all2_conv_all_nth)
  have good: "decoded decode (ct_body (contents ! k)) = Some js \<and> e = ct_etag (contents ! k) \<and> l = ct_lastmod (contents ! k)"
    if "k < length servers" "good_answer decode (answers tr ! k) = Some (e, l, js)" for k e l js
  proof -
    obtain q2 a2 r2 where "tr ! k = (q2, a2, r2)" by (cases "tr ! k") blast
    then have "answers tr ! k = (servers ! k) q2" using ans [OF that(1)] that(1) len by simp
    then show ?thesis using honest_good [OF hon [OF that(1)]] that(2) by metis
  qed
  have a: "a = (servers ! i) q" by (rule ans [OF i t])
  have f: "q = cond_request (store_of (last_good decode (take i (answers tr))))"
    "fetched decode (last_good decode (take i (answers tr))) a (Inr jobs)" using at [OF i] t a by blast+
  show "decoded decode (ct_body (contents ! i)) = Some jobs"
  proof (cases "good_answer decode a")
    case (Some g)
    obtain e l js where "g = (e, l, js)" by (cases g) blast
    then show ?thesis using Some f(2) good [OF i, of e l js] t i len by (simp add: fetched_def)
  next
    case None
    then have m: "not_modified a" and b: "\<exists>e l. last_good decode (take i (answers tr)) = Some (e, l, jobs)"
      using f(2) by (auto simp: fetched_def split: if_splits option.splits)
    obtain e l where g: "last_good decode (take i (answers tr)) = Some (e, l, jobs)" using b by blast
    then obtain k where k: "k < i" "good_answer decode (answers tr ! k) = Some (e, l, jobs)"
      using last_goodD [OF g] i len by auto
    have c: "decoded decode (ct_body (contents ! k)) = Some jobs" "e = ct_etag (contents ! k)" "l = ct_lastmod (contents ! k)"
      using good [of k e l jobs] k i by auto
    have "q = conditions e l" using f(1) g by (simp add: cond_request_store)
    then have "unmodified not_after (conditions (ct_etag (contents ! k)) (ct_lastmod (contents ! k))) (contents ! i)"
      using honest_304 [OF hon [OF i]] m a c(2,3) by simp
    then show ?thesis using h k(1) i n [OF i] c(1) by (auto simp: sorted_wrt_iff_nth_less)
  qed
qed

text \<open>A server with weak entity tags: the second fetch is a replay of the first.\<close>

definition etagServer :: "content \<Rightarrow> condRequest \<Rightarrow> httpResp" where
  "etagServer c q = (if unmodified (\<lambda>_ _. False) q c then HttpResp 304 [] [] (Some [])
     else HttpResp 200 (ct_etag c) (ct_lastmod c) (Some (ct_body c)))"

lemma etagServer_honest: "honest (\<lambda>_ _. False) c (etagServer c)"
  by (auto simp: honest_def etagServer_def split: if_splits)

theorem conditional_fetch_current_witness:
  "\<exists>c q r. ct_body c = ''x'' \<and> map (\<lambda>(q, a, r). (not_modified a, r))
       (snd (cond_run (\<lambda>b. if b = ''x'' then Some [] else None) [etagServer c, etagServer c])) = [(False, Inr []), (True, Inr [])] \<and>
     decoded (\<lambda>b. if b = ''x'' then Some ([] :: RawJob list) else None) (ct_body c) = Some []"
proof -
  define c where "c = \<lparr>ct_etag = ''W/1'', ct_lastmod = [], ct_body = ''x''\<rparr>"
  let ?d = "\<lambda>b :: string. if b = ''x'' then Some ([] :: RawJob list) else None"
  let ?s = "[etagServer c, etagServer c]"
  obtain s' tr where r: "cond_run ?d ?s = (s', tr)" by fastforce
  have m: "\<exists>n. nat maxFetchBody = Suc n" by (simp add: maxFetchBody_def)
  have f: "\<exists>q1 a1 q2 a2. tr = [(q1, a1, Inr []), (q2, a2, Inr [])] \<and> \<not> not_modified a1 \<and> not_modified a2"
    using r m by (auto simp: cond_run_def cond_pass_def Let_def cond_fetch_def etagServer_def c_def unmodified_def
        newConditionalStore_def cond_request_def weak_match_def not_modified_def)
  have "list_all2 (honest (\<lambda>_ _. False)) [c, c] ?s" using etagServer_honest by simp
  then have "\<forall>i<length ?s. \<forall>q a jobs. tr ! i = (q, a, Inr jobs) \<longrightarrow> decoded ?d (ct_body ([c, c] ! i)) = Some jobs"
    using conditional_fetch_current [OF r] by simp
  then have "decoded ?d (ct_body c) = Some []" using f by (auto dest: spec [of _ 1])
  then show ?thesis using f r by (intro exI [of _ c]) (auto simp: c_def)
qed

end
