(* ===== verification/M5_Store.thy ===== *)
theory M5_Store
  imports Ingest_Model
begin

text \<open>
  The seeker's state (\<open>internal/m5/store.go\<close>, \<open>memstore.go\<close>): saved filters, job states,
  applications and snippets; the \<open>Store\<close> interface as a record of operations over a state,
  its contract as a locale over an abstract view, and the in-memory store.
\<close>

section \<open>Data\<close>

datatype m5_err = M5NotFound | M5Conflict | M5InvalidStatus | M5JobNotFound | M5MailerUnavailable | M5Other

definition StatusFormFilled :: string where "StatusFormFilled = ''form_filled''"

definition StatusSubmitted :: string where "StatusSubmitted = ''submitted''"

definition StatusViewed :: string where "StatusViewed = ''viewed''"

definition StatusRejected :: string where "StatusRejected = ''rejected''"

definition StatusInterview :: string where "StatusInterview = ''interview''"

definition validStatus :: "string \<Rightarrow> bool" where
  "validStatus s \<longleftrightarrow> s \<in> {StatusFormFilled, StatusSubmitted, StatusViewed, StatusRejected, StatusInterview}"

record SavedFilter =
  sf_ID :: string
  sf_UserID :: string
  sf_Name :: string
  sf_Query :: JobQuery
  sf_CreatedAt :: time
  sf_LastAlertedAt :: "time option"

record JobState =
  js_JobKey :: string
  js_Dismissed :: bool
  js_AlreadyApplied :: bool
  js_UpdatedAt :: time

record Application =
  ap_ID :: string
  ap_UserID :: string
  ap_JobKey :: string
  ap_JobTitle :: string
  ap_Company :: string
  ap_Status :: string
  ap_CreatedAt :: time
  ap_UpdatedAt :: time

record Snippet =
  sn_ID :: string
  sn_UserID :: string
  sn_Name :: string
  sn_Body :: string
  sn_CreatedAt :: time
  sn_UpdatedAt :: time

record UserData =
  ud_SavedFilters :: "SavedFilter list"
  ud_JobStates :: "JobState list"
  ud_Applications :: "Application list"
  ud_Snippets :: "Snippet list"

definition zeroJobState :: "string \<Rightarrow> JobState" where
  "zeroJobState key = \<lparr>js_JobKey = key, js_Dismissed = False, js_AlreadyApplied = False, js_UpdatedAt = zero_time\<rparr>"

text \<open>The interface \<open>Store\<close>. Operations that only read have no new state.\<close>

record 's m5Store =
  st_DeleteUser :: "'s \<Rightarrow> string \<Rightarrow> 's \<times> m5_err option"
  st_ListSavedFilterUsers :: "'s \<Rightarrow> m5_err + string list"
  st_ListSavedFilters :: "'s \<Rightarrow> string \<Rightarrow> m5_err + SavedFilter list"
  st_GetSavedFilter :: "'s \<Rightarrow> string \<Rightarrow> string \<Rightarrow> m5_err + SavedFilter"
  st_CreateSavedFilter :: "'s \<Rightarrow> SavedFilter \<Rightarrow> 's \<times> (m5_err + SavedFilter)"
  st_DeleteSavedFilter :: "'s \<Rightarrow> string \<Rightarrow> string \<Rightarrow> 's \<times> m5_err option"
  st_TouchSavedFilter :: "'s \<Rightarrow> string \<Rightarrow> string \<Rightarrow> time \<Rightarrow> 's \<times> m5_err option"
  st_GetJobState :: "'s \<Rightarrow> string \<Rightarrow> string \<Rightarrow> m5_err + JobState"
  st_SetJobState :: "'s \<Rightarrow> string \<Rightarrow> JobState \<Rightarrow> 's \<times> (m5_err + JobState)"
  st_ListApplications :: "'s \<Rightarrow> string \<Rightarrow> m5_err + Application list"
  st_GetApplication :: "'s \<Rightarrow> string \<Rightarrow> string \<Rightarrow> m5_err + Application"
  st_CreateApplication :: "'s \<Rightarrow> Application \<Rightarrow> 's \<times> (m5_err + Application)"
  st_UpdateApplication :: "'s \<Rightarrow> string \<Rightarrow> Application \<Rightarrow> 's \<times> (m5_err + Application)"
  st_ListSnippets :: "'s \<Rightarrow> string \<Rightarrow> m5_err + Snippet list"
  st_GetSnippet :: "'s \<Rightarrow> string \<Rightarrow> string \<Rightarrow> m5_err + Snippet"
  st_CreateSnippet :: "'s \<Rightarrow> Snippet \<Rightarrow> 's \<times> (m5_err + Snippet)"
  st_UpdateSnippet :: "'s \<Rightarrow> string \<Rightarrow> Snippet \<Rightarrow> 's \<times> (m5_err + Snippet)"
  st_DeleteSnippet :: "'s \<Rightarrow> string \<Rightarrow> string \<Rightarrow> 's \<times> m5_err option"

section \<open>The in-memory store\<close>

text \<open>
  The injected clock and \<open>uuid.NewString\<close> are sequences; the counters tell how much of them
  has been drawn.
\<close>

record m5Mem =
  mm_filters :: "(string, SavedFilter) gomap"
  mm_states :: "(string, JobState) gomap"
  mm_apps :: "(string, Application) gomap"
  mm_snippets :: "(string, Snippet) gomap"
  mm_now :: "nat \<Rightarrow> time"
  mm_ticks :: nat
  mm_uuid :: "nat \<Rightarrow> string"
  mm_uuids :: nat

definition NewM5Memory :: "(nat \<Rightarrow> time) \<Rightarrow> (nat \<Rightarrow> string) \<Rightarrow> m5Mem" where
  "NewM5Memory now uuid = \<lparr>mm_filters = [], mm_states = [], mm_apps = [], mm_snippets = [],
     mm_now = now, mm_ticks = 0, mm_uuid = uuid, mm_uuids = 0\<rparr>"

definition NUL :: char where "NUL = CHR 0x00"

definition memoryKey :: "string \<Rightarrow> string \<Rightarrow> string" where
  "memoryKey userID key = userID @ [NUL] @ key"

definition m5_DeleteUser :: "m5Mem \<Rightarrow> string \<Rightarrow> m5Mem \<times> m5_err option" where
  "m5_DeleteUser m userID =
     (m\<lparr>mm_filters := gdel_if (\<lambda>_ f. sf_UserID f = userID) (mm_filters m),
        mm_states := gdel_if (\<lambda>k _. has_prefix k (userID @ [NUL])) (mm_states m),
        mm_apps := gdel_if (\<lambda>_ a. ap_UserID a = userID) (mm_apps m),
        mm_snippets := gdel_if (\<lambda>_ s. sn_UserID s = userID) (mm_snippets m)\<rparr>, None)"

definition m5_ListSavedFilterUsers :: "m5Mem \<Rightarrow> m5_err + string list" where
  "m5_ListSavedFilterUsers m = Inr (rev (remdups (rev (map sf_UserID (gvals (mm_filters m))))))"

definition m5_ExportUser :: "m5Mem \<Rightarrow> string \<Rightarrow> UserData" where
  "m5_ExportUser m userID =
     \<lparr>ud_SavedFilters = filter (\<lambda>f. sf_UserID f = userID) (gvals (mm_filters m)),
      ud_JobStates = map snd (filter (\<lambda>(k, _). has_prefix k (userID @ [NUL])) (mm_states m)),
      ud_Applications = filter (\<lambda>a. ap_UserID a = userID) (gvals (mm_apps m)),
      ud_Snippets = filter (\<lambda>s. sn_UserID s = userID) (gvals (mm_snippets m))\<rparr>"

definition m5_ListSavedFilters :: "m5Mem \<Rightarrow> string \<Rightarrow> m5_err + SavedFilter list" where
  "m5_ListSavedFilters m userID = Inr (filter (\<lambda>f. sf_UserID f = userID) (gvals (mm_filters m)))"

definition m5_GetSavedFilter :: "m5Mem \<Rightarrow> string \<Rightarrow> string \<Rightarrow> m5_err + SavedFilter" where
  "m5_GetSavedFilter m userID i =
     (case gget (mm_filters m) i of
        None \<Rightarrow> Inl M5NotFound
      | Some f \<Rightarrow> if sf_UserID f \<noteq> userID then Inl M5NotFound else Inr f)"

definition m5_CreateSavedFilter :: "m5Mem \<Rightarrow> SavedFilter \<Rightarrow> m5Mem \<times> (m5_err + SavedFilter)" where
  "m5_CreateSavedFilter m f0 =
     (let f = f0\<lparr>sf_Name := trim_space (sf_Name f0)\<rparr> in
      if list_ex (\<lambda>x. sf_UserID x = sf_UserID f \<and> equal_fold (sf_Name x) (sf_Name f)) (gvals (mm_filters m))
      then (m, Inl M5Conflict)
      else
        (let (m1, f1) = (if sf_ID f = [] then (m\<lparr>mm_uuids := Suc (mm_uuids m)\<rparr>, f\<lparr>sf_ID := mm_uuid m (mm_uuids m)\<rparr>)
                         else (m, f));
             (m2, f2) = (if is_zero_time (sf_CreatedAt f1)
                         then (m1\<lparr>mm_ticks := Suc (mm_ticks m1)\<rparr>, f1\<lparr>sf_CreatedAt := mm_now m1 (mm_ticks m1)\<rparr>)
                         else (m1, f1))
         in (m2\<lparr>mm_filters := gput (sf_ID f2) f2 (mm_filters m2)\<rparr>, Inr f2)))"

definition m5_DeleteSavedFilter :: "m5Mem \<Rightarrow> string \<Rightarrow> string \<Rightarrow> m5Mem \<times> m5_err option" where
  "m5_DeleteSavedFilter m userID i =
     (case gget (mm_filters m) i of
        None \<Rightarrow> (m, Some M5NotFound)
      | Some f \<Rightarrow> if sf_UserID f \<noteq> userID then (m, Some M5NotFound)
                  else (m\<lparr>mm_filters := gdel i (mm_filters m)\<rparr>, None))"

definition m5_TouchSavedFilter :: "m5Mem \<Rightarrow> string \<Rightarrow> string \<Rightarrow> time \<Rightarrow> m5Mem \<times> m5_err option" where
  "m5_TouchSavedFilter m userID i at =
     (case gget (mm_filters m) i of
        None \<Rightarrow> (m, Some M5NotFound)
      | Some f \<Rightarrow> if sf_UserID f \<noteq> userID then (m, Some M5NotFound)
                  else (m\<lparr>mm_filters := gput i (f\<lparr>sf_LastAlertedAt := Some at\<rparr>) (mm_filters m)\<rparr>, None))"

definition m5_GetJobState :: "m5Mem \<Rightarrow> string \<Rightarrow> string \<Rightarrow> m5_err + JobState" where
  "m5_GetJobState m userID key =
     (case gget (mm_states m) (memoryKey userID key) of
        None \<Rightarrow> Inr (zeroJobState key)
      | Some s \<Rightarrow> Inr s)"

definition m5_SetJobState :: "m5Mem \<Rightarrow> string \<Rightarrow> JobState \<Rightarrow> m5Mem \<times> (m5_err + JobState)" where
  "m5_SetJobState m userID s0 =
     (let s = s0\<lparr>js_JobKey := trim_space (js_JobKey s0), js_UpdatedAt := mm_now m (mm_ticks m)\<rparr> in
      (m\<lparr>mm_ticks := Suc (mm_ticks m), mm_states := gput (memoryKey userID (js_JobKey s)) s (mm_states m)\<rparr>, Inr s))"

definition m5_ListApplications :: "m5Mem \<Rightarrow> string \<Rightarrow> m5_err + Application list" where
  "m5_ListApplications m userID = Inr (filter (\<lambda>a. ap_UserID a = userID) (gvals (mm_apps m)))"

definition m5_GetApplication :: "m5Mem \<Rightarrow> string \<Rightarrow> string \<Rightarrow> m5_err + Application" where
  "m5_GetApplication m userID i =
     (case gget (mm_apps m) i of
        None \<Rightarrow> Inl M5NotFound
      | Some a \<Rightarrow> if ap_UserID a \<noteq> userID then Inl M5NotFound else Inr a)"

definition m5_CreateApplication :: "m5Mem \<Rightarrow> Application \<Rightarrow> m5Mem \<times> (m5_err + Application)" where
  "m5_CreateApplication m a =
     (case find (\<lambda>x. ap_UserID x = ap_UserID a \<and> ap_JobKey x = ap_JobKey a) (gvals (mm_apps m)) of
        Some existing \<Rightarrow> (m, Inr existing)
      | None \<Rightarrow>
          (let (m1, a1) = (if ap_ID a = [] then (m\<lparr>mm_uuids := Suc (mm_uuids m)\<rparr>, a\<lparr>ap_ID := mm_uuid m (mm_uuids m)\<rparr>)
                           else (m, a));
               (m2, a2) = (if is_zero_time (ap_CreatedAt a1)
                           then (m1\<lparr>mm_ticks := Suc (mm_ticks m1)\<rparr>, a1\<lparr>ap_CreatedAt := mm_now m1 (mm_ticks m1)\<rparr>)
                           else (m1, a1));
               a3 = (if is_zero_time (ap_UpdatedAt a2) then a2\<lparr>ap_UpdatedAt := ap_CreatedAt a2\<rparr> else a2)
           in (m2\<lparr>mm_apps := gput (ap_ID a3) a3 (mm_apps m2)\<rparr>, Inr a3)))"

definition m5_UpdateApplication :: "m5Mem \<Rightarrow> string \<Rightarrow> Application \<Rightarrow> m5Mem \<times> (m5_err + Application)" where
  "m5_UpdateApplication m userID a =
     (case gget (mm_apps m) (ap_ID a) of
        None \<Rightarrow> (m, Inl M5NotFound)
      | Some existing \<Rightarrow>
          if ap_UserID existing \<noteq> userID then (m, Inl M5NotFound)
          else (let e = existing\<lparr>ap_Status := ap_Status a, ap_UpdatedAt := mm_now m (mm_ticks m)\<rparr> in
            (m\<lparr>mm_ticks := Suc (mm_ticks m), mm_apps := gput (ap_ID a) e (mm_apps m)\<rparr>, Inr e)))"

definition m5_ListSnippets :: "m5Mem \<Rightarrow> string \<Rightarrow> m5_err + Snippet list" where
  "m5_ListSnippets m userID = Inr (filter (\<lambda>s. sn_UserID s = userID) (gvals (mm_snippets m)))"

definition m5_GetSnippet :: "m5Mem \<Rightarrow> string \<Rightarrow> string \<Rightarrow> m5_err + Snippet" where
  "m5_GetSnippet m userID i =
     (case gget (mm_snippets m) i of
        None \<Rightarrow> Inl M5NotFound
      | Some s \<Rightarrow> if sn_UserID s \<noteq> userID then Inl M5NotFound else Inr s)"

definition m5_CreateSnippet :: "m5Mem \<Rightarrow> Snippet \<Rightarrow> m5Mem \<times> (m5_err + Snippet)" where
  "m5_CreateSnippet m s =
     (if list_ex (\<lambda>x. sn_UserID x = sn_UserID s \<and> equal_fold (sn_Name x) (sn_Name s)) (gvals (mm_snippets m))
      then (m, Inl M5Conflict)
      else
        (let (m1, s1) = (if sn_ID s = [] then (m\<lparr>mm_uuids := Suc (mm_uuids m)\<rparr>, s\<lparr>sn_ID := mm_uuid m (mm_uuids m)\<rparr>)
                         else (m, s));
             now = mm_now m1 (mm_ticks m1);
             s2 = (if is_zero_time (sn_CreatedAt s1) then s1\<lparr>sn_CreatedAt := now\<rparr> else s1);
             s3 = (if is_zero_time (sn_UpdatedAt s2) then s2\<lparr>sn_UpdatedAt := sn_CreatedAt s2\<rparr> else s2)
         in (m1\<lparr>mm_ticks := Suc (mm_ticks m1), mm_snippets := gput (sn_ID s3) s3 (mm_snippets m1)\<rparr>, Inr s3)))"

definition m5_UpdateSnippet :: "m5Mem \<Rightarrow> string \<Rightarrow> Snippet \<Rightarrow> m5Mem \<times> (m5_err + Snippet)" where
  "m5_UpdateSnippet m userID s =
     (case gget (mm_snippets m) (sn_ID s) of
        None \<Rightarrow> (m, Inl M5NotFound)
      | Some existing \<Rightarrow>
          if sn_UserID existing \<noteq> userID then (m, Inl M5NotFound)
          else if list_ex (\<lambda>x. sn_ID x \<noteq> sn_ID s \<and> sn_UserID x = userID \<and> equal_fold (sn_Name x) (sn_Name s))
                    (gvals (mm_snippets m))
          then (m, Inl M5Conflict)
          else (let e = existing\<lparr>sn_Name := trim_space (sn_Name s), sn_Body := sn_Body s, sn_UpdatedAt := mm_now m (mm_ticks m)\<rparr> in
            (m\<lparr>mm_ticks := Suc (mm_ticks m), mm_snippets := gput (sn_ID s) e (mm_snippets m)\<rparr>, Inr e)))"

definition m5_DeleteSnippet :: "m5Mem \<Rightarrow> string \<Rightarrow> string \<Rightarrow> m5Mem \<times> m5_err option" where
  "m5_DeleteSnippet m userID i =
     (case gget (mm_snippets m) i of
        None \<Rightarrow> (m, Some M5NotFound)
      | Some s \<Rightarrow> if sn_UserID s \<noteq> userID then (m, Some M5NotFound)
                  else (m\<lparr>mm_snippets := gdel i (mm_snippets m)\<rparr>, None))"

definition m5MemOps :: "m5Mem m5Store" where
  "m5MemOps = \<lparr>st_DeleteUser = m5_DeleteUser, st_ListSavedFilterUsers = m5_ListSavedFilterUsers,
     st_ListSavedFilters = m5_ListSavedFilters, st_GetSavedFilter = m5_GetSavedFilter,
     st_CreateSavedFilter = m5_CreateSavedFilter, st_DeleteSavedFilter = m5_DeleteSavedFilter,
     st_TouchSavedFilter = m5_TouchSavedFilter, st_GetJobState = m5_GetJobState,
     st_SetJobState = m5_SetJobState, st_ListApplications = m5_ListApplications,
     st_GetApplication = m5_GetApplication, st_CreateApplication = m5_CreateApplication,
     st_UpdateApplication = m5_UpdateApplication, st_ListSnippets = m5_ListSnippets,
     st_GetSnippet = m5_GetSnippet, st_CreateSnippet = m5_CreateSnippet,
     st_UpdateSnippet = m5_UpdateSnippet, st_DeleteSnippet = m5_DeleteSnippet\<rparr>"

section \<open>The contract\<close>

text \<open>
  What a store holds, whatever its representation: rows by id, and job states by user and
  job key. \<open>same_user w\<close> says that nothing user \<open>w\<close> can reach has changed.
\<close>

record m5View =
  v5_filter :: "string \<Rightarrow> SavedFilter option"
  v5_state :: "string \<Rightarrow> string \<Rightarrow> JobState option"
  v5_app :: "string \<Rightarrow> Application option"
  v5_snip :: "string \<Rightarrow> Snippet option"

definition owned :: "('r \<Rightarrow> string) \<Rightarrow> string \<Rightarrow> (string \<Rightarrow> 'r option) \<Rightarrow> string \<Rightarrow> 'r option" where
  "owned f w m i = (case m i of None \<Rightarrow> None | Some r \<Rightarrow> if f r = w then Some r else None)"

definition same_user :: "string \<Rightarrow> m5View \<Rightarrow> m5View \<Rightarrow> bool" where
  "same_user w v v' \<longleftrightarrow> owned sf_UserID w (v5_filter v) = owned sf_UserID w (v5_filter v') \<and>
     v5_state v w = v5_state v' w \<and> owned ap_UserID w (v5_app v) = owned ap_UserID w (v5_app v') \<and>
     owned sn_UserID w (v5_snip v) = owned sn_UserID w (v5_snip v')"

definition m5_erase :: "string \<Rightarrow> m5View \<Rightarrow> m5View" where
  "m5_erase u v = \<lparr>v5_filter = (\<lambda>i. case v5_filter v i of None \<Rightarrow> None | Some f \<Rightarrow> if sf_UserID f = u then None else Some f),
     v5_state = (v5_state v)(u := Map.empty),
     v5_app = (\<lambda>i. case v5_app v i of None \<Rightarrow> None | Some a \<Rightarrow> if ap_UserID a = u then None else Some a),
     v5_snip = (\<lambda>i. case v5_snip v i of None \<Rightarrow> None | Some s \<Rightarrow> if sn_UserID s = u then None else Some s)\<rparr>"

text \<open>
  User ids contain no NUL byte: they are issued by the accounts repository, and the job
  state keys of the in-memory store rely on it.
\<close>

definition uid_ok :: "string \<Rightarrow> bool" where
  "uid_ok u \<longleftrightarrow> NUL \<notin> set u"

text \<open>
  The contract. \<open>jobkey\<close> is what the store makes of a job key, \<open>clash\<close> tells which filter names it
  takes for the same and \<open>stamp\<close> what it keeps of an instant. A store may write an application
  and then fail to read it back, so a failed write of one may have taken effect.
\<close>

locale m5_store =
  fixes R :: "'s m5Store" and inv :: "'s \<Rightarrow> bool" and view :: "'s \<Rightarrow> m5View"
    and jobkey :: "string \<Rightarrow> string" and clash :: "string \<Rightarrow> string \<Rightarrow> bool" and stamp :: "time \<Rightarrow> time"
  assumes DeleteUser: "inv s \<Longrightarrow> uid_ok u \<Longrightarrow> st_DeleteUser R s u = (s', None) \<Longrightarrow>
      inv s' \<and> (\<forall>w. uid_ok w \<longrightarrow> same_user w (view s') (m5_erase u (view s)))"
    and GetSavedFilter: "inv s \<Longrightarrow> st_GetSavedFilter R s u i = Inr f \<Longrightarrow>
      v5_filter (view s) i = Some f \<and> sf_UserID f = u \<and> sf_ID f = i"
    and CreateSavedFilter_ok: "inv s \<Longrightarrow> sf_ID f = [] \<Longrightarrow> st_CreateSavedFilter R s f = (s', Inr g) \<Longrightarrow>
      inv s' \<and> sf_UserID g = sf_UserID f \<and> sf_Name g = trim_space (sf_Name f) \<and> sf_Query g = sf_Query f \<and>
      v5_filter (view s) (sf_ID g) = None \<and>
      (\<forall>i h. v5_filter (view s) i = Some h \<longrightarrow> sf_UserID h = sf_UserID f \<longrightarrow> \<not> clash (sf_Name h) (sf_Name g)) \<and>
      view s' = (view s)\<lparr>v5_filter := (v5_filter (view s))(sf_ID g \<mapsto> g)\<rparr>"
    and CreateSavedFilter_err: "inv s \<Longrightarrow> st_CreateSavedFilter R s f = (s', Inl e) \<Longrightarrow> inv s' \<and> view s' = view s"
    and DeleteSavedFilter: "inv s \<Longrightarrow> st_DeleteSavedFilter R s u i = (s', r) \<Longrightarrow>
      inv s' \<and> (r = None \<longrightarrow> (\<exists>f. v5_filter (view s) i = Some f \<and> sf_UserID f = u) \<and>
        view s' = (view s)\<lparr>v5_filter := (v5_filter (view s))(i := None)\<rparr>) \<and> (r \<noteq> None \<longrightarrow> view s' = view s)"
    and TouchSavedFilter: "inv s \<Longrightarrow> st_TouchSavedFilter R s u i t = (s', r) \<Longrightarrow>
      inv s' \<and> (r = None \<longrightarrow> (\<exists>f. v5_filter (view s) i = Some f \<and> sf_UserID f = u \<and>
        view s' = (view s)\<lparr>v5_filter := (v5_filter (view s))(i \<mapsto> f\<lparr>sf_LastAlertedAt := Some (stamp t)\<rparr>)\<rparr>)) \<and>
      (r \<noteq> None \<longrightarrow> view s' = view s)"
    and GetJobState: "inv s \<Longrightarrow> st_GetJobState R s u k = Inr st \<Longrightarrow>
      st = (case v5_state (view s) u k of None \<Rightarrow> zeroJobState k | Some st2 \<Rightarrow> st2)"
    and SetJobState_ok: "inv s \<Longrightarrow> uid_ok u \<Longrightarrow> st_SetJobState R s u st = (s', Inr st2) \<Longrightarrow>
      inv s' \<and> st2 = st\<lparr>js_JobKey := jobkey (js_JobKey st), js_UpdatedAt := js_UpdatedAt st2\<rparr> \<and>
      (\<forall>w k. uid_ok w \<longrightarrow> v5_state (view s') w k =
        (if w = u \<and> k = jobkey (js_JobKey st) then Some st2 else v5_state (view s) w k)) \<and>
      v5_filter (view s') = v5_filter (view s) \<and> v5_app (view s') = v5_app (view s) \<and> v5_snip (view s') = v5_snip (view s)"
    and SetJobState_err: "inv s \<Longrightarrow> st_SetJobState R s u st = (s', Inl e) \<Longrightarrow> inv s' \<and> view s' = view s"
    and GetApplication: "inv s \<Longrightarrow> st_GetApplication R s u i = Inr a \<Longrightarrow>
      v5_app (view s) i = Some a \<and> ap_UserID a = u \<and> ap_ID a = i"
    and CreateApplication_ok: "inv s \<Longrightarrow> ap_ID a = [] \<Longrightarrow> st_CreateApplication R s a = (s', Inr b) \<Longrightarrow>
      inv s' \<and> ap_UserID b = ap_UserID a \<and> ap_JobKey b = ap_JobKey a \<and>
      (v5_app (view s) (ap_ID b) = Some b \<and> view s' = view s \<or>
       v5_app (view s) (ap_ID b) = None \<and> ap_Status b = ap_Status a \<and>
       (\<forall>i a0. v5_app (view s) i = Some a0 \<longrightarrow> ap_UserID a0 = ap_UserID a \<longrightarrow> ap_JobKey a0 \<noteq> ap_JobKey a) \<and>
       view s' = (view s)\<lparr>v5_app := (v5_app (view s))(ap_ID b \<mapsto> b)\<rparr>)"
    and CreateApplication_err: "inv s \<Longrightarrow> st_CreateApplication R s a = (s', Inl e) \<Longrightarrow>
      inv s' \<and> (view s' = view s \<or>
       (\<exists>b. ap_UserID b = ap_UserID a \<and> v5_app (view s) (ap_ID b) = None \<and>
          view s' = (view s)\<lparr>v5_app := (v5_app (view s))(ap_ID b \<mapsto> b)\<rparr>))"
    and UpdateApplication_ok: "inv s \<Longrightarrow> st_UpdateApplication R s u a = (s', Inr b) \<Longrightarrow>
      inv s' \<and> (\<exists>a0. v5_app (view s) (ap_ID a) = Some a0 \<and> ap_UserID a0 = u \<and>
        b = a0\<lparr>ap_Status := ap_Status a, ap_UpdatedAt := ap_UpdatedAt b\<rparr>) \<and>
      view s' = (view s)\<lparr>v5_app := (v5_app (view s))(ap_ID a \<mapsto> b)\<rparr>"
    and UpdateApplication_err: "inv s \<Longrightarrow> st_UpdateApplication R s u a = (s', Inl e) \<Longrightarrow>
      inv s' \<and> (view s' = view s \<or>
       (\<exists>b a0. v5_app (view s) (ap_ID a) = Some a0 \<and> ap_UserID a0 = u \<and>
          b = a0\<lparr>ap_Status := ap_Status a, ap_UpdatedAt := ap_UpdatedAt b\<rparr> \<and>
          view s' = (view s)\<lparr>v5_app := (v5_app (view s))(ap_ID a \<mapsto> b)\<rparr>))"
    and CreateSnippet_ok: "inv s \<Longrightarrow> sn_ID x = [] \<Longrightarrow> st_CreateSnippet R s x = (s', Inr y) \<Longrightarrow>
      inv s' \<and> sn_UserID y = sn_UserID x \<and> v5_snip (view s) (sn_ID y) = None \<and>
      view s' = (view s)\<lparr>v5_snip := (v5_snip (view s))(sn_ID y \<mapsto> y)\<rparr>"
    and CreateSnippet_err: "inv s \<Longrightarrow> st_CreateSnippet R s x = (s', Inl e) \<Longrightarrow> inv s' \<and> view s' = view s"
    and UpdateSnippet_ok: "inv s \<Longrightarrow> st_UpdateSnippet R s u x = (s', Inr y) \<Longrightarrow>
      inv s' \<and> sn_UserID y = u \<and> (\<exists>z. v5_snip (view s) (sn_ID x) = Some z \<and> sn_UserID z = u) \<and>
      view s' = (view s)\<lparr>v5_snip := (v5_snip (view s))(sn_ID x \<mapsto> y)\<rparr>"
    and UpdateSnippet_err: "inv s \<Longrightarrow> st_UpdateSnippet R s u x = (s', Inl e) \<Longrightarrow> inv s' \<and> view s' = view s"
    and DeleteSnippet: "inv s \<Longrightarrow> st_DeleteSnippet R s u i = (s', r) \<Longrightarrow>
      inv s' \<and> (r = None \<longrightarrow> (\<exists>sn. v5_snip (view s) i = Some sn \<and> sn_UserID sn = u) \<and>
        view s' = (view s)\<lparr>v5_snip := (v5_snip (view s))(i := None)\<rparr>) \<and> (r \<noteq> None \<longrightarrow> view s' = view s)"

section \<open>The in-memory store keeps it\<close>

text \<open>
  The invariant: map keys are the rows' ids, all drawn from the uuid sequence, which never
  repeats; a user's saved filters have different names up to case and surrounding space,
  and a user has at most one application per job.
\<close>

definition drawn :: "m5Mem \<Rightarrow> string set" where
  "drawn m = mm_uuid m ` {..<mm_uuids m}"

definition flt_ok :: "string set \<Rightarrow> (string, SavedFilter) gomap \<Rightarrow> bool" where
  "flt_ok D fs \<longleftrightarrow> gok fs \<and>
     (\<forall>i f. gget fs i = Some f \<longrightarrow> sf_ID f = i \<and> i \<in> D \<and> trim_space (sf_Name f) = sf_Name f) \<and>
     (\<forall>i f j g. gget fs i = Some f \<longrightarrow> gget fs j = Some g \<longrightarrow>
        sf_UserID f = sf_UserID g \<longrightarrow> equal_fold (sf_Name f) (sf_Name g) \<longrightarrow> i = j)"

definition app_ok :: "string set \<Rightarrow> (string, Application) gomap \<Rightarrow> bool" where
  "app_ok D as \<longleftrightarrow> gok as \<and>
     (\<forall>i a. gget as i = Some a \<longrightarrow> ap_ID a = i \<and> i \<in> D) \<and>
     (\<forall>i a j b. gget as i = Some a \<longrightarrow> gget as j = Some b \<longrightarrow>
        ap_UserID a = ap_UserID b \<longrightarrow> ap_JobKey a = ap_JobKey b \<longrightarrow> i = j)"

definition snp_ok :: "string set \<Rightarrow> (string, Snippet) gomap \<Rightarrow> bool" where
  "snp_ok D ss \<longleftrightarrow> gok ss \<and> (\<forall>i s. gget ss i = Some s \<longrightarrow> sn_ID s = i \<and> i \<in> D)"

definition m5_inv :: "m5Mem \<Rightarrow> bool" where
  "m5_inv m \<longleftrightarrow> inj (mm_uuid m) \<and> gok (mm_states m) \<and> flt_ok (drawn m) (mm_filters m) \<and>
     app_ok (drawn m) (mm_apps m) \<and> snp_ok (drawn m) (mm_snippets m)"

definition m5_view :: "m5Mem \<Rightarrow> m5View" where
  "m5_view m = \<lparr>v5_filter = gget (mm_filters m), v5_state = (\<lambda>u k. gget (mm_states m) (memoryKey u k)),
     v5_app = gget (mm_apps m), v5_snip = gget (mm_snippets m)\<rparr>"

lemma m5_view_sel [simp]:
  "v5_filter (m5_view m) = gget (mm_filters m)" "v5_app (m5_view m) = gget (mm_apps m)"
  "v5_snip (m5_view m) = gget (mm_snippets m)" "v5_state (m5_view m) u k = gget (mm_states m) (memoryKey u k)"
  by (simp_all add: m5_view_def)

lemma memoryKey_inj:
  assumes "uid_ok u" "uid_ok w"
  shows "memoryKey u k = memoryKey w l \<longleftrightarrow> u = w \<and> k = l"
proof -
  have "takeWhile (\<lambda>c. c \<noteq> NUL) (memoryKey x y) = x" if "uid_ok x" for x y
    using that by (auto simp: memoryKey_def uid_ok_def takeWhile_append)
  then show ?thesis using assms by (metis memoryKey_def append_same_eq same_append_eq append_Cons append_Nil list.inject)
qed

lemma memoryKey_prefix:
  assumes "uid_ok u" "uid_ok w"
  shows "has_prefix (memoryKey w k) (u @ [NUL]) \<longleftrightarrow> w = u"
proof
  assume "has_prefix (memoryKey w k) (u @ [NUL])"
  then obtain l where "memoryKey w k = memoryKey u l" by (auto simp: has_prefix_iff prefix_def memoryKey_def)
  then show "w = u" using memoryKey_inj [OF assms(2,1)] by simp
qed (simp add: memoryKey_def has_prefix_iff)

lemma drawn_fresh: "m5_inv m \<Longrightarrow> mm_uuid m (mm_uuids m) \<notin> drawn m"
  by (auto simp: m5_inv_def drawn_def inj_def)

lemma drawn_mono:
  "mm_uuid m' = mm_uuid m \<Longrightarrow> mm_uuids m \<le> mm_uuids m' \<Longrightarrow> drawn m \<subseteq> drawn m'"
  by (auto simp: drawn_def)

lemma gvals_ex: "gok m \<Longrightarrow> list_ex P (gvals m) \<longleftrightarrow> (\<exists>k v. gget m k = Some v \<and> P v)"
  using gvals_mem [of m] unfolding list_ex_iff by blast

lemma equal_fold_sym: "equal_fold a b = equal_fold b a"
  by (auto simp: equal_fold_def)

lemma flt_ok_mono: "flt_ok D fs \<Longrightarrow> D \<subseteq> D' \<Longrightarrow> flt_ok D' fs"
  by (auto simp: flt_ok_def)

lemma app_ok_mono: "app_ok D as \<Longrightarrow> D \<subseteq> D' \<Longrightarrow> app_ok D' as"
  by (auto simp: app_ok_def)

lemma snp_ok_mono: "snp_ok D ss \<Longrightarrow> D \<subseteq> D' \<Longrightarrow> snp_ok D' ss"
  by (auto simp: snp_ok_def)

lemma flt_ok_put:
  assumes "flt_ok D fs" "i \<in> D" "sf_ID f = i" "trim_space (sf_Name f) = sf_Name f"
    and "\<And>j g. gget fs j = Some g \<Longrightarrow> j \<noteq> i \<Longrightarrow> sf_UserID g = sf_UserID f \<Longrightarrow> \<not> equal_fold (sf_Name g) (sf_Name f)"
  shows "flt_ok D (gput i f fs)"
proof -
  have uniq: "j = k" if "gget (gput i f fs) j = Some a" "gget (gput i f fs) k = Some b"
    "sf_UserID a = sf_UserID b" "equal_fold (sf_Name a) (sf_Name b)" for j a k b
  proof -
    consider "j = i" "k = i" | "j = i" "k \<noteq> i" | "j \<noteq> i" "k = i" | "j \<noteq> i" "k \<noteq> i" by blast
    then show ?thesis
    proof cases
      case 2
      then show ?thesis using that assms(5) [of k b] equal_fold_sym [of "sf_Name f"] by simp
    next
      case 3
      then show ?thesis using that assms(5) [of j a] by simp
    next
      case 4
      then have "gget fs j = Some a" "gget fs k = Some b" using that by simp_all
      then show ?thesis using that(3,4) assms(1) unfolding flt_ok_def by blast
    qed simp
  qed
  have "gok (gput i f fs)" using assms(1) by (simp add: flt_ok_def)
  moreover have "sf_ID g = j \<and> j \<in> D \<and> trim_space (sf_Name g) = sf_Name g" if "gget (gput i f fs) j = Some g" for j g
    using that assms(1-4) unfolding flt_ok_def by (cases "j = i") simp_all
  ultimately show ?thesis unfolding flt_ok_def using uniq by blast
qed

lemma app_ok_put:
  assumes "app_ok D as" "i \<in> D" "ap_ID a = i"
    and "\<And>j b. gget as j = Some b \<Longrightarrow> j \<noteq> i \<Longrightarrow> ap_UserID b = ap_UserID a \<Longrightarrow> ap_JobKey b \<noteq> ap_JobKey a"
  shows "app_ok D (gput i a as)"
proof -
  have uniq: "j = k" if "gget (gput i a as) j = Some x" "gget (gput i a as) k = Some b"
    "ap_UserID x = ap_UserID b" "ap_JobKey x = ap_JobKey b" for j x k b
  proof -
    consider "j = i" "k = i" | "j = i" "k \<noteq> i" | "j \<noteq> i" "k = i" | "j \<noteq> i" "k \<noteq> i" by blast
    then show ?thesis
    proof cases
      case 2
      then show ?thesis using that assms(4) [of k b] by simp
    next
      case 3
      then show ?thesis using that assms(4) [of j x] by simp
    next
      case 4
      then have "gget as j = Some x" "gget as k = Some b" using that by simp_all
      then show ?thesis using that(3,4) assms(1) unfolding app_ok_def by blast
    qed simp
  qed
  have "gok (gput i a as)" using assms(1) by (simp add: app_ok_def)
  moreover have "ap_ID b = j \<and> j \<in> D" if "gget (gput i a as) j = Some b" for j b
    using that assms(1-3) unfolding app_ok_def by (cases "j = i") simp_all
  ultimately show ?thesis unfolding app_ok_def using uniq by blast
qed

lemma snp_ok_put: "snp_ok D ss \<Longrightarrow> i \<in> D \<Longrightarrow> sn_ID s = i \<Longrightarrow> snp_ok D (gput i s ss)"
  by (auto simp: snp_ok_def)

lemma rows_ok_del:
  "flt_ok D fs \<Longrightarrow> flt_ok D (gdel i fs)" "flt_ok D fs \<Longrightarrow> flt_ok D (gdel_if P fs)"
  "app_ok D as \<Longrightarrow> app_ok D (gdel_if Q as)"
  "snp_ok D ss \<Longrightarrow> snp_ok D (gdel i ss)" "snp_ok D ss \<Longrightarrow> snp_ok D (gdel_if S ss)"
proof -
  have e: "gget (gdel i m) k = Some v \<Longrightarrow> gget m k = Some v" for m :: "('k, 'v) gomap" and i k v
    by (simp split: if_splits)
  show "flt_ok D fs \<Longrightarrow> flt_ok D (gdel i fs)" unfolding flt_ok_def using e [of i fs] gok_del [of fs i] by blast
  have d: "gok m \<Longrightarrow> gget (gdel_if P m) k = Some v \<Longrightarrow> gget m k = Some v" for m :: "('k, 'v) gomap" and P k v
    by (auto simp: gget_del_if split: option.splits if_splits)
  show "flt_ok D fs \<Longrightarrow> flt_ok D (gdel_if P fs)"
    unfolding flt_ok_def using d [of fs P] gok_del_if [of fs P] by blast
  show "app_ok D as \<Longrightarrow> app_ok D (gdel_if Q as)"
    unfolding app_ok_def using d [of as Q] gok_del_if [of as Q] by blast
  show "snp_ok D ss \<Longrightarrow> snp_ok D (gdel i ss)" unfolding snp_ok_def using e [of i ss] gok_del [of ss i] by blast
  show "snp_ok D ss \<Longrightarrow> snp_ok D (gdel_if S ss)"
    unfolding snp_ok_def using d [of ss S] gok_del_if [of ss S] by blast
qed

lemma m5_invD:
  assumes "m5_inv m"
  shows "gget (mm_filters m) i = Some f \<Longrightarrow> sf_ID f = i"
    "gget (mm_apps m) i = Some a \<Longrightarrow> ap_ID a = i"
    "gget (mm_snippets m) i = Some s \<Longrightarrow> sn_ID s = i"
    "gok (mm_filters m)" "gok (mm_apps m)" "gok (mm_snippets m)" "gok (mm_states m)"
  using assms by (auto simp: m5_inv_def flt_ok_def app_ok_def snp_ok_def)

lemma fresh_row:
  assumes "m5_inv m"
  shows "gget (mm_filters m) (mm_uuid m (mm_uuids m)) = None" "gget (mm_apps m) (mm_uuid m (mm_uuids m)) = None"
    "gget (mm_snippets m) (mm_uuid m (mm_uuids m)) = None"
  using assms drawn_fresh [OF assms]
  by (auto simp: m5_inv_def flt_ok_def app_ok_def snp_ok_def intro: ccontr)

lemma drawn_simps [simp]:
  "drawn (m\<lparr>mm_filters := a\<rparr>) = drawn m" "drawn (m\<lparr>mm_states := b\<rparr>) = drawn m" "drawn (m\<lparr>mm_apps := c\<rparr>) = drawn m"
  "drawn (m\<lparr>mm_snippets := d\<rparr>) = drawn m" "drawn (m\<lparr>mm_ticks := n\<rparr>) = drawn m"
  "drawn (m\<lparr>mm_uuids := Suc (mm_uuids m)\<rparr>) = insert (mm_uuid m (mm_uuids m)) (drawn m)"
  by (simp_all add: drawn_def lessThan_Suc)

lemma m5_inv_draw: "m5_inv m \<Longrightarrow> m5_inv (m\<lparr>mm_uuids := Suc (mm_uuids m)\<rparr>)"
  unfolding m5_inv_def
  using flt_ok_mono [OF _ subset_insertI] app_ok_mono [OF _ subset_insertI] snp_ok_mono [OF _ subset_insertI] by simp

lemma m5_inv_tick [simp]: "m5_inv (m\<lparr>mm_ticks := n\<rparr>) = m5_inv m"
  by (simp add: m5_inv_def)

lemma m5_inv_upd:
  assumes "m5_inv m"
  shows "flt_ok (drawn m) a \<Longrightarrow> m5_inv (m\<lparr>mm_filters := a\<rparr>)" "gok b \<Longrightarrow> m5_inv (m\<lparr>mm_states := b\<rparr>)"
    "app_ok (drawn m) c \<Longrightarrow> m5_inv (m\<lparr>mm_apps := c\<rparr>)" "snp_ok (drawn m) d \<Longrightarrow> m5_inv (m\<lparr>mm_snippets := d\<rparr>)"
  using assms by (simp_all add: m5_inv_def)

lemma Create_filter:
  assumes inv: "m5_inv m" and f: "sf_ID f = []" "m5_CreateSavedFilter m f = (m', r)"
  shows "case r of Inl e \<Rightarrow> m' = m
    | Inr g \<Rightarrow> m5_inv m' \<and> sf_UserID g = sf_UserID f \<and> sf_Name g = trim_space (sf_Name f) \<and> sf_Query g = sf_Query f \<and>
        gget (mm_filters m) (sf_ID g) = None \<and>
        (\<forall>i h. gget (mm_filters m) i = Some h \<longrightarrow> sf_UserID h = sf_UserID f \<longrightarrow> \<not> equal_fold (sf_Name h) (sf_Name g)) \<and>
        m5_view m' = (m5_view m)\<lparr>v5_filter := (gget (mm_filters m))(sf_ID g \<mapsto> g)\<rparr>"
proof (cases "list_ex (\<lambda>x. sf_UserID x = sf_UserID f \<and> equal_fold (sf_Name x) (trim_space (sf_Name f))) (gvals (mm_filters m))")
  case True
  then show ?thesis using f by (auto simp: m5_CreateSavedFilter_def Let_def)
next
  case False
  let ?i = "mm_uuid m (mm_uuids m)" let ?m1 = "m\<lparr>mm_uuids := Suc (mm_uuids m)\<rparr>"
  have nc: "\<not> equal_fold (sf_Name h) (trim_space (sf_Name f))"
    if "gget (mm_filters m) i = Some h" "sf_UserID h = sf_UserID f" for i h
    using False that gvals_ex [OF m5_invD(4) [OF inv]] by blast
  obtain c n where r: "r = Inr (f\<lparr>sf_Name := trim_space (sf_Name f), sf_ID := ?i, sf_CreatedAt := c\<rparr>)"
    "m' = ?m1\<lparr>mm_ticks := n, mm_filters := gput ?i (f\<lparr>sf_Name := trim_space (sf_Name f), sf_ID := ?i, sf_CreatedAt := c\<rparr>) (mm_filters m)\<rparr>"
  proof (cases "is_zero_time (sf_CreatedAt f)")
    case True
    then show thesis using that [of "mm_now m (mm_ticks m)" "Suc (mm_ticks m)"] f False
      by (simp add: m5_CreateSavedFilter_def Let_def)
  next
    case False2: False
    then show thesis using that [of "sf_CreatedAt f" "mm_ticks m"] f False
      by (simp add: m5_CreateSavedFilter_def Let_def)
  qed
  let ?g = "f\<lparr>sf_Name := trim_space (sf_Name f), sf_ID := ?i, sf_CreatedAt := c\<rparr>"
  have "flt_ok (drawn ?m1) (gput ?i ?g (mm_filters m))"
    by (rule flt_ok_put) (use m5_inv_draw [OF inv] nc in \<open>auto simp: m5_inv_def\<close>)
  then have "m5_inv m'" using m5_inv_upd(1) [of "?m1\<lparr>mm_ticks := n\<rparr>"] m5_inv_draw [OF inv] r(2) by simp
  then show ?thesis using r nc fresh_row(1) [OF inv] by (auto simp: m5_view_def)
qed

lemma Create_application:
  assumes inv: "m5_inv m" and f: "ap_ID a = []" "m5_CreateApplication m a = (m', r)"
  shows "\<exists>b. r = Inr b \<and> m5_inv m' \<and> ap_UserID b = ap_UserID a \<and> ap_JobKey b = ap_JobKey a \<and>
      (gget (mm_apps m) (ap_ID b) = Some b \<and> m' = m \<or>
       gget (mm_apps m) (ap_ID b) = None \<and> ap_Status b = ap_Status a \<and>
       (\<forall>i x. gget (mm_apps m) i = Some x \<longrightarrow> ap_UserID x = ap_UserID a \<longrightarrow> ap_JobKey x \<noteq> ap_JobKey a) \<and>
       m5_view m' = (m5_view m)\<lparr>v5_app := (gget (mm_apps m))(ap_ID b \<mapsto> b)\<rparr>)"
proof (cases "find (\<lambda>x. ap_UserID x = ap_UserID a \<and> ap_JobKey x = ap_JobKey a) (gvals (mm_apps m))")
  case (Some b)
  then have b: "b \<in> set (gvals (mm_apps m))" "ap_UserID b = ap_UserID a" "ap_JobKey b = ap_JobKey a"
    by (auto simp: find_Some_iff)
  then obtain k where "gget (mm_apps m) k = Some b" using gvals_mem [OF m5_invD(5) [OF inv]] by blast
  then have "gget (mm_apps m) (ap_ID b) = Some b" using m5_invD(2) [OF inv] by simp
  then show ?thesis using Some b f inv by (auto simp: m5_CreateApplication_def)
next
  case None
  let ?i = "mm_uuid m (mm_uuids m)" let ?m1 = "m\<lparr>mm_uuids := Suc (mm_uuids m)\<rparr>"
  have nc: "ap_JobKey x \<noteq> ap_JobKey a" if "gget (mm_apps m) i = Some x" "ap_UserID x = ap_UserID a" for i x
    using None that gvals_mem [OF m5_invD(5) [OF inv]] unfolding find_None_iff by blast
  obtain b n where b: "ap_ID b = ?i" "ap_UserID b = ap_UserID a" "ap_JobKey b = ap_JobKey a" "ap_Status b = ap_Status a"
    and r: "r = Inr b" "m' = ?m1\<lparr>mm_ticks := n, mm_apps := gput ?i b (mm_apps m)\<rparr>"
  proof -
    let ?a = "if is_zero_time (ap_CreatedAt a) then a\<lparr>ap_ID := ?i, ap_CreatedAt := mm_now m (mm_ticks m)\<rparr> else a\<lparr>ap_ID := ?i\<rparr>"
    let ?b = "if is_zero_time (ap_UpdatedAt a) then ?a\<lparr>ap_UpdatedAt := ap_CreatedAt ?a\<rparr> else ?a"
    have "r = Inr ?b \<and> m' = ?m1\<lparr>mm_ticks := (if is_zero_time (ap_CreatedAt a) then Suc (mm_ticks m) else mm_ticks m),
        mm_apps := gput ?i ?b (mm_apps m)\<rparr>"
      using f None by (simp add: m5_CreateApplication_def Let_def split: if_splits)
    then show thesis using that [of ?b] by auto
  qed
  have "app_ok (drawn ?m1) (gput ?i b (mm_apps m))"
    by (rule app_ok_put) (use m5_inv_draw [OF inv] nc b in \<open>auto simp: m5_inv_def\<close>)
  then have "m5_inv m'" using m5_inv_upd(3) [of "?m1\<lparr>mm_ticks := n\<rparr>"] m5_inv_draw [OF inv] r(2) by simp
  then show ?thesis using r b nc fresh_row(2) [OF inv] by (auto simp: m5_view_def)
qed

lemma Create_snippet:
  assumes inv: "m5_inv m" and f: "sn_ID x = []" "m5_CreateSnippet m x = (m', r)"
  shows "case r of Inl e \<Rightarrow> m' = m
    | Inr y \<Rightarrow> m5_inv m' \<and> sn_UserID y = sn_UserID x \<and> gget (mm_snippets m) (sn_ID y) = None \<and>
        m5_view m' = (m5_view m)\<lparr>v5_snip := (gget (mm_snippets m))(sn_ID y \<mapsto> y)\<rparr>"
proof (cases "list_ex (\<lambda>y. sn_UserID y = sn_UserID x \<and> equal_fold (sn_Name y) (sn_Name x)) (gvals (mm_snippets m))")
  case True
  then show ?thesis using f by (auto simp: m5_CreateSnippet_def)
next
  case False
  let ?i = "mm_uuid m (mm_uuids m)" let ?m1 = "m\<lparr>mm_uuids := Suc (mm_uuids m)\<rparr>"
  obtain y n where y: "sn_ID y = ?i" "sn_UserID y = sn_UserID x"
    and r: "r = Inr y" "m' = ?m1\<lparr>mm_ticks := n, mm_snippets := gput ?i y (mm_snippets m)\<rparr>"
  proof -
    let ?x = "if is_zero_time (sn_CreatedAt x) then x\<lparr>sn_ID := ?i, sn_CreatedAt := mm_now m (mm_ticks m)\<rparr> else x\<lparr>sn_ID := ?i\<rparr>"
    let ?y = "if is_zero_time (sn_UpdatedAt x) then ?x\<lparr>sn_UpdatedAt := sn_CreatedAt ?x\<rparr> else ?x"
    have "r = Inr ?y \<and> m' = ?m1\<lparr>mm_ticks := Suc (mm_ticks m), mm_snippets := gput ?i ?y (mm_snippets m)\<rparr>"
      using f False by (simp add: m5_CreateSnippet_def Let_def split: if_splits)
    then show thesis using that [of ?y] by auto
  qed
  have "snp_ok (drawn ?m1) (gput ?i y (mm_snippets m))"
    by (rule snp_ok_put) (use m5_inv_draw [OF inv] y in \<open>auto simp: m5_inv_def\<close>)
  then have "m5_inv m'" using m5_inv_upd(4) [of "?m1\<lparr>mm_ticks := n\<rparr>"] m5_inv_draw [OF inv] r(2) by simp
  then show ?thesis using r y fresh_row(3) [OF inv] by (auto simp: m5_view_def)
qed

lemma m5_update_filter:
  assumes "m5_inv m" "gget (mm_filters m) i = Some f" "sf_ID g = sf_ID f" "sf_UserID g = sf_UserID f" "sf_Name g = sf_Name f"
  shows "m5_inv (m\<lparr>mm_filters := gput i g (mm_filters m)\<rparr>)"
proof (rule m5_inv_upd(1) [OF assms(1)], rule flt_ok_put)
  have f: "flt_ok (drawn m) (mm_filters m)" using assms(1) by (simp add: m5_inv_def)
  show "flt_ok (drawn m) (mm_filters m)" by (rule f)
  have row: "sf_ID f = i \<and> i \<in> drawn m \<and> trim_space (sf_Name f) = sf_Name f" using f assms(2) unfolding flt_ok_def by blast
  show "i \<in> drawn m" "sf_ID g = i" "trim_space (sf_Name g) = sf_Name g" using row assms(3,5) by simp_all
  show "\<not> equal_fold (sf_Name h) (sf_Name g)" if "gget (mm_filters m) j = Some h" "j \<noteq> i" "sf_UserID h = sf_UserID g" for j h
    using f that assms(2,4,5) unfolding flt_ok_def by metis
qed

lemma m5_update_app:
  assumes "m5_inv m" "gget (mm_apps m) i = Some a" "ap_ID b = ap_ID a" "ap_UserID b = ap_UserID a" "ap_JobKey b = ap_JobKey a"
  shows "m5_inv (m\<lparr>mm_apps := gput i b (mm_apps m)\<rparr>)"
proof (rule m5_inv_upd(3) [OF assms(1)], rule app_ok_put)
  have f: "app_ok (drawn m) (mm_apps m)" using assms(1) by (simp add: m5_inv_def)
  show "app_ok (drawn m) (mm_apps m)" by (rule f)
  have row: "ap_ID a = i \<and> i \<in> drawn m" using f assms(2) unfolding app_ok_def by blast
  show "i \<in> drawn m" "ap_ID b = i" using row assms(3) by simp_all
  show "ap_JobKey x \<noteq> ap_JobKey b" if "gget (mm_apps m) j = Some x" "j \<noteq> i" "ap_UserID x = ap_UserID b" for j x
    using f that assms(2,4,5) unfolding app_ok_def by metis
qed

lemma m5_update_snip:
  assumes "m5_inv m" "gget (mm_snippets m) i = Some s" "sn_ID x = sn_ID s"
  shows "m5_inv (m\<lparr>mm_snippets := gput i x (mm_snippets m)\<rparr>)"
  using assms by (auto simp: m5_inv_def snp_ok_def)

lemma m5_DeleteUser_view:
  assumes "m5_inv m" "uid_ok u" "m5_DeleteUser m u = (m', r)"
  shows "r = None \<and> m5_inv m' \<and> (\<forall>w. uid_ok w \<longrightarrow> same_user w (m5_view m') (m5_erase u (m5_view m)))"
proof -
  have g: "gok (mm_states m)" "gok (mm_filters m)" "gok (mm_apps m)" "gok (mm_snippets m)"
    using m5_invD(4-7) [OF assms(1)] by simp_all
  have "m5_inv m'" using assms(1,3) rows_ok_del by (auto simp: m5_DeleteUser_def m5_inv_def drawn_def)
  moreover have "v5_state (m5_view m') w = v5_state (m5_erase u (m5_view m)) w" if "uid_ok w" for w
    using assms(3) memoryKey_prefix [OF assms(2) that] g(1)
    by (auto simp: m5_DeleteUser_def m5_erase_def gget_del_if fun_eq_iff split: option.splits)
  moreover have "owned sf_UserID w (v5_filter (m5_view m')) = owned sf_UserID w (v5_filter (m5_erase u (m5_view m)))"
    "owned ap_UserID w (v5_app (m5_view m')) = owned ap_UserID w (v5_app (m5_erase u (m5_view m)))"
    "owned sn_UserID w (v5_snip (m5_view m')) = owned sn_UserID w (v5_snip (m5_erase u (m5_view m)))" for w
    using assms(3) g(2-4)
    by (auto simp: m5_DeleteUser_def m5_erase_def gget_del_if owned_def fun_eq_iff split: option.splits)
  ultimately show ?thesis using assms(3) by (simp add: same_user_def m5_DeleteUser_def)
qed

interpretation m5mem: m5_store m5MemOps m5_inv m5_view trim_space equal_fold "\<lambda>t. t"
proof (unfold_locales, goal_cases)
  case (1 s u s') then show ?case using m5_DeleteUser_view [of s u s' None] by (simp add: m5MemOps_def)
next
  case (2 s u i f) then show ?case using m5_invD(1) [of s i f]
    by (auto simp: m5MemOps_def m5_GetSavedFilter_def split: option.splits if_splits)
next
  case (3 s f s' g) then show ?case using Create_filter [of s f s' "Inr g"] by (auto simp: m5MemOps_def)
next
  case (4 s f s' e) then show ?case
    by (auto simp: m5MemOps_def m5_CreateSavedFilter_def Let_def split: if_splits prod.splits)
next
  case (5 s u i s' r) then show ?case using rows_ok_del(1)
    by (auto simp: m5MemOps_def m5_DeleteSavedFilter_def m5_view_def m5_inv_def fun_eq_iff split: option.splits if_splits)
next
  case (6 s u i t s' r) then show ?case using m5_update_filter [of s i]
    by (auto simp: m5MemOps_def m5_TouchSavedFilter_def m5_view_def fun_eq_iff split: option.splits if_splits)
next
  case (7 s u k x) then show ?case by (auto simp: m5MemOps_def m5_GetJobState_def split: option.splits)
next
  case (8 s u x s' y) then show ?case using memoryKey_inj
    by (auto simp: m5MemOps_def m5_SetJobState_def Let_def m5_inv_def)
next
  case (9 s u x s' e) then show ?case by (simp add: m5MemOps_def m5_SetJobState_def Let_def)
next
  case (10 s u i a) then show ?case using m5_invD(2) [of s i a]
    by (auto simp: m5MemOps_def m5_GetApplication_def split: option.splits if_splits)
next
  case (11 s a s' b) then show ?case using Create_application [of s a s' "Inr b"] by (auto simp: m5MemOps_def)
next
  case (12 s a s' e) then show ?case
    by (auto simp: m5MemOps_def m5_CreateApplication_def Let_def split: option.splits if_splits prod.splits)
next
  case (13 s u a s' b)
  then obtain x where x: "gget (mm_apps s) (ap_ID a) = Some x" "ap_UserID x = u"
    "b = x\<lparr>ap_Status := ap_Status a, ap_UpdatedAt := mm_now s (mm_ticks s)\<rparr>"
    "s' = s\<lparr>mm_ticks := Suc (mm_ticks s), mm_apps := gput (ap_ID a) b (mm_apps s)\<rparr>"
    by (auto simp: m5MemOps_def m5_UpdateApplication_def Let_def split: option.splits if_splits)
  have "m5_inv (s\<lparr>mm_apps := gput (ap_ID a) b (mm_apps s)\<rparr>)" by (rule m5_update_app [OF 13(1) x(1)]) (simp_all add: x(3))
  then have "m5_inv s'" using x(4) by (simp add: m5_inv_def drawn_def)
  then show ?case using x by (auto simp: m5_view_def fun_eq_iff)
next
  case (14 s u a s' e) then show ?case
    by (auto simp: m5MemOps_def m5_UpdateApplication_def Let_def split: option.splits if_splits)
next
  case (15 s x s' y) then show ?case using Create_snippet [of s x s' "Inr y"] by (simp add: m5MemOps_def)
next
  case (16 s x s' e) then show ?case
    by (auto simp: m5MemOps_def m5_CreateSnippet_def Let_def split: if_splits prod.splits)
next
  case (17 s u x s' y) then show ?case using m5_update_snip [of "s\<lparr>mm_ticks := Suc (mm_ticks s)\<rparr>" "sn_ID x"]
    by (auto simp: m5MemOps_def m5_UpdateSnippet_def m5_view_def Let_def fun_eq_iff split: option.splits if_splits)
next
  case (18 s u x s' e) then show ?case
    by (auto simp: m5MemOps_def m5_UpdateSnippet_def Let_def split: option.splits if_splits)
next
  case (19 s u i s' r) then show ?case using rows_ok_del(4)
    by (auto simp: m5MemOps_def m5_DeleteSnippet_def m5_view_def m5_inv_def fun_eq_iff split: option.splits if_splits)
qed

section \<open>Changes of one user\<close>

lemma owned_put: "f r \<noteq> w \<Longrightarrow> (case m i of None \<Rightarrow> True | Some x \<Rightarrow> f x \<noteq> w) \<Longrightarrow> owned f w (m(i \<mapsto> r)) = owned f w m"
  by (auto simp: owned_def fun_eq_iff split: option.splits)

lemma owned_del: "(case m i of None \<Rightarrow> True | Some x \<Rightarrow> f x \<noteq> w) \<Longrightarrow> owned f w (m(i := None)) = owned f w m"
  by (auto simp: owned_def fun_eq_iff split: option.splits)

lemma same_user_refl [simp]: "same_user w v v"
  by (simp add: same_user_def)

lemma same_user_trans [trans]: "same_user w a b \<Longrightarrow> same_user w b c \<Longrightarrow> same_user w a c"
  by (simp add: same_user_def)

end
