(* ===== verification/M5_Match.thy ===== *)
theory M5_Match
  imports Ingest_Model Go_Regex Go_Float
begin

text \<open>
  The pure part of \<open>internal/m5/service.go\<close>: requirement tags, salary estimates, match
  scores, saved-filter matching and placeholder substitution.
\<close>

section \<open>Requirement tags\<close>

definition tagAliases :: "(string \<times> string) list" where
  "tagAliases =
    [(''golang'', ''Go''), (''go'', ''Go''), (''postgres'', ''PostgreSQL''), (''postgresql'', ''PostgreSQL''),
     (''javascript'', ''JavaScript''), (''js'', ''JavaScript''), (''typescript'', ''TypeScript''), (''ts'', ''TypeScript''),
     (''react'', ''React''), (''node'', ''Node.js''), (''nodejs'', ''Node.js''), (''node.js'', ''Node.js''),
     (''python'', ''Python''), (''java'', ''Java''),
     (''kotlin'', ''Kotlin''), (''swift'', ''Swift''), (''sql'', ''SQL''), (''docker'', ''Docker''),
     (''kubernetes'', ''Kubernetes''),
     (''aws'', ''AWS''), (''gcp'', ''GCP''), (''azure'', ''Azure''), (''git'', ''Git''), (''excel'', ''Excel''),
     (''figma'', ''Figma''), (''graphql'', ''GraphQL''), (''rest'', ''REST''), (''redis'', ''Redis''), (''mongodb'', ''MongoDB''),
     (''communication'', ''communication''), (''leadership'', ''leadership''), (''analytics'', ''analytics'')]"

definition is_lower_num :: "char \<Rightarrow> bool" where
  "is_lower_num c \<longleftrightarrow> is_digit c \<or> 97 \<le> (of_char c :: int) \<and> (of_char c :: int) \<le> 122"

definition tagWordRe :: rx where
  "tagWordRe = Seq (Ch is_lower_num) (Star (Ch (\<lambda>c. is_lower_num c \<or> c \<in> {CHR ''+'', CHR ''#'', CHR ''.''})))"

definition containsDigit :: "string \<Rightarrow> bool" where
  "containsDigit = list_ex is_digit"

text \<open>
  \<open>addTag\<close> is the closure \<open>add\<close>; its set \<open>seen\<close> holds the lower-case forms of \<open>out\<close>.
\<close>

definition addTag :: "string list \<Rightarrow> string \<Rightarrow> string list" where
  "addTag out tag = (if tag \<noteq> [] \<and> to_lower tag \<notin> to_lower ` set out then out @ [tag] else out)"

definition requirementTags :: "string list \<Rightarrow> string \<Rightarrow> string list" where
  "requirementTags out requirement =
     (let text = to_lower (trim_space requirement) in
      if text = [] \<or> contains text ''year'' \<or> contains text ''tahun'' then out
      else
        (let found = map (map_of tagAliases) (find_all tagWordRe None text);
             known = list_ex (\<lambda>t. t \<noteq> None) found;
             out1 = foldl (\<lambda>o' t. case t of None \<Rightarrow> o' | Some tag \<Rightarrow> addTag o' tag) out found;
             words = fields_func is_space text
         in if \<not> known \<and> length words \<le> 3 \<and> length words > 0 \<and> length (hd words) \<ge> 3 \<and> \<not> containsDigit text
            then addTag out1 (join '' '' words) else out1))"

definition ExtractRequirementTags :: "string list \<Rightarrow> string list" where
  "ExtractRequirementTags requirements = foldl requirementTags [] requirements"

definition containsWord :: "string \<Rightarrow> string \<Rightarrow> bool" where
  "containsWord text word = list_ex (\<lambda>v. v = word) (find_all tagWordRe None (to_lower text))"

section \<open>Salary estimates\<close>

record SalaryEstimate =
  se_Min :: int
  se_Max :: int
  se_Confidence :: string

definition estimateBands :: "(string \<times> (int \<times> int)) list" where
  "estimateBands =
    [(''intern'', (4000000, 6000000)), (''entry'', (6000000, 9000000)), (''junior'', (8000000, 12000000)),
     (''mid'', (12000000, 20000000)), (''senior'', (18000000, 30000000)), (''lead'', (25000000, 40000000)),
     (''manager'', (25000000, 45000000))]"

definition deriveLevel :: "string \<Rightarrow> string" where
  "deriveLevel title =
     (case find (containsWord (to_lower title))
             [''manager'', ''lead'', ''senior'', ''mid'', ''junior'', ''entry'', ''intern''] of
        Some level \<Rightarrow> level | None \<Rightarrow> [])"

text \<open>All values are far below the \<open>int64\<close> bound, so the conversion is a truncation.\<close>

definition roundSalary :: "double \<Rightarrow> int" where
  "roundSalary value =
     double_trunc (double_add (double_div value (double_of_int 500000)) (round_double 1 2)) * 500000"

definition estimateFactor :: "Job \<Rightarrow> double" where
  "estimateFactor job =
     (if contains (to_lower (j_Location job)) ''jakarta'' then round_double 115 100
      else if j_Remote job then round_double 105 100 else double_of_int 1)"

definition EstimateSalary :: "Job \<Rightarrow> SalaryEstimate option" where
  "EstimateSalary job =
     (if j_SalaryStatedMin job \<noteq> None \<or> j_SalaryStatedMax job \<noteq> None \<or>
         j_SalaryCurrency job \<noteq> [] \<and> \<not> equal_fold (j_SalaryCurrency job) ''IDR'' then None
      else
        (let level0 = to_lower (trim_space (j_Seniority job));
             level = (if level0 = [] then deriveLevel (j_Title job) else level0);
             band = (case map_of estimateBands level of Some b \<Rightarrow> b | None \<Rightarrow> (8000000, 15000000));
             factor = estimateFactor job
         in Some \<lparr>se_Min = roundSalary (double_times (double_of_int (fst band)) factor),
                  se_Max = roundSalary (double_times (double_of_int (snd band)) factor),
                  se_Confidence = (if level \<noteq> [] \<and> (j_Location job \<noteq> [] \<or> j_Remote job) then ''medium'' else ''low'')\<rparr>))"

section \<open>Match scores\<close>

text \<open>
  The skills are the decoding of the profile's JSON column as a list of strings, \<open>None\<close>
  when it fails. The second result of the Go function is always true.
\<close>

definition skillCovers :: "string \<Rightarrow> string \<Rightarrow> bool" where
  "skillCovers tag skill \<longleftrightarrow> contains (to_lower skill) (to_lower tag) \<or> contains (to_lower tag) (to_lower skill)"

definition MatchScore :: "Job \<Rightarrow> string list option \<Rightarrow> int" where
  "MatchScore job skills =
     (case skills of
        None \<Rightarrow> 0
      | Some ss \<Rightarrow>
          (let tags = ExtractRequirementTags (j_Requirements job) in
           if tags = [] then 0
           else int (length (filter (\<lambda>tag. list_ex (skillCovers tag) ss) tags)) * 100 div int (length tags)))"

section \<open>Saved-filter matching\<close>

definition opt_all :: "('a \<Rightarrow> bool) \<Rightarrow> 'a option \<Rightarrow> bool" where
  "opt_all P v = (case v of None \<Rightarrow> True | Some x \<Rightarrow> P x)"

definition opt_ex :: "('a \<Rightarrow> bool) \<Rightarrow> 'a option \<Rightarrow> bool" where
  "opt_ex P v = (case v of None \<Rightarrow> False | Some x \<Rightarrow> P x)"

definition skillWanted :: "Job \<Rightarrow> string \<Rightarrow> bool" where
  "skillWanted job wanted0 =
     (let wanted = trim_space (to_lower wanted0) in
      if wanted = [] then True
      else list_ex (\<lambda>r. contains (to_lower r) wanted) (j_Requirements job)
         \<or> list_ex (\<lambda>t. contains (to_lower t) wanted) (ExtractRequirementTags (j_Requirements job)))"

definition m5_matches :: "Job \<Rightarrow> JobQuery \<Rightarrow> bool" where
  "m5_matches job q =
     (let search = trim_space (to_lower (jq_Search q)); loc = trim_space (to_lower (jq_Location q)) in
      if search \<noteq> [] \<and> \<not> contains (to_lower (j_Title job @ '' '' @ j_Company job)) search then False
      else if \<not> opt_all (\<lambda>lo. opt_ex (\<lambda>hi. lo \<le> hi) (j_SalaryStatedMax job)) (jq_PayMin q) then False
      else if \<not> opt_all (\<lambda>hi. opt_ex (\<lambda>lo. lo \<le> hi) (j_SalaryStatedMin job)) (jq_PayMax q) then False
      else if loc \<noteq> [] \<and> \<not> contains (to_lower (j_Location job)) loc then False
      else if \<not> opt_all (\<lambda>b. j_Remote job = b) (jq_Remote q) then False
      else if jq_EmploymentType q \<noteq> [] \<and> j_EmploymentType job \<noteq> jq_EmploymentType q then False
      else if jq_Source q \<noteq> [] \<and> j_Source job \<noteq> jq_Source q then False
      else if \<not> opt_all (\<lambda>m. opt_all (\<lambda>y. y \<le> m) (j_YearsExperience job)) (jq_MaxYoE q) then False
      else if \<not> opt_all (\<lambda>t. opt_ex (\<lambda>p. \<not> before p t) (j_PostedAt job)) (jq_PostedAfter q) then False
      else list_all (skillWanted job) (jq_Skills q))"

section \<open>Snippets\<close>

text \<open>
  \<open>strings.NewReplacer\<close>: at each position the first of the pairs whose left side starts
  there, in the order given, is replaced, and scanning resumes after it. The left sides are
  not empty.
\<close>

function replacer :: "(string \<times> string) list \<Rightarrow> string \<Rightarrow> string" where
  "replacer ps [] = []"
| "replacer ps (c # cs) =
     (case find (\<lambda>(old, new). old \<noteq> [] \<and> has_prefix (c # cs) old) ps of
        Some (old, new) \<Rightarrow> new @ replacer ps (drop (length old - 1) cs)
      | None \<Rightarrow> c # replacer ps cs)"
  by pat_completeness auto
termination by (relation "measure (\<lambda>(ps, s). length s)") auto

record renderRequest =
  rr_Name :: string
  rr_Role :: string
  rr_Company :: string

definition substitute :: "string \<Rightarrow> renderRequest \<Rightarrow> string" where
  "substitute body req =
     replacer [(''{{name}}'', rr_Name req), (''{name}'', rr_Name req), (''{{role}}'', rr_Role req),
       (''{role}'', rr_Role req), (''{{company}}'', rr_Company req), (''{company}'', rr_Company req)] body"

end
