(* ===== verification/M5_Service.thy ===== *)
theory M5_Service
  imports M5_Store M5_Match Auth_Repo
begin

text \<open>
  The handlers of \<open>internal/m5/service.go\<close>. A handler takes the store's operations, the
  environment, the service state, the user the guard put into the request context
  (\<open>None\<close> without one), the path value and the decoded body, \<open>None\<close> when decoding failed; it
  returns the new state and the answer. Alerts that the mail server accepted are kept in
  \<open>ms5_sent\<close>.
\<close>

record m5Mail =
  m5_to :: string
  m5_count :: nat
  m5_filterName :: string

text \<open>
  \<open>me_jobs\<close> is \<open>None\<close> for a nil job provider, and otherwise what \<open>ActiveJobs\<close> returns;
  \<open>me_send\<close> tells whether the mail server accepts a message; \<open>me_now\<close> are the readings of
  the service clock, one per alert.
\<close>

record m5Env =
  me_jobs :: "(unit + Job list) option"
  me_mailer :: bool
  me_send :: "m5Mail \<Rightarrow> bool"
  me_now :: "nat \<Rightarrow> time"
  me_users :: "(string \<Rightarrow> auth_err + user) option"
  me_profiles :: "(string \<Rightarrow> string option) option"

record 's m5Svc =
  ms5_store :: 's
  ms5_sent :: "m5Mail list"
  ms5_ticks :: nat

record filterRequest =
  fq_Name :: string
  fq_Query :: JobQuery

record filterResponse =
  fr_ID :: string
  fr_Name :: string
  fr_Query :: JobQuery
  fr_CreatedAt :: time
  fr_LastAlertedAt :: "time option"

record applicationRequest =
  aq_JobID :: string
  aq_Status :: string

record snippetRequest =
  sq_Name :: string
  sq_Body :: string

datatype m5Body =
    M5Error string
  | M5Filters "filterResponse list"
  | M5Filter filterResponse
  | M5NoContent
  | M5Matches int
  | M5State JobState
  | M5Apps "Application list"
  | M5App Application
  | M5Snips "Snippet list"
  | M5Snip Snippet
  | M5Text string

type_synonym m5Resp = "m5Body resp"

definition m5Err :: "nat \<Rightarrow> string \<Rightarrow> m5Resp" where
  "m5Err code msg = Resp code (M5Error msg)"

definition m5_Routes :: "string list" where
  "m5_Routes = [''GET /saved-filters'', ''POST /saved-filters'', ''DELETE /saved-filters/{id}'',
     ''POST /saved-filters/{id}/notify'', ''POST /jobs/{job_key}/dismiss'', ''DELETE /jobs/{job_key}/dismiss'',
     ''POST /jobs/{job_key}/applied'', ''GET /applications'', ''POST /applications'', ''PATCH /applications/{id}'',
     ''POST /applications/{id}/confirm'', ''GET /snippets'', ''POST /snippets'', ''PATCH /snippets/{id}'',
     ''DELETE /snippets/{id}'', ''POST /snippets/{id}/render'']"

definition requireUser :: "user option \<Rightarrow> m5Resp + user" where
  "requireUser u = (case u of None \<Rightarrow> Inl (m5Err 401 ''authentication required'') | Some x \<Rightarrow> Inr x)"

definition filterCard :: "SavedFilter \<Rightarrow> filterResponse" where
  "filterCard f = \<lparr>fr_ID = sf_ID f, fr_Name = sf_Name f, fr_Query = sf_Query f, fr_CreatedAt = sf_CreatedAt f,
     fr_LastAlertedAt = sf_LastAlertedAt f\<rparr>"

section \<open>Saved filters\<close>

definition handleListFilters :: "'s m5Store \<Rightarrow> 's m5Svc \<Rightarrow> user option \<Rightarrow> m5Resp" where
  "handleListFilters R st ctx =
     (case requireUser ctx of Inl resp \<Rightarrow> resp
      | Inr u \<Rightarrow> (case st_ListSavedFilters R (ms5_store st) (u_ID u) of
          Inl _ \<Rightarrow> m5Err 500 ''list saved filters''
        | Inr fs \<Rightarrow> Resp 200 (M5Filters (map filterCard fs))))"

definition newFilter :: "string \<Rightarrow> string \<Rightarrow> JobQuery \<Rightarrow> SavedFilter" where
  "newFilter userID name q = \<lparr>sf_ID = [], sf_UserID = userID, sf_Name = name, sf_Query = q,
     sf_CreatedAt = zero_time, sf_LastAlertedAt = None\<rparr>"

definition handleCreateFilter ::
  "'s m5Store \<Rightarrow> 's m5Svc \<Rightarrow> user option \<Rightarrow> filterRequest option \<Rightarrow> 's m5Svc \<times> m5Resp" where
  "handleCreateFilter R st ctx body =
     (case requireUser ctx of Inl resp \<Rightarrow> (st, resp)
      | Inr u \<Rightarrow> (case body of
          None \<Rightarrow> (st, m5Err 400 ''name and query are required'')
        | Some req \<Rightarrow>
            if trim_space (fq_Name req) = [] \<or> length (fq_Name req) > 100
            then (st, m5Err 400 ''name and query are required'')
            else (case ValidateJobQuery (fq_Query req) of
              Some msg \<Rightarrow> (st, m5Err 400 msg)
            | None \<Rightarrow> (case st_CreateSavedFilter R (ms5_store st) (newFilter (u_ID u) (fq_Name req) (fq_Query req)) of
                (s, Inl e) \<Rightarrow> (st\<lparr>ms5_store := s\<rparr>, if e = M5Conflict then m5Err 409 ''saved filter already exists''
                                                else m5Err 500 ''create saved filter'')
              | (s, Inr f) \<Rightarrow> (st\<lparr>ms5_store := s\<rparr>, Resp 201 (M5Filter (filterCard f)))))))"

definition handleDeleteFilter ::
  "'s m5Store \<Rightarrow> 's m5Svc \<Rightarrow> user option \<Rightarrow> string \<Rightarrow> 's m5Svc \<times> m5Resp" where
  "handleDeleteFilter R st ctx i =
     (case requireUser ctx of Inl resp \<Rightarrow> (st, resp)
      | Inr u \<Rightarrow> (case st_DeleteSavedFilter R (ms5_store st) (u_ID u) i of
          (s, None) \<Rightarrow> (st\<lparr>ms5_store := s\<rparr>, Resp 204 M5NoContent)
        | (s, Some e) \<Rightarrow> (st\<lparr>ms5_store := s\<rparr>, if e = M5NotFound then m5Err 404 ''saved filter not found''
                                           else m5Err 500 ''delete saved filter'')))"

section \<open>Alerts\<close>

definition alertCutoff :: "SavedFilter \<Rightarrow> time" where
  "alertCutoff f = (case sf_LastAlertedAt f of Some t \<Rightarrow> t | None \<Rightarrow> sf_CreatedAt f)"

definition newMatches :: "SavedFilter \<Rightarrow> Job list \<Rightarrow> Job list" where
  "newMatches f jobs =
     filter (\<lambda>job. opt_ex (\<lambda>p. after p (alertCutoff f)) (j_PostedAt job) \<and> m5_matches job (sf_Query f)) jobs"

text \<open>The result of \<open>notifyFilter\<close>: an error, or the number of matches announced.\<close>

definition notifyFilter ::
  "'s m5Store \<Rightarrow> m5Env \<Rightarrow> 's m5Svc \<Rightarrow> user \<Rightarrow> SavedFilter \<Rightarrow> 's m5Svc \<times> (m5_err + nat)" where
  "notifyFilter R env st u f =
     (case me_jobs env of
        None \<Rightarrow> (st, Inl M5MailerUnavailable)
      | Some provided \<Rightarrow>
          if \<not> me_mailer env then (st, Inl M5MailerUnavailable)
          else (case provided of
            Inl _ \<Rightarrow> (st, Inl M5Other)
          | Inr jobs \<Rightarrow>
              (let count = length (newMatches f jobs);
                   mail = \<lparr>m5_to = u_Email u, m5_count = count, m5_filterName = sf_Name f\<rparr> in
               if count = 0 then (st, Inr 0)
               else if \<not> me_send env mail then (st, Inl M5Other)
               else (case st_TouchSavedFilter R (ms5_store st) (u_ID u) (sf_ID f) (me_now env (ms5_ticks st)) of
                 (s, Some e) \<Rightarrow> (st\<lparr>ms5_store := s, ms5_sent := ms5_sent st @ [mail], ms5_ticks := Suc (ms5_ticks st)\<rparr>, Inl e)
               | (s, None) \<Rightarrow> (st\<lparr>ms5_store := s, ms5_sent := ms5_sent st @ [mail], ms5_ticks := Suc (ms5_ticks st)\<rparr>, Inr count)))))"

definition handleNotifyFilter ::
  "'s m5Store \<Rightarrow> m5Env \<Rightarrow> 's m5Svc \<Rightarrow> user option \<Rightarrow> string \<Rightarrow> 's m5Svc \<times> m5Resp" where
  "handleNotifyFilter R env st ctx i =
     (case requireUser ctx of Inl resp \<Rightarrow> (st, resp)
      | Inr u \<Rightarrow> (case st_GetSavedFilter R (ms5_store st) (u_ID u) i of
          Inl e \<Rightarrow> (st, if e = M5NotFound then m5Err 404 ''saved filter not found'' else m5Err 500 ''load saved filter'')
        | Inr f \<Rightarrow> (case notifyFilter R env st u f of
            (st1, Inl e) \<Rightarrow> (st1, if e = M5MailerUnavailable then m5Err 503 ''email alerts are not configured''
                                else m5Err 500 ''send alert'')
          | (st1, Inr n) \<Rightarrow> (st1, Resp 200 (M5Matches (int n))))))"

text \<open>The loops stop at the first error, with the total so far.\<close>

fun notifyFilters ::
  "'s m5Store \<Rightarrow> m5Env \<Rightarrow> user \<Rightarrow> 's m5Svc \<Rightarrow> SavedFilter list \<Rightarrow> nat \<Rightarrow> 's m5Svc \<times> nat \<times> m5_err option" where
  "notifyFilters R env u st [] acc = (st, acc, None)"
| "notifyFilters R env u st (f # fs) acc =
     (case notifyFilter R env st u f of
        (st1, Inl e) \<Rightarrow> (st1, acc, Some e)
      | (st1, Inr n) \<Rightarrow> notifyFilters R env u st1 fs (acc + n))"

datatype notify_err = NotifyStore m5_err | NotifyUser auth_err

definition NotifyNewMatches ::
  "'s m5Store \<Rightarrow> m5Env \<Rightarrow> 's m5Svc \<Rightarrow> string \<Rightarrow> 's m5Svc \<times> nat \<times> notify_err option" where
  "NotifyNewMatches R env st userID =
     (case me_users env of
        None \<Rightarrow> (st, 0, Some (NotifyStore M5MailerUnavailable))
      | Some lookup \<Rightarrow> (case lookup userID of
          Inl e \<Rightarrow> (st, 0, Some (NotifyUser e))
        | Inr u \<Rightarrow>
            if \<not> u_Verified u then (st, 0, None)
            else (case st_ListSavedFilters R (ms5_store st) userID of
              Inl e \<Rightarrow> (st, 0, Some (NotifyStore e))
            | Inr fs \<Rightarrow> (case notifyFilters R env u st fs 0 of
                (st1, n, e) \<Rightarrow> (st1, n, map_option NotifyStore e)))))"

fun notifyUsers ::
  "'s m5Store \<Rightarrow> m5Env \<Rightarrow> 's m5Svc \<Rightarrow> string list \<Rightarrow> nat \<Rightarrow> 's m5Svc \<times> nat \<times> notify_err option" where
  "notifyUsers R env st [] acc = (st, acc, None)"
| "notifyUsers R env st (u # us) acc =
     (case NotifyNewMatches R env st u of
        (st1, _, Some e) \<Rightarrow> (st1, acc, Some e)
      | (st1, n, None) \<Rightarrow> notifyUsers R env st1 us (acc + n))"

definition NotifyAllMatches ::
  "'s m5Store \<Rightarrow> m5Env \<Rightarrow> 's m5Svc \<Rightarrow> 's m5Svc \<times> nat \<times> notify_err option" where
  "NotifyAllMatches R env st =
     (case st_ListSavedFilterUsers R (ms5_store st) of
        Inl e \<Rightarrow> (st, 0, Some (NotifyStore e))
      | Inr us \<Rightarrow> notifyUsers R env st us 0)"

section \<open>Job states\<close>

definition updateJobState ::
  "'s m5Store \<Rightarrow> 's m5Svc \<Rightarrow> user option \<Rightarrow> string \<Rightarrow> bool \<Rightarrow> bool \<Rightarrow> 's m5Svc \<times> m5Resp" where
  "updateJobState R st ctx path dismissed applied =
     (case requireUser ctx of Inl resp \<Rightarrow> (st, resp)
      | Inr u \<Rightarrow>
          (let key = trim_space path in
           if key = [] \<or> length key > 128 then (st, m5Err 400 ''invalid job key'')
           else (case st_GetJobState R (ms5_store st) (u_ID u) key of
             Inl _ \<Rightarrow> (st, m5Err 500 ''load job state'')
           | Inr state \<Rightarrow>
               (let state1 = (if dismissed then state\<lparr>js_Dismissed := True\<rparr>
                              else if applied then state\<lparr>js_AlreadyApplied := True\<rparr>
                              else state\<lparr>js_Dismissed := False\<rparr>) in
                case st_SetJobState R (ms5_store st) (u_ID u) (state1\<lparr>js_JobKey := key\<rparr>) of
                  (s, Inl _) \<Rightarrow> (st\<lparr>ms5_store := s\<rparr>, m5Err 500 ''save job state'')
                | (s, Inr saved) \<Rightarrow> (st\<lparr>ms5_store := s\<rparr>, Resp 200 (M5State saved))))))"

definition handleDismiss :: "'s m5Store \<Rightarrow> 's m5Svc \<Rightarrow> user option \<Rightarrow> string \<Rightarrow> 's m5Svc \<times> m5Resp" where
  "handleDismiss R st ctx path = updateJobState R st ctx path True False"

definition handleUndismiss :: "'s m5Store \<Rightarrow> 's m5Svc \<Rightarrow> user option \<Rightarrow> string \<Rightarrow> 's m5Svc \<times> m5Resp" where
  "handleUndismiss R st ctx path = updateJobState R st ctx path False False"

definition handleApplied :: "'s m5Store \<Rightarrow> 's m5Svc \<Rightarrow> user option \<Rightarrow> string \<Rightarrow> 's m5Svc \<times> m5Resp" where
  "handleApplied R st ctx path = updateJobState R st ctx path False True"

section \<open>Applications\<close>

definition handleListApplications :: "'s m5Store \<Rightarrow> 's m5Svc \<Rightarrow> user option \<Rightarrow> m5Resp" where
  "handleListApplications R st ctx =
     (case requireUser ctx of Inl resp \<Rightarrow> resp
      | Inr u \<Rightarrow> (case st_ListApplications R (ms5_store st) (u_ID u) of
          Inl _ \<Rightarrow> m5Err 500 ''list applications''
        | Inr as \<Rightarrow> Resp 200 (M5Apps as)))"

definition newApplication :: "string \<Rightarrow> string \<Rightarrow> string \<Rightarrow> Application" where
  "newApplication userID jobKey stat = \<lparr>ap_ID = [], ap_UserID = userID, ap_JobKey = jobKey, ap_JobTitle = [],
     ap_Company = [], ap_Status = stat, ap_CreatedAt = zero_time, ap_UpdatedAt = zero_time\<rparr>"

definition handleCreateApplication ::
  "'s m5Store \<Rightarrow> 's m5Svc \<Rightarrow> user option \<Rightarrow> applicationRequest option \<Rightarrow> 's m5Svc \<times> m5Resp" where
  "handleCreateApplication R st ctx body =
     (case requireUser ctx of Inl resp \<Rightarrow> (st, resp)
      | Inr u \<Rightarrow> (case body of
          None \<Rightarrow> (st, m5Err 400 ''job_id is required'')
        | Some req \<Rightarrow>
            if trim_space (aq_JobID req) = [] \<or> length (aq_JobID req) > 128 then (st, m5Err 400 ''job_id is required'')
            else (let stat = (if aq_Status req = [] then StatusFormFilled else aq_Status req) in
              if stat \<noteq> StatusFormFilled then (st, m5Err 400 ''new applications must start as form_filled'')
              else (case st_CreateApplication R (ms5_store st) (newApplication (u_ID u) (aq_JobID req) stat) of
                (s, Inl e) \<Rightarrow> (st\<lparr>ms5_store := s\<rparr>, if e = M5JobNotFound then m5Err 404 ''job not found''
                                                else m5Err 500 ''create application'')
              | (s, Inr app) \<Rightarrow> (st\<lparr>ms5_store := s\<rparr>, Resp 201 (M5App app))))))"

definition markApplied :: "'s m5Store \<Rightarrow> 's \<Rightarrow> string \<Rightarrow> string \<Rightarrow> 's \<times> m5_err option" where
  "markApplied R s userID jobKey =
     (case st_GetJobState R s userID jobKey of
        Inl e \<Rightarrow> (s, Some e)
      | Inr state \<Rightarrow> (case st_SetJobState R s userID (state\<lparr>js_JobKey := jobKey, js_AlreadyApplied := True\<rparr>) of
          (s1, Inl e) \<Rightarrow> (s1, Some e)
        | (s1, Inr _) \<Rightarrow> (s1, None)))"

definition statusUpdate :: "string \<Rightarrow> string \<Rightarrow> Application" where
  "statusUpdate i stat = (newApplication [] [] stat)\<lparr>ap_ID := i\<rparr>"

definition handleUpdateApplication ::
  "'s m5Store \<Rightarrow> 's m5Svc \<Rightarrow> user option \<Rightarrow> string \<Rightarrow> applicationRequest option \<Rightarrow> 's m5Svc \<times> m5Resp" where
  "handleUpdateApplication R st ctx i body =
     (case requireUser ctx of Inl resp \<Rightarrow> (st, resp)
      | Inr u \<Rightarrow> (case body of
          None \<Rightarrow> (st, m5Err 400 ''invalid application status'')
        | Some req \<Rightarrow>
            if \<not> validStatus (aq_Status req) then (st, m5Err 400 ''invalid application status'')
            else (case st_GetApplication R (ms5_store st) (u_ID u) i of
              Inl e \<Rightarrow> (st, if e = M5NotFound then m5Err 404 ''application not found'' else m5Err 500 ''load application'')
            | Inr current \<Rightarrow>
                if ap_Status current \<noteq> StatusFormFilled \<and> aq_Status req = StatusFormFilled
                then (st, m5Err 409 ''application status cannot move back to form_filled'')
                else (case st_UpdateApplication R (ms5_store st) (u_ID u) (statusUpdate (ap_ID current) (aq_Status req)) of
                  (s, Inl _) \<Rightarrow> (st\<lparr>ms5_store := s\<rparr>, m5Err 500 ''update application'')
                | (s, Inr updated) \<Rightarrow>
                    if aq_Status req = StatusSubmitted then
                      (case markApplied R s (u_ID u) (ap_JobKey current) of
                         (s1, Some _) \<Rightarrow> (st\<lparr>ms5_store := s1\<rparr>, m5Err 500 ''save applied state'')
                       | (s1, None) \<Rightarrow> (st\<lparr>ms5_store := s1\<rparr>, Resp 200 (M5App updated)))
                    else (st\<lparr>ms5_store := s\<rparr>, Resp 200 (M5App updated))))))"

definition handleConfirmSubmit ::
  "'s m5Store \<Rightarrow> 's m5Svc \<Rightarrow> user option \<Rightarrow> string \<Rightarrow> 's m5Svc \<times> m5Resp" where
  "handleConfirmSubmit R st ctx i =
     (case requireUser ctx of Inl resp \<Rightarrow> (st, resp)
      | Inr u \<Rightarrow> (case st_GetApplication R (ms5_store st) (u_ID u) i of
          Inl e \<Rightarrow> (st, if e = M5NotFound then m5Err 404 ''application not found'' else m5Err 500 ''load application'')
        | Inr current \<Rightarrow>
            (case st_UpdateApplication R (ms5_store st) (u_ID u) (statusUpdate (ap_ID current) StatusSubmitted) of
               (s, Inl _) \<Rightarrow> (st\<lparr>ms5_store := s\<rparr>, m5Err 500 ''confirm application'')
             | (s, Inr updated) \<Rightarrow>
                 (case markApplied R s (u_ID u) (ap_JobKey current) of
                    (s1, Some _) \<Rightarrow> (st\<lparr>ms5_store := s1\<rparr>, m5Err 500 ''save applied state'')
                  | (s1, None) \<Rightarrow> (st\<lparr>ms5_store := s1\<rparr>, Resp 200 (M5App updated))))))"

section \<open>Snippets\<close>

definition handleListSnippets :: "'s m5Store \<Rightarrow> 's m5Svc \<Rightarrow> user option \<Rightarrow> m5Resp" where
  "handleListSnippets R st ctx =
     (case requireUser ctx of Inl resp \<Rightarrow> resp
      | Inr u \<Rightarrow> (case st_ListSnippets R (ms5_store st) (u_ID u) of
          Inl _ \<Rightarrow> m5Err 500 ''list snippets''
        | Inr ss \<Rightarrow> Resp 200 (M5Snips ss)))"

definition validSnippet :: "string \<Rightarrow> string \<Rightarrow> bool" where
  "validSnippet name body \<longleftrightarrow>
     trim_space name \<noteq> [] \<and> length name \<le> 100 \<and> trim_space body \<noteq> [] \<and> int (length body) \<le> 20000"

definition newSnippet :: "string \<Rightarrow> string \<Rightarrow> string \<Rightarrow> string \<Rightarrow> Snippet" where
  "newSnippet i userID name body = \<lparr>sn_ID = i, sn_UserID = userID, sn_Name = name, sn_Body = body,
     sn_CreatedAt = zero_time, sn_UpdatedAt = zero_time\<rparr>"

definition handleCreateSnippet ::
  "'s m5Store \<Rightarrow> 's m5Svc \<Rightarrow> user option \<Rightarrow> snippetRequest option \<Rightarrow> 's m5Svc \<times> m5Resp" where
  "handleCreateSnippet R st ctx body =
     (case requireUser ctx of Inl resp \<Rightarrow> (st, resp)
      | Inr u \<Rightarrow> (case body of
          None \<Rightarrow> (st, m5Err 400 ''name and body are required'')
        | Some req \<Rightarrow>
            if \<not> validSnippet (sq_Name req) (sq_Body req) then (st, m5Err 400 ''name and body are required'')
            else (case st_CreateSnippet R (ms5_store st) (newSnippet [] (u_ID u) (sq_Name req) (sq_Body req)) of
              (s, Inl e) \<Rightarrow> (st\<lparr>ms5_store := s\<rparr>, if e = M5Conflict then m5Err 409 ''snippet already exists''
                                              else m5Err 500 ''create snippet'')
            | (s, Inr x) \<Rightarrow> (st\<lparr>ms5_store := s\<rparr>, Resp 201 (M5Snip x)))))"

definition handleUpdateSnippet ::
  "'s m5Store \<Rightarrow> 's m5Svc \<Rightarrow> user option \<Rightarrow> string \<Rightarrow> snippetRequest option \<Rightarrow> 's m5Svc \<times> m5Resp" where
  "handleUpdateSnippet R st ctx i body =
     (case requireUser ctx of Inl resp \<Rightarrow> (st, resp)
      | Inr u \<Rightarrow> (case body of
          None \<Rightarrow> (st, m5Err 400 ''name and body are required'')
        | Some req \<Rightarrow>
            if \<not> validSnippet (sq_Name req) (sq_Body req) then (st, m5Err 400 ''name and body are required'')
            else (case st_UpdateSnippet R (ms5_store st) (u_ID u) (newSnippet i [] (sq_Name req) (sq_Body req)) of
              (s, Inl e) \<Rightarrow> (st\<lparr>ms5_store := s\<rparr>,
                 if e = M5NotFound then m5Err 404 ''snippet not found''
                 else if e = M5Conflict then m5Err 409 ''snippet already exists'' else m5Err 500 ''update snippet'')
            | (s, Inr x) \<Rightarrow> (st\<lparr>ms5_store := s\<rparr>, Resp 200 (M5Snip x)))))"

definition handleDeleteSnippet ::
  "'s m5Store \<Rightarrow> 's m5Svc \<Rightarrow> user option \<Rightarrow> string \<Rightarrow> 's m5Svc \<times> m5Resp" where
  "handleDeleteSnippet R st ctx i =
     (case requireUser ctx of Inl resp \<Rightarrow> (st, resp)
      | Inr u \<Rightarrow> (case st_DeleteSnippet R (ms5_store st) (u_ID u) i of
          (s, None) \<Rightarrow> (st\<lparr>ms5_store := s\<rparr>, Resp 204 M5NoContent)
        | (s, Some e) \<Rightarrow> (st\<lparr>ms5_store := s\<rparr>, if e = M5NotFound then m5Err 404 ''snippet not found''
                                           else m5Err 500 ''delete snippet'')))"

text \<open>
  The body of a render request is optional: a decoding error is ignored and leaves the
  fields decoded so far, which the argument holds.
\<close>

definition handleRenderSnippet ::
  "'s m5Store \<Rightarrow> m5Env \<Rightarrow> 's m5Svc \<Rightarrow> user option \<Rightarrow> string \<Rightarrow> renderRequest \<Rightarrow> m5Resp" where
  "handleRenderSnippet R env st ctx i req =
     (case requireUser ctx of Inl resp \<Rightarrow> resp
      | Inr u \<Rightarrow> (case st_GetSnippet R (ms5_store st) (u_ID u) i of
          Inl e \<Rightarrow> if e = M5NotFound then m5Err 404 ''snippet not found'' else m5Err 500 ''load snippet''
        | Inr x \<Rightarrow>
            (let req1 = (if rr_Name req = [] then
                (case me_profiles env of
                   None \<Rightarrow> req
                 | Some get \<Rightarrow> (case get (u_ID u) of None \<Rightarrow> req | Some name \<Rightarrow> req\<lparr>rr_Name := name\<rparr>))
                else req)
             in Resp 200 (M5Text (substitute (sn_Body x) req1)))))"

end
