(* ===== verification/M5_Theorems.thy ===== *)
theory M5_Theorems
  imports M5_Props
begin

text \<open>
  The theorems on the seeker's endpoints, over the in-memory store: sequences of requests,
  the two status handlers, alerts, tags, scores and estimates.
\<close>

section \<open>Sequences of requests\<close>

definition m5_run :: "m5Env \<Rightarrow> m5Mem m5Svc \<Rightarrow> (user option \<times> m5Call) list \<Rightarrow> m5Mem m5Svc" where
  "m5_run env st reqs = foldl (\<lambda>s (ctx, c). m5_call m5MemOps env s ctx c) st reqs"

lemma m5_run_simps [simp]:
  "m5_run env st [] = st"
  "m5_run env st ((ctx, c) # reqs) = m5_run env (m5_call m5MemOps env st ctx c) reqs"
  by (simp_all add: m5_run_def)

text \<open>A request carries no user, or one whose id the accounts repository issued.\<close>

definition issued :: "user option \<times> m5Call \<Rightarrow> bool" where
  "issued r = (case fst r of None \<Rightarrow> True | Some u \<Rightarrow> uid_ok (u_ID u))"

definition from_others :: "string \<Rightarrow> user option \<times> m5Call \<Rightarrow> bool" where
  "from_others w r = (case fst r of None \<Rightarrow> True | Some u \<Rightarrow> u_ID u \<noteq> w)"

lemma call_good:
  assumes "m5_inv (ms5_store st)" "issued (ctx, c)"
  shows "good_step m5_inv m5_view (case ctx of None \<Rightarrow> [] | Some u \<Rightarrow> u_ID u) (ms5_store st)
    (ms5_store (m5_call m5MemOps env st ctx c))"
proof (cases ctx)
  case None
  then show ?thesis using assms(1) m5mem.no_user_call by (simp add: good_step_same)
next
  case (Some u)
  then show ?thesis using assms m5mem.good_call [of st u env c] by (simp add: issued_def)
qed

lemma run_inv: "m5_inv (ms5_store st) \<Longrightarrow> list_all issued reqs \<Longrightarrow> m5_inv (ms5_store (m5_run env st reqs))"
proof (induction reqs arbitrary: st)
  case (Cons r reqs)
  obtain ctx c where r: "r = (ctx, c)" by (cases r)
  then show ?case using Cons call_good [of st ctx c env] by (simp add: good_step_def)
qed simp

lemma run_app_step: "m5_inv (ms5_store st) \<Longrightarrow> list_all issued reqs \<Longrightarrow>
    app_step (gget (mm_apps (ms5_store st))) (gget (mm_apps (ms5_store (m5_run env st reqs))))"
proof (induction reqs arbitrary: st)
  case (Cons r reqs)
  obtain ctx c where r: "r = (ctx, c)" by (cases r)
  let ?s = "m5_call m5MemOps env st ctx c"
  have g: "m5_inv (ms5_store ?s)" "app_step (gget (mm_apps (ms5_store st))) (gget (mm_apps (ms5_store ?s)))"
    using call_good [OF Cons.prems(1), of ctx c env] Cons.prems(2) r by (simp_all add: good_step_def)
  show ?case using app_step_trans [OF g(2) Cons.IH [OF g(1)]] Cons.prems(2) r by simp
qed simp

lemma run_same_user:
  "m5_inv (ms5_store st) \<Longrightarrow> uid_ok w \<Longrightarrow> list_all issued reqs \<Longrightarrow> list_all (from_others w) reqs \<Longrightarrow>
    same_user w (m5_view (ms5_store st)) (m5_view (ms5_store (m5_run env st reqs)))"
proof (induction reqs arbitrary: st)
  case (Cons r reqs)
  obtain ctx c where r: "r = (ctx, c)" by (cases r)
  let ?s = "m5_call m5MemOps env st ctx c"
  have i: "m5_inv (ms5_store ?s)"
    using call_good [OF Cons.prems(1), of ctx c env] Cons.prems(3) r by (simp add: good_step_def)
  have "same_user w (m5_view (ms5_store st)) (m5_view (ms5_store ?s))"
  proof (cases ctx)
    case None then show ?thesis using m5mem.no_user_call by simp
  next
    case (Some u)
    then show ?thesis using call_good [OF Cons.prems(1), of ctx c env] Cons.prems(2-) r
      by (auto simp: good_step_def from_others_def)
  qed
  then show ?case using same_user_trans Cons.IH [OF i] Cons.prems(2-) r by simp
qed simp

section \<open>Facts about one request\<close>

lemma gget_app_owner:
  "m5_GetApplication m u i = Inr a \<Longrightarrow> gget (mm_apps m) i = Some a \<and> ap_UserID a = u"
  by (auto simp: m5_GetApplication_def split: option.splits if_splits)

lemma m5_inv_new: "inj uuid \<Longrightarrow> m5_inv (NewM5Memory now uuid)"
  by (simp add: m5_inv_def NewM5Memory_def flt_ok_def app_ok_def snp_ok_def)

section \<open>Isolation and lifecycle\<close>

text \<open>
  Whatever sequence of requests other users and anonymous clients send, the saved
  filters, job states, applications and snippets of a user stay exactly as they were, and
  the store stays well formed.
\<close>

theorem m5_requests_isolated:
  assumes "m5_inv (ms5_store st)" "uid_ok w" "list_all issued reqs" "list_all (from_others w) reqs"
  shows "same_user w (m5_view (ms5_store st)) (m5_view (ms5_store (m5_run env st reqs))) \<and>
    m5_inv (ms5_store (m5_run env st reqs))"
  using run_same_user [OF assms] run_inv [OF assms(1,3)] by blast

definition demo_user :: "string \<Rightarrow> user" where
  "demo_user i = \<lparr>u_ID = i, u_Email = i @ ''@x.id'', u_PasswordHash = [], u_Verified = True,
     u_CreatedAt = 0, u_ConsentAt = 0\<rparr>"

definition demo_env :: "Job list \<Rightarrow> m5Env" where
  "demo_env jobs = \<lparr>me_jobs = Some (Inr jobs), me_mailer = True, me_send = (\<lambda>_. True), me_now = (\<lambda>n. 1000 + int n),
     me_users = None, me_profiles = None\<rparr>"

definition demo_store :: "m5Mem m5Svc" where
  "demo_store = \<lparr>ms5_store = NewM5Memory (\<lambda>n. 10 + int n) demo_uuid, ms5_sent = [], ms5_ticks = 0\<rparr>"

lemma demo_store_inv [simp]: "m5_inv (ms5_store demo_store)"
  by (simp add: demo_store_def m5_inv_new)

definition demo_reqs :: "(user option \<times> m5Call) list" where
  "demo_reqs = [(Some (demo_user ''u1''), CCreateApp (Some \<lparr>aq_JobID = ''k'', aq_Status = []\<rparr>)),
     (None, CConfirm ''i''), (Some (demo_user ''u2''), CConfirm ''i''),
     (Some (demo_user ''u2''), CCreateSnip (Some \<lparr>sq_Name = ''n'', sq_Body = ''b''\<rparr>)),
     (Some (demo_user ''u1''), CConfirm ''i'')]"

lemma demo_reqs_ok: "list_all issued demo_reqs" "list_all (from_others ''u3'') demo_reqs" "uid_ok ''u3''"
  by code_simp+

theorem m5_requests_isolated_witness:
  "same_user ''u3'' (m5_view (ms5_store demo_store)) (m5_view (ms5_store (m5_run (demo_env []) demo_store demo_reqs)))"
  using m5_requests_isolated [OF demo_store_inv demo_reqs_ok(3,1,2)] by blast

text \<open>
  C6: Whatever sequence of requests is sent, an application is never lost, keeps its owner,
  its job and its creation time, and once its status has left form_filled it never is
  form_filled again.
\<close>

theorem application_lifecycle:
  assumes "m5_inv (ms5_store st)" "list_all issued reqs" "gget (mm_apps (ms5_store st)) i = Some a"
  shows "\<exists>b. gget (mm_apps (ms5_store (m5_run env st reqs))) i = Some b \<and> ap_ID b = ap_ID a \<and>
    ap_UserID b = ap_UserID a \<and> ap_JobKey b = ap_JobKey a \<and> ap_CreatedAt b = ap_CreatedAt a \<and>
    (ap_Status a \<noteq> StatusFormFilled \<longrightarrow> ap_Status b \<noteq> StatusFormFilled)"
proof -
  obtain b where b: "gget (mm_apps (ms5_store (m5_run env st reqs))) i = Some b" "ap_UserID b = ap_UserID a"
    "ap_JobKey b = ap_JobKey a" "ap_CreatedAt b = ap_CreatedAt a"
    "ap_Status a \<noteq> StatusFormFilled \<longrightarrow> ap_Status b \<noteq> StatusFormFilled"
    using run_app_step [OF assms(1,2), of env] assms(3) unfolding app_step_def by blast
  then show ?thesis using m5_invD(2) [OF assms(1,3)] m5_invD(2) [OF run_inv [OF assms(1,2), of env] b(1)] by simp
qed

theorem application_lifecycle_witness:
  "\<exists>b. gget (mm_apps (ms5_store (m5_run (demo_env []) (m5_run (demo_env []) demo_store demo_reqs)
      [(Some (demo_user ''u1''), CUpdateApp ''i'' (Some \<lparr>aq_JobID = [], aq_Status = StatusFormFilled\<rparr>))]))) ''i'' = Some b \<and>
    ap_JobKey b = ''k'' \<and> ap_Status b \<noteq> StatusFormFilled"
proof -
  let ?st = "m5_run (demo_env []) demo_store demo_reqs"
  let ?a = "the (gget (mm_apps (ms5_store ?st)) ''i'')"
  have a: "gget (mm_apps (ms5_store ?st)) ''i'' = Some ?a" "ap_JobKey ?a = ''k''" "ap_Status ?a \<noteq> StatusFormFilled"
    by code_simp+
  have i: "m5_inv (ms5_store ?st)" using run_inv [OF demo_store_inv demo_reqs_ok(1)] .
  have l: "list_all issued [(Some (demo_user ''u1''), CUpdateApp ''i'' (Some \<lparr>aq_JobID = [], aq_Status = StatusFormFilled\<rparr>))]"
    by code_simp
  show ?thesis using application_lifecycle [OF i l a(1), of "demo_env []"] a(2,3) by metis
qed

text \<open>
  In every store that requests can build from an empty one, a user has at most one
  application per job and no two saved filters whose names differ only in case.
\<close>

theorem reachable_rows_unique:
  assumes "inj uuid" "list_all issued reqs"
    and "s = ms5_store (m5_run env \<lparr>ms5_store = NewM5Memory now uuid, ms5_sent = [], ms5_ticks = 0\<rparr> reqs)"
  shows "(\<forall>i a j b. gget (mm_apps s) i = Some a \<longrightarrow> gget (mm_apps s) j = Some b \<longrightarrow>
      ap_UserID a = ap_UserID b \<longrightarrow> ap_JobKey a = ap_JobKey b \<longrightarrow> i = j) \<and>
    (\<forall>i f j g. gget (mm_filters s) i = Some f \<longrightarrow> gget (mm_filters s) j = Some g \<longrightarrow>
      sf_UserID f = sf_UserID g \<longrightarrow> equal_fold (sf_Name f) (sf_Name g) \<longrightarrow> i = j)"
  using run_inv [of "\<lparr>ms5_store = NewM5Memory now uuid, ms5_sent = [], ms5_ticks = 0\<rparr>" reqs env, folded assms(3)]
    m5_inv_new [OF assms(1)] assms(2)
  unfolding m5_inv_def app_ok_def flt_ok_def by simp

theorem reachable_rows_unique_witness:
  "\<exists>s :: m5Mem. (\<exists>a :: Application. gget (mm_apps s) ''i'' = Some a \<and> ap_JobKey a = ''k'') \<and>
    (\<forall>i a j b. gget (mm_apps s) i = Some a \<longrightarrow> gget (mm_apps s) j = Some b \<longrightarrow>
      ap_UserID a = ap_UserID b \<longrightarrow> ap_JobKey a = ap_JobKey b \<longrightarrow> i = j)"
proof -
  let ?s = "ms5_store (m5_run (demo_env []) demo_store demo_reqs)"
  let ?a = "the (gget (mm_apps ?s) ''i'')"
  have "gget (mm_apps ?s) ''i'' = Some ?a" "ap_JobKey ?a = ''k''" by code_simp+
  moreover note reachable_rows_unique [OF demo_uuid_inj demo_reqs_ok(1) refl,
      of "demo_env []" "\<lambda>n. 10 + int n", folded demo_store_def]
  ultimately show ?thesis by blast
qed

section \<open>Confirming an application\<close>

text \<open>
  When a user confirms an application of theirs, the answer is 200, the application is
  submitted, and the job it is for counts as already applied for; a job key without
  surrounding space keeps its dismissed flag. Nothing else in the store changes for the
  user's other applications.
\<close>

theorem confirm_submits:
  assumes "m5_inv (ms5_store st)" "uid_ok (u_ID u)"
    and "m5_GetApplication (ms5_store st) (u_ID u) i = Inr a"
    and "handleConfirmSubmit m5MemOps st (Some u) i = (st', resp)"
  shows "\<exists>b t. resp = Resp 200 (M5App b) \<and> b = a\<lparr>ap_Status := StatusSubmitted, ap_UpdatedAt := t\<rparr> \<and>
    gget (mm_apps (ms5_store st')) = (gget (mm_apps (ms5_store st)))(i \<mapsto> b) \<and>
    (\<exists>s. m5_GetJobState (ms5_store st') (u_ID u) (trim_space (ap_JobKey a)) = Inr s \<and> js_AlreadyApplied s \<and>
      (trim_space (ap_JobKey a) = ap_JobKey a \<longrightarrow> (\<forall>s0. m5_GetJobState (ms5_store st) (u_ID u) (ap_JobKey a) = Inr s0 \<longrightarrow>
        js_Dismissed s = js_Dismissed s0)))"
proof -
  have g: "gget (mm_apps (ms5_store st)) i = Some a" "ap_UserID a = u_ID u" "ap_ID a = i"
    using m5mem.GetApplication [OF assms(1)] assms(3) by (simp_all add: m5MemOps_def)
  show ?thesis using assms(3,4) g
    by (auto simp: handleConfirmSubmit_def requireUser_def m5MemOps_def m5_UpdateApplication_def statusUpdate_def
        newApplication_def markApplied_def m5_GetJobState_def m5_SetJobState_def Let_def zeroJobState_def fun_eq_iff
        split: option.splits)
qed

theorem confirm_submits_witness:
  "\<exists>b t. snd (handleConfirmSubmit m5MemOps (m5_run (demo_env []) demo_store (take 1 demo_reqs)) (Some (demo_user ''u1'')) ''i'')
    = Resp 200 (M5App b) \<and> ap_Status b = StatusSubmitted \<and> t = ap_UpdatedAt b"
proof -
  let ?st = "m5_run (demo_env []) demo_store (take 1 demo_reqs)"
  let ?out = "handleConfirmSubmit m5MemOps ?st (Some (demo_user ''u1'')) ''i''"
  obtain st' resp where o: "?out = (st', resp)" by (cases ?out) blast
  obtain a where a: "m5_GetApplication (ms5_store ?st) (u_ID (demo_user ''u1'')) ''i'' = Inr a"
  proof -
    have "m5_GetApplication (ms5_store ?st) (u_ID (demo_user ''u1'')) ''i'' =
      Inr (projr (m5_GetApplication (ms5_store ?st) (u_ID (demo_user ''u1'')) ''i''))" by code_simp
    then show ?thesis by (rule that)
  qed
  have l: "list_all issued (take 1 demo_reqs)" "uid_ok (u_ID (demo_user ''u1''))" by code_simp+
  show ?thesis using confirm_submits [OF run_inv [OF demo_store_inv l(1)] l(2) a o] unfolding o snd_conv by auto
qed

section \<open>Tags, scores and estimates\<close>

lemma length_filter_all: "length (filter P xs) = length xs \<longleftrightarrow> (\<forall>x\<in>set xs. P x)"
proof (induction xs)
  case (Cons x xs)
  then show ?case using length_filter_le [of P xs] by (cases "P x") (auto simp del: length_filter_le)
qed simp

lemma addTag_distinct:
  "distinct (map to_lower out) \<Longrightarrow> [] \<notin> set out \<Longrightarrow>
    distinct (map to_lower (addTag out t)) \<and> [] \<notin> set (addTag out t)"
  by (auto simp: addTag_def)

lemma addTags_distinct:
  "distinct (map to_lower out) \<Longrightarrow> [] \<notin> set out \<Longrightarrow>
    distinct (map to_lower (foldl (\<lambda>o' t. case t of None \<Rightarrow> o' | Some tag \<Rightarrow> addTag o' tag) out ts)) \<and>
    [] \<notin> set (foldl (\<lambda>o' t. case t of None \<Rightarrow> o' | Some tag \<Rightarrow> addTag o' tag) out ts)"
proof (induction ts arbitrary: out)
  case (Cons t ts)
  then show ?case using addTag_distinct [of out] by (cases t) (simp_all del: set_map)
qed simp

lemma requirementTags_distinct:
  assumes "distinct (map to_lower out)" "[] \<notin> set out"
  shows "distinct (map to_lower (requirementTags out r)) \<and> [] \<notin> set (requirementTags out r)"
  using assms addTags_distinct [OF assms] addTag_distinct unfolding requirementTags_def Let_def by simp

text \<open>
  The requirement tags of a listing contain no empty tag and no tag twice, upper and
  lower case counting as the same.
\<close>

theorem requirement_tags_distinct:
  "distinct (map to_lower (ExtractRequirementTags rs)) \<and> [] \<notin> set (ExtractRequirementTags rs)"
proof -
  have "distinct (map to_lower (foldl requirementTags out rs)) \<and> [] \<notin> set (foldl requirementTags out rs)"
    if "distinct (map to_lower out)" "[] \<notin> set out" for out
    using that requirementTags_distinct by (induction rs arbitrary: out) simp_all
  then show ?thesis by (simp add: ExtractRequirementTags_def)
qed

text \<open>
  The match score is a percentage, and it is 100 exactly when the listing has tags and
  every one of them is covered by a skill of the profile.
\<close>

theorem match_score_percentage:
  "0 \<le> MatchScore job skills \<and> MatchScore job skills \<le> 100 \<and>
   (MatchScore job skills = 100 \<longleftrightarrow> (\<exists>ss. skills = Some ss \<and> ExtractRequirementTags (j_Requirements job) \<noteq> [] \<and>
      list_all (\<lambda>tag. list_ex (skillCovers tag) ss) (ExtractRequirementTags (j_Requirements job))))"
proof (cases skills)
  case (Some ss)
  define tags where "tags = ExtractRequirementTags (j_Requirements job)"
  define hit where "hit = filter (\<lambda>tag. list_ex (skillCovers tag) ss) tags"
  have le: "length hit \<le> length tags" unfolding hit_def by simp
  have full: "length hit = length tags \<longleftrightarrow> list_all (\<lambda>tag. list_ex (skillCovers tag) ss) tags"
    unfolding hit_def length_filter_all by (simp add: list_all_iff)
  have hundred: "int h * 100 div int n = 100 \<longleftrightarrow> h = n" "0 \<le> int h * 100 div int n" "int h * 100 div int n \<le> 100"
    if "h \<le> n" "n \<noteq> 0" for h n :: nat
  proof -
    have pos: "0 < int n" using that by simp
    show le: "int h * 100 div int n \<le> 100"
      using zdiv_mono1 [of "int h * 100" "int n * 100" "int n"] that pos by simp
    show "0 \<le> int h * 100 div int n" using pos by (simp add: pos_imp_zdiv_nonneg_iff)
    have "int h * 100 div int n < 100" if "h < n"
    proof (rule ccontr)
      assume "\<not> ?thesis"
      then have "100 * int n \<le> int h * 100 div int n * int n" using pos by (intro mult_right_mono) auto
      also have "\<dots> \<le> int h * 100" using pos by (simp add: minus_mod_eq_div_mult [symmetric])
      finally show False using \<open>h < n\<close> by simp
    qed
    then show "int h * 100 div int n = 100 \<longleftrightarrow> h = n" using that pos by (cases "h = n") auto
  qed
  have "MatchScore job skills = (if tags = [] then 0 else int (length hit) * 100 div int (length tags))"
    by (simp add: MatchScore_def Some tags_def hit_def Let_def)
  then show ?thesis using hundred [OF le] full Some unfolding tags_def [symmetric] by simp
qed (simp add: MatchScore_def)

text \<open>The bands an estimate can use, and what rounding does to each bound.\<close>

definition estimateOK :: "int \<Rightarrow> int \<Rightarrow> int \<Rightarrow> bool" where
  "estimateOK pct amount r \<longleftrightarrow> 0 < r \<and> r mod 500000 = 0 \<and> 100 * r \<le> pct * amount + 25000000 \<and>
     pct * amount \<le> 100 * r + 25000000"

definition bandsUsed :: "(int \<times> int) list" where
  "bandsUsed = (8000000, 15000000) # map snd estimateBands"

lemma bandsUsed_gap: "list_all (\<lambda>(lo, hi). lo + 2000000 \<le> hi) bandsUsed"
  by code_simp

fun bandOK :: "int \<Rightarrow> double \<Rightarrow> int \<times> int \<Rightarrow> bool" where
  "bandOK pct f (lo, hi) \<longleftrightarrow> estimateOK pct lo (roundSalary (double_times (double_of_int lo) f)) \<and>
     estimateOK pct hi (roundSalary (double_times (double_of_int hi) f))"

definition roundsOK :: "int \<Rightarrow> double \<Rightarrow> bool" where
  "roundsOK pct f \<longleftrightarrow> list_all (bandOK pct f) bandsUsed"

lemma factor_values:
  "round_double 115 100 = (5179139571476070, -52)" "round_double 105 100 = (4728779608739021, -52)" "double_of_int 1 = (4503599627370496, -52)"
  by code_simp+

lemma rounds_115: "roundsOK 115 (round_double 115 100)"
  unfolding factor_values by code_simp

lemma rounds_105: "roundsOK 105 (round_double 105 100)"
  unfolding factor_values by code_simp

lemma rounds_100: "roundsOK 100 (double_of_int 1)"
  unfolding factor_values by code_simp

text \<open>
  A salary is estimated only for a listing that states none. The estimate is an ordered
  pair of positive multiples of half a million rupiah, and each bound is the band's bound
  times 115, 105 or 100 percent, rounded to the nearest half million.
\<close>

theorem salary_estimate_sound:
  assumes "EstimateSalary job = Some e"
  shows "j_SalaryStatedMin job = None \<and> j_SalaryStatedMax job = None \<and> se_Min e < se_Max e \<and>
    (\<exists>lo hi pct. (lo, hi) \<in> set bandsUsed \<and> pct \<in> {100, 105, 115} \<and>
      estimateOK pct lo (se_Min e) \<and> estimateOK pct hi (se_Max e))"
proof -
  let ?f = "estimateFactor job"
  obtain level where e: "j_SalaryStatedMin job = None" "j_SalaryStatedMax job = None"
    "se_Min e = roundSalary (double_times (double_of_int (fst (case map_of estimateBands level of Some b \<Rightarrow> b | None \<Rightarrow> (8000000, 15000000)))) ?f)"
    "se_Max e = roundSalary (double_times (double_of_int (snd (case map_of estimateBands level of Some b \<Rightarrow> b | None \<Rightarrow> (8000000, 15000000)))) ?f)"
    using assms unfolding EstimateSalary_def Let_def by (auto split: if_split_asm)
  obtain lo hi where b: "(case map_of estimateBands level of Some b \<Rightarrow> b | None \<Rightarrow> (8000000, 15000000)) = (lo, hi)"
    "(lo, hi) \<in> set bandsUsed"
    unfolding bandsUsed_def by (cases "map_of estimateBands level") (force dest: map_of_SomeD)+
  have "roundsOK 115 ?f \<or> roundsOK 105 ?f \<or> roundsOK 100 ?f"
    using rounds_115 rounds_105 rounds_100 unfolding estimateFactor_def by presburger
  then obtain pct where p: "pct \<in> {100, 105, 115}" "roundsOK pct ?f" by blast
  have ok: "estimateOK pct lo (se_Min e)" "estimateOK pct hi (se_Max e)"
    using p(2) b(2) e(3,4) unfolding roundsOK_def list_all_iff b(1) by fastforce+
  have "lo + 2000000 \<le> hi" using bandsUsed_gap b(2) unfolding list_all_iff by fastforce
  then have "se_Min e < se_Max e" using ok p(1) unfolding estimateOK_def by auto
  then show ?thesis using e(1,2) b(2) p(1) ok by blast
qed

definition demo_job :: "string \<Rightarrow> Job" where
  "demo_job title = \<lparr>j_Source = ''s'', j_SourceURL = ''https://x.id/1'', j_Synthetic = False, j_DedupKey = ''k'',
     j_Title = title, j_Company = ''C'', j_Location = ''Jakarta'', j_Remote = False, j_SalaryStatedMin = None,
     j_SalaryStatedMax = None, j_SalaryCurrency = [], j_Seniority = ''senior'', j_EmploymentType = [],
     j_YearsExperience = None, j_Requirements = [], j_PostedAt = Some 500\<rparr>"

theorem salary_estimate_sound_witness:
  "\<exists>e lo hi pct. EstimateSalary (demo_job ''Dev'') = Some e \<and> se_Min e < se_Max e \<and> estimateOK pct lo (se_Min e) \<and>
    estimateOK pct hi (se_Max e)"
proof -
  have "\<exists>e. EstimateSalary (demo_job ''Dev'') = Some e"
    by (simp add: EstimateSalary_def demo_job_def Let_def)
  then obtain e where "EstimateSalary (demo_job ''Dev'') = Some e" ..
  then show ?thesis using salary_estimate_sound by blast
qed

section \<open>Alerts\<close>

text \<open>
  C8: An alert request answered with n matches has mailed the user once with that count, or
  not at all when n is 0, in which case nothing changed. Sending the same request again
  before a newer listing appears sends nothing and changes nothing.
\<close>

theorem alert_sent_once:
  assumes "m5_inv (ms5_store st)" "m5_GetSavedFilter (ms5_store st) (u_ID u) i = Inr f"
    and "me_jobs env = Some (Inr jobs)"
    and "list_all (\<lambda>j. opt_all (\<lambda>p. p \<le> me_now env (ms5_ticks st)) (j_PostedAt j)) jobs"
    and "handleNotifyFilter m5MemOps env st (Some u) i = (st', Resp 200 (M5Matches n))"
  shows "n = int (length (newMatches f jobs)) \<and>
    (if n = 0 then st' = st
     else ms5_sent st' = ms5_sent st @ [\<lparr>m5_to = u_Email u, m5_count = length (newMatches f jobs), m5_filterName = sf_Name f\<rparr>]) \<and>
    handleNotifyFilter m5MemOps env st' (Some u) i = (st', Resp 200 (M5Matches 0))"
proof -
  let ?now = "me_now env (ms5_ticks st)"
  have f: "gget (mm_filters (ms5_store st)) i = Some f" "sf_UserID f = u_ID u" "sf_ID f = i"
    using m5mem.GetSavedFilter [OF assms(1)] assms(2) by (simp_all add: m5MemOps_def)
  have quiet: "newMatches (f\<lparr>sf_LastAlertedAt := Some ?now\<rparr>) jobs = []"
    using assms(4) unfolding newMatches_def alertCutoff_def filter_empty_conv list_all_iff
    by (fastforce simp: opt_ex_def opt_all_def after_def split: option.splits)
  show ?thesis
  proof (cases "newMatches f jobs = []")
    case True
    then show ?thesis using assms(2,3,5)
      by (auto simp: handleNotifyFilter_def requireUser_def m5MemOps_def notifyFilter_def m5Err_def Let_def split: if_splits)
  next
    case False
    then show ?thesis using assms(2,3,5) f quiet
      by (auto simp: handleNotifyFilter_def requireUser_def m5MemOps_def notifyFilter_def m5Err_def Let_def
          m5_TouchSavedFilter_def m5_GetSavedFilter_def split: if_splits)
  qed
qed

definition anyQuery :: JobQuery where
  "anyQuery = \<lparr>jq_Search = [], jq_PayMin = None, jq_PayMax = None, jq_Location = [], jq_Remote = None, jq_Skills = [],
     jq_MaxYoE = None, jq_EmploymentType = [], jq_Source = [], jq_PostedAfter = None, jq_Limit = 0, jq_Offset = 0\<rparr>"

theorem alert_sent_once_witness:
  "\<exists>st' :: m5Mem m5Svc. length (ms5_sent st') = 1 \<and>
    handleNotifyFilter m5MemOps (demo_env [demo_job ''Dev'']) st' (Some (demo_user ''u1'')) ''i'' = (st', Resp 200 (M5Matches 0))"
proof -
  let ?env = "demo_env [demo_job ''Dev'']"
  let ?reqs = "[(Some (demo_user ''u1''), CCreateFilter (Some \<lparr>fq_Name = ''f'', fq_Query = anyQuery\<rparr>))]"
  let ?st = "m5_run ?env demo_store ?reqs"
  let ?g = "m5_GetSavedFilter (ms5_store ?st) (u_ID (demo_user ''u1'')) ''i''"
  let ?out = "handleNotifyFilter m5MemOps ?env ?st (Some (demo_user ''u1'')) ''i''"
  have i: "m5_inv (ms5_store ?st)" by (rule run_inv [OF demo_store_inv]) code_simp
  have g: "?g = Inr (projr ?g)" by code_simp
  have j: "me_jobs ?env = Some (Inr [demo_job ''Dev''])" by (simp add: demo_env_def)
  have t: "list_all (\<lambda>j. opt_all (\<lambda>p. p \<le> me_now ?env (ms5_ticks ?st)) (j_PostedAt j)) [demo_job ''Dev'']"
    by code_simp
  obtain st' resp where o: "?out = (st', resp)" by (cases ?out) blast
  have "snd ?out = Resp 200 (M5Matches 1)" by code_simp
  then have r: "resp = Resp 200 (M5Matches 1)" unfolding o snd_conv .
  have "ms5_sent ?st = []" by code_simp
  then show ?thesis using alert_sent_once [OF i g j t o[unfolded r]] by (intro exI [of _ st']) simp
qed

section \<open>Where surrounding space matters\<close>

text \<open>
  Renaming a snippet compares the name as sent and stores it trimmed, so two snippets of a
  user can end up with the same name. A padded job id is stored as sent with the
  application but trimmed with the job state, so confirming it loses the dismissed flag.
\<close>

lemma snippet_names_collide:
  "map sn_Name (gvals (mm_snippets (ms5_store (m5_run (demo_env []) demo_store
     [(Some (demo_user ''u1''), CCreateSnip (Some \<lparr>sq_Name = ''a'', sq_Body = ''x''\<rparr>)),
      (Some (demo_user ''u1''), CCreateSnip (Some \<lparr>sq_Name = ''b'', sq_Body = ''x''\<rparr>)),
      (Some (demo_user ''u1''), CUpdateSnip ''ii'' (Some \<lparr>sq_Name = '' a'', sq_Body = ''x''\<rparr>))])))) = [''a'', ''a'']"
  by code_simp

lemma padded_job_key_loses_dismissal:
  "map js_Dismissed (gvals (mm_states (ms5_store (m5_run (demo_env []) demo_store
     [(Some (demo_user ''u1''), CJobState ''k'' True False),
      (Some (demo_user ''u1''), CCreateApp (Some \<lparr>aq_JobID = '' k'', aq_Status = []\<rparr>)),
      (Some (demo_user ''u1''), CConfirm ''i'')])))) = [False]"
  by code_simp

end
