(* ===== verification/Go_JSON.thy ===== *)
theory Go_JSON
  imports Go_Base64 Go_Net
begin

text \<open>
  \<open>encoding/json\<close> as the backend uses it on values it does not decode at once. A
  \<open>json.RawMessage\<close> is the value its bytes denote, \<open>None\<close> when it is empty; numbers keep their
  text and objects the order and repetitions of their members. Decoding into a Go type is
  \<open>None\<close> when \<open>Unmarshal\<close> returns an error.
\<close>

datatype json = JNull | JBool bool | JNum string | JStr string | JArr "json list" | JObj "(string \<times> json) list"

type_synonym raw = "json option"

text \<open>Into a string or an integer: null leaves the zero value.\<close>

fun un_string :: "json \<Rightarrow> string option" where
  "un_string (JStr s) = Some s"
| "un_string JNull = Some []"
| "un_string _ = None"

fun un_int64 :: "json \<Rightarrow> int option" where
  "un_int64 (JNum n) = parse_int64 n"
| "un_int64 JNull = Some 0"
| "un_int64 _ = None"

text \<open>Into a slice: null gives the nil slice.\<close>

fun un_list :: "(json \<Rightarrow> 'a option) \<Rightarrow> raw \<Rightarrow> 'a list option" where
  "un_list f (Some (JArr vs)) = all_some (map f vs)"
| "un_list f (Some JNull) = Some []"
| "un_list f _ = None"

text \<open>
  Into a struct of strings: a member goes to the field of its name, or else of its name up to
  case; others are ignored, or an error with \<open>DisallowUnknownFields\<close>.
\<close>

definition field_of :: "(string \<times> 'f) list \<Rightarrow> string \<Rightarrow> 'f option" where
  "field_of fs k = (case map_of fs k of
      Some f \<Rightarrow> Some f
    | None \<Rightarrow> map_option snd (find (\<lambda>(n, _). equal_fold n k) fs))"

fun un_members :: "bool \<Rightarrow> (string \<times> (string \<Rightarrow> 'a \<Rightarrow> 'a)) list \<Rightarrow> 'a \<Rightarrow> (string \<times> json) list \<Rightarrow> 'a option" where
  "un_members strict fs a [] = Some a"
| "un_members strict fs a ((k, v) # ms) =
     (case field_of fs k of
        None \<Rightarrow> if strict then None else un_members strict fs a ms
      | Some set_field \<Rightarrow> (case v of
          JNull \<Rightarrow> un_members strict fs a ms
        | JStr s \<Rightarrow> un_members strict fs (set_field s a) ms
        | _ \<Rightarrow> None))"

fun un_struct :: "bool \<Rightarrow> (string \<times> (string \<Rightarrow> 'a \<Rightarrow> 'a)) list \<Rightarrow> 'a \<Rightarrow> json \<Rightarrow> 'a option" where
  "un_struct strict fs z (JObj ms) = un_members strict fs z ms"
| "un_struct strict fs z JNull = Some z"
| "un_struct strict fs z _ = None"

lemma un_members_lax: "un_members True fs a ms = Some b \<Longrightarrow> un_members False fs a ms = Some b"
  by (induction ms arbitrary: a) (auto split: option.splits json.splits if_splits)

lemma un_struct_lax: "un_struct True fs z j = Some b \<Longrightarrow> un_struct False fs z j = Some b"
  by (cases j) (auto dest: un_members_lax)

lemma json_all_some_map:
  "(\<And>x. x \<in> set xs \<Longrightarrow> f x \<noteq> None \<Longrightarrow> g x = f x) \<Longrightarrow> all_some (map f xs) \<noteq> None \<Longrightarrow> all_some (map g xs) = all_some (map f xs)"
  by (induction xs) (auto split: option.splits)

lemma un_list_lax: "un_list (un_struct True fs z) r \<noteq> None \<Longrightarrow> un_list (un_struct False fs z) r = un_list (un_struct True fs z) r"
proof (induction "un_struct True fs z" r rule: un_list.induct)
  case (1 vs)
  then show ?case by (auto intro!: json_all_some_map dest: un_struct_lax)
qed simp_all

section \<open>Structs with fields of any type\<close>

text \<open>
  A field decodes a member's value into the struct. Null leaves it as it is, except a raw
  message, which is the null, and a pointer or a slice, which becomes nil. A repeated member
  is decoded again; a slice then starts from the empty one.
\<close>

type_synonym 'a fields_dec = "(string \<times> (json \<Rightarrow> 'a \<Rightarrow> 'a option)) list"

fun un_obj_members :: "bool \<Rightarrow> 'a fields_dec \<Rightarrow> 'a \<Rightarrow> (string \<times> json) list \<Rightarrow> 'a option" where
  "un_obj_members strict fs a [] = Some a"
| "un_obj_members strict fs a ((k, v) # ms) =
     (case field_of fs k of
        None \<Rightarrow> if strict then None else un_obj_members strict fs a ms
      | Some dec \<Rightarrow> (case dec v a of None \<Rightarrow> None | Some b \<Rightarrow> un_obj_members strict fs b ms))"

fun un_obj :: "bool \<Rightarrow> 'a fields_dec \<Rightarrow> 'a \<Rightarrow> json \<Rightarrow> 'a option" where
  "un_obj strict fs z (JObj ms) = un_obj_members strict fs z ms"
| "un_obj strict fs z JNull = Some z"
| "un_obj strict fs z _ = None"

fun str_field :: "(string \<Rightarrow> 'a \<Rightarrow> 'a) \<Rightarrow> json \<Rightarrow> 'a \<Rightarrow> 'a option" where
  "str_field upd (JStr s) a = Some (upd s a)"
| "str_field upd JNull a = Some a"
| "str_field upd _ a = None"

fun int_field :: "(int \<Rightarrow> 'a \<Rightarrow> 'a) \<Rightarrow> json \<Rightarrow> 'a \<Rightarrow> 'a option" where
  "int_field upd (JNum n) a = map_option (\<lambda>i. upd i a) (parse_int64 n)"
| "int_field upd JNull a = Some a"
| "int_field upd _ a = None"

fun bool_field :: "(bool \<Rightarrow> 'a \<Rightarrow> 'a) \<Rightarrow> json \<Rightarrow> 'a \<Rightarrow> 'a option" where
  "bool_field upd (JBool b) a = Some (upd b a)"
| "bool_field upd JNull a = Some a"
| "bool_field upd _ a = None"

fun boolp_field :: "(bool option \<Rightarrow> 'a \<Rightarrow> 'a) \<Rightarrow> json \<Rightarrow> 'a \<Rightarrow> 'a option" where
  "boolp_field upd (JBool b) a = Some (upd (Some b) a)"
| "boolp_field upd JNull a = Some (upd None a)"
| "boolp_field upd _ a = None"

definition raw_field :: "(raw \<Rightarrow> 'a \<Rightarrow> 'a) \<Rightarrow> json \<Rightarrow> 'a \<Rightarrow> 'a option" where
  "raw_field upd v a = Some (upd (Some v) a)"

definition list_field :: "(json \<Rightarrow> 'b option) \<Rightarrow> ('b list \<Rightarrow> 'a \<Rightarrow> 'a) \<Rightarrow> json \<Rightarrow> 'a \<Rightarrow> 'a option" where
  "list_field f upd v a = map_option (\<lambda>xs. upd xs a) (un_list f (Some v))"

definition obj_field :: "'b fields_dec \<Rightarrow> ('a \<Rightarrow> 'b) \<Rightarrow> ('b \<Rightarrow> 'a \<Rightarrow> 'a) \<Rightarrow> json \<Rightarrow> 'a \<Rightarrow> 'a option" where
  "obj_field fs get upd v a = map_option (\<lambda>b. upd b a) (un_obj False fs (get a) v)"

section \<open>Mail addresses\<close>

text \<open>
  \<open>mail.ParseAddress\<close> accepts the text and returns it as the address: a dot-atom, an at sign
  and a dot-atom or a bracketed IP address. Quoting, comments, display names and spaces give
  an address that differs from the text. Bytes of 128 and more belong to multi-byte
  characters, which a decoded JSON string has only in valid UTF-8.
\<close>

definition is_atext :: "char \<Rightarrow> bool" where
  "is_atext c \<longleftrightarrow> (let k = (of_char c :: int) in (33 \<le> k \<and> k \<le> 126 \<or> 128 \<le> k) \<and> c \<notin> set ''()<>[]:;@,'' \<and> c \<noteq> CHR 0x5C \<and> c \<noteq> CHR 0x22)"

definition is_dot_atom :: "string \<Rightarrow> bool" where
  "is_dot_atom s \<longleftrightarrow> s \<noteq> [] \<and> list_all is_atext s \<and> \<not> has_prefix s ''.'' \<and> \<not> contains s ''..'' \<and> \<not> has_suffix s ''.''"

definition is_ip :: "string \<Rightarrow> bool" where
  "is_ip s \<longleftrightarrow> parse_ip4 s \<noteq> None \<or> parse_ip6 s \<noteq> None"

definition mail_address_exact :: "string \<Rightarrow> bool" where
  "mail_address_exact s =
     (case cut CHR ''@'' s of
        (_, None) \<Rightarrow> False
      | (loc, Some domn) \<Rightarrow> is_dot_atom loc \<and>
          (is_dot_atom domn \<or> has_prefix domn ''['' \<and> has_suffix domn '']'' \<and> is_ip (take (length domn - 2) (drop 1 domn))))"

section \<open>Request URIs\<close>

text \<open>\<open>url.ParseRequestURI\<close>: like \<open>url.Parse\<close>, but without a fragment and only absolute.\<close>

definition url_parse_request :: "string \<Rightarrow> url option" where
  "url_parse_request raw =
     (if raw = [] \<or> list_ex (\<lambda>c. (of_char c :: int) < 32 \<or> c = CHR 0x7F) raw then None
      else if raw = ''*'' then Some \<lparr>url_Scheme = [], url_User = False, url_Host = [], url_Path = ''*'', url_RawQuery = []\<rparr>
      else case getScheme raw of
        None \<Rightarrow> None
      | Some (sch, rest0) \<Rightarrow>
          (let (rest, q) = (case cut CHR ''?'' rest0 of (r, None) \<Rightarrow> (r, []) | (r, Some q) \<Rightarrow> (r, q));
               scheme = to_lower sch;
               plain = (\<lambda>usr host path. map_option (\<lambda>p. \<lparr>url_Scheme = scheme, url_User = usr, url_Host = host,
                          url_Path = p, url_RawQuery = q\<rparr>) (path_unescape path))
           in if \<not> has_prefix rest ''/''
              then (if scheme \<noteq> [] then Some \<lparr>url_Scheme = scheme, url_User = False, url_Host = [], url_Path = [], url_RawQuery = q\<rparr>
                    else None)
              else if scheme \<noteq> [] \<and> has_prefix rest ''//''
              then (let body = drop 2 rest; auth = fst (cut CHR ''/'' body) in
                    case parseAuthority auth of
                      None \<Rightarrow> None
                    | Some (usr, host) \<Rightarrow> plain usr host (drop (length auth) body))
              else plain False [] rest))"

end
