(* ===== verification/Go_Sort.thy ===== *)
theory Go_Sort
  imports Go_Prelude "HOL-Library.Multiset"
begin

text \<open>
  \<open>sort.Slice\<close> and \<open>sort.SliceStable\<close> with a \<open>less\<close> function, as an insertion sort that keeps
  equal elements in their order. \<open>sort.Slice\<close> may arrange equal elements differently; the
  lemmas that matter hold of every arrangement.
\<close>

fun insert_by :: "('a \<Rightarrow> 'a \<Rightarrow> bool) \<Rightarrow> 'a \<Rightarrow> 'a list \<Rightarrow> 'a list" where
  "insert_by lt x [] = [x]"
| "insert_by lt x (y # ys) = (if lt x y then x # y # ys else y # insert_by lt x ys)"

definition sort_by :: "('a \<Rightarrow> 'a \<Rightarrow> bool) \<Rightarrow> 'a list \<Rightarrow> 'a list" where
  "sort_by lt xs = foldl (\<lambda>acc x. insert_by lt x acc) [] xs"

lemma mset_insert_by [simp]: "mset (insert_by lt x ys) = add_mset x (mset ys)"
  by (induction ys) simp_all

lemma mset_sort_by [simp]: "mset (sort_by lt xs) = mset xs"
proof -
  have "mset (foldl (\<lambda>acc x. insert_by lt x acc) ys xs) = mset ys + mset xs" for ys
    by (induction xs arbitrary: ys) simp_all
  then show ?thesis by (simp add: sort_by_def)
qed

lemma set_sort_by [simp]: "set (sort_by lt xs) = set xs"
  using mset_sort_by by (metis set_mset_mset)

lemma length_sort_by [simp]: "length (sort_by lt xs) = length xs"
  using mset_sort_by by (metis size_mset)

lemma distinct_sort_by [simp]: "distinct (map f (sort_by lt xs)) = distinct (map f xs)"
proof -
  have "mset (map f (sort_by lt xs)) = mset (map f xs)" by simp
  then show ?thesis by (rule mset_eq_imp_distinct_iff)
qed

lemma sort_by_Nil [simp]: "sort_by lt [] = []"
  by (simp add: sort_by_def)

text \<open>A strict weak order: what \<open>sort\<close> asks of \<open>less\<close>.\<close>

definition weak_order :: "('a \<Rightarrow> 'a \<Rightarrow> bool) \<Rightarrow> bool" where
  "weak_order lt \<longleftrightarrow> (\<forall>a b. lt a b \<longrightarrow> \<not> lt b a) \<and> (\<forall>a b c. \<not> lt a b \<longrightarrow> \<not> lt b c \<longrightarrow> \<not> lt a c)"

lemma weak_order_asym: "weak_order lt \<Longrightarrow> lt a b \<Longrightarrow> \<not> lt b a"
  unfolding weak_order_def by blast

lemma weak_order_trans: "weak_order lt \<Longrightarrow> \<not> lt a b \<Longrightarrow> \<not> lt b c \<Longrightarrow> \<not> lt a c"
  unfolding weak_order_def by blast

text \<open>Comparing by a key of a linear order, and by two comparisons in turn.\<close>

lemma weak_order_key: "weak_order (\<lambda>a b. (f a :: 'k :: linorder) < f b)"
  unfolding weak_order_def by auto

lemma weak_order_key_rev: "weak_order (\<lambda>a b. (f b :: 'k :: linorder) < f a)"
  unfolding weak_order_def by auto

lemma weak_order_lex:
  assumes "weak_order lt"
  shows "weak_order (\<lambda>a b. if (f a :: 'k :: linorder) \<noteq> f b then f a < f b else lt a b)"
  unfolding weak_order_def
proof (intro conjI allI impI)
  fix a b
  assume "if f a \<noteq> f b then f a < f b else lt a b"
  then show "\<not> (if f b \<noteq> f a then f b < f a else lt b a)"
    using weak_order_asym [OF assms] by (cases "f a = f b") auto
next
  fix a b c
  assume ab: "\<not> (if f a \<noteq> f b then f a < f b else lt a b)" and bc: "\<not> (if f b \<noteq> f c then f b < f c else lt b c)"
  have "f b \<le> f a" "f c \<le> f b" using ab bc by (auto split: if_splits)
  moreover have "\<not> lt a c" if "f a = f c"
    using that ab bc weak_order_trans [OF assms, of a b c] \<open>f b \<le> f a\<close> \<open>f c \<le> f b\<close> by auto
  ultimately show "\<not> (if f a \<noteq> f c then f a < f c else lt a c)" by auto
qed

abbreviation sorted_by :: "('a \<Rightarrow> 'a \<Rightarrow> bool) \<Rightarrow> 'a list \<Rightarrow> bool" where
  "sorted_by lt \<equiv> sorted_wrt (\<lambda>x y. \<not> lt y x)"

lemma set_insert_by [simp]: "set (insert_by lt x ys) = insert x (set ys)"
  by (induction ys) auto

lemma sorted_insert_by:
  assumes "weak_order lt" "sorted_by lt ys"
  shows "sorted_by lt (insert_by lt x ys)"
  using assms(2)
proof (induction ys)
  case (Cons y ys)
  show ?case
  proof (cases "lt x y")
    case True
    then have xy: "\<not> lt y x" by (rule weak_order_asym [OF assms(1)])
    have "\<not> lt z x" if "z \<in> set ys" for z
    proof -
      have "\<not> lt z y" using that Cons.prems by simp
      then show ?thesis using xy by (rule weak_order_trans [OF assms(1)])
    qed
    then show ?thesis using True xy Cons.prems by simp
  next
    case False
    then show ?thesis using Cons by auto
  qed
qed simp

lemma sorted_sort_by:
  assumes "weak_order lt"
  shows "sorted_by lt (sort_by lt xs)"
proof -
  have "sorted_by lt (foldl (\<lambda>acc x. insert_by lt x acc) ys xs)" if "sorted_by lt ys" for ys
    using that by (induction xs arbitrary: ys) (simp_all add: sorted_insert_by [OF assms])
  then show ?thesis by (simp add: sort_by_def)
qed

text \<open>With a total order on the elements the sorted list is the only one.\<close>

lemma sorted_by_unique:
  assumes w: "weak_order lt"
    and "sorted_by lt xs" "sorted_by lt ys" "mset xs = mset ys"
    and "\<And>a b. a \<in> set xs \<Longrightarrow> b \<in> set xs \<Longrightarrow> \<not> lt a b \<Longrightarrow> \<not> lt b a \<Longrightarrow> a = b"
  shows "xs = ys"
  using assms(2-)
proof (induction xs arbitrary: ys)
  case (Cons x xs)
  obtain y zs where ys: "ys = y # zs" using Cons.prems(3) by (cases ys) auto
  have s: "set ys = insert x (set xs)" using Cons.prems(3) by (metis list.simps(15) set_mset_mset)
  have i: "\<not> lt a a" for a using weak_order_asym [OF w, of a a] by blast
  have "\<not> lt y x" "\<not> lt x y"
  proof -
    have "y = x \<or> y \<in> set xs" using s ys by auto
    then show "\<not> lt y x" using Cons.prems(1) i by auto
    have "x = y \<or> x \<in> set zs" using s ys by auto
    then show "\<not> lt x y" using Cons.prems(2) i ys by auto
  qed
  then have "x = y" using Cons.prems(4) [of x y] s ys by auto
  moreover have "xs = zs" using Cons.IH [of zs] Cons.prems ys \<open>x = y\<close> by simp
  ultimately show ?case using ys by simp
qed simp

lemma sort_by_unique:
  assumes "weak_order lt" "mset ys = mset xs" "sorted_by lt ys"
    and "\<And>a b. a \<in> set xs \<Longrightarrow> b \<in> set xs \<Longrightarrow> \<not> lt a b \<Longrightarrow> \<not> lt b a \<Longrightarrow> a = b"
  shows "sort_by lt xs = ys"
  using sorted_by_unique [OF assms(1) sorted_sort_by [OF assms(1)] assms(3)] assms(2,4) by simp

end
