(* ===== verification/CV_Parser.thy ===== *)
theory CV_Parser
  imports Go_Sort Go_Net Ingest_NormProps Go_Base64 "HOL-Library.List_Lexorder"
begin

text \<open>
  Parsed CVs (\<open>internal/cv/parser.go\<close>, \<open>hosted.go\<close>): the normalization of what a parser returns,
  and the client of the hosted parsing service.
\<close>

section \<open>Parsed CVs\<close>

record EducationEntry =
  ed_Institution :: string
  ed_Degree :: string
  ed_Field :: string
  ed_StartYear :: string
  ed_EndYear :: string

record WorkEntry =
  wk_Company :: string
  wk_Title :: string
  wk_StartDate :: string
  wk_EndDate :: string

record ParsedCV =
  pc_FullName :: string
  pc_Email :: string
  pc_Phone :: string
  pc_Education :: "EducationEntry list"
  pc_WorkHistory :: "WorkEntry list"
  pc_Skills :: "string list"

section \<open>Normalization\<close>

definition phoneKeep :: "char \<Rightarrow> bool" where
  "phoneKeep c \<longleftrightarrow> is_digit c \<or> c = CHR ''+''"

definition phoneStrip :: rx where "phoneStrip = Ch (\<lambda>c. \<not> phoneKeep c)"

definition multiSpace :: rx where "multiSpace = rx_plus rx_space"

definition cv_collapse :: "string \<Rightarrow> string" where
  "cv_collapse s = replace_all multiSpace '' '' (trim_space s)"

definition normalizePhone :: "string \<Rightarrow> string" where
  "normalizePhone s0 =
     (let s = replace_all phoneStrip [] s0 in
      if s = [] then []
      else
        (let plus = has_prefix s ''+''; digits = filter (\<lambda>c. c \<noteq> CHR ''+'') s in
         if plus then CHR ''+'' # digits
         else if has_prefix digits ''62'' then CHR ''+'' # digits
         else if has_prefix digits ''0'' then ''+62'' @ trim_prefix digits ''0''
         else digits))"

definition normalizeEndYear :: "string \<Rightarrow> string" where
  "normalizeEndYear s0 =
     (let s = cv_collapse s0 in
      if to_lower s \<in> {''present'', ''sekarang'', ''current'', ''now'', ''-'', []} then [] else s)"

definition skillStep :: "string list \<Rightarrow> string \<Rightarrow> string list" where
  "skillStep out s0 =
     (let s = cv_collapse s0 in
      if s = [] then out else if to_lower s \<in> to_lower ` set out then out else out @ [s])"

definition skill_less :: "string \<Rightarrow> string \<Rightarrow> bool" where
  "skill_less a b \<longleftrightarrow> to_lower a < to_lower b"

definition normalizeSkills :: "string list \<Rightarrow> string list" where
  "normalizeSkills xs = sort_by skill_less (foldl skillStep [] xs)"

definition zeroEducation :: EducationEntry where
  "zeroEducation = \<lparr>ed_Institution = [], ed_Degree = [], ed_Field = [], ed_StartYear = [], ed_EndYear = []\<rparr>"

definition normalizeEducation :: "EducationEntry \<Rightarrow> EducationEntry" where
  "normalizeEducation e = \<lparr>ed_Institution = cv_collapse (ed_Institution e), ed_Degree = cv_collapse (ed_Degree e),
     ed_Field = cv_collapse (ed_Field e), ed_StartYear = cv_collapse (ed_StartYear e),
     ed_EndYear = normalizeEndYear (ed_EndYear e)\<rparr>"

definition zeroWork :: WorkEntry where
  "zeroWork = \<lparr>wk_Company = [], wk_Title = [], wk_StartDate = [], wk_EndDate = []\<rparr>"

definition normalizeWork :: "WorkEntry \<Rightarrow> WorkEntry" where
  "normalizeWork w = \<lparr>wk_Company = cv_collapse (wk_Company w), wk_Title = cv_collapse (wk_Title w),
     wk_StartDate = cv_collapse (wk_StartDate w), wk_EndDate = normalizeEndYear (wk_EndDate w)\<rparr>"

definition cv_normalize :: "ParsedCV \<Rightarrow> ParsedCV" where
  "cv_normalize p = \<lparr>pc_FullName = cv_collapse (pc_FullName p), pc_Email = to_lower (cv_collapse (pc_Email p)),
     pc_Phone = normalizePhone (pc_Phone p),
     pc_Education = filter (\<lambda>e. e \<noteq> zeroEducation) (map normalizeEducation (pc_Education p)),
     pc_WorkHistory = filter (\<lambda>w. w \<noteq> zeroWork) (map normalizeWork (pc_WorkHistory p)),
     pc_Skills = normalizeSkills (pc_Skills p)\<rparr>"

section \<open>The hosted parser\<close>

datatype parse_err = ParserUnavailable | ParseFailed

definition disabledParse :: "string \<Rightarrow> string \<Rightarrow> string \<Rightarrow> parse_err + ParsedCV" where
  "disabledParse dat filename contentType = Inl ParserUnavailable"

record hostedRequest =
  hq_Filename :: string
  hq_ContentType :: string
  hq_DocumentB64 :: string

text \<open>The decoded \<open>data\<close> object; the entries have the fields of the entries of a parsed CV.\<close>

record hostedResponse =
  hr_Name :: string
  hr_Email :: string
  hr_Phone :: string
  hr_Education :: "EducationEntry list"
  hr_WorkHistory :: "WorkEntry list"
  hr_Skills :: "string list"

definition toParsedCV :: "hostedResponse \<Rightarrow> ParsedCV" where
  "toParsedCV h = cv_normalize \<lparr>pc_FullName = hr_Name h, pc_Email = hr_Email h, pc_Phone = hr_Phone h,
     pc_Education = hr_Education h, pc_WorkHistory = hr_WorkHistory h, pc_Skills = hr_Skills h\<rparr>"

text \<open>
  \<open>call\<close> is the HTTP round trip for a request body and the authorization header, if any:
  an error, or the status and the decoded body, \<open>None\<close> when it does not decode.
\<close>

record HostedParser =
  hp_endpoint :: string
  hp_apiKey :: string
  hp_call :: "hostedRequest \<Rightarrow> string option \<Rightarrow> (nat \<times> hostedResponse option) option"

definition secureParserURL :: "url \<Rightarrow> bool" where
  "secureParserURL u \<longleftrightarrow> url_Scheme u = ''https'' \<or> url_Hostname u = ''localhost'' \<or>
     url_Hostname u = ''127.0.0.1'' \<or> url_Hostname u = ''::1''"

text \<open>
  The redirect policy of the client, \<open>existing\<close> being that of the client it was cloned from;
  the result tells whether the redirect is followed.
\<close>

definition cvCheckRedirect :: "(string \<Rightarrow> nat \<Rightarrow> bool) option \<Rightarrow> string \<Rightarrow> nat \<Rightarrow> bool" where
  "cvCheckRedirect existing scheme via =
     (if scheme \<noteq> ''https'' then False
      else case existing of Some f \<Rightarrow> f scheme via | None \<Rightarrow> via < 10)"

definition HostedParse :: "HostedParser \<Rightarrow> string \<Rightarrow> string \<Rightarrow> string \<Rightarrow> parse_err + ParsedCV" where
  "HostedParse h dat filename contentType =
     (if hp_endpoint h = [] then Inl ParserUnavailable
      else case url_parse (hp_endpoint h) of
        None \<Rightarrow> Inl ParseFailed
      | Some u \<Rightarrow>
          if url_Scheme u = [] \<or> url_Host u = [] then Inl ParseFailed
          else if \<not> secureParserURL u then Inl ParseFailed
          else case hp_call h \<lparr>hq_Filename = filename, hq_ContentType = contentType, hq_DocumentB64 = std_encode dat\<rparr>
                    (if hp_apiKey h \<noteq> [] then Some (''Bearer '' @ hp_apiKey h) else None) of
            None \<Rightarrow> Inl ParseFailed
          | Some (code, body) \<Rightarrow>
              if code \<noteq> 200 then Inl ParseFailed
              else (case body of None \<Rightarrow> Inl ParseFailed | Some r \<Rightarrow> Inr (toParsedCV r)))"

section \<open>Normalizing twice\<close>

lemma cv_collapse_is [simp]: "cv_collapse s = collapse s"
  by (simp add: cv_collapse_def multiSpace_def collapse_def wsRe_def)

lemma replace_from_del: "replace_from (Ch P) [] q s = filter (\<lambda>c. \<not> P c) s"
  by (induction s arbitrary: q) (simp_all add: replace_from.simps first_end_def)

lemma phone_filter: "replace_all phoneStrip [] s = filter phoneKeep s"
  by (simp add: replace_all_def phoneStrip_def replace_from_del)

lemma re_space_lower [simp]: "re_space (lower_char c) = re_space c"
proof -
  have "re_space c \<longleftrightarrow> (of_char c :: nat) \<in> {32, 9, 10, 12, 13}" for c
    unfolding re_space_def
    by (auto simp: of_char_eq_iff [symmetric, where ?'a = nat] simp del: of_char_eq_iff)
  then show ?thesis by (auto simp: lower_char_def)
qed

lemma squeeze_lower: "(\<And>c. P (lower_char c) = P c) \<Longrightarrow> squeeze P (to_lower s) = to_lower (squeeze P s)"
proof (induction P s rule: squeeze.induct)
  case (2 P c cs)
  have "dropWhile P (map lower_char cs) = map lower_char (dropWhile P cs)"
    by (simp add: dropWhile_map comp_def 2(3))
  then show ?case using 2 by (auto simp: to_lower_def lower_char_def)
qed (simp add: to_lower_def)

lemma collapse_lower: "collapse (to_lower s) = to_lower (collapse s)"
  by (simp add: collapse_squeeze trim_space_lower squeeze_lower)

lemma collapse_Nil [simp]: "collapse [] = []"
  by (simp add: collapse_squeeze trim_space_def trim_left_def trim_right_def)

lemma endYear_idem [simp]: "normalizeEndYear (normalizeEndYear s) = normalizeEndYear s"
  by (simp add: normalizeEndYear_def Let_def to_lower_def)

lemma education_idem [simp]: "normalizeEducation (normalizeEducation e) = normalizeEducation e"
  by (simp add: normalizeEducation_def)

lemma work_idem [simp]: "normalizeWork (normalizeWork w) = normalizeWork w"
  by (simp add: normalizeWork_def)

lemma phone_idem: "normalizePhone (normalizePhone s) = normalizePhone s"
proof -
  define d where "d = filter (\<lambda>c. c \<noteq> CHR ''+'') (filter phoneKeep s)"
  have d: "filter phoneKeep xs = xs" "filter (\<lambda>c. c \<noteq> CHR ''+'') xs = xs" if "set xs \<subseteq> set d" for xs
    using that by (auto simp: d_def intro!: filter_True)
  have "set (tl d) \<subseteq> set d" by (cases d) auto
  note d = d [of d, OF subset_refl] d [of "tl d", OF this]
  have p: "phoneKeep CHR ''+''" "phoneKeep CHR ''6''" "phoneKeep CHR ''2''" by (simp_all add: phoneKeep_def is_digit_def)
  have n: "\<not> has_prefix d ''+''" using hd_in_set [of d] by (cases d) (auto simp: has_prefix_def d_def)
  have "normalizePhone s = (if filter phoneKeep s = [] then []
      else if has_prefix (filter phoneKeep s) ''+'' \<or> has_prefix d ''62'' then CHR ''+'' # d
      else if has_prefix d ''0'' then ''+62'' @ tl d else d)"
    by (simp add: normalizePhone_def phone_filter Let_def trim_prefix_def drop_Suc d_def del: filter_filter)
  then consider (a) "filter phoneKeep s = []" "normalizePhone s = []"
    | (b) "normalizePhone s = CHR ''+'' # d" | (c) "normalizePhone s = ''+62'' @ tl d"
    | (d) "normalizePhone s = d" "\<not> has_prefix d ''62''" "\<not> has_prefix d ''0''"
    by (auto split: if_split_asm)
  then show ?thesis
  proof cases
    case a
    then show ?thesis by (simp add: normalizePhone_def phone_filter)
  next
    case d
    then show ?thesis using \<open>filter phoneKeep d = d\<close> \<open>filter (\<lambda>c. c \<noteq> CHR ''+'') d = d\<close> n
      by (simp add: normalizePhone_def [of d] phone_filter Let_def)
  qed (simp_all add: normalizePhone_def [of "_ # _"] phone_filter Let_def has_prefix_def d p)
qed

text \<open>The skills after normalization: collapsed, not blank, and distinct up to case.\<close>

definition skills_ok :: "string list \<Rightarrow> bool" where
  "skills_ok xs \<longleftrightarrow> distinct (map to_lower xs) \<and> list_all (\<lambda>x. collapse x = x \<and> x \<noteq> []) xs"

lemma skills_fold_ok: "skills_ok out \<Longrightarrow> skills_ok (foldl skillStep out xs)"
proof (induction xs arbitrary: out)
  case (Cons x xs)
  have "skills_ok (skillStep out x)" using Cons.prems by (auto simp: skills_ok_def skillStep_def Let_def)
  then show ?case using Cons.IH by simp
qed simp

lemma skills_fold_id: "skills_ok (out @ xs) \<Longrightarrow> foldl skillStep out xs = out @ xs"
proof (induction xs arbitrary: out)
  case (Cons x xs)
  have "skillStep out x = out @ [x]" using Cons.prems by (auto simp: skills_ok_def skillStep_def Let_def)
  then show ?case using Cons by simp
qed simp

lemma skill_order: "weak_order skill_less"
  unfolding skill_less_def by (rule weak_order_key)

lemma skills_ok_normalize: "skills_ok (normalizeSkills xs)"
proof -
  have "skills_ok (foldl skillStep [] xs)" by (rule skills_fold_ok) (simp add: skills_ok_def)
  then show ?thesis by (simp add: skills_ok_def normalizeSkills_def list_all_iff)
qed

lemma skills_sorted: "sorted_by skill_less (normalizeSkills xs)"
  unfolding normalizeSkills_def by (rule sorted_sort_by [OF skill_order])

lemma skills_unique:
  assumes "skills_ok ys" "mset zs = mset ys" "sorted_by skill_less zs"
  shows "sort_by skill_less ys = zs"
proof (rule sort_by_unique [OF skill_order assms(2,3)])
  fix a b
  assume "a \<in> set ys" "b \<in> set ys" "\<not> skill_less a b" "\<not> skill_less b a"
  then show "a = b" using assms(1) by (auto simp: skill_less_def skills_ok_def distinct_map dest: inj_onD)
qed

lemma skills_idem: "normalizeSkills (normalizeSkills xs) = normalizeSkills xs"
  using skills_fold_id [of "[]" "normalizeSkills xs"] skills_ok_normalize [of xs] skills_sorted [of xs]
    skills_unique [of "normalizeSkills xs" "normalizeSkills xs"]
  by (simp add: normalizeSkills_def [of "normalizeSkills xs"])

text \<open>
  Normalizing a parsed CV twice is the same as once, and a normalized CV has no blank
  entry, and skills that are sorted and distinct up to case.
\<close>

theorem cv_normalize_canonical:
  "cv_normalize (cv_normalize p) = cv_normalize p \<and> zeroEducation \<notin> set (pc_Education (cv_normalize p)) \<and>
   zeroWork \<notin> set (pc_WorkHistory (cv_normalize p)) \<and> distinct (map to_lower (pc_Skills (cv_normalize p))) \<and>
   sorted (map to_lower (pc_Skills (cv_normalize p)))"
proof -
  have m: "map f (filter P (map f xs)) = filter P (map f xs)" if "\<And>x. f (f x) = f x" for f :: "'a \<Rightarrow> 'a" and P xs
    using that by (induction xs) auto
  have "sorted (map to_lower (normalizeSkills (pc_Skills p)))"
    using skills_sorted [of "pc_Skills p"] by (simp add: skill_less_def sorted_wrt_map not_less)
  then show ?thesis
    using skills_ok_normalize [of "pc_Skills p"]
    by (simp add: cv_normalize_def m collapse_lower phone_idem skills_idem skills_ok_def)
qed

text \<open>
  The hosted parser is called only at an https endpoint or on the machine itself, and
  what it answers is normalized.
\<close>

lemma hosted_parse_secure:
  assumes "HostedParse h dat filename contentType = Inr p"
  shows "(\<exists>u. url_parse (hp_endpoint h) = Some u \<and> secureParserURL u \<and> url_Host u \<noteq> []) \<and> cv_normalize p = p \<and>
    (\<exists>r. hp_call h \<lparr>hq_Filename = filename, hq_ContentType = contentType, hq_DocumentB64 = std_encode dat\<rparr>
      (if hp_apiKey h \<noteq> [] then Some (''Bearer '' @ hp_apiKey h) else None) = Some (200, Some r) \<and> p = toParsedCV r)"
  using assms cv_normalize_canonical
  by (auto simp: HostedParse_def toParsedCV_def split: if_splits option.splits)

end
