(* ===== verification/CV_Store.thy ===== *)
theory CV_Store
  imports Go_Sort
begin

text \<open>
  CV metadata (\<open>internal/cv/repo.go\<close>, \<open>memrepo.go\<close>): the interfaces \<open>Repo\<close> and \<open>VersionRepo\<close>
  as a record of operations, their contract, and the in-memory repository.
\<close>

datatype cv_err = CvNotFound | CvOther

record cvFile =
  fl_ID :: string
  fl_UserID :: string
  fl_ObjectKey :: string
  fl_Filename :: string
  fl_Label :: string
  fl_IsPrimary :: bool
  fl_ContentType :: string
  fl_SizeBytes :: int
  fl_CreatedAt :: time

text \<open>\<open>rp_UpdateVersion\<close> is \<open>None\<close> for a repository that is no \<open>VersionRepo\<close>.\<close>

record 's cvRepo =
  rp_CreateFile :: "'s \<Rightarrow> cvFile \<Rightarrow> 's \<times> (cv_err + cvFile)"
  rp_FileByID :: "'s \<Rightarrow> string \<Rightarrow> cv_err + cvFile"
  rp_FilesByUser :: "'s \<Rightarrow> string \<Rightarrow> cv_err + cvFile list"
  rp_DeleteByUser :: "'s \<Rightarrow> string \<Rightarrow> 's \<times> cv_err option"
  rp_UpdateVersion :: "('s \<Rightarrow> string \<Rightarrow> string \<Rightarrow> string \<Rightarrow> bool option \<Rightarrow> 's \<times> (cv_err + cvFile)) option"

section \<open>The in-memory repository\<close>

record cvMem =
  cm_files :: "(string, cvFile) gomap"
  cm_uuid :: "nat \<Rightarrow> string"
  cm_uuids :: nat
  cm_now :: "nat \<Rightarrow> time"
  cm_ticks :: nat

definition NewCVMemory :: "(nat \<Rightarrow> string) \<Rightarrow> (nat \<Rightarrow> time) \<Rightarrow> cvMem" where
  "NewCVMemory uuid now = \<lparr>cm_files = [], cm_uuid = uuid, cm_uuids = 0, cm_now = now, cm_ticks = 0\<rparr>"

definition demote :: "string \<Rightarrow> (string, cvFile) gomap \<Rightarrow> (string, cvFile) gomap" where
  "demote userID = gmap (\<lambda>_ f. if fl_UserID f = userID then f\<lparr>fl_IsPrimary := False\<rparr> else f)"

definition cm_CreateFile :: "cvMem \<Rightarrow> cvFile \<Rightarrow> cvMem \<times> (cv_err + cvFile)" where
  "cm_CreateFile m f0 =
     (let f1 = f0\<lparr>fl_ID := cm_uuid m (cm_uuids m)\<rparr>;
          m1 = m\<lparr>cm_uuids := Suc (cm_uuids m)\<rparr>;
          f2 = (if fl_Label f1 = [] then f1\<lparr>fl_Label := fl_Filename f1\<rparr> else f1);
          (m2, f3) = (if is_zero_time (fl_CreatedAt f2)
                      then (m1\<lparr>cm_ticks := Suc (cm_ticks m1)\<rparr>, f2\<lparr>fl_CreatedAt := cm_now m1 (cm_ticks m1)\<rparr>)
                      else (m1, f2));
          f4 = (if \<not> fl_IsPrimary f3
                then f3\<lparr>fl_IsPrimary := \<not> list_ex (\<lambda>e. fl_UserID e = fl_UserID f3 \<and> fl_IsPrimary e) (gvals (cm_files m2))\<rparr>
                else f3);
          files = (if fl_IsPrimary f4 then demote (fl_UserID f4) (cm_files m2) else cm_files m2)
      in (m2\<lparr>cm_files := gput (fl_ID f4) f4 files\<rparr>, Inr f4))"

definition cm_FileByID :: "cvMem \<Rightarrow> string \<Rightarrow> cv_err + cvFile" where
  "cm_FileByID m i = (case gget (cm_files m) i of None \<Rightarrow> Inl CvNotFound | Some f \<Rightarrow> Inr f)"

definition newer_first :: "cvFile \<Rightarrow> cvFile \<Rightarrow> bool" where
  "newer_first a b = (if fl_IsPrimary a \<noteq> fl_IsPrimary b then fl_IsPrimary a else after (fl_CreatedAt a) (fl_CreatedAt b))"

definition cm_FilesByUser :: "cvMem \<Rightarrow> string \<Rightarrow> cv_err + cvFile list" where
  "cm_FilesByUser m userID = Inr (sort_by newer_first (filter (\<lambda>f. fl_UserID f = userID) (gvals (cm_files m))))"

definition cm_UpdateVersion :: "cvMem \<Rightarrow> string \<Rightarrow> string \<Rightarrow> string \<Rightarrow> bool option \<Rightarrow> cvMem \<times> (cv_err + cvFile)" where
  "cm_UpdateVersion m userID i label prim =
     (case gget (cm_files m) i of
        None \<Rightarrow> (m, Inl CvNotFound)
      | Some f0 \<Rightarrow>
          if fl_UserID f0 \<noteq> userID then (m, Inl CvNotFound)
          else
            (let f1 = (if trim_space label \<noteq> [] then f0\<lparr>fl_Label := trim_space label\<rparr> else f0);
                 (f2, files) = (case prim of
                     Some True \<Rightarrow> (f1\<lparr>fl_IsPrimary := True\<rparr>,
                       gmap (\<lambda>k e. if fl_UserID e = userID then e\<lparr>fl_IsPrimary := (k = i)\<rparr> else e) (cm_files m))
                   | Some False \<Rightarrow> (f1\<lparr>fl_IsPrimary := False\<rparr>, cm_files m)
                   | None \<Rightarrow> (f1, cm_files m))
             in (m\<lparr>cm_files := gput i f2 files\<rparr>, Inr f2)))"

definition cm_DeleteByUser :: "cvMem \<Rightarrow> string \<Rightarrow> cvMem \<times> cv_err option" where
  "cm_DeleteByUser m userID = (m\<lparr>cm_files := gdel_if (\<lambda>_ f. fl_UserID f = userID) (cm_files m)\<rparr>, None)"

definition cvMemOps :: "cvMem cvRepo" where
  "cvMemOps = \<lparr>rp_CreateFile = cm_CreateFile, rp_FileByID = cm_FileByID, rp_FilesByUser = cm_FilesByUser,
     rp_DeleteByUser = cm_DeleteByUser, rp_UpdateVersion = Some cm_UpdateVersion\<rparr>"

section \<open>The contract\<close>

text \<open>
  The rows by id. Selecting a primary CV demotes the user's others, so rows are compared up
  to their \<open>IsPrimary\<close> flag.
\<close>

definition unflag :: "cvFile \<Rightarrow> cvFile" where
  "unflag f = f\<lparr>fl_IsPrimary := False\<rparr>"

definition one_primary :: "(string \<Rightarrow> cvFile option) \<Rightarrow> bool" where
  "one_primary v \<longleftrightarrow> (\<forall>i f j g. v i = Some f \<longrightarrow> v j = Some g \<longrightarrow> fl_UserID f = fl_UserID g \<longrightarrow>
     fl_IsPrimary f \<longrightarrow> fl_IsPrimary g \<longrightarrow> i = j)"

locale cv_repo =
  fixes R :: "'s cvRepo" and rinv :: "'s \<Rightarrow> bool" and rows :: "'s \<Rightarrow> string \<Rightarrow> cvFile option"
  assumes rows_ok: "rinv s \<Longrightarrow> one_primary (rows s) \<and> (\<forall>i f. rows s i = Some f \<longrightarrow> fl_ID f = i)"
    and FileByID: "rinv s \<Longrightarrow> rp_FileByID R s i = Inr f \<Longrightarrow> rows s i = Some f"
    and FilesByUser: "rinv s \<Longrightarrow> rp_FilesByUser R s u = Inr fs \<Longrightarrow>
      set fs = {f. \<exists>i. rows s i = Some f \<and> fl_UserID f = u} \<and> sorted_by newer_first fs \<and> distinct (map fl_ID fs)"
    and CreateFile_ok: "rinv s \<Longrightarrow> rp_CreateFile R s f = (s', Inr g) \<Longrightarrow>
      rinv s' \<and> rows s (fl_ID g) = None \<and> rows s' (fl_ID g) = Some g \<and> fl_UserID g = fl_UserID f \<and>
      fl_ObjectKey g = fl_ObjectKey f \<and> fl_ContentType g = fl_ContentType f \<and> fl_SizeBytes g = fl_SizeBytes f \<and>
      (\<forall>i. i \<noteq> fl_ID g \<longrightarrow> map_option unflag (rows s' i) = map_option unflag (rows s i)) \<and>
      (\<forall>i h. rows s i = Some h \<longrightarrow> fl_UserID h \<noteq> fl_UserID f \<longrightarrow> rows s' i = Some h)"
    and CreateFile_err: "rinv s \<Longrightarrow> rp_CreateFile R s f = (s', Inl e) \<Longrightarrow> rinv s' \<and> rows s' = rows s"
    and DeleteByUser_ok: "rinv s \<Longrightarrow> rp_DeleteByUser R s u = (s', None) \<Longrightarrow>
      rinv s' \<and> rows s' = (\<lambda>i. case rows s i of None \<Rightarrow> None | Some f \<Rightarrow> if fl_UserID f = u then None else Some f)"
    and DeleteByUser_err: "rinv s \<Longrightarrow> rp_DeleteByUser R s u = (s', Some e) \<Longrightarrow> rinv s' \<and> rows s' = rows s"

section \<open>The in-memory repository keeps it\<close>

definition cm_inv :: "cvMem \<Rightarrow> bool" where
  "cm_inv m \<longleftrightarrow> inj (cm_uuid m) \<and> gok (cm_files m) \<and> one_primary (gget (cm_files m)) \<and>
     (\<forall>i f. gget (cm_files m) i = Some f \<longrightarrow> fl_ID f = i \<and> i \<in> cm_uuid m ` {..<cm_uuids m})"

lemma newer_first_order: "weak_order newer_first"
proof -
  have eq: "newer_first = (\<lambda>a b. if (\<not> fl_IsPrimary a) \<noteq> (\<not> fl_IsPrimary b) then (\<not> fl_IsPrimary a) < (\<not> fl_IsPrimary b)
      else fl_CreatedAt b < fl_CreatedAt a)"
    by (auto simp: newer_first_def fun_eq_iff after_def)
  show ?thesis unfolding eq by (rule weak_order_lex [OF weak_order_key_rev, of "\<lambda>f. \<not> fl_IsPrimary f" fl_CreatedAt])
qed

lemma demote_get: "gget (demote u m) i = map_option (\<lambda>f. if fl_UserID f = u then f\<lparr>fl_IsPrimary := False\<rparr> else f) (gget m i)"
  by (simp add: demote_def)

lemma cm_inv_new: "inj uuid \<Longrightarrow> cm_inv (NewCVMemory uuid now)"
  by (simp add: cm_inv_def NewCVMemory_def one_primary_def)

text \<open>A new row, and what becomes of the others when it is the primary one.\<close>

lemma create_file:
  assumes "cm_CreateFile m f = (m', Inr g)"
  shows "fl_ID g = cm_uuid m (cm_uuids m)" "cm_uuid m' = cm_uuid m" "cm_uuids m' = Suc (cm_uuids m)"
    "fl_UserID g = fl_UserID f" "fl_ObjectKey g = fl_ObjectKey f" "fl_ContentType g = fl_ContentType f"
    "fl_SizeBytes g = fl_SizeBytes f"
    "cm_files m' = gput (fl_ID g) g (if fl_IsPrimary g then demote (fl_UserID f) (cm_files m) else cm_files m)"
    "fl_IsPrimary g \<or> list_ex (\<lambda>e. fl_UserID e = fl_UserID f \<and> fl_IsPrimary e) (gvals (cm_files m))"
  using assms by (auto simp: cm_CreateFile_def Let_def split: if_splits)

lemma cm_inv_create:
  assumes "cm_inv m" "cm_CreateFile m f = (m', Inr g)"
  shows "cm_inv m'" "gget (cm_files m) (fl_ID g) = None"
proof -
  note c = create_file [OF assms(2)]
  show n: "gget (cm_files m) (fl_ID g) = None"
  proof (rule ccontr)
    assume "gget (cm_files m) (fl_ID g) \<noteq> None"
    then have "fl_ID g \<in> cm_uuid m ` {..<cm_uuids m}" using assms(1) by (auto simp: cm_inv_def)
    then show False using assms(1) c(1) by (auto simp: cm_inv_def inj_def)
  qed
  let ?old = "if fl_IsPrimary g then demote (fl_UserID f) (cm_files m) else cm_files m"
  have old: "\<exists>h'. gget (cm_files m) i = Some h' \<and>
      h = (if fl_IsPrimary g \<and> fl_UserID h' = fl_UserID f then h'\<lparr>fl_IsPrimary := False\<rparr> else h')"
    if "gget ?old i = Some h" for i h
    using that by (auto simp: demote_get split: if_splits)
  have new: "gget (cm_files m') i = (if i = fl_ID g then Some g else gget ?old i)" for i
    unfolding c(8) by simp
  have quiet: "\<not> (fl_IsPrimary a \<and> fl_IsPrimary g \<and> fl_UserID a = fl_UserID g)" if q: "gget ?old i = Some a" for i a
  proof -
    obtain h where "a = (if fl_IsPrimary g \<and> fl_UserID h = fl_UserID f then h\<lparr>fl_IsPrimary := False\<rparr> else h)"
      using old [OF q] by blast
    then show ?thesis using c(4) by (cases "fl_UserID h = fl_UserID f") simp_all
  qed
  have was: "gget (cm_files m) i = Some a" if "gget ?old i = Some a" "fl_IsPrimary a" for i a
    using old [OF that(1)] that(2) by (auto split: if_splits)
  have "gok ?old" using assms(1) by (simp add: cm_inv_def demote_def)
  moreover have "one_primary (gget (cm_files m'))"
    unfolding one_primary_def
  proof (intro allI impI)
    fix i a j b
    assume a: "gget (cm_files m') i = Some a" "gget (cm_files m') j = Some b" "fl_UserID a = fl_UserID b"
      "fl_IsPrimary a" "fl_IsPrimary b"
    have ij: "i = fl_ID g \<and> a = g \<or> gget ?old i = Some a" "j = fl_ID g \<and> b = g \<or> gget ?old j = Some b"
      using a(1,2) new [of i] new [of j] by (cases "i = fl_ID g"; cases "j = fl_ID g"; simp)+
    consider "i = fl_ID g" "j = fl_ID g" | "i = fl_ID g" "a = g" "gget ?old j = Some b"
      | "j = fl_ID g" "b = g" "gget ?old i = Some a" | "gget ?old i = Some a" "gget ?old j = Some b"
      using ij by blast
    then show "i = j"
    proof cases
      case 2 then show ?thesis using quiet [OF 2(3)] a(3-5) by simp
    next
      case 3 then show ?thesis using quiet [OF 3(3)] a(3-5) by simp
    next
      case 4
      have "gget (cm_files m) i = Some a" "gget (cm_files m) j = Some b"
        using was [OF 4(1) a(4)] was [OF 4(2) a(5)] .
      then show ?thesis using a(3-5) assms(1) unfolding cm_inv_def one_primary_def by blast
    qed simp
  qed
  moreover have "fl_ID h = i \<and> i \<in> cm_uuid m' ` {..<cm_uuids m'}" if "gget (cm_files m') i = Some h" for i h
  proof (cases "i = fl_ID g")
    case True
    then show ?thesis using that new c(1-3) by simp
  next
    case False
    then have "gget ?old i = Some h" using that new [of i] by simp
    from old [OF this] obtain h' where h: "gget (cm_files m) i = Some h'"
      "h = (if fl_IsPrimary g \<and> fl_UserID h' = fl_UserID f then h'\<lparr>fl_IsPrimary := False\<rparr> else h')" by blast
    have "fl_ID h = fl_ID h'" unfolding h(2) by simp
    with h(1) have "fl_ID h = i" "i \<in> cm_uuid m ` {..<cm_uuids m}" using assms(1) by (auto simp: cm_inv_def)
    then show ?thesis using c(2,3) by (auto simp: less_Suc_eq)
  qed
  moreover have "gok (cm_files m')" unfolding c(8) using \<open>gok ?old\<close> by simp
  ultimately show "cm_inv m'" using assms(1) c(2) by (simp add: cm_inv_def)
qed

lemma create_rows:
  assumes "cm_inv m" "cm_CreateFile m f = (m', Inr g)"
  shows "\<forall>i. i \<noteq> fl_ID g \<longrightarrow> map_option unflag (gget (cm_files m') i) = map_option unflag (gget (cm_files m) i)"
    "\<forall>i h. gget (cm_files m) i = Some h \<longrightarrow> fl_UserID h \<noteq> fl_UserID f \<longrightarrow> gget (cm_files m') i = Some h"
    "gget (cm_files m') (fl_ID g) = Some g"
proof -
  note c = create_file [OF assms(2)]
  have u: "unflag (if fl_UserID x = fl_UserID f then x\<lparr>fl_IsPrimary := False\<rparr> else x) = unflag x" for x
    by (simp add: unflag_def)
  show "\<forall>i. i \<noteq> fl_ID g \<longrightarrow> map_option unflag (gget (cm_files m') i) = map_option unflag (gget (cm_files m) i)"
    unfolding c(8) by (auto simp: demote_get option.map_comp comp_def u)
  show "\<forall>i h. gget (cm_files m) i = Some h \<longrightarrow> fl_UserID h \<noteq> fl_UserID f \<longrightarrow> gget (cm_files m') i = Some h"
    unfolding c(8) using cm_inv_create(2) [OF assms] by (auto simp: demote_get)
  show "gget (cm_files m') (fl_ID g) = Some g" unfolding c(8) by simp
qed

interpretation cvmem: cv_repo cvMemOps cm_inv "\<lambda>m. gget (cm_files m)"
proof
  fix m m' :: cvMem and u i f g fs e
  assume inv: "cm_inv m"
  then have ok: "gok (cm_files m)" by (simp add: cm_inv_def)
  show "one_primary (gget (cm_files m)) \<and> (\<forall>i f. gget (cm_files m) i = Some f \<longrightarrow> fl_ID f = i)"
    using inv by (simp add: cm_inv_def)
  show "gget (cm_files m) i = Some f" if "rp_FileByID cvMemOps m i = Inr f"
    using that by (auto simp: cvMemOps_def cm_FileByID_def split: option.splits)
  show "set fs = {f. \<exists>i. gget (cm_files m) i = Some f \<and> fl_UserID f = u} \<and> sorted_by newer_first fs \<and> distinct (map fl_ID fs)"
    if "rp_FilesByUser cvMemOps m u = Inr fs"
  proof -
    have fs: "fs = sort_by newer_first (filter (\<lambda>f. fl_UserID f = u) (gvals (cm_files m)))"
      using that by (simp add: cvMemOps_def cm_FilesByUser_def)
    have k: "\<forall>(k, f)\<in>set (cm_files m). fl_ID f = k" using inv ok by (auto simp: cm_inv_def gget_mem)
    then have "map fl_ID (gvals (cm_files m)) = map fst (cm_files m)" by (auto simp: gvals_def)
    then have "distinct (map fl_ID (filter (\<lambda>f. fl_UserID f = u) (gvals (cm_files m))))"
      using ok distinct_map_filter [of fl_ID "gvals (cm_files m)"] by (simp add: gok_def)
    then show ?thesis using gvals_mem [OF ok] sorted_sort_by [OF newer_first_order] by (auto simp: fs)
  qed
  show "cm_inv m' \<and> gget (cm_files m) (fl_ID g) = None \<and> gget (cm_files m') (fl_ID g) = Some g \<and> fl_UserID g = fl_UserID f \<and>
      fl_ObjectKey g = fl_ObjectKey f \<and> fl_ContentType g = fl_ContentType f \<and> fl_SizeBytes g = fl_SizeBytes f \<and>
      (\<forall>i. i \<noteq> fl_ID g \<longrightarrow> map_option unflag (gget (cm_files m') i) = map_option unflag (gget (cm_files m) i)) \<and>
      (\<forall>i h. gget (cm_files m) i = Some h \<longrightarrow> fl_UserID h \<noteq> fl_UserID f \<longrightarrow> gget (cm_files m') i = Some h)"
    if "rp_CreateFile cvMemOps m f = (m', Inr g)"
  proof -
    have c: "cm_CreateFile m f = (m', Inr g)" using that by (simp add: cvMemOps_def)
    show ?thesis using cm_inv_create [OF inv c] create_rows [OF inv c] create_file(4-7) [OF c] by simp
  qed
  show "cm_inv m' \<and> gget (cm_files m') = gget (cm_files m)" if "rp_CreateFile cvMemOps m f = (m', Inl e)"
    using that by (simp add: cvMemOps_def cm_CreateFile_def Let_def split: prod.splits if_splits)
  show "cm_inv m' \<and> gget (cm_files m') = (\<lambda>i. case gget (cm_files m) i of None \<Rightarrow> None | Some f \<Rightarrow> if fl_UserID f = u then None else Some f)"
    if "rp_DeleteByUser cvMemOps m u = (m', None)"
  proof -
    have m': "m' = m\<lparr>cm_files := gdel_if (\<lambda>_ f. fl_UserID f = u) (cm_files m)\<rparr>"
      using that by (simp add: cvMemOps_def cm_DeleteByUser_def)
    have r: "gget (cm_files m') i = (case gget (cm_files m) i of None \<Rightarrow> None | Some f \<Rightarrow> if fl_UserID f = u then None else Some f)" for i
      using gget_del_if [OF ok] by (simp add: m')
    have s: "gget (cm_files m) i = Some f" if "gget (cm_files m') i = Some f" for i f
      using that unfolding r by (auto split: option.splits if_splits)
    have "one_primary (gget (cm_files m'))" "\<forall>i f. gget (cm_files m') i = Some f \<longrightarrow> fl_ID f = i \<and> i \<in> cm_uuid m ` {..<cm_uuids m}"
      using inv s unfolding cm_inv_def one_primary_def by blast+
    then have "cm_inv m'" using inv by (simp add: cm_inv_def m')
    then show ?thesis using r by auto
  qed
  show "cm_inv m' \<and> gget (cm_files m') = gget (cm_files m)" if "rp_DeleteByUser cvMemOps m u = (m', Some e)"
    using that by (simp add: cvMemOps_def cm_DeleteByUser_def)
qed

section \<open>Choosing a version\<close>

lemma update_version:
  assumes "cm_UpdateVersion m u i label prim = (m', Inr g)"
  shows "\<exists>f. gget (cm_files m) i = Some f \<and> fl_UserID f = u \<and> fl_UserID g = u \<and> fl_ID g = fl_ID f \<and>
    fl_IsPrimary g = (case prim of None \<Rightarrow> fl_IsPrimary f | Some b \<Rightarrow> b) \<and>
    m' = m\<lparr>cm_files := gput i g (if prim = Some True
       then gmap (\<lambda>k e. if fl_UserID e = u then e\<lparr>fl_IsPrimary := (k = i)\<rparr> else e) (cm_files m) else cm_files m)\<rparr>"
  using assms by (auto simp: cm_UpdateVersion_def Let_def split: option.splits bool.splits if_splits)

lemma update_version_err: "cm_UpdateVersion m u i label prim = (m', Inl e) \<Longrightarrow> m' = m \<and> e = CvNotFound"
  by (auto simp: cm_UpdateVersion_def Let_def split: option.splits bool.splits if_splits prod.splits)

lemma cm_inv_update:
  assumes "cm_inv m" "cm_UpdateVersion m u i label prim = (m', Inr g)"
  shows "cm_inv m'"
proof -
  from update_version [OF assms(2)] obtain f where f: "gget (cm_files m) i = Some f" "fl_UserID f = u" "fl_UserID g = u"
    "fl_ID g = fl_ID f" "fl_IsPrimary g = (case prim of None \<Rightarrow> fl_IsPrimary f | Some b \<Rightarrow> b)"
    "m' = m\<lparr>cm_files := gput i g (if prim = Some True
       then gmap (\<lambda>k e. if fl_UserID e = u then e\<lparr>fl_IsPrimary := (k = i)\<rparr> else e) (cm_files m) else cm_files m)\<rparr>"
    by blast
  have new: "gget (cm_files m') j = (if j = i then Some g else map_option
      (\<lambda>e. if prim = Some True \<and> fl_UserID e = u then e\<lparr>fl_IsPrimary := False\<rparr> else e) (gget (cm_files m) j))" for j
    by (cases "gget (cm_files m) j") (simp_all add: f(6))
  have row: "fl_ID h = j \<and> j \<in> cm_uuid m ` {..<cm_uuids m} \<and> (\<exists>h'. gget (cm_files m) j = Some h' \<and>
      fl_UserID h = fl_UserID h' \<and> (fl_IsPrimary h \<longrightarrow> fl_IsPrimary h' \<or> j = i \<and> prim = Some True) \<and>
      (prim = Some True \<longrightarrow> fl_UserID h = u \<longrightarrow> fl_IsPrimary h \<longrightarrow> j = i))"
    if r: "gget (cm_files m') j = Some h" for j h
  proof (cases "j = i")
    case True
    then have "h = g" using r new by simp
    then show ?thesis using True f(1-5) assms(1) by (auto simp: cm_inv_def split: option.splits)
  next
    case False
    then obtain h' where h: "gget (cm_files m) j = Some h'"
      "h = (if prim = Some True \<and> fl_UserID h' = u then h'\<lparr>fl_IsPrimary := False\<rparr> else h')"
      using r new [of j] by (cases "gget (cm_files m) j") simp_all
    have "fl_ID h' = j" "j \<in> cm_uuid m ` {..<cm_uuids m}" using h(1) assms(1) by (auto simp: cm_inv_def)
    then show ?thesis using h(1) unfolding h(2) by (cases "prim = Some True \<and> fl_UserID h' = u") auto
  qed
  have "one_primary (gget (cm_files m'))"
    unfolding one_primary_def
  proof (intro allI impI)
    fix j a k b
    assume a: "gget (cm_files m') j = Some a" "gget (cm_files m') k = Some b" "fl_UserID a = fl_UserID b"
      "fl_IsPrimary a" "fl_IsPrimary b"
    show "j = k"
    proof (cases "prim = Some True \<and> fl_UserID a = u")
      case True
      then have "j = i" "k = i" using row [OF a(1)] row [OF a(2)] a(3-5) by auto
      then show ?thesis by simp
    next
      case False
      have ne: "\<not> (j = i \<and> prim = Some True)" "\<not> (k = i \<and> prim = Some True)"
        using False row [OF a(1)] row [OF a(2)] f(1,2) a(3) by auto
      obtain a' b' where "gget (cm_files m) j = Some a'" "gget (cm_files m) k = Some b'" "fl_IsPrimary a'" "fl_IsPrimary b'"
        "fl_UserID a' = fl_UserID b'"
        using row [OF a(1)] row [OF a(2)] a(3-5) ne by metis
      then show ?thesis using assms(1) unfolding cm_inv_def one_primary_def by blast
    qed
  qed
  moreover have "gok (cm_files m')" using assms(1) by (simp add: f(6) cm_inv_def)
  moreover have "cm_uuid m' = cm_uuid m" "cm_uuids m' = cm_uuids m" by (simp_all add: f(6))
  ultimately show ?thesis using assms(1) row by (simp add: cm_inv_def)
qed

text \<open>What clients do to the repository, whether it succeeds or not.\<close>

inductive cv_reach :: "cvMem \<Rightarrow> bool" where
  cv_new: "inj uuid \<Longrightarrow> cv_reach (NewCVMemory uuid now)"
| cv_create: "cv_reach m \<Longrightarrow> cv_reach (fst (cm_CreateFile m f))"
| cv_update: "cv_reach m \<Longrightarrow> cv_reach (fst (cm_UpdateVersion m u i label prim))"
| cv_delete: "cv_reach m \<Longrightarrow> cv_reach (fst (cm_DeleteByUser m u))"

lemma cv_reach_inv: "cv_reach m \<Longrightarrow> cm_inv m"
proof (induction rule: cv_reach.induct)
  case (cv_create m f)
  then show ?case
    using cvmem.CreateFile_ok [OF cv_create.IH, of f] cvmem.CreateFile_err [OF cv_create.IH, of f]
    by (cases "cm_CreateFile m f"; cases "snd (cm_CreateFile m f)") (simp_all add: cvMemOps_def)
next
  case (cv_update m u i label prim)
  then show ?case using cm_inv_update [OF cv_update.IH, of u i label prim] update_version_err [of m u i label prim]
    by (cases "cm_UpdateVersion m u i label prim"; cases "snd (cm_UpdateVersion m u i label prim)") auto
next
  case (cv_delete m u)
  then show ?case using cvmem.DeleteByUser_ok [OF cv_delete.IH, of u "fst (cm_DeleteByUser m u)"]
    by (simp add: cvMemOps_def cm_DeleteByUser_def)
qed (rule cm_inv_new)

text \<open>
  In every repository that uploads, renamings, choices and deletions can lead to, a user
  has at most one primary CV, the listing shows exactly the user's files with the primary
  one first and newer before older, and choosing a version makes that one primary.
\<close>

theorem cv_primary_unique:
  assumes "cv_reach m"
  shows "one_primary (gget (cm_files m)) \<and>
    (\<exists>fs. cm_FilesByUser m u = Inr fs \<and> set fs = {f. \<exists>i. gget (cm_files m) i = Some f \<and> fl_UserID f = u} \<and>
      sorted_by newer_first fs \<and> distinct (map fl_ID fs)) \<and>
    (\<forall>g. snd (cm_UpdateVersion m u i label (Some True)) = Inr g \<longrightarrow>
      fl_IsPrimary g \<and> cm_FileByID (fst (cm_UpdateVersion m u i label (Some True))) i = Inr g)"
proof -
  have inv: "cm_inv m" by (rule cv_reach_inv [OF assms])
  let ?fs = "sort_by newer_first (filter (\<lambda>f. fl_UserID f = u) (gvals (cm_files m)))"
  have "cm_FilesByUser m u = Inr ?fs" by (simp add: cm_FilesByUser_def)
  moreover have "set ?fs = {f. \<exists>i. gget (cm_files m) i = Some f \<and> fl_UserID f = u} \<and> sorted_by newer_first ?fs \<and>
      distinct (map fl_ID ?fs)"
    using cvmem.FilesByUser [OF inv, of u ?fs] by (simp add: cvMemOps_def cm_FilesByUser_def)
  moreover have "fl_IsPrimary g \<and> cm_FileByID (fst (cm_UpdateVersion m u i label (Some True))) i = Inr g"
    if "snd (cm_UpdateVersion m u i label (Some True)) = Inr g" for g
  proof -
    have o: "cm_UpdateVersion m u i label (Some True) = (fst (cm_UpdateVersion m u i label (Some True)), Inr g)"
      using that by (cases "cm_UpdateVersion m u i label (Some True)") simp
    from update_version [OF o] show ?thesis
    proof (elim exE conjE)
      fix f
      assume "fl_IsPrimary g = (case Some True of None \<Rightarrow> fl_IsPrimary f | Some b \<Rightarrow> b)"
        and e: "fst (cm_UpdateVersion m u i label (Some True)) = m\<lparr>cm_files := gput i g (if Some True = Some True
          then gmap (\<lambda>k e. if fl_UserID e = u then e\<lparr>fl_IsPrimary := (k = i)\<rparr> else e) (cm_files m) else cm_files m)\<rparr>"
      then show ?thesis unfolding e by (simp add: cm_FileByID_def)
    qed
  qed
  ultimately show ?thesis using inv unfolding cm_inv_def by blast
qed

definition demo_file :: "string \<Rightarrow> string \<Rightarrow> cvFile" where
  "demo_file u key = \<lparr>fl_ID = [], fl_UserID = u, fl_ObjectKey = key, fl_Filename = ''cv.pdf'', fl_Label = [],
     fl_IsPrimary = False, fl_ContentType = ''application/pdf'', fl_SizeBytes = 4, fl_CreatedAt = 7\<rparr>"

definition demo_cvs :: cvMem where
  "demo_cvs = fst (cm_CreateFile (fst (cm_CreateFile (NewCVMemory demo_uuid (\<lambda>n. int n)) (demo_file ''u'' ''a''))) (demo_file ''u'' ''b''))"

lemma demo_cvs_reach: "cv_reach demo_cvs"
  unfolding demo_cvs_def by (intro cv_create cv_new demo_uuid_inj)

theorem cv_primary_unique_witness:
  "\<exists>g. snd (cm_UpdateVersion demo_cvs ''u'' ''ii'' ''x'' (Some True)) = Inr g \<and> fl_IsPrimary g \<and>
    cm_FileByID (fst (cm_UpdateVersion demo_cvs ''u'' ''ii'' ''x'' (Some True))) ''ii'' = Inr g"
proof -
  let ?r = "snd (cm_UpdateVersion demo_cvs ''u'' ''ii'' ''x'' (Some True))"
  have "?r = Inr (projr ?r)" by code_simp
  then show ?thesis using cv_primary_unique [OF demo_cvs_reach, of "''u''" "''ii''" "''x''"] by blast
qed

end
