(* ===== verification/Profile.thy ===== *)
theory Profile
  imports Go_JSON CV_Parser CV_Store Auth_Repo
begin

text \<open>
  The reviewed profile and its confirmation gate (\<open>internal/profile\<close>): the profile and its
  repository, patches and their validation, completeness, confirmation, the fill snapshot,
  and the update from a parsed CV.
\<close>

section \<open>The profile\<close>

record Profile =
  pr_UserID :: string
  pr_FullName :: string
  pr_Email :: string
  pr_Phone :: string
  pr_LinkedInURL :: string
  pr_GitHubURL :: string
  pr_PortfolioURL :: string
  pr_Address :: string
  pr_City :: string
  pr_Summary :: string
  pr_CurrentEmployer :: string
  pr_CurrentTitle :: string
  pr_HighestEducation :: string
  pr_Education :: raw
  pr_WorkHistory :: raw
  pr_Skills :: raw
  pr_ExpectedSalary :: "int option"
  pr_NoticePeriodDays :: "int option"
  pr_WorkAuthorization :: string
  pr_OpenToRelocation :: bool
  pr_PreferredLocations :: raw
  pr_EmploymentType :: string
  pr_Confirmed :: bool
  pr_ConfirmedAt :: "time option"

definition emptyProfile :: "string \<Rightarrow> Profile" where
  "emptyProfile userID = \<lparr>pr_UserID = userID, pr_FullName = [], pr_Email = [], pr_Phone = [], pr_LinkedInURL = [],
     pr_GitHubURL = [], pr_PortfolioURL = [], pr_Address = [], pr_City = [], pr_Summary = [], pr_CurrentEmployer = [],
     pr_CurrentTitle = [], pr_HighestEducation = [], pr_Education = Some (JArr []), pr_WorkHistory = Some (JArr []),
     pr_Skills = Some (JArr []), pr_ExpectedSalary = None, pr_NoticePeriodDays = None, pr_WorkAuthorization = [],
     pr_OpenToRelocation = False, pr_PreferredLocations = Some (JArr []), pr_EmploymentType = [], pr_Confirmed = False,
     pr_ConfirmedAt = None\<rparr>"

definition CanArm :: "Profile \<Rightarrow> bool" where
  "CanArm p = pr_Confirmed p"

datatype prof_err = ProfNotFound | ProfOther

record 's profRepo =
  pq_Get :: "'s \<Rightarrow> string \<Rightarrow> prof_err + Profile"
  pq_Save :: "'s \<Rightarrow> Profile \<Rightarrow> 's \<times> (prof_err + Profile)"
  pq_Delete :: "'s \<Rightarrow> string \<Rightarrow> 's \<times> prof_err option"

text \<open>The contract: a partial map from users to profiles; failures change nothing.\<close>

locale prof_repo =
  fixes Q :: "'s profRepo" and profs :: "'s \<Rightarrow> string \<Rightarrow> Profile option"
  assumes Get_ok: "pq_Get Q s u = Inr p \<longleftrightarrow> profs s u = Some p"
    and Get_none: "pq_Get Q s u = Inl ProfNotFound \<Longrightarrow> profs s u = None"
    and Save_ok: "pq_Save Q s p = (s', Inr p') \<Longrightarrow> p' = p \<and> profs s' = (profs s)(pr_UserID p \<mapsto> p)"
    and Save_err: "pq_Save Q s p = (s', Inl e) \<Longrightarrow> profs s' = profs s"
    and Delete_ok: "pq_Delete Q s u = (s', None) \<Longrightarrow> profs s' = (profs s)(u := None)"
    and Delete_err: "pq_Delete Q s u = (s', Some e) \<Longrightarrow> profs s' = profs s"

type_synonym profMem = "(string, Profile) gomap"

definition NewProfMemory :: profMem where
  "NewProfMemory = []"

definition pm_Get :: "profMem \<Rightarrow> string \<Rightarrow> prof_err + Profile" where
  "pm_Get m userID = (case gget m userID of None \<Rightarrow> Inl ProfNotFound | Some p \<Rightarrow> Inr p)"

definition pm_Save :: "profMem \<Rightarrow> Profile \<Rightarrow> profMem \<times> (prof_err + Profile)" where
  "pm_Save m p = (gput (pr_UserID p) p m, Inr p)"

definition pm_Delete :: "profMem \<Rightarrow> string \<Rightarrow> profMem \<times> prof_err option" where
  "pm_Delete m userID = (gdel userID m, None)"

definition profMemOps :: "profMem profRepo" where
  "profMemOps = \<lparr>pq_Get = pm_Get, pq_Save = pm_Save, pq_Delete = pm_Delete\<rparr>"

interpretation profmem: prof_repo profMemOps gget
  by unfold_locales (auto simp: profMemOps_def pm_Get_def pm_Save_def pm_Delete_def fun_eq_iff split: option.splits)

section \<open>Checks\<close>

definition allowedEmploymentTypes :: "string list" where
  "allowedEmploymentTypes = [''full_time'', ''part_time'', ''contract'', ''internship'', ''freelance'', ''temporary'']"

definition maxNoticePeriodDays :: int where
  "maxNoticePeriodDays = 365"

definition educationFields :: "(string \<times> (string \<Rightarrow> EducationEntry \<Rightarrow> EducationEntry)) list" where
  "educationFields = [(''institution'', \<lambda>s e. e\<lparr>ed_Institution := s\<rparr>), (''degree'', \<lambda>s e. e\<lparr>ed_Degree := s\<rparr>),
     (''field'', \<lambda>s e. e\<lparr>ed_Field := s\<rparr>), (''start_year'', \<lambda>s e. e\<lparr>ed_StartYear := s\<rparr>),
     (''end_year'', \<lambda>s e. e\<lparr>ed_EndYear := s\<rparr>)]"

definition workFields :: "(string \<times> (string \<Rightarrow> WorkEntry \<Rightarrow> WorkEntry)) list" where
  "workFields = [(''company'', \<lambda>s w. w\<lparr>wk_Company := s\<rparr>), (''title'', \<lambda>s w. w\<lparr>wk_Title := s\<rparr>),
     (''start_date'', \<lambda>s w. w\<lparr>wk_StartDate := s\<rparr>), (''end_date'', \<lambda>s w. w\<lparr>wk_EndDate := s\<rparr>)]"

definition un_education :: "bool \<Rightarrow> json \<Rightarrow> EducationEntry option" where
  "un_education strict = un_struct strict educationFields zeroEducation"

definition un_work :: "bool \<Rightarrow> json \<Rightarrow> WorkEntry option" where
  "un_work strict = un_struct strict workFields zeroWork"

text \<open>The decoder reads one value, and a raw message holds no more than one.\<close>

definition validArray :: "(json \<Rightarrow> 'a option) \<Rightarrow> raw \<Rightarrow> bool" where
  "validArray f r \<longleftrightarrow> un_list f r \<noteq> None"

definition prof_validEmail :: "string \<Rightarrow> bool" where
  "prof_validEmail email = mail_address_exact email"

definition validProfileURL :: "string \<Rightarrow> bool" where
  "validProfileURL value =
     (case url_parse_request value of
        None \<Rightarrow> False
      | Some u \<Rightarrow> url_Scheme u \<noteq> [] \<and> (equal_fold (url_Scheme u) ''http'' \<or> equal_fold (url_Scheme u) ''https'') \<and>
          url_Hostname u \<noteq> [] \<and> \<not> url_User u)"

definition hasEntries :: "raw \<Rightarrow> bool" where
  "hasEntries r = (case un_list Some r of None \<Rightarrow> False | Some vs \<Rightarrow> vs \<noteq> [])"

definition hasEducation :: "raw \<Rightarrow> bool" where
  "hasEducation r = (case un_list (un_education False) r of
      None \<Rightarrow> False | Some es \<Rightarrow> list_ex (\<lambda>e. trim_space (ed_Institution e) \<noteq> []) es)"

definition hasNonBlankString :: "raw \<Rightarrow> bool" where
  "hasNonBlankString r = (case un_list un_string r of
      None \<Rightarrow> False | Some vs \<Rightarrow> list_ex (\<lambda>v. trim_space v \<noteq> []) vs)"

definition profileComplete :: "Profile \<Rightarrow> bool" where
  "profileComplete p \<longleftrightarrow> trim_space (pr_FullName p) \<noteq> [] \<and> prof_validEmail (pr_Email p) \<and> trim_space (pr_Phone p) \<noteq> [] \<and>
     trim_space (pr_WorkAuthorization p) \<noteq> [] \<and> pr_EmploymentType p \<in> set allowedEmploymentTypes \<and>
     hasEducation (pr_Education p) \<and> hasNonBlankString (pr_Skills p) \<and> hasNonBlankString (pr_PreferredLocations p)"

record Completeness =
  cp_Score :: int
  cp_Complete :: bool
  cp_Missing :: "string list"

definition completenessChecks :: "Profile \<Rightarrow> (string \<times> bool) list" where
  "completenessChecks p =
     [(''full_name'', trim_space (pr_FullName p) \<noteq> []), (''email'', prof_validEmail (pr_Email p)),
      (''phone'', trim_space (pr_Phone p) \<noteq> []), (''education'', hasEducation (pr_Education p)),
      (''work_history'', hasEntries (pr_WorkHistory p)), (''skills'', hasNonBlankString (pr_Skills p)),
      (''work_authorization'', trim_space (pr_WorkAuthorization p) \<noteq> []),
      (''preferred_locations'', hasNonBlankString (pr_PreferredLocations p)),
      (''employment_type'', pr_EmploymentType p \<in> set allowedEmploymentTypes),
      (''summary'', trim_space (pr_Summary p) \<noteq> [])]"

definition CalculateCompleteness :: "Profile \<Rightarrow> Completeness" where
  "CalculateCompleteness p =
     (let checks = completenessChecks p; missing = map fst (filter (\<lambda>(n, good). \<not> good) checks);
          complete = length (filter snd checks)
      in \<lparr>cp_Score = int complete * 100 div int (length checks), cp_Complete = (missing = []), cp_Missing = missing\<rparr>)"

section \<open>Patches\<close>

text \<open>
  A decoded request body. A pointer field is \<open>None\<close> when the member is missing or null; the
  two numbers are raw messages, so null differs from missing.
\<close>

record patchReq =
  pt_FullName :: "string option"
  pt_Email :: "string option"
  pt_Phone :: "string option"
  pt_LinkedInURL :: "string option"
  pt_GitHubURL :: "string option"
  pt_PortfolioURL :: "string option"
  pt_Address :: "string option"
  pt_City :: "string option"
  pt_Summary :: "string option"
  pt_CurrentEmployer :: "string option"
  pt_CurrentCompany :: "string option"
  pt_CurrentTitle :: "string option"
  pt_HighestEducation :: "string option"
  pt_Education :: "raw option"
  pt_WorkHistory :: "raw option"
  pt_Skills :: "raw option"
  pt_ExpectedSalary :: raw
  pt_NoticePeriodDays :: raw
  pt_WorkAuthorization :: "string option"
  pt_OpenToRelocation :: "bool option"
  pt_PreferredLocations :: "raw option"
  pt_EmploymentType :: "string option"

type_synonym patchStep = "Profile \<Rightarrow> string + Profile"

fun patchSteps :: "patchStep list \<Rightarrow> patchStep" where
  "patchSteps [] p = Inr p"
| "patchSteps (f # fs) p = (case f p of Inl msg \<Rightarrow> Inl msg | Inr q \<Rightarrow> patchSteps fs q)"

definition patchPlain :: "'a option \<Rightarrow> ('a \<Rightarrow> Profile \<Rightarrow> Profile) \<Rightarrow> patchStep" where
  "patchPlain src dst p = (case src of None \<Rightarrow> Inr p | Some v \<Rightarrow> Inr (dst v p))"

definition patchChecked :: "'a option \<Rightarrow> ('a \<Rightarrow> bool) \<Rightarrow> string \<Rightarrow> ('a \<Rightarrow> Profile \<Rightarrow> Profile) \<Rightarrow> patchStep" where
  "patchChecked src good msg dst p =
     (case src of None \<Rightarrow> Inr p | Some v \<Rightarrow> if good v then Inr (dst v p) else Inl msg)"

definition patchNumber :: "raw \<Rightarrow> (int \<Rightarrow> bool) \<Rightarrow> string \<Rightarrow> (int option \<Rightarrow> Profile \<Rightarrow> Profile) \<Rightarrow> patchStep" where
  "patchNumber src good msg dst p =
     (case src of
        None \<Rightarrow> Inr p
      | Some JNull \<Rightarrow> Inr (dst None p)
      | Some v \<Rightarrow> (case un_int64 v of
          None \<Rightarrow> Inl msg
        | Some n \<Rightarrow> if good n then Inr (dst (Some n) p) else Inl msg))"

definition urlOK :: "string \<Rightarrow> bool" where
  "urlOK v \<longleftrightarrow> v = [] \<or> validProfileURL v"

definition applyPatch :: "patchReq \<Rightarrow> patchStep" where
  "applyPatch req = patchSteps
     [patchPlain (pt_FullName req) (\<lambda>v p. p\<lparr>pr_FullName := v\<rparr>),
      patchChecked (pt_Email req) (\<lambda>v. v = [] \<or> prof_validEmail v) ''email must be valid'' (\<lambda>v p. p\<lparr>pr_Email := v\<rparr>),
      patchPlain (pt_Phone req) (\<lambda>v p. p\<lparr>pr_Phone := v\<rparr>),
      patchChecked (map_option trim_space (pt_LinkedInURL req)) urlOK ''linkedin_url must be a valid URL'' (\<lambda>v p. p\<lparr>pr_LinkedInURL := v\<rparr>),
      patchChecked (map_option trim_space (pt_GitHubURL req)) urlOK ''github_url must be a valid URL'' (\<lambda>v p. p\<lparr>pr_GitHubURL := v\<rparr>),
      patchChecked (map_option trim_space (pt_PortfolioURL req)) urlOK ''portfolio_url must be a valid URL'' (\<lambda>v p. p\<lparr>pr_PortfolioURL := v\<rparr>),
      patchPlain (pt_Address req) (\<lambda>v p. p\<lparr>pr_Address := trim_space v\<rparr>),
      patchPlain (pt_City req) (\<lambda>v p. p\<lparr>pr_City := trim_space v\<rparr>),
      patchPlain (pt_Summary req) (\<lambda>v p. p\<lparr>pr_Summary := trim_space v\<rparr>),
      patchPlain (case pt_CurrentEmployer req of None \<Rightarrow> pt_CurrentCompany req | Some v \<Rightarrow> Some v)
        (\<lambda>v p. p\<lparr>pr_CurrentEmployer := trim_space v\<rparr>),
      patchPlain (pt_CurrentTitle req) (\<lambda>v p. p\<lparr>pr_CurrentTitle := trim_space v\<rparr>),
      patchPlain (pt_HighestEducation req) (\<lambda>v p. p\<lparr>pr_HighestEducation := trim_space v\<rparr>),
      patchPlain (pt_WorkAuthorization req) (\<lambda>v p. p\<lparr>pr_WorkAuthorization := v\<rparr>),
      patchPlain (pt_OpenToRelocation req) (\<lambda>v p. p\<lparr>pr_OpenToRelocation := v\<rparr>),
      patchChecked (pt_Education req) (validArray (un_education True)) ''education has an invalid array shape'' (\<lambda>v p. p\<lparr>pr_Education := v\<rparr>),
      patchChecked (pt_WorkHistory req) (validArray (un_work True)) ''work_history has an invalid array shape'' (\<lambda>v p. p\<lparr>pr_WorkHistory := v\<rparr>),
      patchChecked (pt_Skills req) (validArray un_string) ''skills has an invalid array shape'' (\<lambda>v p. p\<lparr>pr_Skills := v\<rparr>),
      patchChecked (pt_PreferredLocations req) (validArray un_string) ''preferred_locations has an invalid array shape''
        (\<lambda>v p. p\<lparr>pr_PreferredLocations := v\<rparr>),
      patchNumber (pt_ExpectedSalary req) (\<lambda>n. 0 \<le> n) ''expected_salary must be null or a non-negative integer''
        (\<lambda>v p. p\<lparr>pr_ExpectedSalary := v\<rparr>),
      patchNumber (pt_NoticePeriodDays req) (\<lambda>n. 0 \<le> n \<and> n \<le> maxNoticePeriodDays)
        ''notice_period_days must be null or between 0 and 365'' (\<lambda>v p. p\<lparr>pr_NoticePeriodDays := v\<rparr>),
      patchChecked (pt_EmploymentType req) (\<lambda>v. v = [] \<or> v \<in> set allowedEmploymentTypes)
        ''employment_type is not a recognised value'' (\<lambda>v p. p\<lparr>pr_EmploymentType := v\<rparr>)]"

end
