(* ===== verification/Profile_Service.thy ===== *)
theory Profile_Service
  imports Profile
begin

text \<open>
  The profile endpoints (\<open>internal/profile/service.go\<close>) and the update from a parsed CV
  (\<open>parsedcv.go\<close>), with the confirmation gate in front of the fill flow.
\<close>

text \<open>
  The environment: the clock, \<open>uuid.Parse\<close> of the google/uuid package as the test whether it
  accepts a text, and the source of CVs, \<open>None\<close> when the service has none.
\<close>

record profEnv =
  pe_now :: "nat \<Rightarrow> time"
  pe_uuid :: "string \<Rightarrow> bool"
  pe_files :: "(string \<Rightarrow> cv_err + cvFile list) option"
  pe_content :: "string \<Rightarrow> string \<Rightarrow> cv_err + cvFile \<times> string"

record 's profSvc =
  ps_repo :: 's
  ps_ticks :: nat

record profileResp =
  rs_FullName :: string
  rs_Email :: string
  rs_Phone :: string
  rs_LinkedInURL :: string
  rs_GitHubURL :: string
  rs_PortfolioURL :: string
  rs_Address :: string
  rs_City :: string
  rs_Summary :: string
  rs_CurrentEmployer :: string
  rs_CurrentCompany :: string
  rs_CurrentTitle :: string
  rs_HighestEducation :: string
  rs_Education :: json
  rs_WorkHistory :: json
  rs_Skills :: json
  rs_ExpectedSalary :: "int option"
  rs_NoticePeriodDays :: "int option"
  rs_WorkAuthorization :: string
  rs_OpenToRelocation :: bool
  rs_PreferredLocations :: json
  rs_EmploymentType :: string
  rs_Confirmed :: bool
  rs_ConfirmedAt :: "time option"

datatype fillVal = FillBool bool | FillStr string

record fillCVResp =
  fc_ID :: string
  fc_Filename :: string
  fc_ContentType :: string
  fc_BytesBase64 :: string

datatype profBody =
    ProfError string
  | ProfBody profileResp
  | ProfCompleteness Completeness
  | ProfArm bool
  | ProfFill "(string \<times> fillVal) list" "fillCVResp option"

type_synonym profResp = "profBody resp"

definition profErr :: "nat \<Rightarrow> string \<Rightarrow> profResp" where
  "profErr code msg = Resp code (ProfError msg)"

definition prof_Routes :: "string list" where
  "prof_Routes = [''GET /profile'', ''GET /profile/completeness'', ''GET /profile/fill'', ''PATCH /profile'',
     ''POST /profile/confirm'', ''GET /profile/arm'']"

definition nonNil :: "raw \<Rightarrow> json" where
  "nonNil r = (case r of None \<Rightarrow> JArr [] | Some v \<Rightarrow> v)"

text \<open>The confirmation time is formatted on the wire and kept as a time here.\<close>

definition prof_toResp :: "Profile \<Rightarrow> profileResp" where
  "prof_toResp p = \<lparr>rs_FullName = pr_FullName p, rs_Email = pr_Email p, rs_Phone = pr_Phone p,
     rs_LinkedInURL = pr_LinkedInURL p, rs_GitHubURL = pr_GitHubURL p, rs_PortfolioURL = pr_PortfolioURL p,
     rs_Address = pr_Address p, rs_City = pr_City p, rs_Summary = pr_Summary p,
     rs_CurrentEmployer = pr_CurrentEmployer p, rs_CurrentCompany = pr_CurrentEmployer p,
     rs_CurrentTitle = pr_CurrentTitle p, rs_HighestEducation = pr_HighestEducation p,
     rs_Education = nonNil (pr_Education p), rs_WorkHistory = nonNil (pr_WorkHistory p), rs_Skills = nonNil (pr_Skills p),
     rs_ExpectedSalary = pr_ExpectedSalary p, rs_NoticePeriodDays = pr_NoticePeriodDays p,
     rs_WorkAuthorization = pr_WorkAuthorization p, rs_OpenToRelocation = pr_OpenToRelocation p,
     rs_PreferredLocations = nonNil (pr_PreferredLocations p), rs_EmploymentType = pr_EmploymentType p,
     rs_Confirmed = pr_Confirmed p, rs_ConfirmedAt = pr_ConfirmedAt p\<rparr>"

definition prof_load :: "'s profRepo \<Rightarrow> 's profSvc \<Rightarrow> string \<Rightarrow> prof_err + Profile" where
  "prof_load Q st userID =
     (case pq_Get Q (ps_repo st) userID of
        Inl ProfNotFound \<Rightarrow> Inr (emptyProfile userID)
      | Inl ProfOther \<Rightarrow> Inl ProfOther
      | Inr p \<Rightarrow> Inr p)"

section \<open>Handlers\<close>

definition handleCompleteness :: "'s profRepo \<Rightarrow> 's profSvc \<Rightarrow> user option \<Rightarrow> profResp" where
  "handleCompleteness Q st ctx =
     (case ctx of
        None \<Rightarrow> profErr 401 ''authentication required''
      | Some u \<Rightarrow> (case prof_load Q st (u_ID u) of
          Inl _ \<Rightarrow> profErr 500 ''load error''
        | Inr p \<Rightarrow> Resp 200 (ProfCompleteness (CalculateCompleteness p))))"

definition prof_handleGet :: "'s profRepo \<Rightarrow> 's profSvc \<Rightarrow> user option \<Rightarrow> profResp" where
  "prof_handleGet Q st ctx =
     (case ctx of
        None \<Rightarrow> profErr 401 ''authentication required''
      | Some u \<Rightarrow> (case prof_load Q st (u_ID u) of
          Inl _ \<Rightarrow> profErr 500 ''load error''
        | Inr p \<Rightarrow> Resp 200 (ProfBody (prof_toResp p))))"

definition handlePatch :: "'s profRepo \<Rightarrow> 's profSvc \<Rightarrow> user option \<Rightarrow> patchReq option \<Rightarrow> 's profSvc \<times> profResp" where
  "handlePatch Q st ctx body =
     (case ctx of
        None \<Rightarrow> (st, profErr 401 ''authentication required'')
      | Some u \<Rightarrow> (case body of
          None \<Rightarrow> (st, profErr 400 ''invalid JSON body'')
        | Some req \<Rightarrow> (case prof_load Q st (u_ID u) of
            Inl _ \<Rightarrow> (st, profErr 500 ''load error'')
          | Inr p \<Rightarrow> (case applyPatch req p of
              Inl msg \<Rightarrow> (st, profErr 400 msg)
            | Inr p1 \<Rightarrow> (case pq_Save Q (ps_repo st) (p1\<lparr>pr_Confirmed := False, pr_ConfirmedAt := None\<rparr>) of
                (s, Inl _) \<Rightarrow> (st\<lparr>ps_repo := s\<rparr>, profErr 500 ''save error'')
              | (s, Inr saved) \<Rightarrow> (st\<lparr>ps_repo := s\<rparr>, Resp 200 (ProfBody (prof_toResp saved))))))))"

definition handleConfirm :: "'s profRepo \<Rightarrow> profEnv \<Rightarrow> 's profSvc \<Rightarrow> user option \<Rightarrow> 's profSvc \<times> profResp" where
  "handleConfirm Q env st ctx =
     (case ctx of
        None \<Rightarrow> (st, profErr 401 ''authentication required'')
      | Some u \<Rightarrow> (case prof_load Q st (u_ID u) of
          Inl _ \<Rightarrow> (st, profErr 500 ''load error'')
        | Inr p \<Rightarrow>
            if \<not> profileComplete p then (st, profErr 400 ''profile is incomplete'')
            else (let st1 = st\<lparr>ps_ticks := Suc (ps_ticks st)\<rparr> in
              case pq_Save Q (ps_repo st) (p\<lparr>pr_Confirmed := True, pr_ConfirmedAt := Some (pe_now env (ps_ticks st))\<rparr>) of
                (s, Inl _) \<Rightarrow> (st1\<lparr>ps_repo := s\<rparr>, profErr 500 ''save error'')
              | (s, Inr saved) \<Rightarrow> (st1\<lparr>ps_repo := s\<rparr>, Resp 200 (ProfBody (prof_toResp saved))))))"

definition handleArm :: "'s profRepo \<Rightarrow> 's profSvc \<Rightarrow> user option \<Rightarrow> profResp" where
  "handleArm Q st ctx =
     (case ctx of
        None \<Rightarrow> profErr 401 ''authentication required''
      | Some u \<Rightarrow> (case prof_load Q st (u_ID u) of
          Inl _ \<Rightarrow> profErr 500 ''load error''
        | Inr p \<Rightarrow> if \<not> CanArm p then Resp 403 (ProfArm False) else Resp 200 (ProfArm True)))"

definition fillText :: "string \<Rightarrow> string \<Rightarrow> (string \<times> fillVal) list" where
  "fillText key value = (let v = trim_space value in if v \<noteq> [] then [(key, FillStr v)] else [])"

definition fillEducation :: "raw \<Rightarrow> (string \<times> fillVal) list" where
  "fillEducation r =
     (case un_list (un_education False) r of
        None \<Rightarrow> []
      | Some es \<Rightarrow> if es = [] then []
          else (let e = last es;
                    raw_text = (\<lambda>key v. if trim_space v \<noteq> [] then [(key, FillStr v)] else [])
                in raw_text ''university'' (ed_Institution e) @ raw_text ''major'' (ed_Field e) @
                   raw_text ''graduation_year'' (ed_EndYear e)))"

definition canonicalFillProfile :: "Profile \<Rightarrow> (string \<times> fillVal) list" where
  "canonicalFillProfile p =
     [(''confirmed'', FillBool (pr_Confirmed p))] @
     (let v = trim_space (pr_FullName p); parts = fields_func is_space v in
      if v = [] then []
      else [(''full_name'', FillStr v), (''first_name'', FillStr (hd parts))] @
           (if length parts > 1 then [(''last_name'', FillStr (last parts))] else [])) @
     fillText ''email'' (pr_Email p) @ fillText ''phone'' (pr_Phone p) @
     fillText ''linkedin_url'' (pr_LinkedInURL p) @ fillText ''github_url'' (pr_GitHubURL p) @
     fillText ''portfolio_url'' (pr_PortfolioURL p) @ fillText ''address'' (pr_Address p) @
     fillText ''city'' (pr_City p) @ fillText ''summary'' (pr_Summary p) @
     fillText ''current_company'' (pr_CurrentEmployer p) @ fillText ''current_title'' (pr_CurrentTitle p) @
     fillText ''highest_education'' (pr_HighestEducation p) @
     (case pr_ExpectedSalary p of None \<Rightarrow> [] | Some n \<Rightarrow> [(''expected_salary'', FillStr (itoa n))]) @
     (case pr_NoticePeriodDays p of None \<Rightarrow> [] | Some n \<Rightarrow> [(''notice_period'', FillStr (itoa n))]) @
     fillEducation (pr_Education p)"

definition fillCV :: "cvFile \<Rightarrow> string \<Rightarrow> fillCVResp" where
  "fillCV f dat = \<lparr>fc_ID = fl_ID f, fc_Filename = fl_Filename f, fc_ContentType = fl_ContentType f,
     fc_BytesBase64 = std_encode dat\<rparr>"

definition fillWithCV :: "profEnv \<Rightarrow> string \<Rightarrow> (string \<times> fillVal) list \<Rightarrow> string \<Rightarrow> profResp" where
  "fillWithCV env userID out cvID =
     (if cvID = [] then Resp 200 (ProfFill out None)
      else (case pe_content env userID cvID of
        Inl e \<Rightarrow> if e = CvNotFound then profErr 404 ''cv not found'' else profErr 500 ''read cv error''
      | Inr (f, dat) \<Rightarrow> Resp 200 (ProfFill out (Some (fillCV f dat)))))"

definition handleFill :: "'s profRepo \<Rightarrow> profEnv \<Rightarrow> 's profSvc \<Rightarrow> user option \<Rightarrow> string \<Rightarrow> profResp" where
  "handleFill Q env st ctx cvID =
     (case ctx of
        None \<Rightarrow> profErr 401 ''authentication required''
      | Some u \<Rightarrow>
          if cvID \<noteq> [] \<and> \<not> pe_uuid env cvID then profErr 400 ''invalid cv_id''
          else (case prof_load Q st (u_ID u) of
            Inl _ \<Rightarrow> profErr 500 ''load error''
          | Inr p \<Rightarrow>
              if \<not> CanArm p then profErr 403 ''profile not confirmed''
              else (case pe_files env of
                None \<Rightarrow> Resp 200 (ProfFill (canonicalFillProfile p) None)
              | Some files \<Rightarrow>
                  if cvID \<noteq> [] then fillWithCV env (u_ID u) (canonicalFillProfile p) cvID
                  else (case files (u_ID u) of
                    Inl _ \<Rightarrow> profErr 500 ''list cv files error''
                  | Inr [] \<Rightarrow> fillWithCV env (u_ID u) (canonicalFillProfile p) []
                  | Inr (f # fs) \<Rightarrow> fillWithCV env (u_ID u) (canonicalFillProfile p) (fl_ID f)))))"

section \<open>Parsed CVs\<close>

definition educationJSON :: "EducationEntry \<Rightarrow> json" where
  "educationJSON e = JObj [(''institution'', JStr (ed_Institution e)), (''degree'', JStr (ed_Degree e)),
     (''field'', JStr (ed_Field e)), (''start_year'', JStr (ed_StartYear e)), (''end_year'', JStr (ed_EndYear e))]"

definition workJSON :: "WorkEntry \<Rightarrow> json" where
  "workJSON w = JObj [(''company'', JStr (wk_Company w)), (''title'', JStr (wk_Title w)),
     (''start_date'', JStr (wk_StartDate w)), (''end_date'', JStr (wk_EndDate w))]"

text \<open>A nil slice marshals to null and becomes the empty array, like an empty slice.\<close>

definition marshalArray :: "('a \<Rightarrow> json) \<Rightarrow> 'a list \<Rightarrow> raw" where
  "marshalArray f xs = Some (JArr (map f xs))"

definition parsedInto :: "ParsedCV \<Rightarrow> Profile \<Rightarrow> Profile" where
  "parsedInto parsed p0 =
     (let p1 = (if pc_FullName parsed \<noteq> [] then p0\<lparr>pr_FullName := pc_FullName parsed\<rparr> else p0);
          p2 = (if pc_Email parsed \<noteq> [] then p1\<lparr>pr_Email := pc_Email parsed\<rparr> else p1);
          p3 = (if pc_Phone parsed \<noteq> [] then p2\<lparr>pr_Phone := pc_Phone parsed\<rparr> else p2)
      in p3\<lparr>pr_Education := marshalArray educationJSON (pc_Education parsed),
            pr_WorkHistory := marshalArray workJSON (pc_WorkHistory parsed),
            pr_Skills := marshalArray JStr (pc_Skills parsed),
            pr_Confirmed := False, pr_ConfirmedAt := None\<rparr>)"

definition ApplyParsedCV :: "'s profRepo \<Rightarrow> 's profSvc \<Rightarrow> string \<Rightarrow> ParsedCV \<Rightarrow> 's profSvc \<times> bool" where
  "ApplyParsedCV Q st userID parsed =
     (case prof_load Q st userID of
        Inl _ \<Rightarrow> (st, False)
      | Inr p \<Rightarrow> (case pq_Save Q (ps_repo st) (parsedInto parsed p) of
          (s, Inl _) \<Rightarrow> (st\<lparr>ps_repo := s\<rparr>, False)
        | (s, Inr _) \<Rightarrow> (st\<lparr>ps_repo := s\<rparr>, True)))"

section \<open>What every stored profile satisfies\<close>

text \<open>
  The invariant of a stored profile: it belongs to the user it is stored for, its typed
  fields are in range, its arrays decode, and it is confirmed only when it is complete and
  has a confirmation time.
\<close>

definition prof_fields_ok :: "Profile \<Rightarrow> bool" where
  "prof_fields_ok p \<longleftrightarrow> urlOK (pr_LinkedInURL p) \<and> urlOK (pr_GitHubURL p) \<and> urlOK (pr_PortfolioURL p) \<and>
     validArray (un_education True) (pr_Education p) \<and> validArray (un_work True) (pr_WorkHistory p) \<and>
     validArray un_string (pr_Skills p) \<and> validArray un_string (pr_PreferredLocations p) \<and>
     (case pr_ExpectedSalary p of None \<Rightarrow> True | Some n \<Rightarrow> 0 \<le> n) \<and>
     (case pr_NoticePeriodDays p of None \<Rightarrow> True | Some n \<Rightarrow> 0 \<le> n \<and> n \<le> 365) \<and>
     (pr_EmploymentType p = [] \<or> pr_EmploymentType p \<in> set allowedEmploymentTypes)"

definition gate_ok :: "Profile \<Rightarrow> bool" where
  "gate_ok p \<longleftrightarrow> (pr_Confirmed p \<longrightarrow> profileComplete p \<and> pr_ConfirmedAt p \<noteq> None)"

definition profs_ok :: "(string \<Rightarrow> Profile option) \<Rightarrow> bool" where
  "profs_ok m \<longleftrightarrow> (\<forall>u p. m u = Some p \<longrightarrow> pr_UserID p = u \<and> prof_fields_ok p \<and> gate_ok p)"

lemma patchSteps_inv:
  "list_all (\<lambda>f. \<forall>p q. I p \<longrightarrow> f p = Inr q \<longrightarrow> I q) fs \<Longrightarrow> I p \<Longrightarrow> patchSteps fs p = Inr q \<Longrightarrow> I q"
  by (induction fs arbitrary: p) (auto split: sum.splits)

lemma applyPatch_ok:
  assumes "applyPatch req p = Inr q" "prof_fields_ok p"
  shows "prof_fields_ok q \<and> pr_UserID q = pr_UserID p"
proof -
  have plain: "\<forall>p q. I p \<longrightarrow> patchPlain src dst p = Inr q \<longrightarrow> I q" if "\<And>v p. I p \<Longrightarrow> I (dst v p)"
    for I and src :: "'a option" and dst using that by (auto simp: patchPlain_def split: option.splits)
  have checked: "\<forall>p q. I p \<longrightarrow> patchChecked src good msg dst p = Inr q \<longrightarrow> I q" if "\<And>v p. good v \<Longrightarrow> I p \<Longrightarrow> I (dst v p)"
    for I and src :: "'a option" and good dst msg using that by (auto simp: patchChecked_def split: option.splits if_splits)
  have number: "\<forall>p q. I p \<longrightarrow> patchNumber src good msg dst p = Inr q \<longrightarrow> I q"
    if "\<And>p. I p \<Longrightarrow> I (dst None p)" "\<And>n p. good n \<Longrightarrow> I p \<Longrightarrow> I (dst (Some n) p)" for I src good dst msg
    using that by (auto simp: patchNumber_def split: option.splits if_splits json.splits)
  let ?I = "\<lambda>r. prof_fields_ok r \<and> pr_UserID r = pr_UserID p"
  have "?I q"
    by (rule patchSteps_inv [of ?I, OF _ _ assms(1) [unfolded applyPatch_def]])
      (unfold list.pred_inject,
       (intro conjI TrueI plain checked number; simp add: prof_fields_ok_def maxNoticePeriodDays_def),
       simp add: assms(2))
  then show ?thesis .
qed

lemma entry_roundtrip [simp]: "un_education True (educationJSON e) = Some e" "un_work True (workJSON w) = Some w"
  by (simp_all add: un_education_def educationJSON_def educationFields_def un_work_def workJSON_def workFields_def
      field_of_def zeroEducation_def zeroWork_def)

lemma marshal_valid: "(\<And>x. f (g x) \<noteq> None) \<Longrightarrow> validArray f (marshalArray g xs)"
proof -
  assume f: "\<And>x. f (g x) \<noteq> None"
  have "all_some (map f (map g xs)) \<noteq> None"
  proof (induction xs)
    case (Cons a xs)
    then show ?case using f [of a] by (auto split: option.split)
  qed simp
  then show ?thesis by (simp add: validArray_def marshalArray_def)
qed

lemma parsedInto_ok: "prof_fields_ok p \<Longrightarrow> prof_fields_ok (parsedInto c p)" "pr_UserID (parsedInto c p) = pr_UserID p"
  "\<not> pr_Confirmed (parsedInto c p)"
  using marshal_valid [of "un_education True" educationJSON] marshal_valid [of "un_work True" workJSON]
    marshal_valid [of un_string JStr]
  by (simp_all add: parsedInto_def prof_fields_ok_def Let_def)

lemma empty_ok: "prof_fields_ok (emptyProfile u)" "gate_ok (emptyProfile u)" "pr_UserID (emptyProfile u) = u"
  by (simp_all add: prof_fields_ok_def gate_ok_def emptyProfile_def urlOK_def validArray_def)

context prof_repo begin

lemma load_ok:
  assumes "profs_ok (profs (ps_repo st))" "prof_load Q st u = Inr p"
  shows "prof_fields_ok p \<and> gate_ok p \<and> pr_UserID p = u \<and> (profs (ps_repo st) u = Some p \<or> p = emptyProfile u)"
proof (cases "pq_Get Q (ps_repo st) u")
  case (Inl e)
  then have "p = emptyProfile u" using assms(2) by (cases e) (simp_all add: prof_load_def)
  then show ?thesis using empty_ok by simp
next
  case (Inr q)
  then have "q = p" using assms(2) by (simp add: prof_load_def)
  then show ?thesis using Inr Get_ok [of "ps_repo st" u q] assms(1) by (auto simp: profs_ok_def)
qed

lemma save_ok:
  assumes "profs_ok (profs s)" "prof_fields_ok p" "gate_ok p" "pq_Save Q s p = (s', r)"
  shows "profs_ok (profs s') \<and> (\<forall>w. w \<noteq> pr_UserID p \<longrightarrow> profs s' w = profs s w)"
proof (cases r)
  case (Inl e) then show ?thesis using Save_err [OF assms(4)[unfolded Inl]] assms(1) by simp
next
  case (Inr q) then show ?thesis using Save_ok [OF assms(4)[unfolded Inr]] assms(1-3) by (auto simp: profs_ok_def)
qed

lemma patch_ok:
  assumes "profs_ok (profs (ps_repo st))" "handlePatch Q st ctx body = (st', resp)"
  shows "profs_ok (profs (ps_repo st')) \<and> (\<forall>w. (case ctx of None \<Rightarrow> True | Some u \<Rightarrow> w \<noteq> u_ID u) \<longrightarrow>
    profs (ps_repo st') w = profs (ps_repo st) w)"
proof (cases "\<exists>u req p q. ctx = Some u \<and> body = Some req \<and> prof_load Q st (u_ID u) = Inr p \<and> applyPatch req p = Inr q")
  case True
  then obtain u req p q where a: "ctx = Some u" "body = Some req" "prof_load Q st (u_ID u) = Inr p" "applyPatch req p = Inr q"
    by blast
  note l = load_ok [OF assms(1) a(3)]
  have q: "prof_fields_ok q" "pr_UserID q = u_ID u" using applyPatch_ok [OF a(4)] l by auto
  let ?q = "q\<lparr>pr_Confirmed := False, pr_ConfirmedAt := None\<rparr>"
  obtain s r where o: "pq_Save Q (ps_repo st) ?q = (s, r)" by (cases "pq_Save Q (ps_repo st) ?q")
  have "prof_fields_ok ?q" "gate_ok ?q" "pr_UserID ?q = u_ID u" using q by (simp_all add: prof_fields_ok_def gate_ok_def)
  moreover have "ps_repo st' = s" using assms(2) a o by (auto simp: handlePatch_def split: sum.splits)
  ultimately show ?thesis using save_ok [OF assms(1) _ _ o] a(1) by simp
next
  case False
  then have "st' = st" using assms(2) by (auto simp: handlePatch_def split: option.splits sum.splits)
  then show ?thesis using assms(1) by simp
qed

lemma confirm_ok:
  assumes "profs_ok (profs (ps_repo st))" "handleConfirm Q env st ctx = (st', resp)"
  shows "profs_ok (profs (ps_repo st')) \<and> (\<forall>w. (case ctx of None \<Rightarrow> True | Some u \<Rightarrow> w \<noteq> u_ID u) \<longrightarrow>
    profs (ps_repo st') w = profs (ps_repo st) w)"
proof (cases "\<exists>u p. ctx = Some u \<and> prof_load Q st (u_ID u) = Inr p \<and> profileComplete p")
  case True
  then obtain u p where a: "ctx = Some u" "prof_load Q st (u_ID u) = Inr p" "profileComplete p" by blast
  note l = load_ok [OF assms(1) a(2)]
  let ?q = "p\<lparr>pr_Confirmed := True, pr_ConfirmedAt := Some (pe_now env (ps_ticks st))\<rparr>"
  obtain s r where o: "pq_Save Q (ps_repo st) ?q = (s, r)" by (cases "pq_Save Q (ps_repo st) ?q")
  have "prof_fields_ok ?q" "gate_ok ?q" "pr_UserID ?q = u_ID u"
    using l a(3) by (simp_all add: prof_fields_ok_def gate_ok_def profileComplete_def)
  moreover have "ps_repo st' = s" using assms(2) a o by (auto simp: handleConfirm_def Let_def split: sum.splits)
  ultimately show ?thesis using save_ok [OF assms(1) _ _ o] a(1) by simp
next
  case False
  then have "st' = st" using assms(2) by (auto simp: handleConfirm_def split: option.splits sum.splits if_splits)
  then show ?thesis using assms(1) by simp
qed

lemma parsed_ok:
  assumes "profs_ok (profs (ps_repo st))" "ApplyParsedCV Q st u c = (st', fin)"
  shows "profs_ok (profs (ps_repo st')) \<and> (\<forall>w. w \<noteq> u \<longrightarrow> profs (ps_repo st') w = profs (ps_repo st) w)"
proof (cases "prof_load Q st u")
  case (Inl e) then show ?thesis using assms by (simp add: ApplyParsedCV_def)
next
  case (Inr p)
  note l = load_ok [OF assms(1) Inr]
  obtain s r where o: "pq_Save Q (ps_repo st) (parsedInto c p) = (s, r)" by (cases "pq_Save Q (ps_repo st) (parsedInto c p)")
  have "gate_ok (parsedInto c p)" using parsedInto_ok(3) by (simp add: gate_ok_def)
  moreover have "ps_repo st' = s" using assms(2) Inr o by (auto simp: ApplyParsedCV_def split: sum.splits)
  ultimately show ?thesis using save_ok [OF assms(1) _ _ o] parsedInto_ok l by simp
qed

end

end
