(* ===== verification/Profile_Theorems.thy ===== *)
theory Profile_Theorems
  imports Profile_Service
begin

text \<open>
  The confirmation gate over sequences of requests, the fill snapshot, and the completeness
  report.
\<close>

datatype profCall =
    PPatch "user option" "patchReq option"
  | PConfirm "user option"
  | PParsed string ParsedCV

fun prof_call :: "'s profRepo \<Rightarrow> profEnv \<Rightarrow> 's profSvc \<Rightarrow> profCall \<Rightarrow> 's profSvc" where
  "prof_call Q env st (PPatch ctx body) = fst (handlePatch Q st ctx body)"
| "prof_call Q env st (PConfirm ctx) = fst (handleConfirm Q env st ctx)"
| "prof_call Q env st (PParsed u c) = fst (ApplyParsedCV Q st u c)"

definition prof_run :: "profEnv \<Rightarrow> profMem profSvc \<Rightarrow> profCall list \<Rightarrow> profMem profSvc" where
  "prof_run env st calls = foldl (prof_call profMemOps env) st calls"

definition newProfiles :: "profMem profSvc" where
  "newProfiles = \<lparr>ps_repo = NewProfMemory, ps_ticks = 0\<rparr>"

text \<open>Whose profile a call can change.\<close>

fun prof_actor :: "profCall \<Rightarrow> string option" where
  "prof_actor (PPatch ctx body) = map_option u_ID ctx"
| "prof_actor (PConfirm ctx) = map_option u_ID ctx"
| "prof_actor (PParsed u c) = Some u"

lemma call_profs:
  assumes "profs_ok (gget (ps_repo st))"
  shows "profs_ok (gget (ps_repo (prof_call profMemOps env st c))) \<and>
    (\<forall>w. prof_actor c \<noteq> Some w \<longrightarrow> gget (ps_repo (prof_call profMemOps env st c)) w = gget (ps_repo st) w)"
proof (cases c)
  case (PPatch ctx body)
  then show ?thesis using profmem.patch_ok [OF assms, of ctx body "fst (handlePatch profMemOps st ctx body)"
      "snd (handlePatch profMemOps st ctx body)"] by (cases ctx) auto
next
  case (PConfirm ctx)
  then show ?thesis using profmem.confirm_ok [OF assms, of env ctx "fst (handleConfirm profMemOps env st ctx)"
      "snd (handleConfirm profMemOps env st ctx)"] by (cases ctx) auto
next
  case (PParsed u p)
  then show ?thesis using profmem.parsed_ok [OF assms, of u p "fst (ApplyParsedCV profMemOps st u p)"
      "snd (ApplyParsedCV profMemOps st u p)"] by auto
qed

lemma run_profs:
  "profs_ok (gget (ps_repo st)) \<Longrightarrow> profs_ok (gget (ps_repo (prof_run env st calls))) \<and>
    (\<forall>w. Some w \<notin> set (map prof_actor calls) \<longrightarrow> gget (ps_repo (prof_run env st calls)) w = gget (ps_repo st) w)"
proof (induction calls arbitrary: st)
  case (Cons c calls)
  let ?s = "prof_call profMemOps env st c"
  have "prof_run env st (c # calls) = prof_run env ?s calls" by (simp add: prof_run_def)
  then show ?case using call_profs [OF Cons.prems, of env c] Cons.IH [of ?s] by auto
qed (simp add: prof_run_def)

lemma new_profs [simp]: "profs_ok (gget (ps_repo newProfiles))"
  by (simp add: newProfiles_def NewProfMemory_def profs_ok_def)

text \<open>
  C3: After any sequence of patches, confirmations and parsed CVs, a stored profile is
  confirmed only if it is complete and carries its confirmation time; its URLs, numbers,
  arrays and employment type are valid. Only its own user's calls made it what it is: that
  user made at least one of the calls, and every call of the sequence that another user made,
  or nobody signed in made, left the stored profile exactly as the calls before it had left it.
\<close>

theorem confirmed_only_complete:
  assumes "gget (ps_repo (prof_run env newProfiles calls)) u = Some p"
  shows "pr_UserID p = u \<and> prof_fields_ok p \<and> (\<not> pr_Confirmed p \<or> profileComplete p \<and> pr_ConfirmedAt p \<noteq> None) \<and>
    Some u \<in> set (map prof_actor calls) \<and>
    (\<forall>cs c cs'. calls = cs @ c # cs' \<and> prof_actor c \<noteq> Some u \<longrightarrow>
      gget (ps_repo (prof_run env newProfiles (cs @ [c]))) u = gget (ps_repo (prof_run env newProfiles cs)) u)"
proof -
  note r = run_profs [OF new_profs, of env calls]
  have k: "gget (ps_repo (prof_run env newProfiles (cs @ [c]))) u = gget (ps_repo (prof_run env newProfiles cs)) u"
    if "prof_actor c \<noteq> Some u" for cs c
    using call_profs [of "prof_run env newProfiles cs" env c] run_profs [OF new_profs, of env cs] that
    by (simp add: prof_run_def)
  have "Some u \<in> set (map prof_actor calls)"
  proof (rule ccontr)
    assume "\<not> ?thesis"
    then show False using r assms by (simp add: newProfiles_def NewProfMemory_def)
  qed
  then show ?thesis using r assms k by (auto simp: profs_ok_def gate_ok_def)
qed

text \<open>A complete profile in two requests.\<close>

definition noPatch :: patchReq where
  "noPatch = \<lparr>pt_FullName = None, pt_Email = None, pt_Phone = None, pt_LinkedInURL = None, pt_GitHubURL = None,
     pt_PortfolioURL = None, pt_Address = None, pt_City = None, pt_Summary = None, pt_CurrentEmployer = None,
     pt_CurrentCompany = None, pt_CurrentTitle = None, pt_HighestEducation = None, pt_Education = None,
     pt_WorkHistory = None, pt_Skills = None, pt_ExpectedSalary = None, pt_NoticePeriodDays = None,
     pt_WorkAuthorization = None, pt_OpenToRelocation = None, pt_PreferredLocations = None, pt_EmploymentType = None\<rparr>"

definition demo_patch :: patchReq where
  "demo_patch = noPatch\<lparr>pt_FullName := Some ''Ana Putri'', pt_Email := Some ''ana@x.id'', pt_Phone := Some ''08'',
     pt_Education := Some (Some (JArr [JObj [(''institution'', JStr ''UI'')]])), pt_Skills := Some (Some (JArr [JStr ''Go''])),
     pt_PreferredLocations := Some (Some (JArr [JStr ''Jakarta''])), pt_WorkAuthorization := Some ''citizen'',
     pt_EmploymentType := Some ''full_time'', pt_ExpectedSalary := Some (JNum ''9000000''),
     pt_LinkedInURL := Some '' https://linkedin.com/in/ana ''\<rparr>"

definition demo_ana :: user where
  "demo_ana = \<lparr>u_ID = ''ana'', u_Email = ''ana@x.id'', u_PasswordHash = [], u_Verified = True, u_CreatedAt = 0, u_ConsentAt = 0\<rparr>"

definition demo_profenv :: profEnv where
  "demo_profenv = \<lparr>pe_now = (\<lambda>n. 77 + int n), pe_uuid = (\<lambda>_. True), pe_files = None, pe_content = (\<lambda>_ _. Inl CvNotFound)\<rparr>"

definition demo_profcalls :: "profCall list" where
  "demo_profcalls = [PPatch (Some demo_ana) (Some demo_patch), PConfirm (Some demo_ana)]"

abbreviation "demo_confirmed \<equiv> prof_run demo_profenv newProfiles demo_profcalls"

lemma demo_confirmed_get:
  "gget (ps_repo demo_confirmed) ''ana'' = Some (the (gget (ps_repo demo_confirmed) ''ana''))"
  "pr_Confirmed (the (gget (ps_repo demo_confirmed) ''ana''))"
  by code_simp+

theorem confirmed_only_complete_witness:
  "profileComplete (the (gget (ps_repo demo_confirmed) ''ana''))"
  using confirmed_only_complete [OF demo_confirmed_get(1)] demo_confirmed_get(2) by blast

section \<open>The gate\<close>

lemma load_after_save:
  "pq_Save profMemOps s p = (s', r) \<Longrightarrow> prof_load profMemOps \<lparr>ps_repo = s', ps_ticks = n\<rparr> (pr_UserID p) = Inr p"
  by (auto simp: profMemOps_def pm_Save_def prof_load_def pm_Get_def)

text \<open>
  C2: An accepted edit closes the gate, whether the profile was confirmed before or not:
  after a patch answered 200, or a parsed CV that was applied, arming is refused with 403, and
  no request for the fill snapshot is served: with no CV named, or any CV named by a well-formed
  id, the answer is 403; a malformed id is refused with 400 before the profile is read.
\<close>

theorem edit_closes_gate:
  assumes "profs_ok (gget (ps_repo st))"
    and "c = PPatch (Some u) (Some req) \<and> status (snd (handlePatch profMemOps st (Some u) (Some req))) = 200 \<or>
      c = PParsed (u_ID u) parsed \<and> snd (ApplyParsedCV profMemOps st (u_ID u) parsed)"
  shows "handleArm profMemOps (prof_call profMemOps env st c) (Some u) = Resp 403 (ProfArm False) \<and>
    handleFill profMemOps env (prof_call profMemOps env st c) (Some u) cvID =
      (if cvID = [] \<or> pe_uuid env cvID then profErr 403 ''profile not confirmed'' else profErr 400 ''invalid cv_id'')"
proof -
  have g: "\<exists>p. gget (ps_repo (prof_call profMemOps env st c)) (u_ID u) = Some p \<and> \<not> pr_Confirmed p"
  proof (cases "c = PPatch (Some u) (Some req)")
    case True
    then have s: "status (snd (handlePatch profMemOps st (Some u) (Some req))) = 200" using assms(2) by auto
    obtain p where p: "prof_load profMemOps st (u_ID u) = Inr p"
      using s by (cases "prof_load profMemOps st (u_ID u)") (auto simp: handlePatch_def profErr_def)
    obtain q where q: "applyPatch req p = Inr q" using s p by (cases "applyPatch req p") (auto simp: handlePatch_def profErr_def)
    have "pr_UserID q = u_ID u" using applyPatch_ok [OF q] profmem.load_ok [OF assms(1) p] by simp
    then show ?thesis using p q True by (simp add: handlePatch_def profMemOps_def pm_Save_def)
  next
    case False
    then have c: "c = PParsed (u_ID u) parsed" "snd (ApplyParsedCV profMemOps st (u_ID u) parsed)" using assms(2) by auto
    obtain p where p: "prof_load profMemOps st (u_ID u) = Inr p"
      using c(2) by (cases "prof_load profMemOps st (u_ID u)") (auto simp: ApplyParsedCV_def)
    have "pr_UserID (parsedInto parsed p) = u_ID u" using profmem.load_ok [OF assms(1) p] parsedInto_ok(2) by simp
    then show ?thesis using p c(1) parsedInto_ok(3) by (simp add: ApplyParsedCV_def profMemOps_def pm_Save_def)
  qed
  then show ?thesis by (auto simp: handleArm_def handleFill_def prof_load_def profMemOps_def pm_Get_def CanArm_def)
qed

theorem edit_closes_gate_witness:
  "handleArm profMemOps (prof_call profMemOps demo_profenv demo_confirmed (PPatch (Some demo_ana) (Some noPatch))) (Some demo_ana)
    = Resp 403 (ProfArm False) \<and>
   handleFill profMemOps demo_profenv (prof_call profMemOps demo_profenv demo_confirmed (PPatch (Some demo_ana) (Some noPatch)))
     (Some demo_ana) ''cv-1'' = profErr 403 ''profile not confirmed'' \<and>
   handleArm profMemOps demo_confirmed (Some demo_ana) = Resp 200 (ProfArm True)"
proof -
  have o: "profs_ok (gget (ps_repo demo_confirmed))" using run_profs [OF new_profs] by blast
  have s: "status (snd (handlePatch profMemOps demo_confirmed (Some demo_ana) (Some noPatch))) = 200" by code_simp
  have a: "handleArm profMemOps demo_confirmed (Some demo_ana) = Resp 200 (ProfArm True)" by code_simp
  show ?thesis
    using edit_closes_gate [OF o, of "PPatch (Some demo_ana) (Some noPatch)" demo_ana noPatch "cv_normalize undefined" demo_profenv "''cv-1''"]
      s a by (simp add: demo_profenv_def)
qed

text \<open>
  C1: The fill snapshot is given only to a signed-in user with a stored, confirmed profile.
  It consists of that user's own profile and, at most, one CV that the CV source gave out for
  this user.
\<close>

theorem fill_confirmed_only:
  assumes "status (handleFill profMemOps env st ctx cvID) = 200"
  shows "\<exists>u p cv. ctx = Some u \<and> gget (ps_repo st) (u_ID u) = Some p \<and> pr_Confirmed p \<and>
    handleFill profMemOps env st ctx cvID = Resp 200 (ProfFill (canonicalFillProfile p) cv) \<and>
    (cv = None \<or> (\<exists>i f dat. pe_content env (u_ID u) i = Inr (f, dat) \<and> cv = Some (fillCV f dat)))"
proof -
  obtain u where u: "ctx = Some u" using assms by (cases ctx) (auto simp: handleFill_def profErr_def)
  obtain p where p: "prof_load profMemOps st (u_ID u) = Inr p" "CanArm p"
    using assms u by (auto simp: handleFill_def profErr_def split: if_splits sum.splits)
  have g: "gget (ps_repo st) (u_ID u) = Some p"
    using p by (auto simp: prof_load_def profMemOps_def pm_Get_def CanArm_def emptyProfile_def split: option.splits sum.splits prof_err.splits)
  have cv: "\<exists>cv. fillWithCV env (u_ID u) out i = Resp 200 (ProfFill out cv) \<and>
      (cv = None \<or> (\<exists>i f dat. pe_content env (u_ID u) i = Inr (f, dat) \<and> cv = Some (fillCV f dat)))"
    if "status (fillWithCV env (u_ID u) out i) = 200" for out i
    using that by (auto simp: fillWithCV_def profErr_def split: if_splits sum.splits)
  have "\<exists>cv. handleFill profMemOps env st ctx cvID = Resp 200 (ProfFill (canonicalFillProfile p) cv) \<and>
      (cv = None \<or> (\<exists>i f dat. pe_content env (u_ID u) i = Inr (f, dat) \<and> cv = Some (fillCV f dat)))"
    using assms u p cv [of "canonicalFillProfile p"]
    by (auto simp: handleFill_def profErr_def split: if_splits sum.splits option.splits list.splits)
  then show ?thesis using u g p(2) by (auto simp: CanArm_def)
qed

theorem fill_confirmed_only_witness:
  "\<exists>p. pr_Confirmed p \<and> handleFill profMemOps demo_profenv demo_confirmed (Some demo_ana) [] = Resp 200 (ProfFill (canonicalFillProfile p) None)"
proof -
  have "status (handleFill profMemOps demo_profenv demo_confirmed (Some demo_ana) []) = 200" by code_simp
  from fill_confirmed_only [OF this] show ?thesis by (auto simp: demo_profenv_def)
qed

section \<open>Completeness\<close>

text \<open>
  The completeness score is ten for each check that passes; it is 100 exactly when
  nothing is missing, and then the profile may be confirmed. A profile that may be confirmed
  misses at most the work history and the summary.
\<close>

theorem completeness_score:
  "cp_Score (CalculateCompleteness p) = 10 * (10 - int (length (cp_Missing (CalculateCompleteness p)))) \<and>
   (cp_Complete (CalculateCompleteness p) \<longleftrightarrow> cp_Score (CalculateCompleteness p) = 100) \<and>
   (cp_Complete (CalculateCompleteness p) \<longleftrightarrow>
     profileComplete p \<and> hasEntries (pr_WorkHistory p) \<and> trim_space (pr_Summary p) \<noteq> []) \<and>
   (profileComplete p \<longleftrightarrow> set (cp_Missing (CalculateCompleteness p)) \<subseteq> {''work_history'', ''summary''})"
proof -
  let ?c = "completenessChecks p"
  have "length (filter snd ?c) + length (filter (\<lambda>(n, good). \<not> good) ?c) = 10"
    using sum_length_filter_compl [of snd ?c] by (simp add: completenessChecks_def case_prod_unfold)
  then have n: "length (filter snd ?c) = 10 - length (filter (\<lambda>(n, good). \<not> good) ?c)"
    "length (filter (\<lambda>(n, good). \<not> good) ?c) \<le> 10" by linarith+
  have len: "length ?c = 10" by (simp add: completenessChecks_def)
  have 1: "cp_Score (CalculateCompleteness p) = 10 * (10 - int (length (cp_Missing (CalculateCompleteness p))))"
    using n by (simp add: CalculateCompleteness_def Let_def len of_nat_diff)
  have 2: "cp_Complete (CalculateCompleteness p) \<longleftrightarrow> cp_Missing (CalculateCompleteness p) = []"
    by (simp add: CalculateCompleteness_def Let_def)
  have 3: "cp_Complete (CalculateCompleteness p) \<longleftrightarrow>
      profileComplete p \<and> hasEntries (pr_WorkHistory p) \<and> trim_space (pr_Summary p) \<noteq> []"
  proof -
    have "cp_Missing (CalculateCompleteness p) = [] \<longleftrightarrow> list_all snd ?c"
      by (auto simp: CalculateCompleteness_def Let_def filter_empty_conv list_all_iff)
    then show ?thesis unfolding 2 by (simp add: completenessChecks_def profileComplete_def conj_ac)
  qed
  have 4: "profileComplete p \<longleftrightarrow> set (cp_Missing (CalculateCompleteness p)) \<subseteq> {''work_history'', ''summary''}"
  proof -
    have "set (cp_Missing (CalculateCompleteness p)) \<subseteq> S \<longleftrightarrow> list_all (\<lambda>(n, good). good \<or> n \<in> S) ?c" for S
      by (auto simp: CalculateCompleteness_def Let_def list_all_iff)
    then show ?thesis by (simp add: completenessChecks_def profileComplete_def conj_ac)
  qed
  have 5: "cp_Complete (CalculateCompleteness p) \<longleftrightarrow> cp_Score (CalculateCompleteness p) = 100"
    unfolding 1 2 by simp
  show ?thesis using 1 3 4 5 by blast
qed

end
