(* ===== verification/Storage.thy ===== *)
theory Storage
  imports Go_Prelude
begin

text \<open>
  Object storage (\<open>internal/storage/storage.go\<close>): the interface \<open>ObjectStore\<close> with its contract,
  the in-memory store, and the store that encrypts what it passes on. AES-256-GCM and the
  random source are parameters; \<open>aead_ok\<close> is what \<open>crypto/cipher\<close> documents of the former.
\<close>

datatype obj_err = ObjNotFound | ObjTooShort | ObjDecrypt | ObjNonce | ObjOther

record 's objectStore =
  os_Put :: "'s \<Rightarrow> string \<Rightarrow> string \<Rightarrow> 's \<times> obj_err option"
  os_Get :: "'s \<Rightarrow> string \<Rightarrow> obj_err + string"
  os_Delete :: "'s \<Rightarrow> string \<Rightarrow> 's \<times> obj_err option"

text \<open>The contract: a store maps keys to contents, and a failed operation changes nothing.\<close>

locale object_store =
  fixes S :: "'s objectStore" and good :: "'s \<Rightarrow> bool" and content :: "'s \<Rightarrow> string \<Rightarrow> string option"
  assumes Put_ok: "good s \<Longrightarrow> os_Put S s k d = (s', None) \<Longrightarrow> good s' \<and> content s' = (content s)(k \<mapsto> d)"
    and Put_err: "good s \<Longrightarrow> os_Put S s k d = (s', Some e) \<Longrightarrow> good s' \<and> content s' = content s"
    and Get_ok: "good s \<Longrightarrow> os_Get S s k = Inr d \<longleftrightarrow> content s k = Some d"
    and Delete_ok: "good s \<Longrightarrow> os_Delete S s k = (s', None) \<Longrightarrow> good s' \<and> content s' = (content s)(k := None)"
    and Delete_err: "good s \<Longrightarrow> os_Delete S s k = (s', Some e) \<Longrightarrow> good s' \<and> content s' = content s"
begin

lemma Put_cases:
  assumes "good s"
  shows "good (fst (os_Put S s k d)) \<and>
    content (fst (os_Put S s k d)) = (if snd (os_Put S s k d) = None then (content s)(k \<mapsto> d) else content s)"
proof (cases "os_Put S s k d")
  case (Pair s' r)
  show ?thesis
  proof (cases r)
    case None
    show ?thesis using Put_ok [OF assms Pair [unfolded None]] unfolding Pair None by simp
  next
    case (Some e)
    show ?thesis using Put_err [OF assms Pair [unfolded Some]] unfolding Pair Some by simp
  qed
qed

lemma Delete_cases:
  assumes "good s"
  shows "good (fst (os_Delete S s k)) \<and>
    content (fst (os_Delete S s k)) = (if snd (os_Delete S s k) = None then (content s)(k := None) else content s)"
proof (cases "os_Delete S s k")
  case (Pair s' r)
  show ?thesis
  proof (cases r)
    case None
    show ?thesis using Delete_ok [OF assms Pair [unfolded None]] unfolding Pair None by simp
  next
    case (Some e)
    show ?thesis using Delete_err [OF assms Pair [unfolded Some]] unfolding Pair Some by simp
  qed
qed

lemma Put_Get: "good s \<Longrightarrow> os_Put S s k d = (s', None) \<Longrightarrow> os_Get S s' k = Inr d"
  using Put_ok [of s k d s'] Get_ok [of s' k d] by simp

end

section \<open>The in-memory store\<close>

type_synonym objMem = "(string, string) gomap"

definition om_Put :: "objMem \<Rightarrow> string \<Rightarrow> string \<Rightarrow> objMem \<times> obj_err option" where
  "om_Put m key dat = (gput key dat m, None)"

definition om_Get :: "objMem \<Rightarrow> string \<Rightarrow> obj_err + string" where
  "om_Get m key = (case gget m key of None \<Rightarrow> Inl ObjNotFound | Some dat \<Rightarrow> Inr dat)"

definition om_Delete :: "objMem \<Rightarrow> string \<Rightarrow> objMem \<times> obj_err option" where
  "om_Delete m key = (gdel key m, None)"

definition NewObjMem :: objMem where
  "NewObjMem = []"

definition objMemOps :: "objMem objectStore" where
  "objMemOps = \<lparr>os_Put = om_Put, os_Get = om_Get, os_Delete = om_Delete\<rparr>"

interpretation objmem: object_store objMemOps "\<lambda>_. True" gget
  by unfold_locales (auto simp: objMemOps_def om_Put_def om_Get_def om_Delete_def fun_eq_iff split: option.splits)

section \<open>Encryption at rest\<close>

record aead =
  ae_Seal :: "string \<Rightarrow> string \<Rightarrow> string"
  ae_Open :: "string \<Rightarrow> string \<Rightarrow> string option"

definition nonceSize :: nat where
  "nonceSize = 12"

definition tagSize :: nat where
  "tagSize = 16"

definition aead_ok :: "aead \<Rightarrow> bool" where
  "aead_ok G \<longleftrightarrow> (\<forall>n d. length n = nonceSize \<longrightarrow> ae_Open G n (ae_Seal G n d) = Some d) \<and>
     (\<forall>n d. length (ae_Seal G n d) = length d + tagSize)"

text \<open>
  \<open>en_rand\<close> are the successive reads of the random source, \<open>None\<close> for a failed one, and
  \<open>en_draws\<close> counts them.
\<close>

record 's encStore =
  en_backend :: 's
  en_gcm :: aead
  en_rand :: "nat \<Rightarrow> string option"
  en_draws :: nat

definition NewEncryptedStore ::
  "(string \<Rightarrow> aead) \<Rightarrow> (nat \<Rightarrow> string option) \<Rightarrow> 's \<Rightarrow> string \<Rightarrow> 's encStore option" where
  "NewEncryptedStore gcm rand backend key =
     (if length key \<noteq> 32 then None
      else Some \<lparr>en_backend = backend, en_gcm = gcm key, en_rand = rand, en_draws = 0\<rparr>)"

definition en_Put :: "'s objectStore \<Rightarrow> 's encStore \<Rightarrow> string \<Rightarrow> string \<Rightarrow> 's encStore \<times> obj_err option" where
  "en_Put B e key dat =
     (let e1 = e\<lparr>en_draws := Suc (en_draws e)\<rparr> in
      case en_rand e (en_draws e) of
        None \<Rightarrow> (e1, Some ObjNonce)
      | Some nonce \<Rightarrow> (case os_Put B (en_backend e) key (nonce @ ae_Seal (en_gcm e) nonce dat) of
          (b, r) \<Rightarrow> (e1\<lparr>en_backend := b\<rparr>, r)))"

definition en_Get :: "'s objectStore \<Rightarrow> 's encStore \<Rightarrow> string \<Rightarrow> obj_err + string" where
  "en_Get B e key =
     (case os_Get B (en_backend e) key of
        Inl err \<Rightarrow> Inl err
      | Inr stored \<Rightarrow>
          if length stored < nonceSize then Inl ObjTooShort
          else (case ae_Open (en_gcm e) (take nonceSize stored) (drop nonceSize stored) of
            None \<Rightarrow> Inl ObjDecrypt
          | Some plain \<Rightarrow> Inr plain))"

definition en_Delete :: "'s objectStore \<Rightarrow> 's encStore \<Rightarrow> string \<Rightarrow> 's encStore \<times> obj_err option" where
  "en_Delete B e key = (case os_Delete B (en_backend e) key of (b, r) \<Rightarrow> (e\<lparr>en_backend := b\<rparr>, r))"

definition encOps :: "'s objectStore \<Rightarrow> 's encStore objectStore" where
  "encOps B = \<lparr>os_Put = en_Put B, os_Get = en_Get B, os_Delete = en_Delete B\<rparr>"

text \<open>What an encrypting store holds, read through the backend.\<close>

definition rand_ok :: "(nat \<Rightarrow> string option) \<Rightarrow> bool" where
  "rand_ok rand \<longleftrightarrow> (\<forall>n b. rand n = Some b \<longrightarrow> length b = nonceSize)"

definition en_good :: "('s \<Rightarrow> bool) \<Rightarrow> 's encStore \<Rightarrow> bool" where
  "en_good good e \<longleftrightarrow> good (en_backend e) \<and> aead_ok (en_gcm e) \<and> rand_ok (en_rand e)"

definition en_content :: "('s \<Rightarrow> string \<Rightarrow> string option) \<Rightarrow> 's encStore \<Rightarrow> string \<Rightarrow> string option" where
  "en_content content e k =
     (case content (en_backend e) k of
        None \<Rightarrow> None
      | Some c \<Rightarrow> if length c < nonceSize then None else ae_Open (en_gcm e) (take nonceSize c) (drop nonceSize c))"

context object_store begin

text \<open>Encryption keeps the contract.\<close>

lemma encrypted: "object_store (encOps S) (en_good good) (en_content content)"
proof
  fix e e' k d
  assume g: "en_good good e"
  note gb = g [unfolded en_good_def]
  show "en_good good e' \<and> en_content content e' = (en_content content e)(k \<mapsto> d)" if put: "os_Put (encOps S) e k d = (e', None)"
  proof -
    obtain nonce b where n: "en_rand e (en_draws e) = Some nonce"
      "os_Put S (en_backend e) k (nonce @ ae_Seal (en_gcm e) nonce d) = (b, None)"
      "e' = e\<lparr>en_draws := Suc (en_draws e), en_backend := b\<rparr>"
    proof (cases "en_rand e (en_draws e)")
      case None
      then show ?thesis using put by (simp add: encOps_def en_Put_def Let_def)
    next
      case (Some nonce)
      show ?thesis
        using that put Some
        by (cases "os_Put S (en_backend e) k (nonce @ ae_Seal (en_gcm e) nonce d)")
          (auto simp: encOps_def en_Put_def Let_def)
    qed
    have len: "length nonce = nonceSize" using n(1) gb by (auto simp: rand_ok_def)
    have "good b" "content b = (content (en_backend e))(k \<mapsto> nonce @ ae_Seal (en_gcm e) nonce d)"
      using Put_ok [OF _ n(2)] gb by auto
    then show ?thesis using n(3) gb len
      by (auto simp: en_good_def en_content_def fun_eq_iff aead_ok_def split: option.split)
  qed
  show "os_Get (encOps S) e k = Inr d \<longleftrightarrow> en_content content e k = Some d"
  proof (cases "os_Get S (en_backend e) k")
    case (Inl err)
    then have "content (en_backend e) k = None" using Get_ok [of "en_backend e" k] gb by (cases "content (en_backend e) k") auto
    then show ?thesis using Inl by (simp add: encOps_def en_Get_def en_content_def)
  next
    case (Inr c)
    then have "content (en_backend e) k = Some c" using Get_ok [of "en_backend e" k c] gb by simp
    then show ?thesis using Inr by (simp add: encOps_def en_Get_def en_content_def split: option.split)
  qed
  show "en_good good e' \<and> en_content content e' = (en_content content e)(k := None)" if "os_Delete (encOps S) e k = (e', None)"
    using that Delete_ok [of "en_backend e" k] gb
    by (auto simp: encOps_def en_Delete_def en_good_def en_content_def fun_eq_iff split: prod.splits option.split)
next
  fix e e' k d err
  assume g: "en_good good e"
  show "en_good good e' \<and> en_content content e' = en_content content e" if "os_Put (encOps S) e k d = (e', Some err)"
    using that Put_err [of "en_backend e" k] g
    by (auto simp: encOps_def en_Put_def en_good_def en_content_def fun_eq_iff Let_def split: prod.splits option.splits)
  show "en_good good e' \<and> en_content content e' = en_content content e" if "os_Delete (encOps S) e k = (e', Some err)"
    using that Delete_err [of "en_backend e" k] g
    by (auto simp: encOps_def en_Delete_def en_good_def en_content_def fun_eq_iff split: prod.splits option.split)
qed

end

interpretation encmem: object_store "encOps objMemOps" "en_good (\<lambda>_. True)" "en_content gget"
  by (rule objmem.encrypted)

text \<open>
  C11: What is put into the encrypted store is read back from the same key until it is
  overwritten or deleted, other keys keep their contents, and the bytes at rest are not the
  plaintext: they are 28 bytes longer.
\<close>

theorem encrypted_at_rest:
  assumes "aead_ok (en_gcm e)" "rand_ok (en_rand e)" "en_Put objMemOps e k d = (e', None)"
  shows "en_Get objMemOps e' k = Inr d \<and> (\<forall>k'. k' = k \<or> en_Get objMemOps e' k' = en_Get objMemOps e k') \<and>
    (\<exists>stored. gget (en_backend e') k = Some stored \<and> length stored = length d + 28)"
proof -
  have g: "en_good (\<lambda>_. True) e" using assms(1,2) by (simp add: en_good_def)
  have 1: "en_Get objMemOps e' k = Inr d"
    using encmem.Put_Get [OF g, of k d e'] assms(3) by (simp add: encOps_def)
  have 2: "en_Get objMemOps e' k' = en_Get objMemOps e k'" if "k' \<noteq> k" for k'
    using that assms(3) by (auto simp: en_Put_def en_Get_def objMemOps_def om_Put_def om_Get_def Let_def split: option.splits)
  have 3: "\<exists>stored. gget (en_backend e') k = Some stored \<and> length stored = length d + 28"
    using assms by (auto simp: en_Put_def objMemOps_def om_Put_def Let_def aead_ok_def rand_ok_def nonceSize_def
        tagSize_def split: option.splits)
  show ?thesis using 1 2 3 by blast
qed

text \<open>A cipher that only appends a tag, to show that the hypotheses can hold.\<close>

definition tagAEAD :: aead where
  "tagAEAD = \<lparr>ae_Seal = (\<lambda>n d. d @ replicate tagSize CHR ''t''), ae_Open = (\<lambda>n c. Some (take (length c - tagSize) c))\<rparr>"

theorem encrypted_at_rest_witness:
  "\<exists>e' :: objMem encStore. en_Get objMemOps e' ''k'' = Inr ''cv'' \<and>
    (\<exists>stored. gget (en_backend e') ''k'' = Some stored \<and> length stored = 30)"
proof -
  let ?e = "\<lparr>en_backend = NewObjMem, en_gcm = tagAEAD, en_rand = (\<lambda>_. Some (replicate 12 CHR ''n'')), en_draws = 0\<rparr>"
  have a: "aead_ok (en_gcm ?e)" "rand_ok (en_rand ?e)"
    by (auto simp: aead_ok_def tagAEAD_def rand_ok_def nonceSize_def tagSize_def)
  obtain e' r where o: "en_Put objMemOps ?e ''k'' ''cv'' = (e', r)" by (cases "en_Put objMemOps ?e ''k'' ''cv''")
  then have "r = None" by (auto simp: en_Put_def objMemOps_def om_Put_def Let_def)
  then show ?thesis using encrypted_at_rest [OF a, of "''k''" "''cv''" e'] o by auto
qed

end
