(* ===== verification/CV_Service.thy ===== *)
theory CV_Service
  imports CV_Store CV_Parser Storage Auth_Repo
begin

text \<open>
  The CV endpoints (\<open>internal/cv/service.go\<close>): uploads, listing, versions, parsing, the content
  of an owned file, and the erasure of a user's files. The service works on a metadata
  repository and an object store; the client lemmas hold for every pair that keeps the
  contracts.
\<close>

definition MaxUploadBytes :: int where
  "MaxUploadBytes = 5 * 1024 * 1024"

definition contentTypePDF :: string where
  "contentTypePDF = ''application/pdf''"

definition contentTypeDOCX :: string where
  "contentTypeDOCX = ''application/vnd.openxmlformats-officedocument.wordprocessingml.document''"

definition magicPDF :: string where "magicPDF = ''%PDF''"

definition magicZIP :: string where "magicZIP = [CHR 0x50, CHR 0x4B, CHR 0x03, CHR 0x04]"

text \<open>
  The environment: the service clock, the random source, \<open>archive/zip\<close> as the list of entry
  names of an archive, the parser, and the profile service as what \<open>ApplyParsedCV\<close> does to
  the profiles and whether it succeeds.
\<close>

record 'p cvEnv =
  ce_now :: "nat \<Rightarrow> time"
  ce_rand :: "nat \<Rightarrow> string option"
  ce_zip :: "string \<Rightarrow> string list option"
  ce_parser :: "(string \<Rightarrow> string \<Rightarrow> string \<Rightarrow> parse_err + ParsedCV) option"
  ce_apply :: "('p \<Rightarrow> string \<Rightarrow> ParsedCV \<Rightarrow> 'p \<times> bool) option"

record ('r, 'o, 'p) cvSvc =
  cs_repo :: 'r
  cs_objs :: 'o
  cs_profiles :: 'p
  cs_ticks :: nat
  cs_draws :: nat

record versionRequest =
  vr_Label :: string
  vr_IsPrimary :: "bool option"

record fileResp =
  fp_ID :: string
  fp_Filename :: string
  fp_Label :: string
  fp_IsPrimary :: bool
  fp_ContentType :: string
  fp_SizeBytes :: int
  fp_CreatedAt :: time

datatype cvBody = CvError string | CvOne fileResp | CvMany "fileResp list" | CvParsed ParsedCV

type_synonym cvResp = "cvBody resp"

definition cvErr :: "nat \<Rightarrow> string \<Rightarrow> cvResp" where
  "cvErr code msg = Resp code (CvError msg)"

definition cv_Routes :: "bool \<Rightarrow> string list" where
  "cv_Routes hasParser = [''POST /cv'', ''GET /cv'', ''PATCH /cv/{id}''] @ (if hasParser then [''POST /cv/{id}/parse''] else [])"

definition cv_toResp :: "cvFile \<Rightarrow> fileResp" where
  "cv_toResp f = \<lparr>fp_ID = fl_ID f, fp_Filename = fl_Filename f, fp_Label = fl_Label f, fp_IsPrimary = fl_IsPrimary f,
     fp_ContentType = fl_ContentType f, fp_SizeBytes = fl_SizeBytes f, fp_CreatedAt = fl_CreatedAt f\<rparr>"

section \<open>File types and keys\<close>

text \<open>\<open>filepath.Ext\<close>: from the last dot after the last slash.\<close>

definition file_ext :: "string \<Rightarrow> string" where
  "file_ext name =
     (let tail = takeWhile (\<lambda>c. c \<noteq> CHR ''/'') (rev name) in
      if CHR ''.'' \<in> set tail then CHR ''.'' # rev (takeWhile (\<lambda>c. c \<noteq> CHR ''.'') tail) else [])"

definition isDOCX :: "(string \<Rightarrow> string list option) \<Rightarrow> string \<Rightarrow> bool" where
  "isDOCX names_of dat =
     (if \<not> has_prefix dat magicZIP then False
      else case names_of dat of
        None \<Rightarrow> False
      | Some names \<Rightarrow> list_ex (\<lambda>n. n = ''[Content_Types].xml'') names \<and> list_ex (\<lambda>n. n = ''word/document.xml'') names)"

definition detectType :: "(string \<Rightarrow> string list option) \<Rightarrow> string \<Rightarrow> string \<Rightarrow> string option" where
  "detectType names_of filename dat =
     (let ext = to_lower (file_ext filename) in
      if ext = ''.pdf'' \<and> has_prefix dat magicPDF then Some contentTypePDF
      else if ext = ''.docx'' \<and> isDOCX names_of dat then Some contentTypeDOCX
      else None)"

definition objectKey :: "string \<Rightarrow> string \<Rightarrow> string \<Rightarrow> string" where
  "objectKey userID rand filename = ''cv/'' @ userID @ ''/'' @ hex_encode rand @ to_lower (file_ext filename)"

section \<open>Handlers\<close>

text \<open>
  The multipart form: no file field, a body over the limit, or the file's name and bytes,
  \<open>None\<close> when reading them fails. The reader stops one byte past the limit, which is enough
  for the length check and does not show otherwise.
\<close>

datatype uploadForm = FormMissing | FormTooLarge | FormFile string "string option"

definition newFile :: "string \<Rightarrow> string \<Rightarrow> string \<Rightarrow> string \<Rightarrow> int \<Rightarrow> time \<Rightarrow> cvFile" where
  "newFile userID key filename contentType sz created =
     \<lparr>fl_ID = [], fl_UserID = userID, fl_ObjectKey = key, fl_Filename = filename, fl_Label = [], fl_IsPrimary = False,
      fl_ContentType = contentType, fl_SizeBytes = sz, fl_CreatedAt = created\<rparr>"

definition storeUpload ::
  "'r cvRepo \<Rightarrow> 'o objectStore \<Rightarrow> 'p cvEnv \<Rightarrow> ('r, 'o, 'p) cvSvc \<Rightarrow> string \<Rightarrow> string \<Rightarrow> string \<Rightarrow> string \<Rightarrow>
   ('r, 'o, 'p) cvSvc \<times> cvResp" where
  "storeUpload R S env st userID filename contentType dat =
     (let st1 = st\<lparr>cs_draws := Suc (cs_draws st)\<rparr> in
      case ce_rand env (cs_draws st) of
        None \<Rightarrow> (st1, cvErr 500 ''key error'')
      | Some rand \<Rightarrow>
          (let key = objectKey userID rand filename in
           case os_Put S (cs_objs st1) key dat of
             (ob, Some _) \<Rightarrow> (st1\<lparr>cs_objs := ob\<rparr>, cvErr 500 ''store error'')
           | (ob, None) \<Rightarrow>
               (case rp_CreateFile R (cs_repo st1)
                       (newFile userID key filename contentType (int (length dat)) (ce_now env (cs_ticks st1))) of
                  (r, Inl _) \<Rightarrow> (st1\<lparr>cs_repo := r, cs_objs := fst (os_Delete S ob key), cs_ticks := Suc (cs_ticks st1)\<rparr>,
                               cvErr 500 ''persist error'')
                | (r, Inr f) \<Rightarrow> (st1\<lparr>cs_repo := r, cs_objs := ob, cs_ticks := Suc (cs_ticks st1)\<rparr>,
                               Resp 201 (CvOne (cv_toResp f))))))"

definition handleUpload ::
  "'r cvRepo \<Rightarrow> 'o objectStore \<Rightarrow> 'p cvEnv \<Rightarrow> ('r, 'o, 'p) cvSvc \<Rightarrow> user option \<Rightarrow> uploadForm \<Rightarrow>
   ('r, 'o, 'p) cvSvc \<times> cvResp" where
  "handleUpload R S env st ctx form =
     (case ctx of
        None \<Rightarrow> (st, cvErr 401 ''authentication required'')
      | Some u \<Rightarrow> (case form of
          FormTooLarge \<Rightarrow> (st, cvErr 413 ''file exceeds 5MB limit'')
        | FormMissing \<Rightarrow> (st, cvErr 400 ''missing file field'')
        | FormFile filename None \<Rightarrow> (st, cvErr 400 ''read error'')
        | FormFile filename (Some dat) \<Rightarrow>
            if int (length dat) > MaxUploadBytes then (st, cvErr 413 ''file exceeds 5MB limit'')
            else (case detectType (ce_zip env) filename dat of
              None \<Rightarrow> (st, cvErr 415 ''only PDF and DOCX are supported'')
            | Some contentType \<Rightarrow> storeUpload R S env st (u_ID u) filename contentType dat)))"

definition cv_handleList :: "'r cvRepo \<Rightarrow> ('r, 'o, 'p) cvSvc \<Rightarrow> user option \<Rightarrow> cvResp" where
  "cv_handleList R st ctx =
     (case ctx of
        None \<Rightarrow> cvErr 401 ''authentication required''
      | Some u \<Rightarrow> (case rp_FilesByUser R (cs_repo st) (u_ID u) of
          Inl _ \<Rightarrow> cvErr 500 ''list error''
        | Inr fs \<Rightarrow> Resp 200 (CvMany (map cv_toResp fs))))"

definition handleUpdateVersion ::
  "'r cvRepo \<Rightarrow> ('r, 'o, 'p) cvSvc \<Rightarrow> user option \<Rightarrow> string \<Rightarrow> versionRequest option \<Rightarrow> ('r, 'o, 'p) cvSvc \<times> cvResp" where
  "handleUpdateVersion R st ctx i body =
     (case ctx of
        None \<Rightarrow> (st, cvErr 401 ''authentication required'')
      | Some u \<Rightarrow> (case rp_UpdateVersion R of
          None \<Rightarrow> (st, cvErr 501 ''cv versions unavailable'')
        | Some update \<Rightarrow> (case body of
            None \<Rightarrow> (st, cvErr 400 ''invalid cv version'')
          | Some req \<Rightarrow>
              if vr_Label req = [] \<and> vr_IsPrimary req = None \<or> length (vr_Label req) > 100
              then (st, cvErr 400 ''invalid cv version'')
              else (case update (cs_repo st) (u_ID u) i (vr_Label req) (vr_IsPrimary req) of
                (r, Inl e) \<Rightarrow> (st\<lparr>cs_repo := r\<rparr>, if e = CvNotFound then cvErr 404 ''cv not found''
                                               else cvErr 500 ''update cv version'')
              | (r, Inr f) \<Rightarrow> (st\<lparr>cs_repo := r\<rparr>, Resp 200 (CvOne (cv_toResp f)))))))"

text \<open>\<open>Content\<close>: a missing file and somebody else's are the same error.\<close>

definition cv_Content :: "'r cvRepo \<Rightarrow> 'o objectStore \<Rightarrow> ('r, 'o, 'p) cvSvc \<Rightarrow> string \<Rightarrow> string \<Rightarrow> cv_err + cvFile \<times> string" where
  "cv_Content R S st userID i =
     (case rp_FileByID R (cs_repo st) i of
        Inl e \<Rightarrow> Inl e
      | Inr f \<Rightarrow>
          if fl_UserID f \<noteq> userID then Inl CvNotFound
          else (case os_Get S (cs_objs st) (fl_ObjectKey f) of
            Inl _ \<Rightarrow> Inl CvOther
          | Inr dat \<Rightarrow> Inr (f, dat)))"

definition handleParse ::
  "'r cvRepo \<Rightarrow> 'o objectStore \<Rightarrow> 'p cvEnv \<Rightarrow> ('r, 'o, 'p) cvSvc \<Rightarrow>
   (string \<Rightarrow> string \<Rightarrow> string \<Rightarrow> parse_err + ParsedCV) \<Rightarrow> user option \<Rightarrow> string \<Rightarrow> ('r, 'o, 'p) cvSvc \<times> cvResp" where
  "handleParse R S env st parse ctx i =
     (case ctx of
        None \<Rightarrow> (st, cvErr 401 ''authentication required'')
      | Some u \<Rightarrow> (case rp_FileByID R (cs_repo st) i of
          Inl _ \<Rightarrow> (st, cvErr 404 ''cv not found'')
        | Inr f \<Rightarrow>
            if fl_UserID f \<noteq> u_ID u then (st, cvErr 404 ''cv not found'')
            else (case os_Get S (cs_objs st) (fl_ObjectKey f) of
              Inl _ \<Rightarrow> (st, cvErr 500 ''read error'')
            | Inr dat \<Rightarrow> (case parse dat (fl_Filename f) (fl_ContentType f) of
                Inl e \<Rightarrow> (st, if e = ParserUnavailable then cvErr 503 ''cv parsing is not available''
                             else cvErr 502 ''parse failed'')
              | Inr parsed \<Rightarrow> (case ce_apply env of
                  None \<Rightarrow> (st, Resp 200 (CvParsed parsed))
                | Some app \<Rightarrow> (case app (cs_profiles st) (u_ID u) parsed of
                    (p, False) \<Rightarrow> (st\<lparr>cs_profiles := p\<rparr>, cvErr 500 ''persist error'')
                  | (p, True) \<Rightarrow> (st\<lparr>cs_profiles := p\<rparr>, Resp 200 (CvParsed parsed))))))))"

section \<open>Erasure\<close>

text \<open>Objects first, stopping at the first failure; the metadata only when all are gone.\<close>

fun deleteObjects :: "'o objectStore \<Rightarrow> 'o \<Rightarrow> string list \<Rightarrow> 'o \<times> bool" where
  "deleteObjects S ob [] = (ob, True)"
| "deleteObjects S ob (k # ks) = (case os_Delete S ob k of
     (ob1, Some _) \<Rightarrow> (ob1, False)
   | (ob1, None) \<Rightarrow> deleteObjects S ob1 ks)"

definition DeleteUserFiles :: "'r cvRepo \<Rightarrow> 'o objectStore \<Rightarrow> ('r, 'o, 'p) cvSvc \<Rightarrow> string \<Rightarrow> ('r, 'o, 'p) cvSvc \<times> bool" where
  "DeleteUserFiles R S st userID =
     (case rp_FilesByUser R (cs_repo st) userID of
        Inl _ \<Rightarrow> (st, False)
      | Inr fs \<Rightarrow> (case deleteObjects S (cs_objs st) (map fl_ObjectKey fs) of
          (ob, False) \<Rightarrow> (st\<lparr>cs_objs := ob\<rparr>, False)
        | (ob, True) \<Rightarrow> (case rp_DeleteByUser R (cs_repo st) userID of
            (r, e) \<Rightarrow> (st\<lparr>cs_objs := ob, cs_repo := r\<rparr>, e = None))))"

section \<open>On any repository and store that keep their contracts\<close>

locale cv_backend = cv_repo R rinv rows + object_store S good content
  for R :: "'r cvRepo" and rinv rows and S :: "'o objectStore" and good content
begin

abbreviation "svc_ok st \<equiv> rinv (cs_repo st) \<and> good (cs_objs st)"

lemma deleteObjects_effect:
  "good ob \<Longrightarrow> deleteObjects S ob ks = (ob', fin) \<Longrightarrow>
    good ob' \<and> (\<forall>k. k \<notin> set ks \<longrightarrow> content ob' k = content ob k) \<and> (fin \<longrightarrow> (\<forall>k\<in>set ks. content ob' k = None))"
proof (induction ks arbitrary: ob)
  case (Cons k ks)
  note d = Delete_cases [OF Cons.prems(1), of k]
  obtain ob1 r where o: "os_Delete S ob k = (ob1, r)" by (cases "os_Delete S ob k")
  show ?case
  proof (cases r)
    case None
    then have g: "good ob1" "content ob1 = (content ob)(k := None)" using d o by simp_all
    have e: "deleteObjects S ob1 ks = (ob', fin)" using Cons.prems(2) o None by simp
    show ?thesis using Cons.IH [OF g(1) e] g(2) by (cases "k \<in> set ks") auto
  next
    case (Some x)
    then show ?thesis using d o Cons.prems(2) by auto
  qed
qed simp

text \<open>Erasure: complete on success, and otherwise the metadata still names what may be left.\<close>

lemma erase_effect:
  assumes "svc_ok st" "DeleteUserFiles R S st u = (st', fin)"
  shows "svc_ok st' \<and> cs_profiles st' = cs_profiles st \<and>
    (fin \<longrightarrow> rows (cs_repo st') = (\<lambda>i. case rows (cs_repo st) i of None \<Rightarrow> None | Some f \<Rightarrow> if fl_UserID f = u then None else Some f) \<and>
      (\<forall>i f. rows (cs_repo st) i = Some f \<longrightarrow> fl_UserID f = u \<longrightarrow> content (cs_objs st') (fl_ObjectKey f) = None)) \<and>
    (\<not> fin \<longrightarrow> rows (cs_repo st') = rows (cs_repo st)) \<and>
    (\<forall>k. (\<forall>i f. rows (cs_repo st) i = Some f \<longrightarrow> fl_UserID f = u \<longrightarrow> fl_ObjectKey f \<noteq> k) \<longrightarrow>
      content (cs_objs st') k = content (cs_objs st) k)"
proof (cases "rp_FilesByUser R (cs_repo st) u")
  case (Inl e)
  then show ?thesis using assms by (auto simp: DeleteUserFiles_def)
next
  case (Inr fs)
  have ok: "rinv (cs_repo st)" "good (cs_objs st)" using assms(1) by simp_all
  have fs: "set fs = {f. \<exists>i. rows (cs_repo st) i = Some f \<and> fl_UserID f = u}" using FilesByUser [OF ok(1) Inr] by blast
  obtain ob d where o: "deleteObjects S (cs_objs st) (map fl_ObjectKey fs) = (ob, d)" by (cases "deleteObjects S (cs_objs st) (map fl_ObjectKey fs)")
  note e = deleteObjects_effect [OF ok(2) o]
  have others: "content ob k = content (cs_objs st) k"
    if "\<forall>i f. rows (cs_repo st) i = Some f \<longrightarrow> fl_UserID f = u \<longrightarrow> fl_ObjectKey f \<noteq> k" for k
  proof -
    have "k \<notin> set (map fl_ObjectKey fs)" using that fs by auto
    then show ?thesis using e by blast
  qed
  show ?thesis
  proof (cases d)
    case False
    then have "st' = st\<lparr>cs_objs := ob\<rparr>" "\<not> fin" using assms(2) Inr o by (auto simp: DeleteUserFiles_def)
    then show ?thesis using ok e others by simp
  next
    case True
    obtain r x where x: "rp_DeleteByUser R (cs_repo st) u = (r, x)" by (cases "rp_DeleteByUser R (cs_repo st) u")
    have st': "st' = st\<lparr>cs_objs := ob, cs_repo := r\<rparr>" "fin \<longleftrightarrow> x = None"
      using assms(2) Inr o True x by (auto simp: DeleteUserFiles_def)
    have gone: "content ob (fl_ObjectKey f) = None" if "rows (cs_repo st) i = Some f" "fl_UserID f = u" for i f
      using that e True fs by auto
    show ?thesis
    proof (cases x)
      case None
      then show ?thesis using DeleteByUser_ok [OF ok(1) x[unfolded None]] st' e others gone by simp
    next
      case (Some y)
      then show ?thesis using DeleteByUser_err [OF ok(1) x[unfolded Some]] st' e others by simp
    qed
  qed
qed

lemma Content_owned:
  assumes "svc_ok st" "cv_Content R S st u i = Inr (f, dat)"
  shows "rows (cs_repo st) i = Some f \<and> fl_UserID f = u \<and> content (cs_objs st) (fl_ObjectKey f) = Some dat"
proof -
  have ok: "rinv (cs_repo st)" "good (cs_objs st)" using assms(1) by simp_all
  have "rp_FileByID R (cs_repo st) i = Inr f \<and> fl_UserID f = u \<and> os_Get S (cs_objs st) (fl_ObjectKey f) = Inr dat"
    using assms(2) by (auto simp: cv_Content_def split: sum.splits if_splits)
  then show ?thesis using FileByID [OF ok(1)] Get_ok [OF ok(2)] by blast
qed

text \<open>Uploads: a 201 has stored the bytes under a fresh row, any other answer has added no row.\<close>

lemma storeUpload_effect:
  assumes "svc_ok st" "storeUpload R S env st u name ct dat = (st', resp)"
  shows "svc_ok st' \<and> (if status resp = 201
    then (\<exists>f. resp = Resp 201 (CvOne (cv_toResp f)) \<and> rows (cs_repo st) (fl_ID f) = None \<and>
      rows (cs_repo st') (fl_ID f) = Some f \<and> fl_UserID f = u \<and> fl_ContentType f = ct \<and> fl_SizeBytes f = int (length dat) \<and>
      content (cs_objs st') = (content (cs_objs st))(fl_ObjectKey f \<mapsto> dat))
    else rows (cs_repo st') = rows (cs_repo st))"
proof (cases "ce_rand env (cs_draws st)")
  case None
  then show ?thesis using assms by (auto simp: storeUpload_def Let_def cvErr_def)
next
  case (Some rand)
  have ok: "rinv (cs_repo st)" "good (cs_objs st)" using assms(1) by simp_all
  let ?key = "objectKey u rand name"
  note d = Put_cases [OF ok(2), of ?key dat]
  obtain ob x where o: "os_Put S (cs_objs st) ?key dat = (ob, x)" by (cases "os_Put S (cs_objs st) ?key dat")
  let ?f = "newFile u ?key name ct (int (length dat)) (ce_now env (cs_ticks st))"
  show ?thesis
  proof (cases x)
    case (Some e)
    then show ?thesis using assms(2) \<open>ce_rand env (cs_draws st) = Some rand\<close> o d ok
      by (auto simp: storeUpload_def Let_def cvErr_def)
  next
    case None
    obtain r y where c: "rp_CreateFile R (cs_repo st) ?f = (r, y)" by (cases "rp_CreateFile R (cs_repo st) ?f")
    show ?thesis
    proof (cases y)
      case (Inl e)
      then show ?thesis using assms(2) \<open>ce_rand env (cs_draws st) = Some rand\<close> o d ok None c
          CreateFile_err [OF ok(1) c[unfolded Inl]] Delete_cases [of ob ?key]
        by (auto simp: storeUpload_def Let_def cvErr_def)
    next
      case (Inr g)
      then show ?thesis using assms(2) \<open>ce_rand env (cs_draws st) = Some rand\<close> o d ok None c
          CreateFile_ok [OF ok(1) c[unfolded Inr]]
        by (auto simp: storeUpload_def Let_def cvErr_def newFile_def)
    qed
  qed
qed

lemma handleUpload_ok:
  assumes "svc_ok st" "handleUpload R S env st ctx form = (st', resp)"
  shows "svc_ok st'"
proof (cases "\<exists>u name ct dat. storeUpload R S env st u name ct dat = (st', resp)")
  case True
  then show ?thesis using storeUpload_effect [OF assms(1)] by blast
next
  case False
  then have "st' = st"
    using assms(2) by (auto simp: handleUpload_def split: option.splits uploadForm.splits if_splits)
  then show ?thesis using assms(1) by simp
qed

end

interpretation cvb: cv_backend cvMemOps cm_inv "\<lambda>m. gget (cm_files m)" "encOps objMemOps" "en_good (\<lambda>_. True)"
    "en_content gget"
  by unfold_locales

section \<open>Uploads, reads and erasure of encrypted CVs\<close>

type_synonym 'p memCVSvc = "(cvMem, objMem encStore, 'p) cvSvc"

abbreviation "cv_ok st \<equiv> cm_inv (cs_repo st) \<and> en_good (\<lambda>_. True) (cs_objs st)"

text \<open>
  C15: An upload is answered 201 only to a signed-in user, for at most 5 MiB that are a PDF
  or DOCX both by extension and by content; the record of the answer is then stored for
  that user under a new id with its size and type, and its bytes are read back decrypted
  from the encrypted store. Any other answer has added no record.
\<close>

theorem upload_stored:
  assumes "cv_ok st" "handleUpload cvMemOps (encOps objMemOps) env (st :: 'p memCVSvc) ctx form = (st', resp)"
  shows "cv_ok st' \<and> (if status resp = 201
    then (\<exists>u name dat f. ctx = Some u \<and> form = FormFile name (Some dat) \<and> int (length dat) \<le> MaxUploadBytes \<and>
      detectType (ce_zip env) name dat = Some (fl_ContentType f) \<and> fl_UserID f = u_ID u \<and> fl_SizeBytes f = int (length dat) \<and>
      resp = Resp 201 (CvOne (cv_toResp f)) \<and> gget (cm_files (cs_repo st)) (fl_ID f) = None \<and>
      cv_Content cvMemOps (encOps objMemOps) st' (u_ID u) (fl_ID f) = Inr (f, dat))
    else gget (cm_files (cs_repo st')) = gget (cm_files (cs_repo st)))"
proof (cases "\<exists>u name dat ct. ctx = Some u \<and> form = FormFile name (Some dat) \<and> int (length dat) \<le> MaxUploadBytes \<and>
    detectType (ce_zip env) name dat = Some ct")
  case True
  then obtain u name dat ct where a: "ctx = Some u" "form = FormFile name (Some dat)" "int (length dat) \<le> MaxUploadBytes"
    "detectType (ce_zip env) name dat = Some ct" by blast
  have s: "storeUpload cvMemOps (encOps objMemOps) env st (u_ID u) name ct dat = (st', resp)"
    using assms(2) a by (simp add: handleUpload_def)
  have read: "cv_Content cvMemOps (encOps objMemOps) st' (u_ID u) (fl_ID f) = Inr (f, dat)"
    if "gget (cm_files (cs_repo st')) (fl_ID f) = Some f" "fl_UserID f = u_ID u"
      "en_content gget (cs_objs st') (fl_ObjectKey f) = Some dat" "cv_ok st'" for f
    using that encmem.Get_ok [of "cs_objs st'" "fl_ObjectKey f" dat]
    by (simp add: cv_Content_def cvMemOps_def cm_FileByID_def)
  note e = cvb.storeUpload_effect [OF assms(1) s]
  show ?thesis
  proof (cases "status resp = 201")
    case True
    with e obtain f where f: "resp = Resp 201 (CvOne (cv_toResp f))" "gget (cm_files (cs_repo st)) (fl_ID f) = None"
      "gget (cm_files (cs_repo st')) (fl_ID f) = Some f" "fl_UserID f = u_ID u" "fl_ContentType f = ct"
      "fl_SizeBytes f = int (length dat)" "en_content gget (cs_objs st') (fl_ObjectKey f) = Some dat" "cv_ok st'"
      by auto
    then show ?thesis using True a read [OF f(3,4,7,8)] by auto
  next
    case False
    then show ?thesis using e by simp
  qed
next
  case False
  then have "st' = st \<and> status resp \<noteq> 201"
    using assms(2) by (auto simp: handleUpload_def cvErr_def not_less split: option.splits uploadForm.splits if_splits)
  then show ?thesis using assms(1) by simp
qed

text \<open>
  The content of a CV is given out only to its owner: a file of somebody else is as
  absent as one that does not exist, both from the content call and from the parse
  endpoint.
\<close>

theorem cv_content_owner_only:
  assumes "cv_ok st" "\<And>f. gget (cm_files (cs_repo st)) i = Some f \<Longrightarrow> fl_UserID f \<noteq> u_ID u"
  shows "cv_Content cvMemOps (encOps objMemOps) (st :: 'p memCVSvc) (u_ID u) i = Inl CvNotFound \<and>
    handleParse cvMemOps (encOps objMemOps) env st parse (Some u) i = (st, cvErr 404 ''cv not found'')"
  using assms(2) by (auto simp: cv_Content_def handleParse_def cvMemOps_def cm_FileByID_def split: option.splits)

text \<open>
  Erasing a user's CVs either removes every record of theirs and every object these
  name, or fails and leaves all records in place, so that no stored object is orphaned;
  records and objects of other users are untouched either way.
\<close>

theorem cv_erasure:
  assumes "cv_ok st" "DeleteUserFiles cvMemOps (encOps objMemOps) (st :: 'p memCVSvc) u = (st', fin)"
  shows "(if fin
     then (\<forall>i f. gget (cm_files (cs_repo st')) i = Some f \<longrightarrow> fl_UserID f \<noteq> u) \<and>
       (\<forall>i f. gget (cm_files (cs_repo st)) i = Some f \<longrightarrow> fl_UserID f = u \<longrightarrow>
         en_content gget (cs_objs st') (fl_ObjectKey f) = None)
     else gget (cm_files (cs_repo st')) = gget (cm_files (cs_repo st))) \<and>
    (\<forall>i f. gget (cm_files (cs_repo st)) i = Some f \<longrightarrow> fl_UserID f \<noteq> u \<longrightarrow> gget (cm_files (cs_repo st')) i = Some f) \<and>
    (\<forall>k. (\<forall>i f. gget (cm_files (cs_repo st)) i = Some f \<longrightarrow> fl_UserID f = u \<longrightarrow> fl_ObjectKey f \<noteq> k) \<longrightarrow>
      en_content gget (cs_objs st') k = en_content gget (cs_objs st) k)"
  using cvb.erase_effect [OF assms] by (cases fin) (auto split: option.splits if_splits)

definition demo_cvsvc :: "unit memCVSvc" where
  "demo_cvsvc = \<lparr>cs_repo = NewCVMemory demo_uuid int, cs_objs = \<lparr>en_backend = NewObjMem, en_gcm = tagAEAD,
     en_rand = (\<lambda>_. Some ''nonce-nonce!''), en_draws = 0\<rparr>, cs_profiles = (), cs_ticks = 0, cs_draws = 0\<rparr>"

definition demo_cvenv :: "unit cvEnv" where
  "demo_cvenv = \<lparr>ce_now = (\<lambda>n. 5 + int n), ce_rand = (\<lambda>_. Some ''0123456789abcdef''), ce_zip = (\<lambda>_. None),
     ce_parser = None, ce_apply = None\<rparr>"

definition demo_owner :: "string \<Rightarrow> user" where
  "demo_owner i = \<lparr>u_ID = i, u_Email = [], u_PasswordHash = [], u_Verified = True, u_CreatedAt = 0, u_ConsentAt = 0\<rparr>"

lemma demo_cvsvc_ok: "cv_ok demo_cvsvc"
  by (auto simp: demo_cvsvc_def cm_inv_new en_good_def rand_ok_def aead_ok_def tagAEAD_def nonceSize_def tagSize_def)

definition demo_upload :: "unit memCVSvc \<times> cvResp" where
  "demo_upload = handleUpload cvMemOps (encOps objMemOps) demo_cvenv demo_cvsvc (Some (demo_owner ''u1''))
     (FormFile ''cv.PDF'' (Some ''%PDF-1''))"

lemma demo_upload_status: "status (snd demo_upload) = 201"
  by code_simp

theorem upload_stored_witness:
  "\<exists>f. cv_Content cvMemOps (encOps objMemOps) (fst demo_upload) ''u1'' (fl_ID f) = Inr (f, ''%PDF-1'')"
proof -
  have o: "handleUpload cvMemOps (encOps objMemOps) demo_cvenv demo_cvsvc (Some (demo_owner ''u1''))
     (FormFile ''cv.PDF'' (Some ''%PDF-1'')) = (fst demo_upload, snd demo_upload)"
    by (simp add: demo_upload_def)
  show ?thesis using upload_stored [OF demo_cvsvc_ok o] demo_upload_status by (auto simp: demo_owner_def)
qed

lemma demo_upload_ok: "cv_ok (fst demo_upload)"
  using cvb.handleUpload_ok [OF demo_cvsvc_ok, of demo_cvenv "Some (demo_owner ''u1'')" "FormFile ''cv.PDF'' (Some ''%PDF-1'')"
      "fst demo_upload" "snd demo_upload"]
  by (simp add: demo_upload_def)

theorem cv_content_owner_only_witness:
  "cv_Content cvMemOps (encOps objMemOps) (fst demo_upload) ''u2'' ''i'' = Inl CvNotFound \<and>
   list_ex (\<lambda>f. fl_ID f = ''i'') (gvals (cm_files (cs_repo (fst demo_upload))))"
proof -
  have "list_all (\<lambda>(i, f). fl_UserID f \<noteq> ''u2'') (cm_files (cs_repo (fst demo_upload)))" by code_simp
  then have o: "fl_UserID f \<noteq> u_ID (demo_owner ''u2'')" if "gget (cm_files (cs_repo (fst demo_upload))) ''i'' = Some f" for f
    using gget_SomeD [OF that] by (auto simp: list_all_iff demo_owner_def)
  have "list_ex (\<lambda>f. fl_ID f = ''i'') (gvals (cm_files (cs_repo (fst demo_upload))))" by code_simp
  then show ?thesis
    using cv_content_owner_only [OF demo_upload_ok o] by (simp add: demo_owner_def)
qed

theorem cv_erasure_witness:
  "\<exists>st'. DeleteUserFiles cvMemOps (encOps objMemOps) (fst demo_upload) ''u1'' = (st', True) \<and>
    (\<forall>i f. gget (cm_files (cs_repo st')) i = Some f \<longrightarrow> fl_UserID f \<noteq> ''u1'')"
proof -
  let ?out = "DeleteUserFiles cvMemOps (encOps objMemOps) (fst demo_upload) ''u1''"
  have "snd ?out" by code_simp
  then have o: "?out = (fst ?out, True)" by (cases ?out) auto
  show ?thesis using cv_erasure [OF demo_upload_ok o] o by auto
qed

end
