(* ===== verification/Feed.thy ===== *)
theory Feed
  imports M5_Service Profile Go_Sort
begin

text \<open>
  The job feed (\<open>internal/feed\<close>): query parsing, the in-memory index with its order and
  paging, cards with stated and estimated pay, and the handler with its personalization.
\<close>

section \<open>The index\<close>

definition feed_matches :: "Job \<Rightarrow> JobQuery \<Rightarrow> bool" where
  "feed_matches j q =
     (let search = trim_space (to_lower (jq_Search q)); loc = trim_space (to_lower (jq_Location q)) in
      if search \<noteq> [] \<and> \<not> contains (to_lower (j_Title j @ '' '' @ j_Company j)) search then False
      else if \<not> opt_all (\<lambda>lo. opt_ex (\<lambda>hi. lo \<le> hi) (j_SalaryStatedMax j)) (jq_PayMin q) then False
      else if \<not> opt_all (\<lambda>hi. opt_ex (\<lambda>lo. lo \<le> hi) (j_SalaryStatedMin j)) (jq_PayMax q) then False
      else if loc \<noteq> [] \<and> \<not> contains (to_lower (j_Location j)) loc then False
      else if \<not> opt_all (\<lambda>b. j_Remote j = b) (jq_Remote q) then False
      else if jq_EmploymentType q \<noteq> [] \<and> j_EmploymentType j \<noteq> jq_EmploymentType q then False
      else if jq_Source q \<noteq> [] \<and> j_Source j \<noteq> jq_Source q then False
      else if \<not> opt_all (\<lambda>m. opt_all (\<lambda>y. y \<le> m) (j_YearsExperience j)) (jq_MaxYoE q) then False
      else if \<not> opt_all (\<lambda>t. opt_ex (\<lambda>p. \<not> before p t) (j_PostedAt j)) (jq_PostedAfter q) then False
      else list_all (\<lambda>want0. let want = to_lower (trim_space want0) in
             want = [] \<or> list_ex (\<lambda>r. contains (to_lower r) want) (j_Requirements j)) (jq_Skills q))"

definition feed_less :: "Job \<Rightarrow> Job \<Rightarrow> bool" where
  "feed_less a b =
     (case (j_PostedAt a, j_PostedAt b) of
        (Some ta, Some tb) \<Rightarrow> if ta \<noteq> tb then after ta tb
          else if j_Title a \<noteq> j_Title b then j_Title a < j_Title b else j_DedupKey a < j_DedupKey b
      | (Some _, None) \<Rightarrow> True
      | (None, Some _) \<Rightarrow> False
      | (None, None) \<Rightarrow> if j_Title a \<noteq> j_Title b then j_Title a < j_Title b else j_DedupKey a < j_DedupKey b)"

definition defaultLimit :: int where
  "defaultLimit = 20"

record feedResult =
  fr_Total :: int
  fr_Jobs :: "Job list"

definition feed_sorted :: "Job list \<Rightarrow> JobQuery \<Rightarrow> Job list" where
  "feed_sorted jobs q = sort_by feed_less (filter (\<lambda>j. feed_matches j q) jobs)"

definition Search :: "Job list \<Rightarrow> JobQuery \<Rightarrow> feedResult" where
  "Search jobs q =
     (let matched = feed_sorted jobs q;
          tot = int (length matched);
          limit = (if jq_Limit q \<le> 0 then defaultLimit else jq_Limit q);
          start0 = (if jq_Offset q < 0 then 0 else jq_Offset q);
          start = (if start0 > tot then tot else start0);
          end0 = start + limit;
          stop = (if end0 > tot then tot else end0)
      in \<lparr>fr_Total = tot, fr_Jobs = take (nat (stop - start)) (drop (nat start) matched)\<rparr>)"

section \<open>Queries\<close>

text \<open>The decoded query string; \<open>Get\<close> returns the first value of a key, or nothing.\<close>

type_synonym urlValues = "(string \<times> string) list"

definition vGet :: "urlValues \<Rightarrow> string \<Rightarrow> string" where
  "vGet v key = (case map_of v key of None \<Rightarrow> [] | Some s \<Rightarrow> s)"

definition badInt :: "string \<Rightarrow> string" where
  "badInt s = ''invalid integer: '' @ s"

definition optInt64 :: "string \<Rightarrow> string + int option" where
  "optInt64 s = (if s = [] then Inr None
     else (case parse_int64 s of None \<Rightarrow> Inl (badInt s) | Some n \<Rightarrow> Inr (Some n)))"

definition optInt :: "string \<Rightarrow> string + int option" where
  "optInt s = (if s = [] then Inr None
     else (case parse_int64 s of None \<Rightarrow> Inl (badInt s) | Some n \<Rightarrow> Inr (Some n)))"

definition intDefault :: "string \<Rightarrow> int \<Rightarrow> string + int" where
  "intDefault s def = (if s = [] then Inr def
     else (case parse_int64 s of None \<Rightarrow> Inl (badInt s) | Some n \<Rightarrow> Inr n))"

text \<open>\<open>strconv.ParseBool\<close>.\<close>

definition parse_bool :: "string \<Rightarrow> bool option" where
  "parse_bool s = (if s \<in> set [''1'', ''t'', ''T'', ''true'', ''TRUE'', ''True''] then Some True
     else if s \<in> set [''0'', ''f'', ''F'', ''false'', ''FALSE'', ''False''] then Some False else None)"

definition optBool :: "string \<Rightarrow> string + bool option" where
  "optBool s = (if s = [] then Inr None
     else (case parse_bool s of None \<Rightarrow> Inl ''remote must be true or false'' | Some b \<Rightarrow> Inr (Some b)))"

text \<open>\<open>time.Parse\<close> with the RFC 3339 layout is the argument \<open>rfc3339\<close>.\<close>

definition optTime :: "(string \<Rightarrow> time option) \<Rightarrow> string \<Rightarrow> string + time option" where
  "optTime rfc3339 s = (if s = [] then Inr None
     else (case rfc3339 s of None \<Rightarrow> Inl ''posted_after must be RFC3339'' | Some t \<Rightarrow> Inr (Some t)))"

definition bindR :: "'e + 'a \<Rightarrow> ('a \<Rightarrow> 'e + 'b) \<Rightarrow> 'e + 'b" where
  "bindR m f = (case m of Inl e \<Rightarrow> Inl e | Inr a \<Rightarrow> f a)"

definition parseQuery :: "(string \<Rightarrow> time option) \<Rightarrow> urlValues \<Rightarrow> string + JobQuery" where
  "parseQuery rfc3339 v =
     bindR (optInt64 (vGet v ''pay_min'')) (\<lambda>pay_min.
     bindR (optInt64 (vGet v ''pay_max'')) (\<lambda>pay_max.
     bindR (optInt (vGet v ''max_yoe'')) (\<lambda>max_yoe.
     bindR (optBool (vGet v ''remote'')) (\<lambda>remote.
     bindR (optTime rfc3339 (vGet v ''posted_after'')) (\<lambda>posted_after.
     bindR (intDefault (vGet v ''limit'') 0) (\<lambda>limit.
     bindR (intDefault (vGet v ''offset'') 0) (\<lambda>off.
       let q = \<lparr>jq_Search = vGet v ''q'', jq_PayMin = pay_min, jq_PayMax = pay_max, jq_Location = vGet v ''location'',
                jq_Remote = remote, jq_Skills = (if vGet v ''skills'' \<noteq> [] then split_on CHR '','' (vGet v ''skills'') else []),
                jq_MaxYoE = max_yoe, jq_EmploymentType = vGet v ''employment_type'', jq_Source = vGet v ''source'',
                jq_PostedAfter = posted_after, jq_Limit = limit, jq_Offset = off\<rparr>
       in case ValidateJobQuery q of
            Some msg \<Rightarrow> Inl msg
          | None \<Rightarrow> Inr (if jq_Limit q > 100 then q\<lparr>jq_Limit := 100\<rparr> else q))))))))"

definition normalizeQuery :: "JobQuery \<Rightarrow> JobQuery" where
  "normalizeQuery q0 =
     (let q1 = (if jq_Limit q0 \<le> 0 then q0\<lparr>jq_Limit := defaultLimit\<rparr> else q0);
          q2 = (if jq_Limit q1 > 100 then q1\<lparr>jq_Limit := 100\<rparr> else q1)
      in if jq_Offset q2 < 0 then q2\<lparr>jq_Offset := 0\<rparr> else q2)"

section \<open>Cards\<close>

fun group_rev :: "string \<Rightarrow> string" where
  "group_rev (a # b # c # d # ds) = a # b # c # CHR ''.'' # group_rev (d # ds)"
| "group_rev ds = ds"

text \<open>A dot before every group of three digits counted from the right.\<close>

definition grouped :: "int \<Rightarrow> string" where
  "grouped n =
     (let s = itoa n; neg = has_prefix s ''-''; digits = (if neg then drop 1 s else s);
          out = rev (group_rev (rev digits))
      in if neg then CHR ''-'' # out else out)"

definition estimatedSalaryLabel :: "SalaryEstimate \<Rightarrow> string" where
  "estimatedSalaryLabel e = ''~Rp '' @ grouped (se_Min e) @ '' - Rp '' @ grouped (se_Max e) @ '' (estimated)''"

definition salaryLabel :: "Job \<Rightarrow> string" where
  "salaryLabel j =
     (let cur = (if j_SalaryCurrency j = [] then ''IDR'' else j_SalaryCurrency j);
          sym = (if cur = ''IDR'' then ''Rp'' else cur)
      in case (j_SalaryStatedMin j, j_SalaryStatedMax j) of
           (Some lo, Some hi) \<Rightarrow> if lo \<noteq> hi then sym @ '' '' @ grouped lo @ '' - '' @ sym @ '' '' @ grouped hi
                               else sym @ '' '' @ grouped lo
         | (Some lo, None) \<Rightarrow> sym @ '' '' @ grouped lo
         | (None, Some hi) \<Rightarrow> sym @ '' '' @ grouped hi
         | (None, None) \<Rightarrow> [])"

record salaryCard =
  sc_StatedMin :: "int option"
  sc_StatedMax :: "int option"
  sc_EstimatedMin :: "int option"
  sc_EstimatedMax :: "int option"
  sc_Currency :: string
  sc_Label :: string
  sc_Stated :: bool
  sc_Estimated :: bool

record card =
  cd_DedupKey :: string
  cd_Source :: string
  cd_SourceURL :: string
  cd_Title :: string
  cd_Company :: string
  cd_Location :: string
  cd_Remote :: bool
  cd_Salary :: salaryCard
  cd_Seniority :: string
  cd_EmploymentType :: string
  cd_YearsExperience :: "int option"
  cd_Requirements :: "string list"
  cd_RequirementTags :: "string list"
  cd_MatchScore :: "int option"
  cd_AlreadyApplied :: bool
  cd_PostedAt :: "time option"

record feedResp =
  fd_Total :: int
  fd_Limit :: int
  fd_Offset :: int
  fd_Jobs :: "card list"

definition salaryOf :: "Job \<Rightarrow> salaryCard" where
  "salaryOf j =
     (let stated = (j_SalaryStatedMin j \<noteq> None \<or> j_SalaryStatedMax j \<noteq> None);
          s = \<lparr>sc_StatedMin = j_SalaryStatedMin j, sc_StatedMax = j_SalaryStatedMax j, sc_EstimatedMin = None,
               sc_EstimatedMax = None, sc_Currency = j_SalaryCurrency j, sc_Label = salaryLabel j, sc_Stated = stated,
               sc_Estimated = False\<rparr>
      in if stated then s
         else (case EstimateSalary j of
           None \<Rightarrow> s
         | Some e \<Rightarrow> s\<lparr>sc_EstimatedMin := Some (se_Min e), sc_EstimatedMax := Some (se_Max e), sc_Estimated := True,
                        sc_Label := estimatedSalaryLabel e\<rparr>))"

definition toCard :: "Job \<Rightarrow> card" where
  "toCard j = \<lparr>cd_DedupKey = j_DedupKey j, cd_Source = j_Source j, cd_SourceURL = j_SourceURL j, cd_Title = j_Title j,
     cd_Company = j_Company j, cd_Location = j_Location j, cd_Remote = j_Remote j, cd_Salary = salaryOf j,
     cd_Seniority = j_Seniority j, cd_EmploymentType = j_EmploymentType j, cd_YearsExperience = j_YearsExperience j,
     cd_Requirements = j_Requirements j, cd_RequirementTags = ExtractRequirementTags (j_Requirements j),
     cd_MatchScore = None, cd_AlreadyApplied = False, cd_PostedAt = j_PostedAt j\<rparr>"

section \<open>The handler\<close>

text \<open>
  The service's providers: the active listings, the two optional searches a database provider
  also has, and the optional profiles and job states.
\<close>

record feedEnv =
  fe_active :: "unit + Job list"
  fe_search :: "(JobQuery \<Rightarrow> unit + JobPage) option"
  fe_searchUser :: "(JobQuery \<Rightarrow> string \<Rightarrow> unit + JobPage) option"
  fe_profiles :: "(string \<Rightarrow> prof_err + Profile) option"
  fe_states :: "(string \<Rightarrow> string \<Rightarrow> m5_err + JobState) option"

datatype feedBody = FeedError string | FeedPage feedResp

definition feed_Routes :: "string list" where
  "feed_Routes = [''GET /feed'']"

text \<open>The visible listings and the states looked up on the way, or an error.\<close>

fun visibleJobs ::
  "(string \<Rightarrow> m5_err + JobState) \<Rightarrow> Job list \<Rightarrow> (Job list \<times> (string, JobState) gomap) option" where
  "visibleJobs get [] = Some ([], [])"
| "visibleJobs get (j # js) =
     (case get (j_DedupKey j) of
        Inl _ \<Rightarrow> None
      | Inr state \<Rightarrow> (case visibleJobs get js of
          None \<Rightarrow> None
        | Some (vis, sts) \<Rightarrow> Some (if js_Dismissed state then vis else j # vis,
            (if gget sts (j_DedupKey j) = None then gput (j_DedupKey j) state sts else sts))))"

definition pageResult :: "unit + JobPage \<Rightarrow> feedResult option" where
  "pageResult r = (case r of Inl _ \<Rightarrow> None | Inr page \<Rightarrow> Some \<lparr>fr_Total = jp_Total page, fr_Jobs = jp_Jobs page\<rparr>)"

definition feedResults ::
  "feedEnv \<Rightarrow> JobQuery \<Rightarrow> (user \<times> (string \<Rightarrow> string \<Rightarrow> m5_err + JobState)) option \<Rightarrow> (feedResult \<times> (string, JobState) gomap) option" where
  "feedResults env q personal =
     (case personal of
        Some (u, get) \<Rightarrow> (case fe_searchUser env of
            Some dbq \<Rightarrow> map_option (\<lambda>r. (r, [])) (pageResult (dbq q (u_ID u)))
          | None \<Rightarrow> (case fe_active env of
              Inl _ \<Rightarrow> None
            | Inr jobs \<Rightarrow> map_option (\<lambda>(vis, sts). (Search vis q, sts)) (visibleJobs (get (u_ID u)) jobs)))
      | None \<Rightarrow> (case fe_search env of
            Some dbq \<Rightarrow> map_option (\<lambda>r. (r, [])) (pageResult (dbq q))
          | None \<Rightarrow> (case fe_active env of
              Inl _ \<Rightarrow> None
            | Inr jobs \<Rightarrow> Some (Search jobs q, []))))"

definition applyState :: "(string \<Rightarrow> m5_err + JobState) \<Rightarrow> (string, JobState) gomap \<Rightarrow> Job \<Rightarrow> card \<Rightarrow> card option" where
  "applyState get sts j item =
     (case gget sts (j_DedupKey j) of
        Some state \<Rightarrow> Some (item\<lparr>cd_AlreadyApplied := js_AlreadyApplied state\<rparr>)
      | None \<Rightarrow> (case get (j_DedupKey j) of
          Inl _ \<Rightarrow> None
        | Inr state \<Rightarrow> Some (item\<lparr>cd_AlreadyApplied := js_AlreadyApplied state\<rparr>)))"

definition feedCard ::
  "(string \<Rightarrow> m5_err + JobState) option \<Rightarrow> (string, JobState) gomap \<Rightarrow> Profile option \<Rightarrow> Job \<Rightarrow> card option" where
  "feedCard get sts prof j =
     (case (case get of None \<Rightarrow> Some (toCard j) | Some g \<Rightarrow> applyState g sts j (toCard j)) of
        None \<Rightarrow> None
      | Some item \<Rightarrow> (case prof of
          None \<Rightarrow> Some item
        | Some p \<Rightarrow> Some (item\<lparr>cd_MatchScore := Some (MatchScore j (un_list un_string (pr_Skills p)))\<rparr>)))"

definition handleFeed ::
  "(string \<Rightarrow> time option) \<Rightarrow> feedEnv \<Rightarrow> user option \<Rightarrow> urlValues \<Rightarrow> feedBody resp" where
  "handleFeed rfc3339 env ctx v =
     (case parseQuery rfc3339 v of
        Inl msg \<Rightarrow> Resp 400 (FeedError msg)
      | Inr q0 \<Rightarrow>
          (let q = normalizeQuery q0;
               personal = (case ctx of None \<Rightarrow> None | Some u \<Rightarrow> map_option (Pair u) (fe_states env));
               prof = (case (personal, fe_profiles env) of
                         (Some (u, _), Some get) \<Rightarrow> (case get (u_ID u) of Inl _ \<Rightarrow> None | Inr p \<Rightarrow> Some p)
                       | _ \<Rightarrow> None)
           in case feedResults env q personal of
                None \<Rightarrow> Resp 500 (FeedError ''feed unavailable'')
              | Some (res, sts) \<Rightarrow>
                  (case all_some (map (feedCard (map_option (\<lambda>(u, get). get (u_ID u)) personal) sts prof) (fr_Jobs res)) of
                     None \<Rightarrow> Resp 500 (FeedError ''feed unavailable'')
                   | Some cards \<Rightarrow> Resp 200 (FeedPage \<lparr>fd_Total = fr_Total res, fd_Limit = jq_Limit q,
                       fd_Offset = jq_Offset q, fd_Jobs = cards\<rparr>))))"

end
