(* ===== verification/Feed_Theorems.thy ===== *)
theory Feed_Theorems
  imports Feed
begin

text \<open>
  What the feed promises: exact pages, agreement with the saved-filter matcher, honest pay
  labels, and personalization that hides dismissed listings.
\<close>

section \<open>The order and the pages\<close>

definition feed_key :: "Job \<Rightarrow> bool \<times> int" where
  "feed_key j = (case j_PostedAt j of None \<Rightarrow> (True, 0) | Some t \<Rightarrow> (False, - t))"

lemma feed_less_lex:
  "feed_less a b =
     (if fst (feed_key a) \<noteq> fst (feed_key b) then fst (feed_key a) < fst (feed_key b)
      else if snd (feed_key a) \<noteq> snd (feed_key b) then snd (feed_key a) < snd (feed_key b)
      else if j_Title a \<noteq> j_Title b then j_Title a < j_Title b else j_DedupKey a < j_DedupKey b)"
  by (auto simp: feed_less_def feed_key_def after_def split: option.splits)

lemma feed_order: "weak_order feed_less"
proof -
  have eq: "feed_less = (\<lambda>a b.
     if fst (feed_key a) \<noteq> fst (feed_key b) then fst (feed_key a) < fst (feed_key b)
      else if snd (feed_key a) \<noteq> snd (feed_key b) then snd (feed_key a) < snd (feed_key b)
      else if j_Title a \<noteq> j_Title b then j_Title a < j_Title b else j_DedupKey a < j_DedupKey b)"
    by (intro ext) (rule feed_less_lex)
  show ?thesis unfolding eq by (intro weak_order_lex weak_order_key)
qed

lemma feed_matches_paging [simp]:
  "feed_matches j (q\<lparr>jq_Limit := l, jq_Offset := off\<rparr>) = feed_matches j q"
  by (cases q) (simp only: feed_matches_def JobQuery.simps)

lemma feed_sorted_paging [simp]:
  "feed_sorted jobs (q\<lparr>jq_Limit := l, jq_Offset := off\<rparr>) = feed_sorted jobs q"
  by (simp add: feed_sorted_def)

lemma feed_sorted_props:
  "mset (feed_sorted jobs q) = filter_mset (\<lambda>j. feed_matches j q) (mset jobs)"
  "sorted_by feed_less (feed_sorted jobs q)"
  by (simp_all add: feed_sorted_def sorted_sort_by [OF feed_order])

lemma page_slice:
  "take (nat ((if int (off + Suc l) > int n then int n else int (off + Suc l)) - (if int off > int n then int n else int off)))
     (drop (nat (if int off > int n then int n else int off)) xs) = take (Suc l) (drop off xs)" if "n = length xs"
proof (cases "off \<le> length xs")
  case True
  then show ?thesis
  proof (cases "off + Suc l \<le> length xs")
    case True
    then have "nat (int (off + Suc l) - int off) = Suc l" by linarith
    then show ?thesis using True that by simp
  next
    case False
    have "nat (int (length xs) - int off) = length xs - off" by linarith
    then show ?thesis using False \<open>off \<le> length xs\<close> that by simp
  qed
qed (simp add: that)

lemma Search_page:
  "Search jobs (q\<lparr>jq_Limit := int (Suc l), jq_Offset := int off\<rparr>) =
     \<lparr>fr_Total = int (length (feed_sorted jobs q)), fr_Jobs = take (Suc l) (drop off (feed_sorted jobs q))\<rparr>"
proof -
  let ?m = "feed_sorted jobs q"
  have e: "(if int off > int (length ?m) then int (length ?m) else int off) + int (Suc l) > int (length ?m)
      \<longleftrightarrow> int (off + Suc l) > int (length ?m)" by auto
  have "take (nat ((if (if int off > int (length ?m) then int (length ?m) else int off) + int (Suc l) > int (length ?m)
          then int (length ?m) else (if int off > int (length ?m) then int (length ?m) else int off) + int (Suc l))
        - (if int off > int (length ?m) then int (length ?m) else int off)))
      (drop (nat (if int off > int (length ?m) then int (length ?m) else int off)) ?m)
      = take (Suc l) (drop off ?m)"
    using page_slice [of "length ?m" ?m off l] unfolding e by (auto split: if_splits)
  then show ?thesis
    by (simp add: Search_def Let_def del: of_nat_Suc)
qed

lemma concat_pages: "concat (map (\<lambda>k. take (Suc l) (drop (k * Suc l) xs)) [0..<n]) = take (n * Suc l) xs"
proof (induction n)
  case (Suc n)
  have "take (Suc n * Suc l) xs = take (n * Suc l) xs @ take (Suc l) (drop (n * Suc l) xs)"
    by (metis add.commute mult_Suc take_add)
  then show ?case using Suc.IH by (simp del: mult_Suc mult_Suc_right take_Suc)
qed simp

text \<open>
  C17: Paging through the feed with any page size shows every matching listing exactly once,
  newest first with undated listings last, and every page reports the number of matches.
\<close>

theorem feed_pages_exact:
  "let page = (\<lambda>k. Search jobs (q\<lparr>jq_Limit := int (Suc l), jq_Offset := int (k * Suc l)\<rparr>));
       shown = concat (map (\<lambda>k. fr_Jobs (page k)) [0..<length jobs])
   in mset shown = filter_mset (\<lambda>j. feed_matches j q) (mset jobs) \<and> sorted_by feed_less shown \<and>
      fr_Total (page k) = int (length (filter (\<lambda>j. feed_matches j q) jobs)) \<and> length (fr_Jobs (page k)) \<le> Suc l"
proof -
  have len: "length (feed_sorted jobs q) = length (filter (\<lambda>j. feed_matches j q) jobs)"
    by (simp add: feed_sorted_def)
  have "length (feed_sorted jobs q) \<le> length jobs * Suc l"
    using length_filter_le [of "\<lambda>j. feed_matches j q" jobs] unfolding len by (simp add: trans_le_add1)
  then have "concat (map (\<lambda>k. take (Suc l) (drop (k * Suc l) (feed_sorted jobs q))) [0..<length jobs]) = feed_sorted jobs q"
    unfolding concat_pages by (rule take_all)
  then show ?thesis
    unfolding Let_def Search_page feedResult.simps
    by (simp only: feed_sorted_props len length_take min.cobounded2 simp_thms min.commute)
qed

section \<open>The saved-filter matcher\<close>

text \<open>
  A listing the feed shows for a query is one the saved-filter matcher accepts for the same
  query; without skills the two agree. So an alert covers everything its filter shows.
\<close>

lemma feed_skill_wanted:
  "to_lower (trim_space w) = [] \<or> list_ex (\<lambda>r. contains (to_lower r) (to_lower (trim_space w))) (j_Requirements j) \<Longrightarrow>
   skillWanted j w"
  unfolding skillWanted_def Let_def trim_space_lower by (auto simp only: if_True if_False simp_thms split: if_split)

lemma feed_filter_agrees:
  "feed_matches j q \<Longrightarrow> m5_matches j q"
  "jq_Skills q = [] \<Longrightarrow> m5_matches j q = feed_matches j q"
  unfolding feed_matches_def m5_matches_def Let_def
  by (auto simp only: if_bool_eq_conj list_all_iff list.set simp_thms intro: feed_skill_wanted split: if_splits)

section \<open>Cards\<close>

lemma filter_group_rev: "CHR ''.'' \<notin> set ds \<Longrightarrow> filter (\<lambda>c. c \<noteq> CHR ''.'') (group_rev ds) = ds"
  by (induction ds rule: group_rev.induct) auto

lemma hd_group_rev: "ds \<noteq> [] \<Longrightarrow> group_rev ds \<noteq> [] \<and> hd (group_rev ds) = hd ds"
  by (cases ds rule: group_rev.cases) auto

lemma itoa_cases:
  obtains k where "itoa n = nat_digits k" "\<not> has_prefix (itoa n) ''-''"
  | k where "itoa n = CHR ''-'' # nat_digits k" "has_prefix (itoa n) ''-''"
proof (cases "n < 0")
  case False
  have "hd (nat_digits (nat n)) \<noteq> CHR ''-''"
    using nat_digits_hd [of "nat n"] is_digit_not_sign by metis
  then have "\<not> has_prefix (nat_digits (nat n)) ''-''"
    by (cases "nat_digits (nat n)") (auto simp: has_prefix_def)
  then show thesis using False that(1) by (simp add: itoa_def)
qed (simp add: itoa_def has_prefix_def that(2))

lemma nat_digits_no_dot: "CHR ''.'' \<notin> set (nat_digits k)"
  using nat_digits_digit [of k] by (auto simp: list.pred_set is_digit_def)

lemma grouped_digits: "filter (\<lambda>c. c \<noteq> CHR ''.'') (grouped n) = itoa n"
proof (cases n rule: itoa_cases)
  case (1 k)
  then show ?thesis
    by (simp add: grouped_def Let_def rev_filter [symmetric] filter_group_rev nat_digits_no_dot)
next
  case (2 k)
  then show ?thesis
    by (simp add: grouped_def Let_def rev_filter [symmetric] filter_group_rev nat_digits_no_dot)
qed

lemma grouped_last: "grouped n \<noteq> [] \<and> is_digit (last (grouped n))"
proof -
  have d: "rev (group_rev (rev (nat_digits k))) \<noteq> [] \<and> is_digit (last (rev (group_rev (rev (nat_digits k)))))" for k
  proof -
    have "last (nat_digits k) \<in> set (nat_digits k)" by simp
    then have "is_digit (last (nat_digits k))"
      using nat_digits_digit [of k] by (simp add: list.pred_set)
    then show ?thesis
      using hd_group_rev [of "rev (nat_digits k)"] by (simp add: last_rev hd_rev)
  qed
  show ?thesis
    using d by (cases n rule: itoa_cases) (simp_all add: grouped_def Let_def)
qed

definition isEstimateLabel :: "string \<Rightarrow> bool" where
  "isEstimateLabel s = has_suffix s ''(estimated)''"

lemma has_suffix_iff: "has_suffix s p \<longleftrightarrow> (\<exists>t. s = t @ p)"
  unfolding has_suffix_def by (metis append_take_drop_id append_eq_conv_conj diff_add_inverse2 le_add2 length_append)

lemma isEstimateLabel_last: "isEstimateLabel s \<Longrightarrow> s \<noteq> [] \<and> \<not> is_digit (last s)"
  by (auto simp: isEstimateLabel_def has_suffix_iff is_digit_def)

lemma isEstimateLabel_estimated: "isEstimateLabel (estimatedSalaryLabel e)"
proof -
  have "estimatedSalaryLabel e = (''~Rp '' @ grouped (se_Min e) @ '' - Rp '' @ grouped (se_Max e) @ '' '') @ ''(estimated)''"
    by (simp add: estimatedSalaryLabel_def)
  then show ?thesis unfolding isEstimateLabel_def has_suffix_iff by blast
qed

lemma stated_label: "salaryLabel j = [] \<and> j_SalaryStatedMin j = None \<and> j_SalaryStatedMax j = None \<or>
   salaryLabel j \<noteq> [] \<and> is_digit (last (salaryLabel j)) \<and> (j_SalaryStatedMin j \<noteq> None \<or> j_SalaryStatedMax j \<noteq> None)"
proof (cases "j_SalaryStatedMin j")
  case None
  then show ?thesis using grouped_last
    by (cases "j_SalaryStatedMax j") (simp_all add: salaryLabel_def Let_def)
next
  case (Some lo)
  then show ?thesis using grouped_last
    by (cases "j_SalaryStatedMax j") (simp_all add: salaryLabel_def Let_def)
qed

text \<open>
  A card tells stated from estimated pay: an estimate appears only without a stated
  amount, its label, and no other, ends in "(estimated)", a card with neither has an empty
  label, and the dotted amounts of the labels have the digits of the number.
\<close>

theorem card_pay_labelled:
  "let s = cd_Salary (toCard j)
   in (\<not> sc_Stated s) = (j_SalaryStatedMin j = None \<and> j_SalaryStatedMax j = None) \<and>
      (sc_StatedMin s, sc_StatedMax s) = (j_SalaryStatedMin j, j_SalaryStatedMax j) \<and>
      (sc_EstimatedMin s, sc_EstimatedMax s) =
        (if sc_Stated s then (None, None)
         else (map_option se_Min (EstimateSalary j), map_option se_Max (EstimateSalary j))) \<and>
      sc_Estimated s = (\<not> sc_Stated s \<and> EstimateSalary j \<noteq> None) \<and>
      isEstimateLabel (sc_Label s) = sc_Estimated s \<and>
      (sc_Label s = []) = (\<not> sc_Stated s \<and> \<not> sc_Estimated s) \<and>
      filter (\<lambda>c. c \<noteq> CHR ''.'') (grouped n) = itoa n"
proof -
  have n: "\<not> isEstimateLabel []" "isEstimateLabel (estimatedSalaryLabel e)" "estimatedSalaryLabel e \<noteq> []" for e
    using isEstimateLabel_estimated isEstimateLabel_last by blast+
  show ?thesis
  proof (cases "j_SalaryStatedMin j \<noteq> None \<or> j_SalaryStatedMax j \<noteq> None")
    case True
    then have "salaryLabel j \<noteq> []" "\<not> isEstimateLabel (salaryLabel j)"
      using stated_label [of j] isEstimateLabel_last [of "salaryLabel j"] by auto
    then show ?thesis using True by (simp add: toCard_def salaryOf_def grouped_digits Let_def)
  next
    case False
    then have "salaryLabel j = []" using stated_label [of j] by blast
    then show ?thesis using False n
      by (cases "EstimateSalary j") (simp_all add: toCard_def salaryOf_def grouped_digits Let_def)
  qed
qed

section \<open>Personalization\<close>

lemma all_some_total: "(\<And>x. f x = Some (g x)) \<Longrightarrow> all_some (map f xs) = Some (map g xs)"
  by (induction xs) simp_all

lemma visibleJobs_total:
  assumes "\<And>k. get k = Inr (state k)"
  shows "\<exists>sts. visibleJobs get jobs = Some (filter (\<lambda>j. \<not> js_Dismissed (state (j_DedupKey j))) jobs, sts) \<and>
    (\<forall>k s. gget sts k = Some s \<longrightarrow> s = state k)"
  by (induction jobs) (auto simp: assms)

text \<open>The state the seeker store holds for a job, or the zero state.\<close>

definition jobState :: "m5Mem \<Rightarrow> string \<Rightarrow> string \<Rightarrow> JobState" where
  "jobState m userID key = (case gget (mm_states m) (memoryKey userID key) of None \<Rightarrow> zeroJobState key | Some s \<Rightarrow> s)"

lemma m5_GetJobState_jobState: "m5_GetJobState m userID key = Inr (jobState m userID key)"
  by (simp add: m5_GetJobState_def jobState_def split: option.split)

definition profileOf :: "(string \<Rightarrow> prof_err + Profile) option \<Rightarrow> string \<Rightarrow> Profile option" where
  "profileOf P userID = (case P of None \<Rightarrow> None | Some get \<Rightarrow> (case get userID of Inl _ \<Rightarrow> None | Inr p \<Rightarrow> Some p))"

definition personalCard :: "m5Mem \<Rightarrow> string \<Rightarrow> Profile option \<Rightarrow> Job \<Rightarrow> card" where
  "personalCard m userID prof j =
     (toCard j)\<lparr>cd_AlreadyApplied := js_AlreadyApplied (jobState m userID (j_DedupKey j)),
       cd_MatchScore := map_option (\<lambda>p. MatchScore j (un_list un_string (pr_Skills p))) prof\<rparr>"

lemma feedCard_personal:
  assumes "\<forall>k s. gget sts k = Some s \<longrightarrow> s = jobState m u k"
  shows "feedCard (Some (m5_GetJobState m u)) sts prof j = Some (personalCard m u prof j)"
  using assms
  by (auto simp: feedCard_def applyState_def m5_GetJobState_jobState personalCard_def toCard_def split: option.split)

text \<open>
  C16: Served from the in-memory index with the seeker store, a signed-in user's feed is the
  page of the listings that user has not dismissed, each card marked as applied for exactly
  when the store says so and scored against the user's profile when there is one; a query
  that does not parse answers 400, and nothing else fails.
\<close>

theorem feed_personalized:
  "handleFeed rfc3339 \<lparr>fe_active = Inr jobs, fe_search = dbq, fe_searchUser = None, fe_profiles = P,
       fe_states = Some (m5_GetJobState m)\<rparr> (Some u) v =
     (case parseQuery rfc3339 v of
        Inl msg \<Rightarrow> Resp 400 (FeedError msg)
      | Inr q0 \<Rightarrow>
          (let q = normalizeQuery q0;
               page = Search (filter (\<lambda>j. \<not> js_Dismissed (jobState m (u_ID u) (j_DedupKey j))) jobs) q
           in Resp 200 (FeedPage \<lparr>fd_Total = fr_Total page, fd_Limit = jq_Limit q, fd_Offset = jq_Offset q,
                fd_Jobs = map (personalCard m (u_ID u) (profileOf P (u_ID u))) (fr_Jobs page)\<rparr>)))"
proof -
  obtain sts where v: "visibleJobs (m5_GetJobState m (u_ID u)) jobs =
      Some (filter (\<lambda>j. \<not> js_Dismissed (jobState m (u_ID u) (j_DedupKey j))) jobs, sts)"
    and st: "\<forall>k s. gget sts k = Some s \<longrightarrow> s = jobState m (u_ID u) k"
    using visibleJobs_total [of "m5_GetJobState m (u_ID u)" "jobState m (u_ID u)"] m5_GetJobState_jobState by blast
  have cards: "all_some (map (feedCard (Some (m5_GetJobState m (u_ID u))) sts prof) js) = Some (map (personalCard m (u_ID u) prof) js)"
    for prof js by (rule all_some_total) (rule feedCard_personal [OF st])
  let ?env = "\<lparr>fe_active = Inr jobs, fe_search = dbq, fe_searchUser = None, fe_profiles = P,
       fe_states = Some (m5_GetJobState m)\<rparr>"
  have res: "feedResults ?env q (Some (u, m5_GetJobState m)) =
      Some (Search (filter (\<lambda>j. \<not> js_Dismissed (jobState m (u_ID u) (j_DedupKey j))) jobs) q, sts)" for q
    by (simp add: feedResults_def v)
  show ?thesis
  proof (cases "parseQuery rfc3339 v")
    case (Inl msg)
    then show ?thesis by (simp add: handleFeed_def)
  next
    case (Inr q0)
    have "(case P of None \<Rightarrow> None | Some get \<Rightarrow> (case get (u_ID u) of Inl _ \<Rightarrow> None | Inr p \<Rightarrow> Some p)) = profileOf P (u_ID u)"
      by (simp add: profileOf_def)
    then show ?thesis
      unfolding handleFeed_def Let_def Inr by (simp only: sum.case option.case prod.case feedEnv.simps option.map res cards feedResult.simps)
  qed
qed

end
