(* ===== verification/Account.thy ===== *)
theory Account
  imports Auth_Service CV_Service Profile M5_Store
begin

text \<open>
  The data-rights endpoints (\<open>internal/account\<close>): the export of everything a user owns and the
  erasure of the account with it, over the stores of the accounts, CVs, profiles and the
  seeker features. The profiles are those the CV service fills in (\<open>cs_profiles\<close>).
\<close>

section \<open>The service\<close>

text \<open>
  The four stores; the additional one and its exporter are optional, and an exporter exists
  only where the store is one (\<open>WithAdditionalStore\<close>).
\<close>

record ('a, 'r, 'o, 'q, 'x) acctDeps =
  ad_users :: "'a authRepo"
  ad_profiles :: "'q profRepo"
  ad_cvs :: "'r cvRepo"
  ad_objs :: "'o objectStore"
  ad_additional :: "'x m5Store option"
  ad_exporter :: "('x \<Rightarrow> string \<Rightarrow> unit + UserData) option"

record ('a, 'r, 'o, 'q, 'x) acctSvc =
  ac_users :: 'a
  ac_cvs :: "('r, 'o, 'q) cvSvc"
  ac_more :: 'x

definition NewAcctService ::
  "'a authRepo \<Rightarrow> 'q profRepo \<Rightarrow> 'r cvRepo \<Rightarrow> 'o objectStore \<Rightarrow> ('a, 'r, 'o, 'q, 'x) acctDeps" where
  "NewAcctService users profiles cvs objs = \<lparr>ad_users = users, ad_profiles = profiles, ad_cvs = cvs, ad_objs = objs,
     ad_additional = None, ad_exporter = None\<rparr>"

definition WithAdditionalStore ::
  "'x m5Store \<Rightarrow> ('x \<Rightarrow> string \<Rightarrow> unit + UserData) option \<Rightarrow> ('a, 'r, 'o, 'q, 'x) acctDeps \<Rightarrow> ('a, 'r, 'o, 'q, 'x) acctDeps" where
  "WithAdditionalStore store exporter D =
     (case exporter of
        None \<Rightarrow> D\<lparr>ad_additional := Some store\<rparr>
      | Some e \<Rightarrow> D\<lparr>ad_additional := Some store, ad_exporter := Some e\<rparr>)"

definition acct_Routes :: "string list" where
  "acct_Routes = [''GET /account/export'', ''DELETE /account'']"

section \<open>Export\<close>

record accountExport =
  ae_Email :: string
  ae_Verified :: bool
  ae_CreatedAt :: time
  ae_ConsentAt :: "time option"

record profileExport =
  px_FullName :: string
  px_Email :: string
  px_Phone :: string
  px_LinkedInURL :: string
  px_GitHubURL :: string
  px_PortfolioURL :: string
  px_Address :: string
  px_City :: string
  px_Summary :: string
  px_CurrentEmployer :: string
  px_CurrentTitle :: string
  px_HighestEducation :: string
  px_Education :: raw
  px_WorkHistory :: raw
  px_Skills :: raw
  px_ExpectedSalary :: "int option"
  px_NoticePeriodDays :: "int option"
  px_WorkAuthorization :: string
  px_OpenToRelocation :: bool
  px_PreferredLocations :: raw
  px_EmploymentType :: string
  px_Confirmed :: bool
  px_ConfirmedAt :: "time option"

record cvFileExport =
  cx_Filename :: string
  cx_ContentType :: string
  cx_SizeBytes :: int
  cx_CreatedAt :: time

record exportResponse =
  xr_Account :: accountExport
  xr_Profile :: "profileExport option"
  xr_CVFiles :: "cvFileExport list"
  xr_Additional :: "UserData option"
  xr_Exported :: time

datatype acctBody = AcctError string | AcctExport exportResponse | AcctEmpty

type_synonym acctResp = "acctBody resp"

definition acctErr :: "nat \<Rightarrow> string \<Rightarrow> acctResp" where
  "acctErr code msg = Resp code (AcctError msg)"

definition toAccountExport :: "user \<Rightarrow> accountExport" where
  "toAccountExport u = \<lparr>ae_Email = u_Email u, ae_Verified = u_Verified u, ae_CreatedAt = u_CreatedAt u,
     ae_ConsentAt = (if u_ConsentAt u \<noteq> zero_time then Some (u_ConsentAt u) else None)\<rparr>"

definition toProfileExport :: "Profile \<Rightarrow> profileExport" where
  "toProfileExport p = \<lparr>px_FullName = pr_FullName p, px_Email = pr_Email p, px_Phone = pr_Phone p,
     px_LinkedInURL = pr_LinkedInURL p, px_GitHubURL = pr_GitHubURL p, px_PortfolioURL = pr_PortfolioURL p,
     px_Address = pr_Address p, px_City = pr_City p, px_Summary = pr_Summary p,
     px_CurrentEmployer = pr_CurrentEmployer p, px_CurrentTitle = pr_CurrentTitle p,
     px_HighestEducation = pr_HighestEducation p, px_Education = pr_Education p, px_WorkHistory = pr_WorkHistory p,
     px_Skills = pr_Skills p, px_ExpectedSalary = pr_ExpectedSalary p, px_NoticePeriodDays = pr_NoticePeriodDays p,
     px_WorkAuthorization = pr_WorkAuthorization p, px_OpenToRelocation = pr_OpenToRelocation p,
     px_PreferredLocations = pr_PreferredLocations p, px_EmploymentType = pr_EmploymentType p,
     px_Confirmed = pr_Confirmed p, px_ConfirmedAt = pr_ConfirmedAt p\<rparr>"

definition toFileExport :: "cvFile \<Rightarrow> cvFileExport" where
  "toFileExport f = \<lparr>cx_Filename = fl_Filename f, cx_ContentType = fl_ContentType f, cx_SizeBytes = fl_SizeBytes f,
     cx_CreatedAt = fl_CreatedAt f\<rparr>"

definition handleExport ::
  "('a, 'r, 'o, 'q, 'x) acctDeps \<Rightarrow> ('a, 'r, 'o, 'q, 'x) acctSvc \<Rightarrow> time \<Rightarrow> user option \<Rightarrow> acctResp" where
  "handleExport D st now ctx =
     (case ctx of None \<Rightarrow> acctErr 401 ''not authenticated''
      | Some u \<Rightarrow> (case ar_UserByID (ad_users D) (ac_users st) (u_ID u) of
          Inl _ \<Rightarrow> acctErr 500 ''load account''
        | Inr acct \<Rightarrow>
            (let out = \<lparr>xr_Account = toAccountExport acct, xr_Profile = None, xr_CVFiles = [], xr_Additional = None,
                        xr_Exported = now\<rparr>;
                 withProfile = (case pq_Get (ad_profiles D) (cs_profiles (ac_cvs st)) (u_ID u) of
                     Inr p \<Rightarrow> Inr (out\<lparr>xr_Profile := Some (toProfileExport p)\<rparr>)
                   | Inl ProfNotFound \<Rightarrow> Inr out
                   | Inl _ \<Rightarrow> Inl ''load profile'')
             in case withProfile of
                  Inl msg \<Rightarrow> acctErr 500 msg
                | Inr out1 \<Rightarrow> (case rp_FilesByUser (ad_cvs D) (cs_repo (ac_cvs st)) (u_ID u) of
                    Inl _ \<Rightarrow> acctErr 500 ''load cv files''
                  | Inr fs \<Rightarrow>
                      (let out2 = out1\<lparr>xr_CVFiles := map toFileExport fs\<rparr> in
                       case ad_exporter D of
                         None \<Rightarrow> Resp 200 (AcctExport out2)
                       | Some export \<Rightarrow> (case export (ac_more st) (u_ID u) of
                           Inl _ \<Rightarrow> acctErr 500 ''load additional data''
                         | Inr extra \<Rightarrow> Resp 200 (AcctExport (out2\<lparr>xr_Additional := Some extra\<rparr>))))))))"

section \<open>Erasure\<close>

definition acct_deleteMore ::
  "'x m5Store option \<Rightarrow> 'x \<Rightarrow> string \<Rightarrow> 'x \<times> bool" where
  "acct_deleteMore X s userID =
     (case X of None \<Rightarrow> (s, True) | Some store \<Rightarrow> (case st_DeleteUser store s userID of (s', e) \<Rightarrow> (s', e = None)))"

definition handleAccountDelete ::
  "('a, 'r, 'o, 'q, 'x) acctDeps \<Rightarrow> ('a, 'r, 'o, 'q, 'x) acctSvc \<Rightarrow> user option \<Rightarrow> ('a, 'r, 'o, 'q, 'x) acctSvc \<times> acctResp" where
  "handleAccountDelete D st ctx =
     (case ctx of None \<Rightarrow> (st, acctErr 401 ''not authenticated'')
      | Some u \<Rightarrow> (case DeleteUserFiles (ad_cvs D) (ad_objs D) (ac_cvs st) (u_ID u) of
          (c1, False) \<Rightarrow> (st\<lparr>ac_cvs := c1\<rparr>, acctErr 500 ''delete cv data'')
        | (c1, True) \<Rightarrow> (case pq_Delete (ad_profiles D) (cs_profiles c1) (u_ID u) of
            (q, Some _) \<Rightarrow> (st\<lparr>ac_cvs := c1\<lparr>cs_profiles := q\<rparr>\<rparr>, acctErr 500 ''delete profile'')
          | (q, None) \<Rightarrow> (case acct_deleteMore (ad_additional D) (ac_more st) (u_ID u) of
              (x, False) \<Rightarrow> (st\<lparr>ac_cvs := c1\<lparr>cs_profiles := q\<rparr>, ac_more := x\<rparr>, acctErr 500 ''delete account data'')
            | (x, True) \<Rightarrow> (case ar_DeleteUser (ad_users D) (ac_users st) (u_ID u) of
                (a, Some _) \<Rightarrow> (\<lparr>ac_users = a, ac_cvs = c1\<lparr>cs_profiles := q\<rparr>, ac_more = x\<rparr>, acctErr 500 ''delete account'')
              | (a, None) \<Rightarrow> (\<lparr>ac_users = a, ac_cvs = c1\<lparr>cs_profiles := q\<rparr>, ac_more = x\<rparr>, Resp 204 AcctEmpty))))))"

section \<open>On any stores that keep their contracts\<close>

text \<open>
  What the four stores hold, seen through their contracts; what is left of an erased user:
  nothing; and what another user keeps: everything.
\<close>

record acctView =
  av_auth :: authView
  av_files :: "string \<Rightarrow> cvFile option"
  av_profs :: "string \<Rightarrow> Profile option"
  av_more :: m5View
  av_objs :: "string \<Rightarrow> string option"

definition erasedFrom :: "string \<Rightarrow> acctView \<Rightarrow> bool" where
  "erasedFrom u v \<longleftrightarrow>
     v_users (av_auth v) u = None \<and> (\<forall>t x. v_sessions (av_auth v) t = Some x \<longrightarrow> s_UserID x \<noteq> u) \<and>
     (\<forall>t x. v_verifs (av_auth v) t = Some x \<longrightarrow> rr_userID x \<noteq> u) \<and>
     (\<forall>t x. v_resets (av_auth v) t = Some x \<longrightarrow> rr_userID x \<noteq> u) \<and>
     (\<forall>i f. av_files v i = Some f \<longrightarrow> fl_UserID f \<noteq> u) \<and> av_profs v u = None \<and>
     owned sf_UserID u (v5_filter (av_more v)) = Map.empty \<and> v5_state (av_more v) u = Map.empty \<and>
     owned ap_UserID u (v5_app (av_more v)) = Map.empty \<and> owned sn_UserID u (v5_snip (av_more v)) = Map.empty"

definition keptFor :: "string \<Rightarrow> acctView \<Rightarrow> acctView \<Rightarrow> bool" where
  "keptFor w v v' \<longleftrightarrow> v_users (av_auth v') w = v_users (av_auth v) w \<and>
     owned s_UserID w (v_sessions (av_auth v')) = owned s_UserID w (v_sessions (av_auth v)) \<and>
     owned rr_userID w (v_verifs (av_auth v')) = owned rr_userID w (v_verifs (av_auth v)) \<and>
     owned rr_userID w (v_resets (av_auth v')) = owned rr_userID w (v_resets (av_auth v)) \<and>
     owned fl_UserID w (av_files v') = owned fl_UserID w (av_files v) \<and>
     (\<forall>i f. av_files v i = Some f \<longrightarrow> fl_UserID f = w \<longrightarrow> av_objs v' (fl_ObjectKey f) = av_objs v (fl_ObjectKey f)) \<and>
     av_profs v' w = av_profs v w \<and> same_user w (av_more v') (av_more v)"

text \<open>
  A CV is stored under a key that starts with its owner's id (\<open>objectKey\<close>), and no id has a
  slash in it; so the objects of different users never share a key.
\<close>

definition keys_own :: "(string \<Rightarrow> cvFile option) \<Rightarrow> bool" where
  "keys_own m \<longleftrightarrow> (\<forall>i f. m i = Some f \<longrightarrow>
     CHR ''/'' \<notin> set (fl_UserID f) \<and> prefix (''cv/'' @ fl_UserID f @ ''/'') (fl_ObjectKey f))"

lemma slash_split: "c \<notin> set a \<Longrightarrow> c \<notin> set b \<Longrightarrow> a @ c # x = b @ c # y \<Longrightarrow> a = b"
proof (induction a arbitrary: b)
  case Nil
  then show ?case by (cases b) auto
next
  case (Cons d a)
  then show ?case by (cases b) auto
qed

lemma keys_differ:
  assumes "keys_own m" "m i = Some f" "m j = Some g" "fl_UserID f \<noteq> fl_UserID g"
  shows "fl_ObjectKey f \<noteq> fl_ObjectKey g"
proof
  assume e: "fl_ObjectKey f = fl_ObjectKey g"
  have f: "CHR ''/'' \<notin> set (fl_UserID f)" "prefix (''cv/'' @ fl_UserID f @ ''/'') (fl_ObjectKey f)"
    and g: "CHR ''/'' \<notin> set (fl_UserID g)" "prefix (''cv/'' @ fl_UserID g @ ''/'') (fl_ObjectKey g)"
    using assms(1-3) by (auto simp: keys_own_def)
  obtain x y where "fl_ObjectKey f = ''cv/'' @ fl_UserID f @ ''/'' @ x" "fl_ObjectKey g = ''cv/'' @ fl_UserID g @ ''/'' @ y"
    using f(2) g(2) by (auto simp: prefix_def)
  then have "fl_UserID f @ CHR ''/'' # x = fl_UserID g @ CHR ''/'' # y" using e by simp
  then show False using slash_split [OF f(1) g(1)] assms(4) by blast
qed

lemma keys_own_less: "keys_own m \<Longrightarrow> (\<And>i f. m' i = Some f \<Longrightarrow> m i = Some f) \<Longrightarrow> keys_own m'"
  by (auto simp: keys_own_def)

definition erasing :: "string \<Rightarrow> acctView \<Rightarrow> acctView \<Rightarrow> bool" where
  "erasing u v v' \<longleftrightarrow> av_auth v' = erase u (av_auth v) \<and>
     av_files v' = (\<lambda>i. case av_files v i of None \<Rightarrow> None | Some f \<Rightarrow> if fl_UserID f = u then None else Some f) \<and>
     (\<forall>i f. av_files v i = Some f \<longrightarrow> fl_UserID f = u \<longrightarrow> av_objs v' (fl_ObjectKey f) = None) \<and>
     (\<forall>k. (\<forall>i f. av_files v i = Some f \<longrightarrow> fl_UserID f = u \<longrightarrow> fl_ObjectKey f \<noteq> k) \<longrightarrow> av_objs v' k = av_objs v k) \<and>
     av_profs v' = (av_profs v)(u := None) \<and>
     (\<forall>w. uid_ok w \<longrightarrow> same_user w (av_more v') (m5_erase u (av_more v)))"

lemma erasing_erased: "erasing u v v' \<Longrightarrow> uid_ok u \<Longrightarrow> erasedFrom u v'"
  unfolding erasing_def erasedFrom_def
  by (auto simp: erase_def without_def same_user_def m5_erase_def owned_def fun_eq_iff split: option.splits if_splits)

lemma same_user_erase: "w \<noteq> u \<Longrightarrow> same_user w v' (m5_erase u v) \<Longrightarrow> same_user w v' v"
  by (fastforce simp: same_user_def m5_erase_def owned_def fun_eq_iff split: option.splits if_splits)

lemma owned_without: "w \<noteq> u \<Longrightarrow>
   owned g w (\<lambda>i. case m i of None \<Rightarrow> None | Some f \<Rightarrow> if g f = u then None else Some f) = owned g w m"
  by (auto simp: owned_def fun_eq_iff split: option.split)

lemma erasing_kept:
  assumes "erasing u v v'" "w \<noteq> u" "uid_ok w" "keys_own (av_files v)"
  shows "keptFor w v v'"
proof -
  have "av_objs v' (fl_ObjectKey f) = av_objs v (fl_ObjectKey f)" if "av_files v i = Some f" "fl_UserID f = w" for i f
  proof -
    have "fl_ObjectKey g \<noteq> fl_ObjectKey f" if "av_files v j = Some g" "fl_UserID g = u" for j g
      using keys_differ [OF assms(4) that(1) \<open>av_files v i = Some f\<close>] that(2) \<open>fl_UserID f = w\<close> assms(2) by auto
    then show ?thesis using assms(1) unfolding erasing_def by blast
  qed
  moreover have "same_user w (av_more v') (av_more v)"
    using assms(1-3) same_user_erase unfolding erasing_def by blast
  ultimately show ?thesis
    using assms(1,2) unfolding erasing_def keptFor_def by (simp add: erase_def without_def owned_without)
qed

lemma erasing_keys: "erasing u v v' \<Longrightarrow> keys_own (av_files v) \<Longrightarrow> keys_own (av_files v')"
  by (erule keys_own_less) (auto simp: erasing_def split: option.splits if_splits)

locale account_backend =
  acc: auth_repo A ainv aview stamp + cvs: cv_backend R rinv rows S good content +
  pfs: prof_repo Q profs + mor: m5_store X xinv xview jobkey clash stamp5
  for A :: "'a authRepo" and ainv aview and stamp :: "time \<Rightarrow> time" and R :: "'r cvRepo" and rinv rows and S :: "'o objectStore" and good content
    and Q :: "'q profRepo" and profs and X :: "'x m5Store" and xinv xview and jobkey clash and stamp5 :: "time \<Rightarrow> time"
begin

abbreviation "deps E \<equiv> WithAdditionalStore X E (NewAcctService A Q R S)"

abbreviation "acct_ok st \<equiv> ainv (ac_users st) \<and> rinv (cs_repo (ac_cvs st)) \<and> good (cs_objs (ac_cvs st)) \<and> xinv (ac_more st)"

lemma deps_simps [simp]:
  "ad_users (deps E) = A" "ad_profiles (deps E) = Q" "ad_cvs (deps E) = R" "ad_objs (deps E) = S"
  "ad_additional (deps E) = Some X" "ad_exporter (deps E) = E"
  by (simp_all add: WithAdditionalStore_def NewAcctService_def split: option.split)

text \<open>Step by step: a deletion that answers 204 went through all four stores.\<close>

lemma delete_steps:
  assumes "handleAccountDelete (deps E) st (Some u) = (st', resp)" "status resp = 204"
  obtains c1 q where "DeleteUserFiles R S (ac_cvs st) (u_ID u) = (c1, True)"
    "pq_Delete Q (cs_profiles c1) (u_ID u) = (q, None)"
    "st_DeleteUser X (ac_more st) (u_ID u) = (ac_more st', None)"
    "ar_DeleteUser A (ac_users st) (u_ID u) = (ac_users st', None)"
    "ac_cvs st' = c1\<lparr>cs_profiles := q\<rparr>"
  using assms
  by (auto simp: handleAccountDelete_def acct_deleteMore_def acctErr_def split: prod.splits bool.splits option.splits if_splits)

lemma delete_failed:
  assumes "acct_ok st" "handleAccountDelete (deps E) st (Some u) = (st', resp)" "status resp \<noteq> 204"
  shows "status resp = 500 \<and> aview (ac_users st') = aview (ac_users st)"
  using assms(2,3) acc.DeleteUser [of "ac_users st" "u_ID u"] assms(1)
  by (auto simp: handleAccountDelete_def acct_deleteMore_def acctErr_def split: prod.splits bool.splits option.splits if_splits)

abbreviation "acct_view st \<equiv> \<lparr>av_auth = aview (ac_users st), av_files = rows (cs_repo (ac_cvs st)), av_profs = profs (cs_profiles (ac_cvs st)),
     av_more = xview (ac_more st), av_objs = content (cs_objs (ac_cvs st))\<rparr>"

lemma delete_complete:
  assumes ok: "acct_ok st" "uid_ok (u_ID u)" and h: "handleAccountDelete (deps E) st (Some u) = (st', resp)" "status resp = 204"
  shows "acct_ok st' \<and> erasing (u_ID u) (acct_view st) (acct_view st')"
proof -
  from h obtain c1 q where c: "DeleteUserFiles R S (ac_cvs st) (u_ID u) = (c1, True)"
    and q: "pq_Delete Q (cs_profiles c1) (u_ID u) = (q, None)"
    and x: "st_DeleteUser X (ac_more st) (u_ID u) = (ac_more st', None)"
    and a: "ar_DeleteUser A (ac_users st) (u_ID u) = (ac_users st', None)"
    and st': "ac_cvs st' = c1\<lparr>cs_profiles := q\<rparr>"
    by (rule delete_steps)
  have ok': "rinv (cs_repo (ac_cvs st)) \<and> good (cs_objs (ac_cvs st))" "ainv (ac_users st)" "xinv (ac_more st)" using ok by simp_all
  note ce = cvs.erase_effect [OF ok'(1) c, simplified]
  note ae = acc.DeleteUser [OF ok'(2) a, simplified]
  note xe = mor.DeleteUser [OF ok'(3) ok(2) x]
  note qe = pfs.Delete_ok [OF q]
  show ?thesis using ce ae xe qe ok st' by (simp add: erasing_def)
qed

end

section \<open>In memory\<close>

type_synonym memAcct = "(memAuth, cvMem, objMem encStore, profMem, m5Mem) acctSvc"

definition memAcctDeps :: "time \<Rightarrow> (memAuth, cvMem, objMem encStore, profMem, m5Mem) acctDeps" where
  "memAcctDeps wall = WithAdditionalStore m5MemOps (Some (\<lambda>m userID. Inr (m5_ExportUser m userID)))
     (NewAcctService (memRepoOps wall) profMemOps cvMemOps (encOps objMemOps))"

interpretation mem_acct: account_backend "memRepoOps wall" mem_inv mem_view "\<lambda>t. t" cvMemOps cm_inv "\<lambda>m. gget (cm_files m)"
    "encOps objMemOps" "en_good (\<lambda>_. True)" "en_content gget" profMemOps gget m5MemOps m5_inv m5_view trim_space equal_fold "\<lambda>t. t"
  by unfold_locales

definition memAcctView :: "memAcct \<Rightarrow> acctView" where
  "memAcctView st = \<lparr>av_auth = mem_view (ac_users st), av_files = gget (cm_files (cs_repo (ac_cvs st))),
     av_profs = gget (cs_profiles (ac_cvs st)), av_more = m5_view (ac_more st),
     av_objs = en_content gget (cs_objs (ac_cvs st))\<rparr>"

definition memAcct_ok :: "memAcct \<Rightarrow> bool" where
  "memAcct_ok st \<longleftrightarrow> mem_inv (ac_users st) \<and> cv_ok (ac_cvs st) \<and>
     keys_own (gget (cm_files (cs_repo (ac_cvs st)))) \<and> m5_inv (ac_more st)"

text \<open>Uploads and version updates keep the keys their users' own.\<close>

lemma create_keys_own:
  assumes "cm_inv m" "keys_own (gget (cm_files m))" "cm_CreateFile m f = (m', Inr g)"
    "CHR ''/'' \<notin> set (fl_UserID f)" "prefix (''cv/'' @ fl_UserID f @ ''/'') (fl_ObjectKey f)"
  shows "keys_own (gget (cm_files m'))"
proof -
  note c = create_file [OF assms(3)]
  have "CHR ''/'' \<notin> set (fl_UserID h) \<and> prefix (''cv/'' @ fl_UserID h @ ''/'') (fl_ObjectKey h)"
    if h: "gget (cm_files m') i = Some h" for i h
  proof (cases "i = fl_ID g")
    case True
    then have "h = g" using h create_rows(3) [OF assms(1,3)] by simp
    then show ?thesis using assms(4,5) c(4,5) by simp
  next
    case False
    obtain h' where "gget (cm_files m) i = Some h'" "fl_UserID h = fl_UserID h'" "fl_ObjectKey h = fl_ObjectKey h'"
      using h False c(8) by (auto simp: demote_get split: if_splits)
    then show ?thesis using assms(2) by (auto simp: keys_own_def)
  qed
  then show ?thesis by (auto simp: keys_own_def)
qed

lemma objectKey_own: "prefix (''cv/'' @ u @ ''/'') (objectKey u rand name)"
  by (simp add: objectKey_def)

lemma storeUpload_repo:
  assumes "storeUpload cvMemOps S env st u name ct dat = (st', resp)"
  shows "cs_repo st' = cs_repo st \<or> (\<exists>f g. cm_CreateFile (cs_repo st) f = (cs_repo st', g) \<and> fl_UserID f = u \<and>
    prefix (''cv/'' @ u @ ''/'') (fl_ObjectKey f))"
proof (cases "ce_rand env (cs_draws st)")
  case None
  then show ?thesis using assms by (auto simp: storeUpload_def Let_def)
next
  case (Some rand)
  let ?key = "objectKey u rand name"
  let ?f = "newFile u ?key name ct (int (length dat)) (ce_now env (cs_ticks st))"
  obtain ob x where o: "os_Put S (cs_objs st) ?key dat = (ob, x)" by (cases "os_Put S (cs_objs st) ?key dat")
  obtain m y where c: "cm_CreateFile (cs_repo st) ?f = (m, y)" by (cases "cm_CreateFile (cs_repo st) ?f")
  have "cs_repo st' = cs_repo st \<or> cs_repo st' = m"
    using assms Some o c by (cases x; cases y) (auto simp: storeUpload_def Let_def cvMemOps_def)
  moreover have "fl_UserID ?f = u" "prefix (''cv/'' @ u @ ''/'') (fl_ObjectKey ?f)" by (simp_all add: newFile_def objectKey_own del: append_Cons append_Nil)
  ultimately show ?thesis using c by blast
qed

lemma upload_keys_own:
  assumes "cv_ok st" "keys_own (gget (cm_files (cs_repo st)))" "\<And>u. ctx = Some u \<Longrightarrow> CHR ''/'' \<notin> set (u_ID u)"
    and h: "handleUpload cvMemOps (encOps objMemOps) env (st :: 'p memCVSvc) ctx form = (st', resp)"
  shows "keys_own (gget (cm_files (cs_repo st')))"
proof -
  have "cs_repo st' = cs_repo st \<or>
      (\<exists>u f g. cm_CreateFile (cs_repo st) f = (cs_repo st', g) \<and> ctx = Some u \<and> fl_UserID f = u_ID u \<and>
        prefix (''cv/'' @ u_ID u @ ''/'') (fl_ObjectKey f))"
  proof (cases "\<exists>u name dat ct. ctx = Some u \<and> storeUpload cvMemOps (encOps objMemOps) env st (u_ID u) name ct dat = (st', resp)")
    case True
    then show ?thesis using storeUpload_repo by blast
  next
    case False
    then show ?thesis using h by (auto simp: handleUpload_def split: option.splits uploadForm.splits if_splits)
  qed
  then show ?thesis
  proof (elim disjE exE conjE)
    fix u f g
    assume c: "cm_CreateFile (cs_repo st) f = (cs_repo st', g)" "ctx = Some u" "fl_UserID f = u_ID u"
      "prefix (''cv/'' @ u_ID u @ ''/'') (fl_ObjectKey f)"
    show ?thesis
    proof (cases g)
      case (Inl e)
      then have "cm_files (cs_repo st') = cm_files (cs_repo st)"
        using c(1) by (auto simp: cm_CreateFile_def Let_def split: prod.splits if_splits)
      then show ?thesis using assms(2) by simp
    next
      case (Inr x)
      then show ?thesis using create_keys_own [of "cs_repo st" f "cs_repo st'" x] assms(1,2) assms(3) [OF c(2)] c by simp
    qed
  qed (use assms(2) in simp)
qed

lemma update_keys_own:
  assumes "keys_own (gget (cm_files m))" "cm_UpdateVersion m u i label prim = (m', r)"
  shows "keys_own (gget (cm_files m'))"
proof -
  have "\<exists>f. gget (cm_files m) j = Some f \<and> fl_UserID h = fl_UserID f \<and> fl_ObjectKey h = fl_ObjectKey f"
    if "gget (cm_files m') j = Some h" for j h
  proof (cases r)
    case (Inl e)
    then show ?thesis using update_version_err [of m u i label prim m' e] assms(2) that by auto
  next
    case (Inr g)
    then obtain f where f: "gget (cm_files m) i = Some f" "fl_ObjectKey g = fl_ObjectKey f" "fl_UserID g = fl_UserID f"
      "gget (cm_files m') j = (if j = i then Some g else map_option
        (\<lambda>e. if prim = Some True \<and> fl_UserID e = u then e\<lparr>fl_IsPrimary := False\<rparr> else e) (gget (cm_files m) j))"
      using assms(2) by (cases "gget (cm_files m) j")
        (auto simp: cm_UpdateVersion_def Let_def split: option.splits bool.splits if_splits)
    then show ?thesis using that by (cases "gget (cm_files m) j") (auto split: if_splits)
  qed
  then show ?thesis using assms(1) unfolding keys_own_def by metis
qed

end
