(* ===== verification/Account_Theorems.thy ===== *)
theory Account_Theorems
  imports Account Auth_Props M5_Theorems
begin

text \<open>
  Erasing an account and exporting its data, over the in-memory stores of the program.
\<close>

section \<open>Accounts have ids the job state keys can rely on\<close>

lemma itoa_no_nul: "NUL \<notin> set (itoa n)"
proof -
  have "\<not> is_digit NUL" by (simp add: NUL_def is_digit_def)
  then have "NUL \<notin> set (nat_digits k)" for k
    using nat_digits_digit [of k] by (auto simp: list.pred_set)
  then show ?thesis by (auto simp: itoa_def NUL_def)
qed

lemma account_uid_ok: "mem_inv m \<Longrightarrow> gget (ma_users m) i \<noteq> None \<Longrightarrow> uid_ok i"
  using itoa_no_nul by (fastforce simp: mem_inv_def uid_ok_def NUL_def)

section \<open>Nothing fails in memory\<close>

lemma deleteObjects_mem: "snd (deleteObjects (encOps objMemOps) ob ks)"
  by (induction ks arbitrary: ob) (simp_all add: encOps_def en_Delete_def objMemOps_def om_Delete_def)

lemma DeleteUserFiles_mem: "snd (DeleteUserFiles cvMemOps (encOps objMemOps) st u)"
  using deleteObjects_mem [of "cs_objs st"]
  by (auto simp: DeleteUserFiles_def cvMemOps_def cm_FilesByUser_def cm_DeleteByUser_def split: prod.split bool.split)
    (metis snd_conv)

lemma memAcctDeps_simps [simp]:
  "ad_users (memAcctDeps wall) = memRepoOps wall" "ad_profiles (memAcctDeps wall) = profMemOps"
  "ad_cvs (memAcctDeps wall) = cvMemOps" "ad_objs (memAcctDeps wall) = encOps objMemOps"
  "ad_additional (memAcctDeps wall) = Some m5MemOps"
  "ad_exporter (memAcctDeps wall) = Some (\<lambda>m userID. Inr (m5_ExportUser m userID))"
  by (simp_all add: memAcctDeps_def)

lemma delete_answers:
  assumes "memAcct_ok st" "gget (ma_users (ac_users st)) (u_ID u) \<noteq> None"
    and "handleAccountDelete (memAcctDeps wall) st (Some u) = (st', resp)"
  shows "status resp = 204"
proof -
  obtain c1 where c: "DeleteUserFiles cvMemOps (encOps objMemOps) (ac_cvs st) (u_ID u) = (c1, True)"
    using DeleteUserFiles_mem [of "ac_cvs st" "u_ID u"] by (cases "DeleteUserFiles cvMemOps (encOps objMemOps) (ac_cvs st) (u_ID u)") auto
  obtain a where a: "ar_DeleteUser (memRepoOps wall) (ac_users st) (u_ID u) = (a, None)"
    using memRepo.DeleteUser_total [of "ac_users st" "u_ID u" wall] assms(1,2)
    by (cases "ar_DeleteUser (memRepoOps wall) (ac_users st) (u_ID u)") (auto simp: memAcct_ok_def mem_view_def)
  show ?thesis
    using assms(3) c a
    by (auto simp: handleAccountDelete_def acct_deleteMore_def profMemOps_def pm_Delete_def m5MemOps_def m5_DeleteUser_def)
qed

text \<open>
  C7: Deleting an existing account answers 204 and leaves nothing of its user in any store:
  no account, session, verification or reset token, profile, CV record, stored CV object,
  saved filter, job state, application or snippet. Every other user keeps everything: account,
  sessions, verification and reset tokens, profile, CV records with the bytes stored under
  them, filters, job states, applications and snippets. No session identifies the erased user
  any more, and an export answers 500.
\<close>

theorem account_erased:
  assumes "memAcct_ok st" "gget (ma_users (ac_users st)) (u_ID u) \<noteq> None"
    and "handleAccountDelete (memAcctDeps wall) st (Some u) = (st', resp)"
  shows "status resp = 204 \<and> memAcct_ok st' \<and> erasedFrom (u_ID u) (memAcctView st') \<and>
    (\<forall>i f. gget (cm_files (cs_repo (ac_cvs st))) i = Some f \<longrightarrow> fl_UserID f = u_ID u \<longrightarrow>
      en_content gget (cs_objs (ac_cvs st')) (fl_ObjectKey f) = None) \<and>
    (\<forall>w. w \<noteq> u_ID u \<longrightarrow> uid_ok w \<longrightarrow> keptFor w (memAcctView st) (memAcctView st')) \<and>
    (\<forall>env r x. RequireVerified (memRepoOps wall) env (ac_users st') r = Inr x \<longrightarrow> u_ID x \<noteq> u_ID u) \<and>
    status (handleExport (memAcctDeps wall) st' now (Some u)) = 500"
proof -
  have own: "keys_own (av_files (memAcctView st))" using assms(1) by (simp add: memAcct_ok_def memAcctView_def)
  have ok: "mem_inv (ac_users st) \<and> cm_inv (cs_repo (ac_cvs st)) \<and> en_good (\<lambda>_. True) (cs_objs (ac_cvs st)) \<and> m5_inv (ac_more st)"
    using assms(1) by (simp add: memAcct_ok_def)
  have uid: "uid_ok (u_ID u)" using account_uid_ok ok assms(2) by blast
  have s: "status resp = 204" by (rule delete_answers [OF assms])
  note d = mem_acct.delete_complete [OF ok uid assms(3)[unfolded memAcctDeps_def] s, folded memAcctView_def]
  have e: "erasedFrom (u_ID u) (memAcctView st')" using d erasing_erased uid by blast
  have inv: "mem_inv (ac_users st')" using d by blast
  have "u_ID x \<noteq> u_ID u" if "RequireVerified (memRepoOps wall) env (ac_users st') r = Inr x" for env r x
    using that e memRepo.RequireVerified_iff [OF inv, of wall env r x] memRepo.user_keys [OF inv]
    by (auto simp: erasedFrom_def memAcctView_def)
  moreover have "status (handleExport (memAcctDeps wall) st' now (Some u)) = 500"
    using e by (simp add: handleExport_def memRepoOps_def mem_UserByID_def erasedFrom_def memAcctView_def mem_view_def acctErr_def)
  moreover have "\<forall>i f. gget (cm_files (cs_repo (ac_cvs st))) i = Some f \<longrightarrow> fl_UserID f = u_ID u \<longrightarrow>
      en_content gget (cs_objs (ac_cvs st')) (fl_ObjectKey f) = None"
    using conjunct2 [OF d] unfolding erasing_def memAcctView_def by simp
  moreover have "keys_own (gget (cm_files (cs_repo (ac_cvs st'))))"
    using erasing_keys [OF conjunct2 [OF d] own] by (simp add: memAcctView_def)
  moreover have "keptFor w (memAcctView st) (memAcctView st')" if "w \<noteq> u_ID u" "uid_ok w" for w
    using erasing_kept [OF conjunct2 [OF d] that own] .
  ultimately show ?thesis using s e d by (simp add: memAcct_ok_def)
qed

section \<open>Exports\<close>

lemma ran_owned: "gok m \<Longrightarrow> set (filter (\<lambda>r. f r = w) (gvals m)) = ran (owned f w (gget m))"
  by (auto simp: gvals_mem ran_def owned_def split: option.splits if_splits)

lemma ran_states: "gok m \<Longrightarrow> set (map snd (filter (\<lambda>(k, _). has_prefix k (u @ [NUL])) m)) = ran (\<lambda>k. gget m (memoryKey u k))"
  by (auto simp: ran_def gget_mem has_prefix_iff prefix_def memoryKey_def intro!: rev_image_eqI)

text \<open>
  The export of an existing account is complete and only the user's own: the account and
  profile as stored, one entry for each of the user's CV records, and exactly the user's
  saved filters, job states, applications and snippets.
\<close>

theorem account_export_complete:
  assumes "memAcct_ok st" "gget (ma_users (ac_users st)) (u_ID u) = Some acct"
  shows "\<exists>x fs more. handleExport (memAcctDeps wall) st now (Some u) = Resp 200 (AcctExport x) \<and>
    xr_Account x = toAccountExport acct \<and>
    xr_Profile x = map_option toProfileExport (gget (cs_profiles (ac_cvs st)) (u_ID u)) \<and>
    xr_CVFiles x = map toFileExport fs \<and> distinct (map fl_ID fs) \<and>
    set fs = ran (owned fl_UserID (u_ID u) (gget (cm_files (cs_repo (ac_cvs st))))) \<and>
    xr_Additional x = Some more \<and>
    set (ud_SavedFilters more) = ran (owned sf_UserID (u_ID u) (v5_filter (m5_view (ac_more st)))) \<and>
    set (ud_JobStates more) = ran (v5_state (m5_view (ac_more st)) (u_ID u)) \<and>
    set (ud_Applications more) = ran (owned ap_UserID (u_ID u) (v5_app (m5_view (ac_more st)))) \<and>
    set (ud_Snippets more) = ran (owned sn_UserID (u_ID u) (v5_snip (m5_view (ac_more st))))"
proof -
  let ?fs = "sort_by newer_first (filter (\<lambda>f. fl_UserID f = u_ID u) (gvals (cm_files (cs_repo (ac_cvs st)))))"
  let ?more = "m5_ExportUser (ac_more st) (u_ID u)"
  have inv: "cm_inv (cs_repo (ac_cvs st))" "m5_inv (ac_more st)" using assms(1) by (simp_all add: memAcct_ok_def)
  have g: "gok (cm_files (cs_repo (ac_cvs st)))" using inv(1) by (simp add: cm_inv_def)
  have "set ?fs = ran (owned fl_UserID (u_ID u) (gget (cm_files (cs_repo (ac_cvs st)))))" "distinct (map fl_ID ?fs)"
    using ran_owned [OF g, of fl_UserID "u_ID u"] cvmem.FilesByUser [OF inv(1), of "u_ID u" ?fs]
    by (simp_all add: cvMemOps_def cm_FilesByUser_def)
  moreover have "set (ud_SavedFilters ?more) = ran (owned sf_UserID (u_ID u) (v5_filter (m5_view (ac_more st))))"
    "set (ud_Applications ?more) = ran (owned ap_UserID (u_ID u) (v5_app (m5_view (ac_more st))))"
    "set (ud_Snippets ?more) = ran (owned sn_UserID (u_ID u) (v5_snip (m5_view (ac_more st))))"
    unfolding m5_ExportUser_def UserData.simps m5_view_sel using m5_invD(4-6) [OF inv(2)] by (intro ran_owned; simp)+
  moreover have "set (ud_JobStates ?more) = ran (v5_state (m5_view (ac_more st)) (u_ID u))"
    using ran_states [OF m5_invD(7) [OF inv(2)], of "u_ID u"] by (simp add: m5_ExportUser_def m5_view_def)
  moreover have "handleExport (memAcctDeps wall) st now (Some u) = Resp 200 (AcctExport
     \<lparr>xr_Account = toAccountExport acct, xr_Profile = map_option toProfileExport (gget (cs_profiles (ac_cvs st)) (u_ID u)),
      xr_CVFiles = map toFileExport ?fs, xr_Additional = Some ?more, xr_Exported = now\<rparr>)"
    using assms(2)
    by (cases "gget (cs_profiles (ac_cvs st)) (u_ID u)")
      (simp_all add: handleExport_def memRepoOps_def mem_UserByID_def profMemOps_def pm_Get_def cvMemOps_def cm_FilesByUser_def Let_def)
  ultimately show ?thesis by (intro exI [of _ ?more] exI [of _ ?fs] exI conjI) (assumption | simp)+
qed

section \<open>An account with a CV and a profile, and somebody else's CV\<close>

definition demo_upload2 :: "unit memCVSvc \<times> cvResp" where
  "demo_upload2 = handleUpload cvMemOps (encOps objMemOps) demo_cvenv (fst demo_upload) (Some (demo_owner ''u2''))
     (FormFile ''b.pdf'' (Some ''%PDF-2''))"

definition demo_acct :: memAcct where
  "demo_acct = \<lparr>ac_users = sampleStore,
     ac_cvs = \<lparr>cs_repo = cs_repo (fst demo_upload2), cs_objs = cs_objs (fst demo_upload2),
       cs_profiles = [(''u1'', emptyProfile ''u1'')], cs_ticks = 0, cs_draws = 0\<rparr>,
     ac_more = NewM5Memory int demo_uuid\<rparr>"

lemma demo_upload_keys: "keys_own (gget (cm_files (cs_repo (fst demo_upload))))"
  using upload_keys_own [OF demo_cvsvc_ok, of "Some (demo_owner ''u1'')" demo_cvenv "FormFile ''cv.PDF'' (Some ''%PDF-1'')"
      "fst demo_upload" "snd demo_upload"]
  by (simp add: demo_upload_def demo_owner_def keys_own_def demo_cvsvc_def NewCVMemory_def)

lemma demo_upload2_ok: "cv_ok (fst demo_upload2)" "keys_own (gget (cm_files (cs_repo (fst demo_upload2))))"
  using cvb.handleUpload_ok [OF demo_upload_ok, of demo_cvenv "Some (demo_owner ''u2'')" "FormFile ''b.pdf'' (Some ''%PDF-2'')"
      "fst demo_upload2" "snd demo_upload2"]
    upload_keys_own [OF demo_upload_ok demo_upload_keys, of "Some (demo_owner ''u2'')" demo_cvenv
      "FormFile ''b.pdf'' (Some ''%PDF-2'')" "fst demo_upload2" "snd demo_upload2"]
  by (simp_all add: demo_upload2_def demo_owner_def)

lemma demo_acct_ok: "memAcct_ok demo_acct"
  using demo_upload2_ok sampleStore_inv
  by (simp add: memAcct_ok_def demo_acct_def m5_inv_new demo_uuid_inj)

lemma demo_acct_files:
  "list_ex (\<lambda>(i, f). fl_UserID f = ''u2'' \<and> en_content gget (cs_objs (ac_cvs demo_acct)) (fl_ObjectKey f) = Some ''%PDF-2'')
     (cm_files (cs_repo (ac_cvs demo_acct)))"
  by code_simp

lemma demo_acct_user: "gget (ma_users (ac_users demo_acct)) (u_ID (demo_owner ''u1'')) = Some sampleUser"
  by code_simp

theorem account_erased_witness:
  "\<exists>st' (f :: cvFile). fst (handleAccountDelete (memAcctDeps 0) demo_acct (Some (demo_owner ''u1''))) = st' \<and>
    erasedFrom ''u1'' (memAcctView st') \<and> fl_UserID f = ''u2'' \<and>
    en_content gget (cs_objs (ac_cvs st')) (fl_ObjectKey f) = Some ''%PDF-2''"
proof (cases "handleAccountDelete (memAcctDeps 0) demo_acct (Some (demo_owner ''u1''))")
  case (Pair st' resp)
  have u: "gget (ma_users (ac_users demo_acct)) (u_ID (demo_owner ''u1'')) \<noteq> None" using demo_acct_user by simp
  note e = account_erased [OF demo_acct_ok u Pair]
  obtain i f where f: "(i, f) \<in> set (cm_files (cs_repo (ac_cvs demo_acct)))" "fl_UserID f = ''u2''"
    "en_content gget (cs_objs (ac_cvs demo_acct)) (fl_ObjectKey f) = Some ''%PDF-2''"
    using demo_acct_files by (auto simp: list_ex_iff)
  have "gget (cm_files (cs_repo (ac_cvs demo_acct))) i = Some f"
    using f(1) demo_acct_ok gget_mem [of "cm_files (cs_repo (ac_cvs demo_acct))" i f] by (simp add: memAcct_ok_def cm_inv_def)
  moreover have "keptFor ''u2'' (memAcctView demo_acct) (memAcctView st')"
    using e by (simp add: demo_owner_def uid_ok_def NUL_def)
  ultimately have "en_content gget (cs_objs (ac_cvs st')) (fl_ObjectKey f) = Some ''%PDF-2''"
    using f(2,3) by (auto simp: keptFor_def memAcctView_def)
  moreover have "erasedFrom ''u1'' (memAcctView st')" using e by (simp add: demo_owner_def)
  ultimately show ?thesis using f(2) Pair by (intro exI [of _ st'] exI [of _ f]) simp
qed

theorem account_export_complete_witness:
  "\<exists>x. handleExport (memAcctDeps 0) demo_acct 9 (Some (demo_owner ''u1'')) = Resp 200 (AcctExport x) \<and>
    xr_Account x = toAccountExport sampleUser"
  using account_export_complete [OF demo_acct_ok demo_acct_user, of 0 9] by blast

end
