(* ===== verification/Go_Mux.thy ===== *)
theory Go_Mux
  imports Go_Net
begin

text \<open>
  \<open>net/http.ServeMux\<close> as the backend uses it: patterns are an optional method and a path of
  literal segments, \<open>{name}\<close> wildcards and a trailing slash that takes the rest of the path.
  No pattern names a host, \<open>{$}\<close> or a \<open>...\<close> wildcard. Among the matching patterns the most
  specific one wins, a pattern with the method of the request before one without. A path is
  the escaped path of the request URL. \<open>CONNECT\<close> requests, whose paths are not cleaned, are
  treated like the others.
\<close>

datatype seg = Lit string | Wild string | Multi

record mpattern =
  mp_method :: "string option"
  mp_segs :: "seg list"

section \<open>Parsing\<close>

fun pattern_segs :: "string list \<Rightarrow> seg list" where
  "pattern_segs [] = []"
| "pattern_segs [s] = (if s = [] then [Multi] else if has_prefix s ''{'' then [Wild (take (length s - 2) (drop 1 s))] else [Lit s])"
| "pattern_segs (s # ss) = (if has_prefix s ''{'' then Wild (take (length s - 2) (drop 1 s)) else Lit s) # pattern_segs ss"

text \<open>The parts of a path after its first slash; a trailing slash leaves an empty last part.\<close>

definition path_parts :: "string \<Rightarrow> string list" where
  "path_parts p = split_on CHR ''/'' (drop 1 p)"

definition parse_pattern :: "string \<Rightarrow> mpattern" where
  "parse_pattern s =
     (case cut CHR '' '' s of
        (meth, Some p) \<Rightarrow> \<lparr>mp_method = Some meth, mp_segs = pattern_segs (path_parts p)\<rparr>
      | (p, None) \<Rightarrow> \<lparr>mp_method = None, mp_segs = pattern_segs (path_parts p)\<rparr>)"

section \<open>Matching\<close>

text \<open>The values of the wildcards; a wildcard does not match the empty part of a trailing slash.\<close>

fun match_segs :: "seg list \<Rightarrow> string list \<Rightarrow> (string \<times> string) list option" where
  "match_segs [] [] = Some []"
| "match_segs (Lit l # ps) (s # ss) = (if s = l \<and> s \<noteq> [] then match_segs ps ss else None)"
| "match_segs (Wild n # ps) (s # ss) = (if s \<noteq> [] then map_option (Cons (n, s)) (match_segs ps ss) else None)"
| "match_segs [Multi] (s # ss) = Some []"
| "match_segs _ _ = None"

text \<open>At the first difference a literal is more specific than a wildcard, and both than the rest.\<close>

fun seg_rank :: "seg \<Rightarrow> nat" where
  "seg_rank (Lit _) = 0"
| "seg_rank (Wild _) = 1"
| "seg_rank Multi = 2"

fun more_specific :: "seg list \<Rightarrow> seg list \<Rightarrow> bool" where
  "more_specific (p # ps) (q # qs) =
     (seg_rank p < seg_rank q \<or> seg_rank p = seg_rank q \<and> more_specific ps qs)"
| "more_specific _ _ = False"

type_synonym 'h mux = "(string \<times> 'h) list"

fun best_match :: "string option \<Rightarrow> string list \<Rightarrow> 'h mux \<Rightarrow> (seg list \<times> 'h \<times> (string \<times> string) list) option" where
  "best_match meth parts [] = None"
| "best_match meth parts ((pat, h) # ps) =
     (let p = parse_pattern pat; rest = best_match meth parts ps in
      if mp_method p \<noteq> meth then rest
      else (case match_segs (mp_segs p) parts of
        None \<Rightarrow> rest
      | Some vars \<Rightarrow> (case rest of
          None \<Rightarrow> Some (mp_segs p, h, vars)
        | Some (segs', _) \<Rightarrow> if more_specific segs' (mp_segs p) then rest else Some (mp_segs p, h, vars))))"

definition mux_match :: "string \<Rightarrow> string list \<Rightarrow> 'h mux \<Rightarrow> (seg list \<times> 'h \<times> (string \<times> string) list) option" where
  "mux_match meth parts m =
     (case best_match (Some meth) parts m of
        Some r \<Rightarrow> Some r
      | None \<Rightarrow> (case (if meth = ''HEAD'' then best_match (Some ''GET'') parts m else None) of
          Some r \<Rightarrow> Some r
        | None \<Rightarrow> best_match None parts m))"

text \<open>An exact match leaves nothing to the trailing slash of its pattern.\<close>

definition exact_match :: "seg list option \<Rightarrow> string list \<Rightarrow> bool" where
  "exact_match r parts =
     (case r of None \<Rightarrow> False
      | Some segs \<Rightarrow> last segs \<noteq> Multi \<or> last parts = [] \<and> length segs = length parts)"

definition path_allowed :: "'h mux \<Rightarrow> string list \<Rightarrow> bool" where
  "path_allowed m parts =
     list_ex (\<lambda>(pat, h). mp_method (parse_pattern pat) \<noteq> None \<and> match_segs (mp_segs (parse_pattern pat)) parts \<noteq> None) m"

datatype 'h mux_result =
    MuxFound 'h "(string \<times> string) list"
  | MuxRedirect
  | MuxNotAllowed
  | MuxNotFound

text \<open>A path is clean when \<open>path.Clean\<close> would leave it, apart from a trailing slash.\<close>

definition clean_path :: "string \<Rightarrow> bool" where
  "clean_path p \<longleftrightarrow> has_prefix p ''/'' \<and>
     (p = ''/'' \<or> (let parts = path_parts p in
        list_all (\<lambda>s. s \<noteq> ''.'' \<and> s \<noteq> ''..'') parts \<and> list_all (\<lambda>s. s \<noteq> []) (butlast parts) \<and> parts \<noteq> [[]]))"

definition unescape_part :: "string \<Rightarrow> string" where
  "unescape_part s = (case path_unescape s of None \<Rightarrow> s | Some t \<Rightarrow> t)"

definition mux_serve :: "'h mux \<Rightarrow> string \<Rightarrow> string \<Rightarrow> 'h mux_result" where
  "mux_serve m meth path =
     (let parts = map unescape_part (path_parts path); r = mux_match meth parts m; slashed = parts @ [[]] in
      if \<not> clean_path path then MuxRedirect
      else if \<not> exact_match (map_option fst r) parts \<and> last parts \<noteq> [] \<and>
         exact_match (map_option fst (mux_match meth slashed m)) slashed then MuxRedirect
      else (case r of
        Some (_, h, vars) \<Rightarrow> MuxFound h vars
      | None \<Rightarrow> if path_allowed m parts \<or> last parts \<noteq> [] \<and> path_allowed m slashed then MuxNotAllowed else MuxNotFound))"

section \<open>What a found handler means\<close>

lemma best_match_mem:
  "best_match meth parts m = Some (segs, h, vars) \<Longrightarrow>
   \<exists>pat. (pat, h) \<in> set m \<and> mp_method (parse_pattern pat) = meth \<and> segs = mp_segs (parse_pattern pat) \<and>
     match_segs segs parts = Some vars"
proof (induction m)
  case (Cons ph ps)
  obtain pat h' where ph: "ph = (pat, h')" by (cases ph)
  show ?case
  proof (cases "best_match meth parts ps = Some (segs, h, vars)")
    case True
    then show ?thesis using Cons.IH by auto
  next
    case False
    then have "mp_method (parse_pattern pat) = meth \<and> segs = mp_segs (parse_pattern pat) \<and> h' = h \<and>
        match_segs segs parts = Some vars"
      using Cons.prems unfolding ph by (auto simp: Let_def split: if_splits option.splits)
    then show ?thesis unfolding ph by auto
  qed
qed simp

lemma best_match_Some: "(pat, h) \<in> set m \<Longrightarrow> mp_method (parse_pattern pat) = meth \<Longrightarrow>
   match_segs (mp_segs (parse_pattern pat)) parts \<noteq> None \<Longrightarrow> best_match meth parts m \<noteq> None"
  by (induction m) (auto simp: Let_def split: option.split)

lemma mux_match_mem:
  assumes "mux_match meth parts m = Some (segs, h, vars)"
  obtains pat where "(pat, h) \<in> set m" "segs = mp_segs (parse_pattern pat)" "match_segs segs parts = Some vars"
    "mp_method (parse_pattern pat) \<in> {None, Some meth, Some ''GET''}"
  using assms best_match_mem [of _ parts m segs h vars]
  by (auto simp: mux_match_def split: option.splits if_splits)

lemma mux_serve_found:
  assumes "mux_serve m meth path = MuxFound h vars"
  obtains pat where "(pat, h) \<in> set m" "match_segs (mp_segs (parse_pattern pat)) (map unescape_part (path_parts path)) = Some vars"
    "mp_method (parse_pattern pat) \<in> {None, Some meth, Some ''GET''}" "clean_path path"
proof -
  let ?parts = "map unescape_part (path_parts path)"
  from assms obtain segs where "mux_match meth ?parts m = Some (segs, h, vars)" "clean_path path"
    by (auto simp: mux_serve_def Let_def split: if_splits option.splits)
  then show ?thesis using that by (elim mux_match_mem) blast
qed

end
