(* ===== verification/Api.thy ===== *)
theory Api
  imports Go_Mux Go_JSON
begin

text \<open>
  The outer layer of the HTTP API (\<open>internal/api\<close>): the HTTPS guard, the health check and the
  router, and the telemetry endpoint (\<open>internal/telemetry\<close>).
\<close>

section \<open>HTTPS\<close>

record SecurityConfig =
  sec_EnforceHTTPS :: bool
  sec_TrustForwardedProto :: bool
  sec_HSTSMaxAge :: int

definition defaultHSTSMaxAge :: int where
  "defaultHSTSMaxAge = 63072000"

text \<open>How a request arrived: over TLS or not, and its \<open>X-Forwarded-Proto\<close> header.\<close>

record transport =
  tr_TLS :: bool
  tr_ForwardedProto :: string

definition requestIsSecure :: "transport \<Rightarrow> bool \<Rightarrow> bool" where
  "requestIsSecure r trustForwardedProto =
     (if tr_TLS r then True
      else if \<not> trustForwardedProto then False
      else (let proto0 = tr_ForwardedProto r;
                proto = (case index_byte proto0 CHR '','' of Some i \<Rightarrow> take i proto0 | None \<Rightarrow> proto0)
            in equal_fold (trim_space proto) ''https''))"

definition hstsHeader :: "SecurityConfig \<Rightarrow> string" where
  "hstsHeader cfg =
     (let maxAge = (if sec_HSTSMaxAge cfg \<le> 0 then defaultHSTSMaxAge else sec_HSTSMaxAge cfg)
      in ''max-age='' @ itoa maxAge @ ''; includeSubDomains'')"

text \<open>
  The answer with the \<open>Strict-Transport-Security\<close> header the guard sets; \<open>next\<close> is what the
  wrapped handler does, \<open>refuse\<close> the 403.
\<close>

definition RequireHTTPS :: "'r \<Rightarrow> 'r \<Rightarrow> SecurityConfig \<Rightarrow> transport \<Rightarrow> string option \<times> 'r" where
  "RequireHTTPS refuse nxt cfg r =
     (if \<not> sec_EnforceHTTPS cfg then (None, nxt)
      else if \<not> requestIsSecure r (sec_TrustForwardedProto cfg) then (None, refuse)
      else (Some (hstsHeader cfg), nxt))"

section \<open>The router\<close>

record HealthResponse =
  hl_Status :: string
  hl_Time :: time

definition Health :: "time \<Rightarrow> HealthResponse resp" where
  "Health now = Resp 200 \<lparr>hl_Status = ''ok'', hl_Time = now\<rparr>"

record 'h Mount =
  mt_Pattern :: string
  mt_Handler :: "'h option"

fun mountAll :: "'h Mount list \<Rightarrow> 'h mux" where
  "mountAll [] = []"
| "mountAll (m # ms) =
     (case mt_Handler m of
        Some h \<Rightarrow> if mt_Pattern m \<noteq> [] then (mt_Pattern m, h) # mountAll ms else mountAll ms
      | None \<Rightarrow> mountAll ms)"

definition NewRouter :: "'h \<Rightarrow> 'h option \<Rightarrow> 'h Mount list \<Rightarrow> 'h mux" where
  "NewRouter health authHandler mounts =
     (''GET /healthz'', health) # (case authHandler of None \<Rightarrow> [] | Some a \<Rightarrow> [(''/auth/'', a)]) @ mountAll mounts"

section \<open>Telemetry\<close>

record correction =
  co_Type :: string
  co_PortalID :: string
  co_Version :: string
  co_Key :: string
  co_Selector :: string
  co_At :: int

definition correctionFields :: "correction fields_dec" where
  "correctionFields =
     [(''type'', str_field (\<lambda>s c. c\<lparr>co_Type := s\<rparr>)), (''portalId'', str_field (\<lambda>s c. c\<lparr>co_PortalID := s\<rparr>)),
      (''version'', str_field (\<lambda>s c. c\<lparr>co_Version := s\<rparr>)), (''key'', str_field (\<lambda>s c. c\<lparr>co_Key := s\<rparr>)),
      (''selector'', str_field (\<lambda>s c. c\<lparr>co_Selector := s\<rparr>)), (''at'', int_field (\<lambda>i c. c\<lparr>co_At := i\<rparr>))]"

definition zeroCorrection :: correction where
  "zeroCorrection = \<lparr>co_Type = [], co_PortalID = [], co_Version = [], co_Key = [], co_Selector = [], co_At = 0\<rparr>"

definition safeMeta :: "string \<Rightarrow> int \<Rightarrow> bool" where
  "safeMeta value mx = (value \<noteq> [] \<and> int (length value) \<le> mx \<and> \<not> contains_any value [CHR 0x0D, CHR 0x0A])"

definition telemetry_Routes :: "string list" where
  "telemetry_Routes = [''POST /telemetry/fill-correction'']"

text \<open>The body is the first value of the request, \<open>None\<close> if it is no JSON or past 8 KiB.\<close>

definition handleCorrection :: "raw \<Rightarrow> nat" where
  "handleCorrection body =
     (case body of None \<Rightarrow> 400
      | Some v \<Rightarrow> (case un_obj True correctionFields zeroCorrection v of
          None \<Rightarrow> 400
        | Some event \<Rightarrow>
            if co_Type event \<noteq> ''fill_correction'' \<or> \<not> safeMeta (co_PortalID event) 64 \<or> \<not> safeMeta (co_Version event) 32 \<or>
               \<not> safeMeta (co_Key event) 64 \<or> \<not> safeMeta (co_Selector event) 512 \<or> co_At event \<le> 0
            then 400 else 204))"

end
