(* ===== verification/Ingest_Control.thy ===== *)
theory Ingest_Control
  imports Ingest_Runner Ingest_Store
begin

text \<open>
  When ingestion runs: the controller that serializes passes and guards the on-demand trigger
  (\<open>internal/ingestctl\<close>), and the schedule and workers of the queue (\<open>internal/queue\<close>).
\<close>

section \<open>The controller\<close>

record controller =
  ctl_target :: int
  ctl_minGap :: duration
  ctl_running :: bool
  ctl_lastRun :: time

definition NewController :: "int \<Rightarrow> duration \<Rightarrow> controller" where
  "NewController target minGap = \<lparr>ctl_target = target, ctl_minGap = minGap, ctl_running = False, ctl_lastRun = zero_time\<rparr>"

text \<open>
  The critical section of \<open>Trigger\<close>, with its two clock readings; after \<open>True\<close> the pass runs
  in a goroutine of its own, which ends with \<open>finishRun\<close>.
\<close>

definition Trigger :: "controller \<Rightarrow> time \<Rightarrow> time \<Rightarrow> controller \<times> bool" where
  "Trigger c now1 now2 =
     (if ctl_running c \<or>
         ctl_minGap c > 0 \<and> \<not> is_zero_time (ctl_lastRun c) \<and> time_sub now1 (ctl_lastRun c) < ctl_minGap c
      then (c, False)
      else (c\<lparr>ctl_running := True, ctl_lastRun := now2\<rparr>, True))"

definition finishRun :: "controller \<Rightarrow> controller" where
  "finishRun c = c\<lparr>ctl_running := False\<rparr>"

text \<open>\<open>counter\<close> is \<open>None\<close> without a counter, and what it counts otherwise.\<close>

definition StartBackfill :: "controller \<Rightarrow> ('e + int) option \<Rightarrow> time \<Rightarrow> time \<Rightarrow> controller \<times> ('e + bool)" where
  "StartBackfill c counter now1 now2 =
     (case counter of
        None \<Rightarrow> (c, Inr False)
      | Some (Inl e) \<Rightarrow> (c, Inl e)
      | Some (Inr count) \<Rightarrow>
          if count \<ge> ctl_target c then (c, Inr False)
          else (case Trigger c now1 now2 of (c', b) \<Rightarrow> (c', Inr b)))"

record triggerReq =
  tg_IngestToken :: string
  tg_Authorization :: string

definition ctl_authorized :: "triggerReq \<Rightarrow> string \<Rightarrow> bool" where
  "ctl_authorized r token =
     (let supplied0 = trim_space (tg_IngestToken r);
          supplied = (if supplied0 = [] \<and> has_prefix (tg_Authorization r) ''Bearer ''
                      then trim_space (drop 7 (tg_Authorization r)) else supplied0)
      in if supplied = [] then False else supplied = token)"

definition ctl_Routes :: "string list" where
  "ctl_Routes = [''POST /ingest/run'']"

definition handleTrigger :: "controller \<Rightarrow> string \<Rightarrow> triggerReq \<Rightarrow> time \<Rightarrow> time \<Rightarrow> controller \<times> nat" where
  "handleTrigger c token r now1 now2 =
     (if token = [] then (c, 503)
      else if \<not> ctl_authorized r token then (c, 401)
      else (case Trigger c now1 now2 of
        (c', False) \<Rightarrow> (c', 409)
      | (c', True) \<Rightarrow> (c', 202)))"

section \<open>Its runs\<close>

text \<open>
  What can happen to a controller: any caller's trigger or backfill starts a pass or is
  refused, and a running pass ends. The clock does not go back between the two readings.
\<close>

datatype ctl_event = Started time | Refused | Finished

inductive ctl_step :: "controller \<Rightarrow> ctl_event \<Rightarrow> controller \<Rightarrow> bool" where
  step_start: "Trigger c t1 t2 = (c', True) \<Longrightarrow> t1 \<le> t2 \<Longrightarrow> ctl_step c (Started t2) c'"
| step_refuse: "Trigger c t1 t2 = (c', False) \<Longrightarrow> ctl_step c Refused c'"
| step_finish: "ctl_running c \<Longrightarrow> ctl_step c Finished (finishRun c)"


inductive ctl_trace :: "controller \<Rightarrow> ctl_event list \<Rightarrow> controller \<Rightarrow> bool" where
  trace_nil: "ctl_trace c [] c"
| trace_cons: "ctl_step c e c1 \<Longrightarrow> ctl_trace c1 es c2 \<Longrightarrow> ctl_trace c (e # es) c2"

text \<open>Starts and ends alternate, and starts are the gap apart.\<close>

fun one_at_a_time :: "bool \<Rightarrow> ctl_event list \<Rightarrow> bool" where
  "one_at_a_time running [] = True"
| "one_at_a_time running (Started t # es) = (\<not> running \<and> one_at_a_time True es)"
| "one_at_a_time running (Finished # es) = (running \<and> one_at_a_time False es)"
| "one_at_a_time running (Refused # es) = one_at_a_time running es"

fun spaced :: "duration \<Rightarrow> time \<Rightarrow> ctl_event list \<Rightarrow> bool" where
  "spaced gap prev [] = True"
| "spaced gap prev (Started t # es) = ((0 < gap \<longrightarrow> prev \<noteq> zero_time \<longrightarrow> prev + gap \<le> t) \<and> spaced gap t es)"
| "spaced gap prev (e # es) = spaced gap prev es"

lemma time_sub_gap: "time_sub t u \<ge> gap \<Longrightarrow> 0 < gap \<Longrightarrow> u + gap \<le> t"
  by (auto simp: time_sub_def max_duration_def min_duration_def min_def max_def split: if_splits)

lemma trace_ok:
  "ctl_trace c es c' \<Longrightarrow> one_at_a_time (ctl_running c) es \<and> spaced (ctl_minGap c) (ctl_lastRun c) es \<and>
     ctl_minGap c' = ctl_minGap c"
proof (induction rule: ctl_trace.induct)
  case (trace_cons c e c1 es c2)
  from trace_cons.hyps(1) show ?case
  proof cases
    case (step_start t1 t2)
    then have c1: "c1 = c\<lparr>ctl_running := True, ctl_lastRun := t2\<rparr>" "\<not> ctl_running c"
      "0 < ctl_minGap c \<Longrightarrow> ctl_lastRun c \<noteq> zero_time \<Longrightarrow> ctl_minGap c \<le> time_sub t1 (ctl_lastRun c)"
      by (auto simp: Trigger_def is_zero_time_def zero_time_def split: if_splits)
    have "ctl_lastRun c + ctl_minGap c \<le> t2" if "0 < ctl_minGap c" "ctl_lastRun c \<noteq> zero_time"
      using time_sub_gap [OF c1(3) [OF that] that(1)] step_start(3) by simp
    then show ?thesis using trace_cons.IH c1(1,2) step_start(1) by simp
  next
    case (step_refuse t1 t2)
    then have "c1 = c" by (auto simp: Trigger_def split: if_splits)
    then show ?thesis using trace_cons.IH step_refuse(1) by simp
  next
    case step_finish
    then show ?thesis using trace_cons.IH by (simp add: finishRun_def)
  qed
qed simp

text \<open>
  C12: However triggers, backfills and ends of passes are interleaved, at most one ingestion
  pass runs at a time and consecutive passes start at least the configured gap apart. The
  trigger endpoint changes the controller only for a request with the configured, non-empty
  token, and a trigger that is neither running nor throttled always starts a pass.
\<close>

theorem ingestion_serialized:
  assumes "ctl_trace (NewController target gap) es c"
  shows "one_at_a_time False es \<and> spaced gap zero_time es \<and>
    (\<forall>token r t1 t2 c' code. handleTrigger c token r t1 t2 = (c', code) \<longrightarrow>
       (if code = 202 then token \<noteq> [] \<and> ctl_authorized r token \<and> \<not> ctl_running c \<and> ctl_running c' else c' = c)) \<and>
    (\<forall>t1 t2. \<not> ctl_running c \<longrightarrow> ctl_lastRun c + gap \<le> t1 \<longrightarrow> gap \<le> max_duration \<longrightarrow> snd (Trigger c t1 t2))"
proof -
  have "one_at_a_time False es" "spaced gap zero_time es" and g: "ctl_minGap c = gap"
    using trace_ok [OF assms] by (simp_all add: NewController_def)
  moreover have "if code = 202 then token \<noteq> [] \<and> ctl_authorized r token \<and> \<not> ctl_running c \<and> ctl_running c' else c' = c"
    if "handleTrigger c token r t1 t2 = (c', code)" for token r t1 t2 c' code
    using that by (auto simp: handleTrigger_def Trigger_def split: if_splits)
  moreover have "snd (Trigger c t1 t2)" if "\<not> ctl_running c" "ctl_lastRun c + gap \<le> t1" "gap \<le> max_duration" for t1 t2
    using that g by (auto simp: Trigger_def time_sub_def)
  ultimately show ?thesis by blast
qed

theorem ingestion_serialized_witness:
  "\<exists>c. ctl_trace (NewController 1000 60) [Started 100, Refused, Finished, Refused, Started 170] c \<and>
     one_at_a_time False [Started 100, Refused, Finished, Refused, Started 170]"
proof -
  let ?c0 = "NewController 1000 60"
  let ?c1 = "?c0\<lparr>ctl_running := True, ctl_lastRun := 100\<rparr>"
  let ?c2 = "finishRun ?c1"
  let ?c3 = "?c2\<lparr>ctl_running := True, ctl_lastRun := 170\<rparr>"
  have "ctl_step ?c0 (Started 100) ?c1"
    by (rule step_start [of _ 99]) (simp_all add: Trigger_def NewController_def is_zero_time_def zero_time_def)
  moreover have "ctl_step ?c1 Refused ?c1"
    by (rule step_refuse [of _ 120 120]) (simp add: Trigger_def)
  moreover have "ctl_step ?c1 Finished ?c2"
    by (rule step_finish) simp
  moreover have "ctl_step ?c2 Refused ?c2"
    by (rule step_refuse [of _ 130 130]) (simp add: Trigger_def NewController_def finishRun_def is_zero_time_def zero_time_def time_sub_def max_duration_def min_duration_def)
  moreover have "ctl_step ?c2 (Started 170) ?c3"
    by (rule step_start [of _ 169]) (simp_all add: Trigger_def NewController_def finishRun_def is_zero_time_def zero_time_def time_sub_def max_duration_def min_duration_def)
  ultimately have "ctl_trace ?c0 [Started 100, Refused, Finished, Refused, Started 170] ?c3"
    by - ((rule trace_cons, assumption)+, rule trace_nil)
  then show ?thesis using ingestion_serialized by blast
qed

section \<open>The queue\<close>

record queueConfig =
  qc_IngestInterval :: duration
  qc_SweepInterval :: duration
  qc_StaleAfter :: duration
  qc_RunOnStart :: bool

definition queue_withDefaults :: "queueConfig \<Rightarrow> queueConfig" where
  "queue_withDefaults c0 =
     (let c1 = (if qc_IngestInterval c0 \<le> 0 then c0\<lparr>qc_IngestInterval := hours 6\<rparr> else c0);
          c2 = (if qc_SweepInterval c1 \<le> 0 then c1\<lparr>qc_SweepInterval := hours 1\<rparr> else c1)
      in if qc_StaleAfter c2 \<le> 0 then c2\<lparr>qc_StaleAfter := StaleAfter\<rparr> else c2)"

definition queue_Validate :: "queueConfig \<Rightarrow> bool" where
  "queue_Validate c = (\<not> qc_StaleAfter c > StaleAfter)"

text \<open>The periodic jobs a started queue schedules; \<open>None\<close> when the configuration is refused.\<close>

datatype queueJob = IngestArgs | SweepArgs duration

record periodicJob =
  pj_job :: queueJob
  pj_interval :: duration
  pj_runOnStart :: bool

definition queue_Start :: "queueConfig \<Rightarrow> periodicJob list option" where
  "queue_Start cfg0 =
     (let cfg = queue_withDefaults cfg0 in
      if \<not> queue_Validate cfg then None
      else Some [\<lparr>pj_job = IngestArgs, pj_interval = qc_IngestInterval cfg, pj_runOnStart = qc_RunOnStart cfg\<rparr>,
                 \<lparr>pj_job = SweepArgs (qc_StaleAfter cfg), pj_interval = qc_SweepInterval cfg, pj_runOnStart = False\<rparr>])"

text \<open>The worker of a pass fails with the persistence errors of its report, in order.\<close>

definition ingestWork :: "('f, 'e) SourceReport list \<Rightarrow> (string \<times> 'e) list option" where
  "ingestWork reps =
     (let errs = concat (map (\<lambda>s. case sr_PersistErr s of None \<Rightarrow> [] | Some e \<Rightarrow> [(sr_Source s, e)]) reps)
      in if errs \<noteq> [] then Some errs else None)"

definition sweepWork :: "('s \<Rightarrow> duration \<Rightarrow> 's \<times> ('e + nat)) \<Rightarrow> duration \<Rightarrow> 's \<Rightarrow> 's \<times> 'e option" where
  "sweepWork SweepStale maxAge store =
     (case SweepStale store maxAge of (s, Inl e) \<Rightarrow> (s, Some e) | (s, Inr n) \<Rightarrow> (s, None))"

text \<open>
  A started queue ingests and sweeps at positive intervals, and never expires a listing later
  than the ingest rule.
\<close>

lemma queue_schedule:
  "queue_Start cfg = Some jobs \<Longrightarrow>
   \<exists>i s a. jobs = [\<lparr>pj_job = IngestArgs, pj_interval = i, pj_runOnStart = qc_RunOnStart cfg\<rparr>,
     \<lparr>pj_job = SweepArgs a, pj_interval = s, pj_runOnStart = False\<rparr>] \<and> 0 < i \<and> 0 < s \<and> 0 < a \<and> a \<le> StaleAfter"
  by (auto simp: queue_Start_def queue_withDefaults_def queue_Validate_def Let_def StaleAfter_def hours_def minutes_def
      seconds_def split: if_splits)

end
