(* ===== verification/Go_FloatText.thy ===== *)
theory Go_FloatText
  imports Go_Float Go_Net
begin

text \<open>
  Floating-point numbers as text: \<open>strconv.ParseFloat\<close>, which also reads JSON numbers, and the
  verb \<open>%g\<close> of \<open>fmt\<close>, which prints the shortest decimal that reads back as the same double,
  with an exponent from a million on.
\<close>

datatype gofloat = Fin bool double | Inf bool | NaN

fun fl_pos :: "gofloat \<Rightarrow> bool" where
  "fl_pos (Fin neg d) = (\<not> neg \<and> 0 < fst d)"
| "fl_pos (Inf neg) = (\<not> neg)"
| "fl_pos NaN = False"

text \<open>\<open>int64(f)\<close>; outside the range and for an infinity the machine's value \<open>big\<close>.\<close>

fun fl_int64 :: "int \<Rightarrow> gofloat \<Rightarrow> int" where
  "fl_int64 big (Fin neg d) =
     (let t = (if neg then - double_trunc d else double_trunc d) in if - (2 ^ 63) \<le> t \<and> t < 2 ^ 63 then t else big)"
| "fl_int64 big _ = big"

section \<open>Reading\<close>

definition is_hexdigit :: "char \<Rightarrow> bool" where
  "is_hexdigit c \<longleftrightarrow> hex_val c \<noteq> None"

text \<open>Underscores stand between digits, or after the base prefix; \<open>saw\<close> is the last kind of character.\<close>

datatype saw = SawStart | SawDigit | SawUnderscore | SawOther

fun underscores_ok :: "bool \<Rightarrow> saw \<Rightarrow> string \<Rightarrow> bool" where
  "underscores_ok hex saw [] = (saw \<noteq> SawUnderscore)"
| "underscores_ok hex saw (c # cs) =
     (if is_digit c \<or> hex \<and> is_hexdigit c then underscores_ok hex SawDigit cs
      else if c = CHR ''_'' then (if saw = SawDigit then underscores_ok hex SawUnderscore cs else False)
      else if saw = SawUnderscore then False
      else underscores_ok hex SawOther cs)"

definition split_sign :: "string \<Rightarrow> bool \<times> string" where
  "split_sign s = (case s of c # r \<Rightarrow> if c = CHR ''-'' then (True, r) else if c = CHR ''+'' then (False, r) else (False, s) | [] \<Rightarrow> (False, s))"

definition exp_value :: "string \<Rightarrow> int" where
  "exp_value ds = foldl (\<lambda>e c. if e < 10000 then e * 10 + int (digit_val c) else e) 0 (filter is_digit ds)"

definition read_exponent :: "char \<Rightarrow> string \<Rightarrow> int option" where
  "read_exponent ec s =
     (case s of [] \<Rightarrow> if ec = CHR ''p'' then None else Some 0
      | c # r \<Rightarrow> if lower_char c \<noteq> ec then None
          else (case split_sign r of (neg, ds) \<Rightarrow>
            if ds = [] \<or> \<not> is_digit (hd ds) \<or> \<not> list_all (\<lambda>c. is_digit c \<or> c = CHR ''_'') ds then None
            else Some (if neg then - exp_value ds else exp_value ds)))"

definition hex_nat :: "string \<Rightarrow> int" where
  "hex_nat ds = foldl (\<lambda>n c. 16 * n + the (hex_val c)) 0 ds"

text \<open>The fraction \<open>n * base ^ e\<close>.\<close>

definition pow_frac :: "int \<Rightarrow> int \<Rightarrow> int \<Rightarrow> int \<times> int" where
  "pow_frac n base e = (if 0 \<le> e then (n * base ^ nat e, 1) else (n, base ^ nat (- e)))"

definition read_float :: "string \<Rightarrow> gofloat option" where
  "read_float s0 =
     (let (neg, s1) = split_sign s0;
          hex = (2 < length s1 \<and> has_prefix (to_lower s1) ''0x'');
          s = (if hex then drop 2 s1 else s1);
          isd = (if hex then is_hexdigit else is_digit);
          mant = takeWhile (\<lambda>c. isd c \<or> c = CHR ''_'' \<or> c = CHR ''.'') s;
          whole = filter isd (takeWhile (\<lambda>c. c \<noteq> CHR ''.'') mant);
          frac = dropWhile (\<lambda>c. c \<noteq> CHR ''.'') mant;
          fracd = filter isd frac
      in if CHR ''.'' \<in> set (drop 1 frac) \<or> whole @ fracd = [] then None
         else if CHR ''_'' \<in> set s \<and> \<not> underscores_ok hex (if hex then SawDigit else SawStart) s then None
         else (case read_exponent (if hex then CHR ''p'' else CHR ''e'') (drop (length mant) s) of
           None \<Rightarrow> None
         | Some e \<Rightarrow>
             (let (a, b) = (if hex then pow_frac (hex_nat (whole @ fracd)) 2 (e - 4 * int (length fracd))
                            else pow_frac (int_val (whole @ fracd)) 10 (e - int (length fracd)));
                  d = round_double a b
              in if 2 ^ 1024 \<le> double_trunc d then None else Some (Fin neg d))))"

definition ParseFloat :: "string \<Rightarrow> gofloat option" where
  "ParseFloat s =
     (let (neg, r) = split_sign s in
      if equal_fold r ''inf'' \<or> equal_fold r ''infinity'' then Some (Inf neg)
      else if equal_fold s ''nan'' then Some NaN
      else read_float s)"

section \<open>Printing\<close>

function lead_zeros :: "int \<Rightarrow> int \<Rightarrow> int" where
  "lead_zeros a b = (if a \<le> 0 \<or> b \<le> a * 10 then 0 else 1 + lead_zeros (a * 10) b)"
  by pat_completeness auto
termination by (relation "measure (\<lambda>(a, b). nat (b - a))") auto

declare lead_zeros.simps [simp del]

text \<open>The number of digits before the point of \<open>a / b > 0\<close>; not positive below a tenth.\<close>

definition dec_point :: "int \<Rightarrow> int \<Rightarrow> int" where
  "dec_point a b = (if b \<le> a then int (length (int_digits (a div b))) else - lead_zeros a b)"

definition double_same :: "double \<Rightarrow> double \<Rightarrow> bool" where
  "double_same f g = (case (scale2 (fst f) (snd f), scale2 (fst g) (snd g)) of ((a, b), (c, d)) \<Rightarrow> a * d = c * b)"

definition dec_double :: "int \<Rightarrow> int \<Rightarrow> double" where
  "dec_double k e = (case pow_frac k 10 e of (a, b) \<Rightarrow> round_double a b)"

text \<open>
  The first length, from \<open>n\<close> digits on, at which rounding down or up reads back as \<open>f\<close>, with the
  nearer of the two if both do; 17 digits always suffice.
\<close>

fun shortest_from :: "nat \<Rightarrow> nat \<Rightarrow> double \<Rightarrow> int \<Rightarrow> int \<Rightarrow> int \<Rightarrow> int \<times> nat" where
  "shortest_from fuel n f a b dp =
     (let (a', b') = (if dp \<le> int n then (a * 10 ^ nat (int n - dp), b) else (a, b * 10 ^ nat (dp - int n)));
          lo = a' div b';
          okdown = double_same (dec_double lo (dp - int n)) f;
          okup = double_same (dec_double (lo + 1) (dp - int n)) f
      in case fuel of 0 \<Rightarrow> (half_even a' b', n)
         | Suc k \<Rightarrow> if okdown \<and> okup then (half_even a' b', n)
                    else if okdown then (lo, n)
                    else if okup then (lo + 1, n)
                    else shortest_from k (Suc n) f a b dp)"

text \<open>The digits and the position of the point; no digits for zero.\<close>

definition shortest :: "double \<Rightarrow> string \<times> int" where
  "shortest f =
     (if fst f = 0 then ([], 0)
      else (let (a, b) = scale2 (fst f) (snd f); dp = dec_point a b; (k, n) = shortest_from 16 1 f a b dp; ds = int_digits k
            in (trim_right (\<lambda>c. c = CHR ''0'') ds, dp + (int (length ds) - int n))))"

definition fmtE :: "string \<Rightarrow> int \<Rightarrow> string" where
  "fmtE ds e =
     (let r = drop 1 ds; x = int_digits (abs e) in
      take 1 ds @ (if r = [] then [] else CHR ''.'' # r) @ ''e'' @ (if e < 0 then ''-'' else ''+'') @
      (if length x < 2 then CHR ''0'' # x else x))"

definition fmtF :: "string \<Rightarrow> int \<Rightarrow> string" where
  "fmtF ds dp =
     (let whole = (if 0 < dp then take (nat dp) ds @ replicate (nat dp - length ds) (CHR ''0'') else ''0'');
          frac = (if 0 < dp then drop (nat dp) ds else replicate (nat (- dp)) (CHR ''0'') @ ds)
      in whole @ (if int (length ds) - dp \<le> 0 then [] else CHR ''.'' # frac))"

fun fmt_g :: "gofloat \<Rightarrow> string" where
  "fmt_g (Fin neg f) =
     (let (ds, dp) = shortest f; e = dp - 1 in
      (if neg then ''-'' else []) @ (if e < -4 \<or> 6 \<le> e then fmtE ds e else fmtF ds dp))"
| "fmt_g (Inf neg) = (if neg then ''-Inf'' else ''+Inf'')"
| "fmt_g NaN = ''NaN''"

end
