(* ===== verification/Ingest_Wire.thy ===== *)
theory Ingest_Wire
  imports Go_FloatText Go_JSON Ingest_Normalize Ingest_Fetch
begin

text \<open>
  What the listing sources share (\<open>internal/ingest\<close>: the helpers of \<open>atssource.go\<close>,
  \<open>remotesource.go\<close>, \<open>careerjetsource.go\<close>, \<open>workdaysource.go\<close> and \<open>htmlsource.go\<close>): text out of
  HTML, times, salaries, ids and the answers of JSON APIs.

  A source environment holds the HTML parser of \<open>golang.org/x/net/html\<close>, \<open>time.Parse\<close> by
  layout, and what the salary parser needs.
\<close>

section \<open>HTML\<close>

text \<open>A node of a parsed document; documents, comments and doctypes are \<open>OtherNode\<close>.\<close>

datatype html =
    TextNode string
  | ElementNode string "(string \<times> string) list" "html list"
  | OtherNode "html list"

record srcEnv =
  se_html :: "string \<Rightarrow> html option"
  se_time :: "string \<Rightarrow> string \<Rightarrow> time option"
  se_norm :: normEnv

definition isHTMLBlock :: "string \<Rightarrow> bool" where
  "isHTMLBlock tag \<longleftrightarrow> tag \<in> set
     [''address'', ''article'', ''aside'', ''blockquote'', ''br'', ''dd'', ''div'', ''dl'',
      ''dt'', ''fieldset'', ''figcaption'', ''figure'', ''footer'', ''form'', ''h1'', ''h2'',
      ''h3'', ''h4'', ''h5'', ''h6'', ''header'', ''hr'', ''li'', ''main'', ''nav'', ''ol'', ''p'',
      ''pre'', ''section'', ''table'', ''tbody'', ''td'', ''tfoot'', ''th'', ''thead'', ''tr'', ''ul'']"

fun textContentWithSpacing :: "html \<Rightarrow> string" where
  "textContentWithSpacing (TextNode d) = d"
| "textContentWithSpacing (ElementNode tag at cs) =
     (if tag = ''script'' \<or> tag = ''style'' then []
      else let sp = (if isHTMLBlock tag then '' '' else []) in sp @ concat (map textContentWithSpacing cs) @ sp)"
| "textContentWithSpacing (OtherNode cs) = concat (map textContentWithSpacing cs)"

definition htmlToPlainText :: "srcEnv \<Rightarrow> string \<Rightarrow> string" where
  "htmlToPlainText env raw =
     (if trim_space raw = [] then []
      else (case se_html env raw of None \<Rightarrow> []
        | Some doc \<Rightarrow> join '' '' (fields_func is_space (textContentWithSpacing doc))))"

section \<open>Text\<close>

fun firstNonEmpty :: "string list \<Rightarrow> string" where
  "firstNonEmpty [] = []"
| "firstNonEmpty (v # vs) = (if trim_space v \<noteq> [] then trim_space v else firstNonEmpty vs)"

fun filterNonEmpty :: "string list \<Rightarrow> string list" where
  "filterNonEmpty [] = []"
| "filterNonEmpty (v # vs) = (if trim_space v \<noteq> [] then trim_space v # filterNonEmpty vs else filterNonEmpty vs)"

definition joinNonEmpty :: "string \<Rightarrow> string list \<Rightarrow> string" where
  "joinNonEmpty sep vs = join sep (filterNonEmpty vs)"

text \<open>\<open>strings.Title\<close>: letters after a separator, for ASCII any byte but letters, digits and underscores.\<close>

fun title_from :: "bool \<Rightarrow> string \<Rightarrow> string" where
  "title_from sep [] = []"
| "title_from sep (c # cs) =
     (if sep then upper_char c else c) # title_from (\<not> (is_alnum c \<or> c = CHR ''_'' \<or> 128 \<le> (of_char c :: int))) cs"

definition humanizeSlug :: "string \<Rightarrow> string" where
  "humanizeSlug slug = title_from True (map (\<lambda>c. if c = CHR ''_'' then CHR '' '' else c) (map (\<lambda>c. if c = CHR ''-'' then CHR '' '' else c) slug))"

fun sanitize_runes :: "string \<Rightarrow> string" where
  "sanitize_runes [] = []"
| "sanitize_runes (c # cs) =
     (if is_lower_az c \<or> is_digit c then c # sanitize_runes cs
      else if c = CHR ''-'' \<or> c = CHR ''_'' then CHR ''-'' # sanitize_runes cs
      else sanitize_runes cs)"

definition sanitizeID :: "string \<Rightarrow> string" where
  "sanitizeID s = sanitize_runes (trim_space (to_lower s))"

text \<open>\<open>url.PathEscape\<close>.\<close>

definition hex_upper :: "int \<Rightarrow> char" where
  "hex_upper n = ''0123456789ABCDEF'' ! nat n"

definition path_escape :: "string \<Rightarrow> string" where
  "path_escape s = concat (map (\<lambda>c. if is_alnum c \<or> c \<in> set ''-_.~$&+=:@'' then [c]
     else [CHR ''%'', hex_upper (of_char c div 16), hex_upper (of_char c mod 16)]) s)"

definition no_slash :: "string \<Rightarrow> string" where
  "no_slash s = trim_right (\<lambda>c. c = CHR ''/'') s"

definition descriptionRequirements :: "srcEnv \<Rightarrow> string \<Rightarrow> string list" where
  "descriptionRequirements env raw = (let plain = htmlToPlainText env raw in if plain \<noteq> [] then [plain] else [])"

definition remoteRequirements :: "srcEnv \<Rightarrow> string \<Rightarrow> string list \<Rightarrow> string list" where
  "remoteRequirements env description tags =
     (let plain = htmlToPlainText env description in if plain \<noteq> [] then [plain] else []) @ filterNonEmpty tags"

section \<open>Times\<close>

definition sourceLayouts :: "string list" where
  "sourceLayouts = [''2006-01-02T15:04:05Z07:00'', ''Mon, 02 Jan 2006 15:04:05 MST'', ''Mon, 02 Jan 2006 15:04:05 -0700'',
     ''Mon,02 Jan 2006 15:04:05 MST'', ''2006-01-02T15:04:05'', ''2006-01-02'']"

fun first_layout :: "srcEnv \<Rightarrow> string list \<Rightarrow> string \<Rightarrow> time option" where
  "first_layout env [] v = None"
| "first_layout env (l # ls) v = (case se_time env l v of Some t \<Rightarrow> Some t | None \<Rightarrow> first_layout env ls v)"

definition parseSourceTime :: "srcEnv \<Rightarrow> string \<Rightarrow> time option" where
  "parseSourceTime env raw = (let value = trim_space raw in if value = [] then None else first_layout env sourceLayouts value)"

fun firstTime :: "srcEnv \<Rightarrow> string list \<Rightarrow> time option" where
  "firstTime env [] = None"
| "firstTime env (v # vs) = (case parseSourceTime env v of Some t \<Rightarrow> Some t | None \<Rightarrow> firstTime env vs)"

text \<open>The Unix epoch is 62135596800 seconds after Go's zero time.\<close>

definition unixMillisTime :: "int \<Rightarrow> time option" where
  "unixMillisTime v = (if v \<le> 0 then None else Some ((v + 62135596800000) * 1000000))"

section \<open>Salaries\<close>

definition trustedSalaryText :: "srcEnv \<Rightarrow> string \<Rightarrow> string" where
  "trustedSalaryText env v = (if fst (ParseSalaryIDR (se_norm env) v) \<noteq> None then v else [])"

text \<open>The three ways a range is written with \<open>%g\<close>; a bound that is not given is \<open>None\<close>.\<close>

definition rp_range :: "gofloat option \<Rightarrow> gofloat option \<Rightarrow> string" where
  "rp_range lo hi =
     (case (lo, hi) of
        (Some a, Some b) \<Rightarrow> ''Rp '' @ fmt_g a @ '' - Rp '' @ fmt_g b
      | (Some a, None) \<Rightarrow> ''Rp '' @ fmt_g a
      | (None, Some b) \<Rightarrow> ''Rp '' @ fmt_g b
      | (None, None) \<Rightarrow> [])"

record payRange =
  sr_Currency :: string
  sr_SalaryCurrency :: string
  sr_Min :: "gofloat option"
  sr_Max :: "gofloat option"
  sr_SalaryFrom :: "gofloat option"
  sr_SalaryTo :: "gofloat option"

definition salaryRangeText :: "payRange \<Rightarrow> string" where
  "salaryRangeText r =
     (let currency = firstNonEmpty [sr_Currency r, sr_SalaryCurrency r];
          lo = (if sr_Min r = None then sr_SalaryFrom r else sr_Min r);
          hi = (if sr_Max r = None then sr_SalaryTo r else sr_Max r)
      in if \<not> equal_fold (trim_space currency) ''IDR'' then [] else rp_range lo hi)"

definition parseJSONFloat :: "raw \<Rightarrow> gofloat option" where
  "parseJSONFloat r =
     (case r of None \<Rightarrow> None
      | Some JNull \<Rightarrow> None
      | Some (JNum n) \<Rightarrow> (case ParseFloat n of Some f \<Rightarrow> if fl_pos f then Some f else None | None \<Rightarrow> None)
      | Some (JStr text) \<Rightarrow> (case ParseFloat (trim_space text) of Some f \<Rightarrow> if fl_pos f then Some f else None | None \<Rightarrow> None)
      | Some _ \<Rightarrow> None)"

definition idSalaryRangeText :: "raw \<Rightarrow> raw \<Rightarrow> string \<Rightarrow> string" where
  "idSalaryRangeText minRaw maxRaw currency =
     (if \<not> equal_fold (trim_space currency) ''IDR'' then [] else rp_range (parseJSONFloat minRaw) (parseJSONFloat maxRaw))"

fun firstRaw :: "raw list \<Rightarrow> raw" where
  "firstRaw [] = None"
| "firstRaw (r # rs) = (case r of Some v \<Rightarrow> if v \<noteq> JNull then r else firstRaw rs | None \<Rightarrow> firstRaw rs)"

section \<open>Answers\<close>

text \<open>
  What a request gets: nothing, when it cannot be built or sent, or a status and the JSON value
  of the body, \<open>None\<close> if there is none to read. A request is its URL before the query and the
  parameters set on it.
\<close>

datatype reply = NoReply | Reply int raw

type_synonym request = "string \<times> (string \<times> string) list"

datatype src_err = NoCredential | InvalidSlug | NoEndpoint | BadURL | NotSent | BadStatus int | BadBody | WrongType string | FetchErr fetch_err

definition fetchJSON :: "reply \<Rightarrow> src_err + json" where
  "fetchJSON r =
     (case r of NoReply \<Rightarrow> Inl NotSent
      | Reply code body \<Rightarrow> if code \<noteq> 200 then Inl (BadStatus code) else (case body of None \<Rightarrow> Inl BadBody | Some v \<Rightarrow> Inr v))"

definition decode_reply :: "(json \<Rightarrow> 'a option) \<Rightarrow> reply \<Rightarrow> src_err + 'a" where
  "decode_reply dec r =
     (case fetchJSON r of Inl e \<Rightarrow> Inl e | Inr v \<Rightarrow> (case dec v of None \<Rightarrow> Inl BadBody | Some x \<Rightarrow> Inr x))"

text \<open>Decoding floating-point fields.\<close>

fun float_field :: "(gofloat \<Rightarrow> 'a \<Rightarrow> 'a) \<Rightarrow> json \<Rightarrow> 'a \<Rightarrow> 'a option" where
  "float_field upd (JNum n) a = map_option (\<lambda>f. upd f a) (ParseFloat n)"
| "float_field upd JNull a = Some a"
| "float_field upd _ a = None"

fun floatp_field :: "(gofloat option \<Rightarrow> 'a \<Rightarrow> 'a) \<Rightarrow> json \<Rightarrow> 'a \<Rightarrow> 'a option" where
  "floatp_field upd (JNum n) a = map_option (\<lambda>f. upd (Some f) a) (ParseFloat n)"
| "floatp_field upd JNull a = Some (upd None a)"
| "floatp_field upd _ a = None"

text \<open>A listing with its zero values.\<close>

definition zeroRaw :: RawJob where
  "zeroRaw = \<lparr>rj_Source = [], rj_SourceURL = [], rj_Synthetic = False, rj_Title = [], rj_Company = [], rj_Location = [],
     rj_Remote = False, rj_SalaryText = [], rj_Seniority = [], rj_EmploymentType = [], rj_Requirements = [], rj_PostedAt = None\<rparr>"

text \<open>
  The loop over the items of an answer: the accepted ones are appended until the limit is hit.
\<close>

fun append_until :: "('a \<Rightarrow> bool) \<Rightarrow> ('a \<Rightarrow> 'b) \<Rightarrow> int \<Rightarrow> 'a list \<Rightarrow> 'b list \<Rightarrow> 'b list" where
  "append_until ok f limit [] jobs = jobs"
| "append_until ok f limit (x # xs) jobs =
     (if \<not> ok x then append_until ok f limit xs jobs
      else let jobs' = jobs @ [f x] in if int (length jobs') = limit then jobs' else append_until ok f limit xs jobs')"

lemma append_until_take:
  "int (length jobs) < limit \<Longrightarrow>
   append_until ok f limit xs jobs = jobs @ take (nat limit - length jobs) (map f (filter ok xs))"
proof (induction xs arbitrary: jobs)
  case (Cons x xs)
  show ?case
  proof (cases "int (length (jobs @ [f x])) = limit")
    case True
    then have "nat limit - length jobs = 1" by simp
    then show ?thesis using Cons True by (simp add: Let_def)
  next
    case False
    then have "int (length (jobs @ [f x])) < limit" using Cons.prems by simp
    moreover have "nat limit - length jobs = Suc (nat limit - length (jobs @ [f x]))" using Cons.prems False by simp
    ultimately show ?thesis using Cons False by (simp add: Let_def)
  qed
qed simp

lemma append_until_length: "int (length jobs) < limit \<Longrightarrow> int (length (append_until ok f limit xs jobs)) \<le> limit"
  by (simp add: append_until_take)

lemma append_until_set:
  "int (length jobs) < limit \<Longrightarrow> set (append_until ok f limit xs jobs) \<subseteq> set jobs \<union> f ` {x \<in> set xs. ok x}"
  by (auto simp: append_until_take dest: in_set_takeD)

lemma firstNonEmpty_trim: "trim_space (firstNonEmpty vs) = firstNonEmpty vs"
  by (induction vs) (auto simp: go_defs)

end
