(* ===== verification/Ingest_ATS.thy ===== *)
theory Ingest_ATS
  imports Ingest_Wire
begin

text \<open>
  The public company boards (\<open>internal/ingest/atssource.go\<close>): the answers of Greenhouse, Lever,
  Workable and Ashby as the code decodes them, their mapping to listings, and the fetch of one
  company's board through the conditional cache.
\<close>

definition ATSGreenhouse :: string where "ATSGreenhouse = ''greenhouse''"

definition ATSLever :: string where "ATSLever = ''lever''"

definition ATSWorkable :: string where "ATSWorkable = ''workable''"

definition ATSAshby :: string where "ATSAshby = ''ashby''"

section \<open>Shapes of the answers\<close>

definition zeroSalaryRange :: payRange where
  "zeroSalaryRange = \<lparr>sr_Currency = [], sr_SalaryCurrency = [], sr_Min = None, sr_Max = None, sr_SalaryFrom = None, sr_SalaryTo = None\<rparr>"

definition salaryRangeFields :: "payRange fields_dec" where
  "salaryRangeFields =
     [(''currency'', str_field (\<lambda>s r. r\<lparr>sr_Currency := s\<rparr>)), (''salary_currency'', str_field (\<lambda>s r. r\<lparr>sr_SalaryCurrency := s\<rparr>)),
      (''min'', floatp_field (\<lambda>f r. r\<lparr>sr_Min := f\<rparr>)), (''max'', floatp_field (\<lambda>f r. r\<lparr>sr_Max := f\<rparr>)),
      (''salary_from'', floatp_field (\<lambda>f r. r\<lparr>sr_SalaryFrom := f\<rparr>)), (''salary_to'', floatp_field (\<lambda>f r. r\<lparr>sr_SalaryTo := f\<rparr>))]"

record greenhouseJob =
  gh_Title :: string
  gh_CompanyName :: string
  gh_AbsoluteURL :: string
  gh_FirstPublished :: string
  gh_UpdatedAt :: string
  gh_Content :: string
  gh_LocationName :: string

definition zeroGreenhouse :: greenhouseJob where
  "zeroGreenhouse = \<lparr>gh_Title = [], gh_CompanyName = [], gh_AbsoluteURL = [], gh_FirstPublished = [], gh_UpdatedAt = [],
     gh_Content = [], gh_LocationName = []\<rparr>"

definition greenhouseFields :: "greenhouseJob fields_dec" where
  "greenhouseFields =
     [(''title'', str_field (\<lambda>s j. j\<lparr>gh_Title := s\<rparr>)), (''company_name'', str_field (\<lambda>s j. j\<lparr>gh_CompanyName := s\<rparr>)),
      (''absolute_url'', str_field (\<lambda>s j. j\<lparr>gh_AbsoluteURL := s\<rparr>)), (''first_published'', str_field (\<lambda>s j. j\<lparr>gh_FirstPublished := s\<rparr>)),
      (''updated_at'', str_field (\<lambda>s j. j\<lparr>gh_UpdatedAt := s\<rparr>)), (''content'', str_field (\<lambda>s j. j\<lparr>gh_Content := s\<rparr>)),
      (''location'', obj_field [(''name'', str_field (\<lambda>s _. s))] gh_LocationName (\<lambda>s j. j\<lparr>gh_LocationName := s\<rparr>))]"

record leverJob =
  lv_Text :: string
  lv_Description :: string
  lv_DescriptionPlain :: string
  lv_HostedURL :: string
  lv_ApplyURL :: string
  lv_WorkplaceType :: string
  lv_CreatedAt :: int
  lv_Location :: string
  lv_AllLocations :: "string list"
  lv_Commitment :: string
  lv_SalaryRange :: payRange

definition zeroLever :: leverJob where
  "zeroLever = \<lparr>lv_Text = [], lv_Description = [], lv_DescriptionPlain = [], lv_HostedURL = [], lv_ApplyURL = [],
     lv_WorkplaceType = [], lv_CreatedAt = 0, lv_Location = [], lv_AllLocations = [], lv_Commitment = [],
     lv_SalaryRange = zeroSalaryRange\<rparr>"

definition leverFields :: "leverJob fields_dec" where
  "leverFields =
     [(''text'', str_field (\<lambda>s j. j\<lparr>lv_Text := s\<rparr>)), (''description'', str_field (\<lambda>s j. j\<lparr>lv_Description := s\<rparr>)),
      (''descriptionPlain'', str_field (\<lambda>s j. j\<lparr>lv_DescriptionPlain := s\<rparr>)), (''hostedUrl'', str_field (\<lambda>s j. j\<lparr>lv_HostedURL := s\<rparr>)),
      (''applyUrl'', str_field (\<lambda>s j. j\<lparr>lv_ApplyURL := s\<rparr>)), (''workplaceType'', str_field (\<lambda>s j. j\<lparr>lv_WorkplaceType := s\<rparr>)),
      (''createdAt'', int_field (\<lambda>i j. j\<lparr>lv_CreatedAt := i\<rparr>)),
      (''categories'', obj_field
         [(''location'', str_field (\<lambda>s j. j\<lparr>lv_Location := s\<rparr>)),
          (''allLocations'', list_field un_string (\<lambda>xs j. j\<lparr>lv_AllLocations := xs\<rparr>)),
          (''commitment'', str_field (\<lambda>s j. j\<lparr>lv_Commitment := s\<rparr>))] (\<lambda>j. j) (\<lambda>j _. j)),
      (''salaryRange'', obj_field salaryRangeFields lv_SalaryRange (\<lambda>r j. j\<lparr>lv_SalaryRange := r\<rparr>))]"

record workableJob =
  wk_Title :: string
  wk_URL :: string
  wk_ApplicationURL :: string
  wk_Shortlink :: string
  wk_Location :: raw
  wk_Locations :: "json list"
  wk_Telecommuting :: bool
  wk_Salary :: payRange
  wk_Experience :: string
  wk_EmploymentType :: string
  wk_PublishedOn :: string
  wk_CreatedAt :: string
  wk_Description :: string
  wk_FullDescription :: string

definition zeroWorkable :: workableJob where
  "zeroWorkable = \<lparr>wk_Title = [], wk_URL = [], wk_ApplicationURL = [], wk_Shortlink = [], wk_Location = None, wk_Locations = [],
     wk_Telecommuting = False, wk_Salary = zeroSalaryRange, wk_Experience = [], wk_EmploymentType = [], wk_PublishedOn = [],
     wk_CreatedAt = [], wk_Description = [], wk_FullDescription = []\<rparr>"

definition workableFields :: "workableJob fields_dec" where
  "workableFields =
     [(''title'', str_field (\<lambda>s j. j\<lparr>wk_Title := s\<rparr>)), (''url'', str_field (\<lambda>s j. j\<lparr>wk_URL := s\<rparr>)),
      (''application_url'', str_field (\<lambda>s j. j\<lparr>wk_ApplicationURL := s\<rparr>)), (''shortlink'', str_field (\<lambda>s j. j\<lparr>wk_Shortlink := s\<rparr>)),
      (''location'', raw_field (\<lambda>r j. j\<lparr>wk_Location := r\<rparr>)), (''locations'', list_field Some (\<lambda>rs j. j\<lparr>wk_Locations := rs\<rparr>)),
      (''telecommuting'', bool_field (\<lambda>b j. j\<lparr>wk_Telecommuting := b\<rparr>)),
      (''salary'', obj_field salaryRangeFields wk_Salary (\<lambda>r j. j\<lparr>wk_Salary := r\<rparr>)),
      (''experience'', str_field (\<lambda>s j. j\<lparr>wk_Experience := s\<rparr>)), (''employment_type'', str_field (\<lambda>s j. j\<lparr>wk_EmploymentType := s\<rparr>)),
      (''published_on'', str_field (\<lambda>s j. j\<lparr>wk_PublishedOn := s\<rparr>)), (''created_at'', str_field (\<lambda>s j. j\<lparr>wk_CreatedAt := s\<rparr>)),
      (''description'', str_field (\<lambda>s j. j\<lparr>wk_Description := s\<rparr>)),
      (''full_description'', str_field (\<lambda>s j. j\<lparr>wk_FullDescription := s\<rparr>))]"

record ashbyJob =
  as_Title :: string
  as_Location :: string
  as_IsListed :: "bool option"
  as_IsRemote :: bool
  as_WorkplaceType :: string
  as_DescriptionHTML :: string
  as_DescriptionPlain :: string
  as_PublishedAt :: string
  as_EmploymentType :: string
  as_JobURL :: string
  as_ApplyURL :: string
  as_SalarySummary :: string

definition zeroAshby :: ashbyJob where
  "zeroAshby = \<lparr>as_Title = [], as_Location = [], as_IsListed = None, as_IsRemote = False, as_WorkplaceType = [], as_DescriptionHTML = [],
     as_DescriptionPlain = [], as_PublishedAt = [], as_EmploymentType = [], as_JobURL = [], as_ApplyURL = [], as_SalarySummary = []\<rparr>"

definition ashbyFields :: "ashbyJob fields_dec" where
  "ashbyFields =
     [(''title'', str_field (\<lambda>s j. j\<lparr>as_Title := s\<rparr>)), (''location'', str_field (\<lambda>s j. j\<lparr>as_Location := s\<rparr>)),
      (''isListed'', boolp_field (\<lambda>b j. j\<lparr>as_IsListed := b\<rparr>)), (''isRemote'', bool_field (\<lambda>b j. j\<lparr>as_IsRemote := b\<rparr>)),
      (''workplaceType'', str_field (\<lambda>s j. j\<lparr>as_WorkplaceType := s\<rparr>)), (''descriptionHtml'', str_field (\<lambda>s j. j\<lparr>as_DescriptionHTML := s\<rparr>)),
      (''descriptionPlain'', str_field (\<lambda>s j. j\<lparr>as_DescriptionPlain := s\<rparr>)), (''publishedAt'', str_field (\<lambda>s j. j\<lparr>as_PublishedAt := s\<rparr>)),
      (''employmentType'', str_field (\<lambda>s j. j\<lparr>as_EmploymentType := s\<rparr>)), (''jobUrl'', str_field (\<lambda>s j. j\<lparr>as_JobURL := s\<rparr>)),
      (''applyUrl'', str_field (\<lambda>s j. j\<lparr>as_ApplyURL := s\<rparr>)),
      (''compensation'', obj_field [(''scrapeableCompensationSalarySummary'', str_field (\<lambda>s _. s))]
         as_SalarySummary (\<lambda>s j. j\<lparr>as_SalarySummary := s\<rparr>))]"

section \<open>Mapping to listings\<close>

record ATSSource =
  at_platform :: string
  at_slug :: string
  at_company :: string
  at_endpoint :: string
  at_cache :: conditionalStore

definition greenhouseRaw :: "srcEnv \<Rightarrow> ATSSource \<Rightarrow> greenhouseJob \<Rightarrow> RawJob" where
  "greenhouseRaw env a j = zeroRaw\<lparr>rj_Source := at_platform a, rj_SourceURL := gh_AbsoluteURL j, rj_Title := gh_Title j,
     rj_Company := firstNonEmpty [gh_CompanyName j, at_company a], rj_Location := gh_LocationName j, rj_SalaryText := [],
     rj_Requirements := descriptionRequirements env (gh_Content j),
     rj_PostedAt := firstTime env [gh_FirstPublished j, gh_UpdatedAt j]\<rparr>"

definition leverRaw :: "srcEnv \<Rightarrow> ATSSource \<Rightarrow> leverJob \<Rightarrow> RawJob" where
  "leverRaw env a j =
     (let location = firstNonEmpty [lv_Location j, join '', '' (lv_AllLocations j)];
          remote = (contains (to_lower (lv_WorkplaceType j)) ''remote'' \<or> detectRemote location)
      in zeroRaw\<lparr>rj_Source := at_platform a, rj_SourceURL := firstNonEmpty [lv_HostedURL j, lv_ApplyURL j], rj_Title := lv_Text j,
           rj_Company := at_company a, rj_Location := location, rj_Remote := remote,
           rj_SalaryText := salaryRangeText (lv_SalaryRange j), rj_EmploymentType := lv_Commitment j,
           rj_Requirements := descriptionRequirements env (firstNonEmpty [lv_DescriptionPlain j, lv_Description j]),
           rj_PostedAt := unixMillisTime (lv_CreatedAt j)\<rparr>)"

record workableLoc =
  wl_LocationStr :: string
  wl_City :: string
  wl_Region :: string
  wl_Country :: string
  wl_Telecommuting :: bool

definition workableLocFields :: "workableLoc fields_dec" where
  "workableLocFields =
     [(''location_str'', str_field (\<lambda>s l. l\<lparr>wl_LocationStr := s\<rparr>)), (''city'', str_field (\<lambda>s l. l\<lparr>wl_City := s\<rparr>)),
      (''region'', str_field (\<lambda>s l. l\<lparr>wl_Region := s\<rparr>)), (''country'', str_field (\<lambda>s l. l\<lparr>wl_Country := s\<rparr>)),
      (''telecommuting'', bool_field (\<lambda>b l. l\<lparr>wl_Telecommuting := b\<rparr>))]"

definition decodeWorkableLocation :: "raw \<Rightarrow> string \<times> bool" where
  "decodeWorkableLocation r =
     (case r of None \<Rightarrow> ([], False)
      | Some JNull \<Rightarrow> ([], False)
      | Some (JStr text) \<Rightarrow> (trim_space text, detectRemote text)
      | Some v \<Rightarrow>
          (case un_obj False workableLocFields
              \<lparr>wl_LocationStr = [], wl_City = [], wl_Region = [], wl_Country = [], wl_Telecommuting = False\<rparr> v of
             None \<Rightarrow> ([], False)
           | Some l \<Rightarrow>
               (let location = firstNonEmpty [wl_LocationStr l, join '', '' (filterNonEmpty [wl_City l, wl_Region l, wl_Country l])]
                in (location, wl_Telecommuting l \<or> detectRemote location))))"

fun first_location :: "raw list \<Rightarrow> string \<times> bool" where
  "first_location [] = ([], False)"
| "first_location (r # rs) =
     (case decodeWorkableLocation r of (location, telecommuting) \<Rightarrow>
        if location \<noteq> [] then (location, telecommuting) else first_location rs)"

definition workableLocation :: "raw \<Rightarrow> json list \<Rightarrow> string \<times> bool" where
  "workableLocation primary alternatives = first_location (primary # map Some alternatives)"

definition workableRaw :: "srcEnv \<Rightarrow> ATSSource \<Rightarrow> string \<Rightarrow> workableJob \<Rightarrow> RawJob" where
  "workableRaw env a responseCompany j =
     (let (location, telecommuting) = workableLocation (wk_Location j) (wk_Locations j);
          remote = (wk_Telecommuting j \<or> telecommuting \<or> detectRemote location)
      in zeroRaw\<lparr>rj_Source := at_platform a, rj_SourceURL := firstNonEmpty [wk_ApplicationURL j, wk_URL j, wk_Shortlink j],
           rj_Title := wk_Title j, rj_Company := firstNonEmpty [responseCompany, at_company a], rj_Location := location,
           rj_Remote := remote, rj_SalaryText := salaryRangeText (wk_Salary j), rj_Seniority := wk_Experience j,
           rj_EmploymentType := wk_EmploymentType j,
           rj_Requirements := descriptionRequirements env (firstNonEmpty [wk_FullDescription j, wk_Description j]),
           rj_PostedAt := firstTime env [wk_PublishedOn j, wk_CreatedAt j]\<rparr>)"

definition ashbyRaw :: "srcEnv \<Rightarrow> ATSSource \<Rightarrow> ashbyJob \<Rightarrow> RawJob" where
  "ashbyRaw env a j =
     (let remote = (as_IsRemote j \<or> equal_fold (as_WorkplaceType j) ''remote'' \<or> detectRemote (as_Location j));
          location = (if remote then ''Remote'' else as_Location j)
      in zeroRaw\<lparr>rj_Source := at_platform a, rj_SourceURL := firstNonEmpty [as_JobURL j, as_ApplyURL j], rj_Title := as_Title j,
           rj_Company := at_company a, rj_Location := location, rj_Remote := remote,
           rj_SalaryText := trustedSalaryText env (as_SalarySummary j), rj_EmploymentType := as_EmploymentType j,
           rj_Requirements := descriptionRequirements env (firstNonEmpty [as_DescriptionPlain j, as_DescriptionHTML j]),
           rj_PostedAt := parseSourceTime env (as_PublishedAt j)\<rparr>)"

section \<open>Decoding a board\<close>

definition greenhouseJobs :: "json \<Rightarrow> greenhouseJob list option" where
  "greenhouseJobs = un_obj False [(''jobs'', list_field (un_obj False greenhouseFields zeroGreenhouse) (\<lambda>js _. js))] []"

definition leverJobs :: "json \<Rightarrow> leverJob list option" where
  "leverJobs v = un_list (un_obj False leverFields zeroLever) (Some v)"

definition workableJobs :: "json \<Rightarrow> (string \<times> workableJob list) option" where
  "workableJobs = un_obj False
     [(''name'', str_field (\<lambda>s r. (s, snd r))), (''jobs'', list_field (un_obj False workableFields zeroWorkable) (\<lambda>js r. (fst r, js)))] ([], [])"

definition ashbyJobs :: "json \<Rightarrow> ashbyJob list option" where
  "ashbyJobs = un_obj False [(''jobs'', list_field (un_obj False ashbyFields zeroAshby) (\<lambda>js _. js))] []"

definition ashby_listed :: "ashbyJob \<Rightarrow> bool" where
  "ashby_listed j = (\<not> (as_IsListed j \<noteq> None \<and> \<not> the (as_IsListed j)))"

definition ats_decode :: "srcEnv \<Rightarrow> ATSSource \<Rightarrow> json \<Rightarrow> RawJob list option" where
  "ats_decode env a v =
     (if at_platform a = ATSGreenhouse then map_option (map (greenhouseRaw env a)) (greenhouseJobs v)
      else if at_platform a = ATSLever then map_option (map (leverRaw env a)) (leverJobs v)
      else if at_platform a = ATSWorkable then map_option (\<lambda>(name, js). map (workableRaw env a name) js) (workableJobs v)
      else if at_platform a = ATSAshby then map_option (\<lambda>js. map (ashbyRaw env a) (filter ashby_listed js)) (ashbyJobs v)
      else None)"

section \<open>The source\<close>

definition atsEndpoint :: "string \<Rightarrow> string \<Rightarrow> string" where
  "atsEndpoint platform slug =
     (let escaped = path_escape slug in
      if platform = ATSGreenhouse then ''https://boards-api.greenhouse.io/v1/boards/'' @ escaped @ ''/jobs?content=true''
      else if platform = ATSLever then ''https://api.lever.co/v0/postings/'' @ escaped @ ''?mode=json''
      else if platform = ATSWorkable then ''https://apply.workable.com/api/v1/widget/accounts/'' @ escaped @ ''?details=true''
      else if platform = ATSAshby then ''https://api.ashbyhq.com/posting-api/job-board/'' @ escaped @ ''?includeCompensation=true''
      else [])"

definition NewATSSourceWithURL :: "string \<Rightarrow> string \<Rightarrow> string \<Rightarrow> string \<Rightarrow> ATSSource" where
  "NewATSSourceWithURL platform slug company endpoint =
     \<lparr>at_platform = platform, at_slug = trim_space slug,
      at_company = trim_space (if trim_space company = [] then humanizeSlug slug else company),
      at_endpoint = no_slash endpoint, at_cache = newConditionalStore\<rparr>"

definition NewATSSource :: "string \<Rightarrow> string \<Rightarrow> ATSSource" where
  "NewATSSource platform slug = NewATSSourceWithURL platform slug [] (atsEndpoint platform slug)"

definition ats_ID :: "ATSSource \<Rightarrow> string" where
  "ats_ID a = ''ats-'' @ at_platform a @ ''-'' @ at_slug a"

text \<open>The pattern \<open>^[A-Za-z0-9][A-Za-z0-9_-]*$\<close>.\<close>

definition atsSlugRe :: "string \<Rightarrow> bool" where
  "atsSlugRe s = (case s of [] \<Rightarrow> False | c # cs \<Rightarrow> is_alnum c \<and> list_all (\<lambda>c. is_alnum c \<or> c = CHR ''_'' \<or> c = CHR ''-'') cs)"

text \<open>\<open>jparse\<close> is the value of a whole body, \<open>None\<close> if it is not JSON.\<close>

definition ats_Fetch ::
  "srcEnv \<Rightarrow> (string \<Rightarrow> raw) \<Rightarrow> (condRequest \<Rightarrow> httpResp) \<Rightarrow> ATSSource \<Rightarrow> ATSSource \<times> (src_err + RawJob list)" where
  "ats_Fetch env jparse server a =
     (if \<not> atsSlugRe (at_slug a) then (a, Inl InvalidSlug)
      else if at_endpoint a = [] then (a, Inl NoEndpoint)
      else (case cond_fetch True server (\<lambda>b. Option.bind (jparse b) (ats_decode env a)) (at_cache a) of
        (cache, Inl e) \<Rightarrow> (a\<lparr>at_cache := cache\<rparr>, Inl (FetchErr e))
      | (cache, Inr jobs) \<Rightarrow> (a\<lparr>at_cache := cache\<rparr>, Inr jobs)))"

end
