(* ===== verification/Ingest_Remote.thy ===== *)
theory Ingest_Remote
  imports Ingest_Wire
begin

text \<open>
  The remote-only boards Remotive, Jobicy and RemoteOK (\<open>internal/ingest/remotesource.go\<close>), and
  the scraper of listing pages (\<open>internal/ingest/htmlsource.go\<close>).
\<close>

definition remoteDefaultLimit :: int where
  "remoteDefaultLimit = 100"

record remoteSource =
  rm_id :: string
  rm_baseURL :: string
  rm_limit :: int

text \<open>The three constructors differ in the names they are given only.\<close>

definition newRemoteSource :: "string \<Rightarrow> string \<Rightarrow> int \<Rightarrow> remoteSource" where
  "newRemoteSource i base limit = \<lparr>rm_id = i, rm_baseURL = no_slash base,
     rm_limit = (if limit \<le> 0 then remoteDefaultLimit else limit)\<rparr>"

definition NewRemotiveSource :: "int \<Rightarrow> remoteSource" where
  "NewRemotiveSource = newRemoteSource ''remotive'' ''https://remotive.com/api/remote-jobs''"

definition NewJobicySource :: "int \<Rightarrow> remoteSource" where
  "NewJobicySource = newRemoteSource ''jobicy'' ''https://jobicy.com/api/v2/remote-jobs''"

definition NewRemoteOKSource :: "int \<Rightarrow> remoteSource" where
  "NewRemoteOKSource = newRemoteSource ''remoteok'' ''https://remoteok.com/api''"

section \<open>Remotive\<close>

record remotiveJob =
  rv_Title :: string
  rv_URL :: string
  rv_CompanyName :: string
  rv_JobType :: string
  rv_PublicationDate :: string
  rv_Salary :: string
  rv_Description :: string
  rv_Tags :: "string list"

definition remotiveFields :: "remotiveJob fields_dec" where
  "remotiveFields =
     [(''title'', str_field (\<lambda>s j. j\<lparr>rv_Title := s\<rparr>)), (''url'', str_field (\<lambda>s j. j\<lparr>rv_URL := s\<rparr>)),
      (''company_name'', str_field (\<lambda>s j. j\<lparr>rv_CompanyName := s\<rparr>)), (''job_type'', str_field (\<lambda>s j. j\<lparr>rv_JobType := s\<rparr>)),
      (''publication_date'', str_field (\<lambda>s j. j\<lparr>rv_PublicationDate := s\<rparr>)), (''salary'', str_field (\<lambda>s j. j\<lparr>rv_Salary := s\<rparr>)),
      (''description'', str_field (\<lambda>s j. j\<lparr>rv_Description := s\<rparr>)), (''tags'', list_field un_string (\<lambda>xs j. j\<lparr>rv_Tags := xs\<rparr>))]"

definition zeroRemotive :: remotiveJob where
  "zeroRemotive = \<lparr>rv_Title = [], rv_URL = [], rv_CompanyName = [], rv_JobType = [], rv_PublicationDate = [], rv_Salary = [],
     rv_Description = [], rv_Tags = []\<rparr>"

definition remotiveResponse :: "json \<Rightarrow> remotiveJob list option" where
  "remotiveResponse = un_obj False [(''jobs'', list_field (un_obj False remotiveFields zeroRemotive) (\<lambda>js _. js))] []"

definition remotiveRaw :: "srcEnv \<Rightarrow> remoteSource \<Rightarrow> remotiveJob \<Rightarrow> RawJob" where
  "remotiveRaw env r item = zeroRaw\<lparr>rj_Source := rm_id r, rj_SourceURL := rv_URL item, rj_Title := rv_Title item,
     rj_Company := rv_CompanyName item, rj_Location := ''Remote'', rj_Remote := True,
     rj_SalaryText := trustedSalaryText env (rv_Salary item), rj_EmploymentType := rv_JobType item,
     rj_Requirements := remoteRequirements env (rv_Description item) (rv_Tags item),
     rj_PostedAt := parseSourceTime env (rv_PublicationDate item)\<rparr>"

definition remotive_Fetch :: "srcEnv \<Rightarrow> (request \<Rightarrow> reply) \<Rightarrow> remoteSource \<Rightarrow> src_err + RawJob list" where
  "remotive_Fetch env server r =
     (if url_parse (rm_baseURL r) = None then Inl BadURL
      else (case decode_reply remotiveResponse (server (rm_baseURL r, [(''limit'', itoa (min (rm_limit r) remoteDefaultLimit))])) of
        Inl e \<Rightarrow> Inl e
      | Inr jobs \<Rightarrow> Inr (append_until (\<lambda>item. \<not> (trim_space (rv_Title item) = [] \<or> trim_space (rv_URL item) = []))
          (remotiveRaw env r) (rm_limit r) jobs [])))"

section \<open>Jobicy\<close>

record jobicyJob =
  jb_URL :: string
  jb_Title :: string
  jb_CompanyName :: string
  jb_JobType :: "string list"
  jb_JobLevel :: string
  jb_PubDate :: string
  jb_Description :: string
  jb_SalaryMin :: raw
  jb_SalaryMax :: raw
  jb_AnnualSalaryMin :: raw
  jb_AnnualSalaryMax :: raw
  jb_SalaryCurrency :: string

definition jobicyFields :: "jobicyJob fields_dec" where
  "jobicyFields =
     [(''url'', str_field (\<lambda>s j. j\<lparr>jb_URL := s\<rparr>)), (''jobTitle'', str_field (\<lambda>s j. j\<lparr>jb_Title := s\<rparr>)),
      (''companyName'', str_field (\<lambda>s j. j\<lparr>jb_CompanyName := s\<rparr>)), (''jobType'', list_field un_string (\<lambda>xs j. j\<lparr>jb_JobType := xs\<rparr>)),
      (''jobLevel'', str_field (\<lambda>s j. j\<lparr>jb_JobLevel := s\<rparr>)), (''pubDate'', str_field (\<lambda>s j. j\<lparr>jb_PubDate := s\<rparr>)),
      (''jobDescription'', str_field (\<lambda>s j. j\<lparr>jb_Description := s\<rparr>)),
      (''salaryMin'', raw_field (\<lambda>r j. j\<lparr>jb_SalaryMin := r\<rparr>)), (''salaryMax'', raw_field (\<lambda>r j. j\<lparr>jb_SalaryMax := r\<rparr>)),
      (''annualSalaryMin'', raw_field (\<lambda>r j. j\<lparr>jb_AnnualSalaryMin := r\<rparr>)),
      (''annualSalaryMax'', raw_field (\<lambda>r j. j\<lparr>jb_AnnualSalaryMax := r\<rparr>)),
      (''salaryCurrency'', str_field (\<lambda>s j. j\<lparr>jb_SalaryCurrency := s\<rparr>))]"

definition zeroJobicy :: jobicyJob where
  "zeroJobicy = \<lparr>jb_URL = [], jb_Title = [], jb_CompanyName = [], jb_JobType = [], jb_JobLevel = [], jb_PubDate = [], jb_Description = [],
     jb_SalaryMin = None, jb_SalaryMax = None, jb_AnnualSalaryMin = None, jb_AnnualSalaryMax = None, jb_SalaryCurrency = []\<rparr>"

definition jobicyResponse :: "json \<Rightarrow> jobicyJob list option" where
  "jobicyResponse = un_obj False [(''jobs'', list_field (un_obj False jobicyFields zeroJobicy) (\<lambda>js _. js))] []"

definition jobicyRaw :: "srcEnv \<Rightarrow> remoteSource \<Rightarrow> jobicyJob \<Rightarrow> RawJob" where
  "jobicyRaw env r item = zeroRaw\<lparr>rj_Source := rm_id r, rj_SourceURL := jb_URL item, rj_Title := jb_Title item,
     rj_Company := jb_CompanyName item, rj_Location := ''Remote'', rj_Remote := True,
     rj_SalaryText := idSalaryRangeText (firstRaw [jb_SalaryMin item, jb_AnnualSalaryMin item])
       (firstRaw [jb_SalaryMax item, jb_AnnualSalaryMax item]) (jb_SalaryCurrency item),
     rj_Seniority := jb_JobLevel item, rj_EmploymentType := join '', '' (jb_JobType item),
     rj_Requirements := remoteRequirements env (jb_Description item) [],
     rj_PostedAt := parseSourceTime env (jb_PubDate item)\<rparr>"

definition jobicy_Fetch :: "srcEnv \<Rightarrow> (request \<Rightarrow> reply) \<Rightarrow> remoteSource \<Rightarrow> src_err + RawJob list" where
  "jobicy_Fetch env server r =
     (if url_parse (rm_baseURL r) = None then Inl BadURL
      else (case decode_reply jobicyResponse (server (rm_baseURL r, [(''count'', itoa (min (rm_limit r) remoteDefaultLimit))])) of
        Inl e \<Rightarrow> Inl e
      | Inr jobs \<Rightarrow> Inr (append_until (\<lambda>item. \<not> (trim_space (jb_Title item) = [] \<or> trim_space (jb_URL item) = []))
          (jobicyRaw env r) (rm_limit r) jobs [])))"

section \<open>RemoteOK\<close>

record remoteOKJob =
  ok_URL :: string
  ok_ApplyURL :: string
  ok_Position :: string
  ok_Company :: string
  ok_Date :: string
  ok_Description :: string
  ok_Tags :: "string list"

definition remoteOKFields :: "remoteOKJob fields_dec" where
  "remoteOKFields =
     [(''url'', str_field (\<lambda>s j. j\<lparr>ok_URL := s\<rparr>)), (''apply_url'', str_field (\<lambda>s j. j\<lparr>ok_ApplyURL := s\<rparr>)),
      (''position'', str_field (\<lambda>s j. j\<lparr>ok_Position := s\<rparr>)), (''company'', str_field (\<lambda>s j. j\<lparr>ok_Company := s\<rparr>)),
      (''date'', str_field (\<lambda>s j. j\<lparr>ok_Date := s\<rparr>)), (''description'', str_field (\<lambda>s j. j\<lparr>ok_Description := s\<rparr>)),
      (''tags'', list_field un_string (\<lambda>xs j. j\<lparr>ok_Tags := xs\<rparr>))]"

definition zeroRemoteOK :: remoteOKJob where
  "zeroRemoteOK = \<lparr>ok_URL = [], ok_ApplyURL = [], ok_Position = [], ok_Company = [], ok_Date = [], ok_Description = [], ok_Tags = []\<rparr>"

definition remoteOKResponse :: "json \<Rightarrow> remoteOKJob list option" where
  "remoteOKResponse v = un_list (un_obj False remoteOKFields zeroRemoteOK) (Some v)"

definition remoteOKRaw :: "srcEnv \<Rightarrow> remoteSource \<Rightarrow> remoteOKJob \<Rightarrow> RawJob" where
  "remoteOKRaw env r item = zeroRaw\<lparr>rj_Source := rm_id r, rj_SourceURL := firstNonEmpty [ok_URL item, ok_ApplyURL item],
     rj_Title := ok_Position item, rj_Company := ok_Company item, rj_Location := ''Remote'', rj_Remote := True,
     rj_Requirements := remoteRequirements env (ok_Description item) (ok_Tags item),
     rj_PostedAt := parseSourceTime env (ok_Date item)\<rparr>"

definition remoteOK_Fetch :: "srcEnv \<Rightarrow> (request \<Rightarrow> reply) \<Rightarrow> remoteSource \<Rightarrow> src_err + RawJob list" where
  "remoteOK_Fetch env server r =
     (case decode_reply remoteOKResponse (server (rm_baseURL r, [])) of
        Inl e \<Rightarrow> Inl e
      | Inr jobs \<Rightarrow> Inr (append_until (\<lambda>item. \<not> (trim_space (ok_Position item) = [] \<or> firstNonEmpty [ok_URL item, ok_ApplyURL item] = []))
          (remoteOKRaw env r) (rm_limit r) jobs []))"

section \<open>Listing pages\<close>

record CardSelectors =
  sl_Card :: string
  sl_Title :: string
  sl_Company :: string
  sl_Location :: string
  sl_Salary :: string
  sl_Employment :: string
  sl_URL :: string

record HTMLSource =
  hs_id :: string
  hs_pageURL :: string
  hs_sel :: CardSelectors

definition html_attr :: "(string \<times> string) list \<Rightarrow> string \<Rightarrow> string" where
  "html_attr at key = (case map_of at key of None \<Rightarrow> [] | Some v \<Rightarrow> v)"

fun node_attr :: "html \<Rightarrow> string \<Rightarrow> string" where
  "node_attr (ElementNode tag at cs) key = html_attr at key"
| "node_attr _ key = []"

fun hasClass :: "html \<Rightarrow> string \<Rightarrow> bool" where
  "hasClass (ElementNode tag at cs) class = (class \<noteq> [] \<and> class \<in> set (fields_func is_space (html_attr at ''class'')))"
| "hasClass _ class = False"

fun nodesWithClass :: "string \<Rightarrow> html \<Rightarrow> html list" where
  "nodesWithClass class (TextNode d) = []"
| "nodesWithClass class (ElementNode tag at cs) =
     (if hasClass (ElementNode tag at cs) class then [ElementNode tag at cs] else concat (map (nodesWithClass class) cs))"
| "nodesWithClass class (OtherNode cs) = concat (map (nodesWithClass class) cs)"

text \<open>The walk keeps the node found first.\<close>

fun firstNodeWithClass :: "string \<Rightarrow> html \<Rightarrow> html option \<Rightarrow> html option" where
  "firstNodeWithClass class (TextNode d) found = found"
| "firstNodeWithClass class (ElementNode tag at cs) found =
     (if found \<noteq> None then found
      else if hasClass (ElementNode tag at cs) class then Some (ElementNode tag at cs)
      else fold (firstNodeWithClass class) cs found)"
| "firstNodeWithClass class (OtherNode cs) found =
     (if found \<noteq> None then found else fold (firstNodeWithClass class) cs found)"

fun textContent :: "html \<Rightarrow> string" where
  "textContent (TextNode d) = d"
| "textContent (ElementNode tag at cs) = concat (map textContent cs)"
| "textContent (OtherNode cs) = concat (map textContent cs)"

definition firstNode :: "string \<Rightarrow> html \<Rightarrow> html option" where
  "firstNode class root = (if class = [] then None else firstNodeWithClass class root None)"

definition textOfClass :: "html \<Rightarrow> string \<Rightarrow> string" where
  "textOfClass root class = (case firstNode class root of None \<Rightarrow> [] | Some n \<Rightarrow> trim_space (textContent n))"

text \<open>
  \<open>resolve\<close> is \<open>base.ResolveReference(ref).String()\<close> for the parsed page URL and an \<open>href\<close>,
  \<open>None\<close> when one of them cannot be parsed.
\<close>

definition resolveURL :: "(string \<Rightarrow> string \<Rightarrow> string option) \<Rightarrow> HTMLSource \<Rightarrow> html \<Rightarrow> string" where
  "resolveURL resolve h node =
     (case firstNode (sl_URL (hs_sel h)) node of
        None \<Rightarrow> hs_pageURL h
      | Some a \<Rightarrow>
          (let href = node_attr a ''href'' in
           if href = [] then hs_pageURL h
           else (case resolve (hs_pageURL h) href of Some u \<Rightarrow> u | None \<Rightarrow> href)))"

definition html_extract :: "(string \<Rightarrow> string \<Rightarrow> string option) \<Rightarrow> HTMLSource \<Rightarrow> html \<Rightarrow> RawJob" where
  "html_extract resolve h node = zeroRaw\<lparr>rj_Source := hs_id h, rj_SourceURL := resolveURL resolve h node,
     rj_Title := textOfClass node (sl_Title (hs_sel h)), rj_Company := textOfClass node (sl_Company (hs_sel h)),
     rj_Location := textOfClass node (sl_Location (hs_sel h)), rj_SalaryText := textOfClass node (sl_Salary (hs_sel h)),
     rj_EmploymentType := textOfClass node (sl_Employment (hs_sel h))\<rparr>"

text \<open>The page as the parser read it, \<open>None\<close> if it cannot.\<close>

datatype page = NoPage | Page int "html option"

definition html_Fetch :: "(string \<Rightarrow> string \<Rightarrow> string option) \<Rightarrow> page \<Rightarrow> HTMLSource \<Rightarrow> src_err + RawJob list" where
  "html_Fetch resolve server h =
     (case server of NoPage \<Rightarrow> Inl NotSent
      | Page code doc \<Rightarrow>
          if code \<noteq> 200 then Inl (BadStatus code)
          else (case doc of None \<Rightarrow> Inl BadBody
            | Some d \<Rightarrow> Inr (map (html_extract resolve h) (nodesWithClass (sl_Card (hs_sel h)) d))))"

end
