(* ===== verification/Ingest_Paging.thy ===== *)
theory Ingest_Paging
  imports Ingest_Wire
begin

text \<open>
  The sources that read an API page by page: Jooble, Careerjet, Kalibrr, SmartRecruiters and
  Workday (\<open>internal/ingest/jooblesource.go\<close>, \<open>careerjetsource.go\<close>, \<open>kalibrrsource.go\<close>,
  \<open>smartrecruiterssource.go\<close>, \<open>workdaysource.go\<close>). A server answers each request of a pass;
  the requests of a pass all differ, so a function stands for whatever it answers over time.
  The loops are recursive functions; the one of Kalibrr may run forever, and its value is then
  \<open>None\<close>.
\<close>

section \<open>Jooble\<close>

definition joobleDefaultLimit :: int where
  "joobleDefaultLimit = 25"

record joobleSource =
  jo_id :: string
  jo_baseURL :: string
  jo_apiKey :: string
  jo_location :: string
  jo_keywords :: string
  jo_limit :: int

definition NewJoobleSourceWithURLAndLimit :: "string \<Rightarrow> string \<Rightarrow> string \<Rightarrow> int \<Rightarrow> joobleSource" where
  "NewJoobleSourceWithURLAndLimit i base apiKey limit =
     \<lparr>jo_id = i, jo_baseURL = no_slash base, jo_apiKey = apiKey, jo_location = ''Indonesia'', jo_keywords = [],
      jo_limit = (if limit \<le> 0 then joobleDefaultLimit else limit)\<rparr>"

definition NewJoobleSourceWithLimit :: "string \<Rightarrow> int \<Rightarrow> joobleSource" where
  "NewJoobleSourceWithLimit = NewJoobleSourceWithURLAndLimit ''jooble'' ''https://jooble.org/api''"

record joobleJob =
  jl_Title :: string
  jl_Location :: string
  jl_Snippet :: string
  jl_Salary :: string
  jl_Source :: string
  jl_Type :: string
  jl_Link :: string
  jl_Company :: string
  jl_Updated :: string

definition joobleFields :: "joobleJob fields_dec" where
  "joobleFields =
     [(''title'', str_field (\<lambda>s j. j\<lparr>jl_Title := s\<rparr>)), (''location'', str_field (\<lambda>s j. j\<lparr>jl_Location := s\<rparr>)),
      (''snippet'', str_field (\<lambda>s j. j\<lparr>jl_Snippet := s\<rparr>)), (''salary'', str_field (\<lambda>s j. j\<lparr>jl_Salary := s\<rparr>)),
      (''source'', str_field (\<lambda>s j. j\<lparr>jl_Source := s\<rparr>)), (''type'', str_field (\<lambda>s j. j\<lparr>jl_Type := s\<rparr>)),
      (''link'', str_field (\<lambda>s j. j\<lparr>jl_Link := s\<rparr>)), (''company'', str_field (\<lambda>s j. j\<lparr>jl_Company := s\<rparr>)),
      (''updated'', str_field (\<lambda>s j. j\<lparr>jl_Updated := s\<rparr>))]"

definition zeroJooble :: joobleJob where
  "zeroJooble = \<lparr>jl_Title = [], jl_Location = [], jl_Snippet = [], jl_Salary = [], jl_Source = [], jl_Type = [], jl_Link = [],
     jl_Company = [], jl_Updated = []\<rparr>"

record joobleResponse =
  jr_TotalCount :: int
  jr_Jobs :: "joobleJob list"

definition joobleResponse_dec :: "json \<Rightarrow> joobleResponse option" where
  "joobleResponse_dec = un_obj False
     [(''totalCount'', int_field (\<lambda>i r. r\<lparr>jr_TotalCount := i\<rparr>)),
      (''jobs'', list_field (un_obj False joobleFields zeroJooble) (\<lambda>js r. r\<lparr>jr_Jobs := js\<rparr>))] \<lparr>jr_TotalCount = 0, jr_Jobs = []\<rparr>"

text \<open>A POST to an endpoint with keywords, location and page.\<close>

type_synonym joobleReq = "string \<times> string \<times> string \<times> int"

definition jooble_fetchPage :: "(joobleReq \<Rightarrow> reply) \<Rightarrow> joobleSource \<Rightarrow> int \<Rightarrow> src_err + joobleResponse" where
  "jooble_fetchPage server j page =
     decode_reply joobleResponse_dec (server (jo_baseURL j @ CHR ''/'' # jo_apiKey j, jo_keywords j, jo_location j, page))"

definition joobleSalaryText :: "srcEnv \<Rightarrow> string \<Rightarrow> string" where
  "joobleSalaryText env s =
     (let l = to_lower (trim_space s) in
      if l = [] then []
      else if contains l ''rp'' \<or> contains l ''idr'' \<or> contains l ''juta'' \<or> contains l ''jt'' then trustedSalaryText env s
      else [])"

definition joobleUpdatedAt :: "srcEnv \<Rightarrow> string \<Rightarrow> time option" where
  "joobleUpdatedAt env s =
     (if s = [] then None
      else first_layout env [''2006-01-02T15:04:05Z07:00'', ''2006-01-02T15:04:05.9999999'', ''2006-01-02''] s)"

definition jooble_toRaw :: "srcEnv \<Rightarrow> joobleSource \<Rightarrow> joobleJob \<Rightarrow> RawJob" where
  "jooble_toRaw env j r = zeroRaw\<lparr>rj_Source := jo_id j, rj_SourceURL := trim_space (jl_Link r), rj_Title := trim_space (jl_Title r),
     rj_Company := trim_space (jl_Company r), rj_Location := trim_space (jl_Location r),
     rj_SalaryText := joobleSalaryText env (jl_Salary r), rj_EmploymentType := trim_space (jl_Type r),
     rj_Requirements := (let snippet = trim_space (jl_Snippet r) in if snippet \<noteq> [] then [snippet] else []),
     rj_PostedAt := joobleUpdatedAt env (jl_Updated r)\<rparr>"

definition jooble_ok :: "joobleJob \<Rightarrow> bool" where
  "jooble_ok r = (\<not> (trim_space (jl_Title r) = [] \<or> trim_space (jl_Link r) = []))"

function jooble_loop ::
  "srcEnv \<Rightarrow> (joobleReq \<Rightarrow> reply) \<Rightarrow> joobleSource \<Rightarrow> int \<Rightarrow> int \<Rightarrow> int \<Rightarrow> RawJob list \<Rightarrow> src_err + RawJob list" where
  "jooble_loop env server j page seen pageSize0 jobs0 =
     (if \<not> (int (length jobs0) < jo_limit j \<and> seen < jo_limit j) then Inr jobs0
      else (case jooble_fetchPage server j page of
        Inl e \<Rightarrow> Inl e
      | Inr body \<Rightarrow>
          (let pageLength = int (length (jr_Jobs body));
               pageSize = (if pageSize0 = 0 \<and> pageLength > 0 then pageLength else pageSize0);
               jobs = append_until jooble_ok (jooble_toRaw env j) (jo_limit j) (jr_Jobs body) jobs0;
               seen' = seen + pageLength
           in if pageLength = 0 \<or> (pageSize > 0 \<and> pageLength < pageSize) then Inr jobs
              else if jr_TotalCount body > 0 \<and> seen' \<ge> jr_TotalCount body then Inr jobs
              else if seen' \<ge> jo_limit j then Inr jobs
              else jooble_loop env server j (page + 1) seen' pageSize jobs)))"
  by pat_completeness auto
termination
  by (relation "measure (\<lambda>(env, server, j, page, seen, pageSize, jobs). nat (jo_limit j - seen))") auto

declare jooble_loop.simps [simp del]

definition jooble_Fetch :: "srcEnv \<Rightarrow> (joobleReq \<Rightarrow> reply) \<Rightarrow> joobleSource \<Rightarrow> src_err + RawJob list" where
  "jooble_Fetch env server j =
     (if trim_space (jo_apiKey j) = [] then Inl NoCredential else jooble_loop env server j 1 0 0 [])"

section \<open>Careerjet\<close>

definition careerjetDefaultLimit :: int where
  "careerjetDefaultLimit = 25"

definition careerjetPageSize :: int where
  "careerjetPageSize = 100"

record careerjetSource =
  cj_id :: string
  cj_baseURL :: string
  cj_affid :: string
  cj_limit :: int

definition NewCareerjetSourceWithURLAndLimit :: "string \<Rightarrow> string \<Rightarrow> string \<Rightarrow> int \<Rightarrow> careerjetSource" where
  "NewCareerjetSourceWithURLAndLimit i base affid limit =
     \<lparr>cj_id = i, cj_baseURL = no_slash base, cj_affid = trim_space affid, cj_limit = (if limit \<le> 0 then careerjetDefaultLimit else limit)\<rparr>"

definition NewCareerjetSourceWithLimit :: "string \<Rightarrow> int \<Rightarrow> careerjetSource" where
  "NewCareerjetSourceWithLimit = NewCareerjetSourceWithURLAndLimit ''careerjet'' ''https://search.api.careerjet.net/v4/query''"

record careerjetJob =
  cq_Title :: string
  cq_Company :: string
  cq_Date :: string
  cq_Description :: string
  cq_Locations :: string
  cq_Salary :: string
  cq_SalaryCurrencyCode :: string
  cq_SalaryMin :: gofloat
  cq_SalaryMax :: gofloat
  cq_ContractType :: string
  cq_URL :: string

definition zero_float :: gofloat where
  "zero_float = Fin False (0, 0)"

definition careerjetFields :: "careerjetJob fields_dec" where
  "careerjetFields =
     [(''title'', str_field (\<lambda>s j. j\<lparr>cq_Title := s\<rparr>)), (''company'', str_field (\<lambda>s j. j\<lparr>cq_Company := s\<rparr>)),
      (''date'', str_field (\<lambda>s j. j\<lparr>cq_Date := s\<rparr>)), (''description'', str_field (\<lambda>s j. j\<lparr>cq_Description := s\<rparr>)),
      (''locations'', str_field (\<lambda>s j. j\<lparr>cq_Locations := s\<rparr>)), (''salary'', str_field (\<lambda>s j. j\<lparr>cq_Salary := s\<rparr>)),
      (''salary_currency_code'', str_field (\<lambda>s j. j\<lparr>cq_SalaryCurrencyCode := s\<rparr>)),
      (''salary_min'', float_field (\<lambda>f j. j\<lparr>cq_SalaryMin := f\<rparr>)), (''salary_max'', float_field (\<lambda>f j. j\<lparr>cq_SalaryMax := f\<rparr>)),
      (''contract_type'', str_field (\<lambda>s j. j\<lparr>cq_ContractType := s\<rparr>)), (''url'', str_field (\<lambda>s j. j\<lparr>cq_URL := s\<rparr>))]"

definition zeroCareerjet :: careerjetJob where
  "zeroCareerjet = \<lparr>cq_Title = [], cq_Company = [], cq_Date = [], cq_Description = [], cq_Locations = [], cq_Salary = [],
     cq_SalaryCurrencyCode = [], cq_SalaryMin = zero_float, cq_SalaryMax = zero_float, cq_ContractType = [], cq_URL = []\<rparr>"

record careerjetResponse =
  ce_Type :: string
  ce_Hits :: int
  ce_Pages :: int
  ce_Jobs :: "careerjetJob list"

definition careerjetResponse_dec :: "json \<Rightarrow> careerjetResponse option" where
  "careerjetResponse_dec = un_obj False
     [(''type'', str_field (\<lambda>s r. r\<lparr>ce_Type := s\<rparr>)), (''hits'', int_field (\<lambda>i r. r\<lparr>ce_Hits := i\<rparr>)),
      (''pages'', int_field (\<lambda>i r. r\<lparr>ce_Pages := i\<rparr>)),
      (''jobs'', list_field (un_obj False careerjetFields zeroCareerjet) (\<lambda>js r. r\<lparr>ce_Jobs := js\<rparr>))]
     \<lparr>ce_Type = [], ce_Hits = 0, ce_Pages = 0, ce_Jobs = []\<rparr>"

text \<open>The affiliate id goes into the request's authorization, the first component.\<close>

definition careerjet_fetchPage :: "(string \<times> request \<Rightarrow> reply) \<Rightarrow> careerjetSource \<Rightarrow> int \<Rightarrow> int \<Rightarrow> src_err + careerjetResponse" where
  "careerjet_fetchPage server c page pageSize =
     (if url_parse (cj_baseURL c) = None then Inl BadURL
      else (case decode_reply careerjetResponse_dec
          (server (cj_affid c, cj_baseURL c,
             [(''locale_code'', ''id_ID''), (''location'', ''Indonesia''), (''page'', itoa page), (''page_size'', itoa pageSize),
              (''sort'', ''date''), (''user_ip'', ''127.0.0.1''), (''user_agent'', ''AutoApplier/1.0 (+https://autoapplier.id)'')])) of
        Inl e \<Rightarrow> Inl e
      | Inr body \<Rightarrow> if ce_Type body \<noteq> [] \<and> \<not> equal_fold (ce_Type body) ''JOBS'' then Inl (WrongType (ce_Type body)) else Inr body))"

definition careerjetEmploymentType :: "string \<Rightarrow> string" where
  "careerjetEmploymentType v =
     (let k = to_lower (trim_space v) in
      if k = ''p'' then ''full_time'' else if k = ''c'' then ''contract'' else if k = ''t'' then ''temporary''
      else if k = ''i'' then ''internship'' else v)"

definition careerjetSalaryText :: "srcEnv \<Rightarrow> careerjetJob \<Rightarrow> string" where
  "careerjetSalaryText env j =
     (if \<not> equal_fold (trim_space (cq_SalaryCurrencyCode j)) ''IDR'' then []
      else if trim_space (cq_Salary j) \<noteq> [] then trustedSalaryText env (cq_Salary j)
      else rp_range (if fl_pos (cq_SalaryMin j) then Some (cq_SalaryMin j) else None)
                    (if fl_pos (cq_SalaryMax j) then Some (cq_SalaryMax j) else None))"

definition careerjet_toRaw :: "srcEnv \<Rightarrow> careerjetSource \<Rightarrow> careerjetJob \<Rightarrow> RawJob" where
  "careerjet_toRaw env c j = zeroRaw\<lparr>rj_Source := cj_id c, rj_SourceURL := trim_space (cq_URL j), rj_Title := trim_space (cq_Title j),
     rj_Company := trim_space (cq_Company j), rj_Location := trim_space (cq_Locations j),
     rj_SalaryText := careerjetSalaryText env j, rj_EmploymentType := careerjetEmploymentType (cq_ContractType j),
     rj_Requirements := descriptionRequirements env (cq_Description j), rj_PostedAt := parseSourceTime env (cq_Date j)\<rparr>"

definition careerjet_ok :: "careerjetJob \<Rightarrow> bool" where
  "careerjet_ok j = (\<not> (trim_space (cq_Title j) = [] \<or> trim_space (cq_URL j) = []))"

function careerjet_loop ::
  "srcEnv \<Rightarrow> (string \<times> request \<Rightarrow> reply) \<Rightarrow> careerjetSource \<Rightarrow> int \<Rightarrow> int \<Rightarrow> int \<Rightarrow> RawJob list \<Rightarrow> src_err + RawJob list" where
  "careerjet_loop env server c pageSize maxPages page jobs0 =
     (if \<not> (int (length jobs0) < cj_limit c \<and> page \<le> maxPages) then Inr jobs0
      else (case careerjet_fetchPage server c page pageSize of
        Inl e \<Rightarrow> Inl e
      | Inr body \<Rightarrow>
          (let jobs = append_until careerjet_ok (careerjet_toRaw env c) (cj_limit c) (ce_Jobs body) jobs0
           in if ce_Jobs body = [] \<or> int (length (ce_Jobs body)) < pageSize \<or> (ce_Pages body > 0 \<and> page \<ge> ce_Pages body)
              then Inr jobs
              else careerjet_loop env server c pageSize maxPages (page + 1) jobs)))"
  by pat_completeness auto
termination
  by (relation "measure (\<lambda>(env, server, c, pageSize, maxPages, page, jobs). nat (maxPages + 1 - page))") auto

declare careerjet_loop.simps [simp del]

text \<open>64-bit arithmetic for the number of pages: the sum wraps, the quotient truncates.\<close>

definition wrap_int64 :: "int \<Rightarrow> int" where
  "wrap_int64 x = (x + 2 ^ 63) mod 2 ^ 64 - 2 ^ 63"

definition quot_int :: "int \<Rightarrow> int \<Rightarrow> int" where
  "quot_int a b = (if a < 0 then - ((- a) div b) else a div b)"

definition careerjet_Fetch :: "srcEnv \<Rightarrow> (string \<times> request \<Rightarrow> reply) \<Rightarrow> careerjetSource \<Rightarrow> src_err + RawJob list" where
  "careerjet_Fetch env server c =
     (if cj_affid c = [] then Inl NoCredential
      else (let pageSize = min (cj_limit c) careerjetPageSize;
                maxPages = quot_int (wrap_int64 (cj_limit c + pageSize - 1)) pageSize
            in careerjet_loop env server c pageSize maxPages 1 []))"

section \<open>Kalibrr\<close>

definition kalibrrPageSize :: int where
  "kalibrrPageSize = 100"

record kalibrrSource =
  ka_id :: string
  ka_baseURL :: string
  ka_country :: string
  ka_limit :: int

definition NewKalibrrSourceWithURL :: "string \<Rightarrow> string \<Rightarrow> int \<Rightarrow> kalibrrSource" where
  "NewKalibrrSourceWithURL i base limit =
     \<lparr>ka_id = i, ka_baseURL = base, ka_country = ''Indonesia'', ka_limit = (if limit \<le> 0 then 25 else limit)\<rparr>"

definition NewKalibrrSource :: "int \<Rightarrow> kalibrrSource" where
  "NewKalibrrSource = NewKalibrrSourceWithURL ''kalibrr'' ''https://www.kalibrr.com/kjs/job_board/search''"

record kalibrrJob =
  kj_ID :: int
  kj_Name :: string
  kj_Slug :: string
  kj_CompanyName :: string
  kj_Tenure :: string
  kj_SalaryShown :: bool
  kj_MinimumSalary :: "gofloat option"
  kj_MaximumSalary :: "gofloat option"
  kj_SalaryCurrency :: string
  kj_IsWorkFromHome :: bool
  kj_Description :: string
  kj_Qualifications :: string
  kj_IsOpenToFreshGrads :: bool
  kj_ActivationDate :: string
  kj_CompanyCode :: string
  kj_CompanyRecName :: string
  kj_City :: string
  kj_Region :: string

definition kalibrrFields :: "kalibrrJob fields_dec" where
  "kalibrrFields =
     [(''id'', int_field (\<lambda>i j. j\<lparr>kj_ID := i\<rparr>)), (''name'', str_field (\<lambda>s j. j\<lparr>kj_Name := s\<rparr>)),
      (''slug'', str_field (\<lambda>s j. j\<lparr>kj_Slug := s\<rparr>)), (''company_name'', str_field (\<lambda>s j. j\<lparr>kj_CompanyName := s\<rparr>)),
      (''tenure'', str_field (\<lambda>s j. j\<lparr>kj_Tenure := s\<rparr>)), (''salary_shown'', bool_field (\<lambda>b j. j\<lparr>kj_SalaryShown := b\<rparr>)),
      (''minimum_salary'', floatp_field (\<lambda>f j. j\<lparr>kj_MinimumSalary := f\<rparr>)),
      (''maximum_salary'', floatp_field (\<lambda>f j. j\<lparr>kj_MaximumSalary := f\<rparr>)),
      (''salary_currency'', str_field (\<lambda>s j. j\<lparr>kj_SalaryCurrency := s\<rparr>)),
      (''is_work_from_home'', bool_field (\<lambda>b j. j\<lparr>kj_IsWorkFromHome := b\<rparr>)),
      (''description'', str_field (\<lambda>s j. j\<lparr>kj_Description := s\<rparr>)), (''qualifications'', str_field (\<lambda>s j. j\<lparr>kj_Qualifications := s\<rparr>)),
      (''is_open_to_fresh_grads'', bool_field (\<lambda>b j. j\<lparr>kj_IsOpenToFreshGrads := b\<rparr>)),
      (''activation_date'', str_field (\<lambda>s j. j\<lparr>kj_ActivationDate := s\<rparr>)),
      (''company'', obj_field [(''code'', str_field (\<lambda>s j. j\<lparr>kj_CompanyCode := s\<rparr>)), (''name'', str_field (\<lambda>s j. j\<lparr>kj_CompanyRecName := s\<rparr>))]
         (\<lambda>j. j) (\<lambda>j _. j)),
      (''google_location'', obj_field
         [(''address_components'', obj_field
             [(''city'', str_field (\<lambda>s j. j\<lparr>kj_City := s\<rparr>)), (''region'', str_field (\<lambda>s j. j\<lparr>kj_Region := s\<rparr>))] (\<lambda>j. j) (\<lambda>j _. j))]
         (\<lambda>j. j) (\<lambda>j _. j))]"

definition zeroKalibrr :: kalibrrJob where
  "zeroKalibrr = \<lparr>kj_ID = 0, kj_Name = [], kj_Slug = [], kj_CompanyName = [], kj_Tenure = [], kj_SalaryShown = False,
     kj_MinimumSalary = None, kj_MaximumSalary = None, kj_SalaryCurrency = [], kj_IsWorkFromHome = False, kj_Description = [],
     kj_Qualifications = [], kj_IsOpenToFreshGrads = False, kj_ActivationDate = [], kj_CompanyCode = [], kj_CompanyRecName = [],
     kj_City = [], kj_Region = []\<rparr>"

record kalibrrResponse =
  kr_Count :: int
  kr_Jobs :: "kalibrrJob list"

definition kalibrrResponse_dec :: "json \<Rightarrow> kalibrrResponse option" where
  "kalibrrResponse_dec = un_obj False
     [(''count'', int_field (\<lambda>i r. r\<lparr>kr_Count := i\<rparr>)),
      (''jobs'', list_field (un_obj False kalibrrFields zeroKalibrr) (\<lambda>js r. r\<lparr>kr_Jobs := js\<rparr>))] \<lparr>kr_Count = 0, kr_Jobs = []\<rparr>"

definition kalibrr_fetchPage :: "(request \<Rightarrow> reply) \<Rightarrow> kalibrrSource \<Rightarrow> int \<Rightarrow> int \<Rightarrow> src_err + kalibrrResponse" where
  "kalibrr_fetchPage server k limit offset =
     (if url_parse (ka_baseURL k) = None then Inl BadURL
      else decode_reply kalibrrResponse_dec
        (server (ka_baseURL k, [(''limit'', itoa limit), (''offset'', itoa offset), (''country'', ka_country k)])))"

definition kalibrrLocation :: "kalibrrJob \<Rightarrow> string" where
  "kalibrrLocation j = join '', '' (filterNonEmpty [kj_City j, kj_Region j])"

definition kalibrrSalaryText :: "srcEnv \<Rightarrow> kalibrrJob \<Rightarrow> string" where
  "kalibrrSalaryText env j =
     (let big = ne_big (se_norm env) in
      if \<not> kj_SalaryShown j \<or> \<not> equal_fold (kj_SalaryCurrency j) ''IDR'' then []
      else (case (kj_MinimumSalary j, kj_MaximumSalary j) of
        (Some lo, Some hi) \<Rightarrow> ''Rp '' @ itoa (fl_int64 big lo) @ '' - '' @ itoa (fl_int64 big hi)
      | (None, Some hi) \<Rightarrow> ''Rp '' @ itoa (fl_int64 big hi)
      | (Some lo, None) \<Rightarrow> ''Rp '' @ itoa (fl_int64 big lo)
      | (None, None) \<Rightarrow> []))"

definition kalibrrJobURL :: "kalibrrJob \<Rightarrow> string" where
  "kalibrrJobURL j =
     (if kj_CompanyCode j \<noteq> [] \<and> kj_Slug j \<noteq> []
      then ''https://www.kalibrr.com/c/'' @ kj_CompanyCode j @ ''/jobs/'' @ itoa (kj_ID j) @ ''/'' @ kj_Slug j
      else ''https://www.kalibrr.com/id-ID/job-board/'' @ itoa (kj_ID j))"

definition kalibrrPostedAt :: "srcEnv \<Rightarrow> string \<Rightarrow> time option" where
  "kalibrrPostedAt env s = (if s = [] then None else se_time env ''2006-01-02T15:04:05Z07:00'' s)"

definition kalibrr_toRaw :: "srcEnv \<Rightarrow> kalibrrSource \<Rightarrow> kalibrrJob \<Rightarrow> RawJob" where
  "kalibrr_toRaw env k j =
     (let company = (if kj_CompanyName j = [] then kj_CompanyRecName j else kj_CompanyName j) in
      zeroRaw\<lparr>rj_Source := ka_id k, rj_SourceURL := kalibrrJobURL j, rj_Title := trim_space (kj_Name j),
        rj_Company := trim_space company, rj_Location := kalibrrLocation j, rj_Remote := kj_IsWorkFromHome j,
        rj_SalaryText := kalibrrSalaryText env j, rj_Seniority := (if kj_IsOpenToFreshGrads j then ''fresh grad'' else []),
        rj_EmploymentType := trim_space (kj_Tenure j),
        rj_Requirements := filter (\<lambda>p. p \<noteq> []) (map (htmlToPlainText env) [kj_Description j, kj_Qualifications j]),
        rj_PostedAt := kalibrrPostedAt env (kj_ActivationDate j)\<rparr>)"

definition kalibrr_ok :: "kalibrrJob \<Rightarrow> bool" where
  "kalibrr_ok j = (trim_space (kj_Name j) \<noteq> [])"

partial_function (option) kalibrr_loop ::
  "srcEnv \<Rightarrow> (request \<Rightarrow> reply) \<Rightarrow> kalibrrSource \<Rightarrow> int \<Rightarrow> RawJob list \<Rightarrow> (src_err + RawJob list) option" where
  "kalibrr_loop env server k offset jobs0 =
     (if \<not> int (length jobs0) < ka_limit k then Some (Inr jobs0)
      else (let pageLimit = min (ka_limit k - int (length jobs0)) kalibrrPageSize in
        (case kalibrr_fetchPage server k pageLimit offset of
          Inl e \<Rightarrow> Some (Inl e)
        | Inr body \<Rightarrow>
            (let jobs = append_until kalibrr_ok (kalibrr_toRaw env k) (ka_limit k) (kr_Jobs body) jobs0;
                 pageLength = int (length (kr_Jobs body));
                 offset' = offset + pageLength
             in if pageLength = 0 \<or> pageLength < pageLimit then Some (Inr jobs)
                else if kr_Count body > 0 \<and> offset' \<ge> kr_Count body then Some (Inr jobs)
                else kalibrr_loop env server k offset' jobs))))"

text \<open>\<open>None\<close> when the loop does not end.\<close>

definition kalibrr_Fetch :: "srcEnv \<Rightarrow> (request \<Rightarrow> reply) \<Rightarrow> kalibrrSource \<Rightarrow> (src_err + RawJob list) option" where
  "kalibrr_Fetch env server k = kalibrr_loop env server k 0 []"

section \<open>SmartRecruiters\<close>

definition smartRecruitersPageSize :: int where
  "smartRecruitersPageSize = 100"

definition smartRecruitersDefaultLimit :: int where
  "smartRecruitersDefaultLimit = 100"

record SmartRecruitersCompany =
  sc_Slug :: string
  sc_Company :: string

record smartRecruitersSource =
  ss_company :: SmartRecruitersCompany
  ss_endpoint :: string
  ss_limit :: int

definition smartRecruitersEndpoint :: "string \<Rightarrow> string" where
  "smartRecruitersEndpoint slug = ''https://api.smartrecruiters.com/v1/companies/'' @ path_escape (trim_space slug) @ ''/postings''"

definition NewSmartRecruitersSourceWithEndpoint :: "SmartRecruitersCompany \<Rightarrow> string \<Rightarrow> smartRecruitersSource" where
  "NewSmartRecruitersSourceWithEndpoint c endpoint =
     \<lparr>ss_company = c, ss_endpoint = no_slash endpoint, ss_limit = smartRecruitersDefaultLimit\<rparr>"

definition NewSmartRecruitersSource :: "SmartRecruitersCompany \<Rightarrow> smartRecruitersSource" where
  "NewSmartRecruitersSource c = NewSmartRecruitersSourceWithEndpoint c (smartRecruitersEndpoint (sc_Slug c))"

definition smartRecruiters_ID :: "smartRecruitersSource \<Rightarrow> string" where
  "smartRecruiters_ID s = ''smartrecruiters-'' @ sanitizeID (sc_Slug (ss_company s))"

record smartRecruitersPosting =
  sp_ID :: string
  sp_Name :: string
  sp_ReleasedDate :: string
  sp_Ref :: string
  sp_CompanyName :: string
  sp_City :: string
  sp_Region :: string
  sp_Country :: string
  sp_Remote :: bool
  sp_Label :: string

definition smartRecruitersFields :: "smartRecruitersPosting fields_dec" where
  "smartRecruitersFields =
     [(''id'', str_field (\<lambda>s p. p\<lparr>sp_ID := s\<rparr>)), (''name'', str_field (\<lambda>s p. p\<lparr>sp_Name := s\<rparr>)),
      (''releasedDate'', str_field (\<lambda>s p. p\<lparr>sp_ReleasedDate := s\<rparr>)), (''ref'', str_field (\<lambda>s p. p\<lparr>sp_Ref := s\<rparr>)),
      (''company'', obj_field [(''name'', str_field (\<lambda>s p. p\<lparr>sp_CompanyName := s\<rparr>))] (\<lambda>p. p) (\<lambda>p _. p)),
      (''location'', obj_field
         [(''city'', str_field (\<lambda>s p. p\<lparr>sp_City := s\<rparr>)), (''region'', str_field (\<lambda>s p. p\<lparr>sp_Region := s\<rparr>)),
          (''country'', str_field (\<lambda>s p. p\<lparr>sp_Country := s\<rparr>)), (''remote'', bool_field (\<lambda>b p. p\<lparr>sp_Remote := b\<rparr>))] (\<lambda>p. p) (\<lambda>p _. p)),
      (''typeOfEmployment'', obj_field [(''label'', str_field (\<lambda>s p. p\<lparr>sp_Label := s\<rparr>))] (\<lambda>p. p) (\<lambda>p _. p))]"

definition zeroSmartRecruiters :: smartRecruitersPosting where
  "zeroSmartRecruiters = \<lparr>sp_ID = [], sp_Name = [], sp_ReleasedDate = [], sp_Ref = [], sp_CompanyName = [], sp_City = [], sp_Region = [],
     sp_Country = [], sp_Remote = False, sp_Label = []\<rparr>"

text \<open>The postings of a page and the total, the shape Workday's answers have too.\<close>

definition smartRecruitersResponse_dec :: "json \<Rightarrow> (int \<times> smartRecruitersPosting list) option" where
  "smartRecruitersResponse_dec = un_obj False
     [(''totalFound'', int_field (\<lambda>i r. (i, snd r))),
      (''content'', list_field (un_obj False smartRecruitersFields zeroSmartRecruiters) (\<lambda>ps r. (fst r, ps)))] (0, [])"

definition smartRecruiters_raw :: "srcEnv \<Rightarrow> smartRecruitersSource \<Rightarrow> smartRecruitersPosting \<Rightarrow> RawJob" where
  "smartRecruiters_raw env s p =
     (let location = joinNonEmpty '', '' [sp_City p, sp_Region p, sp_Country p];
          remote = (sp_Remote p \<or> detectRemote location \<or> equal_fold (trim_space (sp_Country p)) ''remote'')
      in zeroRaw\<lparr>rj_Source := ''smartrecruiters'',
           rj_SourceURL := ''https://jobs.smartrecruiters.com/'' @ sc_Slug (ss_company s) @ ''/'' @ sp_ID p, rj_Title := sp_Name p,
           rj_Company := firstNonEmpty [sp_CompanyName p, sc_Company (ss_company s)],
           rj_Location := (if remote \<and> location = [] then ''Remote'' else location), rj_Remote := remote,
           rj_EmploymentType := sp_Label p, rj_PostedAt := parseSourceTime env (sp_ReleasedDate p)\<rparr>)"

definition smartRecruiters_fetchPage ::
  "(request \<Rightarrow> reply) \<Rightarrow> smartRecruitersSource \<Rightarrow> int \<Rightarrow> src_err + int \<times> smartRecruitersPosting list" where
  "smartRecruiters_fetchPage server s offset =
     (if url_parse (ss_endpoint s) = None then Inl BadURL
      else decode_reply smartRecruitersResponse_dec
        (server (ss_endpoint s, [(''limit'', itoa smartRecruitersPageSize), (''offset'', itoa offset)])))"

function smartRecruiters_loop ::
  "srcEnv \<Rightarrow> (request \<Rightarrow> reply) \<Rightarrow> smartRecruitersSource \<Rightarrow> int \<Rightarrow> RawJob list \<Rightarrow> src_err + RawJob list" where
  "smartRecruiters_loop env server s offset jobs0 =
     (if \<not> offset < ss_limit s then Inr jobs0
      else (case smartRecruiters_fetchPage server s offset of
        Inl e \<Rightarrow> Inl e
      | Inr (found, page) \<Rightarrow>
          (let jobs = jobs0 @ map (smartRecruiters_raw env s) page in
           if page = [] \<or> offset + smartRecruitersPageSize \<ge> found \<or> int (length jobs) \<ge> ss_limit s then Inr jobs
           else smartRecruiters_loop env server s (offset + smartRecruitersPageSize) jobs)))"
  by pat_completeness auto
termination
  by (relation "measure (\<lambda>(env, server, s, offset, jobs). nat (ss_limit s - offset))") (auto simp: smartRecruitersPageSize_def)

declare smartRecruiters_loop.simps [simp del]

definition truncate_jobs :: "int \<Rightarrow> RawJob list \<Rightarrow> RawJob list" where
  "truncate_jobs limit jobs = (if int (length jobs) > limit then take (nat limit) jobs else jobs)"

definition smartRecruiters_Fetch :: "srcEnv \<Rightarrow> (request \<Rightarrow> reply) \<Rightarrow> smartRecruitersSource \<Rightarrow> src_err + RawJob list" where
  "smartRecruiters_Fetch env server s =
     (if ss_endpoint s = [] then Inl NoEndpoint
      else (case smartRecruiters_loop env server s 0 [] of
        Inl e \<Rightarrow> Inl e
      | Inr jobs \<Rightarrow> Inr (truncate_jobs (ss_limit s) jobs)))"

section \<open>Workday\<close>

definition workdayPageSize :: int where
  "workdayPageSize = 20"

definition workdayDefaultLimit :: int where
  "workdayDefaultLimit = 100"

record WorkdayCompany =
  wc_Host :: string
  wc_Tenant :: string
  wc_Site :: string
  wc_Company :: string

record workdaySource =
  ws_company :: WorkdayCompany
  ws_endpoint :: string
  ws_limit :: int

definition workdayEndpoint :: "WorkdayCompany \<Rightarrow> string" where
  "workdayEndpoint c =
     (let host = no_slash (trim_space (wc_Host c)) in
      ''https://'' @ host @ ''/wday/cxs/'' @ path_escape (trim_space (wc_Tenant c)) @ ''/'' @ path_escape (trim_space (wc_Site c)) @ ''/jobs'')"

definition NewWorkdaySourceWithEndpoint :: "WorkdayCompany \<Rightarrow> string \<Rightarrow> workdaySource" where
  "NewWorkdaySourceWithEndpoint c endpoint = \<lparr>ws_company = c, ws_endpoint = no_slash endpoint, ws_limit = workdayDefaultLimit\<rparr>"

definition NewWorkdaySource :: "WorkdayCompany \<Rightarrow> workdaySource" where
  "NewWorkdaySource c = NewWorkdaySourceWithEndpoint c (workdayEndpoint c)"

definition workday_ID :: "workdaySource \<Rightarrow> string" where
  "workday_ID w = ''workday-'' @ sanitizeID (wc_Tenant (ws_company w)) @ ''-'' @ sanitizeID (wc_Site (ws_company w))"

record workdayPosting =
  wp_Title :: string
  wp_ExternalPath :: string
  wp_LocationsText :: string
  wp_PostedOn :: string
  wp_BulletFields :: "string list"

definition workdayFields :: "workdayPosting fields_dec" where
  "workdayFields =
     [(''title'', str_field (\<lambda>s p. p\<lparr>wp_Title := s\<rparr>)), (''externalPath'', str_field (\<lambda>s p. p\<lparr>wp_ExternalPath := s\<rparr>)),
      (''locationsText'', str_field (\<lambda>s p. p\<lparr>wp_LocationsText := s\<rparr>)), (''postedOn'', str_field (\<lambda>s p. p\<lparr>wp_PostedOn := s\<rparr>)),
      (''bulletFields'', list_field un_string (\<lambda>xs p. p\<lparr>wp_BulletFields := xs\<rparr>))]"

definition zeroWorkday :: workdayPosting where
  "zeroWorkday = \<lparr>wp_Title = [], wp_ExternalPath = [], wp_LocationsText = [], wp_PostedOn = [], wp_BulletFields = []\<rparr>"

definition workdayResponse_dec :: "json \<Rightarrow> (int \<times> workdayPosting list) option" where
  "workdayResponse_dec = un_obj False
     [(''total'', int_field (\<lambda>i r. (i, snd r))),
      (''jobPostings'', list_field (un_obj False workdayFields zeroWorkday) (\<lambda>ps r. (fst r, ps)))] (0, [])"

definition workday_publicURL :: "workdaySource \<Rightarrow> string \<Rightarrow> string" where
  "workday_publicURL w externalPath =
     (let path0 = trim_space externalPath in
      if path0 = [] then []
      else (let path = (if \<not> has_prefix path0 ''/'' then CHR ''/'' # path0 else path0);
                host = no_slash (trim_space (wc_Host (ws_company w)))
            in ''https://'' @ host @ ''/en-US/'' @ trim_space (wc_Site (ws_company w)) @ path))"

definition workday_raw :: "workdaySource \<Rightarrow> workdayPosting \<Rightarrow> RawJob" where
  "workday_raw w p =
     (let location = collapse (wp_LocationsText p) in
      zeroRaw\<lparr>rj_Source := ''workday'', rj_SourceURL := workday_publicURL w (wp_ExternalPath p), rj_Title := wp_Title p,
        rj_Company := firstNonEmpty [wc_Company (ws_company w), humanizeSlug (wc_Tenant (ws_company w))],
        rj_Location := (if detectRemote location then ''Remote'' else location), rj_Remote := detectRemote (wp_LocationsText p)\<rparr>)"

text \<open>A POST to the endpoint with the page size and the offset; the other fields are empty.\<close>

definition workday_fetchPage ::
  "(string \<times> int \<times> int \<Rightarrow> reply) \<Rightarrow> workdaySource \<Rightarrow> int \<Rightarrow> src_err + int \<times> workdayPosting list" where
  "workday_fetchPage server w offset = decode_reply workdayResponse_dec (server (ws_endpoint w, workdayPageSize, offset))"

function workday_loop ::
  "(string \<times> int \<times> int \<Rightarrow> reply) \<Rightarrow> workdaySource \<Rightarrow> int \<Rightarrow> RawJob list \<Rightarrow> src_err + RawJob list" where
  "workday_loop server w offset jobs0 =
     (if \<not> offset < ws_limit w then Inr jobs0
      else (case workday_fetchPage server w offset of
        Inl e \<Rightarrow> Inl e
      | Inr (found, page) \<Rightarrow>
          (let jobs = jobs0 @ map (workday_raw w) page in
           if page = [] \<or> offset + workdayPageSize \<ge> found \<or> int (length jobs) \<ge> ws_limit w then Inr jobs
           else workday_loop server w (offset + workdayPageSize) jobs)))"
  by pat_completeness auto
termination
  by (relation "measure (\<lambda>(server, w, offset, jobs). nat (ws_limit w - offset))") (auto simp: workdayPageSize_def)

declare workday_loop.simps [simp del]

definition workday_Fetch :: "(string \<times> int \<times> int \<Rightarrow> reply) \<Rightarrow> workdaySource \<Rightarrow> src_err + RawJob list" where
  "workday_Fetch server w =
     (if ws_endpoint w = [] then Inl NoEndpoint
      else if trim_space (wc_Host (ws_company w)) = [] \<or> trim_space (wc_Tenant (ws_company w)) = [] then Inl NoEndpoint
      else (case workday_loop server w 0 [] of
        Inl e \<Rightarrow> Inl e
      | Inr jobs \<Rightarrow> Inr (truncate_jobs (ws_limit w) jobs)))"

end
