(* ===== verification/Ingest_Sources.thy ===== *)
theory Ingest_Sources
  imports Ingest_ATS Ingest_Remote Ingest_Paging
begin

text \<open>
  Which sources a deployment reads (\<open>internal/ingest/sources.go\<close>): the configuration, the
  catalogs of company boards and the registry built from them. The embedded catalog files are
  a parameter, from a path to the JSON value of the file, \<open>None\<close> if there is none.
\<close>

record ATSCompany =
  ac_Slug :: string
  ac_Company :: string

record SourceConfig =
  sg_KalibrrLimit :: int
  sg_JoobleAPIKey :: string
  sg_JoobleLimit :: int
  sg_JoobleBackfill :: bool
  sg_CareerjetAffid :: string
  sg_CareerjetLimit :: int
  sg_ATSEnabled :: bool
  sg_ATSSlugs :: "(string, string list) gomap"
  sg_WorkdayCompanies :: "WorkdayCompany list option"
  sg_SmartRecruitersCompanies :: "SmartRecruitersCompany list option"
  sg_RemoteEnabled :: bool
  sg_RemoteLimit :: int

section \<open>Catalogs\<close>

definition readATSCatalog :: "(string \<Rightarrow> raw) \<Rightarrow> (json \<Rightarrow> 'a option) \<Rightarrow> string \<Rightarrow> 'a option" where
  "readATSCatalog files dec name = Option.bind (files (''atscompanies/'' @ name @ ''.json'')) dec"

definition atsCompanies_dec :: "json \<Rightarrow> ATSCompany list option" where
  "atsCompanies_dec v = un_list (un_obj False
     [(''slug'', str_field (\<lambda>s c. c\<lparr>ac_Slug := s\<rparr>)), (''company'', str_field (\<lambda>s c. c\<lparr>ac_Company := s\<rparr>))]
     \<lparr>ac_Slug = [], ac_Company = []\<rparr>) (Some v)"

definition configuredATSCompanies :: "(string \<Rightarrow> raw) \<Rightarrow> string \<Rightarrow> (string, string list) gomap \<Rightarrow> ATSCompany list" where
  "configuredATSCompanies files platform overrides =
     (case gget overrides platform of
        Some slugs \<Rightarrow> map (\<lambda>slug. \<lparr>ac_Slug = trim_space slug, ac_Company = []\<rparr>) (filter (\<lambda>slug. trim_space slug \<noteq> []) slugs)
      | None \<Rightarrow> (case readATSCatalog files atsCompanies_dec platform of None \<Rightarrow> [] | Some entries \<Rightarrow> entries))"

definition workdayCompanies_dec :: "json \<Rightarrow> WorkdayCompany list option" where
  "workdayCompanies_dec v = un_list (un_obj False
     [(''host'', str_field (\<lambda>s c. c\<lparr>wc_Host := s\<rparr>)), (''tenant'', str_field (\<lambda>s c. c\<lparr>wc_Tenant := s\<rparr>)),
      (''site'', str_field (\<lambda>s c. c\<lparr>wc_Site := s\<rparr>)), (''company'', str_field (\<lambda>s c. c\<lparr>wc_Company := s\<rparr>))]
     \<lparr>wc_Host = [], wc_Tenant = [], wc_Site = [], wc_Company = []\<rparr>) (Some v)"

fun clean_workday :: "WorkdayCompany list \<Rightarrow> WorkdayCompany list" where
  "clean_workday [] = []"
| "clean_workday (c # cs) =
     (let e = c\<lparr>wc_Host := trim_space (wc_Host c), wc_Tenant := trim_space (wc_Tenant c), wc_Site := trim_space (wc_Site c)\<rparr> in
      if wc_Host e = [] \<or> wc_Tenant e = [] \<or> wc_Site e = [] then clean_workday cs else e # clean_workday cs)"

definition configuredWorkdayCompanies :: "(string \<Rightarrow> raw) \<Rightarrow> WorkdayCompany list option \<Rightarrow> WorkdayCompany list" where
  "configuredWorkdayCompanies files overrides =
     (case overrides of
        Some entries \<Rightarrow> clean_workday entries
      | None \<Rightarrow> (case readATSCatalog files workdayCompanies_dec ''workday'' of None \<Rightarrow> [] | Some entries \<Rightarrow> clean_workday entries))"

definition smartRecruitersCompanies_dec :: "json \<Rightarrow> SmartRecruitersCompany list option" where
  "smartRecruitersCompanies_dec v = un_list (un_obj False
     [(''slug'', str_field (\<lambda>s c. c\<lparr>sc_Slug := s\<rparr>)), (''company'', str_field (\<lambda>s c. c\<lparr>sc_Company := s\<rparr>))]
     \<lparr>sc_Slug = [], sc_Company = []\<rparr>) (Some v)"

fun clean_smartRecruiters :: "SmartRecruitersCompany list \<Rightarrow> SmartRecruitersCompany list" where
  "clean_smartRecruiters [] = []"
| "clean_smartRecruiters (c # cs) =
     (let e = c\<lparr>sc_Slug := trim_space (sc_Slug c)\<rparr> in
      if sc_Slug e = [] then clean_smartRecruiters cs else e # clean_smartRecruiters cs)"

definition configuredSmartRecruitersCompanies :: "(string \<Rightarrow> raw) \<Rightarrow> SmartRecruitersCompany list option \<Rightarrow> SmartRecruitersCompany list" where
  "configuredSmartRecruitersCompanies files overrides =
     (case overrides of
        Some entries \<Rightarrow> clean_smartRecruiters entries
      | None \<Rightarrow> (case readATSCatalog files smartRecruitersCompanies_dec ''smartrecruiters'' of
          None \<Rightarrow> [] | Some entries \<Rightarrow> clean_smartRecruiters entries))"

section \<open>The registry\<close>

datatype anySource =
    SKalibrr kalibrrSource
  | SJooble joobleSource
  | SCareerjet careerjetSource
  | SATS ATSSource
  | SWorkday workdaySource
  | SSmartRecruiters smartRecruitersSource
  | SRemotive remoteSource
  | SJobicy remoteSource
  | SRemoteOK remoteSource

text \<open>The methods \<open>ID\<close> and \<open>Tier\<close>.\<close>

fun any_source :: "anySource \<Rightarrow> source" where
  "any_source (SKalibrr k) = \<lparr>src_ID = ka_id k, src_Tier = Tier2\<rparr>"
| "any_source (SJooble j) = \<lparr>src_ID = jo_id j, src_Tier = Tier1\<rparr>"
| "any_source (SCareerjet c) = \<lparr>src_ID = cj_id c, src_Tier = Tier1\<rparr>"
| "any_source (SATS a) = \<lparr>src_ID = ats_ID a, src_Tier = Tier2\<rparr>"
| "any_source (SWorkday w) = \<lparr>src_ID = workday_ID w, src_Tier = Tier2\<rparr>"
| "any_source (SSmartRecruiters s) = \<lparr>src_ID = smartRecruiters_ID s, src_Tier = Tier2\<rparr>"
| "any_source (SRemotive r) = \<lparr>src_ID = rm_id r, src_Tier = Tier2\<rparr>"
| "any_source (SJobicy r) = \<lparr>src_ID = rm_id r, src_Tier = Tier2\<rparr>"
| "any_source (SRemoteOK r) = \<lparr>src_ID = rm_id r, src_Tier = Tier2\<rparr>"

definition ats_sources :: "(string \<Rightarrow> raw) \<Rightarrow> SourceConfig \<Rightarrow> anySource list" where
  "ats_sources files cfg =
     concat (map (\<lambda>platform. map (\<lambda>entry. SATS (NewATSSourceWithURL platform (ac_Slug entry) (ac_Company entry) (atsEndpoint platform (ac_Slug entry))))
       (configuredATSCompanies files platform (sg_ATSSlugs cfg))) [ATSGreenhouse, ATSLever, ATSWorkable, ATSAshby]) @
     map (\<lambda>entry. SWorkday (NewWorkdaySource entry)) (configuredWorkdayCompanies files (sg_WorkdayCompanies cfg)) @
     map (\<lambda>entry. SSmartRecruiters (NewSmartRecruitersSource entry)) (configuredSmartRecruitersCompanies files (sg_SmartRecruitersCompanies cfg))"

text \<open>The sources in the order they are registered.\<close>

definition enabled_sources :: "(string \<Rightarrow> raw) \<Rightarrow> SourceConfig \<Rightarrow> anySource list" where
  "enabled_sources files cfg =
     (if sg_KalibrrLimit cfg > 0 then [SKalibrr (NewKalibrrSource (sg_KalibrrLimit cfg))] else []) @
     (if sg_JoobleBackfill cfg \<and> trim_space (sg_JoobleAPIKey cfg) \<noteq> []
      then [SJooble (NewJoobleSourceWithLimit (sg_JoobleAPIKey cfg)
              (if sg_JoobleLimit cfg \<le> 0 then sg_KalibrrLimit cfg else sg_JoobleLimit cfg))] else []) @
     (if trim_space (sg_CareerjetAffid cfg) \<noteq> []
      then [SCareerjet (NewCareerjetSourceWithLimit (sg_CareerjetAffid cfg) (sg_CareerjetLimit cfg))] else []) @
     (if sg_ATSEnabled cfg \<or> length (sg_ATSSlugs cfg) > 0 \<or> sg_WorkdayCompanies cfg \<noteq> None \<or> sg_SmartRecruitersCompanies cfg \<noteq> None
      then ats_sources files cfg else []) @
     (if sg_RemoteEnabled cfg
      then [SRemotive (NewRemotiveSource (sg_RemoteLimit cfg)), SJobicy (NewJobicySource (sg_RemoteLimit cfg)),
            SRemoteOK (NewRemoteOKSource (sg_RemoteLimit cfg))] else [])"

text \<open>A refused registration is logged and leaves the registry as it is.\<close>

fun register_all :: "registry \<Rightarrow> source list \<Rightarrow> registry" where
  "register_all reg [] = reg"
| "register_all reg (s # ss) = register_all (fst (Register reg s)) ss"

definition BuildRegistry :: "(string \<Rightarrow> raw) \<Rightarrow> SourceConfig \<Rightarrow> registry" where
  "BuildRegistry files cfg = register_all NewRegistry (map any_source (enabled_sources files cfg))"

section \<open>Fetching\<close>

text \<open>What the servers of all sources answer during one pass.\<close>

record servers =
  sv_get :: "request \<Rightarrow> reply"
  sv_jooble :: "joobleReq \<Rightarrow> reply"
  sv_careerjet :: "string \<times> request \<Rightarrow> reply"
  sv_workday :: "string \<times> int \<times> int \<Rightarrow> reply"
  sv_ats :: "string \<Rightarrow> condRequest \<Rightarrow> httpResp"
  sv_json :: "string \<Rightarrow> raw"

text \<open>The method \<open>Fetch\<close> and the source after it; \<open>None\<close> if the fetch does not end.\<close>

fun any_Fetch :: "srcEnv \<Rightarrow> servers \<Rightarrow> anySource \<Rightarrow> (anySource \<times> (src_err + RawJob list)) option" where
  "any_Fetch env sv (SKalibrr k) = map_option (Pair (SKalibrr k)) (kalibrr_Fetch env (sv_get sv) k)"
| "any_Fetch env sv (SJooble j) = Some (SJooble j, jooble_Fetch env (sv_jooble sv) j)"
| "any_Fetch env sv (SCareerjet c) = Some (SCareerjet c, careerjet_Fetch env (sv_careerjet sv) c)"
| "any_Fetch env sv (SATS a) = (case ats_Fetch env (sv_json sv) (sv_ats sv (at_endpoint a)) a of (a', r) \<Rightarrow> Some (SATS a', r))"
| "any_Fetch env sv (SWorkday w) = Some (SWorkday w, workday_Fetch (sv_workday sv) w)"
| "any_Fetch env sv (SSmartRecruiters s) = Some (SSmartRecruiters s, smartRecruiters_Fetch env (sv_get sv) s)"
| "any_Fetch env sv (SRemotive r) = Some (SRemotive r, remotive_Fetch env (sv_get sv) r)"
| "any_Fetch env sv (SJobicy r) = Some (SJobicy r, jobicy_Fetch env (sv_get sv) r)"
| "any_Fetch env sv (SRemoteOK r) = Some (SRemoteOK r, remoteOK_Fetch env (sv_get sv) r)"

end
