(* ===== verification/App.thy ===== *)
theory App
  imports Api Ingest_Control Ingest_Sources Auth_Props CV_Service Profile_Service Account M5_Service Feed
begin

text \<open>
  The server process (\<open>cmd/api/main.go\<close>): its environment variables, the choice of storage,
  the registration gate, and the mounts behind which each service's routes are reached.
  An environment is a function from names to values, empty when unset.
\<close>

type_synonym environ = "string \<Rightarrow> string"

section \<open>Configuration\<close>

definition intEnv :: "environ \<Rightarrow> string \<Rightarrow> int \<Rightarrow> int" where
  "intEnv env name def =
     (let v = env name in
      if v \<noteq> [] then (case parse_int64 v of Some n \<Rightarrow> n | None \<Rightarrow> def) else def)"

definition boolEnv :: "environ \<Rightarrow> string \<Rightarrow> bool \<Rightarrow> bool" where
  "boolEnv env name def =
     (let v = env name in
      if v \<noteq> [] then (case parse_bool v of Some b \<Rightarrow> b | None \<Rightarrow> def) else def)"

text \<open>\<open>time.ParseDuration\<close> is the argument \<open>parse\<close>.\<close>

definition durEnv :: "(string \<Rightarrow> duration option) \<Rightarrow> environ \<Rightarrow> string \<Rightarrow> duration \<Rightarrow> duration" where
  "durEnv parse env name def =
     (let v = env name in
      if v \<noteq> [] then (case parse v of Some d \<Rightarrow> d | None \<Rightarrow> def) else def)"

fun hex_decode :: "string \<Rightarrow> string option" where
  "hex_decode [] = Some []"
| "hex_decode [c] = None"
| "hex_decode (a # b # s) =
     (case (hex_val a, hex_val b, hex_decode s) of
        (Some x, Some y, Some t) \<Rightarrow> Some (char_of (nat (16 * x + y)) # t)
      | _ \<Rightarrow> None)"

datatype cvKey = ConfiguredKey string | EphemeralKey string

fun keyBytes :: "cvKey \<Rightarrow> string" where
  "keyBytes (ConfiguredKey k) = k"
| "keyBytes (EphemeralKey k) = k"

text \<open>\<open>rand\<close> is what \<open>rand.Read\<close> fills the 32 bytes with, or its failure.\<close>

definition decodeCVKey :: "environ \<Rightarrow> string option \<Rightarrow> bool \<Rightarrow> string + cvKey" where
  "decodeCVKey env rand required =
     (let hexKey = env ''CV_ENCRYPTION_KEY'' in
      if hexKey \<noteq> [] then
        (case hex_decode hexKey of
           None \<Rightarrow> Inl ''CV_ENCRYPTION_KEY must be 64 hex chars (32 bytes)''
         | Some key \<Rightarrow> if length key \<noteq> 32 then Inl ''CV_ENCRYPTION_KEY must be 64 hex chars (32 bytes)''
                       else Inr (ConfiguredKey key))
      else if required then Inl ''CV_ENCRYPTION_KEY is required with persistent object storage''
      else (case rand of None \<Rightarrow> Inl ''generate cv key'' | Some key \<Rightarrow> Inr (EphemeralKey key)))"

record S3Config =
  s3_Endpoint :: string
  s3_AccessKey :: string
  s3_SecretKey :: string
  s3_Bucket :: string
  s3_UseTLS :: bool

text \<open>The store under the encryption: in memory, or an S3 bucket reached by \<open>connect\<close>.\<close>

datatype cvBackend = MemoryBackend | S3Backend S3Config

definition S3Config_ok :: "S3Config \<Rightarrow> bool" where
  "S3Config_ok cfg = (\<not> (s3_Endpoint cfg = [] \<or> s3_AccessKey cfg = [] \<or> s3_SecretKey cfg = [] \<or> s3_Bucket cfg = []))"

definition newCVStore :: "environ \<Rightarrow> string option \<Rightarrow> (S3Config \<Rightarrow> bool) \<Rightarrow> string + cvBackend \<times> cvKey" where
  "newCVStore env rand connect =
     (let endpoint = env ''S3_ENDPOINT'' in
      if endpoint = [] then
        (if env ''DATABASE_URL'' \<noteq> [] then Inl ''S3_ENDPOINT is required when DATABASE_URL is set''
         else (case decodeCVKey env rand False of Inl e \<Rightarrow> Inl e | Inr key \<Rightarrow> Inr (MemoryBackend, key)))
      else (case decodeCVKey env rand True of
        Inl e \<Rightarrow> Inl e
      | Inr key \<Rightarrow>
          (let cfg = \<lparr>s3_Endpoint = endpoint, s3_AccessKey = env ''S3_ACCESS_KEY'', s3_SecretKey = env ''S3_SECRET_KEY'',
                      s3_Bucket = env ''S3_BUCKET'', s3_UseTLS = boolEnv env ''S3_USE_TLS'' True\<rparr>
           in if \<not> S3Config_ok cfg then Inl ''storage: S3 endpoint, credentials, and bucket are required''
              else if connect cfg then Inr (S3Backend cfg, key) else Inl ''storage: create S3 client'')))"

definition ingestQueueConfig :: "(string \<Rightarrow> duration option) \<Rightarrow> environ \<Rightarrow> queueConfig option" where
  "ingestQueueConfig parse env =
     (let cfg = \<lparr>qc_IngestInterval = durEnv parse env ''INGEST_INTERVAL'' (hours 6),
                 qc_SweepInterval = durEnv parse env ''SWEEP_INTERVAL'' (hours 1),
                 qc_StaleAfter = durEnv parse env ''STALE_AFTER'' StaleAfter, qc_RunOnStart = False\<rparr>
      in if \<not> queue_Validate cfg then None else Some cfg)"

text \<open>The sources of the recurring passes: Jooble has a lifetime quota and is not among them.\<close>

definition DefaultCount :: int where
  "DefaultCount = 5000"

definition queue_sources :: "environ \<Rightarrow> SourceConfig" where
  "queue_sources env =
     \<lparr>sg_KalibrrLimit = intEnv env ''KALIBRR_LIMIT'' DefaultCount, sg_JoobleAPIKey = env ''JOOBLE_API_KEY'',
      sg_JoobleLimit = intEnv env ''JOOBLE_LIMIT'' DefaultCount, sg_JoobleBackfill = False,
      sg_CareerjetAffid = env ''CAREERJET_AFFID'', sg_CareerjetLimit = intEnv env ''CAREERJET_LIMIT'' DefaultCount,
      sg_ATSEnabled = boolEnv env ''ATS_PUBLIC_ENABLED'' True, sg_ATSSlugs = [], sg_WorkdayCompanies = None,
      sg_SmartRecruitersCompanies = None, sg_RemoteEnabled = boolEnv env ''REMOTE_SOURCES_ENABLED'' True,
      sg_RemoteLimit = intEnv env ''REMOTE_LIMIT'' 100\<rparr>"

text \<open>
  Without a database there is no queue, \<open>Inr None\<close>; with one, its registry and periodic jobs.
  \<open>files\<close> are the embedded catalogs.
\<close>

definition startIngestQueue ::
  "(string \<Rightarrow> duration option) \<Rightarrow> environ \<Rightarrow> (string \<Rightarrow> raw) \<Rightarrow> bool \<Rightarrow> string + (registry \<times> periodicJob list) option" where
  "startIngestQueue parse env files pool =
     (if \<not> pool then Inr None
      else (let reg = BuildRegistry files (queue_sources env) in
        case ingestQueueConfig parse env of
          None \<Rightarrow> Inl ''queue configuration''
        | Some cfg \<Rightarrow> (case queue_Start cfg of None \<Rightarrow> Inl ''queue start'' | Some jobs \<Rightarrow> Inr (Some (reg, jobs)))))"

section \<open>The registration gate\<close>

text \<open>
  Whether a request passes the gate, which looks at the decoded path; \<open>jobs\<close> is \<open>None\<close> without
  a counter.
\<close>

definition url_path :: "string \<Rightarrow> string" where
  "url_path escaped = (case path_unescape escaped of Some p \<Rightarrow> p | None \<Rightarrow> escaped)"

definition registrationGate :: "environ \<Rightarrow> ('e + int) option \<Rightarrow> string \<Rightarrow> string \<Rightarrow> bool" where
  "registrationGate env jobs meth path =
     (if meth \<noteq> ''POST'' \<or> path \<noteq> ''/auth/register'' then True
      else (case jobs of
        None \<Rightarrow> boolEnv env ''AUTH_DEV_ALLOW_IN_MEMORY_REGISTRATION'' False \<and> boolEnv env ''AUTH_DEV_EXPOSE_TOKENS'' False
      | Some (Inl e) \<Rightarrow> False
      | Some (Inr cnt) \<Rightarrow> \<not> cnt < DefaultCount))"

section \<open>The mounts\<close>

datatype appMount = MHealth | MAuth | MCV | MProfile | MAccount | MFeed | MTelemetry | MSeeker | MIngest

definition app_mounts :: "appMount Mount list" where
  "app_mounts = map (\<lambda>(p, h). \<lparr>mt_Pattern = p, mt_Handler = Some h\<rparr>)
     [(''/cv'', MCV), (''/profile'', MProfile), (''/profile/'', MProfile), (''/account'', MAccount), (''/account/'', MAccount),
      (''/feed'', MFeed), (''/telemetry/'', MTelemetry), (''/saved-filters'', MSeeker), (''/saved-filters/'', MSeeker),
      (''/jobs/'', MSeeker), (''/applications'', MSeeker), (''/applications/'', MSeeker), (''/snippets'', MSeeker),
      (''/snippets/'', MSeeker), (''/ingest/'', MIngest)]"

definition app_router :: "appMount mux" where
  "app_router = NewRouter MHealth (Some MAuth) app_mounts"

text \<open>
  Where a request ends: refused with a status by a router or a guard, or in the handler of a
  route, with the values of its wildcards and the user in its context.
\<close>

datatype served = Refused nat | Endpoint string "(string \<times> string) list" "user option"

definition serveRoutes :: "string list \<Rightarrow> string \<Rightarrow> string \<Rightarrow> user option \<Rightarrow> served" where
  "serveRoutes routes meth path ctx =
     (case mux_serve (map (\<lambda>r. (r, r)) routes) meth path of
        MuxFound r vars \<Rightarrow> Endpoint r vars ctx
      | MuxRedirect \<Rightarrow> Refused 301
      | MuxNotAllowed \<Rightarrow> Refused 405
      | MuxNotFound \<Rightarrow> Refused 404)"

definition gated :: "authResp + user \<Rightarrow> string list \<Rightarrow> string \<Rightarrow> string \<Rightarrow> served" where
  "gated guard routes meth path =
     (case guard of Inl resp \<Rightarrow> Refused (ap_status resp) | Inr u \<Rightarrow> serveRoutes routes meth path (Some u))"

text \<open>The routes of the accounts service; the flagged ones sit behind the guard of their own.\<close>

definition serveAuth :: "authConfig \<Rightarrow> authResp + user \<Rightarrow> string \<Rightarrow> string \<Rightarrow> served" where
  "serveAuth cfg guard meth path =
     (case mux_serve (map (\<lambda>(r, g). (r, (r, g))) (auth_Routes cfg)) meth path of
        MuxFound (r, g) vars \<Rightarrow>
          if g then (case guard of Inl resp \<Rightarrow> Refused (ap_status resp) | Inr u \<Rightarrow> Endpoint r vars (Some u))
          else Endpoint r vars None
      | MuxRedirect \<Rightarrow> Refused 301
      | MuxNotAllowed \<Rightarrow> Refused 405
      | MuxNotFound \<Rightarrow> Refused 404)"

record appReq =
  apr_method :: string
  apr_path :: string
  apr_transport :: transport
  apr_auth :: authReq

definition serveMount ::
  "environ \<Rightarrow> authConfig \<Rightarrow> ('e + int) option \<Rightarrow> authResp + user \<Rightarrow> user option \<Rightarrow> appReq \<Rightarrow> appMount \<Rightarrow> served" where
  "serveMount env cfg jobs guard optional r m =
     (let meth = apr_method r; path = apr_path r in
      case m of
        MHealth \<Rightarrow> Endpoint ''GET /healthz'' [] None
      | MAuth \<Rightarrow> if registrationGate env jobs meth (url_path path) then serveAuth cfg guard meth path else Refused 503
      | MCV \<Rightarrow> gated guard (cv_Routes True) meth path
      | MProfile \<Rightarrow> gated guard prof_Routes meth path
      | MAccount \<Rightarrow> gated guard acct_Routes meth path
      | MFeed \<Rightarrow> serveRoutes feed_Routes meth path optional
      | MTelemetry \<Rightarrow> serveRoutes telemetry_Routes meth path None
      | MSeeker \<Rightarrow> gated guard m5_Routes meth path
      | MIngest \<Rightarrow> serveRoutes ctl_Routes meth path None)"

definition appSecurity :: "environ \<Rightarrow> SecurityConfig" where
  "appSecurity env = \<lparr>sec_EnforceHTTPS = boolEnv env ''ENFORCE_HTTPS'' False,
     sec_TrustForwardedProto = (intEnv env ''TRUSTED_PROXY_HOPS'' 0 > 0), sec_HSTSMaxAge = 0\<rparr>"

definition serveApp ::
  "environ \<Rightarrow> 's authRepo \<Rightarrow> authConfig \<Rightarrow> authEnv \<Rightarrow> 's \<Rightarrow> ('e + int) option \<Rightarrow> appReq \<Rightarrow> string option \<times> served" where
  "serveApp env R cfg aenv s jobs r =
     RequireHTTPS (Refused 403)
       (case mux_serve app_router (apr_method r) (apr_path r) of
          MuxFound m vars \<Rightarrow> serveMount env cfg jobs (RequireVerified R aenv s (apr_auth r)) (OptionalVerified R aenv s (apr_auth r)) r m
        | MuxRedirect \<Rightarrow> Refused 301
        | MuxNotAllowed \<Rightarrow> Refused 405
        | MuxNotFound \<Rightarrow> Refused 404)
       (appSecurity env) (apr_transport r)"

end
