(* ===== verification/Ingest_SourceProps.thy ===== *)
theory Ingest_SourceProps
  imports Ingest_Sources
begin

text \<open>
  What the listing sources promise: fetches end, return no more than configured, and read a
  well-behaved board exactly; which sources a configuration registers; and two ways in which
  an answer is misread.
\<close>

section \<open>Kalibrr\<close>

text \<open>
  A board that ends: from some offset on a page is empty, or the count it states is passed.
\<close>

definition finite_board :: "(request \<Rightarrow> reply) \<Rightarrow> kalibrrSource \<Rightarrow> int \<Rightarrow> bool" where
  "finite_board server k N \<longleftrightarrow> (\<forall>limit offset body. N \<le> offset \<longrightarrow> kalibrr_fetchPage server k limit offset = Inr body \<longrightarrow>
     kr_Jobs body = [] \<or> 0 < kr_Count body \<and> kr_Count body \<le> N)"

lemma kalibrr_loop_ends:
  assumes "finite_board server k N"
  shows "kalibrr_loop env server k offset jobs \<noteq> None"
proof (induction "nat (N - offset)" arbitrary: offset jobs rule: less_induct)
  case less
  show ?case
  proof (cases "int (length jobs) < ka_limit k")
    case False
    then show ?thesis by (subst kalibrr_loop.simps) simp
  next
    case True
    let ?l = "min (ka_limit k - int (length jobs)) kalibrrPageSize"
    have l: "0 < ?l" using True by (simp add: kalibrrPageSize_def)
    show ?thesis
    proof (cases "kalibrr_fetchPage server k ?l offset")
      case (Inl e)
      then show ?thesis using True by (subst kalibrr_loop.simps) simp
    next
      case (Inr body)
      let ?n = "int (length (kr_Jobs body))"
      let ?jobs = "append_until kalibrr_ok (kalibrr_toRaw env k) (ka_limit k) (kr_Jobs body) jobs"
      have unf: "kalibrr_loop env server k offset jobs =
          (if ?n = 0 \<or> ?n < ?l then Some (Inr ?jobs)
           else if kr_Count body > 0 \<and> offset + ?n \<ge> kr_Count body then Some (Inr ?jobs)
           else kalibrr_loop env server k (offset + ?n) ?jobs)"
        using True Inr by (subst kalibrr_loop.simps) (simp add: Let_def)
      show ?thesis
      proof (cases "N \<le> offset")
        case True
        then have "kr_Jobs body = [] \<or> 0 < kr_Count body \<and> kr_Count body \<le> N"
          using assms Inr unfolding finite_board_def by blast
        then show ?thesis unfolding unf using True by auto
      next
        case False
        have "?n = 0 \<or> ?n < ?l \<or> nat (N - (offset + ?n)) < nat (N - offset)" using l False by linarith
        then show ?thesis unfolding unf using less by auto
      qed
    qed
  qed
qed

text \<open>A server that never runs out of listings without a name keeps the loop going.\<close>

definition nameless_board :: "(request \<Rightarrow> reply) \<Rightarrow> kalibrrSource \<Rightarrow> bool" where
  "nameless_board server k \<longleftrightarrow> (\<forall>limit offset. \<exists>body. kalibrr_fetchPage server k limit offset = Inr body \<and> kr_Count body = 0 \<and>
     kalibrrPageSize \<le> int (length (kr_Jobs body)) \<and> filter kalibrr_ok (kr_Jobs body) = [])"

lemma kalibrr_loop_runs:
  assumes "kalibrr_loop env server k offset jobs = Some r" "nameless_board server k" "0 < ka_limit k" "jobs = []"
  shows False
proof -
  have "nameless_board server k \<longrightarrow> 0 < ka_limit k \<longrightarrow> jobs = [] \<longrightarrow> False"
  proof (rule kalibrr_loop.raw_induct [where P = "\<lambda>env server k offset jobs r. nameless_board server k \<longrightarrow> 0 < ka_limit k \<longrightarrow>
      jobs = [] \<longrightarrow> False", OF _ assms(1)], intro impI)
    fix loop env server k offset jobs and r :: "src_err + RawJob list"
    assume IH: "\<And>env server k offset jobs r. loop env server k offset jobs = Some r \<Longrightarrow>
        nameless_board server k \<longrightarrow> 0 < ka_limit k \<longrightarrow> jobs = [] \<longrightarrow> False"
      and body: "(if \<not> int (length jobs) < ka_limit k then Some (Inr jobs)
        else let pageLimit = min (ka_limit k - int (length jobs)) kalibrrPageSize in
          case kalibrr_fetchPage server k pageLimit offset of Inl e \<Rightarrow> Some (Inl e)
          | Inr body \<Rightarrow> let jobs' = append_until kalibrr_ok (kalibrr_toRaw env k) (ka_limit k) (kr_Jobs body) jobs;
                            pageLength = int (length (kr_Jobs body)); offset' = offset + pageLength
                        in if pageLength = 0 \<or> pageLength < pageLimit then Some (Inr jobs')
                           else if 0 < kr_Count body \<and> kr_Count body \<le> offset' then Some (Inr jobs')
                           else loop env server k offset' jobs') = Some r"
      and h: "nameless_board server k" "0 < ka_limit k" "jobs = []"
    obtain body where b: "kalibrr_fetchPage server k (min (ka_limit k) kalibrrPageSize) offset = Inr body" "kr_Count body = 0"
      "kalibrrPageSize \<le> int (length (kr_Jobs body))" "filter kalibrr_ok (kr_Jobs body) = []"
      using h(1) unfolding nameless_board_def by meson
    have "append_until kalibrr_ok (kalibrr_toRaw env k) (ka_limit k) (kr_Jobs body) [] = []"
      using h(2) b(4) by (subst append_until_take) simp_all
    then have "loop env server k (offset + int (length (kr_Jobs body))) [] = Some r"
      using body b h(2) unfolding h(3) by (simp add: Let_def kalibrrPageSize_def split: if_splits)
    then show False using IH h(1,2) by blast
  qed
  then show ?thesis using assms by blast
qed

lemma kalibrr_may_not_end:
  "nameless_board server k \<Longrightarrow> 0 < ka_limit k \<Longrightarrow> kalibrr_Fetch env server k = None"
  unfolding kalibrr_Fetch_def using kalibrr_loop_runs by fastforce

lemma short_page:
  "0 < l \<Longrightarrow> length (take (nat l) (drop n xs)) = 0 \<or> int (length (take (nat l) (drop n xs))) < l \<Longrightarrow>
   length xs \<le> n + length (take (nat l) (drop n xs))"
  by (cases "length xs - n \<le> nat l") (auto simp: min_def)

lemma kalibrr_loop_reads:
  assumes honest: "\<And>l off. 0 < l \<Longrightarrow> 0 \<le> off \<Longrightarrow>
      kalibrr_fetchPage server k l off = Inr \<lparr>kr_Count = int (length board), kr_Jobs = take (nat l) (drop (nat off) board)\<rparr>"
    and n: "n \<le> length board" "jobs = map (kalibrr_toRaw env k) (filter kalibrr_ok (take n board))" "int (length jobs) \<le> ka_limit k"
    and "0 < ka_limit k"
  shows "kalibrr_loop env server k (int n) jobs = Some (Inr (map (kalibrr_toRaw env k) (take (nat (ka_limit k)) (filter kalibrr_ok board))))"
  using n
proof (induction "length board - n" arbitrary: n jobs rule: less_induct)
  case less
  let ?all = "map (kalibrr_toRaw env k) (take (nat (ka_limit k)) (filter kalibrr_ok board))"
  have split: "filter kalibrr_ok board = filter kalibrr_ok (take m board) @ filter kalibrr_ok (drop m board)" for m
    by (simp add: filter_append [symmetric])
  have full: "map (kalibrr_toRaw env k) (filter kalibrr_ok (take m board)) = ?all"
    if "length (filter kalibrr_ok (take m board)) = nat (ka_limit k)" for m
    using that by (subst split [of m]) simp
  have last: "map (kalibrr_toRaw env k) (filter kalibrr_ok (take m board)) = ?all"
    if "length board \<le> m" "length (filter kalibrr_ok (take m board)) \<le> nat (ka_limit k)" for m
    using that by simp
  show ?case
  proof (cases "int (length jobs) < ka_limit k")
    case False
    then have "length (filter kalibrr_ok (take n board)) = nat (ka_limit k)" using less.prems by simp
    then show ?thesis using False full [of n] less.prems(2) by (subst kalibrr_loop.simps) simp
  next
    case True
    let ?l = "min (ka_limit k - int (length jobs)) kalibrrPageSize"
    let ?page = "take (nat ?l) (drop n board)"
    let ?m = "n + length ?page"
    have l: "0 < ?l" using True by (simp add: kalibrrPageSize_def)
    note fetch = honest [OF l, of "int n", simplified nat_int of_nat_0_le_iff simp_thms]
    have "take (length ?page) (drop n board) = ?page" by (metis append_eq_conv_conj append_take_drop_id)
    then have tk: "take ?m board = take n board @ ?page" unfolding take_add by simp
    have len: "length (filter kalibrr_ok ?page) \<le> nat (ka_limit k) - length jobs"
    proof -
      have "length (filter kalibrr_ok ?page) \<le> nat ?l" using length_filter_le [of kalibrr_ok ?page] by simp
      then show ?thesis using True by linarith
    qed
    let ?jobs = "map (kalibrr_toRaw env k) (filter kalibrr_ok (take ?m board))"
    have j: "append_until kalibrr_ok (kalibrr_toRaw env k) (ka_limit k) ?page jobs = ?jobs"
      using len unfolding append_until_take [OF True] tk by (simp add: less.prems(2))
    have jl: "int (length ?jobs) \<le> ka_limit k" using len True less.prems(2) unfolding tk by simp
    have unf: "kalibrr_loop env server k (int n) jobs =
        (if length ?page = 0 \<or> int (length ?page) < ?l then Some (Inr ?jobs)
         else if 0 < length board \<and> length board \<le> ?m then Some (Inr ?jobs)
         else kalibrr_loop env server k (int ?m) ?jobs)"
      using True fetch j by (subst kalibrr_loop.simps) (simp add: Let_def of_nat_add [symmetric] del: of_nat_add length_take)
    have m: "?m \<le> length board" using less.prems(1) by simp
    show ?thesis
    proof (cases "length ?page = 0 \<or> int (length ?page) < ?l \<or> length board \<le> ?m")
      case True
      then have "length board \<le> ?m" using short_page [OF l, of n board] by blast
      then have "?jobs = ?all" using last [of ?m] jl by simp
      then show ?thesis using True unf \<open>length board \<le> ?m\<close> l by auto
    next
      case False
      then have "length board - ?m < length board - n" using m by linarith
      note rest = less.hyps [OF this m refl jl]
      have "\<not> (length ?page = 0 \<or> int (length ?page) < ?l)" "\<not> (0 < length board \<and> length board \<le> ?m)" using False by blast+
      then show ?thesis unfolding unf by (simp only: if_False rest)
    qed
  qed
qed

section \<open>No more than configured\<close>

definition within :: "int \<Rightarrow> RawJob list \<Rightarrow> bool" where
  "within limit jobs \<longleftrightarrow> int (length jobs) \<le> limit \<and> list_all (\<lambda>r. \<not> rj_Synthetic r) jobs"

lemma within_append_until:
  assumes "within limit jobs" "int (length jobs) < limit" "\<And>x. \<not> rj_Synthetic (f x)"
  shows "within limit (append_until ok f limit xs jobs)"
  using append_until_length [OF assms(2), of ok f xs] append_until_set [OF assms(2), of ok f xs] assms(1,3)
  by (auto simp: within_def list_all_iff)

lemma real_raws [simp]:
  "\<not> rj_Synthetic (jooble_toRaw env j r)" "\<not> rj_Synthetic (careerjet_toRaw env c q)" "\<not> rj_Synthetic (kalibrr_toRaw env k p)"
  "\<not> rj_Synthetic (smartRecruiters_raw env s x)" "\<not> rj_Synthetic (workday_raw w y)" "\<not> rj_Synthetic (remotiveRaw env m rv)"
  "\<not> rj_Synthetic (jobicyRaw env m jb)" "\<not> rj_Synthetic (remoteOKRaw env m ok)" "\<not> rj_Synthetic (greenhouseRaw env a gh)"
  "\<not> rj_Synthetic (leverRaw env a lv)" "\<not> rj_Synthetic (workableRaw env a name wk)" "\<not> rj_Synthetic (ashbyRaw env a ab)"
  by (simp_all add: jooble_toRaw_def careerjet_toRaw_def kalibrr_toRaw_def smartRecruiters_raw_def workday_raw_def remotiveRaw_def
      jobicyRaw_def remoteOKRaw_def greenhouseRaw_def leverRaw_def workableRaw_def ashbyRaw_def zeroRaw_def Let_def split: prod.split)

lemma jooble_loop_limit:
  assumes "jooble_loop env server j page seen pageSize jobs0 = Inr jobs" "within (jo_limit j) jobs0"
  shows "within (jo_limit j) jobs"
  using assms
proof (induction env server j page seen pageSize jobs0 rule: jooble_loop.induct)
  case (1 env server j page seen pageSize0 jobs0)
  show ?case
  proof (cases "\<not> (int (length jobs0) < jo_limit j \<and> seen < jo_limit j)")
    case True
    have "jooble_loop env server j page seen pageSize0 jobs0 = Inr jobs0"
      by (subst jooble_loop.simps) (simp only: True if_True simp_thms)
    then show ?thesis using 1(2,3) by simp
  next
    case False
    then have lt: "int (length jobs0) < jo_limit j" by blast
    show ?thesis
    proof (cases "jooble_fetchPage server j page")
      case (Inl e)
      then show ?thesis using 1(2) False by (subst (asm) jooble_loop.simps) simp
    next
      case (Inr body)
      have b: "within (jo_limit j) (append_until jooble_ok (jooble_toRaw env j) (jo_limit j) (jr_Jobs body) jobs0)"
        by (rule within_append_until [OF 1(3) lt]) simp
      show ?thesis
        using 1(2) False b unfolding jooble_loop.simps [of env server j page seen pageSize0 jobs0] Inr sum.case Let_def if_not_P [OF False]
        by (auto split: if_splits intro: 1(1) [OF False Inr refl refl refl refl])
    qed
  qed
qed

lemma careerjet_loop_limit:
  assumes "careerjet_loop env server c pageSize maxPages page jobs0 = Inr jobs" "within (cj_limit c) jobs0"
  shows "within (cj_limit c) jobs"
  using assms
proof (induction env server c pageSize maxPages page jobs0 rule: careerjet_loop.induct)
  case (1 env server c pageSize maxPages page jobs0)
  show ?case
  proof (cases "\<not> (int (length jobs0) < cj_limit c \<and> page \<le> maxPages)")
    case True
    have "careerjet_loop env server c pageSize maxPages page jobs0 = Inr jobs0"
      by (subst careerjet_loop.simps) (simp only: True if_True simp_thms)
    then show ?thesis using 1(2,3) by simp
  next
    case False
    then have lt: "int (length jobs0) < cj_limit c" by blast
    show ?thesis
    proof (cases "careerjet_fetchPage server c page pageSize")
      case (Inl e)
      then show ?thesis using 1(2) False by (subst (asm) careerjet_loop.simps) simp
    next
      case (Inr body)
      have b: "within (cj_limit c) (append_until careerjet_ok (careerjet_toRaw env c) (cj_limit c) (ce_Jobs body) jobs0)"
        by (rule within_append_until [OF 1(3) lt]) simp
      show ?thesis
        using 1(2) False b unfolding careerjet_loop.simps [of env server c pageSize maxPages page jobs0] Inr sum.case Let_def if_not_P [OF False]
        by (auto split: if_splits intro: 1(1) [OF False Inr refl])
    qed
  qed
qed

lemma kalibrr_loop_limit:
  assumes "kalibrr_loop env server k offset jobs0 = Some r"
  shows "within (ka_limit k) jobs0 \<longrightarrow> r = Inr jobs \<longrightarrow> within (ka_limit k) jobs"
proof (rule kalibrr_loop.raw_induct [where P = "\<lambda>env server k offset jobs0 r. within (ka_limit k) jobs0 \<longrightarrow>
    r = Inr jobs \<longrightarrow> within (ka_limit k) jobs", OF _ assms], intro impI)
  fix loop env server k offset jobs0 and r :: "src_err + RawJob list"
  assume IH: "\<And>env server k offset jobs0 r. loop env server k offset jobs0 = Some r \<Longrightarrow>
      within (ka_limit k) jobs0 \<longrightarrow> r = Inr jobs \<longrightarrow> within (ka_limit k) jobs"
    and body: "(if \<not> int (length jobs0) < ka_limit k then Some (Inr jobs0)
      else let pageLimit = min (ka_limit k - int (length jobs0)) kalibrrPageSize in
        case kalibrr_fetchPage server k pageLimit offset of Inl e \<Rightarrow> Some (Inl e)
        | Inr body \<Rightarrow> let jobs' = append_until kalibrr_ok (kalibrr_toRaw env k) (ka_limit k) (kr_Jobs body) jobs0;
                          pageLength = int (length (kr_Jobs body)); offset' = offset + pageLength
                      in if pageLength = 0 \<or> pageLength < pageLimit then Some (Inr jobs')
                         else if 0 < kr_Count body \<and> kr_Count body \<le> offset' then Some (Inr jobs')
                         else loop env server k offset' jobs') = Some r"
    and h: "within (ka_limit k) jobs0" "r = Inr jobs"
  show "within (ka_limit k) jobs"
  proof (cases "int (length jobs0) < ka_limit k")
    case False
    then show ?thesis using body h by simp
  next
    case True
    note lt = True
    show ?thesis
    proof (cases "kalibrr_fetchPage server k (min (ka_limit k - int (length jobs0)) kalibrrPageSize) offset")
      case (Inl e)
      then show ?thesis using body h True by simp
    next
      case (Inr pg)
      have b: "within (ka_limit k) (append_until kalibrr_ok (kalibrr_toRaw env k) (ka_limit k) (kr_Jobs pg) jobs0)"
        by (rule within_append_until [OF h(1) lt]) simp
      show ?thesis using body h True Inr IH [of env server k _ "append_until kalibrr_ok (kalibrr_toRaw env k) (ka_limit k) (kr_Jobs pg) jobs0" r] b
        by (auto simp: Let_def split: if_splits)
    qed
  qed
qed

section \<open>Boards read by offset\<close>

text \<open>
  SmartRecruiters and Workday read their boards with the same loop, over pages of a fixed size;
  the contract of a server is to return the board's postings from an offset on and its length.
\<close>

locale offset_paging =
  fixes loop :: "int \<Rightarrow> RawJob list \<Rightarrow> src_err + RawJob list"
    and fetch :: "int \<Rightarrow> src_err + int \<times> 'p list"
    and raw :: "'p \<Rightarrow> RawJob"
    and limit step :: int
  assumes step: "0 < step"
    and loop: "loop offset jobs0 =
      (if \<not> offset < limit then Inr jobs0
       else (case fetch offset of Inl e \<Rightarrow> Inl e
         | Inr (found, page) \<Rightarrow>
             (let jobs = jobs0 @ map raw page in
              if page = [] \<or> offset + step \<ge> found \<or> int (length jobs) \<ge> limit then Inr jobs
              else loop (offset + step) jobs)))"
begin

definition serves :: "'p list \<Rightarrow> bool" where
  "serves board \<longleftrightarrow> (\<forall>off. 0 \<le> off \<longrightarrow> fetch off = Inr (int (length board), take (nat step) (drop (nat off) board)))"

lemma loop_reads:
  assumes "serves board" "n \<le> length board" "n = 0 \<or> int n < limit"
  shows "\<exists>m. loop (int n) (map raw (take n board)) = Inr (map raw (take m board)) \<and> (length board \<le> m \<or> limit \<le> int m \<or> limit \<le> int n)"
  using assms(2,3)
proof (induction "length board - n" arbitrary: n rule: less_induct)
  case less
  show ?case
  proof (cases "int n < limit")
    case False
    then show ?thesis by (subst loop) auto
  next
    case True
    let ?page = "take (nat step) (drop n board)"
    have f: "fetch (int n) = Inr (int (length board), ?page)" using assms(1) unfolding serves_def by simp
    have tk: "take n board @ ?page = take (n + nat step) board" by (simp add: take_add)
    have len: "length (map raw (take n board) @ map raw ?page) = min (length board) (n + nat step)"
      unfolding map_append [symmetric] tk by simp
    have st: "int n + step = int (n + nat step)" using step by simp
    have unf: "loop (int n) (map raw (take n board)) =
        (if ?page = [] \<or> int (length board) \<le> int n + step \<or> limit \<le> int (min (length board) (n + nat step))
         then Inr (map raw (take (n + nat step) board)) else loop (int (n + nat step)) (map raw (take (n + nat step) board)))"
      using True by (subst loop) (simp only: f sum.case prod.case Let_def len not_not if_False simp_thms st,
          simp only: map_append [symmetric] tk)
    show ?thesis
    proof (cases "?page = [] \<or> int (length board) \<le> int n + step \<or> limit \<le> int (min (length board) (n + nat step))")
      case c: True
      then have "length board \<le> n + nat step \<or> limit \<le> int (n + nat step)" using step by auto
      then show ?thesis unfolding unf using c by (intro exI [of _ "n + nat step"]) auto
    next
      case c: False
      then have m: "n + nat step \<le> length board" "length board - (n + nat step) < length board - n" "int (n + nat step) < limit"
        using step by auto
      have "\<not> limit \<le> int (n + nat step)" using m(3) by linarith
      then show ?thesis using less.hyps [OF m(2,1)] m(3) unfolding unf if_not_P [OF c] by blast
    qed
  qed
qed

lemma loop_all:
  assumes "loop offset jobs0 = Inr jobs" "list_all P jobs0" "\<And>x. P (raw x)"
  shows "list_all P jobs"
  using assms(1,2)
proof (induction "nat (limit - offset)" arbitrary: offset jobs0 rule: less_induct)
  case less
  show ?case
  proof (cases "offset < limit")
    case False
    then show ?thesis using less.prems by (subst (asm) loop) simp
  next
    case True
    then obtain found page where f: "fetch offset = Inr (found, page)"
      using less.prems(1) by (subst (asm) loop) (auto split: sum.splits)
    have all: "list_all P (jobs0 @ map raw page)" using less.prems(2) assms(3) by (auto simp: list_all_iff)
    have "nat (limit - (offset + step)) < nat (limit - offset)" using True step by simp
    from less.hyps [OF this _ all] show ?thesis
      using less.prems(1) True all by (subst (asm) loop) (auto simp: f Let_def split: if_splits)
  qed
qed

lemma reads_board:
  assumes "serves board" "0 < limit"
  shows "\<exists>jobs. loop 0 [] = Inr jobs \<and> truncate_jobs limit jobs = map raw (take (nat limit) board)"
proof -
  obtain m where m: "loop 0 [] = Inr (map raw (take m board))" "length board \<le> m \<or> limit \<le> int m"
    using loop_reads [OF assms(1), of 0] assms(2) by auto
  have "truncate_jobs limit (map raw (take m board)) = map raw (take (nat limit) board)"
    using m(2) by (auto simp: truncate_jobs_def take_map [symmetric] min_def)
  then show ?thesis using m(1) by blast
qed

end

lemma truncate_jobs_length: "0 \<le> limit \<Longrightarrow> int (length (truncate_jobs limit jobs)) \<le> limit"
  by (simp add: truncate_jobs_def)

interpretation sr: offset_paging "smartRecruiters_loop env server s" "smartRecruiters_fetchPage server s" "smartRecruiters_raw env s"
  "ss_limit s" smartRecruitersPageSize for env server s
  by unfold_locales (simp add: smartRecruitersPageSize_def, rule smartRecruiters_loop.simps)

interpretation wd: offset_paging "workday_loop server w" "workday_fetchPage server w" "workday_raw w" "ws_limit w" workdayPageSize for server w
  by unfold_locales (simp add: workdayPageSize_def, rule workday_loop.simps)

section \<open>Registration\<close>

lemma register_all_order:
  assumes "\<forall>s \<in> set ss. src_Tier s \<in> {Tier1, Tier2} \<and> src_ID s \<noteq> []" "reg_inv reg"
  shows "set (rg_order (register_all reg ss)) = set (rg_order reg) \<union> src_ID ` set ss \<and>
    (\<forall>i. gget (rg_sources (register_all reg ss)) i =
      (case gget (rg_sources reg) i of Some s \<Rightarrow> Some s | None \<Rightarrow> find (\<lambda>s. src_ID s = i) ss))"
  using assms
proof (induction ss arbitrary: reg)
  case (Cons s ss)
  have inv: "reg_inv (fst (Register reg s))" using Cons.prems(2) reg_inv_Register by blast
  have dom: "set (rg_order reg) = dom (gget (rg_sources reg))" using Cons.prems(2) by (simp add: reg_inv_def)
  have s: "src_Tier s \<in> {Tier1, Tier2}" "src_ID s \<noteq> []" using Cons.prems(1) by simp_all
  note IH = Cons.IH [OF _ inv]
  show ?case
  proof (cases "gget (rg_sources reg) (src_ID s) = None")
    case True
    then have r: "fst (Register reg s) = reg\<lparr>rg_sources := gput (src_ID s) s (rg_sources reg), rg_order := rg_order reg @ [src_ID s]\<rparr>"
      using s by (auto simp: Register_def)
    show ?thesis using IH Cons.prems(1) True by (auto simp: r map_simps split: option.splits)
  next
    case False
    then have r: "fst (Register reg s) = reg" using s by (auto simp: Register_def)
    have "src_ID s \<in> set (rg_order reg)" using False dom by blast
    then show ?thesis using IH Cons.prems(1) False by (auto simp: r split: option.splits)
  qed
qed (auto split: option.split)

lemma any_source_ok: "src_Tier (any_source s) \<in> {Tier1, Tier2}"
  by (cases s) auto

lemma fixed_ids:
  "ka_id (NewKalibrrSource l) = ''kalibrr''" "jo_id (NewJoobleSourceWithLimit key l) = ''jooble''"
  "cj_id (NewCareerjetSourceWithLimit affid l) = ''careerjet''" "rm_id (NewRemotiveSource l) = ''remotive''"
  "rm_id (NewJobicySource l) = ''jobicy''" "rm_id (NewRemoteOKSource l) = ''remoteok''"
  by (simp_all add: NewKalibrrSource_def NewKalibrrSourceWithURL_def NewJoobleSourceWithLimit_def NewJoobleSourceWithURLAndLimit_def
      NewCareerjetSourceWithLimit_def NewCareerjetSourceWithURLAndLimit_def NewRemotiveSource_def NewJobicySource_def
      NewRemoteOKSource_def newRemoteSource_def)

lemma enabled_fixed_id:
  assumes "s \<in> set (enabled_sources files cfg)"
  shows "(\<forall>k. s = SKalibrr k \<longrightarrow> ka_id k = ''kalibrr'') \<and> (\<forall>j. s = SJooble j \<longrightarrow> jo_id j = ''jooble'') \<and>
    (\<forall>c. s = SCareerjet c \<longrightarrow> cj_id c = ''careerjet'') \<and> (\<forall>r. s = SRemotive r \<longrightarrow> rm_id r = ''remotive'') \<and>
    (\<forall>r. s = SJobicy r \<longrightarrow> rm_id r = ''jobicy'') \<and> (\<forall>r. s = SRemoteOK r \<longrightarrow> rm_id r = ''remoteok'')"
proof -
  have "\<forall>s \<in> set (ats_sources files cfg). (\<exists>a. s = SATS a) \<or> (\<exists>w. s = SWorkday w) \<or> (\<exists>r. s = SSmartRecruiters r)"
    by (auto simp: ats_sources_def)
  then show ?thesis using assms fixed_ids unfolding enabled_sources_def by (auto split: if_splits)
qed

lemma enabled_ids:
  assumes "s \<in> set (enabled_sources files cfg)"
  shows "src_ID (any_source s) \<noteq> [] \<and>
    (src_ID (any_source s) = ''kalibrr'' \<longleftrightarrow> (\<exists>k. s = SKalibrr k)) \<and>
    (src_ID (any_source s) = ''jooble'' \<longleftrightarrow> (\<exists>j. s = SJooble j)) \<and>
    (src_ID (any_source s) = ''careerjet'' \<longleftrightarrow> (\<exists>c. s = SCareerjet c))"
  using enabled_fixed_id [OF assms]
  by (cases s) (simp_all add: ats_ID_def workday_ID_def smartRecruiters_ID_def)

lemma reg_inv_New: "reg_inv NewRegistry"
  by (rule reg_reach_inv [OF reg_new])

lemma BuildRegistry_order:
  "set (rg_order (BuildRegistry files cfg)) = (src_ID \<circ> any_source) ` set (enabled_sources files cfg) \<and>
   gget (rg_sources (BuildRegistry files cfg)) i = find (\<lambda>s. src_ID s = i) (map any_source (enabled_sources files cfg))"
proof -
  have "\<forall>s \<in> set (map any_source (enabled_sources files cfg)). src_Tier s \<in> {Tier1, Tier2} \<and> src_ID s \<noteq> []"
    using any_source_ok enabled_ids by auto
  from register_all_order [OF this reg_inv_New] show ?thesis
    unfolding BuildRegistry_def by (auto simp: NewRegistry_def image_comp)
qed

lemma BuildRegistry_fixed:
  "''jooble'' \<in> set (rg_order (BuildRegistry files cfg)) \<longleftrightarrow> (\<exists>j. SJooble j \<in> set (enabled_sources files cfg))"
  "''careerjet'' \<in> set (rg_order (BuildRegistry files cfg)) \<longleftrightarrow> (\<exists>c. SCareerjet c \<in> set (enabled_sources files cfg))"
  "''kalibrr'' \<in> set (rg_order (BuildRegistry files cfg)) \<longleftrightarrow> (\<exists>k. SKalibrr k \<in> set (enabled_sources files cfg))"
proof -
  have o: "i \<in> set (rg_order (BuildRegistry files cfg)) \<longleftrightarrow> (\<exists>s \<in> set (enabled_sources files cfg). src_ID (any_source s) = i)" for i
    using BuildRegistry_order [of files cfg] by auto
  show "''jooble'' \<in> set (rg_order (BuildRegistry files cfg)) \<longleftrightarrow> (\<exists>j. SJooble j \<in> set (enabled_sources files cfg))"
    "''careerjet'' \<in> set (rg_order (BuildRegistry files cfg)) \<longleftrightarrow> (\<exists>c. SCareerjet c \<in> set (enabled_sources files cfg))"
    "''kalibrr'' \<in> set (rg_order (BuildRegistry files cfg)) \<longleftrightarrow> (\<exists>k. SKalibrr k \<in> set (enabled_sources files cfg))"
    unfolding o using enabled_ids by blast+
qed

lemma enabled_kinds:
  "(\<exists>j. SJooble j \<in> set (enabled_sources files cfg)) = (sg_JoobleBackfill cfg \<and> trim_space (sg_JoobleAPIKey cfg) \<noteq> [])"
  "(\<exists>c. SCareerjet c \<in> set (enabled_sources files cfg)) = (trim_space (sg_CareerjetAffid cfg) \<noteq> [])"
  "(\<exists>k. SKalibrr k \<in> set (enabled_sources files cfg)) = (0 < sg_KalibrrLimit cfg)"
proof -
  have no: "SJooble j \<notin> set (ats_sources files cfg) \<and> SCareerjet c \<notin> set (ats_sources files cfg) \<and> SKalibrr k \<notin> set (ats_sources files cfg)"
    for j c k by (auto simp: ats_sources_def)
  show "(\<exists>j. SJooble j \<in> set (enabled_sources files cfg)) = (sg_JoobleBackfill cfg \<and> trim_space (sg_JoobleAPIKey cfg) \<noteq> [])"
    "(\<exists>c. SCareerjet c \<in> set (enabled_sources files cfg)) = (trim_space (sg_CareerjetAffid cfg) \<noteq> [])"
    "(\<exists>k. SKalibrr k \<in> set (enabled_sources files cfg)) = (0 < sg_KalibrrLimit cfg)"
    using no by (auto simp: enabled_sources_def)
qed

lemmas BuildRegistry_jooble = BuildRegistry_fixed(1) [unfolded enabled_kinds]

text \<open>
  The registry of a configuration holds exactly its enabled sources, the first one under
  each id. Jooble is among them exactly when its backfill is asked for with a key, Careerjet
  exactly with an affiliate id and Kalibrr exactly with a positive limit.
\<close>

theorem sources_registered:
  "set (rg_order (BuildRegistry files cfg)) = (src_ID \<circ> any_source) ` set (enabled_sources files cfg) \<and>
   gget (rg_sources (BuildRegistry files cfg)) i = find (\<lambda>s. src_ID s = i) (map any_source (enabled_sources files cfg)) \<and>
   (''jooble'' \<in> set (rg_order (BuildRegistry files cfg))) = (sg_JoobleBackfill cfg \<and> trim_space (sg_JoobleAPIKey cfg) \<noteq> []) \<and>
   (''careerjet'' \<in> set (rg_order (BuildRegistry files cfg))) = (trim_space (sg_CareerjetAffid cfg) \<noteq> []) \<and>
   (''kalibrr'' \<in> set (rg_order (BuildRegistry files cfg))) = (0 < sg_KalibrrLimit cfg)"
  using BuildRegistry_order [of files cfg i] unfolding BuildRegistry_fixed enabled_kinds by blast

section \<open>Fetching\<close>

text \<open>
  C20: Every fetch of a pass ends, whatever the servers answer, except that Kalibrr's needs a
  board that ends: one whose pages are empty, or whose stated count is passed, from some
  offset on.
\<close>

theorem fetches_terminate:
  assumes "\<And>k. s = SKalibrr k \<Longrightarrow> \<exists>N. finite_board (sv_get sv) k N"
  shows "\<exists>s' r. any_Fetch env sv s = Some (s', r)"
proof (cases s)
  case (SKalibrr k)
  then obtain N where "finite_board (sv_get sv) k N" using assms by blast
  then show ?thesis using kalibrr_loop_ends [of "sv_get sv" k N env 0 "[]"] SKalibrr by (auto simp: kalibrr_Fetch_def)
qed (auto split: prod.splits)

definition sampleSrcEnv :: srcEnv where
  "sampleSrcEnv = \<lparr>se_html = \<lambda>s. Some (TextNode s), se_time = \<lambda>_ _. None,
     se_norm = \<lparr>ne_sha256 = \<lambda>s. s, ne_order = [], ne_big = 0\<rparr>\<rparr>"

text \<open>A Kalibrr server with one listing.\<close>

definition oneJobServer :: "request \<Rightarrow> reply" where
  "oneJobServer r = Reply 200 (Some (JObj [(''count'', JNum ''1''),
     (''jobs'', JArr (if map_of (snd r) ''offset'' = Some ''0'' then [JObj [(''name'', JStr ''Barista'')]] else []))]))"

definition oneJob :: kalibrrJob where
  "oneJob = zeroKalibrr\<lparr>kj_Name := ''Barista''\<rparr>"

definition sampleServers :: servers where
  "sampleServers = \<lparr>sv_get = oneJobServer, sv_jooble = \<lambda>_. NoReply, sv_careerjet = \<lambda>_. NoReply, sv_workday = \<lambda>_. NoReply,
     sv_ats = \<lambda>_ _. NetErr, sv_json = \<lambda>_. None\<rparr>"

lemma oneJob_page:
  "kalibrr_fetchPage oneJobServer (NewKalibrrSource 5) l off =
   Inr \<lparr>kr_Count = 1, kr_Jobs = (if itoa off = ''0'' then [oneJob] else [])\<rparr>"
proof -
  have u: "url_parse (ka_baseURL (NewKalibrrSource 5)) \<noteq> None" by code_simp
  have d: "kalibrrResponse_dec (JObj [(''count'', JNum ''1''), (''jobs'', JArr [JObj [(''name'', JStr ''Barista'')]])]) =
      Some \<lparr>kr_Count = 1, kr_Jobs = [oneJob]\<rparr>"
    "kalibrrResponse_dec (JObj [(''count'', JNum ''1''), (''jobs'', JArr [])]) = Some \<lparr>kr_Count = 1, kr_Jobs = []\<rparr>"
    by code_simp+
  show ?thesis using u
    by (cases "itoa off = ''0''") (simp_all add: kalibrr_fetchPage_def decode_reply_def fetchJSON_def oneJobServer_def d)
qed

lemma itoa_zero: "itoa off = ''0'' \<longleftrightarrow> off = 0"
proof -
  have "itoa 0 = ''0''" by code_simp
  then show ?thesis using itoa_inj [of off 0] by metis
qed

theorem fetches_terminate_witness:
  "\<exists>s' r. any_Fetch sampleSrcEnv sampleServers (SKalibrr (NewKalibrrSource 5)) = Some (s', r)"
proof (rule fetches_terminate)
  fix k assume "SKalibrr (NewKalibrrSource 5) = SKalibrr k"
  then have "finite_board (sv_get sampleServers) k 1"
    unfolding finite_board_def sampleServers_def by (auto simp: oneJob_page itoa_zero)
  then show "\<exists>N. finite_board (sv_get sampleServers) k N" ..
qed

text \<open>The most listings a source of a configuration may return; the boards of a company have no cap.\<close>

fun source_cap :: "SourceConfig \<Rightarrow> anySource \<Rightarrow> int option" where
  "source_cap cfg (SKalibrr _) = Some (sg_KalibrrLimit cfg)"
| "source_cap cfg (SJooble _) =
     (let l = (if sg_JoobleLimit cfg \<le> 0 then sg_KalibrrLimit cfg else sg_JoobleLimit cfg) in Some (if l \<le> 0 then 25 else l))"
| "source_cap cfg (SCareerjet _) = Some (if sg_CareerjetLimit cfg \<le> 0 then 25 else sg_CareerjetLimit cfg)"
| "source_cap cfg (SATS _) = None"
| "source_cap cfg (SWorkday _) = Some 100"
| "source_cap cfg (SSmartRecruiters _) = Some 100"
| "source_cap cfg (SRemotive _) = Some (if sg_RemoteLimit cfg \<le> 0 then 100 else sg_RemoteLimit cfg)"
| "source_cap cfg (SJobicy _) = Some (if sg_RemoteLimit cfg \<le> 0 then 100 else sg_RemoteLimit cfg)"
| "source_cap cfg (SRemoteOK _) = Some (if sg_RemoteLimit cfg \<le> 0 then 100 else sg_RemoteLimit cfg)"

lemma within_Nil: "0 < limit \<Longrightarrow> within limit []"
  by (simp add: within_def)

lemma within_truncate: "0 \<le> limit \<Longrightarrow> list_all (\<lambda>r. \<not> rj_Synthetic r) jobs \<Longrightarrow> within limit (truncate_jobs limit jobs)"
  by (auto simp: within_def truncate_jobs_def list_all_iff dest: in_set_takeD)

lemma within_remote: "0 < limit \<Longrightarrow> (\<And>x. \<not> rj_Synthetic (f x)) \<Longrightarrow> within limit (append_until ok f limit xs [])"
  by (rule within_append_until [OF within_Nil]) simp_all

lemma ats_Fetch_real:
  assumes "ats_Fetch env jparse server a = (a', Inr jobs)" "\<not> cs_hasCache (at_cache a)"
  shows "list_all (\<lambda>r. \<not> rj_Synthetic r) jobs"
proof -
  obtain body where "Option.bind (jparse body) (ats_decode env a) = Some jobs"
    using assms by (auto simp: ats_Fetch_def cond_fetch_def split: if_splits prod.splits sum.splits httpResp.splits option.splits)
  then obtain v where "ats_decode env a v = Some jobs" by (auto split: bind_splits)
  then show ?thesis by (auto simp: ats_decode_def list_all_iff split: if_splits prod.splits)
qed

lemma remote_Fetch_within:
  assumes "0 < rm_limit r"
  shows "remotive_Fetch env server r = Inr jobs \<Longrightarrow> within (rm_limit r) jobs"
    "jobicy_Fetch env server r = Inr jobs \<Longrightarrow> within (rm_limit r) jobs"
    "remoteOK_Fetch env server r = Inr jobs \<Longrightarrow> within (rm_limit r) jobs"
  by (auto simp: remotive_Fetch_def jobicy_Fetch_def remoteOK_Fetch_def intro!: within_remote [OF assms] split: if_splits sum.splits)

lemma kalibrr_Fetch_within: "kalibrr_Fetch env server k = Some (Inr jobs) \<Longrightarrow> 0 < ka_limit k \<Longrightarrow> within (ka_limit k) jobs"
  unfolding kalibrr_Fetch_def using kalibrr_loop_limit [of env server k 0 "[]" "Inr jobs" jobs] within_Nil by blast

lemma jooble_Fetch_within: "jooble_Fetch env server j = Inr jobs \<Longrightarrow> 0 < jo_limit j \<Longrightarrow> within (jo_limit j) jobs"
  unfolding jooble_Fetch_def by (simp add: jooble_loop_limit within_Nil split: if_splits)

lemma careerjet_Fetch_within: "careerjet_Fetch env server c = Inr jobs \<Longrightarrow> 0 < cj_limit c \<Longrightarrow> within (cj_limit c) jobs"
  unfolding careerjet_Fetch_def by (auto simp: Let_def intro: careerjet_loop_limit within_Nil split: if_splits)

lemma smartRecruiters_Fetch_within:
  assumes "smartRecruiters_Fetch env server s = Inr jobs" "0 < ss_limit s"
  shows "within (ss_limit s) jobs"
proof -
  obtain found where l: "smartRecruiters_loop env server s 0 [] = Inr found" "jobs = truncate_jobs (ss_limit s) found"
    using assms(1) by (auto simp: smartRecruiters_Fetch_def split: if_splits sum.splits)
  have "list_all (\<lambda>r. \<not> rj_Synthetic r) found" by (rule sr.loop_all [OF l(1)]) simp_all
  then show ?thesis using within_truncate assms(2) unfolding l(2) by simp
qed

lemma workday_Fetch_within:
  assumes "workday_Fetch server w = Inr jobs" "0 < ws_limit w"
  shows "within (ws_limit w) jobs"
proof -
  obtain found where l: "workday_loop server w 0 [] = Inr found" "jobs = truncate_jobs (ws_limit w) found"
    using assms(1) by (auto simp: workday_Fetch_def split: if_splits sum.splits)
  have "list_all (\<lambda>r. \<not> rj_Synthetic r) found" by (rule wd.loop_all [OF l(1)]) simp_all
  then show ?thesis using within_truncate assms(2) unfolding l(2) by simp
qed

lemma fixed_limits:
  "ka_limit (NewKalibrrSource l) = (if l \<le> 0 then 25 else l)" "jo_limit (NewJoobleSourceWithLimit key l) = (if l \<le> 0 then 25 else l)"
  "cj_limit (NewCareerjetSourceWithLimit affid l) = (if l \<le> 0 then 25 else l)" "rm_limit (NewRemotiveSource l) = (if l \<le> 0 then 100 else l)"
  "rm_limit (NewJobicySource l) = (if l \<le> 0 then 100 else l)" "rm_limit (NewRemoteOKSource l) = (if l \<le> 0 then 100 else l)"
  "ws_limit (NewWorkdaySource w) = 100" "ss_limit (NewSmartRecruitersSource c) = 100"
  by (simp_all add: NewKalibrrSource_def NewKalibrrSourceWithURL_def NewJoobleSourceWithLimit_def NewJoobleSourceWithURLAndLimit_def
      NewCareerjetSourceWithLimit_def NewCareerjetSourceWithURLAndLimit_def NewRemotiveSource_def NewJobicySource_def
      NewRemoteOKSource_def newRemoteSource_def NewWorkdaySource_def NewWorkdaySourceWithEndpoint_def NewSmartRecruitersSource_def
      NewSmartRecruitersSourceWithEndpoint_def joobleDefaultLimit_def careerjetDefaultLimit_def remoteDefaultLimit_def
      workdayDefaultLimit_def smartRecruitersDefaultLimit_def)

lemma enabled_limit:
  assumes "s \<in> set (enabled_sources files cfg)"
  shows "s = SKalibrr k \<Longrightarrow> source_cap cfg s = Some (ka_limit k) \<and> 0 < ka_limit k"
    "s = SJooble j \<Longrightarrow> source_cap cfg s = Some (jo_limit j) \<and> 0 < jo_limit j"
    "s = SCareerjet c \<Longrightarrow> source_cap cfg s = Some (cj_limit c) \<and> 0 < cj_limit c"
    "s = SWorkday w \<Longrightarrow> source_cap cfg s = Some (ws_limit w) \<and> 0 < ws_limit w"
    "s = SSmartRecruiters t \<Longrightarrow> source_cap cfg s = Some (ss_limit t) \<and> 0 < ss_limit t"
    "s = SRemotive r \<Longrightarrow> source_cap cfg s = Some (rm_limit r) \<and> 0 < rm_limit r"
    "s = SJobicy r \<Longrightarrow> source_cap cfg s = Some (rm_limit r) \<and> 0 < rm_limit r"
    "s = SRemoteOK r \<Longrightarrow> source_cap cfg s = Some (rm_limit r) \<and> 0 < rm_limit r"
    "s = SATS a \<Longrightarrow> \<not> cs_hasCache (at_cache a)"
  by (insert assms, auto simp: enabled_sources_def ats_sources_def fixed_limits Let_def NewATSSourceWithURL_def newConditionalStore_def split: if_splits)

text \<open>
  C19: A fetch of an enabled source returns at most as many listings as its configuration
  allows, page by page and whatever the servers answer, and none of them is marked synthetic,
  so that fetched listings always count towards the launch target.
\<close>

theorem fetch_within_limit:
  assumes "s \<in> set (enabled_sources files cfg)" "any_Fetch env sv s = Some (s', Inr jobs)"
  shows "list_all (\<lambda>r. \<not> rj_Synthetic r) jobs \<and>
    (case source_cap cfg s of None \<Rightarrow> True | Some n \<Rightarrow> int (length jobs) \<le> n)"
proof (cases s)
  case (SATS a)
  then show ?thesis using assms(2) enabled_limit(9) [OF assms(1) SATS] ats_Fetch_real by (auto split: prod.splits)
next
  case (SKalibrr k)
  note cap = enabled_limit(1) [OF assms(1) SKalibrr]
  have "within (ka_limit k) jobs" using assms(2) cap unfolding SKalibrr any_Fetch.simps by (intro kalibrr_Fetch_within) auto
  then show ?thesis using cap by (simp add: within_def)
next
  case (SJooble j)
  note cap = enabled_limit(2) [OF assms(1) SJooble]
  have "within (jo_limit j) jobs" using assms(2) cap unfolding SJooble any_Fetch.simps by (intro jooble_Fetch_within) auto
  then show ?thesis using cap by (simp add: within_def)
next
  case (SCareerjet c)
  note cap = enabled_limit(3) [OF assms(1) SCareerjet]
  have "within (cj_limit c) jobs" using assms(2) cap unfolding SCareerjet any_Fetch.simps by (intro careerjet_Fetch_within) auto
  then show ?thesis using cap by (simp add: within_def)
next
  case (SWorkday w)
  note cap = enabled_limit(4) [OF assms(1) SWorkday]
  have "within (ws_limit w) jobs" using assms(2) cap unfolding SWorkday any_Fetch.simps by (intro workday_Fetch_within) auto
  then show ?thesis using cap by (simp add: within_def)
next
  case (SSmartRecruiters t)
  note cap = enabled_limit(5) [OF assms(1) SSmartRecruiters]
  have "within (ss_limit t) jobs" using assms(2) cap unfolding SSmartRecruiters any_Fetch.simps by (intro smartRecruiters_Fetch_within) auto
  then show ?thesis using cap by (simp add: within_def)
next
  case (SRemotive r)
  note cap = enabled_limit(6) [OF assms(1) SRemotive]
  have "within (rm_limit r) jobs" using assms(2) cap unfolding SRemotive any_Fetch.simps by (intro remote_Fetch_within(1)) auto
  then show ?thesis using cap by (simp add: within_def)
next
  case (SJobicy r)
  note cap = enabled_limit(7) [OF assms(1) SJobicy]
  have "within (rm_limit r) jobs" using assms(2) cap unfolding SJobicy any_Fetch.simps by (intro remote_Fetch_within(2)) auto
  then show ?thesis using cap by (simp add: within_def)
next
  case (SRemoteOK r)
  note cap = enabled_limit(8) [OF assms(1) SRemoteOK]
  have "within (rm_limit r) jobs" using assms(2) cap unfolding SRemoteOK any_Fetch.simps by (intro remote_Fetch_within(3)) auto
  then show ?thesis using cap by (simp add: within_def)
qed

text \<open>
  C14: Paging through Kalibrr reads the board: from a server that answers each request with the
  asked stretch of its board and the board's length, a fetch returns every named listing of
  the board once, in order, up to the limit.
\<close>

theorem kalibrr_reads_board:
  assumes "\<And>l off. 0 < l \<Longrightarrow> 0 \<le> off \<Longrightarrow>
      kalibrr_fetchPage server k l off = Inr \<lparr>kr_Count = int (length board), kr_Jobs = take (nat l) (drop (nat off) board)\<rparr>"
    and "0 < ka_limit k"
  shows "kalibrr_Fetch env server k =
    Some (Inr (map (kalibrr_toRaw env k) (take (nat (ka_limit k)) (filter (\<lambda>j. trim_space (kj_Name j) \<noteq> []) board))))"
proof -
  have ok: "filter (\<lambda>j. trim_space (kj_Name j) \<noteq> []) board = filter kalibrr_ok board"
    by (rule filter_cong) (simp_all add: kalibrr_ok_def)
  show ?thesis unfolding ok kalibrr_Fetch_def
    using kalibrr_loop_reads [of server k board 0 "[]" env, OF assms(1)] assms(2) by simp
qed

lemma oneJob_honest:
  assumes "0 < l" "0 \<le> off"
  shows "kalibrr_fetchPage oneJobServer (NewKalibrrSource 5) l off =
    Inr \<lparr>kr_Count = int (length [oneJob]), kr_Jobs = take (nat l) (drop (nat off) [oneJob])\<rparr>"
  using assms by (cases "off = 0") (simp_all add: oneJob_page itoa_zero)

theorem kalibrr_reads_board_witness:
  "\<exists>r. kalibrr_Fetch sampleSrcEnv oneJobServer (NewKalibrrSource 5) = Some (Inr [r]) \<and> rj_Title r = ''Barista''"
proof -
  have l: "0 < ka_limit (NewKalibrrSource 5)" by (simp add: fixed_limits)
  have t: "map (kalibrr_toRaw sampleSrcEnv (NewKalibrrSource 5))
      (take (nat (ka_limit (NewKalibrrSource 5))) (filter (\<lambda>j. trim_space (kj_Name j) \<noteq> []) [oneJob])) =
    [kalibrr_toRaw sampleSrcEnv (NewKalibrrSource 5) oneJob]"
    "rj_Title (kalibrr_toRaw sampleSrcEnv (NewKalibrrSource 5) oneJob) = ''Barista''" by code_simp+
  show ?thesis using kalibrr_reads_board [OF oneJob_honest l, of sampleSrcEnv] t by auto
qed

definition kalibrrOnly :: SourceConfig where
  "kalibrrOnly = \<lparr>sg_KalibrrLimit = 5, sg_JoobleAPIKey = [], sg_JoobleLimit = 0, sg_JoobleBackfill = False, sg_CareerjetAffid = [],
     sg_CareerjetLimit = 0, sg_ATSEnabled = False, sg_ATSSlugs = [], sg_WorkdayCompanies = None, sg_SmartRecruitersCompanies = None,
     sg_RemoteEnabled = False, sg_RemoteLimit = 0\<rparr>"

theorem fetch_within_limit_witness:
  "\<exists>jobs. any_Fetch sampleSrcEnv sampleServers (SKalibrr (NewKalibrrSource 5)) = Some (SKalibrr (NewKalibrrSource 5), Inr jobs) \<and>
     list_all (\<lambda>r. \<not> rj_Synthetic r) jobs \<and> int (length jobs) \<le> 5"
proof -
  let ?s = "SKalibrr (NewKalibrrSource 5)"
  have m: "?s \<in> set (enabled_sources (\<lambda>_. None) kalibrrOnly)" by (simp add: enabled_sources_def kalibrrOnly_def)
  have "kalibrr_loop sampleSrcEnv oneJobServer (NewKalibrrSource 5) 0 [] \<noteq> None"
    by (rule kalibrr_loop_ends [where N = 1]) (auto simp: finite_board_def oneJob_page itoa_zero)
  moreover have "ka_limit (NewKalibrrSource 5) = 5" by (simp add: fixed_limits)
  ultimately obtain jobs where e: "any_Fetch sampleSrcEnv sampleServers ?s = Some (?s, Inr jobs)"
    using kalibrr_loop_reads [of oneJobServer "NewKalibrrSource 5" "[oneJob]" 0 "[]" sampleSrcEnv, OF oneJob_honest]
    by (auto simp: sampleServers_def kalibrr_Fetch_def)
  have c: "source_cap kalibrrOnly ?s = Some 5" by (simp add: kalibrrOnly_def)
  show ?thesis using e fetch_within_limit [OF m e] unfolding c by auto
qed

text \<open>
  The boards of SmartRecruiters and Workday are read exactly: from a server that answers
  with the asked page of its board and the board's length, a fetch returns the postings of the
  board in order, each once, up to the limit.
\<close>

theorem postings_read_exactly:
  assumes "\<And>off. 0 \<le> off \<Longrightarrow> smartRecruiters_fetchPage server s off = Inr (int (length board), take 100 (drop (nat off) board))"
    and "\<And>off. 0 \<le> off \<Longrightarrow> workday_fetchPage server' w off = Inr (int (length board'), take 20 (drop (nat off) board'))"
    and "ss_endpoint s \<noteq> []" "0 < ss_limit s"
    and "ws_endpoint w \<noteq> []" "trim_space (wc_Host (ws_company w)) \<noteq> []" "trim_space (wc_Tenant (ws_company w)) \<noteq> []" "0 < ws_limit w"
  shows "smartRecruiters_Fetch env server s = Inr (map (smartRecruiters_raw env s) (take (nat (ss_limit s)) board)) \<and>
    workday_Fetch server' w = Inr (map (workday_raw w) (take (nat (ws_limit w)) board'))"
proof -
  have "sr.serves server s board" "wd.serves server' w board'"
    unfolding sr.serves_def wd.serves_def using assms(1,2) by (simp_all add: smartRecruitersPageSize_def workdayPageSize_def)
  then show ?thesis
    using sr.reads_board [of server s board env] wd.reads_board [of server' w board'] assms(3-)
    by (auto simp: smartRecruiters_Fetch_def workday_Fetch_def)
qed

definition sampleSmart :: smartRecruitersSource where
  "sampleSmart = NewSmartRecruitersSource \<lparr>sc_Slug = ''acme'', sc_Company = ''Acme''\<rparr>"

definition sampleWorkday :: workdaySource where
  "sampleWorkday = NewWorkdaySource \<lparr>wc_Host = ''acme.wd3.myworkdayjobs.com'', wc_Tenant = ''acme'', wc_Site = ''jobs'', wc_Company = ''Acme''\<rparr>"

theorem postings_read_exactly_witness:
  "smartRecruiters_Fetch sampleSrcEnv (\<lambda>_. Reply 200 (Some (JObj []))) sampleSmart = Inr [] \<and>
   workday_Fetch (\<lambda>(_, _, off). Reply 200 (Some (JObj [(''total'', JNum ''1''),
     (''jobPostings'', JArr (if off = 0 then [JObj [(''title'', JStr ''Clerk'')]] else []))]))) sampleWorkday =
     Inr [workday_raw sampleWorkday (zeroWorkday\<lparr>wp_Title := ''Clerk''\<rparr>)]"
proof -
  let ?w = "\<lambda>(_ :: string, _ :: int, off :: int). Reply 200 (Some (JObj [(''total'', JNum ''1''),
     (''jobPostings'', JArr (if off = 0 then [JObj [(''title'', JStr ''Clerk'')]] else []))]))"
  let ?p = "zeroWorkday\<lparr>wp_Title := ''Clerk''\<rparr>"
  have d: "workdayResponse_dec (JObj [(''total'', JNum ''1''), (''jobPostings'', JArr [JObj [(''title'', JStr ''Clerk'')]])]) = Some (1, [?p])"
    "workdayResponse_dec (JObj [(''total'', JNum ''1''), (''jobPostings'', JArr [])]) = Some (1, [])"
    "smartRecruitersResponse_dec (JObj []) = Some (0, [])" "url_parse (ss_endpoint sampleSmart) \<noteq> None"
    by code_simp+
  have s: "smartRecruiters_fetchPage (\<lambda>_. Reply 200 (Some (JObj []))) sampleSmart off = Inr (int (length []), take 100 (drop (nat off) []))" for off
    using d by (simp add: smartRecruiters_fetchPage_def decode_reply_def fetchJSON_def)
  have w: "workday_fetchPage ?w sampleWorkday off = Inr (int (length [?p]), take 20 (drop (nat off) [?p]))" if "0 \<le> off" for off
    using that by (cases "off = 0") (simp_all add: workday_fetchPage_def decode_reply_def fetchJSON_def d)
  have e: "ss_endpoint sampleSmart \<noteq> []" "0 < ss_limit sampleSmart" "ws_endpoint sampleWorkday \<noteq> []"
    "trim_space (wc_Host (ws_company sampleWorkday)) \<noteq> []" "trim_space (wc_Tenant (ws_company sampleWorkday)) \<noteq> []"
    "0 < ws_limit sampleWorkday" "take (nat (ws_limit sampleWorkday)) [?p] = [?p]" by code_simp+
  show ?thesis using postings_read_exactly [OF s w e(1-6), of sampleSrcEnv] e(7) by simp
qed

section \<open>What goes wrong\<close>

text \<open>
  A salary range in rupiah that an API states as numbers is printed with \<open>%g\<close>, which gives a
  million and more an exponent, and the normalizer then reads the digits around it as numbers
  of their own: a stated pay of 8 to 10 million becomes one of 7 to 8 rupiah.
\<close>

lemma ats_salary_misread:
  "salaryRangeText \<lparr>sr_Currency = ''IDR'', sr_SalaryCurrency = [], sr_Min = ParseFloat ''8000000'', sr_Max = ParseFloat ''10000000'',
     sr_SalaryFrom = None, sr_SalaryTo = None\<rparr> = ''Rp 8e+06 - Rp 1e+07''"
  "ParseSalaryIDR (se_norm sampleSrcEnv) ''Rp 8e+06 - Rp 1e+07'' = (Some 7, Some 8)"
  by code_simp+

text \<open>Two Workday boards whose tenants and sites join to the same id: only the first is registered.\<close>

lemma workday_ids_collide:
  "length (rg_order (BuildRegistry (\<lambda>_. None) (kalibrrOnly\<lparr>sg_KalibrrLimit := 0, sg_ATSSlugs := [],
     sg_WorkdayCompanies := Some [\<lparr>wc_Host = ''h'', wc_Tenant = ''a-b'', wc_Site = ''c'', wc_Company = []\<rparr>,
       \<lparr>wc_Host = ''h'', wc_Tenant = ''a'', wc_Site = ''b-c'', wc_Company = []\<rparr>], sg_SmartRecruitersCompanies := Some []\<rparr>))) = 1"
  by code_simp

end
