(* ===== verification/App_Theorems.thy ===== *)
theory App_Theorems
  imports App Ingest_SourceProps
begin

text \<open>
  What the assembled server promises: which requests reach which route, with whose identity,
  and that its configuration cannot weaken the storage of CVs.
\<close>

section \<open>Where the router sends a path\<close>

lemma match_segs_lit: "match_segs (map Lit ls) parts = Some vars \<Longrightarrow> parts = ls \<and> vars = []"
proof (induction ls arbitrary: parts vars)
  case Nil then show ?case by (cases parts) auto
next
  case (Cons l ls)
  then show ?case by (cases parts) (auto split: if_splits)
qed

lemma serveRoutes_mem:
  assumes "serveRoutes routes meth path ctx = Endpoint pat vars c"
  shows "c = ctx \<and> pat \<in> set routes \<and> match_segs (mp_segs (parse_pattern pat)) (map unescape_part (path_parts path)) = Some vars"
proof -
  have f: "mux_serve (map (\<lambda>r. (r, r)) routes) meth path = MuxFound pat vars" "c = ctx"
    using assms by (auto simp: serveRoutes_def split: mux_result.splits)
  from mux_serve_found [OF f(1)] show ?thesis using f(2) by auto
qed

lemma gated_mem:
  assumes "gated guard routes meth path = Endpoint pat vars c"
  obtains u where "guard = Inr u" "c = Some u" "pat \<in> set routes"
    "match_segs (mp_segs (parse_pattern pat)) (map unescape_part (path_parts path)) = Some vars"
  using assms serveRoutes_mem by (fastforce simp: gated_def split: sum.splits)

definition private_routes :: "string list" where
  "private_routes = ''GET /auth/me'' # cv_Routes True @ prof_Routes @ acct_Routes @ m5_Routes"

definition public_routes :: "string list" where
  "public_routes = ''GET /healthz'' # feed_Routes @ telemetry_Routes @ ctl_Routes"

definition all_auth_routes :: "(string \<times> bool) list" where
  "all_auth_routes = auth_Routes \<lparr>cf_SessionTTL = 0, cf_VerificationTTL = 0, cf_ResetTTL = 0, cf_LoginMaxAttempts = 0,
     cf_LoginWindow = 0, cf_IPMaxAttempts = 0, cf_IPWindow = 0, cf_TrustedProxyHops = 0, cf_GoogleOIDC = True,
     cf_Mailer = False, cf_DevExposeTokens = False\<rparr>"

lemma private_apart: "list_all (\<lambda>r. r \<notin> set private_routes) public_routes"
  by code_simp

lemma public_not_private: "r \<in> set public_routes \<Longrightarrow> r \<notin> set private_routes"
  using private_apart by (simp add: list.pred_set)

lemma auth_Routes_eq: "auth_Routes cfg = (if cf_GoogleOIDC cfg then all_auth_routes else butlast all_auth_routes)"
  by (cases "cf_GoogleOIDC cfg") (simp_all only: auth_Routes_def all_auth_routes_def authConfig.simps if_True if_False
        append.simps append_Nil2 butlast.simps list.distinct simp_thms)

lemma all_auth_routes_guard: "list_all (\<lambda>p. (fst p \<in> set private_routes) = snd p) (auth_Routes cfg)"
proof -
  have "list_all (\<lambda>p. (fst p \<in> set private_routes) = snd p) all_auth_routes"
    "list_all (\<lambda>p. (fst p \<in> set private_routes) = snd p) (butlast all_auth_routes)"
    by code_simp+
  then show ?thesis unfolding auth_Routes_eq by simp
qed

lemma auth_Routes_mem:
  assumes "(r, g) \<in> set (auth_Routes cfg)"
  shows "(r \<in> set private_routes) = g"
proof -
  have "(fst (r, g) \<in> set private_routes) = snd (r, g)"
    using all_auth_routes_guard [of cfg] assms unfolding list.pred_set by blast
  then show ?thesis by (simp only: fst_conv snd_conv)
qed

lemma serveAuth_mem:
  assumes "serveAuth cfg guard meth path = Endpoint pat vars c"
  shows "(pat \<in> set private_routes \<longrightarrow> (\<exists>u. guard = Inr u \<and> c = Some u)) \<and> clean_path path \<and>
    match_segs (mp_segs (parse_pattern pat)) (map unescape_part (path_parts path)) = Some vars \<and>
    mp_method (parse_pattern pat) \<in> {None, Some meth, Some ''GET''}"
proof (cases "mux_serve (map (\<lambda>(r, g). (r, (r, g))) (auth_Routes cfg)) meth path")
  case (MuxFound h vs)
  obtain r g where h: "h = (r, g)" by (cases h)
  have e: "pat = r" "vars = vs" "g \<longrightarrow> (\<exists>u. guard = Inr u \<and> c = Some u)"
    using assms unfolding serveAuth_def MuxFound h by (cases g; cases guard; simp)+
  from mux_serve_found [OF MuxFound] obtain q where q: "(q, h) \<in> set (map (\<lambda>(r, g). (r, (r, g))) (auth_Routes cfg))"
    "match_segs (mp_segs (parse_pattern q)) (map unescape_part (path_parts path)) = Some vs"
    "mp_method (parse_pattern q) \<in> {None, Some meth, Some ''GET''}" "clean_path path" by blast
  have m: "q = r \<and> (r, g) \<in> set (auth_Routes cfg)" using q(1) unfolding h set_map by (elim imageE) (simp split: prod.splits)
  then show ?thesis using q e auth_Routes_mem [of r g cfg] by blast
qed (use assms in \<open>simp_all add: serveAuth_def\<close>)

lemma serveMount_guarded:
  assumes "serveMount env cfg jobs guard opt r m = Endpoint pat vars c" "pat \<in> set private_routes"
  shows "\<exists>u. guard = Inr u \<and> c = Some u"
proof (cases m)
  case MHealth
  then show ?thesis using assms public_not_private [of pat] by (simp add: serveMount_def public_routes_def)
next
  case MAuth
  have "serveAuth cfg guard (apr_method r) (apr_path r) = Endpoint pat vars c"
    using assms(1) unfolding serveMount_def MAuth Let_def by (simp split: if_splits)
  from serveAuth_mem [OF this] show ?thesis using assms(2) by blast
next
  case MFeed
  then show ?thesis using assms public_not_private [of pat] serveRoutes_mem
    by (auto simp: serveMount_def Let_def public_routes_def)
next
  case MTelemetry
  then show ?thesis using assms public_not_private [of pat] serveRoutes_mem
    by (auto simp: serveMount_def Let_def public_routes_def)
next
  case MIngest
  then show ?thesis using assms public_not_private [of pat] serveRoutes_mem
    by (auto simp: serveMount_def Let_def public_routes_def)
qed (use assms in \<open>auto simp: serveMount_def Let_def elim: gated_mem\<close>)

section \<open>The decoded path of the registration route\<close>

lemma path_unescape_append:
  assumes "path_unescape a = Some x"
  shows "path_unescape (a @ b) = map_option (append x) (path_unescape b)"
  using assms unfolding path_unescape_def
proof (induction "\<lambda>_ :: char. False" "\<lambda>(_ :: int) (_ :: int). True" a arbitrary: x rule: unescape.induct)
  case 1 then show ?case by (cases "unescape (\<lambda>_. False) (\<lambda>_ _. True) b") auto
next
  case (2 c cs)
  let ?u = "unescape (\<lambda>_. False) (\<lambda>_ _. True)"
  show ?case
  proof (cases "c = CHR ''%''")
    case True
    obtain h l rest m n z where p: "cs = h # l # rest" "hex_val h = Some m" "hex_val l = Some n" "?u rest = Some z"
      "x = char_of (16 * m + n) # z"
      using 2(3) unfolding True unescape.simps if_True by (simp split: list.splits option.splits) blast
    have i: "?u (rest @ b) = map_option (append z) (?u b)" using 2(1) True p by blast
    show ?thesis unfolding True append_Cons unescape.simps if_True p(1) list.case p(2,3) option.case prod.case p(5) i option.map_comp
      by (cases "?u b") (simp_all only: option.map o_def append_Cons simp_thms if_True)
  next
    case False
    obtain z where z: "?u cs = Some z" "x = c # z"
      using 2(3) False unfolding unescape.simps by (simp split: option.splits) blast
    have i: "?u (cs @ b) = map_option (append z) (?u b)" using 2(2) False z(1) by blast
    show ?thesis unfolding append_Cons unescape.simps i z(2) using False
      by (cases "?u b") (simp_all only: option.map if_False append_Cons)
  qed
qed

lemma unescape_part_literal:
  assumes "unescape_part s = t" "path_unescape t = Some t"
  shows "path_unescape s = Some t"
  using assms by (cases "path_unescape s") (auto simp: unescape_part_def)

lemma split_on_join: "split_on b s = ps \<Longrightarrow> s = join [b] ps"
proof (induction s arbitrary: ps)
  case Nil then show ?case by (auto simp: split_on_def)
next
  case (Cons c s)
  obtain q qs where q: "split_on b s = q # qs" unfolding split_on_def by (cases "split_by (\<lambda>c. c = b) s") auto
  have "s = join [b] (q # qs)" using Cons.IH [OF q] .
  then show ?case using Cons.prems q unfolding split_on_def by (cases qs) (auto split: if_splits)
qed

lemma register_path:
  assumes "clean_path path" "map unescape_part (path_parts path) = [''auth'', ''register'']"
  shows "url_path path = ''/auth/register''"
proof -
  obtain s where path: "path = CHR ''/'' # s" using assms(1) by (cases path) (auto simp: clean_path_def has_prefix_def)
  obtain a b where ab: "split_on CHR ''/'' s = [a, b]" "unescape_part a = ''auth''" "unescape_part b = ''register''"
    using assms(2) unfolding path path_parts_def by auto
  have u: "path_unescape a = Some ''auth''" "path_unescape b = Some ''register''"
    by (rule unescape_part_literal [OF ab(2)], code_simp) (rule unescape_part_literal [OF ab(3)], code_simp)
  have slash: "path_unescape [CHR ''/''] = Some [CHR ''/'']" by code_simp
  have "path = [CHR ''/''] @ a @ [CHR ''/''] @ b" using split_on_join [OF ab(1)] unfolding path by simp
  then have "path_unescape path = Some ''/auth/register''"
    using path_unescape_append [OF slash] path_unescape_append [OF u(1)] u(2) by simp
  then show ?thesis by (simp add: url_path_def)
qed

section \<open>Properties\<close>

lemma serveApp_Endpoint:
  assumes "snd (serveApp env R cfg aenv s jobs r) = Endpoint pat vars c"
  obtains m where "serveMount env cfg jobs (RequireVerified R aenv s (apr_auth r)) (OptionalVerified R aenv s (apr_auth r)) r m =
      Endpoint pat vars c"
    "sec_EnforceHTTPS (appSecurity env) \<longrightarrow> requestIsSecure (apr_transport r) (sec_TrustForwardedProto (appSecurity env))"
    "\<exists>vs. mux_serve app_router (apr_method r) (apr_path r) = MuxFound m vs"
  using assms by (auto simp: serveApp_def RequireHTTPS_def split: if_splits mux_result.splits)

lemma serveMount_register:
  assumes "serveMount env cfg jobs guard opt r m = Endpoint ''POST /auth/register'' vars c"
  shows "registrationGate env jobs ''POST'' ''/auth/register''"
proof -
  have pub: "''POST /auth/register'' \<notin> set (cv_Routes True) \<union> set prof_Routes \<union> set acct_Routes \<union> set m5_Routes \<union> set public_routes"
    by code_simp
  have auth: "m = MAuth"
  proof (cases m)
    case MAuth then show ?thesis .
  qed (use assms pub in \<open>auto simp: serveMount_def Let_def public_routes_def dest!: serveRoutes_mem elim!: gated_mem\<close>)
  have g: "registrationGate env jobs (apr_method r) (url_path (apr_path r))"
    and "serveAuth cfg guard (apr_method r) (apr_path r) = Endpoint ''POST /auth/register'' vars c"
    using assms unfolding serveMount_def auth Let_def by (simp_all split: if_splits)
  note e = serveAuth_mem [OF this(2)]
  have p: "mp_method (parse_pattern ''POST /auth/register'') = Some ''POST''"
    "mp_segs (parse_pattern ''POST /auth/register'') = map Lit [''auth'', ''register'']" by code_simp+
  have ne: "Some ''POST'' \<noteq> Some ''GET''" by code_simp
  have "Some ''POST'' \<in> {None, Some (apr_method r), Some ''GET''}" using e unfolding p(1) by (elim conjE)
  then have "apr_method r = ''POST''" using ne by (simp only: insert_iff empty_iff option.distinct option.inject simp_thms) 
  moreover have "url_path (apr_path r) = ''/auth/register''"
    using e match_segs_lit [of "[''auth'', ''register'']"] unfolding p(2) by (intro register_path) blast+
  ultimately show ?thesis using g by simp
qed

text \<open>
  C5: No request reaches a handler past the server's guards: a private route is only served
  to a user with a verified session, who is the one in its context; registration only once
  the feed is full, or in the development mode that has no counter; and with HTTPS enforced
  nothing is served to a request that did not arrive over it.
\<close>

theorem routes_guarded:
  assumes "snd (serveApp env R cfg aenv s jobs r) = Endpoint pat vars ctx"
  shows "(pat \<in> set private_routes \<longrightarrow> (\<exists>u. RequireVerified R aenv s (apr_auth r) = Inr u \<and> ctx = Some u)) \<and>
    (pat = ''POST /auth/register'' \<longrightarrow>
      (case jobs of Some (Inr cnt) \<Rightarrow> DefaultCount \<le> cnt | Some (Inl _) \<Rightarrow> False
       | None \<Rightarrow> boolEnv env ''AUTH_DEV_ALLOW_IN_MEMORY_REGISTRATION'' False \<and> boolEnv env ''AUTH_DEV_EXPOSE_TOKENS'' False)) \<and>
    (boolEnv env ''ENFORCE_HTTPS'' False \<longrightarrow>
      tr_TLS (apr_transport r) \<or> 0 < intEnv env ''TRUSTED_PROXY_HOPS'' 0 \<and> requestIsSecure (apr_transport r) True)"
proof -
  from assms obtain m where m: "serveMount env cfg jobs (RequireVerified R aenv s (apr_auth r)) (OptionalVerified R aenv s (apr_auth r)) r m =
      Endpoint pat vars ctx"
    "sec_EnforceHTTPS (appSecurity env) \<longrightarrow> requestIsSecure (apr_transport r) (sec_TrustForwardedProto (appSecurity env))"
    by (rule serveApp_Endpoint)
  have "pat \<in> set private_routes \<longrightarrow> (\<exists>u. RequireVerified R aenv s (apr_auth r) = Inr u \<and> ctx = Some u)"
    using serveMount_guarded [OF m(1)] by blast
  moreover have "pat = ''POST /auth/register'' \<longrightarrow> registrationGate env jobs ''POST'' ''/auth/register''"
    using serveMount_register m(1) by blast
  moreover have "boolEnv env ''ENFORCE_HTTPS'' False \<longrightarrow>
      tr_TLS (apr_transport r) \<or> 0 < intEnv env ''TRUSTED_PROXY_HOPS'' 0 \<and> requestIsSecure (apr_transport r) True"
    using m(2) unfolding appSecurity_def requestIsSecure_def SecurityConfig.simps
    by (cases "tr_TLS (apr_transport r)"; cases "0 < intEnv env ''TRUSTED_PROXY_HOPS'' 0") simp_all
  ultimately show ?thesis unfolding registrationGate_def by (auto split: option.splits sum.splits)
qed

theorem routes_guarded_witness:
  "\<exists>u. RequireVerified (memRepoOps 7) sampleEnv sampleStore (sampleReq\<lparr>rq_sessionCookie := Some ''t''\<rparr>) = Inr u"
proof -
  let ?r = "\<lparr>apr_method = ''GET'', apr_path = ''/account/export'', apr_transport = \<lparr>tr_TLS = False, tr_ForwardedProto = []\<rparr>,
    apr_auth = sampleReq\<lparr>rq_sessionCookie := Some ''t''\<rparr>\<rparr>"
  have e: "snd (serveApp (\<lambda>_. []) (memRepoOps 7) sampleCfg sampleEnv sampleStore (Some (Inr 6000 :: nat + int)) ?r) =
      Endpoint ''GET /account/export'' [] (Some sampleUser)" by code_simp
  have p: "''GET /account/export'' \<in> set private_routes" by code_simp
  show ?thesis using routes_guarded [OF e] p by simp
qed

section \<open>Which routes are served at all\<close>

definition mount_routes :: "authConfig \<Rightarrow> appMount \<Rightarrow> string list" where
  "mount_routes cfg m =
     (case m of MHealth \<Rightarrow> [''GET /healthz''] | MAuth \<Rightarrow> map fst (auth_Routes cfg) | MCV \<Rightarrow> cv_Routes True | MProfile \<Rightarrow> prof_Routes
      | MAccount \<Rightarrow> acct_Routes | MFeed \<Rightarrow> feed_Routes | MTelemetry \<Rightarrow> telemetry_Routes | MSeeker \<Rightarrow> m5_Routes | MIngest \<Rightarrow> ctl_Routes)"

definition all_mounts :: "appMount list" where
  "all_mounts = [MHealth, MAuth, MCV, MProfile, MAccount, MFeed, MTelemetry, MSeeker, MIngest]"

definition cv_subroutes :: "string list" where
  "cv_subroutes = [''PATCH /cv/{id}'', ''POST /cv/{id}/parse'']"

text \<open>A request for a route: its method, and its path with \<open>1\<close> for every wildcard.\<close>

definition sample_request :: "string \<Rightarrow> string \<times> string" where
  "sample_request pat =
     (let p = parse_pattern pat in
      (the (mp_method p), concat (map (\<lambda>s. CHR ''/'' # (case s of Lit l \<Rightarrow> l | _ \<Rightarrow> ''1'')) (mp_segs p))))"

definition sample_routed :: "string list \<Rightarrow> appMount \<Rightarrow> bool" where
  "sample_routed routes m =
     list_all (\<lambda>pat. let (meth, path) = sample_request pat in
        mux_serve app_router meth path = MuxFound m [] \<and>
        (case mux_serve (map (\<lambda>r. (r, r)) routes) meth path of MuxFound r vars \<Rightarrow> r = pat | _ \<Rightarrow> False))
       (filter (\<lambda>pat. pat \<notin> set cv_subroutes) routes)"

lemma samples_routed: "list_all (\<lambda>m. sample_routed (mount_routes sampleCfg m) m) all_mounts"
  by code_simp

definition auth_routed :: "(string \<times> bool) list \<Rightarrow> bool" where
  "auth_routed routes =
     list_all (\<lambda>pat. let (meth, path) = sample_request pat in
        mux_serve app_router meth path = MuxFound MAuth [] \<and> (meth = ''POST'' \<and> url_path path = ''/auth/register'') = (pat = ''POST /auth/register'') \<and>
        (case mux_serve (map (\<lambda>(r, g). (r, (r, g))) routes) meth path of MuxFound (r, g) vars \<Rightarrow> r = pat | _ \<Rightarrow> False))
       (map fst routes)"

lemma auth_routes_routed: "auth_routed (auth_Routes cfg)"
proof -
  have "auth_routed all_auth_routes" "auth_routed (butlast all_auth_routes)" by code_simp+
  then show ?thesis unfolding auth_Routes_eq by simp
qed

lemma mount_routes_cfg: "m \<noteq> MAuth \<Longrightarrow> mount_routes cfg m = mount_routes cfg' m"
  by (cases m) (simp_all add: mount_routes_def)

lemma serveMount_mem:
  assumes "serveMount env cfg jobs guard opt r m = Endpoint pat vars c"
  shows "pat \<in> set (mount_routes cfg m)"
proof (cases m)
  case MAuth
  have "serveAuth cfg guard (apr_method r) (apr_path r) = Endpoint pat vars c"
    using assms unfolding serveMount_def MAuth Let_def by (simp split: if_splits)
  then obtain g vs where f: "mux_serve (map (\<lambda>(r, g). (r, (r, g))) (auth_Routes cfg)) (apr_method r) (apr_path r) = MuxFound (pat, g) vs"
    unfolding serveAuth_def by (auto split: mux_result.splits if_splits sum.splits)
  obtain q where "(q, (pat, g)) \<in> set (map (\<lambda>(r, g). (r, (r, g))) (auth_Routes cfg))" by (rule mux_serve_found [OF f])
  then have "(pat, g) \<in> set (auth_Routes cfg)" by (force split: prod.splits)
  then show ?thesis unfolding mount_routes_def MAuth by force
qed (use assms in \<open>auto simp: serveMount_def mount_routes_def Let_def dest!: serveRoutes_mem elim!: gated_mem\<close>)

lemma cv_subroutes_apart: "pat \<in> set cv_subroutes \<Longrightarrow> pat \<in> set (mount_routes cfg m) \<Longrightarrow> m = MCV"
proof -
  assume p: "pat \<in> set cv_subroutes" "pat \<in> set (mount_routes cfg m)"
  have "list_all (\<lambda>m. m = MCV \<or> list_all (\<lambda>r. r \<notin> set cv_subroutes) (mount_routes sampleCfg m)) all_mounts"
    by code_simp
  then have o: "m \<noteq> MCV \<Longrightarrow> list_all (\<lambda>r. r \<notin> set cv_subroutes) (mount_routes sampleCfg m)"
    by (cases m) (simp_all add: all_mounts_def)
  have a: "list_all (\<lambda>r. fst r \<notin> set cv_subroutes) all_auth_routes" "list_all (\<lambda>r. fst r \<notin> set cv_subroutes) (butlast all_auth_routes)"
    by code_simp+
  then have "list_all (\<lambda>r. r \<notin> set cv_subroutes) (mount_routes cfg MAuth)"
    unfolding mount_routes_def auth_Routes_eq by (simp add: list.pred_map o_def)
  then show "m = MCV" using p o mount_routes_cfg [of m cfg sampleCfg] unfolding list.pred_set by (cases "m = MAuth") auto
qed

lemma cv_mount_path:
  assumes "mux_serve app_router meth path = MuxFound MCV vs"
  shows "map unescape_part (path_parts path) = [''cv'']"
proof -
  have l: "list_all (\<lambda>p. snd p = MCV \<longrightarrow> fst p = ''/cv'') app_router" "mp_segs (parse_pattern ''/cv'') = map Lit [''cv'']"
    by code_simp+
  obtain q where q: "(q, MCV) \<in> set app_router"
    "match_segs (mp_segs (parse_pattern q)) (map unescape_part (path_parts path)) = Some vs" by (rule mux_serve_found [OF assms])
  have "snd (q, MCV) = MCV \<longrightarrow> fst (q, MCV) = ''/cv''" using l(1) q(1) unfolding list.pred_set by blast
  then have "q = ''/cv''" by (simp only: fst_conv snd_conv simp_thms)
  then show ?thesis using match_segs_lit [OF q(2) [unfolded \<open>q = ''/cv''\<close> l(2)]] by blast
qed

lemma serveMount_sample:
  assumes m: "m \<noteq> MAuth" "guard = Inr u" "pat \<in> set (mount_routes cfg m)" "pat \<notin> set cv_subroutes"
    and r: "sample_request pat = (apr_method r, apr_path r)"
  shows "mux_serve app_router (apr_method r) (apr_path r) = MuxFound m [] \<and>
    (\<exists>vars c. serveMount env cfg jobs guard opt r m = Endpoint pat vars c)"
proof -
  have "m \<in> set all_mounts" unfolding all_mounts_def by (cases m) simp_all
  then have "sample_routed (mount_routes sampleCfg m) m" using samples_routed unfolding list.pred_set by blast
  then have a: "\<forall>pat \<in> set (filter (\<lambda>pat. pat \<notin> set cv_subroutes) (mount_routes sampleCfg m)).
      let (meth, path) = sample_request pat in mux_serve app_router meth path = MuxFound m [] \<and>
      (case mux_serve (map (\<lambda>r. (r, r)) (mount_routes sampleCfg m)) meth path of MuxFound r vars \<Rightarrow> r = pat | _ \<Rightarrow> False)"
    unfolding sample_routed_def list.pred_set .
  have "pat \<in> set (filter (\<lambda>pat. pat \<notin> set cv_subroutes) (mount_routes sampleCfg m))"
    using m(3,4) mount_routes_cfg [OF m(1), of cfg sampleCfg] unfolding set_filter by simp
  from bspec [OF a this] have s: "mux_serve app_router (apr_method r) (apr_path r) = MuxFound m []"
    "\<exists>vars. mux_serve (map (\<lambda>r. (r, r)) (mount_routes cfg m)) (apr_method r) (apr_path r) = MuxFound pat vars"
    unfolding r mount_routes_cfg [OF m(1), of cfg sampleCfg] Let_def prod.case
    by (blast, cases "mux_serve (map (\<lambda>r. (r, r)) (mount_routes sampleCfg m)) (apr_method r) (apr_path r)") simp_all
  have "\<exists>vars c. serveMount env cfg jobs guard opt r m = Endpoint pat vars c"
  proof (cases m)
    case MAuth
    then show ?thesis using m(1) by simp
  qed (use s(2) m(2,3) in \<open>auto simp: serveMount_def mount_routes_def serveRoutes_def gated_def Let_def\<close>)
  then show ?thesis using s(1) by blast
qed

lemma serveAuth_sample:
  assumes m: "guard = Inr u" "pat \<in> set (mount_routes cfg MAuth)" "registrationGate env jobs ''POST'' ''/auth/register''"
    and r: "sample_request pat = (apr_method r, apr_path r)"
  shows "mux_serve app_router (apr_method r) (apr_path r) = MuxFound MAuth [] \<and>
    (\<exists>vars c. serveMount env cfg jobs guard opt r MAuth = Endpoint pat vars c)"
proof -
  have "pat \<in> set (map fst (auth_Routes cfg))" using m(2) by (simp add: mount_routes_def)
  then have s: "mux_serve app_router (apr_method r) (apr_path r) = MuxFound MAuth []"
    "(apr_method r = ''POST'' \<and> url_path (apr_path r) = ''/auth/register'') = (pat = ''POST /auth/register'')"
    "case mux_serve (map (\<lambda>(r, g). (r, (r, g))) (auth_Routes cfg)) (apr_method r) (apr_path r) of
       MuxFound (r, g) vars \<Rightarrow> r = pat | _ \<Rightarrow> False"
    using auth_routes_routed [of cfg] unfolding auth_routed_def list.pred_set
    by (elim ballE [where x = pat]; simp only: r Let_def prod.case)+
  have "registrationGate env jobs (apr_method r) (url_path (apr_path r))"
  proof (cases "apr_method r = ''POST'' \<and> url_path (apr_path r) = ''/auth/register''")
    case True then show ?thesis using m(3) by simp
  next
    case False then show ?thesis unfolding registrationGate_def by argo
  qed
  then show ?thesis using s(1,3) m(1)
    by (auto simp: serveMount_def serveAuth_def Let_def split: mux_result.splits)
qed

lemma serveApp_tls:
  assumes "tr_TLS (apr_transport r)" "mux_serve app_router (apr_method r) (apr_path r) = MuxFound m vs"
  shows "snd (serveApp env R cfg aenv s jobs r) =
    serveMount env cfg jobs (RequireVerified R aenv s (apr_auth r)) (OptionalVerified R aenv s (apr_auth r)) r m"
  using assms by (simp add: serveApp_def RequireHTTPS_def requestIsSecure_def)

text \<open>
  C21: Every route a service registers is served by the assembled router to some request of
  a verified user, once registration is open, except \<open>PATCH /cv/{id}\<close> and
  \<open>POST /cv/{id}/parse\<close>, which no request reaches: the CV service is mounted at \<open>/cv\<close> only.
\<close>

theorem routes_served_exactly:
  assumes "RequireVerified R aenv s a = Inr u" "registrationGate env jobs ''POST'' ''/auth/register''"
  shows "{pat. \<exists>r vars c. snd (serveApp env R cfg aenv s jobs r) = Endpoint pat vars c} =
    (\<Union>m \<in> set all_mounts. set (mount_routes cfg m)) - {''PATCH /cv/{id}'', ''POST /cv/{id}/parse''}" (is "?S = ?A - ?B")
proof -
  have B: "?B = set cv_subroutes" by (simp only: cv_subroutes_def list.set)
  have none: "match_segs (mp_segs (parse_pattern ''PATCH /cv/{id}'')) [''cv''] = None"
    "match_segs (mp_segs (parse_pattern ''POST /cv/{id}/parse'')) [''cv''] = None" by code_simp+
  have "pat \<in> ?A - ?B" if e: "snd (serveApp env R cfg aenv s jobs r) = Endpoint pat vars c" for r pat vars c
  proof -
    obtain m where m: "serveMount env cfg jobs (RequireVerified R aenv s (apr_auth r)) (OptionalVerified R aenv s (apr_auth r)) r m =
        Endpoint pat vars c" "\<exists>vs. mux_serve app_router (apr_method r) (apr_path r) = MuxFound m vs"
      using serveApp_Endpoint [OF e] by metis
    have "m \<in> set all_mounts" unfolding all_mounts_def by (cases m) simp_all
    moreover have "pat \<notin> set cv_subroutes"
    proof
      assume p: "pat \<in> set cv_subroutes"
      then have cv: "m = MCV" using serveMount_mem [OF m(1)] cv_subroutes_apart by blast
      then have path: "map unescape_part (path_parts (apr_path r)) = [''cv'']" using m(2) cv_mount_path by blast
      have g: "gated (RequireVerified R aenv s (apr_auth r)) (cv_Routes True) (apr_method r) (apr_path r) = Endpoint pat vars c"
        using m(1) unfolding cv serveMount_def Let_def appMount.case .
      have "match_segs (mp_segs (parse_pattern pat)) [''cv''] = Some vars"
        by (rule gated_mem [OF g]) (simp only: path)
      then show False using p none unfolding cv_subroutes_def list.set by (elim insertE emptyE) (simp_all only: option.distinct)
    qed
    ultimately show ?thesis using serveMount_mem [OF m(1)] B by blast
  qed
  moreover have "pat \<in> ?S" if p: "m \<in> set all_mounts" "pat \<in> set (mount_routes cfg m)" "pat \<notin> set cv_subroutes" for pat m
  proof -
    obtain meth path where q: "sample_request pat = (meth, path)" by (cases "sample_request pat")
    define r where "r = \<lparr>apr_method = meth, apr_path = path, apr_transport = \<lparr>tr_TLS = True, tr_ForwardedProto = []\<rparr>, apr_auth = a\<rparr>"
    have r: "sample_request pat = (apr_method r, apr_path r)" "tr_TLS (apr_transport r)" "apr_auth r = a"
      unfolding r_def q by simp_all
    have "mux_serve app_router (apr_method r) (apr_path r) = MuxFound m [] \<and>
      (\<exists>vars c. serveMount env cfg jobs (RequireVerified R aenv s (apr_auth r)) (OptionalVerified R aenv s (apr_auth r)) r m = Endpoint pat vars c)"
      using serveMount_sample [OF _ assms(1) p(2,3) r(1)] serveAuth_sample [OF assms(1) _ assms(2) r(1)] p(2)
      unfolding r(3) by (cases "m = MAuth") (simp only:, blast)+
    then show ?thesis using serveApp_tls [OF r(2)] unfolding mem_Collect_eq by metis
  qed
  ultimately show ?thesis using B by blast
qed

theorem routes_served_exactly_witness:
  "\<exists>r vars c. snd (serveApp (\<lambda>_. []) (memRepoOps 7) sampleCfg sampleEnv sampleStore (Some (Inr 6000 :: nat + int)) r) =
     Endpoint ''GET /cv'' vars c"
proof -
  have u: "RequireVerified (memRepoOps 7) sampleEnv sampleStore (sampleReq\<lparr>rq_sessionCookie := Some ''t''\<rparr>) = Inr sampleUser"
    by code_simp
  have g: "registrationGate (\<lambda>_. []) (Some (Inr 6000 :: nat + int)) ''POST'' ''/auth/register''" by code_simp
  have "MCV \<in> set all_mounts \<and> ''GET /cv'' \<in> set (mount_routes sampleCfg MCV)" "''GET /cv'' \<notin> {''PATCH /cv/{id}'', ''POST /cv/{id}/parse''}"
    by code_simp+
  then have "''GET /cv'' \<in> (\<Union>m \<in> set all_mounts. set (mount_routes sampleCfg m)) - {''PATCH /cv/{id}'', ''POST /cv/{id}/parse''}"
    by blast
  then show ?thesis unfolding routes_served_exactly [OF u g, symmetric] by blast
qed

section \<open>Where CVs may be stored\<close>

lemma decodeCVKey_length:
  assumes "decodeCVKey env rand required = Inr key" "\<forall>k. rand = Some k \<longrightarrow> length k = 32"
  shows "length (keyBytes key) = 32 \<and> (required \<longrightarrow> (\<exists>k. key = ConfiguredKey k \<and> hex_decode (env ''CV_ENCRYPTION_KEY'') = Some k))"
  using assms by (auto simp: decodeCVKey_def Let_def split: if_splits option.splits)

text \<open>
  C13: The storage of CVs fails safe: a server that starts has a 256-bit key, and one with a
  database keeps CVs in a complete S3 configuration under the configured key, never in memory
  and never under a key that is lost on a restart.
\<close>

theorem cv_store_fail_safe:
  assumes "newCVStore env rand connect = Inr (store, key)" "\<forall>k. rand = Some k \<longrightarrow> length k = 32"
  shows "length (keyBytes key) = 32 \<and>
    (store = MemoryBackend \<longleftrightarrow> env ''S3_ENDPOINT'' = []) \<and>
    (env ''DATABASE_URL'' \<noteq> [] \<or> store \<noteq> MemoryBackend \<longrightarrow>
      (\<exists>cfg k. store = S3Backend cfg \<and> S3Config_ok cfg \<and> connect cfg \<and> key = ConfiguredKey k \<and>
        hex_decode (env ''CV_ENCRYPTION_KEY'') = Some k \<and> s3_UseTLS cfg = boolEnv env ''S3_USE_TLS'' True))"
proof (cases "env ''S3_ENDPOINT'' = []")
  case True
  then have "env ''DATABASE_URL'' = []" "decodeCVKey env rand False = Inr key" "store = MemoryBackend"
    using assms(1) by (auto simp: newCVStore_def Let_def split: if_splits sum.splits)
  then show ?thesis using decodeCVKey_length [OF _ assms(2)] True by blast
next
  case False
  then obtain cfg where "decodeCVKey env rand True = Inr key" "store = S3Backend cfg" "S3Config_ok cfg" "connect cfg"
    "s3_UseTLS cfg = boolEnv env ''S3_USE_TLS'' True"
    using assms(1) by (auto simp: newCVStore_def Let_def split: if_splits sum.splits)
  then show ?thesis using decodeCVKey_length [OF _ assms(2), of env True key] False by auto
qed

definition sampleCVEnv :: environ where
  "sampleCVEnv name =
     (if name = ''DATABASE_URL'' then ''postgres'' else if name = ''S3_ENDPOINT'' then ''s3'' else if name = ''S3_ACCESS_KEY'' then ''a''
      else if name = ''S3_SECRET_KEY'' then ''b'' else if name = ''S3_BUCKET'' then ''cv''
      else if name = ''CV_ENCRYPTION_KEY'' then replicate 64 CHR ''a'' else [])"

theorem cv_store_fail_safe_witness:
  "\<exists>cfg key. newCVStore sampleCVEnv None (\<lambda>_. True) = Inr (S3Backend cfg, key) \<and> length (keyBytes key) = 32"
proof -
  let ?o = "newCVStore sampleCVEnv None (\<lambda>_. True)"
  have "case ?o of Inl _ \<Rightarrow> False | Inr (b, k) \<Rightarrow> (case b of MemoryBackend \<Rightarrow> False | S3Backend c \<Rightarrow> True)" by code_simp
  then obtain cfg key where o: "?o = Inr (S3Backend cfg, key)" by (auto split: sum.splits cvBackend.splits)
  from cv_store_fail_safe [OF o] have "length (keyBytes key) = 32" by simp
  then show ?thesis using o by blast
qed

section \<open>The recurring passes\<close>

text \<open>
  A server without a database starts no queue; one with a database either refuses to start
  or schedules passes and sweeps at positive intervals, expires no listing later than the
  ingest rule, and never reads Jooble, whose quota is for the backfill only.
\<close>

theorem recurring_queue:
  "startIngestQueue parse env files False = Inr None \<and>
   (case startIngestQueue parse env files True of
      Inl e \<Rightarrow> ingestQueueConfig parse env = None
    | Inr None \<Rightarrow> False
    | Inr (Some (reg, jobs)) \<Rightarrow> ''jooble'' \<notin> set (rg_order reg) \<and>
        (\<exists>i s a. jobs = [\<lparr>pj_job = IngestArgs, pj_interval = i, pj_runOnStart = False\<rparr>,
           \<lparr>pj_job = SweepArgs a, pj_interval = s, pj_runOnStart = False\<rparr>] \<and> 0 < i \<and> 0 < s \<and> 0 < a \<and> a \<le> StaleAfter))"
proof (cases "ingestQueueConfig parse env")
  case None
  then show ?thesis by (simp add: startIngestQueue_def)
next
  case (Some cfg)
  have run: "qc_RunOnStart cfg = False" and v: "queue_Validate cfg"
    using Some unfolding ingestQueueConfig_def Let_def by (auto split: if_splits)
  have "queue_Validate (queue_withDefaults cfg)"
    using v by (auto simp: queue_Validate_def queue_withDefaults_def Let_def)
  then obtain jobs where jobs: "queue_Start cfg = Some jobs" by (simp add: queue_Start_def Let_def)
  have "''jooble'' \<notin> set (rg_order (BuildRegistry files (queue_sources env)))"
    using BuildRegistry_jooble [of files "queue_sources env"] by (simp add: queue_sources_def)
  then show ?thesis using Some jobs queue_schedule [OF jobs] unfolding run by (simp add: startIngestQueue_def Let_def)
qed

end
