(* ===== verification/Discover.thy ===== *)
theory Discover
  imports Go_Sort Go_JSON Ingest_Wire
begin

text \<open>
  The discovery of company boards (\<open>internal/discover\<close>, \<open>cmd/discover-boards\<close>): candidates from
  the URLs of a web archive, their validation against the board APIs, and the merge into the
  catalogs of \<open>internal/ingest/atscompanies\<close>.

  The servers are functions from requests to answers, and the catalog files a map from
  platforms. The workers of \<open>validateAll\<close> each write the slot of their own candidate, so their
  order does not show in the result.
\<close>

section \<open>Platforms and candidates\<close>

definition Greenhouse :: string where "Greenhouse = ''greenhouse''"

definition Lever :: string where "Lever = ''lever''"

definition Workable :: string where "Workable = ''workable''"

definition Ashby :: string where "Ashby = ''ashby''"

definition Workday :: string where "Workday = ''workday''"

definition SmartRecruiters :: string where "SmartRecruiters = ''smartrecruiters''"

definition Platforms :: "string list" where
  "Platforms = [Greenhouse, Lever, Workable, Ashby, Workday, SmartRecruiters]"

record Candidate =
  cd_Platform :: string
  cd_Slug :: string
  cd_Host :: string
  cd_Tenant :: string
  cd_Site :: string
  cd_Company :: string

definition cand_Key :: "Candidate \<Rightarrow> string" where
  "cand_Key c = (if cd_Platform c = Workday then cd_Host c @ CHR ''/'' # cd_Site c else cd_Slug c)"

definition CDXPatterns :: "string \<Rightarrow> string list" where
  "CDXPatterns p =
     (if p = Greenhouse then [''boards.greenhouse.io/*'', ''job-boards.greenhouse.io/*'']
      else if p = Lever then [''jobs.lever.co/*'']
      else if p = Workable then [''apply.workable.com/*'']
      else if p = Ashby then [''jobs.ashbyhq.com/*'']
      else if p = Workday then [''*.myworkdayjobs.com/*'']
      else if p = SmartRecruiters then [''jobs.smartrecruiters.com/*'']
      else [])"

section \<open>The archive\<close>

definition defaultCDXBase :: string where
  "defaultCDXBase = ''https://web.archive.org/cdx/search/cdx''"

fun unique_rows :: "string list \<Rightarrow> string list list \<Rightarrow> string list" where
  "unique_rows seen [] = []"
| "unique_rows seen (row # rows) =
     (if row = [] then unique_rows seen rows
      else (let original = trim_space (hd row) in
        if original = [] \<or> original \<in> set seen then unique_rows seen rows
        else original # unique_rows (original # seen) rows))"

text \<open>The answer is a list of rows of strings, the first of them a header.\<close>

definition FetchCDX :: "(request \<Rightarrow> reply) \<Rightarrow> string \<Rightarrow> string \<Rightarrow> int \<Rightarrow> src_err + string list" where
  "FetchCDX server cdxBase pattern limit =
     (let base = (if cdxBase = [] then defaultCDXBase else cdxBase) in
      if url_parse base = None then Inl BadURL
      else (case decode_reply (\<lambda>v. un_list (\<lambda>r. un_list un_string (Some r)) (Some v))
          (server (base, [(''url'', pattern), (''output'', ''json''), (''fl'', ''original''), (''collapse'', ''urlkey'')] @
             (if limit > 0 then [(''limit'', itoa limit)] else []))) of
        Inl e \<Rightarrow> Inl e
      | Inr rows \<Rightarrow> Inr (unique_rows [] (drop 1 rows))))"

section \<open>Validation\<close>

datatype probeReq = ProbeGet string | ProbePost string

definition validationSpec :: "Candidate \<Rightarrow> probeReq option" where
  "validationSpec c =
     (let slug = path_escape (cd_Slug c); p = cd_Platform c in
      if p = Greenhouse then
        (if cd_Slug c = [] then None else Some (ProbeGet (''https://boards-api.greenhouse.io/v1/boards/'' @ slug @ ''/jobs'')))
      else if p = Lever then
        (if cd_Slug c = [] then None else Some (ProbeGet (''https://api.lever.co/v0/postings/'' @ slug @ ''?mode=json'')))
      else if p = Workable then
        (if cd_Slug c = [] then None else Some (ProbeGet (''https://apply.workable.com/api/v1/widget/accounts/'' @ slug)))
      else if p = Ashby then
        (if cd_Slug c = [] then None else Some (ProbeGet (''https://api.ashbyhq.com/posting-api/job-board/'' @ slug)))
      else if p = SmartRecruiters then
        (if cd_Slug c = [] then None
         else Some (ProbeGet (''https://api.smartrecruiters.com/v1/companies/'' @ slug @ ''/postings?limit=100'')))
      else if p = Workday then
        (if cd_Host c = [] \<or> cd_Tenant c = [] \<or> cd_Site c = [] then None
         else Some (ProbePost (''https://'' @ cd_Host c @ ''/wday/cxs/'' @ path_escape (cd_Tenant c) @ ''/'' @ path_escape (cd_Site c) @ ''/jobs'')))
      else None)"

definition indonesiaSignals :: "string list" where
  "indonesiaSignals = [''indonesia'', ''jakarta'', ''jabodetabek'', ''bekasi'', ''tangerang'', ''depok'', ''bogor'']"

definition hasIndonesiaSignal :: "string \<Rightarrow> bool" where
  "hasIndonesiaSignal body = list_ex (contains (to_lower body)) indonesiaSignals"

definition maxValidationBody :: nat where
  "maxValidationBody = 256 * 1024"

text \<open>\<open>api\<close> answers a probe with a status and what can be read of the body, or not at all.\<close>

definition probe :: "(probeReq \<Rightarrow> (int \<times> string) option) \<Rightarrow> Candidate \<Rightarrow> bool \<times> bool" where
  "probe api c =
     (case validationSpec c of
        None \<Rightarrow> (False, False)
      | Some req \<Rightarrow> (case api req of
          None \<Rightarrow> (False, False)
        | Some (code, body) \<Rightarrow>
            if code \<noteq> 200 then (False, False) else (True, hasIndonesiaSignal (take maxValidationBody body))))"

definition Validate :: "(probeReq \<Rightarrow> (int \<times> string) option) \<Rightarrow> Candidate \<Rightarrow> bool" where
  "Validate api c = fst (probe api c)"

definition validateAll :: "(probeReq \<Rightarrow> (int \<times> string) option) \<Rightarrow> bool \<Rightarrow> Candidate list \<Rightarrow> Candidate list" where
  "validateAll api requireRelevant candidates =
     filter (\<lambda>c. case probe api c of (exists, relevant) \<Rightarrow> exists \<and> (\<not> requireRelevant \<or> relevant)) candidates"

section \<open>Candidates from URLs\<close>

text \<open>The pattern \<open>^[a-z]{2}(-[a-zA-Z]{2,4})?$\<close>.\<close>

definition localeRe :: "string \<Rightarrow> bool" where
  "localeRe s =
     (2 \<le> length s \<and> list_all is_lower_az (take 2 s) \<and>
      (length s = 2 \<or> s ! 2 = CHR ''-'' \<and> 5 \<le> length s \<and> length s \<le> 7 \<and> list_all is_letter (drop 3 s)))"

definition reservedPathSegment :: string where
  "reservedPathSegment = ''job''"

definition pathSegments :: "string \<Rightarrow> string list" where
  "pathSegments path = filterNonEmpty (split_on CHR ''/'' path)"

fun firstNonLocaleSegment :: "string list \<Rightarrow> string" where
  "firstNonLocaleSegment [] = []"
| "firstNonLocaleSegment (s # ss) = (if localeRe s then firstNonLocaleSegment ss else s)"

text \<open>
  The upper case of a first byte; \<open>strings.ToUpper\<close> turns a byte of 128 and more, which alone
  is no character, into the replacement character.
\<close>

definition upper_byte :: "char \<Rightarrow> string" where
  "upper_byte c = (if (of_char c :: int) < 128 then [upper_char c] else [CHR 0xEF, CHR 0xBF, CHR 0xBD])"

definition titleize :: "string \<Rightarrow> string" where
  "titleize s = join '' '' (map (\<lambda>p. upper_byte (hd p) @ tl p) (fields_func (\<lambda>c. c \<in> {CHR ''-'', CHR ''_'', CHR ''.''}) s))"

definition isSandboxWorkdayHost :: "string \<Rightarrow> bool" where
  "isSandboxWorkdayHost host =
     (let labels = split_on CHR ''.'' host in if length labels < 2 then False else has_prefix (labels ! 1) ''impl'')"

definition slugBoard :: "string \<Rightarrow> string \<Rightarrow> string list \<Rightarrow> string \<Rightarrow> Candidate option" where
  "slugBoard p host segments wantHost =
     (if host \<noteq> wantHost \<or> segments = [] then None
      else Some \<lparr>cd_Platform = p, cd_Slug = hd segments, cd_Host = [], cd_Tenant = [], cd_Site = [], cd_Company = titleize (hd segments)\<rparr>)"

definition ExtractCandidate :: "string \<Rightarrow> string \<Rightarrow> Candidate option" where
  "ExtractCandidate p raw =
     (case url_parse (trim_space raw) of
        None \<Rightarrow> None
      | Some u \<Rightarrow>
          if url_Hostname u = [] then None
          else (let host = to_lower (url_Hostname u); segments = pathSegments (url_Path u); board = slugBoard p host segments in
            if p = Greenhouse then
              (case board ''boards.greenhouse.io'' of Some c \<Rightarrow> Some c | None \<Rightarrow> board ''job-boards.greenhouse.io'')
            else if p = Lever then board ''jobs.lever.co''
            else if p = Workable then board ''apply.workable.com''
            else if p = Ashby then board ''jobs.ashbyhq.com''
            else if p = SmartRecruiters then board ''jobs.smartrecruiters.com''
            else if p = Workday then
              (if \<not> has_suffix host ''.myworkdayjobs.com'' \<or> isSandboxWorkdayHost host then None
               else (let tenant = takeWhile (\<lambda>c. c \<noteq> CHR ''.'') host; site = firstNonLocaleSegment segments in
                 if tenant = [] \<or> site = [] \<or> site = reservedPathSegment then None
                 else Some \<lparr>cd_Platform = Workday, cd_Slug = tenant, cd_Host = host, cd_Tenant = tenant, cd_Site = site,
                            cd_Company = titleize tenant\<rparr>))
            else None))"

section \<open>Merging\<close>

text \<open>A catalog entry is a Go map of strings; a missing member reads as the empty string.\<close>

type_synonym entry = "(string, string) gomap"

definition eget :: "entry \<Rightarrow> string \<Rightarrow> string" where
  "eget e k = (case gget e k of Some v \<Rightarrow> v | None \<Rightarrow> [])"

definition entryKey :: "string \<Rightarrow> entry \<Rightarrow> string" where
  "entryKey p e =
     (if p = Workday then
        (if eget e ''host'' = [] \<or> eget e ''site'' = [] then [] else eget e ''host'' @ CHR ''/'' # eget e ''site'')
      else eget e ''slug'')"

definition candidateEntry :: "Candidate \<Rightarrow> entry" where
  "candidateEntry c =
     (if cd_Platform c = Workday
      then [(''host'', cd_Host c), (''tenant'', cd_Tenant c), (''site'', cd_Site c), (''company'', cd_Company c)]
      else [(''slug'', cd_Slug c), (''company'', cd_Company c)])"

text \<open>The loop of both passes: entries with a key not seen before, and the keys seen after it.\<close>

fun keep_new :: "string \<Rightarrow> string list \<Rightarrow> entry list \<Rightarrow> entry list \<times> string list" where
  "keep_new p seen [] = ([], seen)"
| "keep_new p seen (e # es) =
     (let key = entryKey p e in
      if key = [] \<or> key \<in> set seen then keep_new p seen es
      else (case keep_new p (key # seen) es of (out, seen') \<Rightarrow> (e # out, seen')))"

definition MergeEntries :: "string \<Rightarrow> entry list \<Rightarrow> Candidate list \<Rightarrow> entry list \<times> nat" where
  "MergeEntries p existing candidates =
     (let (old, seen) = keep_new p [] existing; (new, _) = keep_new p seen (map candidateEntry candidates)
      in (sort_by (\<lambda>x y. entryKey p x < entryKey p y) (old @ new), length new))"

section \<open>The catalog files\<close>

text \<open>A file is missing, unreadable or has content: \<open>None\<close> if it is blank, else its JSON value if it is JSON.\<close>

datatype catFile = NoFile | Unreadable | Content "raw option"

definition put_member :: "entry option \<Rightarrow> string \<times> json \<Rightarrow> entry option" where
  "put_member acc kv =
     (case acc of None \<Rightarrow> None | Some m \<Rightarrow> (case un_string (snd kv) of None \<Rightarrow> None | Some s \<Rightarrow> Some (gput (fst kv) s m)))"

fun un_map :: "json \<Rightarrow> entry option" where
  "un_map (JObj ms) = foldl put_member (Some []) ms"
| "un_map JNull = Some []"
| "un_map _ = None"

datatype cat_err = CatReadErr | CatDecodeErr | CatWriteErr | CDXErr src_err

definition readCatalog :: "(string \<Rightarrow> catFile) \<Rightarrow> string \<Rightarrow> cat_err + entry list" where
  "readCatalog dir p =
     (case dir p of
        NoFile \<Rightarrow> Inr []
      | Unreadable \<Rightarrow> Inl CatReadErr
      | Content None \<Rightarrow> Inr []
      | Content (Some r) \<Rightarrow> (case un_list un_map r of None \<Rightarrow> Inl CatDecodeErr | Some es \<Rightarrow> Inr es))"

text \<open>
  A map is written with its keys in order. \<open>writable\<close> tells which files can be opened for writing;
  a write that breaks off half-way is not modelled.
\<close>

definition entry_json :: "entry \<Rightarrow> json" where
  "entry_json e = JObj (map (\<lambda>(k, v). (k, JStr v)) (sort_by (\<lambda>x y. fst x < fst y) e))"

definition writeCatalog ::
  "(string \<Rightarrow> bool) \<Rightarrow> (string \<Rightarrow> catFile) \<Rightarrow> string \<Rightarrow> entry list \<Rightarrow> (string \<Rightarrow> catFile) \<times> cat_err option" where
  "writeCatalog writable dir p es =
     (if writable p then (dir(p := Content (Some (Some (JArr (map entry_json es))))), None) else (dir, Some CatWriteErr))"

section \<open>A run\<close>

record discConfig =
  dc_Platforms :: "string list"
  dc_Limit :: int
  dc_Write :: bool
  dc_AllowGlobal :: bool
  dc_CDXBase :: string

record PlatformReport =
  pt_Discovered :: nat
  pt_Validated :: nat
  pt_Added :: nat
  pt_Total :: nat
  pt_Err :: "cat_err option"

fun gather :: "string \<Rightarrow> string list \<Rightarrow> string list \<Rightarrow> Candidate list \<times> string list" where
  "gather p seen [] = ([], seen)"
| "gather p seen (u # us) =
     (case ExtractCandidate p u of
        None \<Rightarrow> gather p seen us
      | Some c \<Rightarrow> if cand_Key c \<in> set seen then gather p seen us
                  else (case gather p (cand_Key c # seen) us of (cs, seen') \<Rightarrow> (c # cs, seen')))"

text \<open>The patterns of a platform in turn: candidates, keys seen, URLs counted and the first error.\<close>

fun search_patterns ::
  "(string \<Rightarrow> src_err + string list) \<Rightarrow> string \<Rightarrow> string list \<Rightarrow> string list \<Rightarrow> Candidate list \<times> nat \<times> cat_err option" where
  "search_patterns fetch p seen [] = ([], 0, None)"
| "search_patterns fetch p seen (q # qs) =
     (let (urls, err) = (case fetch q of Inl e \<Rightarrow> ([], Some (CDXErr e)) | Inr us \<Rightarrow> (us, None));
          (cs, seen') = gather p seen urls;
          (rest, n, err') = search_patterns fetch p seen' qs
      in (cs @ rest, length urls + n, (if err \<noteq> None then err else err')))"

definition runPlatform ::
  "(request \<Rightarrow> reply) \<Rightarrow> (probeReq \<Rightarrow> (int \<times> string) option) \<Rightarrow> (string \<Rightarrow> bool) \<Rightarrow> discConfig \<Rightarrow> (string \<Rightarrow> catFile) \<Rightarrow> string \<Rightarrow>
   (string \<Rightarrow> catFile) \<times> PlatformReport" where
  "runPlatform server api writable cfg dir p =
     (case readCatalog dir p of
        Inl e \<Rightarrow> (dir, \<lparr>pt_Discovered = 0, pt_Validated = 0, pt_Added = 0, pt_Total = 0, pt_Err = Some e\<rparr>)
      | Inr existing \<Rightarrow>
          (let (candidates, n, err) = search_patterns (\<lambda>q. FetchCDX server (dc_CDXBase cfg) q (dc_Limit cfg)) p [] (CDXPatterns p);
               valid = validateAll api (\<not> dc_AllowGlobal cfg) candidates;
               (merged, added) = MergeEntries p existing valid;
               (dir', werr) = (if dc_Write cfg then writeCatalog writable dir p merged else (dir, None))
           in (dir', \<lparr>pt_Discovered = n, pt_Validated = length valid, pt_Added = added, pt_Total = length merged,
                      pt_Err = (if werr \<noteq> None then werr else err)\<rparr>)))"

fun runPlatforms ::
  "(request \<Rightarrow> reply) \<Rightarrow> (probeReq \<Rightarrow> (int \<times> string) option) \<Rightarrow> (string \<Rightarrow> bool) \<Rightarrow> discConfig \<Rightarrow> (string \<Rightarrow> catFile) \<Rightarrow>
   (string, PlatformReport) gomap \<Rightarrow> string list \<Rightarrow> (string \<Rightarrow> catFile) \<times> (string, PlatformReport) gomap" where
  "runPlatforms server api writable cfg dir rep [] = (dir, rep)"
| "runPlatforms server api writable cfg dir rep (p # ps) =
     (case runPlatform server api writable cfg dir p of (dir', pr) \<Rightarrow> runPlatforms server api writable cfg dir' (gput p pr rep) ps)"

text \<open>\<open>mkdir\<close> is whether the output directory could be made; \<open>None\<close> is the error of the run.\<close>

definition disc_Run ::
  "bool \<Rightarrow> (request \<Rightarrow> reply) \<Rightarrow> (probeReq \<Rightarrow> (int \<times> string) option) \<Rightarrow> (string \<Rightarrow> bool) \<Rightarrow> discConfig \<Rightarrow> (string \<Rightarrow> catFile) \<Rightarrow>
   (string \<Rightarrow> catFile) \<times> (string, PlatformReport) gomap option" where
  "disc_Run mkdir server api writable cfg0 dir =
     (let cfg1 = (if dc_Platforms cfg0 = [] then cfg0\<lparr>dc_Platforms := Platforms\<rparr> else cfg0);
          cfg = (if dc_Limit cfg1 \<le> 0 then cfg1\<lparr>dc_Limit := 200\<rparr> else cfg1)
      in if \<not> mkdir then (dir, None)
         else (case runPlatforms server api writable cfg dir [] (dc_Platforms cfg) of (dir', rep) \<Rightarrow> (dir', Some rep)))"

text \<open>The flag that names the platforms.\<close>

definition parsePlatforms :: "string \<Rightarrow> string + string list" where
  "parsePlatforms raw0 =
     (let raw = trim_space raw0 in
      if raw = [] then Inr []
      else (let parts = map trim_space (split_on CHR '','' raw) in
        case find (\<lambda>p. p \<notin> set Platforms) parts of Some p \<Rightarrow> Inl (''unknown platform '' @ p) | None \<Rightarrow> Inr parts))"

end
