(* ===== verification/Discover_Props.thy ===== *)
theory Discover_Props
  imports Discover Ingest_ATS
begin

text \<open>
  What board discovery promises: a merged catalog is sorted, without duplicates and keeps what
  it had, and a run adds only boards that the archive showed and whose API answered.
\<close>

section \<open>Merging\<close>

lemma keep_new_spec:
  "keep_new p seen es = (out, seen') \<Longrightarrow>
   set seen' = set seen \<union> entryKey p ` set out \<and> distinct (map (entryKey p) out) \<and>
   entryKey p ` set out = entryKey p ` set es - set seen - {[]} \<and>
   (\<forall>e \<in> set out. find (\<lambda>x. entryKey p x = entryKey p e) es = Some e)"
proof (induction es arbitrary: seen out seen')
  case (Cons e es)
  show ?case
  proof (cases "entryKey p e = [] \<or> entryKey p e \<in> set seen")
    case True
    then have k: "keep_new p seen es = (out, seen')" using Cons.prems by simp
    have n: "entryKey p e \<noteq> entryKey p x" if "x \<in> set out" for x
      using Cons.IH [OF k] that True by fastforce
    show ?thesis using Cons.IH [OF k] True n by auto
  next
    case False
    then obtain o1 where o: "keep_new p (entryKey p e # seen) es = (o1, seen')" "out = e # o1"
      using Cons.prems by (auto simp: Let_def split: prod.splits)
    have n: "entryKey p e \<noteq> entryKey p x" if "x \<in> set o1" for x
      using Cons.IH [OF o(1)] that by fastforce
    have "entryKey p e \<notin> set (map (entryKey p) o1)" using n by auto
    then show ?thesis using Cons.IH [OF o(1)] False n o(2) by (auto simp: image_iff)
  qed
qed simp

lemma sorted_distinct_strict:
  "sorted_wrt (\<lambda>x y. \<not> f y < f x) xs \<Longrightarrow> distinct (map f xs) \<Longrightarrow> sorted_wrt (\<lambda>x y. f x < (f y :: 'k :: linorder)) xs"
  by (induction xs) (auto simp: order.strict_iff_order)

lemma set_diff_again: "(A :: 'a set) - (B - C) - C = A - B - C"
  by (rule set_eqI) auto

lemma find_app: "find P (xs @ ys) = (case find P xs of None \<Rightarrow> find P ys | Some x \<Rightarrow> Some x)"
  by (induction xs) auto

lemma strict_distinct: "sorted_wrt (\<lambda>x y. f x < (f y :: 'k :: linorder)) xs \<Longrightarrow> distinct (map f xs)"
  by (induction xs) fastforce+

lemma sort_by_strict:
  assumes "sorted_wrt (\<lambda>x y. f x < (f y :: 'k :: linorder)) xs"
  shows "sort_by (\<lambda>x y. f x < f y) xs = xs"
proof (rule sorted_by_unique [OF weak_order_key [of f] sorted_sort_by [OF weak_order_key]])
  show "sorted_by (\<lambda>x y. f x < f y) xs" by (rule sorted_wrt_mono_rel [OF _ assms]) auto
  show "mset (sort_by (\<lambda>x y. f x < f y) xs) = mset xs" by simp
  fix a b assume ab: "a \<in> set (sort_by (\<lambda>x y. f x < f y) xs)" "b \<in> set (sort_by (\<lambda>x y. f x < f y) xs)" "\<not> f a < f b" "\<not> f b < f a"
  have "inj_on f (set xs)" using strict_distinct [OF assms] by (simp add: distinct_map)
  moreover have "f a = f b" using ab(3,4) by simp
  ultimately show "a = b" using ab(1,2) by (simp add: inj_onD)
qed

lemma keep_new_distinct:
  "distinct (map (entryKey p) es) \<Longrightarrow> [] \<notin> entryKey p ` set es \<Longrightarrow> entryKey p ` set es \<inter> set seen = {} \<Longrightarrow>
   keep_new p seen es = (es, rev (map (entryKey p) es) @ seen)"
proof (induction es arbitrary: seen)
  case (Cons e es)
  have "keep_new p (entryKey p e # seen) es = (es, rev (map (entryKey p) es) @ entryKey p e # seen)"
    by (rule Cons.IH) (use Cons.prems in auto)
  then show ?case using Cons.prems by (auto simp: Let_def)
qed simp

lemma keep_new_none: "entryKey p ` set es \<subseteq> insert [] (set seen) \<Longrightarrow> keep_new p seen es = ([], seen)"
  by (induction es) auto

lemma MergeEntries_spec:
  assumes "MergeEntries p existing candidates = (out, added)"
  shows "sorted_wrt (\<lambda>x y. entryKey p x < entryKey p y) out"
    and "entryKey p ` set out = entryKey p ` (set existing \<union> set (map candidateEntry candidates)) - {[]}"
    and "\<forall>e \<in> set out. find (\<lambda>x. entryKey p x = entryKey p e) (existing @ map candidateEntry candidates) = Some e"
    and "added = card (entryKey p ` set (map candidateEntry candidates) - entryKey p ` set existing - {[]})"
proof -
  let ?cs = "map candidateEntry candidates"
  obtain old seen where o: "keep_new p [] existing = (old, seen)" by (cases "keep_new p [] existing")
  obtain new seen' where n: "keep_new p seen ?cs = (new, seen')" by (cases "keep_new p seen ?cs")
  note O = keep_new_spec [OF o] and N = keep_new_spec [OF n]
  have out: "out = sort_by (\<lambda>x y. entryKey p x < entryKey p y) (old @ new)" "added = length new"
    using assms by (simp_all add: MergeEntries_def o n)
  have "distinct (map (entryKey p) (old @ new))" using O N by auto
  then show "sorted_wrt (\<lambda>x y. entryKey p x < entryKey p y) out"
    unfolding out by (intro sorted_distinct_strict sorted_sort_by weak_order_key) (simp_all only: distinct_sort_by)
  have seen: "set seen = entryKey p ` set existing - {[]}" using O by auto
  show "entryKey p ` set out = entryKey p ` (set existing \<union> set ?cs) - {[]}"
    using O N unfolding out by (auto simp: image_Un)
  have "find (\<lambda>x. entryKey p x = entryKey p e) existing = None" if "e \<in> set new" for e
  proof -
    have "entryKey p e \<in> entryKey p ` set new" using that by (rule imageI)
    then have "entryKey p e \<notin> entryKey p ` set existing" using N seen by blast
    then show ?thesis unfolding find_None_iff by (metis imageI)
  qed
  note none = this
  show "\<forall>e \<in> set out. find (\<lambda>x. entryKey p x = entryKey p e) (existing @ ?cs) = Some e"
  proof
    fix e assume "e \<in> set out"
    then consider "e \<in> set old" | "e \<in> set new" unfolding out by auto
    then show "find (\<lambda>x. entryKey p x = entryKey p e) (existing @ ?cs) = Some e"
    proof cases
      case 1
      then have "find (\<lambda>x. entryKey p x = entryKey p e) existing = Some e" using O by blast
      then show ?thesis by (simp only: find_app option.case)
    next
      case 2
      then have "find (\<lambda>x. entryKey p x = entryKey p e) ?cs = Some e" using N by blast
      then show ?thesis by (simp only: find_app none [OF 2] option.case)
    qed
  qed
  have "length new = card (entryKey p ` set new)" using N by (metis distinct_card length_map list.set_map)
  moreover have "entryKey p ` set new = entryKey p ` set ?cs - entryKey p ` set existing - {[]}"
  proof -
    have "entryKey p ` set new = entryKey p ` set ?cs - set seen - {[]}" using N by (elim conjE)
    then show ?thesis unfolding seen by (simp only: set_diff_again)
  qed
  ultimately show "added = card (entryKey p ` set ?cs - entryKey p ` set existing - {[]})" unfolding out by simp
qed

lemma MergeEntries_again:
  assumes "MergeEntries p existing candidates = (out, added)"
  shows "MergeEntries p out candidates = (out, 0)"
proof -
  note s = MergeEntries_spec [OF assms]
  have "[] \<notin> entryKey p ` set out" using s(2) by auto
  then have "keep_new p [] out = (out, rev (map (entryKey p) out))"
    using keep_new_distinct [OF strict_distinct [OF s(1)], of "[]"] by simp
  moreover have "keep_new p (rev (map (entryKey p) out)) (map candidateEntry candidates) = ([], rev (map (entryKey p) out))"
  proof (rule keep_new_none)
    have "set (rev (map (entryKey p) out)) = entryKey p ` set out" by simp
    then show "entryKey p ` set (map candidateEntry candidates) \<subseteq> insert [] (set (rev (map (entryKey p) out)))"
      unfolding s(2) by blast
  qed
  ultimately show ?thesis using sort_by_strict [OF s(1)] by (simp add: MergeEntries_def)
qed

text \<open>
  Merging is canonical. The merged catalog is strictly sorted by identity, has an entry for
  exactly the identities of the catalog and the candidates that are not empty, each entry the
  first one under its identity with the catalog before the candidates, so that nothing
  curated is overwritten; the count is that of the new identities; and merging the same
  candidates again changes nothing.
\<close>

theorem merge_canonical:
  assumes "MergeEntries p existing candidates = (out, added)"
  shows "sorted_wrt (\<lambda>x y. entryKey p x < entryKey p y) out \<and>
    entryKey p ` set out = entryKey p ` (set existing \<union> set (map candidateEntry candidates)) - {[]} \<and>
    (\<forall>e \<in> set out. find (\<lambda>x. entryKey p x = entryKey p e) (existing @ map candidateEntry candidates) = Some e) \<and>
    added = card (entryKey p ` set (map candidateEntry candidates) - entryKey p ` set existing - {[]}) \<and>
    MergeEntries p out candidates = (out, 0)"
  using MergeEntries_spec [OF assms] MergeEntries_again [OF assms] by blast

definition sampleCand :: Candidate where
  "sampleCand = \<lparr>cd_Platform = Lever, cd_Slug = ''acme'', cd_Host = [], cd_Tenant = [], cd_Site = [], cd_Company = ''Acme''\<rparr>"

theorem merge_canonical_witness:
  "\<exists>out. MergeEntries Lever [[(''slug'', ''zeta'')], [(''slug'', ''acme''), (''company'', ''Acme Corp'')]] [sampleCand] = (out, 0) \<and>
     entryKey Lever ` set out = {''acme'', ''zeta''}"
proof -
  let ?old = "[[(''slug'', ''zeta'')], [(''slug'', ''acme''), (''company'', ''Acme Corp'')]]"
  obtain out added where m: "MergeEntries Lever ?old [sampleCand] = (out, added)" by (cases "MergeEntries Lever ?old [sampleCand]")
  have "snd (MergeEntries Lever ?old [sampleCand]) = 0" by code_simp
  then have "added = 0" using m by simp
  have k: "entryKey Lever [(''slug'', ''zeta'')] = ''zeta''" "entryKey Lever [(''slug'', ''acme''), (''company'', ''Acme Corp'')] = ''acme''"
    "entryKey Lever (candidateEntry sampleCand) = ''acme''" by code_simp+
  have "entryKey Lever ` set out = entryKey Lever ` (set ?old \<union> set (map candidateEntry [sampleCand])) - {[]}"
    using merge_canonical [OF m] by blast
  also have "\<dots> = {''acme'', ''zeta''}" by (auto simp: k)
  finally show ?thesis using m \<open>added = 0\<close> by blast
qed

section \<open>A catalog written and read back\<close>

lemma gput_new: "k \<notin> fst ` set m \<Longrightarrow> gput k v m = m @ [(k, v)]"
  by (induction m) (auto simp: gput_def)

lemma put_members:
  "distinct (map fst (m @ ms)) \<Longrightarrow> foldl put_member (Some m) (map (\<lambda>(k, v). (k, JStr v)) ms) = Some (m @ ms)"
proof (induction ms arbitrary: m)
  case (Cons kv ms)
  obtain k v where kv: "kv = (k, v)" by (cases kv)
  have "k \<notin> fst ` set m" using Cons.prems by (auto simp: kv)
  then show ?case using Cons.IH [of "m @ [(k, v)]"] Cons.prems by (simp add: kv put_member_def gput_new)
qed simp

lemma un_map_entry: "gok e \<Longrightarrow> un_map (entry_json e) = Some (sort_by (\<lambda>x y. fst x < fst y) e)"
  using put_members [of "[]" "sort_by (\<lambda>x y. fst x < fst y) e"] by (simp add: entry_json_def gok_def)

lemma gok_sort_by [simp]: "gok (sort_by lt e) = gok e"
  by (simp add: gok_def)

lemma gget_sort_by: "gok e \<Longrightarrow> gget (sort_by lt e) = gget e"
proof
  fix k assume e: "gok e"
  have "gget (sort_by lt e) k = Some v \<longleftrightarrow> gget e k = Some v" for v using e by (simp add: gget_mem)
  then show "gget (sort_by lt e) k = gget e k" by (cases "gget e k") (auto simp: option.expand)
qed

lemma put_member_gok: "put_member acc kv = Some e \<Longrightarrow> (\<And>m. acc = Some m \<Longrightarrow> gok m) \<Longrightarrow> gok e"
  by (auto simp: put_member_def split: option.splits)

lemma foldl_put_gok: "foldl put_member acc ms = Some e \<Longrightarrow> (\<And>m. acc = Some m \<Longrightarrow> gok m) \<Longrightarrow> gok e"
proof (induction ms arbitrary: acc)
  case (Cons kv ms)
  have "foldl put_member (put_member acc kv) ms = Some e" using Cons.prems(1) by simp
  then show ?case by (rule Cons.IH) (erule put_member_gok [OF _ Cons.prems(2)])
qed simp

lemma un_map_gok: "un_map v = Some e \<Longrightarrow> gok e"
  by (cases v) (auto intro: foldl_put_gok)

lemma readCatalog_gok: "readCatalog dir p = Inr es \<Longrightarrow> e \<in> set es \<Longrightarrow> gok e"
proof -
  assume r: "readCatalog dir p = Inr es" and e: "e \<in> set es"
  have all: "list_all gok es" if "all_some (map un_map vs) = Some es" for vs
    using that by (induction vs arbitrary: es) (auto dest: un_map_gok split: option.splits)
  have "list_all gok es" if "un_list un_map r = Some es" for r
    using that all by (cases "(un_map, r)" rule: un_list.cases) auto
  then show "gok e" using r e by (auto simp: readCatalog_def list_all_iff split: catFile.splits option.splits)
qed

lemma candidateEntry_gok: "gok (candidateEntry c)"
  by (simp add: candidateEntry_def gok_def)

lemma entryKey_gget: "gget e = gget e' \<Longrightarrow> entryKey p e = entryKey p e'"
  by (simp add: entryKey_def eget_def)

lemma read_written:
  assumes "\<forall>e \<in> set es. gok e" "writeCatalog writable dir p es = (dir', None)"
  shows "readCatalog dir' p = Inr (map (sort_by (\<lambda>x y. fst x < fst y)) es)"
proof -
  have "all_some (map un_map (map entry_json es)) = Some (map (sort_by (\<lambda>x y. fst x < fst y)) es)"
    using assms(1) by (induction es) (auto simp: un_map_entry)
  then show ?thesis using assms(2) by (auto simp: writeCatalog_def readCatalog_def split: if_splits)
qed

section \<open>Where the entries of a catalog come from\<close>

definition disc_limit :: "discConfig \<Rightarrow> int" where
  "disc_limit cfg = (if dc_Limit cfg \<le> 0 then 200 else dc_Limit cfg)"

definition archived :: "(request \<Rightarrow> reply) \<Rightarrow> discConfig \<Rightarrow> string \<Rightarrow> Candidate \<Rightarrow> bool" where
  "archived server cfg p c =
     (\<exists>q \<in> set (CDXPatterns p). \<exists>us. FetchCDX server (dc_CDXBase cfg) q (disc_limit cfg) = Inr us \<and>
        (\<exists>u \<in> set us. ExtractCandidate p u = Some c))"

definition accepted :: "(probeReq \<Rightarrow> (int \<times> string) option) \<Rightarrow> discConfig \<Rightarrow> Candidate \<Rightarrow> bool" where
  "accepted api cfg c =
     (\<exists>req body. validationSpec c = Some req \<and> api req = Some (200, body) \<and>
        (dc_AllowGlobal cfg \<or> hasIndonesiaSignal (take maxValidationBody body)))"

text \<open>
  A catalog grows: no identity is lost, and what is in it was in it before, member by member,
  or is the entry of a candidate with the property \<open>G\<close>.
\<close>

definition cat_grows :: "(Candidate \<Rightarrow> bool) \<Rightarrow> string \<Rightarrow> entry list \<Rightarrow> entry list \<Rightarrow> bool" where
  "cat_grows G p es es' \<longleftrightarrow>
     entryKey p ` set es - {[]} \<subseteq> entryKey p ` set es' \<and>
     (\<forall>e' \<in> set es'. (\<exists>e \<in> set es. gget e' = gget e) \<or> (\<exists>c. G c \<and> gget e' = gget (candidateEntry c)))"

definition catalog_kept :: "(Candidate \<Rightarrow> bool) \<Rightarrow> (string \<Rightarrow> catFile) \<Rightarrow> (string \<Rightarrow> catFile) \<Rightarrow> string \<Rightarrow> bool" where
  "catalog_kept G dir dir' p =
     (case readCatalog dir p of
        Inl _ \<Rightarrow> dir' p = dir p
      | Inr es \<Rightarrow> (\<exists>es'. readCatalog dir' p = Inr es' \<and> cat_grows G p es es'))"

lemma cat_grows_refl: "cat_grows G p es es"
  by (auto simp: cat_grows_def)

lemma cat_grows_trans:
  assumes "cat_grows G p es es'" "cat_grows G p es' es''"
  shows "cat_grows G p es es''"
  unfolding cat_grows_def
proof (intro conjI ballI)
  show "entryKey p ` set es - {[]} \<subseteq> entryKey p ` set es''" using assms unfolding cat_grows_def by blast
  fix e'' assume "e'' \<in> set es''"
  then consider e' where "e' \<in> set es'" "gget e'' = gget e'" | c where "G c" "gget e'' = gget (candidateEntry c)"
    using assms(2) unfolding cat_grows_def by blast
  then show "(\<exists>e \<in> set es. gget e'' = gget e) \<or> (\<exists>c. G c \<and> gget e'' = gget (candidateEntry c))"
  proof cases
    case 1
    then have "(\<exists>e \<in> set es. gget e' = gget e) \<or> (\<exists>c. G c \<and> gget e' = gget (candidateEntry c))"
      using assms(1) unfolding cat_grows_def by blast
    then show ?thesis by (simp only: 1(2))
  qed blast
qed

lemma readCatalog_same: "dir' p = dir p \<Longrightarrow> readCatalog dir' p = readCatalog dir p"
  by (simp add: readCatalog_def)

lemma catalog_kept_refl: "dir' p = dir p \<Longrightarrow> catalog_kept G dir dir' p"
  using readCatalog_same [of dir' p dir] cat_grows_refl [of G p]
  by (cases "readCatalog dir p") (simp_all add: catalog_kept_def)

lemma catalog_kept_trans:
  assumes "catalog_kept G dir dir' p" "catalog_kept G dir' dir'' p"
  shows "catalog_kept G dir dir'' p"
proof (cases "readCatalog dir p")
  case (Inl e)
  then have "dir' p = dir p" using assms(1) by (simp add: catalog_kept_def)
  then show ?thesis using assms(2) Inl readCatalog_same [of dir' p dir] by (simp add: catalog_kept_def)
next
  case (Inr es)
  then obtain es' where es': "readCatalog dir' p = Inr es'" "cat_grows G p es es'"
    using assms(1) by (auto simp: catalog_kept_def)
  then obtain es'' where "readCatalog dir'' p = Inr es''" "cat_grows G p es' es''"
    using assms(2) by (auto simp: catalog_kept_def)
  then show ?thesis using Inr cat_grows_trans [OF es'(2)] by (auto simp: catalog_kept_def)
qed

section \<open>A run\<close>

lemma gather_from: "c \<in> set (fst (gather p seen us)) \<Longrightarrow> \<exists>u \<in> set us. ExtractCandidate p u = Some c"
proof (induction us arbitrary: seen)
  case (Cons u us)
  have "c \<in> set (fst (gather p seen (u # us))) \<Longrightarrow>
    ExtractCandidate p u = Some c \<or> (\<exists>seen'. c \<in> set (fst (gather p seen' us)))"
    by (auto split: option.splits if_splits prod.splits) (metis fst_conv)+
  then show ?case using Cons by auto
qed simp

lemma search_patterns_from:
  "c \<in> set (fst (search_patterns fetch p seen qs)) \<Longrightarrow>
   \<exists>q \<in> set qs. \<exists>us. fetch q = Inr us \<and> (\<exists>u \<in> set us. ExtractCandidate p u = Some c)"
proof (induction qs arbitrary: seen)
  case (Cons q qs)
  define urls where "urls = (case fetch q of Inl e \<Rightarrow> [] | Inr us \<Rightarrow> us)"
  obtain cs seen' where g: "gather p seen urls = (cs, seen')" by (cases "gather p seen urls")
  obtain rest n err where r: "search_patterns fetch p seen' qs = (rest, n, err)" by (cases "search_patterns fetch p seen' qs")
  have "fst (search_patterns fetch p seen (q # qs)) = cs @ rest"
    using g r by (cases "fetch q") (simp_all add: urls_def)
  then consider "c \<in> set cs" | "c \<in> set rest" using Cons.prems by auto
  then show ?case
  proof cases
    case 1
    then have "\<exists>u \<in> set urls. ExtractCandidate p u = Some c" using gather_from [of c p seen urls] g by simp
    then show ?thesis by (cases "fetch q") (auto simp: urls_def)
  next
    case 2
    then show ?thesis using Cons.IH [of seen'] r by auto
  qed
qed simp

lemma accepted_probe:
  "(case probe api c of (exists, relevant) \<Rightarrow> exists \<and> (\<not> \<not> dc_AllowGlobal cfg \<or> relevant)) \<longleftrightarrow> accepted api cfg c"
  by (auto simp: probe_def accepted_def split: option.splits)

lemma validateAll_accepted: "c \<in> set (validateAll api (\<not> dc_AllowGlobal cfg) cs) \<longleftrightarrow> c \<in> set cs \<and> accepted api cfg c"
  by (simp only: validateAll_def set_filter mem_Collect_eq accepted_probe)

lemma MergeEntries_from:
  assumes "MergeEntries p existing candidates = (out, added)" "e \<in> set out"
  shows "e \<in> set existing \<or> (\<exists>c \<in> set candidates. e = candidateEntry c)"
proof -
  have "find (\<lambda>x. entryKey p x = entryKey p e) (existing @ map candidateEntry candidates) = Some e"
    using MergeEntries_spec(3) [OF assms(1)] assms(2) by blast
  then have "e \<in> set (existing @ map candidateEntry candidates)" unfolding find_Some_iff by (metis nth_mem)
  then show ?thesis by auto
qed

lemma image_same: "(\<And>x. x \<in> A \<Longrightarrow> f (g x) = f x) \<Longrightarrow> f ` g ` A = f ` A"
  by (simp add: image_image)

lemma written_grows:
  assumes r: "readCatalog dir p = Inr es" and m: "MergeEntries p es valid = (out, added)"
    and w: "writeCatalog writable dir p out = (dir', None)" and v: "\<And>c. c \<in> set valid \<Longrightarrow> G c"
  shows "catalog_kept G dir dir' p"
proof -
  let ?s = "sort_by (\<lambda>x y. fst x < fst y)"
  have out: "e \<in> set es \<or> (\<exists>c \<in> set valid. e = candidateEntry c)" if "e \<in> set out" for e
    using MergeEntries_from [OF m that] .
  have ok: "gok e" if "e \<in> set out" for e
    using out [OF that] readCatalog_gok [OF r] candidateEntry_gok by blast
  have r': "readCatalog dir' p = Inr (map ?s out)" using read_written [OF _ w] ok by blast
  have "cat_grows G p es (map ?s out)"
    unfolding cat_grows_def
  proof (intro conjI ballI)
    have same: "entryKey p ` set (map ?s out) = entryKey p ` set out"
      unfolding list.set_map by (rule image_same) (rule entryKey_gget, rule gget_sort_by, erule ok)
    show "entryKey p ` set es - {[]} \<subseteq> entryKey p ` set (map ?s out)"
      unfolding same MergeEntries_spec(2) [OF m] by blast
    fix e' assume "e' \<in> set (map ?s out)"
    then obtain e where e: "e \<in> set out" "e' = ?s e" by auto
    have "gget e' = gget e" unfolding e(2) by (rule gget_sort_by [OF ok [OF e(1)]])
    then show "(\<exists>e \<in> set es. gget e' = gget e) \<or> (\<exists>c. G c \<and> gget e' = gget (candidateEntry c))"
      using out [OF e(1)] v unfolding \<open>gget e' = gget e\<close> by blast
  qed
  then show ?thesis using r r' by (simp add: catalog_kept_def)
qed

definition found :: "(request \<Rightarrow> reply) \<Rightarrow> (probeReq \<Rightarrow> (int \<times> string) option) \<Rightarrow> discConfig \<Rightarrow> string \<Rightarrow> Candidate \<Rightarrow> bool" where
  "found server api cfg p c \<longleftrightarrow> archived server cfg p c \<and> accepted api cfg c"

lemma runPlatform_kept:
  assumes run: "runPlatform server api writable cfg dir p = (dir', pr)" and l: "dc_Limit cfg > 0"
  shows "catalog_kept (found server api cfg p) dir dir' p"
    and "q \<noteq> p \<or> \<not> dc_Write cfg \<Longrightarrow> dir' q = dir q"
proof -
  have "catalog_kept (found server api cfg p) dir dir' p \<and> (q \<noteq> p \<or> \<not> dc_Write cfg \<longrightarrow> dir' q = dir q)"
  proof (cases "readCatalog dir p")
    case (Inl e)
    then show ?thesis using run by (auto simp: runPlatform_def intro: catalog_kept_refl)
  next
    case (Inr es)
    let ?fetch = "\<lambda>q. FetchCDX server (dc_CDXBase cfg) q (dc_Limit cfg)"
    obtain cs n err where s: "search_patterns ?fetch p [] (CDXPatterns p) = (cs, n, err)"
      by (cases "search_patterns ?fetch p [] (CDXPatterns p)")
    define valid where "valid = validateAll api (\<not> dc_AllowGlobal cfg) cs"
    obtain out added where m: "MergeEntries p es valid = (out, added)" by (cases "MergeEntries p es valid")
    have f: "found server api cfg p c" if "c \<in> set valid" for c
    proof -
      have "c \<in> set cs" "accepted api cfg c" using that by (simp_all add: valid_def validateAll_accepted)
      then show ?thesis using search_patterns_from [of c ?fetch p "[]" "CDXPatterns p"] s l
        by (auto simp: found_def archived_def disc_limit_def)
    qed
    have d: "dir' = fst (if dc_Write cfg then writeCatalog writable dir p out else (dir, None))"
      using run by (auto simp: runPlatform_def Inr s valid_def [symmetric] m split: prod.splits)
    show ?thesis
    proof (cases "dc_Write cfg \<and> writable p")
      case True
      then have w: "writeCatalog writable dir p out = (dir', None)" using d by (simp add: writeCatalog_def)
      have "dir' q = dir q" if "q \<noteq> p" using w that by (auto simp: writeCatalog_def split: if_splits)
      moreover have "catalog_kept (found server api cfg p) dir dir' p" by (rule written_grows [OF Inr m w]) (rule f)
      ultimately show ?thesis using True by blast
    next
      case False
      then have "dir' = dir" using d by (auto simp: writeCatalog_def)
      then show ?thesis by (auto intro: catalog_kept_refl)
    qed
  qed
  then show "catalog_kept (found server api cfg p) dir dir' p" "q \<noteq> p \<or> \<not> dc_Write cfg \<Longrightarrow> dir' q = dir q" by blast+
qed

lemma runPlatforms_kept:
  "runPlatforms server api writable cfg dir rep ps = (dir', rep') \<Longrightarrow> dc_Limit cfg > 0 \<Longrightarrow>
   catalog_kept (found server api cfg q) dir dir' q \<and> (q \<notin> set ps \<or> \<not> dc_Write cfg \<longrightarrow> dir' q = dir q)"
proof (induction ps arbitrary: dir rep)
  case Nil
  then show ?case by (auto intro: catalog_kept_refl)
next
  case (Cons p ps)
  obtain dir1 pr where r: "runPlatform server api writable cfg dir p = (dir1, pr)"
    by (cases "runPlatform server api writable cfg dir p")
  have rest: "runPlatforms server api writable cfg dir1 (gput p pr rep) ps = (dir', rep')" using Cons.prems(1) r by simp
  note ih = Cons.IH [OF rest Cons.prems(2)] and one = runPlatform_kept [OF r Cons.prems(2)]
  have "catalog_kept (found server api cfg q) dir dir1 q"
    using one(1) one(2) [of q] by (cases "q = p") (auto intro: catalog_kept_refl)
  then show ?case using ih one(2) [of q] by (auto intro: catalog_kept_trans)
qed

text \<open>
  C33: Discovery only adds boards it has seen. A run, whatever its platforms and whatever fails
  in it, leaves every catalog that cannot be read or parsed as it is, and any other is still
  readable afterwards, has all its identities, and each of its entries is, member by member,
  one it had before or that of a candidate which an archived URL of the platform names and whose
  board answered the probe with 200 and, unless the run is global, with an Indonesian place.
  Without the write flag, and for platforms not asked for, the file is untouched.
\<close>

theorem discovery_sound:
  assumes "disc_Run mkdir server api writable cfg dir = (dir', report)"
  shows "catalog_kept (found server api cfg p) dir dir' p \<and>
    (\<not> dc_Write cfg \<or> dc_Platforms cfg \<noteq> [] \<and> p \<notin> set (dc_Platforms cfg) \<longrightarrow> dir' p = dir p)"
proof (cases mkdir)
  case False
  then show ?thesis using assms by (auto simp: disc_Run_def Let_def intro: catalog_kept_refl)
next
  case True
  define cfg' where "cfg' = (let cfg1 = (if dc_Platforms cfg = [] then cfg\<lparr>dc_Platforms := Platforms\<rparr> else cfg)
    in if dc_Limit cfg1 \<le> 0 then cfg1\<lparr>dc_Limit := 200\<rparr> else cfg1)"
  have c: "dc_Limit cfg' > 0" "dc_Write cfg' = dc_Write cfg" "found server api cfg' p = found server api cfg p"
    "dc_Platforms cfg \<noteq> [] \<Longrightarrow> dc_Platforms cfg' = dc_Platforms cfg"
    by (auto simp: cfg'_def Let_def found_def archived_def accepted_def disc_limit_def fun_eq_iff)
  obtain rep where r: "runPlatforms server api writable cfg' dir [] (dc_Platforms cfg') = (dir', rep)"
    using assms True by (auto simp: disc_Run_def cfg'_def Let_def split: prod.splits)
  show ?thesis using runPlatforms_kept [OF r c(1), of p] c by (auto simp: disc_limit_def)
qed

text \<open>A run over an archive with one page of the board, which answers and is in Jakarta.\<close>

definition oneServer :: "request \<Rightarrow> reply" where
  "oneServer r = Reply 200 (Some (JArr [JArr [JStr ''original''], JArr [JStr ''https://jobs.lever.co/acme/1'']]))"

definition oneApi :: "probeReq \<Rightarrow> (int \<times> string) option" where
  "oneApi r = Some (200, ''Jakarta'')"

definition leverCfg :: discConfig where
  "leverCfg = \<lparr>dc_Platforms = [Lever], dc_Limit = 0, dc_Write = True, dc_AllowGlobal = False, dc_CDXBase = []\<rparr>"

lemma one_archived: "archived oneServer leverCfg Lever sampleCand"
proof -
  have "url_parse defaultCDXBase \<noteq> None" by code_simp
  moreover have "unique_rows [] [[''https://jobs.lever.co/acme/1'']] = [''https://jobs.lever.co/acme/1'']" by code_simp
  ultimately have "FetchCDX oneServer [] q n = Inr [''https://jobs.lever.co/acme/1'']" for q n
    by (simp add: FetchCDX_def oneServer_def decode_reply_def fetchJSON_def del: unique_rows.simps)
  moreover have "ExtractCandidate Lever ''https://jobs.lever.co/acme/1'' = Some sampleCand" by code_simp
  moreover have "CDXPatterns Lever = [''jobs.lever.co/*'']" by code_simp
  ultimately show ?thesis by (simp add: archived_def leverCfg_def)
qed

lemma one_accepted: "accepted oneApi leverCfg sampleCand"
proof -
  have "validationSpec sampleCand = Some (ProbeGet ''https://api.lever.co/v0/postings/acme?mode=json'')" by code_simp
  moreover have "take maxValidationBody ''Jakarta'' = ''Jakarta''" by (simp add: maxValidationBody_def)
  moreover have "hasIndonesiaSignal ''Jakarta''" by code_simp
  ultimately show ?thesis by (simp add: accepted_def oneApi_def)
qed

theorem discovery_sound_witness:
  "found oneServer oneApi leverCfg Lever sampleCand \<and>
   (\<exists>dir' report. disc_Run True oneServer oneApi (\<lambda>_. True) leverCfg (\<lambda>_. NoFile) = (dir', report) \<and>
     catalog_kept (found oneServer oneApi leverCfg Lever) (\<lambda>_. NoFile) dir' Lever \<and> dir' Ashby = NoFile)"
proof -
  obtain dir' report where r: "disc_Run True oneServer oneApi (\<lambda>_. True) leverCfg (\<lambda>_. NoFile) = (dir', report)"
    by (cases "disc_Run True oneServer oneApi (\<lambda>_. True) leverCfg (\<lambda>_. NoFile)")
  have "Ashby \<notin> set (dc_Platforms leverCfg)" "dc_Platforms leverCfg \<noteq> []" by (simp_all add: leverCfg_def Ashby_def Lever_def)
  then have "dir' Ashby = NoFile" using discovery_sound [OF r, of Ashby] by simp
  then show ?thesis using discovery_sound [OF r, of Lever] r one_archived one_accepted by (auto simp: found_def)
qed

section \<open>Discovered and fetched\<close>

text \<open>
  The slug of a discovered board is any path segment, but the source that reads the board
  refuses a slug with a dot: such a board enters the catalog and is never fetched.
\<close>

lemma discovered_slug_unfetchable:
  "\<exists>c. ExtractCandidate Lever ''https://jobs.lever.co/acme.io/1'' = Some c \<and> validationSpec c \<noteq> None \<and>
     (\<forall>env jparse server. snd (ats_Fetch env jparse server (NewATSSource ATSLever (cd_Slug c))) = Inl InvalidSlug)"
proof -
  have e: "map_option cd_Slug (ExtractCandidate Lever ''https://jobs.lever.co/acme.io/1'') = Some ''acme.io''"
    "map_option validationSpec (ExtractCandidate Lever ''https://jobs.lever.co/acme.io/1'') \<noteq> Some None" by code_simp+
  then obtain c where c: "ExtractCandidate Lever ''https://jobs.lever.co/acme.io/1'' = Some c" "cd_Slug c = ''acme.io''"
    "validationSpec c \<noteq> None" by (auto simp del: not_None_eq)
  have "at_slug (NewATSSource ATSLever ''acme.io'') = ''acme.io''" "\<not> atsSlugRe ''acme.io''" by code_simp+
  then show ?thesis using c by (auto simp: ats_Fetch_def)
qed

end
