(* ===== verification/Pg_Schema.thy ===== *)
theory Pg_Schema
  imports Auth_Repo CV_Store Profile M5_Store Ingest_Store
begin

text \<open>
  The database behind the production stores (\<open>pgxrepo.go\<close>, \<open>pgxstore.go\<close>): the tables of
  \<open>internal/db/migrations\<close> with the columns the statements read, as maps from primary keys to
  rows, and what the statements have in common.

  A statement either does not run at all or has its effect as a whole; which statements run,
  with which text arguments, is a parameter, so that a lost connection, a refused text or an
  ill-formed uuid is any statement that does not run. The constraints of the schema are
  checked by the statements that can violate them. Ids are compared as texts, in the form in
  which the database prints them and in which all of them come out of it. Statements cut
  instants to microseconds.
\<close>

section \<open>Tables\<close>

record pgUser =
  pu_id :: string
  pu_email :: string
  pu_password_hash :: "string option"
  pu_verified :: bool
  pu_created_at :: time
  pu_consent_at :: "time option"

text \<open>A row of \<open>email_verifications\<close>, \<open>sessions\<close> or \<open>password_resets\<close>, under its token digest.\<close>

record pgToken =
  pt_user_id :: string
  pt_expires_at :: time

record pgJob =
  pj_id :: string
  pj_job :: Job
  pj_stale :: bool
  pj_stale_at :: "time option"
  pj_updated_at :: time

record pgApp =
  pa_id :: string
  pa_user_id :: string
  pa_job_id :: string
  pa_status :: string
  pa_created_at :: time
  pa_updated_at :: time

record pgDB =
  pg_users :: "(string, pgUser) gomap"
  pg_verifs :: "(string, pgToken) gomap"
  pg_sessions :: "(string, pgToken) gomap"
  pg_resets :: "(string, pgToken) gomap"
  pg_profiles :: "(string, Profile) gomap"
  pg_cvs :: "(string, cvFile) gomap"
  pg_jobs :: "(string, pgJob) gomap"
  pg_filters :: "(string, SavedFilter) gomap"
  pg_states :: "(string \<times> string, JobState) gomap"
  pg_apps :: "(string, pgApp) gomap"
  pg_snips :: "(string, Snippet) gomap"

definition emptyDB :: pgDB where
  "emptyDB = \<lparr>pg_users = [], pg_verifs = [], pg_sessions = [], pg_resets = [], pg_profiles = [], pg_cvs = [],
     pg_jobs = [], pg_filters = [], pg_states = [], pg_apps = [], pg_snips = []\<rparr>"

section \<open>Statements\<close>

text \<open>
  \<open>pe_run\<close> tells which statement runs, by its table and verb and its text arguments;
  \<open>pe_now\<close> is \<open>now()\<close>, \<open>pe_uuid\<close> the id \<open>gen_random_uuid()\<close> draws, \<open>pe_digest\<close> the hexadecimal
  SHA-256, \<open>pe_dup\<close> the text of the error for a violated unique constraint, \<open>pe_jsonb\<close> the
  value a \<open>jsonb\<close> column gives back and \<open>pe_less\<close> the order of texts, the collation.
\<close>

record pgEnv =
  pe_run :: "string \<Rightarrow> string list \<Rightarrow> bool"
  pe_now :: time
  pe_uuid :: string
  pe_digest :: "string \<Rightarrow> string"
  pe_dup :: "string \<Rightarrow> string list \<Rightarrow> string"
  pe_jsonb :: "json \<Rightarrow> json"
  pe_less :: "string \<Rightarrow> string \<Rightarrow> bool"

definition micros :: "time \<Rightarrow> time" where
  "micros t = t div 1000 * 1000"

lemma micros_le: "micros t \<le> t"
  unfolding micros_def by presburger

lemma micros_idem [simp]: "micros (micros t) = micros t"
  by (simp add: micros_def)

definition stamp_now :: "pgEnv \<Rightarrow> time" where
  "stamp_now env = micros (pe_now env)"

text \<open>The foreign key to \<open>users\<close>.\<close>

definition has_user :: "pgDB \<Rightarrow> string \<Rightarrow> bool" where
  "has_user db i \<longleftrightarrow> gget (pg_users db) i \<noteq> None"

text \<open>Deleting an account: every table that refers to it does so with \<open>ON DELETE CASCADE\<close>.\<close>

definition pg_cascade :: "string \<Rightarrow> pgDB \<Rightarrow> pgDB" where
  "pg_cascade i db =
     db\<lparr>pg_users := gdel i (pg_users db),
        pg_verifs := gdel_if (\<lambda>_ r. pt_user_id r = i) (pg_verifs db),
        pg_sessions := gdel_if (\<lambda>_ r. pt_user_id r = i) (pg_sessions db),
        pg_resets := gdel_if (\<lambda>_ r. pt_user_id r = i) (pg_resets db),
        pg_profiles := gdel i (pg_profiles db),
        pg_cvs := gdel_if (\<lambda>_ f. fl_UserID f = i) (pg_cvs db),
        pg_filters := gdel_if (\<lambda>_ f. sf_UserID f = i) (pg_filters db),
        pg_states := gdel_if (\<lambda>(u, _) _. u = i) (pg_states db),
        pg_apps := gdel_if (\<lambda>_ a. pa_user_id a = i) (pg_apps db),
        pg_snips := gdel_if (\<lambda>_ x. sn_UserID x = i) (pg_snips db)\<rparr>"

lemma gget_put_cases:
  assumes "gget (gput i z m) j = Some w"
  obtains "j = i" "w = z" | "j \<noteq> i" "gget m j = Some w"
  using assms by (cases "j = i") simp_all

lemma gget_del_if_fun:
  "gok m \<Longrightarrow> gget (gdel_if P m) = (\<lambda>k. case gget m k of None \<Rightarrow> None | Some v \<Rightarrow> if P k v then None else Some v)"
  by (rule ext) (rule gget_del_if)

section \<open>Keys\<close>

text \<open>Rows lie under the key they name, and a column that is unique tells rows apart.\<close>

definition keyed :: "('r \<Rightarrow> 'k) \<Rightarrow> ('k, 'r) gomap \<Rightarrow> bool" where
  "keyed f m \<longleftrightarrow> gok m \<and> (\<forall>k r. gget m k = Some r \<longrightarrow> f r = k)"

definition uniq_on :: "('r \<Rightarrow> 'c) \<Rightarrow> ('k, 'r) gomap \<Rightarrow> bool" where
  "uniq_on f m \<longleftrightarrow> (\<forall>i j x y. gget m i = Some x \<longrightarrow> gget m j = Some y \<longrightarrow> f x = f y \<longrightarrow> i = j)"

lemma keyedD: "keyed f m \<Longrightarrow> gok m" "keyed f m \<Longrightarrow> gget m k = Some r \<Longrightarrow> f r = k"
  by (auto simp: keyed_def)

lemma keyed_put: "keyed f m \<Longrightarrow> f r = k \<Longrightarrow> keyed f (gput k r m)"
  by (simp add: keyed_def)

lemma keyed_del: "keyed f m \<Longrightarrow> keyed f (gdel k m)"
  by (simp add: keyed_def)

lemma keyed_del_if: "keyed f m \<Longrightarrow> keyed f (gdel_if P m)"
  by (auto simp: keyed_def gget_del_if split: option.splits if_splits)

lemma keyed_Nil [simp]: "keyed f []"
  by (simp add: keyed_def)

lemma uniq_on_Nil [simp]: "uniq_on f []"
  by (simp add: uniq_on_def)

lemma uniq_onD: "uniq_on f m \<Longrightarrow> gget m i = Some x \<Longrightarrow> gget m j = Some y \<Longrightarrow> f x = f y \<Longrightarrow> i = j"
  unfolding uniq_on_def by iprover

lemma uniq_on_put:
  assumes u: "uniq_on f m" and n: "\<And>j y. gget m j = Some y \<Longrightarrow> f y = f x \<Longrightarrow> j = i"
  shows "uniq_on f (gput i x m)"
  unfolding uniq_on_def
proof (intro allI impI)
  fix j k y z
  assume y: "gget (gput i x m) j = Some y" and z: "gget (gput i x m) k = Some z" and e: "f y = f z"
  from y show "j = k"
  proof (cases rule: gget_put_cases)
    case 1
    from z show ?thesis by (cases rule: gget_put_cases) (use n [of k z] 1 e in auto)
  next
    case 2
    from z show ?thesis
    proof (cases rule: gget_put_cases)
      case 1 then show ?thesis using n [of j y] 2 e by simp
    next
      case z2: 2 show ?thesis by (rule uniq_onD [OF u 2(2) z2(2) e])
    qed
  qed
qed

lemma find_vals:
  assumes "gok m" "find P (gvals m) = Some r" obtains k where "gget m k = Some r" "P r"
proof -
  have "r \<in> set (gvals m)" "P r" using assms(2) by (auto simp: find_Some_iff)
  then show thesis using that gvals_mem [OF assms(1)] by blast
qed

lemma find_none: "gok m \<Longrightarrow> find P (gvals m) = None \<Longrightarrow> gget m k = Some r \<Longrightarrow> \<not> P r"
  unfolding find_None_iff using gvals_mem by metis

section \<open>References\<close>

text \<open>Every row belongs to an account that is there, and every application to a listing.\<close>

definition rows_owned :: "(string \<Rightarrow> bool) \<Rightarrow> ('r \<Rightarrow> string) \<Rightarrow> ('k, 'r) gomap \<Rightarrow> bool" where
  "rows_owned U f m \<longleftrightarrow> (\<forall>(k, r) \<in> set m. U (f r))"

definition keys_owned :: "(string \<Rightarrow> bool) \<Rightarrow> ('k \<Rightarrow> string) \<Rightarrow> ('k, 'r) gomap \<Rightarrow> bool" where
  "keys_owned U f m \<longleftrightarrow> (\<forall>(k, r) \<in> set m. U (f k))"

definition pg_refs :: "pgDB \<Rightarrow> bool" where
  "pg_refs db \<longleftrightarrow> (let U = has_user db in
     rows_owned U pt_user_id (pg_verifs db) \<and> rows_owned U pt_user_id (pg_sessions db) \<and>
     rows_owned U pt_user_id (pg_resets db) \<and> keys_owned U id (pg_profiles db) \<and>
     rows_owned U fl_UserID (pg_cvs db) \<and> rows_owned U sf_UserID (pg_filters db) \<and>
     keys_owned U fst (pg_states db) \<and> rows_owned U pa_user_id (pg_apps db) \<and>
     rows_owned U sn_UserID (pg_snips db) \<and>
     rows_owned (\<lambda>j. gget (pg_jobs db) j \<noteq> None) pa_job_id (pg_apps db))"

lemma rows_owned_Nil [simp]: "rows_owned U f []"
  by (simp add: rows_owned_def)

lemma keys_owned_Nil [simp]: "keys_owned U f []"
  by (simp add: keys_owned_def)

lemma update_set: "set (AList.update k v m) \<subseteq> insert (k, v) (set m)"
  by (induction m) auto

lemma rows_owned_put: "rows_owned U f m \<Longrightarrow> U (f r) \<Longrightarrow> rows_owned U f (gput k r m)"
  using update_set [of k r m] by (fastforce simp: rows_owned_def gput_def)

lemma keys_owned_put: "keys_owned U f m \<Longrightarrow> U (f k) \<Longrightarrow> keys_owned U f (gput k r m)"
  using update_set [of k r m] by (fastforce simp: keys_owned_def gput_def)

lemma refs_subset:
  "rows_owned U f m \<Longrightarrow> set m' \<subseteq> set m \<Longrightarrow> rows_owned U f m'"
  "keys_owned U g m \<Longrightarrow> set m' \<subseteq> set m \<Longrightarrow> keys_owned U g m'"
  by (auto simp: rows_owned_def keys_owned_def)

lemma gdel_subset: "set (gdel k m) \<subseteq> set m" "set (gdel_if P m) \<subseteq> set m"
  by (auto simp: gdel_def gdel_if_def AList.delete_eq)

lemma refs_del:
  "rows_owned U f m \<Longrightarrow> rows_owned U f (gdel k m)" "rows_owned U f m \<Longrightarrow> rows_owned U f (gdel_if P m)"
  "keys_owned U g n \<Longrightarrow> keys_owned U g (gdel l n)" "keys_owned U g n \<Longrightarrow> keys_owned U g (gdel_if Q n)"
  using gdel_subset refs_subset by metis+

lemma refs_mono:
  "rows_owned U f m \<Longrightarrow> (\<And>i. U i \<Longrightarrow> V i) \<Longrightarrow> rows_owned V f m"
  "keys_owned U g n \<Longrightarrow> (\<And>i. U i \<Longrightarrow> V i) \<Longrightarrow> keys_owned V g n"
  by (auto simp: rows_owned_def keys_owned_def)

lemma rows_owned_get: "rows_owned U f m \<Longrightarrow> gget m k = Some r \<Longrightarrow> U (f r)"
  by (auto simp: rows_owned_def dest: gget_SomeD)

lemma keys_owned_get: "keys_owned U f m \<Longrightarrow> gget m k = Some r \<Longrightarrow> U (f k)"
  by (auto simp: keys_owned_def dest: gget_SomeD)

lemma cascade_users: "has_user (pg_cascade i db) j \<longleftrightarrow> j \<noteq> i \<and> has_user db j"
  by (simp add: has_user_def pg_cascade_def)

lemma cascade_rows: "rows_owned U f m \<Longrightarrow> rows_owned (\<lambda>j. j \<noteq> i \<and> U j) f (gdel_if (\<lambda>_ r. f r = i) m)"
  by (auto simp: rows_owned_def gdel_if_def)

lemma cascade_refs:
  assumes "pg_refs db" shows "pg_refs (pg_cascade i db)"
proof -
  have "keys_owned (\<lambda>j. j \<noteq> i \<and> has_user db j) id (gdel i (pg_profiles db))"
    using assms by (auto simp: pg_refs_def keys_owned_def gdel_def AList.delete_eq Let_def)
  moreover have "keys_owned (\<lambda>j. j \<noteq> i \<and> has_user db j) fst (gdel_if (\<lambda>(u, _) _. u = i) (pg_states db))"
    using assms by (auto simp: pg_refs_def keys_owned_def gdel_if_def Let_def)
  ultimately show ?thesis using assms
    unfolding pg_refs_def Let_def cascade_users
    by (simp add: pg_cascade_def cascade_rows refs_del)
qed

end
