(* ===== verification/Pg_Auth.thy ===== *)
theory Pg_Auth
  imports Pg_Schema Auth_Props
begin

text \<open>
  The accounts repository on Postgres (\<open>internal/auth/pgxrepo.go\<close>), one definition per method.
  Tokens are stored as digests. \<open>pgAuth\<close> interprets the contract of the interface on it, with
  failing statements; the digest is taken to have no collisions.
\<close>

section \<open>Methods\<close>

definition toUser :: "pgUser \<Rightarrow> user" where
  "toUser r = \<lparr>u_ID = pu_id r, u_Email = pu_email r,
     u_PasswordHash = (case pu_password_hash r of None \<Rightarrow> [] | Some h \<Rightarrow> h), u_Verified = pu_verified r,
     u_CreatedAt = pu_created_at r, u_ConsentAt = (case pu_consent_at r of None \<Rightarrow> zero_time | Some t \<Rightarrow> t)\<rparr>"

text \<open>\<open>lower(trim(email))\<close> of the unique index: Postgres trims spaces only.\<close>

definition pg_lower_trim :: "string \<Rightarrow> string" where
  "pg_lower_trim e = to_lower (trim_right (\<lambda>c. c = CHR '' '') (trim_left (\<lambda>c. c = CHR '' '') e))"

definition email_clash :: "pgDB \<Rightarrow> string \<Rightarrow> bool" where
  "email_clash db e \<longleftrightarrow> list_ex (\<lambda>r. pu_email r = e \<or> pg_lower_trim (pu_email r) = pg_lower_trim e) (gvals (pg_users db))"

text \<open>A drawn id that is taken violates the primary key, which is a unique constraint too.\<close>

definition pg_CreateUser :: "pgEnv \<Rightarrow> pgDB \<Rightarrow> string \<Rightarrow> string \<Rightarrow> pgDB \<times> (auth_err + user)" where
  "pg_CreateUser env db email0 passwordHash =
     (let email = normalizeEmail email0 in
      if \<not> pe_run env ''users.insert'' [email, passwordHash] then (db, Inl AuthOther)
      else if email_clash db email \<or> has_user db (pe_uuid env) then (db, Inl EmailTaken)
      else (let r = \<lparr>pu_id = pe_uuid env, pu_email = email, pu_password_hash = Some passwordHash, pu_verified = False,
                     pu_created_at = stamp_now env, pu_consent_at = None\<rparr>
            in (db\<lparr>pg_users := gput (pu_id r) r (pg_users db)\<rparr>, Inr ((toUser r)\<lparr>u_PasswordHash := passwordHash\<rparr>))))"

definition scanUser :: "bool \<Rightarrow> pgUser option \<Rightarrow> auth_err + user" where
  "scanUser run row = (if \<not> run then Inl AuthOther else (case row of None \<Rightarrow> Inl AuthNotFound | Some r \<Rightarrow> Inr (toUser r)))"

definition pg_UserByEmail :: "pgEnv \<Rightarrow> pgDB \<Rightarrow> string \<Rightarrow> auth_err + user" where
  "pg_UserByEmail env db email =
     scanUser (pe_run env ''users.by_email'' [normalizeEmail email])
       (find (\<lambda>r. pu_email r = normalizeEmail email) (gvals (pg_users db)))"

definition pg_UserByID :: "pgEnv \<Rightarrow> pgDB \<Rightarrow> string \<Rightarrow> auth_err + user" where
  "pg_UserByID env db i = scanUser (pe_run env ''users.by_id'' [i]) (gget (pg_users db) i)"

text \<open>A statement that is expected to change one row.\<close>

definition execAffecting :: "bool \<Rightarrow> 'r option \<Rightarrow> ('r \<Rightarrow> pgDB) \<Rightarrow> pgDB \<Rightarrow> pgDB \<times> auth_err option" where
  "execAffecting run row change db =
     (if \<not> run then (db, Some AuthOther)
      else (case row of None \<Rightarrow> (db, Some AuthNotFound) | Some r \<Rightarrow> (change r, None)))"

definition set_user :: "string \<Rightarrow> (pgUser \<Rightarrow> pgUser) \<Rightarrow> pgDB \<Rightarrow> pgUser \<Rightarrow> pgDB" where
  "set_user i f db r = db\<lparr>pg_users := gput i (f r) (pg_users db)\<rparr>"

definition pg_SetVerified :: "pgEnv \<Rightarrow> pgDB \<Rightarrow> string \<Rightarrow> pgDB \<times> auth_err option" where
  "pg_SetVerified env db i =
     execAffecting (pe_run env ''users.verified'' [i]) (gget (pg_users db) i) (set_user i (\<lambda>r. r\<lparr>pu_verified := True\<rparr>) db) db"

definition pg_SetConsent :: "pgEnv \<Rightarrow> pgDB \<Rightarrow> string \<Rightarrow> time \<Rightarrow> pgDB \<times> auth_err option" where
  "pg_SetConsent env db i at =
     execAffecting (pe_run env ''users.consent'' [i]) (gget (pg_users db) i)
       (set_user i (\<lambda>r. r\<lparr>pu_consent_at := Some (micros at)\<rparr>) db) db"

definition pg_DeleteUser :: "pgEnv \<Rightarrow> pgDB \<Rightarrow> string \<Rightarrow> pgDB \<times> auth_err option" where
  "pg_DeleteUser env db i =
     execAffecting (pe_run env ''users.delete'' [i]) (gget (pg_users db) i) (\<lambda>_. pg_cascade i db) db"

definition pg_UpdatePassword :: "pgEnv \<Rightarrow> pgDB \<Rightarrow> string \<Rightarrow> string \<Rightarrow> pgDB \<times> auth_err option" where
  "pg_UpdatePassword env db i h =
     execAffecting (pe_run env ''users.password'' [i, h]) (gget (pg_users db) i)
       (set_user i (\<lambda>r. r\<lparr>pu_password_hash := Some h\<rparr>) db) db"

text \<open>Inserting a token: its digest is the primary key and its user must be there.\<close>

definition token_row :: "pgEnv \<Rightarrow> pgDB \<Rightarrow> string \<Rightarrow> (string, pgToken) gomap \<Rightarrow> string \<Rightarrow> string \<Rightarrow> time \<Rightarrow> (string, pgToken) gomap option" where
  "token_row env db stmt m userID token expiresAt =
     (let k = pe_digest env token in
      if pe_run env stmt [k, userID] \<and> gget m k = None \<and> has_user db userID
      then Some (gput k \<lparr>pt_user_id = userID, pt_expires_at = micros expiresAt\<rparr> m) else None)"

definition pg_CreateVerification :: "pgEnv \<Rightarrow> pgDB \<Rightarrow> string \<Rightarrow> string \<Rightarrow> time \<Rightarrow> pgDB \<times> auth_err option" where
  "pg_CreateVerification env db userID token expiresAt =
     (case token_row env db ''email_verifications.insert'' (pg_verifs db) userID token expiresAt of
        None \<Rightarrow> (db, Some AuthOther) | Some m \<Rightarrow> (db\<lparr>pg_verifs := m\<rparr>, None))"

text \<open>The verification is consumed if it has not expired, and its user updated if there is one.\<close>

definition pg_VerifyUser :: "pgEnv \<Rightarrow> pgDB \<Rightarrow> string \<Rightarrow> time \<Rightarrow> pgDB \<times> auth_err option" where
  "pg_VerifyUser env db token now =
     (let k = pe_digest env token in
      if \<not> pe_run env ''email_verifications.consume'' [k] then (db, Some AuthOther)
      else (case gget (pg_verifs db) k of
          None \<Rightarrow> (db, Some InvalidToken)
        | Some r \<Rightarrow>
            if \<not> pt_expires_at r \<ge> micros now then (db, Some InvalidToken)
            else (let db1 = db\<lparr>pg_verifs := gdel k (pg_verifs db)\<rparr> in
              case gget (pg_users db) (pt_user_id r) of
                None \<Rightarrow> (db1, Some InvalidToken)
              | Some u \<Rightarrow> (set_user (pt_user_id r) (\<lambda>u. u\<lparr>pu_verified := True\<rparr>) db1 u, None))))"

definition pg_CreateSession :: "pgEnv \<Rightarrow> pgDB \<Rightarrow> session \<Rightarrow> pgDB \<times> auth_err option" where
  "pg_CreateSession env db s =
     (case token_row env db ''sessions.insert'' (pg_sessions db) (s_UserID s) (s_Token s) (s_ExpiresAt s) of
        None \<Rightarrow> (db, Some AuthOther) | Some m \<Rightarrow> (db\<lparr>pg_sessions := m\<rparr>, None))"

definition toSession :: "string \<Rightarrow> pgToken \<Rightarrow> session" where
  "toSession token r = \<lparr>s_Token = token, s_UserID = pt_user_id r, s_ExpiresAt = pt_expires_at r\<rparr>"

definition pg_SessionByToken :: "pgEnv \<Rightarrow> pgDB \<Rightarrow> string \<Rightarrow> auth_err + session" where
  "pg_SessionByToken env db token =
     (if \<not> pe_run env ''sessions.by_token'' [pe_digest env token] then Inl AuthOther
      else (case gget (pg_sessions db) (pe_digest env token) of
          None \<Rightarrow> Inl AuthNotFound | Some r \<Rightarrow> Inr (toSession token r)))"

definition pg_DeleteSession :: "pgEnv \<Rightarrow> pgDB \<Rightarrow> string \<Rightarrow> pgDB \<times> auth_err option" where
  "pg_DeleteSession env db token =
     (let k = pe_digest env token in
      if \<not> pe_run env ''sessions.delete'' [k] then (db, Some AuthOther)
      else (db\<lparr>pg_sessions := gdel k (pg_sessions db)\<rparr>, None))"

definition pg_CreateReset :: "pgEnv \<Rightarrow> pgDB \<Rightarrow> string \<Rightarrow> string \<Rightarrow> time \<Rightarrow> pgDB \<times> auth_err option" where
  "pg_CreateReset env db userID token expiresAt =
     (case token_row env db ''password_resets.insert'' (pg_resets db) userID token expiresAt of
        None \<Rightarrow> (db, Some AuthOther) | Some m \<Rightarrow> (db\<lparr>pg_resets := m\<rparr>, None))"

text \<open>One statement: the reset goes in any case, and if it is valid the password and the sessions with it.\<close>

definition pg_ResetPassword :: "pgEnv \<Rightarrow> pgDB \<Rightarrow> string \<Rightarrow> string \<Rightarrow> time \<Rightarrow> pgDB \<times> auth_err option" where
  "pg_ResetPassword env db token passwordHash now =
     (let k = pe_digest env token in
      if \<not> pe_run env ''password_resets.consume'' [k, passwordHash] then (db, Some AuthOther)
      else (case gget (pg_resets db) k of
          None \<Rightarrow> (db, Some InvalidToken)
        | Some r \<Rightarrow>
            (let db1 = db\<lparr>pg_resets := gdel k (pg_resets db)\<rparr> in
             if \<not> pt_expires_at r \<ge> micros now then (db1, Some InvalidToken)
             else (case gget (pg_users db) (pt_user_id r) of
                None \<Rightarrow> (db1, Some InvalidToken)
              | Some u \<Rightarrow>
                  (set_user (pt_user_id r) (\<lambda>u. u\<lparr>pu_password_hash := Some passwordHash\<rparr>)
                     (db1\<lparr>pg_sessions := gdel_if (\<lambda>_ x. pt_user_id x = pt_user_id r) (pg_sessions db1)\<rparr>) u, None)))))"

definition pgAuthOps :: "pgEnv \<Rightarrow> pgDB authRepo" where
  "pgAuthOps env =
     \<lparr>ar_CreateUser = pg_CreateUser env, ar_UserByEmail = pg_UserByEmail env, ar_UserByID = pg_UserByID env,
      ar_SetVerified = pg_SetVerified env, ar_SetConsent = pg_SetConsent env, ar_UpdatePassword = pg_UpdatePassword env,
      ar_DeleteUser = pg_DeleteUser env, ar_CreateVerification = pg_CreateVerification env,
      ar_VerifyUser = pg_VerifyUser env, ar_CreateSession = pg_CreateSession env,
      ar_SessionByToken = pg_SessionByToken env, ar_DeleteSession = pg_DeleteSession env,
      ar_CreateReset = pg_CreateReset env, ar_ResetPassword = pg_ResetPassword env\<rparr>"

lemmas pg_auth_defs =
  pg_CreateUser_def pg_UserByEmail_def pg_UserByID_def pg_SetVerified_def pg_SetConsent_def
  pg_UpdatePassword_def pg_DeleteUser_def pg_CreateVerification_def pg_VerifyUser_def
  pg_CreateSession_def pg_SessionByToken_def pg_DeleteSession_def pg_CreateReset_def pg_ResetPassword_def

section \<open>The contract\<close>

definition pg_auth_ok :: "pgEnv \<Rightarrow> pgDB \<Rightarrow> bool" where
  "pg_auth_ok env db \<longleftrightarrow> inj (pe_digest env) \<and> gok (pg_users db) \<and> gok (pg_verifs db) \<and> gok (pg_sessions db) \<and> gok (pg_resets db) \<and>
     (\<forall>i r. gget (pg_users db) i = Some r \<longrightarrow> pu_id r = i \<and> normalizeEmail (pu_email r) = pu_email r) \<and>
     (\<forall>i j r w. gget (pg_users db) i = Some r \<longrightarrow> gget (pg_users db) j = Some w \<longrightarrow> pu_email r = pu_email w \<longrightarrow> i = j)"

definition toReset :: "pgToken \<Rightarrow> resetRecord" where
  "toReset r = \<lparr>rr_userID = pt_user_id r, rr_expiresAt = pt_expires_at r\<rparr>"

definition pg_auth_view :: "pgEnv \<Rightarrow> pgDB \<Rightarrow> authView" where
  "pg_auth_view env db =
     \<lparr>v_users = (\<lambda>i. map_option toUser (gget (pg_users db) i)),
      v_verifs = (\<lambda>t. map_option toReset (gget (pg_verifs db) (pe_digest env t))),
      v_sessions = (\<lambda>t. map_option (toSession t) (gget (pg_sessions db) (pe_digest env t))),
      v_resets = (\<lambda>t. map_option toReset (gget (pg_resets db) (pe_digest env t)))\<rparr>"

lemma toUser_sel [simp]:
  "u_ID (toUser r) = pu_id r" "u_Email (toUser r) = pu_email r" "u_Verified (toUser r) = pu_verified r"
  by (simp_all add: toUser_def)

lemma tok_sel [simp]: "rr_userID (toReset t) = pt_user_id t" "rr_expiresAt (toReset t) = pt_expires_at t"
  "s_UserID (toSession k t) = pt_user_id t" "s_ExpiresAt (toSession k t) = pt_expires_at t"
  by (simp_all add: toReset_def toSession_def)

lemma pg_auth_okD:
  assumes "pg_auth_ok env db"
  shows "inj (pe_digest env)" "gok (pg_users db)" "gok (pg_verifs db)" "gok (pg_sessions db)" "gok (pg_resets db)"
    "gget (pg_users db) i = Some r \<Longrightarrow> pu_id r = i \<and> normalizeEmail (pu_email r) = pu_email r"
    "gget (pg_users db) i = Some r \<Longrightarrow> gget (pg_users db) j = Some w \<Longrightarrow> pu_email r = pu_email w \<Longrightarrow> i = j"
proof -
  show "inj (pe_digest env)" "gok (pg_users db)" "gok (pg_verifs db)" "gok (pg_sessions db)" "gok (pg_resets db)"
    using assms by (simp_all add: pg_auth_ok_def)
  show "gget (pg_users db) i = Some r \<Longrightarrow> pu_id r = i \<and> normalizeEmail (pu_email r) = pu_email r"
    using assms by (simp add: pg_auth_ok_def)
  have "\<forall>i j r w. gget (pg_users db) i = Some r \<longrightarrow> gget (pg_users db) j = Some w \<longrightarrow> pu_email r = pu_email w \<longrightarrow> i = j"
    using assms unfolding pg_auth_ok_def by (elim conjE)
  then show "gget (pg_users db) i = Some r \<Longrightarrow> gget (pg_users db) j = Some w \<Longrightarrow> pu_email r = pu_email w \<Longrightarrow> i = j"
    by blast
qed

lemma digest_eq: "pg_auth_ok env db \<Longrightarrow> pe_digest env s = pe_digest env t \<longleftrightarrow> s = t"
  using pg_auth_okD(1) by (simp add: inj_eq)

text \<open>Replacing a row by one with the same id and address, and tokens, keep the invariant.\<close>

lemma pg_auth_ok_set:
  assumes "pg_auth_ok env db" "gget (pg_users db) i = Some r" "pu_id (f r) = pu_id r" "pu_email (f r) = pu_email r"
  shows "pg_auth_ok env (set_user i f db r)"
  unfolding pg_auth_ok_def set_user_def
proof (intro conjI allI impI)
  note d = pg_auth_okD [OF assms(1)]
  fix j w assume "gget (pg_users (db\<lparr>pg_users := gput i (f r) (pg_users db)\<rparr>)) j = Some w"
  then have "gget (gput i (f r) (pg_users db)) j = Some w" by simp
  then have "pu_id w = j \<and> normalizeEmail (pu_email w) = pu_email w"
  proof (cases rule: gget_put_cases)
    case 1
    show ?thesis unfolding 1 assms(3,4) by (rule d(6) [OF assms(2)])
  qed (rule d(6))
  then show "pu_id w = j" "normalizeEmail (pu_email w) = pu_email w" by blast+
next
  note d = pg_auth_okD [OF assms(1)]
  fix j k x y
  assume "gget (pg_users (db\<lparr>pg_users := gput i (f r) (pg_users db)\<rparr>)) j = Some x"
    "gget (pg_users (db\<lparr>pg_users := gput i (f r) (pg_users db)\<rparr>)) k = Some y" and e: "pu_email x = pu_email y"
  then have "gget (gput i (f r) (pg_users db)) j = Some x" "gget (gput i (f r) (pg_users db)) k = Some y" by simp_all
  then have "\<exists>x'. gget (pg_users db) j = Some x' \<and> pu_email x = pu_email x'"
    "\<exists>y'. gget (pg_users db) k = Some y' \<and> pu_email y = pu_email y'"
    using assms(2,4) by (metis gget_put option.inject)+
  then show "j = k" using d(7) e by metis
qed (use pg_auth_okD [OF assms(1)] in simp_all)

lemma pg_auth_ok_tokens:
  "pg_auth_ok env db \<Longrightarrow> gok v \<Longrightarrow> pg_auth_ok env (db\<lparr>pg_verifs := v\<rparr>)"
  "pg_auth_ok env db \<Longrightarrow> gok s \<Longrightarrow> pg_auth_ok env (db\<lparr>pg_sessions := s\<rparr>)"
  "pg_auth_ok env db \<Longrightarrow> gok r \<Longrightarrow> pg_auth_ok env (db\<lparr>pg_resets := r\<rparr>)"
  by (simp_all add: pg_auth_ok_def)

lemma set_user_sel [simp]:
  "pg_users (set_user i f db r) = gput i (f r) (pg_users db)" "pg_verifs (set_user i f db r) = pg_verifs db"
  "pg_sessions (set_user i f db r) = pg_sessions db" "pg_resets (set_user i f db r) = pg_resets db"
  by (simp_all add: set_user_def)

lemma toUser_upd [simp]:
  "toUser (r\<lparr>pu_verified := True\<rparr>) = (toUser r)\<lparr>u_Verified := True\<rparr>"
  "toUser (r\<lparr>pu_consent_at := Some t\<rparr>) = (toUser r)\<lparr>u_ConsentAt := t\<rparr>"
  "toUser (r\<lparr>pu_password_hash := Some h\<rparr>) = (toUser r)\<lparr>u_PasswordHash := h\<rparr>"
  by (simp_all add: toUser_def)

text \<open>The view after each kind of change.\<close>

lemma view_set_user:
  "pg_auth_view env (set_user i f db r) = (pg_auth_view env db)\<lparr>v_users := (v_users (pg_auth_view env db))(i \<mapsto> toUser (f r))\<rparr>"
  by (auto simp: pg_auth_view_def fun_eq_iff)

lemma view_tokens:
  assumes "pg_auth_ok env db"
  shows "pg_auth_view env (db\<lparr>pg_verifs := gput (pe_digest env t) x (pg_verifs db)\<rparr>) =
      (pg_auth_view env db)\<lparr>v_verifs := (v_verifs (pg_auth_view env db))(t \<mapsto> toReset x)\<rparr>"
    "pg_auth_view env (db\<lparr>pg_resets := gput (pe_digest env t) x (pg_resets db)\<rparr>) =
      (pg_auth_view env db)\<lparr>v_resets := (v_resets (pg_auth_view env db))(t \<mapsto> toReset x)\<rparr>"
    "pg_auth_view env (db\<lparr>pg_sessions := gput (pe_digest env t) x (pg_sessions db)\<rparr>) =
      (pg_auth_view env db)\<lparr>v_sessions := (v_sessions (pg_auth_view env db))(t \<mapsto> toSession t x)\<rparr>"
    "pg_auth_view env (db\<lparr>pg_verifs := gdel (pe_digest env t) (pg_verifs db)\<rparr>) =
      (pg_auth_view env db)\<lparr>v_verifs := (v_verifs (pg_auth_view env db))(t := None)\<rparr>"
    "pg_auth_view env (db\<lparr>pg_resets := gdel (pe_digest env t) (pg_resets db)\<rparr>) =
      (pg_auth_view env db)\<lparr>v_resets := (v_resets (pg_auth_view env db))(t := None)\<rparr>"
    "pg_auth_view env (db\<lparr>pg_sessions := gdel (pe_digest env t) (pg_sessions db)\<rparr>) =
      (pg_auth_view env db)\<lparr>v_sessions := (v_sessions (pg_auth_view env db))(t := None)\<rparr>"
  by (auto simp: pg_auth_view_def fun_eq_iff digest_eq [OF assms])

lemma view_revoke:
  assumes "pg_auth_ok env db"
  shows "pg_auth_view env (db\<lparr>pg_sessions := gdel_if (\<lambda>_ x. pt_user_id x = i) (pg_sessions db)\<rparr>) =
    (pg_auth_view env db)\<lparr>v_sessions := without s_UserID i (v_sessions (pg_auth_view env db))\<rparr>"
  by (auto simp: pg_auth_view_def fun_eq_iff without_def gget_del_if [OF pg_auth_okD(4) [OF assms]] split: option.split)

lemma view_cascade:
  assumes "pg_auth_ok env db"
  shows "pg_auth_view env (pg_cascade i db) = erase i (pg_auth_view env db)"
  using pg_auth_okD(3-5) [OF assms]
  by (auto simp: pg_auth_view_def pg_cascade_def erase_def without_def fun_eq_iff gget_del_if split: option.split)

lemma pg_auth_ok_cascade:
  assumes "pg_auth_ok env db" shows "pg_auth_ok env (pg_cascade i db)"
  unfolding pg_auth_ok_def
proof (intro conjI allI impI)
  note d = pg_auth_okD [OF assms]
  fix j r assume "gget (pg_users (pg_cascade i db)) j = Some r"
  then show "pu_id r = j" "normalizeEmail (pu_email r) = pu_email r"
    using d(6) [of j r] by (auto simp: pg_cascade_def split: if_splits)
next
  note d = pg_auth_okD [OF assms]
  fix j k x y
  assume "gget (pg_users (pg_cascade i db)) j = Some x" "gget (pg_users (pg_cascade i db)) k = Some y" "pu_email x = pu_email y"
  then show "j = k" using d(7) [of j x k y] by (auto simp: pg_cascade_def split: if_splits)
qed (use pg_auth_okD [OF assms] in \<open>simp_all add: pg_cascade_def\<close>)

lemma email_free:
  assumes "gok (pg_users db)" "\<not> email_clash db e" "gget (pg_users db) i = Some r"
  shows "pu_email r \<noteq> e"
  using assms by (auto simp: email_clash_def list_ex_iff gvals_mem)

lemma pg_CreateUser_ok:
  assumes "pg_auth_ok env db" "pg_CreateUser env db e h = (db', r)"
  shows "pg_auth_ok env db' \<and>
    (case r of Inl _ \<Rightarrow> db' = db
     | Inr u \<Rightarrow> gget (pg_users db) (u_ID u) = None \<and> u_Email u = normalizeEmail e \<and> u_PasswordHash u = h \<and>
         \<not> u_Verified u \<and> u_ConsentAt u = zero_time \<and>
         (\<forall>i w. gget (pg_users db) i = Some w \<longrightarrow> pu_email w \<noteq> normalizeEmail e) \<and>
         pg_auth_view env db' = (pg_auth_view env db)\<lparr>v_users := (v_users (pg_auth_view env db))(u_ID u \<mapsto> u)\<rparr>)"
proof (cases r)
  case (Inl err)
  then have "db' = db" using assms(2) by (auto simp: pg_CreateUser_def Let_def split: if_splits)
  then show ?thesis using Inl assms(1) by simp
next
  case (Inr u)
  define row where "row = \<lparr>pu_id = pe_uuid env, pu_email = normalizeEmail e, pu_password_hash = Some h, pu_verified = False,
    pu_created_at = stamp_now env, pu_consent_at = None\<rparr>"
  note d = pg_auth_okD [OF assms(1)]
  have c: "\<not> email_clash db (normalizeEmail e)" "gget (pg_users db) (pe_uuid env) = None"
    "db' = db\<lparr>pg_users := gput (pe_uuid env) row (pg_users db)\<rparr>" "u = toUser row"
    using assms(2) Inr by (auto simp: pg_CreateUser_def Let_def row_def has_user_def toUser_def split: if_splits)
  note free = email_free [OF d(2) c(1)]
  have "pg_auth_ok env db'"
    unfolding pg_auth_ok_def
  proof (intro conjI allI impI)
    fix i w assume "gget (pg_users db') i = Some w"
    then show "pu_id w = i" "normalizeEmail (pu_email w) = pu_email w"
      using d(6) [of i w] by (auto simp: c(3) row_def split: if_splits)
  next
    fix i j x y assume "gget (pg_users db') i = Some x" "gget (pg_users db') j = Some y" "pu_email x = pu_email y"
    then show "i = j" using d(7) [of i x j y] free [of i x] free [of j y] by (auto simp: c(3) row_def split: if_splits)
  qed (use d in \<open>simp_all add: c(3)\<close>)
  moreover have "pg_auth_view env db' = (pg_auth_view env db)\<lparr>v_users := (v_users (pg_auth_view env db))(u_ID u \<mapsto> u)\<rparr>"
    by (auto simp: pg_auth_view_def c(3,4) row_def fun_eq_iff)
  moreover have "u_PasswordHash u = h" "u_ConsentAt u = zero_time" "u_Email u = normalizeEmail e" "\<not> u_Verified u" "u_ID u = pe_uuid env"
    by (simp_all add: c(4) row_def toUser_def)
  ultimately show ?thesis using Inr c(2) free by auto
qed

lemma token_row_ok:
  assumes "token_row env db stmt m i t e = Some m'"
  shows "m' = gput (pe_digest env t) \<lparr>pt_user_id = i, pt_expires_at = micros e\<rparr> m"
  using assms by (simp add: token_row_def Let_def split: if_splits)

lemma affecting_ok:
  assumes ok: "pg_auth_ok env db" and e: "execAffecting run (gget (pg_users db) i) (set_user i f db) db = (db', r)"
    and f: "\<And>r. pu_id (f r) = pu_id r" "\<And>r. pu_email (f r) = pu_email r" "\<And>r. toUser (f r) = g (toUser r)"
  shows "pg_auth_ok env db' \<and> updated_user (pg_auth_view env db) i g (pg_auth_view env db', r)"
proof (cases "gget (pg_users db) i")
  case None
  then show ?thesis using e ok
    by (auto simp: execAffecting_def updated_user_def pg_auth_view_def split: if_splits)
next
  case (Some w)
  then show ?thesis using e ok pg_auth_ok_set [OF ok Some, of f, OF f(1) f(2)]
    by (auto simp: execAffecting_def updated_user_def view_set_user f(3) split: if_splits) (simp_all add: pg_auth_view_def)
qed

lemma pg_auth_view_sel:
  "v_users (pg_auth_view env db) i = map_option toUser (gget (pg_users db) i)"
  "v_verifs (pg_auth_view env db) t = map_option toReset (gget (pg_verifs db) (pe_digest env t))"
  "v_sessions (pg_auth_view env db) t = map_option (toSession t) (gget (pg_sessions db) (pe_digest env t))"
  "v_resets (pg_auth_view env db) t = map_option toReset (gget (pg_resets db) (pe_digest env t))"
  by (simp_all add: pg_auth_view_def)

lemma pg_VerifyUser_ok:
  assumes ok: "pg_auth_ok env db" and e: "pg_VerifyUser env db tok now = (db', r)"
  shows "pg_auth_ok env db' \<and>
    (case r of
       None \<Rightarrow> (\<exists>i u. token_for (v_verifs (pg_auth_view env db)) tok (micros now) i \<and> v_users (pg_auth_view env db) i = Some u \<and>
         pg_auth_view env db' = (pg_auth_view env db)\<lparr>v_users := (v_users (pg_auth_view env db))(i \<mapsto> u\<lparr>u_Verified := True\<rparr>),
                            v_verifs := (v_verifs (pg_auth_view env db))(tok := None)\<rparr>)
     | Some _ \<Rightarrow> db' = db \<or> db' = db\<lparr>pg_verifs := gdel (pe_digest env tok) (pg_verifs db)\<rparr>)"
proof (cases "\<exists>x u. gget (pg_verifs db) (pe_digest env tok) = Some x \<and> micros now \<le> pt_expires_at x \<and>
    gget (pg_users db) (pt_user_id x) = Some u \<and> pe_run env ''email_verifications.consume'' [pe_digest env tok]")
  case False
  then show ?thesis using e pg_auth_ok_tokens(1) [OF ok gok_del [OF pg_auth_okD(3) [OF ok]]] ok
    by (auto simp: pg_VerifyUser_def Let_def split: option.splits if_splits)
next
  case True
  then obtain x u where x: "gget (pg_verifs db) (pe_digest env tok) = Some x" "micros now \<le> pt_expires_at x"
    "gget (pg_users db) (pt_user_id x) = Some u" "pe_run env ''email_verifications.consume'' [pe_digest env tok]" by blast
  let ?db1 = "db\<lparr>pg_verifs := gdel (pe_digest env tok) (pg_verifs db)\<rparr>"
  have r: "r = None" "db' = set_user (pt_user_id x) (\<lambda>u. u\<lparr>pu_verified := True\<rparr>) ?db1 u"
    using e x by (simp_all add: pg_VerifyUser_def Let_def)
  have ok1: "pg_auth_ok env ?db1" by (rule pg_auth_ok_tokens(1) [OF ok gok_del [OF pg_auth_okD(3) [OF ok]]])
  have u1: "gget (pg_users ?db1) (pt_user_id x) = Some u" using x(3) by simp
  have ok2: "pg_auth_ok env db'" unfolding r(2) by (rule pg_auth_ok_set [OF ok1 u1]) simp_all
  have t: "token_for (v_verifs (pg_auth_view env db)) tok (micros now) (pt_user_id x)"
    using x(1,2) by (auto simp: token_for_def pg_auth_view_sel after_def)
  have v: "v_users (pg_auth_view env db) (pt_user_id x) = Some (toUser u)" using x(3) by (simp add: pg_auth_view_sel)
  have "pg_auth_view env db' = (pg_auth_view env db)\<lparr>v_users := (v_users (pg_auth_view env db))(pt_user_id x \<mapsto> (toUser u)\<lparr>u_Verified := True\<rparr>),
                            v_verifs := (v_verifs (pg_auth_view env db))(tok := None)\<rparr>"
    unfolding r(2) view_set_user view_tokens(4) [OF ok] by simp
  then show ?thesis using ok2 t v r(1) by auto
qed

lemma pg_ResetPassword_ok:
  assumes ok: "pg_auth_ok env db" and e: "pg_ResetPassword env db tok h now = (db', r)"
  shows "pg_auth_ok env db' \<and>
    (case r of
       None \<Rightarrow> (\<exists>i u. token_for (v_resets (pg_auth_view env db)) tok (micros now) i \<and> v_users (pg_auth_view env db) i = Some u \<and>
         pg_auth_view env db' = (pg_auth_view env db)\<lparr>v_users := (v_users (pg_auth_view env db))(i \<mapsto> u\<lparr>u_PasswordHash := h\<rparr>),
                            v_sessions := without s_UserID i (v_sessions (pg_auth_view env db)),
                            v_resets := (v_resets (pg_auth_view env db))(tok := None)\<rparr>)
     | Some _ \<Rightarrow> db' = db \<or> db' = db\<lparr>pg_resets := gdel (pe_digest env tok) (pg_resets db)\<rparr>)"
proof (cases "\<exists>x u. gget (pg_resets db) (pe_digest env tok) = Some x \<and> micros now \<le> pt_expires_at x \<and>
    gget (pg_users db) (pt_user_id x) = Some u \<and> pe_run env ''password_resets.consume'' [pe_digest env tok, h]")
  case False
  then show ?thesis using e pg_auth_ok_tokens(3) [OF ok gok_del [OF pg_auth_okD(5) [OF ok]]] ok
    by (auto simp: pg_ResetPassword_def Let_def split: option.splits if_splits)
next
  case True
  then obtain x u where x: "gget (pg_resets db) (pe_digest env tok) = Some x" "micros now \<le> pt_expires_at x"
    "gget (pg_users db) (pt_user_id x) = Some u" "pe_run env ''password_resets.consume'' [pe_digest env tok, h]" by blast
  let ?db1 = "db\<lparr>pg_resets := gdel (pe_digest env tok) (pg_resets db)\<rparr>"
  let ?db2 = "?db1\<lparr>pg_sessions := gdel_if (\<lambda>_ y. pt_user_id y = pt_user_id x) (pg_sessions ?db1)\<rparr>"
  have r: "r = None" "db' = set_user (pt_user_id x) (\<lambda>u. u\<lparr>pu_password_hash := Some h\<rparr>) ?db2 u"
    using e x by (simp_all add: pg_ResetPassword_def Let_def)
  have ok1: "pg_auth_ok env ?db1" by (rule pg_auth_ok_tokens(3) [OF ok gok_del [OF pg_auth_okD(5) [OF ok]]])
  have ok2: "pg_auth_ok env ?db2" by (rule pg_auth_ok_tokens(2) [OF ok1 gok_del_if [OF pg_auth_okD(4) [OF ok1]]])
  have u2: "gget (pg_users ?db2) (pt_user_id x) = Some u" using x(3) by simp
  have ok3: "pg_auth_ok env db'" unfolding r(2) by (rule pg_auth_ok_set [OF ok2 u2]) simp_all
  have t: "token_for (v_resets (pg_auth_view env db)) tok (micros now) (pt_user_id x)"
    using x(1,2) by (auto simp: token_for_def pg_auth_view_sel after_def)
  have v: "v_users (pg_auth_view env db) (pt_user_id x) = Some (toUser u)" using x(3) by (simp add: pg_auth_view_sel)
  have "pg_auth_view env db' = (pg_auth_view env db)\<lparr>v_users := (v_users (pg_auth_view env db))(pt_user_id x \<mapsto> (toUser u)\<lparr>u_PasswordHash := h\<rparr>),
                            v_sessions := without s_UserID (pt_user_id x) (v_sessions (pg_auth_view env db)),
                            v_resets := (v_resets (pg_auth_view env db))(tok := None)\<rparr>"
    unfolding r(2) view_set_user view_revoke [OF ok1] view_tokens(5) [OF ok] by simp
  then show ?thesis using ok3 t v r(1) by auto
qed

lemma session_upd: "\<lparr>s_Token = s_Token x, s_UserID = s_UserID x, s_ExpiresAt = t\<rparr> = x\<lparr>s_ExpiresAt := t\<rparr>"
  by (cases x) simp

interpretation pgAuth: auth_repo "pgAuthOps env" "pg_auth_ok env" "pg_auth_view env" micros
proof (unfold_locales, goal_cases)
  case (1 s i u) then show ?case using pg_auth_okD(6) by (auto simp: pg_auth_view_sel)
next
  case (2 s i j u w) then show ?case using pg_auth_okD(7) by (auto simp: pg_auth_view_sel)
next
  case (3 s s' e h r)
  then show ?case using pg_CreateUser_ok [OF 3(1), of e h s' r] by (auto simp: pgAuthOps_def pg_auth_view_sel split: sum.splits)
next
  case (4 s e)
  have "gget (pg_users s) (pu_id r) = Some r" if "r \<in> set (gvals (pg_users s))" for r
    using that pg_auth_okD(2,6) [OF 4] by (auto simp: gvals_mem)
  moreover have "\<exists>r \<in> set (gvals (pg_users s)). pu_email r = pu_email w" if "gget (pg_users s) i = Some w" for i w
    using that pg_auth_okD(2) [OF 4] gvals_mem by metis
  ultimately show ?case
    by (auto simp: pgAuthOps_def pg_UserByEmail_def scanUser_def pg_auth_view_sel find_None_iff find_Some_iff split: option.splits)
      (metis nth_mem)+
next
  case (5 s i) then show ?case by (auto simp: pgAuthOps_def pg_UserByID_def scanUser_def pg_auth_view_sel split: option.splits)
next
  case (6 s s' i r) then show ?case using affecting_ok [OF 6(1)] by (auto simp: pgAuthOps_def pg_SetVerified_def)
next
  case (7 s s' i t r)
  show ?case using affecting_ok [OF 7(1), of _ i "\<lambda>r. r\<lparr>pu_consent_at := Some (micros t)\<rparr>" s' r "\<lambda>u. u\<lparr>u_ConsentAt := micros t\<rparr>"] 7(2)
    by (simp add: pgAuthOps_def pg_SetConsent_def)
next
  case (8 s s' i h r)
  show ?case using affecting_ok [OF 8(1), of _ i "\<lambda>r. r\<lparr>pu_password_hash := Some h\<rparr>" s' r "\<lambda>u. u\<lparr>u_PasswordHash := h\<rparr>"] 8(2)
    by (simp add: pgAuthOps_def pg_UpdatePassword_def)
next
  case (9 s s' i r) then show ?case using pg_auth_ok_cascade [OF 9(1)] view_cascade [OF 9(1)]
    by (auto simp: pgAuthOps_def pg_DeleteUser_def execAffecting_def pg_auth_view_sel split: option.splits if_splits)
next
  case (10 s s' i tok t r) then show ?case
    using pg_auth_ok_tokens(1) [OF 10(1) gok_put [OF pg_auth_okD(3) [OF 10(1)]]] view_tokens(1) [OF 10(1)]
    by (auto simp: pgAuthOps_def pg_CreateVerification_def toReset_def dest!: token_row_ok split: option.splits)
next
  case (11 s s' tok now r)
  have e: "pg_VerifyUser env s tok now = (s', r)" using 11(2) by (simp add: pgAuthOps_def)
  note o = pg_VerifyUser_ok [OF 11(1) e]
  show ?case
  proof (cases r)
    case None
    then show ?thesis using o by simp
  next
    case (Some err)
    then have "s' = s \<or> s' = s\<lparr>pg_verifs := gdel (pe_digest env tok) (pg_verifs s)\<rparr>" using o by simp
    then have "pg_auth_view env s' = pg_auth_view env s \<or>
      pg_auth_view env s' = (pg_auth_view env s)\<lparr>v_verifs := (v_verifs (pg_auth_view env s))(tok := None)\<rparr>" using view_tokens(4) [OF 11(1), of tok] by metis
    then show ?thesis using o Some by (elim disjE) (simp_all add: map_le_def)
  qed
next
  case (12 s s' x r) then show ?case
    using pg_auth_ok_tokens(2) [OF 12(1) gok_put [OF pg_auth_okD(4) [OF 12(1)]]] view_tokens(3) [OF 12(1)]
    by (auto simp: pgAuthOps_def pg_CreateSession_def toSession_def session_upd dest!: token_row_ok split: option.splits)
next
  case (13 s tok) then show ?case by (auto simp: pgAuthOps_def pg_SessionByToken_def pg_auth_view_sel split: option.splits)
next
  case (14 s s' tok r) then show ?case
    using pg_auth_ok_tokens(2) [OF 14(1) gok_del [OF pg_auth_okD(4) [OF 14(1)]]] view_tokens(6) [OF 14(1)]
    by (auto simp: pgAuthOps_def pg_DeleteSession_def Let_def split: if_splits)
next
  case (15 s s' i tok t r) then show ?case
    using pg_auth_ok_tokens(3) [OF 15(1) gok_put [OF pg_auth_okD(5) [OF 15(1)]]] view_tokens(2) [OF 15(1)]
    by (auto simp: pgAuthOps_def pg_CreateReset_def toReset_def dest!: token_row_ok split: option.splits)
next
  case (16 s s' tok h now r)
  have e: "pg_ResetPassword env s tok h now = (s', r)" using 16(2) by (simp add: pgAuthOps_def)
  note o = pg_ResetPassword_ok [OF 16(1) e]
  show ?case
  proof (cases r)
    case None
    then show ?thesis using o by simp
  next
    case (Some err)
    then have "s' = s \<or> s' = s\<lparr>pg_resets := gdel (pe_digest env tok) (pg_resets s)\<rparr>" using o by simp
    then have "pg_auth_view env s' = pg_auth_view env s \<or>
      pg_auth_view env s' = (pg_auth_view env s)\<lparr>v_resets := (v_resets (pg_auth_view env s))(tok := None)\<rparr>" using view_tokens(5) [OF 16(1), of tok] by metis
    then show ?thesis using o Some by (elim disjE) (simp_all add: map_le_def)
  qed
qed

end
