(* ===== verification/Pg_CV.thy ===== *)
theory Pg_CV
  imports Pg_Schema
begin

text \<open>
  The CV metadata and the profiles on Postgres (\<open>internal/cv/pgxrepo.go\<close>,
  \<open>internal/profile/pgxrepo.go\<close>). \<open>pgCv\<close> interprets the contract of the CV repository: with the
  partial unique index on the primary CV it holds with failing statements too.
\<close>

section \<open>CV metadata\<close>

definition user_cvs :: "pgDB \<Rightarrow> string \<Rightarrow> cvFile list" where
  "user_cvs db userID = filter (\<lambda>f. fl_UserID f = userID) (gvals (pg_cvs db))"

definition maxCVSize :: int where
  "maxCVSize = 5242880"

text \<open>
  The row of an insert: the label defaults to the file name, the first file of a user is the
  primary one.
\<close>

definition newCV :: "pgEnv \<Rightarrow> pgDB \<Rightarrow> cvFile \<Rightarrow> cvFile" where
  "newCV env db f =
     f\<lparr>fl_ID := pe_uuid env, fl_Label := (if fl_Label f = [] then fl_Filename f else fl_Label f),
       fl_IsPrimary := (fl_IsPrimary f \<or> user_cvs db (fl_UserID f) = []), fl_CreatedAt := stamp_now env\<rparr>"

definition pg_CreateFile :: "pgEnv \<Rightarrow> pgDB \<Rightarrow> cvFile \<Rightarrow> pgDB \<times> (cv_err + cvFile)" where
  "pg_CreateFile env db f =
     (let g = newCV env db f in
      if \<not> pe_run env ''cv_files.insert'' [fl_UserID f, fl_ObjectKey f, fl_Filename f, fl_Label f, fl_ContentType f]
         \<or> \<not> has_user db (fl_UserID f) \<or> \<not> (0 < fl_SizeBytes f \<and> fl_SizeBytes f \<le> maxCVSize)
         \<or> gget (pg_cvs db) (fl_ID g) \<noteq> None \<or> fl_IsPrimary g \<and> list_ex fl_IsPrimary (user_cvs db (fl_UserID f))
      then (db, Inl CvOther)
      else (db\<lparr>pg_cvs := gput (fl_ID g) g (pg_cvs db)\<rparr>, Inr g))"

definition pg_FileByID :: "pgEnv \<Rightarrow> pgDB \<Rightarrow> string \<Rightarrow> cv_err + cvFile" where
  "pg_FileByID env db i =
     (if \<not> pe_run env ''cv_files.by_id'' [i] then Inl CvOther
      else (case gget (pg_cvs db) i of None \<Rightarrow> Inl CvNotFound | Some f \<Rightarrow> Inr f))"

definition pg_FilesByUser :: "pgEnv \<Rightarrow> pgDB \<Rightarrow> string \<Rightarrow> cv_err + cvFile list" where
  "pg_FilesByUser env db userID =
     (if \<not> pe_run env ''cv_files.by_user'' [userID] then Inl CvOther else Inr (sort_by newer_first (user_cvs db userID)))"

definition pg_DeleteByUser :: "pgEnv \<Rightarrow> pgDB \<Rightarrow> string \<Rightarrow> pgDB \<times> cv_err option" where
  "pg_DeleteByUser env db userID =
     (if \<not> pe_run env ''cv_files.delete'' [userID] then (db, Some CvOther)
      else (db\<lparr>pg_cvs := gdel_if (\<lambda>_ f. fl_UserID f = userID) (pg_cvs db)\<rparr>, None))"

text \<open>
  Three statements without a transaction: the ownership check, clearing the primary flag of
  the user's files, and the update, whose \<open>SET\<close> list has what was asked for.
\<close>

definition clear_primary :: "string \<Rightarrow> pgDB \<Rightarrow> pgDB" where
  "clear_primary userID db = db\<lparr>pg_cvs := demote userID (pg_cvs db)\<rparr>"

definition pg_UpdateVersion ::
  "pgEnv \<Rightarrow> pgDB \<Rightarrow> string \<Rightarrow> string \<Rightarrow> string \<Rightarrow> bool option \<Rightarrow> pgDB \<times> (cv_err + cvFile)" where
  "pg_UpdateVersion env db userID i label prim =
     (if \<not> pe_run env ''cv_files.owned'' [userID, i] then (db, Inl CvOther)
      else if \<not> (case gget (pg_cvs db) i of None \<Rightarrow> False | Some f \<Rightarrow> fl_UserID f = userID) then (db, Inl CvNotFound)
      else if prim = Some True \<and> \<not> pe_run env ''cv_files.clear'' [userID] then (db, Inl CvOther)
      else (let db1 = (if prim = Some True then clear_primary userID db else db) in
        if trim_space label = [] \<and> prim = None then (db1, Inl CvNotFound)
        else if \<not> pe_run env ''cv_files.update'' [userID, i, trim_space label] then (db1, Inl CvOther)
        else (case gget (pg_cvs db1) i of
            None \<Rightarrow> (db1, Inl CvNotFound)
          | Some f \<Rightarrow>
              (let g1 = (if trim_space label = [] then f else f\<lparr>fl_Label := trim_space label\<rparr>);
                   g = (case prim of None \<Rightarrow> g1 | Some b \<Rightarrow> g1\<lparr>fl_IsPrimary := b\<rparr>)
               in (db1\<lparr>pg_cvs := gput i g (pg_cvs db1)\<rparr>, Inr g)))))"

definition pgCvOps :: "pgEnv \<Rightarrow> pgDB cvRepo" where
  "pgCvOps env = \<lparr>rp_CreateFile = pg_CreateFile env, rp_FileByID = pg_FileByID env, rp_FilesByUser = pg_FilesByUser env,
     rp_DeleteByUser = pg_DeleteByUser env, rp_UpdateVersion = Some (pg_UpdateVersion env)\<rparr>"

definition pg_cv_ok :: "pgDB \<Rightarrow> bool" where
  "pg_cv_ok db \<longleftrightarrow> gok (pg_cvs db) \<and> one_primary (gget (pg_cvs db)) \<and> (\<forall>i f. gget (pg_cvs db) i = Some f \<longrightarrow> fl_ID f = i)"

lemma user_cvs_mem: "pg_cv_ok db \<Longrightarrow> f \<in> set (user_cvs db u) \<longleftrightarrow> fl_UserID f = u \<and> gget (pg_cvs db) (fl_ID f) = Some f"
  by (auto simp: user_cvs_def gvals_mem pg_cv_ok_def)

lemma pg_CreateFile_ok:
  assumes ok: "pg_cv_ok db" and e: "pg_CreateFile env db f = (db', Inr g)"
  shows "pg_cv_ok db' \<and> g = newCV env db f \<and> gget (pg_cvs db) (fl_ID g) = None \<and> db' = db\<lparr>pg_cvs := gput (fl_ID g) g (pg_cvs db)\<rparr>"
proof -
  have g: "g = newCV env db f" "gget (pg_cvs db) (fl_ID g) = None" "db' = db\<lparr>pg_cvs := gput (fl_ID g) g (pg_cvs db)\<rparr>"
    and p: "fl_IsPrimary g \<Longrightarrow> \<not> list_ex fl_IsPrimary (user_cvs db (fl_UserID f))"
    using e by (auto simp: pg_CreateFile_def Let_def split: if_splits)
  have u: "fl_UserID g = fl_UserID f" by (simp add: g(1) newCV_def)
  have no: "\<not> fl_IsPrimary h" if "fl_IsPrimary g" "gget (pg_cvs db) j = Some h" "fl_UserID h = fl_UserID g" for j h
  proof -
    have "fl_ID h = j" using ok that(2) by (simp add: pg_cv_ok_def)
    then have "h \<in> set (user_cvs db (fl_UserID f))" using that(2,3) u by (simp add: user_cvs_mem [OF ok])
    then show ?thesis using p [OF that(1)] by (auto simp: list_ex_iff)
  qed
  have "one_primary (gget (gput (fl_ID g) g (pg_cvs db)))"
    unfolding one_primary_def
  proof (intro allI impI)
    fix i x j y
    assume x: "gget (gput (fl_ID g) g (pg_cvs db)) i = Some x" and y: "gget (gput (fl_ID g) g (pg_cvs db)) j = Some y"
      and s: "fl_UserID x = fl_UserID y" "fl_IsPrimary x" "fl_IsPrimary y"
    from x show "i = j"
    proof (cases rule: gget_put_cases)
      case 1
      from y show ?thesis
      proof (cases rule: gget_put_cases)
        case 2 then show ?thesis using no [of j y] 1 s by simp
      qed (use 1 in simp)
    next
      case x2: 2
      from y show ?thesis
      proof (cases rule: gget_put_cases)
        case 1 then show ?thesis using no [of i x] x2 s by simp
      next
        case 2 then show ?thesis using ok x2 s unfolding pg_cv_ok_def one_primary_def by blast
      qed
    qed
  qed
  then have "pg_cv_ok db'" using ok g(3) by (auto simp: pg_cv_ok_def)
  then show ?thesis using g by blast
qed

interpretation pgCv: cv_repo "pgCvOps env" pg_cv_ok "\<lambda>db. gget (pg_cvs db)"
proof (unfold_locales, goal_cases)
  case (1 s) then show ?case by (simp add: pg_cv_ok_def)
next
  case (2 s i f) then show ?case by (auto simp: pgCvOps_def pg_FileByID_def split: option.splits if_splits)
next
  case (3 s u fs)
  then have fs: "fs = sort_by newer_first (user_cvs s u)" by (auto simp: pgCvOps_def pg_FilesByUser_def split: if_splits)
  have d: "distinct (map fl_ID (user_cvs s u))"
  proof -
    have "distinct (map fst (filter (\<lambda>(k, f). fl_UserID f = u) (pg_cvs s)))"
      using 3(1) by (auto simp: pg_cv_ok_def gok_def distinct_map_filter)
    moreover have "map fl_ID (user_cvs s u) = map fst (filter (\<lambda>(k, f). fl_UserID f = u) (pg_cvs s))"
    proof -
      have "fl_ID f = k" if "(k, f) \<in> set (pg_cvs s)" for k f
        using that 3(1) gget_mem [of "pg_cvs s" k f] by (simp add: pg_cv_ok_def)
      then show ?thesis unfolding user_cvs_def gvals_def by (induction "pg_cvs s") (auto simp: filter_map comp_def case_prod_unfold)
    qed
    ultimately show ?thesis by simp
  qed
  have "set fs = {f. \<exists>i. gget (pg_cvs s) i = Some f \<and> fl_UserID f = u}"
    using 3(1) user_cvs_mem [OF 3(1), of _ u] unfolding fs set_sort_by by (fastforce simp: pg_cv_ok_def)
  then show ?case using sorted_sort_by [OF newer_first_order, of "user_cvs s u"] d unfolding fs by simp
next
  case (4 s f s' g)
  then have e: "pg_CreateFile env s f = (s', Inr g)" by (simp add: pgCvOps_def)
  note o = pg_CreateFile_ok [OF 4(1) e]
  then show ?case by (auto simp: newCV_def)
next
  case (5 s f s' err) then show ?case by (auto simp: pgCvOps_def pg_CreateFile_def Let_def split: if_splits)
next
  case (6 s u s')
  then have "s' = s\<lparr>pg_cvs := gdel_if (\<lambda>_ f. fl_UserID f = u) (pg_cvs s)\<rparr>"
    by (auto simp: pgCvOps_def pg_DeleteByUser_def split: if_splits)
  moreover have "gok (pg_cvs s)" using 6(1) by (simp add: pg_cv_ok_def)
  ultimately show ?case using 6(1)
    by (auto simp: pg_cv_ok_def one_primary_def gget_del_if fun_eq_iff split: option.splits if_splits)
next
  case (7 s u s' e) then show ?case by (auto simp: pgCvOps_def pg_DeleteByUser_def split: if_splits)
qed

lemma clear_primary_ok:
  assumes "pg_cv_ok db" shows "pg_cv_ok (clear_primary u db)"
  using assms unfolding pg_cv_ok_def one_primary_def clear_primary_def
  by (auto simp: demote_def split: if_splits)

lemma clear_primary_get:
  "gget (pg_cvs (clear_primary u db)) i =
     map_option (\<lambda>f. if fl_UserID f = u then f\<lparr>fl_IsPrimary := False\<rparr> else f) (gget (pg_cvs db) i)"
  by (simp add: clear_primary_def demote_get)

text \<open>
  An update keeps the rows well formed, one primary file per user, and every row of the others;
  of the user's rows only labels and flags change.
\<close>

lemma pg_UpdateVersion_ok:
  assumes ok: "pg_cv_ok db" and e: "pg_UpdateVersion env db u i label prim = (db', r)"
  shows "pg_cv_ok db' \<and> (\<exists>m. db' = db\<lparr>pg_cvs := m\<rparr>) \<and>
    (\<forall>j f. gget (pg_cvs db) j = Some f \<longrightarrow> fl_UserID f \<noteq> u \<longrightarrow> gget (pg_cvs db') j = Some f) \<and>
    (\<forall>j. map_option fl_UserID (gget (pg_cvs db') j) = map_option fl_UserID (gget (pg_cvs db) j)) \<and>
    (\<forall>f. r = Inr f \<longrightarrow> gget (pg_cvs db') i = Some f \<and> fl_UserID f = u)"
proof -
  define db1 where "db1 = (if prim = Some True then clear_primary u db else db)"
  have ok1: "pg_cv_ok db1" by (simp add: db1_def ok clear_primary_ok)
  have same: "\<exists>m. db1 = db\<lparr>pg_cvs := m\<rparr>" by (cases db) (auto simp: db1_def clear_primary_def)
  have get1: "gget (pg_cvs db1) j = map_option (\<lambda>f. if prim = Some True \<and> fl_UserID f = u then f\<lparr>fl_IsPrimary := False\<rparr> else f) (gget (pg_cvs db) j)" for j
    by (cases "gget (pg_cvs db) j") (simp_all add: db1_def clear_primary_get)
  have own1: "map_option fl_UserID (gget (pg_cvs db1) j) = map_option fl_UserID (gget (pg_cvs db) j)" for j
    by (cases "gget (pg_cvs db) j") (simp_all add: get1)
  have "pg_UpdateVersion env db u i label prim =
     (if \<not> pe_run env ''cv_files.owned'' [u, i] then (db, Inl CvOther)
      else if \<not> (case gget (pg_cvs db) i of None \<Rightarrow> False | Some f \<Rightarrow> fl_UserID f = u) then (db, Inl CvNotFound)
      else if prim = Some True \<and> \<not> pe_run env ''cv_files.clear'' [u] then (db, Inl CvOther)
      else if trim_space label = [] \<and> prim = None then (db1, Inl CvNotFound)
      else if \<not> pe_run env ''cv_files.update'' [u, i, trim_space label] then (db1, Inl CvOther)
      else (case gget (pg_cvs db1) i of
            None \<Rightarrow> (db1, Inl CvNotFound)
          | Some f \<Rightarrow>
              (let g1 = (if trim_space label = [] then f else f\<lparr>fl_Label := trim_space label\<rparr>);
                   g = (case prim of None \<Rightarrow> g1 | Some b \<Rightarrow> g1\<lparr>fl_IsPrimary := b\<rparr>)
               in (db1\<lparr>pg_cvs := gput i g (pg_cvs db1)\<rparr>, Inr g))))"
    by (simp only: pg_UpdateVersion_def db1_def Let_def)
  note e' = e [unfolded this]
  consider "db' = db" "\<exists>x. r = Inl x" | "db' = db1" "\<exists>x. r = Inl x" |
    f g where "gget (pg_cvs db) i = Some f" "fl_UserID f = u" "db' = db1\<lparr>pg_cvs := gput i g (pg_cvs db1)\<rparr>" "r = Inr g"
      "fl_UserID g = u" "fl_ID g = fl_ID f" "fl_IsPrimary g \<longrightarrow> prim = Some True \<or> fl_IsPrimary f"
    using e' get1 [of i] by (auto simp: Let_def split: option.splits if_splits)
  then show ?thesis
  proof cases
    case 1 then show ?thesis using ok by (cases db) auto
  next
    case 2 then show ?thesis using ok1 same get1 own1 by auto
  next
    case 3
    have p: "one_primary (gget (gput i g (pg_cvs db1)))"
      unfolding one_primary_def
    proof (intro allI impI)
      fix j x k y
      assume x: "gget (gput i g (pg_cvs db1)) j = Some x" and y: "gget (gput i g (pg_cvs db1)) k = Some y"
        and s: "fl_UserID x = fl_UserID y" "fl_IsPrimary x" "fl_IsPrimary y"
      have no: "h = i" if "fl_IsPrimary g" "gget (pg_cvs db1) h = Some w" "fl_UserID w = u" "fl_IsPrimary w" for h w
      proof (cases "prim = Some True")
        case True
        note t = that
        obtain v where v: "gget (pg_cvs db) h = Some v" "w = (if fl_UserID v = u then v\<lparr>fl_IsPrimary := False\<rparr> else v)"
          using t(2) True unfolding get1 by (cases "gget (pg_cvs db) h") simp_all
        show ?thesis using t(3,4) unfolding v(2) by (cases "fl_UserID v = u") simp_all
      next
        case False
        then have "db1 = db" "fl_IsPrimary f" using 3 that(1) by (auto simp: db1_def)
        then show ?thesis using ok that 3(1,2) unfolding pg_cv_ok_def one_primary_def by metis
      qed
      show "j = k"
      proof (cases "j = i"; cases "k = i")
        assume "j = i" "k \<noteq> i" then show ?thesis using no [of k y] x y s 3(5) by simp
      next
        assume "j \<noteq> i" "k = i" then show ?thesis using no [of j x] x y s 3(5) by simp
      next
        assume "j \<noteq> i" "k \<noteq> i" then show ?thesis using ok1 x y s unfolding pg_cv_ok_def one_primary_def by simp
      qed simp
    qed
    have "pg_cv_ok db'" using ok1 p 3 ok by (auto simp: pg_cv_ok_def elim!: gget_put_cases)
    moreover have "\<exists>m. db' = db\<lparr>pg_cvs := m\<rparr>" using same 3(3) by auto
    ultimately show ?thesis using 3 get1 own1 by simp
  qed
qed

text \<open>
  If the last of the three statements does not run, the user is left without a primary file,
  while the request is answered with an error.
\<close>

definition demoCV :: cvFile where
  "demoCV = \<lparr>fl_ID = ''c1'', fl_UserID = ''u1'', fl_ObjectKey = ''k'', fl_Filename = ''cv.pdf'', fl_Label = ''cv.pdf'',
     fl_IsPrimary = True, fl_ContentType = ''application/pdf'', fl_SizeBytes = 10, fl_CreatedAt = 0\<rparr>"

lemma failed_update_loses_primary:
  assumes "pe_run env ''cv_files.owned'' [''u1'', ''c1'']" "pe_run env ''cv_files.clear'' [''u1'']"
    "\<not> pe_run env ''cv_files.update'' [''u1'', ''c1'', []]"
  shows "let db = emptyDB\<lparr>pg_cvs := [(''c1'', demoCV)]\<rparr>; (db', r) = pg_UpdateVersion env db ''u1'' ''c1'' [] (Some True)
    in r = Inl CvOther \<and> list_ex fl_IsPrimary (user_cvs db ''u1'') \<and> \<not> list_ex fl_IsPrimary (user_cvs db' ''u1'')"
  using assms
  by (simp add: pg_UpdateVersion_def clear_primary_def demote_def gmap_def user_cvs_def gvals_def gget_def emptyDB_def demoCV_def)

section \<open>Profiles\<close>

definition jsonbArray :: "raw \<Rightarrow> json" where
  "jsonbArray r = (case r of None \<Rightarrow> JArr [] | Some v \<Rightarrow> v)"

text \<open>The row a save writes and gives back: \<open>jsonb\<close> columns come back in their canonical form.\<close>

definition profile_row :: "pgEnv \<Rightarrow> Profile \<Rightarrow> Profile" where
  "profile_row env p =
     p\<lparr>pr_Education := Some (pe_jsonb env (jsonbArray (pr_Education p))),
       pr_WorkHistory := Some (pe_jsonb env (jsonbArray (pr_WorkHistory p))),
       pr_Skills := Some (pe_jsonb env (jsonbArray (pr_Skills p))),
       pr_PreferredLocations := Some (pe_jsonb env (jsonbArray (pr_PreferredLocations p))),
       pr_ConfirmedAt := map_option micros (pr_ConfirmedAt p)\<rparr>"

definition pg_prof_Get :: "pgEnv \<Rightarrow> pgDB \<Rightarrow> string \<Rightarrow> prof_err + Profile" where
  "pg_prof_Get env db userID =
     (if \<not> pe_run env ''profiles.get'' [userID] then Inl ProfOther
      else (case gget (pg_profiles db) userID of None \<Rightarrow> Inl ProfNotFound | Some p \<Rightarrow> Inr p))"

definition pg_prof_Save :: "pgEnv \<Rightarrow> pgDB \<Rightarrow> Profile \<Rightarrow> pgDB \<times> (prof_err + Profile)" where
  "pg_prof_Save env db p =
     (if \<not> pe_run env ''profiles.upsert'' [pr_UserID p] \<or> \<not> has_user db (pr_UserID p) then (db, Inl ProfOther)
      else (db\<lparr>pg_profiles := gput (pr_UserID p) (profile_row env p) (pg_profiles db)\<rparr>, Inr (profile_row env p)))"

definition pg_prof_Delete :: "pgEnv \<Rightarrow> pgDB \<Rightarrow> string \<Rightarrow> pgDB \<times> prof_err option" where
  "pg_prof_Delete env db userID =
     (if \<not> pe_run env ''profiles.delete'' [userID] then (db, Some ProfOther)
      else (db\<lparr>pg_profiles := gdel userID (pg_profiles db)\<rparr>, None))"

definition pgProfOps :: "pgEnv \<Rightarrow> pgDB profRepo" where
  "pgProfOps env = \<lparr>pq_Get = pg_prof_Get env, pq_Save = pg_prof_Save env, pq_Delete = pg_prof_Delete env\<rparr>"

end
