(* ===== verification/Pg_M5.thy ===== *)
theory Pg_M5
  imports Pg_Schema M5_Props
begin

text \<open>
  The seeker store on Postgres (\<open>internal/m5/pgxstore.go\<close>), one definition per method. \<open>pgM5\<close>
  interprets the contract of the store on it. A saved query is written as JSON and read back as
  it was.
\<close>

section \<open>Saved filters\<close>

definition m5run :: "pgEnv \<Rightarrow> string \<Rightarrow> string list \<Rightarrow> (unit \<Rightarrow> m5_err + 'a) \<Rightarrow> m5_err + 'a" where
  "m5run env stmt args f = (if pe_run env stmt args then f () else Inl M5Other)"

definition pg_ListSavedFilterUsers :: "pgEnv \<Rightarrow> pgDB \<Rightarrow> m5_err + string list" where
  "pg_ListSavedFilterUsers env db =
     m5run env ''saved_filters.users'' [] (\<lambda>_. Inr (remdups (map sf_UserID (gvals (pg_filters db)))))"

definition pg_ListSavedFilters :: "pgEnv \<Rightarrow> pgDB \<Rightarrow> string \<Rightarrow> m5_err + SavedFilter list" where
  "pg_ListSavedFilters env db userID =
     m5run env ''saved_filters.list'' [userID]
       (\<lambda>_. Inr (sort_by (\<lambda>f g. sf_CreatedAt f < sf_CreatedAt g) (filter (\<lambda>f. sf_UserID f = userID) (gvals (pg_filters db)))))"

definition of_user :: "('r \<Rightarrow> string) \<Rightarrow> string \<Rightarrow> 'r option \<Rightarrow> 'r option" where
  "of_user f u row = (case row of None \<Rightarrow> None | Some r \<Rightarrow> if f r = u then Some r else None)"

definition found_row :: "'r option \<Rightarrow> m5_err + 'r" where
  "found_row row = (case row of None \<Rightarrow> Inl M5NotFound | Some r \<Rightarrow> Inr r)"

definition pg_GetSavedFilter :: "pgEnv \<Rightarrow> pgDB \<Rightarrow> string \<Rightarrow> string \<Rightarrow> m5_err + SavedFilter" where
  "pg_GetSavedFilter env db userID i =
     m5run env ''saved_filters.get'' [userID, i] (\<lambda>_. found_row (of_user sf_UserID userID (gget (pg_filters db) i)))"

text \<open>A violated unique constraint is a conflict if the text of the error has the name the code looks for.\<close>

definition conflict_err :: "string \<Rightarrow> string \<Rightarrow> m5_err" where
  "conflict_err name err = (if contains err name then M5Conflict else M5Other)"

definition pg_CreateSavedFilter :: "pgEnv \<Rightarrow> pgDB \<Rightarrow> SavedFilter \<Rightarrow> pgDB \<times> (m5_err + SavedFilter)" where
  "pg_CreateSavedFilter env db f =
     (let name = trim_space (sf_Name f);
          g = \<lparr>sf_ID = pe_uuid env, sf_UserID = sf_UserID f, sf_Name = name, sf_Query = sf_Query f,
               sf_CreatedAt = stamp_now env, sf_LastAlertedAt = None\<rparr>
      in if \<not> pe_run env ''saved_filters.insert'' [sf_UserID f, name] \<or> \<not> has_user db (sf_UserID f)
           \<or> gget (pg_filters db) (pe_uuid env) \<noteq> None then (db, Inl M5Other)
         else if list_ex (\<lambda>h. sf_UserID h = sf_UserID f \<and> sf_Name h = name) (gvals (pg_filters db))
         then (db, Inl (conflict_err ''saved_filters_user_name_key'' (pe_dup env ''saved_filters'' [''user_id'', ''name''])))
         else (db\<lparr>pg_filters := gput (sf_ID g) g (pg_filters db)\<rparr>, Inr g))"

definition m5exec :: "bool \<Rightarrow> 'r option \<Rightarrow> ('r \<Rightarrow> pgDB) \<Rightarrow> pgDB \<Rightarrow> pgDB \<times> m5_err option" where
  "m5exec run row change db =
     (if \<not> run then (db, Some M5Other)
      else (case row of None \<Rightarrow> (db, Some M5NotFound) | Some r \<Rightarrow> (change r, None)))"

definition pg_DeleteSavedFilter :: "pgEnv \<Rightarrow> pgDB \<Rightarrow> string \<Rightarrow> string \<Rightarrow> pgDB \<times> m5_err option" where
  "pg_DeleteSavedFilter env db userID i =
     m5exec (pe_run env ''saved_filters.delete'' [userID, i]) (of_user sf_UserID userID (gget (pg_filters db) i))
       (\<lambda>_. db\<lparr>pg_filters := gdel i (pg_filters db)\<rparr>) db"

definition pg_TouchSavedFilter :: "pgEnv \<Rightarrow> pgDB \<Rightarrow> string \<Rightarrow> string \<Rightarrow> time \<Rightarrow> pgDB \<times> m5_err option" where
  "pg_TouchSavedFilter env db userID i at =
     m5exec (pe_run env ''saved_filters.touch'' [userID, i]) (of_user sf_UserID userID (gget (pg_filters db) i))
       (\<lambda>f. db\<lparr>pg_filters := gput i (f\<lparr>sf_LastAlertedAt := Some (micros at)\<rparr>) (pg_filters db)\<rparr>) db"

section \<open>Job states\<close>

definition pg_GetJobState :: "pgEnv \<Rightarrow> pgDB \<Rightarrow> string \<Rightarrow> string \<Rightarrow> m5_err + JobState" where
  "pg_GetJobState env db userID key =
     m5run env ''job_user_states.get'' [userID, key]
       (\<lambda>_. Inr (case gget (pg_states db) (userID, key) of None \<Rightarrow> zeroJobState key | Some s \<Rightarrow> s))"

definition pg_listJobStates :: "pgEnv \<Rightarrow> pgDB \<Rightarrow> string \<Rightarrow> m5_err + JobState list" where
  "pg_listJobStates env db userID =
     m5run env ''job_user_states.list'' [userID]
       (\<lambda>_. Inr (sort_by (\<lambda>s t. js_UpdatedAt t < js_UpdatedAt s) (map snd (filter (\<lambda>((u, _), _). u = userID) (pg_states db)))))"

definition pg_SetJobState :: "pgEnv \<Rightarrow> pgDB \<Rightarrow> string \<Rightarrow> JobState \<Rightarrow> pgDB \<times> (m5_err + JobState)" where
  "pg_SetJobState env db userID s =
     (if \<not> pe_run env ''job_user_states.upsert'' [userID, js_JobKey s] \<or> \<not> has_user db userID then (db, Inl M5Other)
      else (let t = s\<lparr>js_UpdatedAt := stamp_now env\<rparr>
            in (db\<lparr>pg_states := gput (userID, js_JobKey s) t (pg_states db)\<rparr>, Inr t)))"

section \<open>Applications\<close>

text \<open>An application is read joined with its listing.\<close>

definition joined_app :: "pgDB \<Rightarrow> pgApp \<Rightarrow> Application option" where
  "joined_app db a =
     map_option (\<lambda>j. \<lparr>ap_ID = pa_id a, ap_UserID = pa_user_id a, ap_JobKey = j_DedupKey (pj_job j), ap_JobTitle = j_Title (pj_job j),
        ap_Company = j_Company (pj_job j), ap_Status = pa_status a, ap_CreatedAt = pa_created_at a, ap_UpdatedAt = pa_updated_at a\<rparr>)
       (gget (pg_jobs db) (pa_job_id a))"

definition pg_ListApplications :: "pgEnv \<Rightarrow> pgDB \<Rightarrow> string \<Rightarrow> m5_err + Application list" where
  "pg_ListApplications env db userID =
     m5run env ''applications.list'' [userID]
       (\<lambda>_. Inr (sort_by (\<lambda>a b. ap_UpdatedAt b < ap_UpdatedAt a)
              (filter (\<lambda>a. ap_UserID a = userID) (List.map_filter (joined_app db) (gvals (pg_apps db))))))"

definition app_of :: "pgDB \<Rightarrow> string \<Rightarrow> Application option" where
  "app_of db i = Option.bind (gget (pg_apps db) i) (joined_app db)"

definition pg_GetApplication :: "pgEnv \<Rightarrow> pgDB \<Rightarrow> string \<Rightarrow> string \<Rightarrow> m5_err + Application" where
  "pg_GetApplication env db userID i =
     m5run env ''applications.get'' [userID, i] (\<lambda>_. found_row (of_user ap_UserID userID (app_of db i)))"

text \<open>
  Find the listing, insert unless there is an application for it, read the row back. The
  schema admits the five statuses only.
\<close>

definition pg_CreateApplication :: "pgEnv \<Rightarrow> pgDB \<Rightarrow> Application \<Rightarrow> pgDB \<times> (m5_err + Application)" where
  "pg_CreateApplication env db a =
     (if \<not> pe_run env ''jobs.by_key'' [ap_JobKey a] then (db, Inl M5Other)
      else (case find (\<lambda>j. j_DedupKey (pj_job j) = ap_JobKey a) (gvals (pg_jobs db)) of
          None \<Rightarrow> (db, Inl M5JobNotFound)
        | Some j \<Rightarrow>
            if \<not> pe_run env ''applications.insert'' [ap_UserID a, pj_id j, ap_Status a] \<or> \<not> has_user db (ap_UserID a)
               \<or> \<not> validStatus (ap_Status a) then (db, Inl M5Other)
            else (case find (\<lambda>x. pa_user_id x = ap_UserID a \<and> pa_job_id x = pj_id j) (gvals (pg_apps db)) of
                Some x \<Rightarrow> (db, pg_GetApplication env db (ap_UserID a) (pa_id x))
              | None \<Rightarrow>
                  if gget (pg_apps db) (pe_uuid env) \<noteq> None then (db, Inl M5Other)
                  else (let x = \<lparr>pa_id = pe_uuid env, pa_user_id = ap_UserID a, pa_job_id = pj_id j, pa_status = ap_Status a,
                                 pa_created_at = stamp_now env, pa_updated_at = stamp_now env\<rparr>;
                            db1 = db\<lparr>pg_apps := gput (pa_id x) x (pg_apps db)\<rparr>
                        in (db1, pg_GetApplication env db1 (ap_UserID a) (pa_id x))))))"

definition pg_UpdateApplication :: "pgEnv \<Rightarrow> pgDB \<Rightarrow> string \<Rightarrow> Application \<Rightarrow> pgDB \<times> (m5_err + Application)" where
  "pg_UpdateApplication env db userID a =
     (if \<not> pe_run env ''applications.update'' [userID, ap_ID a, ap_Status a] then (db, Inl M5Other)
      else (case of_user pa_user_id userID (gget (pg_apps db) (ap_ID a)) of
          None \<Rightarrow> (db, Inl M5NotFound)
        | Some x \<Rightarrow>
            if \<not> validStatus (ap_Status a) then (db, Inl M5Other)
            else (let db1 = db\<lparr>pg_apps := gput (ap_ID a) (x\<lparr>pa_status := ap_Status a, pa_updated_at := stamp_now env\<rparr>) (pg_apps db)\<rparr>
             in (db1, pg_GetApplication env db1 userID (ap_ID a)))))"

section \<open>Snippets\<close>

definition pg_ListSnippets :: "pgEnv \<Rightarrow> pgDB \<Rightarrow> string \<Rightarrow> m5_err + Snippet list" where
  "pg_ListSnippets env db userID =
     m5run env ''answer_snippets.list'' [userID]
       (\<lambda>_. Inr (sort_by (\<lambda>x y. pe_less env (sn_Name x) (sn_Name y)) (filter (\<lambda>x. sn_UserID x = userID) (gvals (pg_snips db)))))"

definition pg_GetSnippet :: "pgEnv \<Rightarrow> pgDB \<Rightarrow> string \<Rightarrow> string \<Rightarrow> m5_err + Snippet" where
  "pg_GetSnippet env db userID i =
     m5run env ''answer_snippets.get'' [userID, i] (\<lambda>_. found_row (of_user sn_UserID userID (gget (pg_snips db) i)))"

definition snippet_dup :: "pgEnv \<Rightarrow> m5_err" where
  "snippet_dup env = conflict_err ''answer_snippets_user_name_key'' (pe_dup env ''answer_snippets'' [''user_id'', ''name''])"

definition pg_CreateSnippet :: "pgEnv \<Rightarrow> pgDB \<Rightarrow> Snippet \<Rightarrow> pgDB \<times> (m5_err + Snippet)" where
  "pg_CreateSnippet env db x =
     (let name = trim_space (sn_Name x);
          y = \<lparr>sn_ID = pe_uuid env, sn_UserID = sn_UserID x, sn_Name = name, sn_Body = sn_Body x,
               sn_CreatedAt = stamp_now env, sn_UpdatedAt = stamp_now env\<rparr>
      in if \<not> pe_run env ''answer_snippets.insert'' [sn_UserID x, name, sn_Body x] \<or> \<not> has_user db (sn_UserID x)
           \<or> gget (pg_snips db) (pe_uuid env) \<noteq> None then (db, Inl M5Other)
         else if list_ex (\<lambda>z. sn_UserID z = sn_UserID x \<and> sn_Name z = name) (gvals (pg_snips db)) then (db, Inl (snippet_dup env))
         else (db\<lparr>pg_snips := gput (sn_ID y) y (pg_snips db)\<rparr>, Inr y))"

definition pg_UpdateSnippet :: "pgEnv \<Rightarrow> pgDB \<Rightarrow> string \<Rightarrow> Snippet \<Rightarrow> pgDB \<times> (m5_err + Snippet)" where
  "pg_UpdateSnippet env db userID x =
     (let name = trim_space (sn_Name x) in
      if \<not> pe_run env ''answer_snippets.update'' [userID, sn_ID x, name, sn_Body x] then (db, Inl M5Other)
      else (case of_user sn_UserID userID (gget (pg_snips db) (sn_ID x)) of
          None \<Rightarrow> (db, Inl M5NotFound)
        | Some z \<Rightarrow>
            if list_ex (\<lambda>w. sn_ID w \<noteq> sn_ID x \<and> sn_UserID w = userID \<and> sn_Name w = name) (gvals (pg_snips db))
            then (db, Inl (snippet_dup env))
            else (let y = z\<lparr>sn_Name := name, sn_Body := sn_Body x, sn_UpdatedAt := stamp_now env\<rparr>
                  in (db\<lparr>pg_snips := gput (sn_ID x) y (pg_snips db)\<rparr>, Inr y))))"

definition pg_DeleteSnippet :: "pgEnv \<Rightarrow> pgDB \<Rightarrow> string \<Rightarrow> string \<Rightarrow> pgDB \<times> m5_err option" where
  "pg_DeleteSnippet env db userID i =
     m5exec (pe_run env ''answer_snippets.delete'' [userID, i]) (of_user sn_UserID userID (gget (pg_snips db) i))
       (\<lambda>_. db\<lparr>pg_snips := gdel i (pg_snips db)\<rparr>) db"

section \<open>The account's data\<close>

text \<open>Four statements in turn; the first that does not run ends the deletion.\<close>

fun pg_exec_all :: "pgEnv \<Rightarrow> string \<Rightarrow> (string \<times> (pgDB \<Rightarrow> pgDB)) list \<Rightarrow> pgDB \<Rightarrow> pgDB \<times> m5_err option" where
  "pg_exec_all env userID [] db = (db, None)"
| "pg_exec_all env userID ((stmt, f) # ss) db =
     (if pe_run env stmt [userID] then pg_exec_all env userID ss (f db) else (db, Some M5Other))"

definition pg_m5_DeleteUser :: "pgEnv \<Rightarrow> pgDB \<Rightarrow> string \<Rightarrow> pgDB \<times> m5_err option" where
  "pg_m5_DeleteUser env db userID =
     pg_exec_all env userID
       [(''saved_filters.erase'', \<lambda>d. d\<lparr>pg_filters := gdel_if (\<lambda>_ f. sf_UserID f = userID) (pg_filters d)\<rparr>),
        (''job_user_states.erase'', \<lambda>d. d\<lparr>pg_states := gdel_if (\<lambda>(u, _) _. u = userID) (pg_states d)\<rparr>),
        (''answer_snippets.erase'', \<lambda>d. d\<lparr>pg_snips := gdel_if (\<lambda>_ x. sn_UserID x = userID) (pg_snips d)\<rparr>),
        (''applications.erase'', \<lambda>d. d\<lparr>pg_apps := gdel_if (\<lambda>_ a. pa_user_id a = userID) (pg_apps d)\<rparr>)] db"

definition pg_m5_ExportUser :: "pgEnv \<Rightarrow> pgDB \<Rightarrow> string \<Rightarrow> m5_err + UserData" where
  "pg_m5_ExportUser env db userID =
     (case pg_ListSavedFilters env db userID of Inl e \<Rightarrow> Inl e | Inr fs \<Rightarrow>
      (case pg_listJobStates env db userID of Inl e \<Rightarrow> Inl e | Inr ss \<Rightarrow>
      (case pg_ListApplications env db userID of Inl e \<Rightarrow> Inl e | Inr as \<Rightarrow>
      (case pg_ListSnippets env db userID of Inl e \<Rightarrow> Inl e | Inr xs \<Rightarrow>
         Inr \<lparr>ud_SavedFilters = fs, ud_JobStates = ss, ud_Applications = as, ud_Snippets = xs\<rparr>))))"

definition pgM5Ops :: "pgEnv \<Rightarrow> pgDB m5Store" where
  "pgM5Ops env = \<lparr>st_DeleteUser = pg_m5_DeleteUser env, st_ListSavedFilterUsers = pg_ListSavedFilterUsers env,
     st_ListSavedFilters = pg_ListSavedFilters env, st_GetSavedFilter = pg_GetSavedFilter env,
     st_CreateSavedFilter = pg_CreateSavedFilter env, st_DeleteSavedFilter = pg_DeleteSavedFilter env,
     st_TouchSavedFilter = pg_TouchSavedFilter env, st_GetJobState = pg_GetJobState env,
     st_SetJobState = pg_SetJobState env, st_ListApplications = pg_ListApplications env,
     st_GetApplication = pg_GetApplication env, st_CreateApplication = pg_CreateApplication env,
     st_UpdateApplication = pg_UpdateApplication env, st_ListSnippets = pg_ListSnippets env,
     st_GetSnippet = pg_GetSnippet env, st_CreateSnippet = pg_CreateSnippet env,
     st_UpdateSnippet = pg_UpdateSnippet env, st_DeleteSnippet = pg_DeleteSnippet env\<rparr>"

section \<open>The contract\<close>

text \<open>
  Of the constraints of the schema, the laws of the contract need the primary keys and the
  dedup key only; all of them together are \<open>pg_seeker_ok\<close> in \<open>Pg_Theorems\<close>.
\<close>

definition pg_m5_ok :: "pgDB \<Rightarrow> bool" where
  "pg_m5_ok db \<longleftrightarrow> keyed sf_ID (pg_filters db) \<and> gok (pg_states db) \<and> keyed pa_id (pg_apps db) \<and> keyed sn_ID (pg_snips db) \<and>
     keyed pj_id (pg_jobs db) \<and> uniq_on (\<lambda>j. j_DedupKey (pj_job j)) (pg_jobs db)"

definition pg_m5_view :: "pgDB \<Rightarrow> m5View" where
  "pg_m5_view db = \<lparr>v5_filter = gget (pg_filters db), v5_state = (\<lambda>u k. gget (pg_states db) (u, k)), v5_app = app_of db,
     v5_snip = gget (pg_snips db)\<rparr>"

lemma pg_m5_view_sel [simp]:
  "v5_filter (pg_m5_view db) = gget (pg_filters db)" "v5_state (pg_m5_view db) u k = gget (pg_states db) (u, k)"
  "v5_app (pg_m5_view db) = app_of db" "v5_snip (pg_m5_view db) = gget (pg_snips db)"
  by (simp_all add: pg_m5_view_def)

lemma pg_m5_ok_upd:
  assumes "pg_m5_ok db"
  shows "sf_ID f = i \<Longrightarrow> pg_m5_ok (db\<lparr>pg_filters := gput i f (pg_filters db)\<rparr>)"
    "pg_m5_ok (db\<lparr>pg_filters := gdel i (pg_filters db)\<rparr>)"
    "pg_m5_ok (db\<lparr>pg_states := gput k st (pg_states db)\<rparr>)"
    "pa_id a = i \<Longrightarrow> pg_m5_ok (db\<lparr>pg_apps := gput i a (pg_apps db)\<rparr>)"
    "sn_ID x = i \<Longrightarrow> pg_m5_ok (db\<lparr>pg_snips := gput i x (pg_snips db)\<rparr>)"
    "pg_m5_ok (db\<lparr>pg_snips := gdel i (pg_snips db)\<rparr>)"
  using assms by (simp_all add: pg_m5_ok_def keyed_put keyed_del)

text \<open>The view after each kind of change.\<close>

lemma joined_app_upd [simp]:
  "joined_app (db\<lparr>pg_filters := fs\<rparr>) = joined_app db" "joined_app (db\<lparr>pg_states := ss\<rparr>) = joined_app db"
  "joined_app (db\<lparr>pg_apps := as\<rparr>) = joined_app db" "joined_app (db\<lparr>pg_snips := xs\<rparr>) = joined_app db"
  by (simp_all add: joined_app_def fun_eq_iff)

lemma app_of_upd [simp]:
  "app_of (db\<lparr>pg_filters := fs\<rparr>) = app_of db" "app_of (db\<lparr>pg_states := ss\<rparr>) = app_of db"
  "app_of (db\<lparr>pg_snips := xs\<rparr>) = app_of db"
  "app_of (db\<lparr>pg_apps := gput i a (pg_apps db)\<rparr>) = (app_of db)(i := joined_app db a)"
  by (auto simp: app_of_def fun_eq_iff)

lemma m5_view_upd:
  "pg_m5_view (db\<lparr>pg_filters := gput i f (pg_filters db)\<rparr>) = (pg_m5_view db)\<lparr>v5_filter := (v5_filter (pg_m5_view db))(i \<mapsto> f)\<rparr>"
  "pg_m5_view (db\<lparr>pg_filters := gdel i (pg_filters db)\<rparr>) = (pg_m5_view db)\<lparr>v5_filter := (v5_filter (pg_m5_view db))(i := None)\<rparr>"
  "pg_m5_view (db\<lparr>pg_snips := gput i x (pg_snips db)\<rparr>) = (pg_m5_view db)\<lparr>v5_snip := (v5_snip (pg_m5_view db))(i \<mapsto> x)\<rparr>"
  "pg_m5_view (db\<lparr>pg_snips := gdel i (pg_snips db)\<rparr>) = (pg_m5_view db)\<lparr>v5_snip := (v5_snip (pg_m5_view db))(i := None)\<rparr>"
  "pg_m5_view (db\<lparr>pg_apps := gput i a (pg_apps db)\<rparr>) = (pg_m5_view db)\<lparr>v5_app := (v5_app (pg_m5_view db))(i := joined_app db a)\<rparr>"
  by (simp_all add: pg_m5_view_def fun_eq_iff)

lemma joined_sel:
  assumes "joined_app db a = Some b"
  shows "ap_ID b = pa_id a" "ap_UserID b = pa_user_id a" "ap_Status b = pa_status a" "ap_UpdatedAt b = pa_updated_at a"
    "\<exists>j. gget (pg_jobs db) (pa_job_id a) = Some j \<and> ap_JobKey b = j_DedupKey (pj_job j)"
  using assms by (auto simp: joined_app_def)

lemma app_ofD: "app_of db i = Some b \<Longrightarrow> \<exists>a. gget (pg_apps db) i = Some a \<and> joined_app db a = Some b"
  by (simp add: app_of_def bind_eq_Some_conv)

lemma app_of_id: "pg_m5_ok db \<Longrightarrow> app_of db i = Some b \<Longrightarrow> ap_ID b = i"
  using app_ofD [of db i b] joined_sel(1) keyedD(2) [of pa_id "pg_apps db" i] by (auto simp: pg_m5_ok_def)

lemma get_app:
  "pg_GetApplication env db u i = Inr b \<Longrightarrow> app_of db i = Some b \<and> ap_UserID b = u"
  by (auto simp: pg_GetApplication_def m5run_def found_row_def of_user_def split: option.splits if_splits)

lemma created_app:
  assumes ok: "pg_m5_ok db" and e: "pg_CreateApplication env db a = (db', r)"
  shows "pg_m5_ok db' \<and>
    (pg_m5_view db' = pg_m5_view db \<and>
       (\<forall>b. r = Inr b \<longrightarrow> app_of db (ap_ID b) = Some b \<and> ap_UserID b = ap_UserID a \<and> ap_JobKey b = ap_JobKey a) \<or>
     (\<exists>b. app_of db (ap_ID b) = None \<and> ap_UserID b = ap_UserID a \<and> ap_JobKey b = ap_JobKey a \<and> ap_Status b = ap_Status a \<and>
       (\<forall>i c. app_of db i = Some c \<longrightarrow> ap_UserID c = ap_UserID a \<longrightarrow> ap_JobKey c \<noteq> ap_JobKey a) \<and>
       pg_m5_view db' = (pg_m5_view db)\<lparr>v5_app := (app_of db)(ap_ID b \<mapsto> b)\<rparr> \<and> (\<forall>c. r = Inr c \<longrightarrow> c = b)))"
proof -
  note k = keyedD [OF ok [unfolded pg_m5_ok_def, THEN conjunct2, THEN conjunct2, THEN conjunct1]]
  have jk: "keyed pj_id (pg_jobs db)" "uniq_on (\<lambda>j. j_DedupKey (pj_job j)) (pg_jobs db)" using ok by (simp_all add: pg_m5_ok_def)
  let ?J = "find (\<lambda>j. j_DedupKey (pj_job j) = ap_JobKey a) (gvals (pg_jobs db))"
  let ?A = "\<lambda>j. find (\<lambda>x. pa_user_id x = ap_UserID a \<and> pa_job_id x = pj_id j) (gvals (pg_apps db))"
  consider "db' = db" "\<exists>x. r = Inl x"
    | j x where "?J = Some j" "?A j = Some x" "db' = db" "r = pg_GetApplication env db (ap_UserID a) (pa_id x)"
    | j x where "?J = Some j" "?A j = None" "gget (pg_apps db) (pa_id x) = None" "pa_user_id x = ap_UserID a" "pa_job_id x = pj_id j"
        "pa_status x = ap_Status a" "db' = db\<lparr>pg_apps := gput (pa_id x) x (pg_apps db)\<rparr>" "r = pg_GetApplication env db' (ap_UserID a) (pa_id x)"
  proof (cases "?J")
    case None then show thesis using that(1) e by (auto simp: pg_CreateApplication_def split: if_splits)
  next
    case J: (Some j)
    let ?ok = "pe_run env ''jobs.by_key'' [ap_JobKey a] \<and> pe_run env ''applications.insert'' [ap_UserID a, pj_id j, ap_Status a] \<and>
      has_user db (ap_UserID a) \<and> validStatus (ap_Status a)"
    show thesis
    proof (cases "?A j")
      case (Some x)
      show thesis
      proof (cases ?ok)
        case True show thesis by (rule that(2) [OF J Some]) (use e J Some True in \<open>auto simp: pg_CreateApplication_def\<close>)
      next
        case False then show thesis using that(1) e J by (auto simp: pg_CreateApplication_def split: if_splits)
      qed
    next
      case None
      show thesis
      proof (cases "?ok \<and> gget (pg_apps db) (pe_uuid env) = None")
        case True
        let ?x = "\<lparr>pa_id = pe_uuid env, pa_user_id = ap_UserID a, pa_job_id = pj_id j, pa_status = ap_Status a,
          pa_created_at = stamp_now env, pa_updated_at = stamp_now env\<rparr>"
        show thesis by (rule that(3) [OF J None, of ?x]) (use e J None True in \<open>auto simp: pg_CreateApplication_def Let_def\<close>)
      next
        case False then show thesis using that(1) e J None by (auto simp: pg_CreateApplication_def Let_def split: if_splits)
      qed
    qed
  qed
  then show ?thesis
  proof cases
    case 1 then show ?thesis using ok by auto
  next
    case 2
    obtain i where j: "gget (pg_jobs db) i = Some j" "j_DedupKey (pj_job j) = ap_JobKey a" using find_vals [OF keyedD(1) [OF jk(1)] 2(1)] .
    obtain l where x: "gget (pg_apps db) l = Some x" "pa_user_id x = ap_UserID a \<and> pa_job_id x = pj_id j" using find_vals [OF k(1) 2(2)] .
    have "ap_UserID b = ap_UserID a \<and> ap_JobKey b = ap_JobKey a \<and> app_of db (ap_ID b) = Some b" if "r = Inr b" for b
    proof -
      have b: "app_of db (pa_id x) = Some b" "ap_UserID b = ap_UserID a" using get_app 2(4) that by metis+
      have "gget (pg_apps db) (pa_id x) = Some x" using x(1) k(2) by simp
      then have "joined_app db x = Some b" using b(1) by (simp add: app_of_def)
      then have "ap_JobKey b = j_DedupKey (pj_job j)" using x(2) j keyedD(2) [OF jk(1) j(1)] by (auto simp: joined_app_def)
      then show ?thesis using b j(2) app_of_id [OF ok b(1)] by simp
    qed
    then show ?thesis using ok 2(3) by blast
  next
    case 3
    obtain i where j: "gget (pg_jobs db) i = Some j" "j_DedupKey (pj_job j) = ap_JobKey a" using find_vals [OF keyedD(1) [OF jk(1)] 3(1)] .
    have i: "pj_id j = i" by (rule keyedD(2) [OF jk(1) j(1)])
    obtain b where b: "joined_app db x = Some b" "ap_JobKey b = ap_JobKey a" "ap_ID b = pa_id x" "ap_UserID b = ap_UserID a" "ap_Status b = ap_Status a"
      using j 3(4-6) i by (auto simp: joined_app_def)
    have none: "ap_JobKey c \<noteq> ap_JobKey a" if c: "app_of db l = Some c" "ap_UserID c = ap_UserID a" for l c
    proof
      assume key: "ap_JobKey c = ap_JobKey a"
      obtain y where y: "gget (pg_apps db) l = Some y" "joined_app db y = Some c" using app_ofD [OF c(1)] by blast
      obtain h where h: "gget (pg_jobs db) (pa_job_id y) = Some h" "ap_JobKey c = j_DedupKey (pj_job h)" using joined_sel(5) [OF y(2)] by blast
      have "pa_job_id y = pj_id j" using uniq_onD [OF jk(2) h(1) j(1)] h(2) key j(2) i by simp
      then show False using find_none [OF k(1) 3(2) y(1)] c(2) joined_sel(2) [OF y(2)] by simp
    qed
    have "app_of db' (pa_id x) = Some b" using b(1) by (simp add: 3(7))
    then have "\<forall>c. r = Inr c \<longrightarrow> c = b" using get_app 3(8) by fastforce
    moreover have "pg_m5_view db' = (pg_m5_view db)\<lparr>v5_app := (app_of db)(ap_ID b \<mapsto> b)\<rparr>"
      unfolding 3(7) m5_view_upd b(3) by (simp add: b(1))
    moreover have "app_of db (ap_ID b) = None" using 3(3) by (simp add: app_of_def b(3))
    moreover have "pg_m5_ok db'" unfolding 3(7) by (rule pg_m5_ok_upd(4) [OF ok]) simp
    ultimately show ?thesis using b none by blast
  qed
qed

lemma updated_app:
  assumes ok: "pg_m5_ok db" and e: "pg_UpdateApplication env db u a = (db', r)"
  shows "pg_m5_ok db' \<and>
    (pg_m5_view db' = pg_m5_view db \<and> (\<exists>x. r = Inl x) \<or>
     (\<exists>b c. app_of db (ap_ID a) = Some c \<and> ap_UserID c = u \<and> b = c\<lparr>ap_Status := ap_Status a, ap_UpdatedAt := ap_UpdatedAt b\<rparr> \<and>
       pg_m5_view db' = (pg_m5_view db)\<lparr>v5_app := (app_of db)(ap_ID a \<mapsto> b)\<rparr> \<and> (\<forall>d. r = Inr d \<longrightarrow> d = b)))"
proof -
  note k = keyedD [OF ok [unfolded pg_m5_ok_def, THEN conjunct2, THEN conjunct2, THEN conjunct1]]
  let ?x = "\<lambda>x. x\<lparr>pa_status := ap_Status a, pa_updated_at := stamp_now env\<rparr>"
  consider "db' = db" "\<exists>x. r = Inl x"
    | x where "gget (pg_apps db) (ap_ID a) = Some x" "pa_user_id x = u"
        "db' = db\<lparr>pg_apps := gput (ap_ID a) (?x x) (pg_apps db)\<rparr>" "r = pg_GetApplication env db' u (ap_ID a)"
  proof (cases "of_user pa_user_id u (gget (pg_apps db) (ap_ID a))")
    case None then show thesis using that(1) e by (auto simp: pg_UpdateApplication_def split: if_splits)
  next
    case (Some x)
    then have x: "gget (pg_apps db) (ap_ID a) = Some x" "pa_user_id x = u" by (auto simp: of_user_def split: option.splits if_splits)
    show thesis
    proof (cases "pe_run env ''applications.update'' [u, ap_ID a, ap_Status a] \<and> validStatus (ap_Status a)")
      case True
      show thesis by (rule that(2) [OF x]) (use e Some True in \<open>auto simp: pg_UpdateApplication_def Let_def\<close>)
    next
      case False then show thesis using that(1) e Some by (auto simp: pg_UpdateApplication_def split: if_splits)
    qed
  qed
  then show ?thesis
  proof cases
    case 1 then show ?thesis using ok by auto
  next
    case 2
    have ok': "pg_m5_ok db'" unfolding 2(3) by (rule pg_m5_ok_upd(4) [OF ok]) (use k(2) [OF 2(1)] in simp)
    show ?thesis
    proof (cases "joined_app db x")
      case None
      then have n: "joined_app db (?x x) = None" by (simp add: joined_app_def)
      have "app_of db (ap_ID a) = None" using 2(1) None by (simp add: app_of_def)
      then have v: "pg_m5_view db' = pg_m5_view db"
        unfolding 2(3) m5_view_upd n by (simp add: pg_m5_view_def fun_upd_idem)
      have "app_of db' (ap_ID a) = None" using n by (simp add: 2(3))
      then have "\<exists>y. pg_GetApplication env db' u (ap_ID a) = Inl y"
        using get_app [of env db' u "ap_ID a"] by (cases "pg_GetApplication env db' u (ap_ID a)") auto
      then have "\<exists>y. r = Inl y" using 2(4) by metis
      then show ?thesis using v ok' by blast
    next
      case (Some c)
      define b where "b = c\<lparr>ap_Status := ap_Status a, ap_UpdatedAt := stamp_now env\<rparr>"
      have j: "joined_app db (?x x) = Some b" using Some by (auto simp: joined_app_def b_def)
      have "pg_m5_view db' = (pg_m5_view db)\<lparr>v5_app := (app_of db)(ap_ID a \<mapsto> b)\<rparr>"
        unfolding 2(3) m5_view_upd j by simp
      moreover have "app_of db' (ap_ID a) = Some b" using j by (simp add: 2(3))
      then have "\<forall>d. r = Inr d \<longrightarrow> d = b" using get_app 2(4) by fastforce
      moreover have "app_of db (ap_ID a) = Some c" using 2(1) Some by (simp add: app_of_def)
      moreover have "ap_UserID c = u" using joined_sel(2) [OF Some] 2(2) by simp
      moreover have "b = c\<lparr>ap_Status := ap_Status a, ap_UpdatedAt := ap_UpdatedAt b\<rparr>" by (simp add: b_def)
      ultimately show ?thesis using ok' by blast
    qed
  qed
qed

lemma of_user_Some: "of_user f u row = Some r \<longleftrightarrow> row = Some r \<and> f r = u"
  by (auto simp: of_user_def split: option.splits)

lemma m5exec_cases:
  assumes "m5exec run row change db = (db', r)"
  obtains x where "row = Some x" "db' = change x" "r = None" | y where "db' = db" "r = Some y"
  using assms by (auto simp: m5exec_def split: if_splits option.splits)

interpretation pgM5: m5_store "pgM5Ops env" pg_m5_ok pg_m5_view "\<lambda>k. k" "(=)" micros
proof (unfold_locales, goal_cases)
  case (1 s u s')
  then have s': "s' = s\<lparr>pg_filters := gdel_if (\<lambda>_ f. sf_UserID f = u) (pg_filters s), pg_states := gdel_if (\<lambda>(w, _) _. w = u) (pg_states s),
      pg_snips := gdel_if (\<lambda>_ x. sn_UserID x = u) (pg_snips s), pg_apps := gdel_if (\<lambda>_ a. pa_user_id a = u) (pg_apps s)\<rparr>"
    by (auto simp: pgM5Ops_def pg_m5_DeleteUser_def split: if_splits)
  have g: "gok (pg_filters s)" "gok (pg_states s)" "gok (pg_snips s)" "gok (pg_apps s)" using 1(1) by (simp_all add: pg_m5_ok_def keyed_def)
  have ok: "pg_m5_ok s'" using 1(1) by (simp add: pg_m5_ok_def s' keyed_del_if)
  have a: "app_of s' i = (case app_of s i of None \<Rightarrow> None | Some b \<Rightarrow> if ap_UserID b = u then None else Some b)" for i
    using g(4) by (auto simp: app_of_def joined_app_def s' gget_del_if split: option.splits)
  have "same_user w (pg_m5_view s') (m5_erase u (pg_m5_view s))" for w
  proof -
    have f: "pg_filters s' = gdel_if (\<lambda>_ f. sf_UserID f = u) (pg_filters s)" "pg_snips s' = gdel_if (\<lambda>_ x. sn_UserID x = u) (pg_snips s)"
      "pg_states s' = gdel_if (\<lambda>(w, _) _. w = u) (pg_states s)" by (simp_all add: s')
    show ?thesis using g
      by (simp add: same_user_def m5_erase_def owned_def fun_eq_iff a f gget_del_if split: option.split)
  qed
  then show ?case using ok by blast
next
  case (2 s u i f) then show ?case
    by (auto simp: pgM5Ops_def pg_GetSavedFilter_def m5run_def found_row_def of_user_Some pg_m5_ok_def keyed_def split: if_splits option.splits)
next
  case (3 s f s' g)
  have n: "\<not> list_ex P (gvals (pg_filters s)) \<Longrightarrow> gget (pg_filters s) i = Some h \<Longrightarrow> \<not> P h" for P i h
    using 3(1) gvals_ex [of "pg_filters s" P] by (auto simp: pg_m5_ok_def keyed_def)
  have c: "\<not> list_ex (\<lambda>h. sf_UserID h = sf_UserID f \<and> sf_Name h = sf_Name g) (gvals (pg_filters s))" "gget (pg_filters s) (sf_ID g) = None"
    "s' = s\<lparr>pg_filters := gput (sf_ID g) g (pg_filters s)\<rparr>" "sf_UserID g = sf_UserID f" "sf_Name g = trim_space (sf_Name f)"
    "sf_Query g = sf_Query f"
    using 3(3) by (auto simp: pgM5Ops_def pg_CreateSavedFilter_def Let_def split: if_splits)
  have ok: "pg_m5_ok s'" unfolding c(3) by (rule pg_m5_ok_upd(1) [OF 3(1) refl])
  have "\<forall>i h. gget (pg_filters s) i = Some h \<longrightarrow> sf_UserID h = sf_UserID f \<longrightarrow> sf_Name h \<noteq> sf_Name g"
    using n [OF c(1)] by blast
  then show ?case using c(2,4-6) ok unfolding c(3) m5_view_upd by simp
next
  case (4 s f s' e) then show ?case by (auto simp: pgM5Ops_def pg_CreateSavedFilter_def Let_def split: if_splits)
next
  case (5 s u i s' r)
  then show ?case using pg_m5_ok_upd(2) [OF 5(1)]
    by (auto simp: pgM5Ops_def pg_DeleteSavedFilter_def of_user_Some m5_view_upd elim!: m5exec_cases)
next
  case (6 s u i t s' r)
  then have k: "keyed sf_ID (pg_filters s)" by (simp add: pg_m5_ok_def)
  from 6(2) have "m5exec (pe_run env ''saved_filters.touch'' [u, i]) (of_user sf_UserID u (gget (pg_filters s) i))
       (\<lambda>f. s\<lparr>pg_filters := gput i (f\<lparr>sf_LastAlertedAt := Some (micros t)\<rparr>) (pg_filters s)\<rparr>) s = (s', r)"
    by (simp add: pgM5Ops_def pg_TouchSavedFilter_def)
  then show ?case
  proof (cases rule: m5exec_cases)
    case (1 f)
    then have "gget (pg_filters s) i = Some f" "sf_UserID f = u" by (simp_all add: of_user_Some)
    then show ?thesis using 1 pg_m5_ok_upd(1) [OF 6(1), of "f\<lparr>sf_LastAlertedAt := Some (micros t)\<rparr>" i] keyedD(2) [OF k]
      by (auto simp: m5_view_upd)
  qed (use 6(1) in simp)
next
  case (7 s u k st) then show ?case
    by (auto simp: pgM5Ops_def pg_GetJobState_def m5run_def split: if_splits)
next
  case (8 s u st s' st2) then show ?case using pg_m5_ok_upd(3) [OF 8(1)]
    by (auto simp: pgM5Ops_def pg_SetJobState_def Let_def split: if_splits)
next
  case (9 s u st s' e) then show ?case by (auto simp: pgM5Ops_def pg_SetJobState_def Let_def split: if_splits)
next
  case (10 s u i a) then show ?case using get_app [of env s u i a] app_of_id [OF 10(1)] by (simp add: pgM5Ops_def)
next
  case (11 s a s' b)
  then have "pg_CreateApplication env s a = (s', Inr b)" by (simp add: pgM5Ops_def)
  from created_app [OF 11(1) this] show ?case by auto
next
  case (12 s a s' e)
  then have "pg_CreateApplication env s a = (s', Inl e)" by (simp add: pgM5Ops_def)
  from created_app [OF 12(1) this] show ?case by auto
next
  case (13 s u a s' b)
  then have "pg_UpdateApplication env s u a = (s', Inr b)" by (simp add: pgM5Ops_def)
  from updated_app [OF 13(1) this] show ?case by auto
next
  case (14 s u a s' e)
  then have "pg_UpdateApplication env s u a = (s', Inl e)" by (simp add: pgM5Ops_def)
  from updated_app [OF 14(1) this] show ?case by auto
next
  case (15 s x s' y)
  have c: "gget (pg_snips s) (sn_ID y) = None" "s' = s\<lparr>pg_snips := gput (sn_ID y) y (pg_snips s)\<rparr>" "sn_UserID y = sn_UserID x"
    using 15(3) by (auto simp: pgM5Ops_def pg_CreateSnippet_def Let_def split: if_splits)
  have "pg_m5_ok s'" unfolding c(2) by (rule pg_m5_ok_upd(5) [OF 15(1) refl])
  then show ?case using c(1,3) unfolding c(2) m5_view_upd by simp
next
  case (16 s x s' e) then show ?case by (auto simp: pgM5Ops_def pg_CreateSnippet_def Let_def split: if_splits)
next
  case (17 s u x s' y)
  then have k: "keyed sn_ID (pg_snips s)" by (simp add: pg_m5_ok_def)
  have "\<exists>z. gget (pg_snips s) (sn_ID x) = Some z \<and> sn_UserID z = u \<and> sn_ID y = sn_ID z \<and> sn_UserID y = u \<and>
      s' = s\<lparr>pg_snips := gput (sn_ID x) y (pg_snips s)\<rparr>"
    using 17(2) by (auto simp: pgM5Ops_def pg_UpdateSnippet_def of_user_Some Let_def split: if_splits option.splits)
  then obtain z where c: "gget (pg_snips s) (sn_ID x) = Some z" "sn_UserID z = u" "sn_ID y = sn_ID z" "sn_UserID y = u"
    "s' = s\<lparr>pg_snips := gput (sn_ID x) y (pg_snips s)\<rparr>" by blast
  have "sn_ID y = sn_ID x" using keyedD(2) [OF k c(1)] c(3) by simp
  then have "pg_m5_ok s'" unfolding c(5) by (rule pg_m5_ok_upd(5) [OF 17(1)])
  then show ?case using c(1,2,4) unfolding c(5) m5_view_upd by simp
next
  case (18 s u x s' e) then show ?case
    by (auto simp: pgM5Ops_def pg_UpdateSnippet_def Let_def split: if_splits option.splits)
next
  case (19 s u i s' r)
  then show ?case using pg_m5_ok_upd(6) [OF 19(1)]
    by (auto simp: pgM5Ops_def pg_DeleteSnippet_def of_user_Some m5_view_upd elim!: m5exec_cases)
qed

end
