(* ===== verification/Pg_Jobs.thy ===== *)
theory Pg_Jobs
  imports Pg_M5 Ingest_Runner Feed_Theorems
begin

text \<open>
  The listings on Postgres (\<open>internal/ingest/pgxstore.go\<close>): the upsert by dedup key, the feed
  searched and paged by the database, the staleness sweep and the count of real listings.
  \<open>pgJobs\<close> interprets the contract of the runner on it.
\<close>

datatype pg_job_err = PjBadURL | PjInvalid string | PjFailed

definition pjrun :: "pgEnv \<Rightarrow> string \<Rightarrow> string list \<Rightarrow> (unit \<Rightarrow> pg_job_err + 'a) \<Rightarrow> pg_job_err + 'a" where
  "pjrun env stmt args f = (if pe_run env stmt args then f () else Inl PjFailed)"

section \<open>Writing\<close>

text \<open>The row a listing becomes: rupiah unless it names a currency, the date cut to microseconds.\<close>

definition stored_job :: "Job \<Rightarrow> Job" where
  "stored_job j = j\<lparr>j_SalaryCurrency := (if j_SalaryCurrency j = [] then ''IDR'' else j_SalaryCurrency j),
     j_PostedAt := map_option micros (j_PostedAt j)\<rparr>"

text \<open>The column \<open>years_experience\<close> and what is compared with it have 32 bits.\<close>

definition int4 :: "int option \<Rightarrow> bool" where
  "int4 n = opt_all (\<lambda>i. - (2 ^ 31) \<le> i \<and> i < 2 ^ 31) n"

definition row_key :: "pgJob \<Rightarrow> string" where
  "row_key r = j_DedupKey (pj_job r)"

definition job_row :: "pgDB \<Rightarrow> string \<Rightarrow> pgJob option" where
  "job_row db k = find (\<lambda>r. row_key r = k) (gvals (pg_jobs db))"

definition job_texts :: "Job \<Rightarrow> string list" where
  "job_texts j = [j_Source j, j_SourceURL j, j_DedupKey j, j_Title j, j_Company j, j_Location j, j_SalaryCurrency j,
     j_Seniority j, j_EmploymentType j] @ j_Requirements j"

definition pg_Upsert :: "pgEnv \<Rightarrow> pgDB \<Rightarrow> Job \<Rightarrow> pgDB \<times> (pg_job_err + bool)" where
  "pg_Upsert env db j =
     (if \<not> ValidateSourceURL (j_SourceURL j) then (db, Inl PjBadURL)
      else if \<not> int4 (j_YearsExperience j) \<or> \<not> pe_run env ''jobs.upsert'' (job_texts j) then (db, Inl PjFailed)
      else (let fresh = (\<lambda>i. \<lparr>pj_id = i, pj_job = stored_job j, pj_stale = False, pj_stale_at = None,
                              pj_updated_at = stamp_now env\<rparr>)
            in case job_row db (j_DedupKey j) of
                 Some r \<Rightarrow> (db\<lparr>pg_jobs := gput (pj_id r) (fresh (pj_id r)) (pg_jobs db)\<rparr>, Inr False)
               | None \<Rightarrow>
                   if gget (pg_jobs db) (pe_uuid env) \<noteq> None then (db, Inl PjFailed)
                   else (db\<lparr>pg_jobs := gput (pe_uuid env) (fresh (pe_uuid env)) (pg_jobs db)\<rparr>, Inr True)))"

text \<open>\<open>make_interval\<close> takes seconds and fractions of them, to the microsecond.\<close>

definition toSweep :: "pgEnv \<Rightarrow> duration \<Rightarrow> pgJob \<Rightarrow> bool" where
  "toSweep env maxAge r \<longleftrightarrow> \<not> pj_stale r \<and> pj_updated_at r < stamp_now env - micros maxAge"

definition pg_SweepStale :: "pgEnv \<Rightarrow> pgDB \<Rightarrow> duration \<Rightarrow> pgDB \<times> (pg_job_err + nat)" where
  "pg_SweepStale env db maxAge =
     (if \<not> pe_run env ''jobs.sweep'' [] then (db, Inl PjFailed)
      else (db\<lparr>pg_jobs := gmap (\<lambda>_ r. if toSweep env maxAge r
                then r\<lparr>pj_stale := True, pj_stale_at := Some (stamp_now env)\<rparr> else r) (pg_jobs db)\<rparr>,
            Inr (length (filter (toSweep env maxAge) (gvals (pg_jobs db))))))"

section \<open>Reading\<close>

text \<open>The order of the feed, with the collation of the database where the index compares bytes.\<close>

definition pg_job_less :: "pgEnv \<Rightarrow> Job \<Rightarrow> Job \<Rightarrow> bool" where
  "pg_job_less env a b =
     (let texts = (if j_Title a \<noteq> j_Title b then pe_less env (j_Title a) (j_Title b) else pe_less env (j_DedupKey a) (j_DedupKey b))
      in case (j_PostedAt a, j_PostedAt b) of
           (Some ta, Some tb) \<Rightarrow> if ta \<noteq> tb then tb < ta else texts
         | (Some _, None) \<Rightarrow> True
         | (None, Some _) \<Rightarrow> False
         | (None, None) \<Rightarrow> texts)"

definition select_jobs :: "pgEnv \<Rightarrow> pgDB \<Rightarrow> (pgJob \<Rightarrow> bool) \<Rightarrow> Job list" where
  "select_jobs env db P = sort_by (pg_job_less env) (map pj_job (filter P (gvals (pg_jobs db))))"

definition scanJobs :: "Job list \<Rightarrow> pg_job_err + Job list" where
  "scanJobs js = (if list_all (\<lambda>j. ValidateSourceURL (j_SourceURL j)) js then Inr js else Inl PjBadURL)"

definition pg_ActiveJobs :: "pgEnv \<Rightarrow> pgDB \<Rightarrow> pg_job_err + Job list" where
  "pg_ActiveJobs env db = pjrun env ''jobs.active'' [] (\<lambda>_. scanJobs (select_jobs env db (\<lambda>r. \<not> pj_stale r)))"

text \<open>The conditions of the query, as the predicate on rows they express.\<close>

definition feedWhere :: "JobQuery \<Rightarrow> pgJob \<Rightarrow> bool" where
  "feedWhere q r =
     (let j = pj_job r; search = trim_space (jq_Search q); loc = trim_space (jq_Location q) in
      \<not> pj_stale r \<and>
      (search \<noteq> [] \<longrightarrow> contains (to_lower (j_Title j @ '' '' @ j_Company j)) (to_lower search)) \<and>
      opt_all (\<lambda>p. opt_ex (\<lambda>hi. p \<le> hi) (j_SalaryStatedMax j)) (jq_PayMin q) \<and>
      opt_all (\<lambda>p. opt_ex (\<lambda>lo. lo \<le> p) (j_SalaryStatedMin j)) (jq_PayMax q) \<and>
      (loc \<noteq> [] \<longrightarrow> contains (to_lower (j_Location j)) (to_lower loc)) \<and>
      opt_all (\<lambda>p. j_Remote j = p) (jq_Remote q) \<and>
      (jq_EmploymentType q \<noteq> [] \<longrightarrow> j_EmploymentType j = jq_EmploymentType q) \<and>
      (jq_Source q \<noteq> [] \<longrightarrow> j_Source j = jq_Source q) \<and>
      opt_all (\<lambda>p. opt_all (\<lambda>y. y \<le> p) (j_YearsExperience j)) (jq_MaxYoE q) \<and>
      opt_all (\<lambda>p. opt_ex (\<lambda>t. micros p \<le> t) (j_PostedAt j)) (jq_PostedAfter q) \<and>
      list_all (\<lambda>skill. trim_space skill = [] \<or>
        list_ex (\<lambda>v. contains (to_lower v) (to_lower (trim_space skill))) (j_Requirements j)) (jq_Skills q))"

definition not_hidden :: "pgDB \<Rightarrow> string \<Rightarrow> string \<Rightarrow> bool" where
  "not_hidden db userID k = (case gget (pg_states db) (userID, k) of None \<Rightarrow> True | Some s \<Rightarrow> \<not> js_Dismissed s)"

definition query_texts :: "JobQuery \<Rightarrow> string list" where
  "query_texts q = [jq_Search q, jq_Location q, jq_EmploymentType q, jq_Source q] @ jq_Skills q"

definition pg_searchFeed :: "pgEnv \<Rightarrow> pgDB \<Rightarrow> JobQuery \<Rightarrow> string \<Rightarrow> pg_job_err + JobPage" where
  "pg_searchFeed env db q userID =
     (case ValidateJobQuery q of
        Some msg \<Rightarrow> Inl (PjInvalid msg)
      | None \<Rightarrow>
          (let limit0 = (if jq_Limit q \<le> 0 then 20 else jq_Limit q);
               limit = (if limit0 > 100 then 100 else limit0);
               off = (if jq_Offset q < 0 then 0 else jq_Offset q);
               P = (\<lambda>r. feedWhere q r \<and> (userID \<noteq> [] \<longrightarrow> not_hidden db userID (row_key r)));
               args = query_texts q @ [userID]
           in if \<not> int4 (jq_MaxYoE q) \<or> \<not> pe_run env ''jobs.count'' args then Inl PjFailed
              else pjrun env ''jobs.page'' args (\<lambda>_.
                (case scanJobs (take (nat limit) (drop (nat off) (select_jobs env db P))) of
                   Inl e \<Rightarrow> Inl e
                 | Inr js \<Rightarrow> Inr \<lparr>jp_Total = int (length (filter P (gvals (pg_jobs db)))), jp_Jobs = js\<rparr>))))"

definition pg_SearchFeed :: "pgEnv \<Rightarrow> pgDB \<Rightarrow> JobQuery \<Rightarrow> pg_job_err + JobPage" where
  "pg_SearchFeed env db q = pg_searchFeed env db q []"

definition pg_SearchFeedForUser :: "pgEnv \<Rightarrow> pgDB \<Rightarrow> JobQuery \<Rightarrow> string \<Rightarrow> pg_job_err + JobPage" where
  "pg_SearchFeedForUser env db q userID = pg_searchFeed env db q userID"

definition pg_RealActiveCount :: "pgEnv \<Rightarrow> pgDB \<Rightarrow> pg_job_err + nat" where
  "pg_RealActiveCount env db =
     pjrun env ''jobs.real'' []
       (\<lambda>_. Inr (length (filter (\<lambda>r. \<not> pj_stale r \<and> \<not> j_Synthetic (pj_job r)) (gvals (pg_jobs db)))))"

section \<open>The contract\<close>

definition pg_jobs_ok :: "pgDB \<Rightarrow> bool" where
  "pg_jobs_ok db \<longleftrightarrow> keyed pj_id (pg_jobs db) \<and> uniq_on row_key (pg_jobs db) \<and>
     (\<forall>i r. gget (pg_jobs db) i = Some r \<longrightarrow>
        ValidateSourceURL (j_SourceURL (pj_job r)) \<and> (pj_stale r \<longleftrightarrow> pj_stale_at r \<noteq> None))"

definition pg_job_view :: "pgDB \<Rightarrow> string \<Rightarrow> Job option" where
  "pg_job_view db k = map_option pj_job (job_row db k)"

lemma stored_sel [simp]:
  "j_DedupKey (stored_job j) = j_DedupKey j" "j_SourceURL (stored_job j) = j_SourceURL j"
  "j_Synthetic (stored_job j) = j_Synthetic j"
  by (simp_all add: stored_job_def)

lemma pg_jobs_okD:
  assumes "pg_jobs_ok db"
  shows "gok (pg_jobs db)" "gget (pg_jobs db) i = Some r \<Longrightarrow> pj_id r = i"
    "gget (pg_jobs db) i = Some r \<Longrightarrow> gget (pg_jobs db) j = Some t \<Longrightarrow> row_key r = row_key t \<Longrightarrow> i = j"
    "gget (pg_jobs db) i = Some r \<Longrightarrow> ValidateSourceURL (j_SourceURL (pj_job r))"
    "gget (pg_jobs db) i = Some r \<Longrightarrow> pj_stale r \<longleftrightarrow> pj_stale_at r \<noteq> None"
  using assms keyedD [of pj_id "pg_jobs db"] uniq_onD [of row_key "pg_jobs db" i r j t]
  unfolding pg_jobs_ok_def by (iprover | blast)+

lemma job_row_iff:
  assumes "pg_jobs_ok db"
  shows "job_row db k = Some r \<longleftrightarrow> gget (pg_jobs db) (pj_id r) = Some r \<and> row_key r = k"
proof
  assume "job_row db k = Some r"
  from find_vals [OF pg_jobs_okD(1) [OF assms] this [unfolded job_row_def]]
  obtain i where i: "gget (pg_jobs db) i = Some r" "row_key r = k" .
  then show "gget (pg_jobs db) (pj_id r) = Some r \<and> row_key r = k" using pg_jobs_okD(2) [OF assms i(1)] by simp
next
  assume r: "gget (pg_jobs db) (pj_id r) = Some r \<and> row_key r = k"
  show "job_row db k = Some r"
  proof (cases "job_row db k")
    case None
    have "row_key r \<noteq> k" using find_none [OF pg_jobs_okD(1) [OF assms] None [unfolded job_row_def]] r by blast
    then show ?thesis using r by blast
  next
    case (Some t)
    from find_vals [OF pg_jobs_okD(1) [OF assms] Some [unfolded job_row_def]]
    obtain i where i: "gget (pg_jobs db) i = Some t" "row_key t = k" .
    have "i = pj_id r" using pg_jobs_okD(3) [OF assms i(1), of "pj_id r" r] r i(2) by simp
    then show ?thesis using Some i r by simp
  qed
qed

lemma job_row_key: "pg_jobs_ok db \<Longrightarrow> gget (pg_jobs db) i = Some r \<Longrightarrow> job_row db (row_key r) = Some r"
  using job_row_iff pg_jobs_okD(2) by blast

text \<open>Putting a row in the place of the row of its key, or in a new place for a new key.\<close>

lemma job_put:
  assumes ok: "pg_jobs_ok db" and id: "pj_id r = i"
    and v: "ValidateSourceURL (j_SourceURL (pj_job r))" "pj_stale r \<longleftrightarrow> pj_stale_at r \<noteq> None"
    and place: "\<And>t. job_row db (row_key r) = Some t \<Longrightarrow> pj_id t = i"
      "\<And>t. gget (pg_jobs db) i = Some t \<Longrightarrow> row_key t = row_key r"
  shows "pg_jobs_ok (db\<lparr>pg_jobs := gput i r (pg_jobs db)\<rparr>)"
    "job_row (db\<lparr>pg_jobs := gput i r (pg_jobs db)\<rparr>) = (job_row db)(row_key r \<mapsto> r)"
proof -
  let ?db = "db\<lparr>pg_jobs := gput i r (pg_jobs db)\<rparr>"
  have k: "keyed pj_id (pg_jobs db)" "uniq_on row_key (pg_jobs db)" using ok by (simp_all add: pg_jobs_ok_def)
  have u: "uniq_on row_key (gput i r (pg_jobs db))"
  proof (rule uniq_on_put [OF k(2)])
    fix j y assume y: "gget (pg_jobs db) j = Some y" "row_key y = row_key r"
    have "job_row db (row_key r) = Some y" using job_row_key [OF ok y(1)] y(2) by simp
    from place(1) [OF this] show "j = i" using pg_jobs_okD(2) [OF ok y(1)] by simp
  qed
  show ok': "pg_jobs_ok ?db"
    unfolding pg_jobs_ok_def using keyed_put [OF k(1) id] u v pg_jobs_okD(4,5) [OF ok]
    by (auto elim: gget_put_cases)
  show "job_row ?db = (job_row db)(row_key r \<mapsto> r)"
  proof
    fix k
    show "job_row ?db k = ((job_row db)(row_key r \<mapsto> r)) k"
    proof (cases "k = row_key r")
      case True
      then show ?thesis using job_row_iff [OF ok', of k r] id by simp
    next
      case False
      have "job_row ?db k = Some t \<longleftrightarrow> job_row db k = Some t" for t
        unfolding job_row_iff [OF ok'] job_row_iff [OF ok] using False place(2) id by (auto split: if_splits)
      then have "job_row ?db k = job_row db k" by (metis not_Some_eq)
      then show ?thesis using False by simp
    qed
  qed
qed

lemma pg_Upsert_cases:
  assumes ok: "pg_jobs_ok db" and e: "pg_Upsert env db j = (db', res)"
  obtains x where "db' = db" "res = Inl x"
  | i r where "ValidateSourceURL (j_SourceURL j)" "pj_id r = i" "pj_job r = stored_job j" "\<not> pj_stale r" "pj_stale_at r = None"
      "pj_updated_at r = stamp_now env"
      "db' = db\<lparr>pg_jobs := gput i r (pg_jobs db)\<rparr>" "res = Inr (job_row db (j_DedupKey j) = None)" "pg_jobs_ok db'"
      "job_row db' = (job_row db)(j_DedupKey j \<mapsto> r)"
proof (cases "\<not> ValidateSourceURL (j_SourceURL j) \<or> \<not> int4 (j_YearsExperience j) \<or> \<not> pe_run env ''jobs.upsert'' (job_texts j) \<or>
    (job_row db (j_DedupKey j) = None \<and> gget (pg_jobs db) (pe_uuid env) \<noteq> None)")
  case True
  then show thesis using e that(1) by (auto simp: pg_Upsert_def Let_def split: if_splits)
next
  case False
  note t = that(2)
  let ?i = "case job_row db (j_DedupKey j) of None \<Rightarrow> pe_uuid env | Some r \<Rightarrow> pj_id r"
  define r where "r = \<lparr>pj_id = ?i, pj_job = stored_job j, pj_stale = False, pj_stale_at = None, pj_updated_at = stamp_now env\<rparr>"
  have rk: "row_key r = j_DedupKey j" by (simp add: row_key_def r_def)
  have db': "db' = db\<lparr>pg_jobs := gput ?i r (pg_jobs db)\<rparr>" "res = Inr (job_row db (j_DedupKey j) = None)"
    using e False by (auto simp: pg_Upsert_def Let_def r_def split: option.splits)
  have p: "job_row db (row_key r) = Some w \<Longrightarrow> pj_id w = ?i" "gget (pg_jobs db) ?i = Some w \<Longrightarrow> row_key w = row_key r" for w
  proof -
    show "job_row db (row_key r) = Some w \<Longrightarrow> pj_id w = ?i" by (simp add: rk)
    assume w: "gget (pg_jobs db) ?i = Some w"
    show "row_key w = row_key r"
    proof (cases "job_row db (j_DedupKey j)")
      case None
      then show ?thesis using False w by simp
    next
      case (Some x)
      then show ?thesis using w job_row_iff [OF ok, of "j_DedupKey j" x] rk by simp
    qed
  qed
  have r: "pj_id r = ?i" "ValidateSourceURL (j_SourceURL (pj_job r))" "pj_stale r \<longleftrightarrow> pj_stale_at r \<noteq> None"
    using False by (simp_all add: r_def)
  note put = job_put [OF ok r p]
  show thesis
    by (rule t [of r ?i]) (use False db' put rk in \<open>simp_all add: r_def\<close>)
qed

interpretation pgJobs: job_store "pg_Upsert env" pg_jobs_ok pg_job_view stored_job for env
proof unfold_locales
  show "j_DedupKey (stored_job j) = j_DedupKey j" for j by simp
next
  fix db j db' created assume a: "pg_jobs_ok db" "pg_Upsert env db j = (db', Inr created)"
  then show "pg_jobs_ok db' \<and> pg_job_view db' = (pg_job_view db)(j_DedupKey j \<mapsto> stored_job j) \<and>
      (created \<longleftrightarrow> pg_job_view db (j_DedupKey j) = None)"
    by (cases rule: pg_Upsert_cases) (auto simp: pg_job_view_def fun_eq_iff)
next
  fix db j db' e assume a: "pg_jobs_ok db" "pg_Upsert env db j = (db', Inl e)"
  show "pg_jobs_ok db' \<and> pg_job_view db' = pg_job_view db"
    by (rule pg_Upsert_cases [OF a]) (use a(1) in auto)
qed

end
