(* ===== verification/Pg_Feed.thy ===== *)
theory Pg_Feed
  imports Pg_Jobs
begin

text \<open>
  What the database store of listings shows against the in-memory one: the feed it selects,
  sorts and cuts is the one the index computes from its active listings, and any history of
  upserts, sweeps and counts gives what the in-memory store gives.
\<close>

section \<open>The feed\<close>

definition noted :: "pg_job_err + 'a \<Rightarrow> unit + 'a" where
  "noted r = (case r of Inl _ \<Rightarrow> Inl () | Inr a \<Rightarrow> Inr a)"

lemma noted_simps [simp]: "noted (Inl e) = Inl ()" "noted (Inr a) = Inr a"
  by (simp_all add: noted_def)

text \<open>The feed service over the database, and over the database as a provider of active listings only.\<close>

definition pgFeedEnv :: "pgEnv \<Rightarrow> pgDB \<Rightarrow> (string \<Rightarrow> prof_err + Profile) option \<Rightarrow> feedEnv" where
  "pgFeedEnv env db profs = \<lparr>fe_active = noted (pg_ActiveJobs env db),
     fe_search = Some (\<lambda>q. noted (pg_SearchFeed env db q)),
     fe_searchUser = Some (\<lambda>q u. noted (pg_SearchFeedForUser env db q u)),
     fe_profiles = profs, fe_states = Some (pg_GetJobState env db)\<rparr>"

definition indexFeedEnv :: "feedEnv \<Rightarrow> feedEnv" where
  "indexFeedEnv fe = fe\<lparr>fe_search := None, fe_searchUser := None\<rparr>"

lemma feedWhere_matches:
  assumes "opt_all (\<lambda>t. micros t = t) (jq_PostedAfter q)"
  shows "feedWhere q r \<longleftrightarrow> \<not> pj_stale r \<and> feed_matches (pj_job r) q"
proof -
  have p: "opt_all (\<lambda>p. opt_ex (\<lambda>t. micros p \<le> t) (j_PostedAt j)) (jq_PostedAfter q) \<longleftrightarrow>
      opt_all (\<lambda>t. opt_ex (\<lambda>p. \<not> before p t) (j_PostedAt j)) (jq_PostedAfter q)" for j
    using assms by (cases "jq_PostedAfter q") (simp_all add: before_def not_less opt_all_def)
  have e: "to_lower s = [] \<longleftrightarrow> s = []" for s by (simp add: to_lower_def)
  show ?thesis
    unfolding feedWhere_def feed_matches_def Let_def trim_space_lower p e
    by (simp only: if_bool_eq_conj simp_thms de_Morgan_conj not_not) blast
qed

text \<open>Listings compare equal in the feed's order only when they share their dedup key.\<close>

lemma feed_less_key: "\<not> feed_less a b \<Longrightarrow> \<not> feed_less b a \<Longrightarrow> j_DedupKey a = j_DedupKey b"
  unfolding feed_less_lex by (auto split: if_splits)

lemma pg_job_less_bytes: "pe_less env = (<) \<Longrightarrow> pg_job_less env = feed_less"
  by (auto simp: fun_eq_iff pg_job_less_def feed_less_def Let_def after_def split: option.splits)

lemma rows_same_key:
  assumes ok: "pg_jobs_ok db" and "a \<in> pj_job ` set (gvals (pg_jobs db))" "b \<in> pj_job ` set (gvals (pg_jobs db))"
    "j_DedupKey a = j_DedupKey b"
  shows "a = b"
proof -
  obtain r t where r: "a = pj_job r" "r \<in> set (gvals (pg_jobs db))" and t: "b = pj_job t" "t \<in> set (gvals (pg_jobs db))"
    using assms(2,3) by blast
  obtain i j where i: "gget (pg_jobs db) i = Some r" and j: "gget (pg_jobs db) j = Some t"
    using r(2) t(2) gvals_mem [OF pg_jobs_okD(1) [OF ok]] by blast
  have "i = j" by (rule pg_jobs_okD(3) [OF ok i j]) (use assms(4) r t in \<open>simp add: row_key_def\<close>)
  then show ?thesis using i j r(1) t(1) by simp
qed

lemma select_jobs_sorted:
  assumes ok: "pg_jobs_ok db" and c: "pe_less env = (<)"
  shows "feed_sorted (filter (\<lambda>j. V (j_DedupKey j)) (select_jobs env db (\<lambda>r. \<not> pj_stale r))) q =
    select_jobs env db (\<lambda>r. \<not> pj_stale r \<and> feed_matches (pj_job r) q \<and> V (row_key r))"
  unfolding feed_sorted_def select_jobs_def pg_job_less_bytes [OF c]
proof (rule sort_by_unique [OF feed_order])
  have m: "mset (filter (\<lambda>j. feed_matches j q) (filter (\<lambda>j. V (j_DedupKey j)) (sort_by feed_less js))) =
      mset (filter (\<lambda>j. feed_matches j q \<and> V (j_DedupKey j)) js)" for js
    by (simp add: mset_filter filter_filter_mset conj_commute)
  show "mset (sort_by feed_less (map pj_job (filter (\<lambda>r. \<not> pj_stale r \<and> feed_matches (pj_job r) q \<and> V (row_key r)) (gvals (pg_jobs db))))) =
      mset (filter (\<lambda>j. feed_matches j q) (filter (\<lambda>j. V (j_DedupKey j))
        (sort_by feed_less (map pj_job (filter (\<lambda>r. \<not> pj_stale r) (gvals (pg_jobs db)))))))"
    unfolding m by (simp add: filter_map comp_def row_key_def conj_commute del: mset_map mset_filter)
  show "sorted_by feed_less (sort_by feed_less (map pj_job
      (filter (\<lambda>r. \<not> pj_stale r \<and> feed_matches (pj_job r) q \<and> V (row_key r)) (gvals (pg_jobs db)))))"
    by (rule sorted_sort_by [OF feed_order])
next
  fix a b
  assume "a \<in> set (filter (\<lambda>j. feed_matches j q) (filter (\<lambda>j. V (j_DedupKey j)) (sort_by feed_less (map pj_job (filter (\<lambda>r. \<not> pj_stale r) (gvals (pg_jobs db)))))))"
    "b \<in> set (filter (\<lambda>j. feed_matches j q) (filter (\<lambda>j. V (j_DedupKey j)) (sort_by feed_less (map pj_job (filter (\<lambda>r. \<not> pj_stale r) (gvals (pg_jobs db)))))))"
    "\<not> feed_less a b" "\<not> feed_less b a"
  then show "a = b" using rows_same_key [OF ok, of a b] feed_less_key [of a b] by auto
qed

lemma select_jobs_url:
  assumes "pg_jobs_ok db"
  shows "list_all (\<lambda>j. ValidateSourceURL (j_SourceURL j)) (select_jobs env db P)"
  using pg_jobs_okD(4) [OF assms] gvals_mem [OF pg_jobs_okD(1) [OF assms]]
  by (auto simp: select_jobs_def list.pred_set)

lemma scanJobs_ok: "list_all (\<lambda>j. ValidateSourceURL (j_SourceURL j)) js \<Longrightarrow> scanJobs js = Inr js"
  by (simp add: scanJobs_def)

text \<open>One page selected by the database is one page of the index over its active listings.\<close>

lemma pg_page:
  assumes ok: "pg_jobs_ok db" and run: "\<And>s a. pe_run env s a" and c: "pe_less env = (<)"
    and v: "ValidateJobQuery q = None" and y: "int4 (jq_MaxYoE q)"
    and t: "opt_all (\<lambda>t. micros t = t) (jq_PostedAfter q)"
    and l: "0 < jq_Limit q" "jq_Limit q \<le> 100" "0 \<le> jq_Offset q"
  shows "pageResult (noted (pg_searchFeed env db q u)) =
    Some (Search (filter (\<lambda>j. u \<noteq> [] \<longrightarrow> not_hidden db u (j_DedupKey j)) (select_jobs env db (\<lambda>r. \<not> pj_stale r))) q)"
proof -
  let ?P = "\<lambda>r. feedWhere q r \<and> (u \<noteq> [] \<longrightarrow> not_hidden db u (row_key r))"
  let ?V = "\<lambda>k. u \<noteq> [] \<longrightarrow> not_hidden db u k"
  obtain n m where n: "jq_Limit q = int (Suc n)" "jq_Offset q = int m"
    using l by (metis gr0_implies_Suc nat_0_le nonneg_int_cases of_nat_0_less_iff order_less_imp_le zero_less_imp_eq_int)
  have s: "feed_sorted (filter (\<lambda>j. ?V (j_DedupKey j)) (select_jobs env db (\<lambda>r. \<not> pj_stale r))) q = select_jobs env db ?P"
    unfolding feedWhere_matches [OF t] conj_assoc by (rule select_jobs_sorted [OF ok c])
  have q: "q\<lparr>jq_Limit := int (Suc n), jq_Offset := int m\<rparr> = q" using n by (cases q) simp
  have len: "length (select_jobs env db ?P) = length (filter ?P (gvals (pg_jobs db)))"
    by (simp add: select_jobs_def)
  have all: "list_all (\<lambda>j. ValidateSourceURL (j_SourceURL j)) (take k (drop d (select_jobs env db ?P)))" for k d
    using select_jobs_url [OF ok, of env ?P] by (auto simp: list.pred_set dest: in_set_takeD in_set_dropD)
  have nn: "nat (1 + int n) = Suc n" by simp
  show ?thesis
    using Search_page [where jobs = "filter (\<lambda>j. ?V (j_DedupKey j)) (select_jobs env db (\<lambda>r. \<not> pj_stale r))" and q = q and l = n and off = m] l n
    unfolding q s len pg_searchFeed_def v
    by (simp add: Let_def y run pjrun_def scanJobs_ok [OF all] pageResult_def nn del: take_Suc)
qed

lemma parseQuery_valid: "parseQuery rfc3339 v = Inr q \<Longrightarrow> ValidateJobQuery q = None"
  by (auto simp: parseQuery_def bindR_def ValidateJobQuery_def Let_def split: sum.splits option.splits if_splits)

lemma normalizeQuery_sel [simp]:
  "ValidateJobQuery (normalizeQuery q) = ValidateJobQuery q" "jq_MaxYoE (normalizeQuery q) = jq_MaxYoE q"
  "jq_PostedAfter (normalizeQuery q) = jq_PostedAfter q" "0 < jq_Limit (normalizeQuery q)"
  "jq_Limit (normalizeQuery q) \<le> 100" "0 \<le> jq_Offset (normalizeQuery q)"
  by (simp_all add: normalizeQuery_def Let_def ValidateJobQuery_def defaultLimit_def)

definition rowState :: "pgDB \<Rightarrow> string \<Rightarrow> string \<Rightarrow> JobState" where
  "rowState db u k = (case gget (pg_states db) (u, k) of None \<Rightarrow> zeroJobState k | Some s \<Rightarrow> s)"

lemma not_hidden_state: "not_hidden db u k \<longleftrightarrow> \<not> js_Dismissed (rowState db u k)"
  by (simp add: not_hidden_def rowState_def zeroJobState_def split: option.split)

text \<open>
  C25: Searching in the database changes nothing a user can see. For the queries whose numbers
  fit its columns, on a database whose texts compare by their bytes, the feed that is
  filtered, ordered and paged by SQL answers every request, signed in or not, with the status,
  total, page and cards of the feed that loads the active listings and searches them in
  memory, the hidden listings of the user left out.
\<close>

theorem sql_feed_equivalent:
  assumes ok: "pg_jobs_ok db" and run: "\<And>s a. pe_run env s a" and c: "pe_less env = (<)"
    and u: "\<And>usr. ctx = Some usr \<Longrightarrow> u_ID usr \<noteq> []"
    and fit: "\<And>q. parseQuery rfc3339 v = Inr q \<Longrightarrow> int4 (jq_MaxYoE q) \<and> opt_all (\<lambda>t. micros t = t) (jq_PostedAfter q)"
  shows "handleFeed rfc3339 (pgFeedEnv env db profs) ctx v = handleFeed rfc3339 (indexFeedEnv (pgFeedEnv env db profs)) ctx v"
proof (cases "parseQuery rfc3339 v")
  case (Inl msg)
  then show ?thesis by (simp add: handleFeed_def)
next
  case (Inr q0)
  let ?q = "normalizeQuery q0" and ?fe = "pgFeedEnv env db profs"
  let ?jobs = "select_jobs env db (\<lambda>r. \<not> pj_stale r)"
  have act: "fe_active ?fe = Inr ?jobs"
    by (simp add: pgFeedEnv_def pg_ActiveJobs_def pjrun_def run scanJobs_ok [OF select_jobs_url [OF ok]])
  have page: "pageResult (noted (pg_searchFeed env db ?q w)) =
      Some (Search (filter (\<lambda>j. w \<noteq> [] \<longrightarrow> not_hidden db w (j_DedupKey j)) ?jobs) ?q)" for w
    using fit [OF Inr] by (intro pg_page [OF ok run c]) (simp_all add: parseQuery_valid [OF Inr])
  show ?thesis
  proof (cases ctx)
    case None
    have "feedResults (indexFeedEnv ?fe) ?q None = feedResults ?fe ?q None"
      using page [of "[]"] act by (simp add: feedResults_def indexFeedEnv_def pgFeedEnv_def pg_SearchFeed_def)
    then show ?thesis using None by (simp add: handleFeed_def Inr indexFeedEnv_def Let_def)
  next
    case (Some usr)
    let ?w = "u_ID usr" and ?get = "pg_GetJobState env db"
    have get: "?get ?w k = Inr (rowState db ?w k)" for k by (simp add: pg_GetJobState_def m5run_def run rowState_def)
    obtain sts where v: "visibleJobs (?get ?w) ?jobs = Some (filter (\<lambda>j. \<not> js_Dismissed (rowState db ?w (j_DedupKey j))) ?jobs, sts)"
      and st: "\<forall>k s. gget sts k = Some s \<longrightarrow> s = rowState db ?w k"
      using visibleJobs_total [of "?get ?w" "rowState db ?w"] get by blast
    have cards: "feedCard (Some (?get ?w)) sts prof j = feedCard (Some (?get ?w)) [] prof j" for prof j
      using st by (auto simp: feedCard_def applyState_def get gget_def split: option.splits)
    have "feedResults ?fe ?q (Some (usr, ?get)) = Some (Search (filter (\<lambda>j. not_hidden db ?w (j_DedupKey j)) ?jobs) ?q, [])"
      using page [of ?w] u [OF Some] by (simp add: feedResults_def pgFeedEnv_def pg_SearchFeedForUser_def)
    moreover have "feedResults (indexFeedEnv ?fe) ?q (Some (usr, ?get)) =
        Some (Search (filter (\<lambda>j. not_hidden db ?w (j_DedupKey j)) ?jobs) ?q, sts)"
      using v act by (simp add: feedResults_def indexFeedEnv_def not_hidden_state)
    ultimately show ?thesis
      using Some cards
      by (simp add: handleFeed_def Inr indexFeedEnv_def pgFeedEnv_def Let_def del: normalizeQuery_sel cong: map_cong)
  qed
qed

section \<open>Histories\<close>

datatype job_op = OpUpsert Job | OpSweep duration | OpCount
datatype job_out = OutCreated bool | OutMarked nat | OutReal nat | OutFailed

definition job_out :: "('a \<Rightarrow> job_out) \<Rightarrow> 'e + 'a \<Rightarrow> job_out" where
  "job_out f r = (case r of Inl _ \<Rightarrow> OutFailed | Inr a \<Rightarrow> f a)"

fun pg_job_step :: "pgEnv \<Rightarrow> pgDB \<Rightarrow> job_op \<Rightarrow> pgDB \<times> job_out" where
  "pg_job_step env db (OpUpsert j) = map_prod id (job_out OutCreated) (pg_Upsert env db j)"
| "pg_job_step env db (OpSweep age) = map_prod id (job_out OutMarked) (pg_SweepStale env db age)"
| "pg_job_step env db OpCount = (db, job_out OutReal (pg_RealActiveCount env db))"

fun jm_job_step :: "jobMemStore \<Rightarrow> job_op \<Rightarrow> jobMemStore \<times> job_out" where
  "jm_job_step m (OpUpsert j) = map_prod id (job_out OutCreated) (jm_Upsert m j)"
| "jm_job_step m (OpSweep age) = map_prod id OutMarked (jm_SweepStale m age)"
| "jm_job_step m OpCount = (m, OutReal (jm_RealActiveCount m))"

fun pg_job_run :: "pgDB \<Rightarrow> (pgEnv \<times> job_op) list \<Rightarrow> pgDB \<times> job_out list" where
  "pg_job_run db [] = (db, [])"
| "pg_job_run db ((env, op) # h) =
     (let (db1, w) = pg_job_step env db op; (db2, ws) = pg_job_run db1 h in (db2, w # ws))"

fun jm_job_run :: "jobMemStore \<Rightarrow> job_op list \<Rightarrow> jobMemStore \<times> job_out list" where
  "jm_job_run m [] = (m, [])"
| "jm_job_run m (op # h) = (let (m1, w) = jm_job_step m op; (m2, ws) = jm_job_run m1 h in (m2, w # ws))"

text \<open>
  When a step is comparable: the statement runs, both stores read the same clock, a fresh id
  is fresh, and no listing is just as old as the sweep allows, where the index sweeps and the
  database does not.
\<close>

definition no_tie :: "time \<Rightarrow> duration \<Rightarrow> pgJob \<Rightarrow> bool" where
  "no_tie now age r \<longleftrightarrow> (let d = now - pj_updated_at r in
     pj_updated_at r \<noteq> zero_time \<and> min_duration \<le> d \<and> d \<le> max_duration \<and> d \<noteq> age)"

fun same_step :: "pgEnv \<Rightarrow> pgDB \<Rightarrow> jobMemStore \<Rightarrow> job_op \<Rightarrow> bool" where
  "same_step env db m (OpUpsert j) \<longleftrightarrow> pe_run env ''jobs.upsert'' (job_texts j) \<and> int4 (j_YearsExperience j) \<and>
     gget (pg_jobs db) (pe_uuid env) = None \<and> ms_now m (ms_calls m) = stamp_now env"
| "same_step env db m (OpSweep age) \<longleftrightarrow> pe_run env ''jobs.sweep'' [] \<and> micros age = age \<and>
     ms_now m (ms_calls m) = stamp_now env \<and> list_all (no_tie (stamp_now env) age) (gvals (pg_jobs db))"
| "same_step env db m OpCount \<longleftrightarrow> pe_run env ''jobs.real'' []"

fun same_run :: "pgDB \<Rightarrow> jobMemStore \<Rightarrow> (pgEnv \<times> job_op) list \<Rightarrow> bool" where
  "same_run db m [] = True"
| "same_run db m ((env, op) # h) \<longleftrightarrow> same_step env db m op \<and>
     same_run (fst (pg_job_step env db op)) (fst (jm_job_step m op)) h"

text \<open>The abstraction: what the index would hold for a row, up to what a row keeps of a listing.\<close>

definition row_abs :: "pgJob \<Rightarrow> storedJob" where
  "row_abs r = \<lparr>sj_job = pj_job r, sj_lastSeen = pj_updated_at r, sj_stale = pj_stale r, sj_staleAt = pj_stale_at r\<rparr>"

definition mem_abs :: "storedJob \<Rightarrow> storedJob" where
  "mem_abs sj = sj\<lparr>sj_job := stored_job (sj_job sj)\<rparr>"

lemma row_mem:
  "row_abs r = mem_abs sj \<longleftrightarrow> pj_job r = stored_job (sj_job sj) \<and> pj_updated_at r = sj_lastSeen sj \<and>
     pj_stale r = sj_stale sj \<and> pj_stale_at r = sj_staleAt sj"
  by (cases sj) (simp add: row_abs_def mem_abs_def)

definition job_sim :: "pgDB \<Rightarrow> jobMemStore \<Rightarrow> bool" where
  "job_sim db m \<longleftrightarrow> pg_jobs_ok db \<and> jm_inv m \<and>
     (\<forall>k. map_option row_abs (job_row db k) = map_option mem_abs (gget (ms_jobs m) k))"

lemma count_vals:
  assumes "gok m"
  shows "length (filter P (gvals m)) = card {k. \<exists>v. gget m k = Some v \<and> P v}"
proof -
  have "length (filter P (gvals m)) = length (map fst (filter (P \<circ> snd) m))" by (simp add: gvals_def filter_map)
  also have "\<dots> = card (set (map fst (filter (P \<circ> snd) m)))"
    by (rule distinct_card [symmetric]) (use assms in \<open>simp add: gok_def distinct_map_filter\<close>)
  also have "set (map fst (filter (P \<circ> snd) m)) = {k. \<exists>v. gget m k = Some v \<and> P v}"
    using gget_mem [OF assms] by force
  finally show ?thesis .
qed

lemma count_rows:
  assumes ok: "pg_jobs_ok db"
  shows "length (filter P (gvals (pg_jobs db))) = card {k. \<exists>r. job_row db k = Some r \<and> P r}"
proof -
  have "bij_betw (\<lambda>i. row_key (the (gget (pg_jobs db) i))) {i. \<exists>r. gget (pg_jobs db) i = Some r \<and> P r}
      {k. \<exists>r. job_row db k = Some r \<and> P r}"
  proof (intro bij_betw_imageI inj_onI)
    fix i j assume "i \<in> {i. \<exists>r. gget (pg_jobs db) i = Some r \<and> P r}" "j \<in> {i. \<exists>r. gget (pg_jobs db) i = Some r \<and> P r}"
      "row_key (the (gget (pg_jobs db) i)) = row_key (the (gget (pg_jobs db) j))"
    then show "i = j" using pg_jobs_okD(3) [OF ok, of i _ j] by auto
  next
    show "(\<lambda>i. row_key (the (gget (pg_jobs db) i))) ` {i. \<exists>r. gget (pg_jobs db) i = Some r \<and> P r} =
        {k. \<exists>r. job_row db k = Some r \<and> P r}"
    proof (intro set_eqI iffI)
      fix k assume "k \<in> (\<lambda>i. row_key (the (gget (pg_jobs db) i))) ` {i. \<exists>r. gget (pg_jobs db) i = Some r \<and> P r}"
      then show "k \<in> {k. \<exists>r. job_row db k = Some r \<and> P r}" using job_row_key [OF ok] by auto
    next
      fix k assume "k \<in> {k. \<exists>r. job_row db k = Some r \<and> P r}"
      then obtain r where r: "gget (pg_jobs db) (pj_id r) = Some r" "row_key r = k" "P r"
        using job_row_iff [OF ok] by auto
      then show "k \<in> (\<lambda>i. row_key (the (gget (pg_jobs db) i))) ` {i. \<exists>r. gget (pg_jobs db) i = Some r \<and> P r}"
        by (intro image_eqI [of _ _ "pj_id r"]) auto
    qed
  qed
  then show ?thesis unfolding count_vals [OF pg_jobs_okD(1) [OF ok]] by (rule bij_betw_same_card)
qed

lemma sim_count:
  assumes s: "job_sim db m" and P: "\<And>r sj. row_abs r = mem_abs sj \<Longrightarrow> r \<in> set (gvals (pg_jobs db)) \<Longrightarrow> P r \<longleftrightarrow> Q sj"
  shows "length (filter P (gvals (pg_jobs db))) = length (filter Q (gvals (ms_jobs m)))"
proof -
  have ok: "pg_jobs_ok db" "gok (ms_jobs m)" using s by (simp_all add: job_sim_def jm_inv_def)
  have "(\<exists>r. job_row db k = Some r \<and> P r) \<longleftrightarrow> (\<exists>sj. gget (ms_jobs m) k = Some sj \<and> Q sj)" for k
  proof (cases "job_row db k")
    case None
    then have "gget (ms_jobs m) k = None" using s by (metis job_sim_def map_option_is_None option.map(1))
    then show ?thesis using None by simp
  next
    case (Some r)
    then have "Some (row_abs r) = map_option mem_abs (gget (ms_jobs m) k)" using s by (metis job_sim_def option.map(2))
    then obtain sj where sj: "gget (ms_jobs m) k = Some sj" "row_abs r = mem_abs sj"
      by (cases "gget (ms_jobs m) k") simp_all
    have "r \<in> set (gvals (pg_jobs db))"
      using Some job_row_iff [OF ok(1), of k r] gvals_mem [OF pg_jobs_okD(1) [OF ok(1)]] by blast
    from P [OF sj(2) this] show ?thesis using Some sj(1) by simp
  qed
  then show ?thesis unfolding count_rows [OF ok(1)] count_vals [OF ok(2)] by simp
qed

text \<open>Each step keeps the abstraction and answers alike.\<close>

definition mark_row :: "pgEnv \<Rightarrow> duration \<Rightarrow> pgJob \<Rightarrow> pgJob" where
  "mark_row env age r = (if toSweep env age r then r\<lparr>pj_stale := True, pj_stale_at := Some (stamp_now env)\<rparr> else r)"

lemma mark_row_sel [simp]:
  "pj_id (mark_row env age r) = pj_id r" "row_key (mark_row env age r) = row_key r" "pj_job (mark_row env age r) = pj_job r"
  by (simp_all add: mark_row_def row_key_def)

lemma sweep_db:
  assumes "pe_run env ''jobs.sweep'' []"
  shows "fst (pg_SweepStale env db age) = db\<lparr>pg_jobs := gmap (\<lambda>_. mark_row env age) (pg_jobs db)\<rparr>"
  using assms by (simp add: pg_SweepStale_def mark_row_def [abs_def])

lemma sweep_ok:
  assumes ok: "pg_jobs_ok db" and run: "pe_run env ''jobs.sweep'' []"
  shows "pg_jobs_ok (fst (pg_SweepStale env db age))"
    "job_row (fst (pg_SweepStale env db age)) k = map_option (mark_row env age) (job_row db k)"
proof -
  let ?m = "gmap (\<lambda>_. mark_row env age) (pg_jobs db)"
  have g: "gget ?m i = Some r' \<longleftrightarrow> (\<exists>r. gget (pg_jobs db) i = Some r \<and> r' = mark_row env age r)" for i r'
    by (cases "gget (pg_jobs db) i") auto
  have u: "uniq_on row_key ?m" unfolding uniq_on_def g using pg_jobs_okD(3) [OF ok] by auto
  have f: "pj_stale (mark_row env age r) \<longleftrightarrow> pj_stale_at (mark_row env age r) \<noteq> None" if "gget (pg_jobs db) i = Some r" for i r
    using pg_jobs_okD(5) [OF ok that] by (simp add: mark_row_def)
  show ok': "pg_jobs_ok (fst (pg_SweepStale env db age))"
    unfolding sweep_db [OF run] pg_jobs_ok_def keyed_def
    using u pg_jobs_okD(1,2,4) [OF ok] f by auto
  have "job_row (fst (pg_SweepStale env db age)) k = Some w \<longleftrightarrow> map_option (mark_row env age) (job_row db k) = Some w" for w
  proof -
    have "job_row (fst (pg_SweepStale env db age)) k = Some w \<longleftrightarrow>
        (\<exists>r. gget (pg_jobs db) (pj_id w) = Some r \<and> w = mark_row env age r \<and> row_key w = k)"
      unfolding job_row_iff [OF ok'] by (auto simp: sweep_db [OF run] g simp del: gget_gmap)
    also have "\<dots> \<longleftrightarrow> (\<exists>r. job_row db k = Some r \<and> mark_row env age r = w)"
      unfolding job_row_iff [OF ok] by (metis mark_row_sel(1,2))
    also have "\<dots> \<longleftrightarrow> map_option (mark_row env age) (job_row db k) = Some w" by (simp add: map_option_eq_Some)
    finally show ?thesis .
  qed
  then show "job_row (fst (pg_SweepStale env db age)) k = map_option (mark_row env age) (job_row db k)"
    by (metis not_Some_eq)
qed

lemma tie_free:
  assumes "row_abs r = mem_abs sj" "no_tie (stamp_now env) age r" "micros age = age"
  shows "toSweep env age r \<longleftrightarrow> toMark (stamp_now env) age sj"
proof -
  have e: "pj_updated_at r = sj_lastSeen sj" "pj_stale r = sj_stale sj"
    using assms(1) by (simp_all add: row_mem)
  then show ?thesis using assms(2,3)
    by (auto simp: toSweep_def toMark_def IsStale_def no_tie_def Let_def is_zero_time_def time_sub_def max_def min_def)
qed

lemma sim_upsert:
  assumes s: "job_sim db m" and p: "same_step env db m (OpUpsert j)"
  shows "job_sim (fst (pg_Upsert env db j)) (fst (jm_Upsert m j)) \<and>
    job_out OutCreated (snd (pg_Upsert env db j)) = job_out OutCreated (snd (jm_Upsert m j))"
proof (cases "ValidateSourceURL (j_SourceURL j)")
  case False
  then show ?thesis using s by (simp add: pg_Upsert_def jm_Upsert_def job_out_def)
next
  case True
  have ok: "pg_jobs_ok db" "jm_inv m" and abs: "\<And>k. map_option row_abs (job_row db k) = map_option mem_abs (gget (ms_jobs m) k)"
    using s by (simp_all add: job_sim_def)
  obtain db' res where e: "pg_Upsert env db j = (db', res)" by fastforce
  have "res \<noteq> Inl x" for x using e True p by (auto simp: pg_Upsert_def Let_def split: option.splits)
  with pg_Upsert_cases [OF ok(1) e] obtain r where r: "pj_job r = stored_job j" "\<not> pj_stale r" "pj_stale_at r = None"
      "pj_updated_at r = stamp_now env" "res = Inr (job_row db (j_DedupKey j) = None)" "pg_jobs_ok db'"
      "job_row db' = (job_row db)(j_DedupKey j \<mapsto> r)" by metis
  have n: "job_row db (j_DedupKey j) = None \<longleftrightarrow> gget (ms_jobs m) (j_DedupKey j) = None"
    using abs [of "j_DedupKey j"] by (metis map_option_is_None)
  show ?thesis
    unfolding e using r n abs p True jm_Upsert_inv [OF ok(2), of j]
    by (simp add: job_sim_def job_out_def jm_Upsert_def Let_def row_abs_def mem_abs_def)
qed

lemma sim_sweep:
  assumes s: "job_sim db m" and p: "same_step env db m (OpSweep age)"
  shows "job_sim (fst (pg_SweepStale env db age)) (fst (jm_SweepStale m age)) \<and>
    job_out OutMarked (snd (pg_SweepStale env db age)) = OutMarked (snd (jm_SweepStale m age))"
proof -
  have ok: "pg_jobs_ok db" "jm_inv m" and abs: "\<And>k. map_option row_abs (job_row db k) = map_option mem_abs (gget (ms_jobs m) k)"
    using s by (simp_all add: job_sim_def)
  have p': "pe_run env ''jobs.sweep'' []" "micros age = age" "ms_now m (ms_calls m) = stamp_now env"
      "\<And>r. r \<in> set (gvals (pg_jobs db)) \<Longrightarrow> no_tie (stamp_now env) age r"
    using p by (simp_all add: list.pred_set)
  have n: "length (filter (toSweep env age) (gvals (pg_jobs db))) = length (filter (toMark (stamp_now env) age) (gvals (ms_jobs m)))"
    by (rule sim_count [OF s]) (rule tie_free [OF _ p'(4) p'(2)])
  have "map_option row_abs (map_option (mark_row env age) (job_row db k)) =
      map_option mem_abs (gget (ms_jobs (fst (jm_SweepStale m age))) k)" for k
  proof (cases "job_row db k")
    case None
    then have "gget (ms_jobs m) k = None" using abs [of k] by (metis map_option_is_None)
    then show ?thesis using None by (simp add: jm_SweepStale_get)
  next
    case (Some r)
    obtain sj where sj: "gget (ms_jobs m) k = Some sj" "row_abs r = mem_abs sj"
      using abs [of k] Some by (cases "gget (ms_jobs m) k") simp_all
    have "r \<in> set (gvals (pg_jobs db))"
      using Some job_row_iff [OF ok(1), of k r] gvals_mem [OF pg_jobs_okD(1) [OF ok(1)]] by blast
    from tie_free [OF sj(2) p'(4) [OF this] p'(2)] show ?thesis
      using Some sj p'(3) by (simp add: jm_SweepStale_get row_mem mark_row_def)
  qed
  then have "job_sim (fst (pg_SweepStale env db age)) (fst (jm_SweepStale m age))"
    using ok jm_SweepStale_inv by (simp add: job_sim_def sweep_ok [OF ok(1) p'(1)])
  then show ?thesis using n p'(1,3) by (simp add: pg_SweepStale_def jm_SweepStale_def Let_def job_out_def)
qed

lemma sim_count_real:
  assumes s: "job_sim db m" and p: "same_step env db m OpCount"
  shows "job_out OutReal (pg_RealActiveCount env db) = OutReal (jm_RealActiveCount m)"
proof -
  have "length (filter (\<lambda>r. \<not> pj_stale r \<and> \<not> j_Synthetic (pj_job r)) (gvals (pg_jobs db))) =
      length (filter (\<lambda>sj. \<not> sj_stale sj \<and> \<not> j_Synthetic (sj_job sj)) (gvals (ms_jobs m)))"
    by (rule sim_count [OF s]) (simp add: row_mem)
  then show ?thesis using p by (simp add: pg_RealActiveCount_def jm_RealActiveCount_def pjrun_def job_out_def)
qed

lemma sim_step:
  assumes "job_sim db m" "same_step env db m op"
  shows "job_sim (fst (pg_job_step env db op)) (fst (jm_job_step m op)) \<and>
    snd (pg_job_step env db op) = snd (jm_job_step m op)"
proof (cases op)
  case (OpUpsert j)
  then show ?thesis using sim_upsert [OF assms(1) assms(2) [unfolded OpUpsert]] by simp
next
  case (OpSweep age)
  then show ?thesis using sim_sweep [OF assms(1) assms(2) [unfolded OpSweep]] by simp
next
  case OpCount
  then show ?thesis using sim_count_real [OF assms(1) assms(2) [unfolded OpCount]] assms(1) by simp
qed

text \<open>
  C26: The database store refines the in-memory store of listings. Through any history of
  upserts, sweeps and counts whose statements run and in which both read the same clock, the
  two give the same answers - which listings were new, how many went stale, how many real ones
  are active - and hold, under every dedup key, the same listing, up to the default currency
  and the microseconds a row keeps, with the same freshness.
\<close>

theorem pg_jobs_refine:
  assumes "job_sim db m" and "same_run db m h"
  shows "snd (pg_job_run db h) = snd (jm_job_run m (map snd h)) \<and>
    job_sim (fst (pg_job_run db h)) (fst (jm_job_run m (map snd h)))"
  using assms
proof (induction h arbitrary: db m)
  case (Cons x h)
  obtain env op where x: "x = (env, op)" by fastforce
  have st: "same_step env db m op" and rest: "same_run (fst (pg_job_step env db op)) (fst (jm_job_step m op)) h"
    using Cons.prems(2) x by simp_all
  note one = sim_step [OF Cons.prems(1) st]
  from Cons.IH [OF conjunct1 [OF one] rest] show ?case
    using one by (simp add: x Let_def case_prod_unfold)
qed simp

section \<open>Examples\<close>

definition demoPg :: "time \<Rightarrow> string \<Rightarrow> pgEnv" where
  "demoPg now uuid = \<lparr>pe_run = (\<lambda>_ _. True), pe_now = now, pe_uuid = uuid, pe_digest = (\<lambda>s. s), pe_dup = (\<lambda>_ _. []),
     pe_jsonb = (\<lambda>j. j), pe_less = (<)\<rparr>"

lemma demoPg_sel [simp]:
  "pe_run (demoPg t i) s a" "pe_less (demoPg t i) = (<)" "pe_uuid (demoPg t i) = i" "stamp_now (demoPg t i) = micros t"
  by (simp_all add: demoPg_def stamp_now_def)

definition demoQuery :: JobQuery where
  "demoQuery = \<lparr>jq_Search = [], jq_PayMin = None, jq_PayMax = None, jq_Location = [], jq_Remote = None, jq_Skills = [],
     jq_MaxYoE = None, jq_EmploymentType = [], jq_Source = [], jq_PostedAfter = None, jq_Limit = 0, jq_Offset = 0\<rparr>"

text \<open>Two listings, one of which the user of the example has dismissed.\<close>

definition demoJobsDB :: pgDB where
  "demoJobsDB = (fst (pg_Upsert (demoPg 1000 ''id2'') (fst (pg_Upsert (demoPg 1000 ''id1'') emptyDB sampleJob))
     (sampleJob\<lparr>j_DedupKey := ''k2'', j_Title := ''Rust dev''\<rparr>)))\<lparr>pg_states := [((''u1'', ''k1''),
       (zeroJobState ''k1'')\<lparr>js_Dismissed := True\<rparr>)]\<rparr>"

lemma emptyDB_jobs_ok: "pg_jobs_ok emptyDB"
  by (simp add: pg_jobs_ok_def emptyDB_def)

lemma jobs_ok_states [simp]: "pg_jobs_ok (db\<lparr>pg_states := st\<rparr>) = pg_jobs_ok db"
  by (simp add: pg_jobs_ok_def)

lemma pg_Upsert_ok: "pg_jobs_ok db \<Longrightarrow> pg_jobs_ok (fst (pg_Upsert env db j))"
  by (cases "pg_Upsert env db j"; rule pg_Upsert_cases) auto

lemma demoJobsDB_ok: "pg_jobs_ok demoJobsDB"
  by (simp add: demoJobsDB_def pg_Upsert_ok emptyDB_jobs_ok)

definition demoReader :: user where
  "demoReader = \<lparr>u_ID = ''u1'', u_Email = ''a@x'', u_PasswordHash = [], u_Verified = True, u_CreatedAt = 0, u_ConsentAt = 0\<rparr>"

theorem sql_feed_equivalent_witness:
  "let env = demoPg 2000 ''id3''; fe = pgFeedEnv env demoJobsDB None in
     handleFeed (\<lambda>_. None) fe (Some demoReader) [(''q'', ''dev''), (''limit'', ''5'')] =
       handleFeed (\<lambda>_. None) (indexFeedEnv fe) (Some demoReader) [(''q'', ''dev''), (''limit'', ''5'')] \<and>
     map_option jp_Total (case pg_searchFeed env demoJobsDB (demoQuery\<lparr>jq_Search := ''dev''\<rparr>) ''u1'' of Inr p \<Rightarrow> Some p | _ \<Rightarrow> None) = Some 1"
proof -
  let ?v = "[(''q'', ''dev''), (''limit'', ''5'')]" and ?env = "demoPg 2000 ''id3''"
  have q: "parseQuery (\<lambda>_. None) ?v = Inr q \<Longrightarrow> int4 (jq_MaxYoE q) \<and> opt_all (\<lambda>t. micros t = t) (jq_PostedAfter q)" for q
  proof -
    have p: "parseQuery (\<lambda>_. None) ?v = Inr (demoQuery\<lparr>jq_Search := ''dev'', jq_Limit := 5\<rparr>)" by code_simp
    show "parseQuery (\<lambda>_. None) ?v = Inr q \<Longrightarrow> int4 (jq_MaxYoE q) \<and> opt_all (\<lambda>t. micros t = t) (jq_PostedAfter q)"
      unfolding p by (auto simp: demoQuery_def int4_def opt_all_def)
  qed
  have "handleFeed (\<lambda>_. None) (pgFeedEnv ?env demoJobsDB None) (Some demoReader) ?v =
      handleFeed (\<lambda>_. None) (indexFeedEnv (pgFeedEnv ?env demoJobsDB None)) (Some demoReader) ?v"
    by (rule sql_feed_equivalent [OF demoJobsDB_ok]) (use q in \<open>auto simp: demoReader_def\<close>)
  moreover have "map_option jp_Total (case pg_searchFeed ?env demoJobsDB (demoQuery\<lparr>jq_Search := ''dev''\<rparr>) ''u1'' of
      Inr p \<Rightarrow> Some p | _ \<Rightarrow> None) = Some 1" by code_simp
  ultimately show ?thesis by (simp add: Let_def)
qed

definition demoHistory :: "(pgEnv \<times> job_op) list" where
  "demoHistory = [(demoPg 1000 ''id1'', OpUpsert sampleJob), (demoPg (hours 49) ''id2'', OpSweep StaleAfter),
     (demoPg (hours 49) ''id3'', OpCount), (demoPg (hours 49) ''id4'', OpUpsert sampleJob), (demoPg (hours 49) ''id5'', OpCount)]"

theorem pg_jobs_refine_witness:
  "snd (pg_job_run emptyDB demoHistory) = [OutCreated True, OutMarked 1, OutReal 0, OutCreated False, OutReal 1] \<and>
   snd (jm_job_run (NewMemoryStoreClock sampleClock) (map snd demoHistory)) = snd (pg_job_run emptyDB demoHistory)"
proof -
  have s: "job_sim emptyDB (NewMemoryStoreClock sampleClock)"
    unfolding job_sim_def using emptyDB_jobs_ok
    by (simp add: jm_inv_def NewMemoryStoreClock_def job_row_def gvals_def) (simp add: emptyDB_def)
  have r: "same_run emptyDB (NewMemoryStoreClock sampleClock) demoHistory" by code_simp
  have e: "snd (pg_job_run emptyDB demoHistory) = [OutCreated True, OutMarked 1, OutReal 0, OutCreated False, OutReal 1]"
    by code_simp
  show ?thesis using pg_jobs_refine [OF s r] e by simp
qed

end
