(* ===== verification/Pg_Reach.thy ===== *)
theory Pg_Reach
  imports Pg_Auth Pg_CV Pg_Feed
begin

text \<open>
  The database under every write the stores make: a step relation with one rule for each
  writing method, and the invariant of every database reachable from an empty one.
\<close>

section \<open>Steps\<close>

inductive pg_step :: "pgEnv \<Rightarrow> pgDB \<Rightarrow> pgDB \<Rightarrow> bool" for env :: pgEnv and db :: pgDB where
  ps_CreateUser: "pg_step env db (fst (pg_CreateUser env db e h))"
| ps_SetVerified: "pg_step env db (fst (pg_SetVerified env db i))"
| ps_SetConsent: "pg_step env db (fst (pg_SetConsent env db i t))"
| ps_UpdatePassword: "pg_step env db (fst (pg_UpdatePassword env db i h))"
| ps_DeleteUser: "pg_step env db (fst (pg_DeleteUser env db i))"
| ps_CreateVerification: "pg_step env db (fst (pg_CreateVerification env db i tok t))"
| ps_VerifyUser: "pg_step env db (fst (pg_VerifyUser env db tok t))"
| ps_CreateSession: "pg_step env db (fst (pg_CreateSession env db s))"
| ps_DeleteSession: "pg_step env db (fst (pg_DeleteSession env db tok))"
| ps_CreateReset: "pg_step env db (fst (pg_CreateReset env db i tok t))"
| ps_ResetPassword: "pg_step env db (fst (pg_ResetPassword env db tok h t))"
| ps_CreateFile: "pg_step env db (fst (pg_CreateFile env db f))"
| ps_DeleteByUser: "pg_step env db (fst (pg_DeleteByUser env db i))"
| ps_UpdateVersion: "pg_step env db (fst (pg_UpdateVersion env db i c l pr))"
| ps_SaveProfile: "pg_step env db (fst (pg_prof_Save env db p))"
| ps_DeleteProfile: "pg_step env db (fst (pg_prof_Delete env db i))"
| ps_CreateFilter: "pg_step env db (fst (pg_CreateSavedFilter env db sf))"
| ps_DeleteFilter: "pg_step env db (fst (pg_DeleteSavedFilter env db i c))"
| ps_TouchFilter: "pg_step env db (fst (pg_TouchSavedFilter env db i c t))"
| ps_SetJobState: "pg_step env db (fst (pg_SetJobState env db i js))"
| ps_CreateApp: "pg_step env db (fst (pg_CreateApplication env db a))"
| ps_UpdateApp: "pg_step env db (fst (pg_UpdateApplication env db i a))"
| ps_CreateSnippet: "pg_step env db (fst (pg_CreateSnippet env db x))"
| ps_UpdateSnippet: "pg_step env db (fst (pg_UpdateSnippet env db i x))"
| ps_DeleteSnippet: "pg_step env db (fst (pg_DeleteSnippet env db i c))"
| ps_EraseSeeker: "pg_step env db (fst (pg_m5_DeleteUser env db i))"
| ps_Upsert: "pg_step env db (fst (pg_Upsert env db j))"
| ps_Sweep: "pg_step env db (fst (pg_SweepStale env db age))"

inductive pg_reach :: "pgDB \<Rightarrow> bool" where
  pg_empty: "pg_reach emptyDB"
| pg_then: "pg_reach db \<Longrightarrow> pg_step env db db' \<Longrightarrow> pg_reach db'"

section \<open>The invariant\<close>

text \<open>Every reference leads somewhere, and every constraint of the schema holds.\<close>

definition pg_wf :: "pgDB \<Rightarrow> bool" where
  "pg_wf db \<longleftrightarrow> pg_refs db \<and> pg_cv_ok db \<and> pg_m5_ok db \<and> pg_jobs_ok db"

lemma has_user_upd [simp]:
  "has_user (db\<lparr>pg_verifs := v\<rparr>) = has_user db" "has_user (db\<lparr>pg_sessions := s\<rparr>) = has_user db"
  "has_user (db\<lparr>pg_resets := r\<rparr>) = has_user db" "has_user (db\<lparr>pg_profiles := p\<rparr>) = has_user db"
  "has_user (db\<lparr>pg_cvs := c\<rparr>) = has_user db" "has_user (db\<lparr>pg_jobs := j\<rparr>) = has_user db"
  "has_user (db\<lparr>pg_filters := f\<rparr>) = has_user db" "has_user (db\<lparr>pg_states := t\<rparr>) = has_user db"
  "has_user (db\<lparr>pg_apps := a\<rparr>) = has_user db" "has_user (db\<lparr>pg_snips := n\<rparr>) = has_user db"
  by (simp_all add: has_user_def [abs_def])

lemmas wf_defs = pg_wf_def pg_refs_def pg_cv_ok_def pg_m5_ok_def pg_jobs_ok_def Let_def

text \<open>What each table may become.\<close>

lemma wf_users:
  assumes "pg_wf db" "\<And>j. has_user db j \<Longrightarrow> gget us j \<noteq> None"
  shows "pg_wf (db\<lparr>pg_users := us\<rparr>)"
proof -
  have "has_user (db\<lparr>pg_users := us\<rparr>) j" if "has_user db j" for j using assms(2) [OF that] by (simp add: has_user_def)
  then show ?thesis using assms(1) unfolding wf_defs by (auto intro: refs_mono)
qed

lemma wf_tokens:
  assumes "pg_wf db" "rows_owned (has_user db) pt_user_id m"
  shows "pg_wf (db\<lparr>pg_verifs := m\<rparr>)" "pg_wf (db\<lparr>pg_sessions := m\<rparr>)" "pg_wf (db\<lparr>pg_resets := m\<rparr>)"
  using assms unfolding wf_defs by simp_all

lemma wf_profiles: "pg_wf db \<Longrightarrow> keys_owned (has_user db) id m \<Longrightarrow> pg_wf (db\<lparr>pg_profiles := m\<rparr>)"
  unfolding wf_defs by simp

lemma wf_cvs: "pg_wf db \<Longrightarrow> rows_owned (has_user db) fl_UserID m \<Longrightarrow> pg_cv_ok (db\<lparr>pg_cvs := m\<rparr>) \<Longrightarrow> pg_wf (db\<lparr>pg_cvs := m\<rparr>)"
  unfolding wf_defs by simp

lemma wf_filters: "pg_wf db \<Longrightarrow> rows_owned (has_user db) sf_UserID m \<Longrightarrow> keyed sf_ID m \<Longrightarrow> pg_wf (db\<lparr>pg_filters := m\<rparr>)"
  unfolding wf_defs by simp

lemma wf_states: "pg_wf db \<Longrightarrow> keys_owned (has_user db) fst m \<Longrightarrow> gok m \<Longrightarrow> pg_wf (db\<lparr>pg_states := m\<rparr>)"
  unfolding wf_defs by simp

lemma wf_apps:
  "pg_wf db \<Longrightarrow> rows_owned (has_user db) pa_user_id m \<Longrightarrow> rows_owned (\<lambda>j. gget (pg_jobs db) j \<noteq> None) pa_job_id m \<Longrightarrow>
    keyed pa_id m \<Longrightarrow> pg_wf (db\<lparr>pg_apps := m\<rparr>)"
  unfolding wf_defs by simp

lemma wf_snips: "pg_wf db \<Longrightarrow> rows_owned (has_user db) sn_UserID m \<Longrightarrow> keyed sn_ID m \<Longrightarrow> pg_wf (db\<lparr>pg_snips := m\<rparr>)"
  unfolding wf_defs by simp

lemma wf_D:
  assumes "pg_wf db"
  shows "rows_owned (has_user db) pt_user_id (pg_verifs db)" "rows_owned (has_user db) pt_user_id (pg_sessions db)"
    "rows_owned (has_user db) pt_user_id (pg_resets db)" "keys_owned (has_user db) id (pg_profiles db)"
    "rows_owned (has_user db) fl_UserID (pg_cvs db)" "rows_owned (has_user db) sf_UserID (pg_filters db)"
    "keys_owned (has_user db) fst (pg_states db)" "rows_owned (has_user db) pa_user_id (pg_apps db)"
    "rows_owned (has_user db) sn_UserID (pg_snips db)" "rows_owned (\<lambda>j. gget (pg_jobs db) j \<noteq> None) pa_job_id (pg_apps db)"
    "pg_cv_ok db" "pg_m5_ok db" "pg_jobs_ok db"
    "keyed sf_ID (pg_filters db)" "gok (pg_states db)" "keyed pa_id (pg_apps db)" "keyed sn_ID (pg_snips db)"
  using assms by (simp_all add: pg_wf_def pg_refs_def Let_def pg_m5_ok_def)

lemma wf_jobs:
  assumes "pg_wf db" "pg_jobs_ok (db\<lparr>pg_jobs := m\<rparr>)" "\<And>i. gget (pg_jobs db) i \<noteq> None \<Longrightarrow> gget m i \<noteq> None"
  shows "pg_wf (db\<lparr>pg_jobs := m\<rparr>)"
proof -
  have r: "rows_owned (\<lambda>j. gget m j \<noteq> None) pa_job_id (pg_apps db)"
    by (rule refs_mono(1) [OF wf_D(10) [OF assms(1)]]) (rule assms(3))
  have "keyed pj_id m" "uniq_on row_key m" using assms(2) unfolding pg_jobs_ok_def by simp_all
  then have m: "pg_m5_ok (db\<lparr>pg_jobs := m\<rparr>)"
    using wf_D(12) [OF assms(1)] by (simp add: pg_m5_ok_def row_key_def [abs_def])
  have "pg_refs (db\<lparr>pg_jobs := m\<rparr>)" using assms(1) r by (simp add: pg_wf_def pg_refs_def Let_def)
  then show ?thesis using assms(1,2) m by (simp add: pg_wf_def pg_cv_ok_def)
qed

lemma wf_empty: "pg_wf emptyDB"
  by (simp add: wf_defs emptyDB_def one_primary_def)

lemma wf_cascade:
  assumes "pg_wf db" shows "pg_wf (pg_cascade i db)"
proof -
  note d = wf_D [OF assms]
  have c: "pg_cv_ok (pg_cascade i db)"
    using d(11) by (auto simp: pg_cascade_def pg_cv_ok_def one_primary_def gget_del_if_fun split: option.splits if_splits)
  have m: "pg_m5_ok (pg_cascade i db)"
    using d(12) by (simp add: pg_cascade_def pg_m5_ok_def keyed_del_if)
  have j: "pg_jobs_ok (pg_cascade i db)" using d(13) by (simp add: pg_cascade_def pg_jobs_ok_def)
  show ?thesis using cascade_refs assms c m j by (simp add: pg_wf_def)
qed

section \<open>Every step keeps it\<close>

lemma has_user_put: "has_user db j \<Longrightarrow> gget (gput i r (pg_users db)) j \<noteq> None"
  by (simp add: has_user_def)

lemma wf_set_user: "pg_wf db \<Longrightarrow> pg_wf (set_user i f db r)"
  unfolding set_user_def by (erule wf_users) (rule has_user_put)

lemma wf_affecting:
  "pg_wf db \<Longrightarrow> (\<And>r. row = Some r \<Longrightarrow> pg_wf (change r)) \<Longrightarrow> pg_wf (fst (execAffecting run row change db))"
  by (simp add: execAffecting_def split: option.split)

lemma token_rowD:
  "token_row env db stmt m i tok e = Some m' \<Longrightarrow> has_user db i \<and> m' = gput (pe_digest env tok) \<lparr>pt_user_id = i, pt_expires_at = micros e\<rparr> m"
  by (simp add: token_row_def Let_def split: if_splits)

lemma wf_token_put:
  assumes "token_row env db stmt m i tok e = Some m'" "rows_owned (has_user db) pt_user_id m"
  shows "rows_owned (has_user db) pt_user_id m'"
  using token_rowD [OF assms(1)] assms(2) by (simp add: rows_owned_put)

lemma step_users:
  assumes wf: "pg_wf db"
  shows "pg_wf (fst (pg_CreateUser env db e h))" "pg_wf (fst (pg_SetVerified env db i))" "pg_wf (fst (pg_SetConsent env db i t))"
    "pg_wf (fst (pg_UpdatePassword env db i h))" "pg_wf (fst (pg_DeleteUser env db i))"
proof -
  show "pg_wf (fst (pg_CreateUser env db e h))"
    using wf wf_users [OF wf has_user_put] by (simp add: pg_CreateUser_def Let_def)
  show "pg_wf (fst (pg_SetVerified env db i))" "pg_wf (fst (pg_SetConsent env db i t))" "pg_wf (fst (pg_UpdatePassword env db i h))"
    unfolding pg_SetVerified_def pg_SetConsent_def pg_UpdatePassword_def
    by (intro wf_affecting wf wf_set_user)+
  show "pg_wf (fst (pg_DeleteUser env db i))"
    unfolding pg_DeleteUser_def by (intro wf_affecting wf wf_cascade)
qed

lemma step_tokens:
  assumes wf: "pg_wf db"
  shows "pg_wf (fst (pg_CreateVerification env db i tok t))" "pg_wf (fst (pg_VerifyUser env db tok t))"
    "pg_wf (fst (pg_CreateSession env db s))" "pg_wf (fst (pg_DeleteSession env db tok))"
    "pg_wf (fst (pg_CreateReset env db i tok t))" "pg_wf (fst (pg_ResetPassword env db tok h t))"
proof -
  note d = wf_D [OF wf]
  show "pg_wf (fst (pg_CreateVerification env db i tok t))"
    using wf wf_tokens(1) [OF wf wf_token_put [OF _ d(1)]] by (simp add: pg_CreateVerification_def split: option.split)
  show "pg_wf (fst (pg_CreateSession env db s))"
    using wf wf_tokens(2) [OF wf wf_token_put [OF _ d(2)]] by (simp add: pg_CreateSession_def split: option.split)
  show "pg_wf (fst (pg_CreateReset env db i tok t))"
    using wf wf_tokens(3) [OF wf wf_token_put [OF _ d(3)]] by (simp add: pg_CreateReset_def split: option.split)
  have v: "pg_wf (db\<lparr>pg_verifs := gdel k (pg_verifs db)\<rparr>)" for k by (rule wf_tokens(1) [OF wf refs_del(1) [OF d(1)]])
  show "pg_wf (fst (pg_VerifyUser env db tok t))"
    using wf v by (simp add: pg_VerifyUser_def Let_def wf_set_user split: option.split)
  show "pg_wf (fst (pg_DeleteSession env db tok))"
    using wf wf_tokens(2) [OF wf refs_del(1) [OF d(2)]] by (simp add: pg_DeleteSession_def Let_def)
  have r: "pg_wf (db\<lparr>pg_resets := gdel k (pg_resets db)\<rparr>)" for k by (rule wf_tokens(3) [OF wf refs_del(1) [OF d(3)]])
  have rs: "pg_wf (db\<lparr>pg_resets := gdel k (pg_resets db), pg_sessions := gdel_if P (pg_sessions db)\<rparr>)" for k P
    by (rule wf_tokens(2) [OF r]) (simp add: refs_del(2) [OF d(2)])
  show "pg_wf (fst (pg_ResetPassword env db tok h t))"
    using wf r rs by (simp add: pg_ResetPassword_def Let_def wf_set_user split: option.split)
qed

lemma step_profiles:
  assumes wf: "pg_wf db"
  shows "pg_wf (fst (pg_prof_Save env db p))" "pg_wf (fst (pg_prof_Delete env db i))"
proof -
  note d = wf_D [OF wf]
  show "pg_wf (fst (pg_prof_Save env db p))"
    using wf wf_profiles [OF wf keys_owned_put [OF d(4)]] by (simp add: pg_prof_Save_def Let_def)
  show "pg_wf (fst (pg_prof_Delete env db i))"
    using wf wf_profiles [OF wf refs_del(3) [OF d(4)]] by (simp add: pg_prof_Delete_def Let_def)
qed

lemma rows_owned_iff: "gok m \<Longrightarrow> rows_owned U f m \<longleftrightarrow> (\<forall>k r. gget m k = Some r \<longrightarrow> U (f r))"
  by (auto simp: rows_owned_def gget_mem)

lemma step_cvs:
  assumes wf: "pg_wf db"
  shows "pg_wf (fst (pg_CreateFile env db f))" "pg_wf (fst (pg_DeleteByUser env db i))" "pg_wf (fst (pg_UpdateVersion env db i c l pr))"
proof -
  note d = wf_D [OF wf]
  show "pg_wf (fst (pg_CreateFile env db f))"
  proof (cases "pg_CreateFile env db f")
    case (Pair db' r)
    show ?thesis
    proof (cases r)
      case (Inl e)
      then have "db' = db" using Pair by (auto simp: pg_CreateFile_def Let_def split: if_splits)
      then show ?thesis using wf Pair by simp
    next
      case (Inr g)
      note c = pg_CreateFile_ok [OF d(11) Pair [unfolded Inr]]
      have "has_user db (fl_UserID g)" using Pair Inr by (auto simp: pg_CreateFile_def newCV_def Let_def split: if_splits)
      then have "pg_wf (db\<lparr>pg_cvs := gput (fl_ID g) g (pg_cvs db)\<rparr>)"
        using c by (intro wf_cvs [OF wf] rows_owned_put [OF d(5)]) auto
      then show ?thesis using c Pair by simp
    qed
  qed
  have "pg_cv_ok (db\<lparr>pg_cvs := gdel_if (\<lambda>_ f. fl_UserID f = i) (pg_cvs db)\<rparr>)"
    using d(11) by (auto simp: pg_cv_ok_def one_primary_def gget_del_if_fun split: option.splits if_splits)
  then show "pg_wf (fst (pg_DeleteByUser env db i))"
    using wf wf_cvs [OF wf refs_del(2) [OF d(5)]] by (simp add: pg_DeleteByUser_def)
  show "pg_wf (fst (pg_UpdateVersion env db i c l pr))"
  proof (cases "pg_UpdateVersion env db i c l pr")
    case (Pair db' r)
    note u = pg_UpdateVersion_ok [OF d(11) Pair]
    obtain m where m: "db' = db\<lparr>pg_cvs := m\<rparr>" using u by blast
    have g: "gok m" "gok (pg_cvs db)" using u d(11) m by (simp_all add: pg_cv_ok_def)
    have "has_user db (fl_UserID f)" if "gget m j = Some f" for j f
    proof -
      have "map_option fl_UserID (gget m j) = map_option fl_UserID (gget (pg_cvs db) j)" using u m by simp
      then have "\<exists>w. gget (pg_cvs db) j = Some w \<and> fl_UserID w = fl_UserID f"
        using that by (cases "gget (pg_cvs db) j") simp_all
      then show ?thesis using rows_owned_get [OF d(5)] by metis
    qed
    then have "rows_owned (has_user db) fl_UserID m" by (simp add: rows_owned_iff [OF g(1)])
    from wf_cvs [OF wf this] show ?thesis using u m Pair by simp
  qed
qed

lemma m5exec_wf:
  "pg_wf db \<Longrightarrow> (\<And>r. row = Some r \<Longrightarrow> pg_wf (change r)) \<Longrightarrow> pg_wf (fst (m5exec run row change db))"
  by (simp add: m5exec_def split: option.split)

lemma of_userD: "of_user f u row = Some r \<Longrightarrow> row = Some r \<and> f r = u"
  by (simp add: of_user_def split: option.splits if_splits)

lemma step_filters:
  assumes wf: "pg_wf db"
  shows "pg_wf (fst (pg_CreateSavedFilter env db f))" "pg_wf (fst (pg_DeleteSavedFilter env db i c))"
    "pg_wf (fst (pg_TouchSavedFilter env db i c t))" "pg_wf (fst (pg_SetJobState env db i s))"
proof -
  note d = wf_D [OF wf]
  show "pg_wf (fst (pg_CreateSavedFilter env db f))"
    using wf wf_filters [OF wf rows_owned_put [OF d(6)] keyed_put [OF d(14)]] by (simp add: pg_CreateSavedFilter_def Let_def)
  show "pg_wf (fst (pg_DeleteSavedFilter env db i c))"
    unfolding pg_DeleteSavedFilter_def
    by (intro m5exec_wf wf wf_filters [OF wf refs_del(1) [OF d(6)] keyed_del [OF d(14)]])
  show "pg_wf (fst (pg_TouchSavedFilter env db i c t))"
    unfolding pg_TouchSavedFilter_def
  proof (rule m5exec_wf [OF wf])
    fix g assume "of_user sf_UserID i (gget (pg_filters db) c) = Some g"
    then have g: "gget (pg_filters db) c = Some g" by (simp add: of_userD)
    show "pg_wf (db\<lparr>pg_filters := gput c (g\<lparr>sf_LastAlertedAt := Some (micros t)\<rparr>) (pg_filters db)\<rparr>)"
      using rows_owned_get [OF d(6) g] keyedD(2) [OF d(14) g]
      by (intro wf_filters [OF wf rows_owned_put [OF d(6)] keyed_put [OF d(14)]]) simp_all
  qed
  show "pg_wf (fst (pg_SetJobState env db i s))"
    using wf wf_states [OF wf keys_owned_put [OF d(7)] gok_put [OF d(15)]] by (simp add: pg_SetJobState_def Let_def)
qed

lemma step_snips:
  assumes wf: "pg_wf db"
  shows "pg_wf (fst (pg_CreateSnippet env db x))" "pg_wf (fst (pg_UpdateSnippet env db i x))" "pg_wf (fst (pg_DeleteSnippet env db i c))"
proof -
  note d = wf_D [OF wf]
  show "pg_wf (fst (pg_CreateSnippet env db x))"
    using wf wf_snips [OF wf rows_owned_put [OF d(9)] keyed_put [OF d(17)]] by (simp add: pg_CreateSnippet_def Let_def)
  show "pg_wf (fst (pg_DeleteSnippet env db i c))"
    unfolding pg_DeleteSnippet_def
    by (intro m5exec_wf wf wf_snips [OF wf refs_del(1) [OF d(9)] keyed_del [OF d(17)]])
  have "pg_wf (db\<lparr>pg_snips := gput (sn_ID x) (z\<lparr>sn_Name := n, sn_Body := b, sn_UpdatedAt := t\<rparr>) (pg_snips db)\<rparr>)"
    if "of_user sn_UserID i (gget (pg_snips db) (sn_ID x)) = Some z" for z n b t
  proof -
    have z: "gget (pg_snips db) (sn_ID x) = Some z" using that by (simp add: of_userD)
    show ?thesis using rows_owned_get [OF d(9) z] keyedD(2) [OF d(17) z]
      by (intro wf_snips [OF wf rows_owned_put [OF d(9)] keyed_put [OF d(17)]]) simp_all
  qed
  then show "pg_wf (fst (pg_UpdateSnippet env db i x))"
    using wf by (simp add: pg_UpdateSnippet_def Let_def split: option.split)
qed

lemma step_apps:
  assumes wf: "pg_wf db"
  shows "pg_wf (fst (pg_CreateApplication env db a))" "pg_wf (fst (pg_UpdateApplication env db i a))"
proof -
  note d = wf_D [OF wf]
  note put = wf_apps [OF wf rows_owned_put [OF d(8)] rows_owned_put [OF d(10)] keyed_put [OF d(16)]]
  have job: "gget (pg_jobs db) (pj_id j) \<noteq> None" if "find P (gvals (pg_jobs db)) = Some j" for P j
  proof -
    from find_vals [OF pg_jobs_okD(1) [OF d(13)] that] obtain k where "gget (pg_jobs db) k = Some j" by blast
    then show ?thesis using pg_jobs_okD(2) [OF d(13)] by blast
  qed
  show "pg_wf (fst (pg_CreateApplication env db a))"
    using wf job by (auto simp: pg_CreateApplication_def Let_def intro!: put split: option.split)
  have "pg_wf (db\<lparr>pg_apps := gput (ap_ID a) (x\<lparr>pa_status := s, pa_updated_at := t\<rparr>) (pg_apps db)\<rparr>)"
    if "of_user pa_user_id i (gget (pg_apps db) (ap_ID a)) = Some x" for x s t
  proof -
    have x: "gget (pg_apps db) (ap_ID a) = Some x" using that by (simp add: of_userD)
    show ?thesis using rows_owned_get [OF d(8) x] rows_owned_get [OF d(10) x] keyedD(2) [OF d(16) x]
      by (intro put) simp_all
  qed
  then show "pg_wf (fst (pg_UpdateApplication env db i a))"
    using wf by (simp add: pg_UpdateApplication_def Let_def split: option.split)
qed

lemma step_erase: "pg_wf db \<Longrightarrow> pg_wf (fst (pg_m5_DeleteUser env db i))"
proof -
  have all: "pg_wf db \<Longrightarrow> (\<And>s f d. (s, f) \<in> set ss \<Longrightarrow> pg_wf d \<Longrightarrow> pg_wf (f d)) \<Longrightarrow> pg_wf (fst (pg_exec_all env i ss db))" for ss db
    by (induction env i ss db rule: pg_exec_all.induct) auto
  have w: "pg_wf (d\<lparr>pg_filters := gdel_if P (pg_filters d)\<rparr>)" "pg_wf (d\<lparr>pg_states := gdel_if Q (pg_states d)\<rparr>)"
    "pg_wf (d\<lparr>pg_snips := gdel_if R (pg_snips d)\<rparr>)" "pg_wf (d\<lparr>pg_apps := gdel_if S (pg_apps d)\<rparr>)" if "pg_wf d" for d P Q R S
    using wf_D [OF that] that
    by (auto intro!: wf_filters wf_states wf_snips wf_apps refs_del keyed_del_if gok_del_if)
  show "pg_wf db \<Longrightarrow> pg_wf (fst (pg_m5_DeleteUser env db i))"
    unfolding pg_m5_DeleteUser_def by (rule all) (auto simp: w)
qed

lemma step_jobs:
  assumes wf: "pg_wf db"
  shows "pg_wf (fst (pg_Upsert env db j))" "pg_wf (fst (pg_SweepStale env db age))"
proof -
  note d = wf_D [OF wf]
  obtain db' res where e: "pg_Upsert env db j = (db', res)" by fastforce
  show "pg_wf (fst (pg_Upsert env db j))"
    by (rule pg_Upsert_cases [OF d(13) e]) (use wf e in \<open>auto intro!: wf_jobs\<close>)
  show "pg_wf (fst (pg_SweepStale env db age))"
  proof (cases "pe_run env ''jobs.sweep'' []")
    case False then show ?thesis using wf by (simp add: pg_SweepStale_def)
  next
    case True
    show ?thesis using sweep_ok(1) [OF d(13) True, of age] unfolding sweep_db [OF True]
      by (intro wf_jobs [OF wf]) simp_all
  qed
qed

lemma step_wf: "pg_step env db db' \<Longrightarrow> pg_wf db \<Longrightarrow> pg_wf db'"
  by (induction rule: pg_step.induct)
    (simp_all add: step_users step_tokens step_profiles step_cvs step_filters step_snips step_apps step_erase step_jobs)

lemma reach_wf: "pg_reach db \<Longrightarrow> pg_wf db"
  by (induction rule: pg_reach.induct) (auto intro: wf_empty step_wf)

section \<open>No orphans\<close>

text \<open>How many rows of all the tables belong to a user.\<close>

definition rows_of :: "string \<Rightarrow> pgDB \<Rightarrow> nat" where
  "rows_of i db =
     length (filter (\<lambda>(_, r). pt_user_id r = i) (pg_verifs db)) + length (filter (\<lambda>(_, r). pt_user_id r = i) (pg_sessions db)) +
     length (filter (\<lambda>(_, r). pt_user_id r = i) (pg_resets db)) + length (filter (\<lambda>(k, _). k = i) (pg_profiles db)) +
     length (filter (\<lambda>(_, f). fl_UserID f = i) (pg_cvs db)) + length (filter (\<lambda>(_, f). sf_UserID f = i) (pg_filters db)) +
     length (filter (\<lambda>((u, _), _). u = i) (pg_states db)) + length (filter (\<lambda>(_, a). pa_user_id a = i) (pg_apps db)) +
     length (filter (\<lambda>(_, x). sn_UserID x = i) (pg_snips db))"

lemma owned_none:
  "rows_owned U f m \<Longrightarrow> \<not> U i \<Longrightarrow> filter (\<lambda>(_, r). f r = i) m = []"
  "keys_owned U g n \<Longrightarrow> \<not> U i \<Longrightarrow> filter (\<lambda>(k, _). g k = i) n = []"
  by (auto simp: rows_owned_def keys_owned_def filter_empty_conv)

lemma no_rows:
  assumes "pg_refs db" "\<not> has_user db i"
  shows "rows_of i db = 0"
proof -
  note r = assms(1) [unfolded pg_refs_def Let_def]
  have "filter (\<lambda>(_, r). pt_user_id r = i) (pg_verifs db) = []" "filter (\<lambda>(_, r). pt_user_id r = i) (pg_sessions db) = []"
    "filter (\<lambda>(_, r). pt_user_id r = i) (pg_resets db) = []" "filter (\<lambda>(_, f). fl_UserID f = i) (pg_cvs db) = []"
    "filter (\<lambda>(_, f). sf_UserID f = i) (pg_filters db) = []" "filter (\<lambda>(_, a). pa_user_id a = i) (pg_apps db) = []"
    "filter (\<lambda>(_, x). sn_UserID x = i) (pg_snips db) = []"
    by (rule owned_none(1) [where U = "has_user db"]; use r assms(2) in blast)+
  moreover have "filter (\<lambda>(k, _). id k = i) (pg_profiles db) = []" "filter (\<lambda>(k, _). fst k = i) (pg_states db) = []"
    by (rule owned_none(2) [where U = "has_user db"]; use r assms(2) in blast)+
  ultimately show ?thesis by (simp add: rows_of_def case_prod_unfold)
qed

lemma cascade_others:
  assumes "w \<noteq> i" shows "rows_of w (pg_cascade i db) = rows_of w db"
proof -
  have "a \<noteq> i \<and> a = w \<longleftrightarrow> a = w" "i \<noteq> a \<and> a = w \<longleftrightarrow> a = w" for a using assms by auto
  then show ?thesis
    by (simp add: rows_of_def pg_cascade_def gdel_if_def gdel_def AList.delete_eq case_prod_unfold)
qed

text \<open>
  C22: The production database never holds a row without its account. In every database
  reachable by the writes of the stores, with any statements failing, each verification,
  session, reset, profile, CV, filter, job state, application and snippet belongs to an account
  that is there and each application to a listing that is there, each user has at most one
  primary CV and each dedup key one listing; and a deletion of an account that succeeds leaves
  no row of its user and takes none from anyone else.
\<close>

theorem pg_no_orphans:
  assumes "pg_reach db"
  shows "(\<forall>i. \<not> has_user db i \<longrightarrow> rows_of i db = 0) \<and>
    (\<forall>k a. gget (pg_apps db) k = Some a \<longrightarrow> gget (pg_jobs db) (pa_job_id a) \<noteq> None) \<and>
    one_primary (gget (pg_cvs db)) \<and> uniq_on row_key (pg_jobs db) \<and>
    (pg_DeleteUser env db i = (db', None) \<longrightarrow>
       pg_reach db' \<and> \<not> has_user db' i \<and> rows_of i db' = 0 \<and> (\<forall>w. w \<noteq> i \<longrightarrow> rows_of w db' = rows_of w db))"
proof (intro conjI impI)
  have wf: "pg_wf db" by (rule reach_wf [OF assms])
  show "\<forall>i. \<not> has_user db i \<longrightarrow> rows_of i db = 0" using wf no_rows by (simp add: pg_wf_def)
  show "\<forall>k a. gget (pg_apps db) k = Some a \<longrightarrow> gget (pg_jobs db) (pa_job_id a) \<noteq> None"
    using rows_owned_get [OF wf_D(10) [OF wf]] by blast
  show "one_primary (gget (pg_cvs db))" using wf_D(11) [OF wf] by (simp add: pg_cv_ok_def)
  show "uniq_on row_key (pg_jobs db)" using wf_D(13) [OF wf] by (simp add: pg_jobs_ok_def)
  assume d: "pg_DeleteUser env db i = (db', None)"
  then have c: "db' = pg_cascade i db" by (auto simp: pg_DeleteUser_def execAffecting_def split: if_splits option.splits)
  show "pg_reach db'" using pg_then [OF assms ps_DeleteUser [of env db i]] d by simp
  show g: "\<not> has_user db' i" by (simp add: c cascade_users)
  show "rows_of i db' = 0" using no_rows cascade_refs wf g by (simp add: c pg_wf_def)
  show "\<forall>w. w \<noteq> i \<longrightarrow> rows_of w db' = rows_of w db" by (simp add: c cascade_others)
qed

definition demoOwnedDB :: pgDB where
  "demoOwnedDB = fst (pg_CreateSnippet (demoPg 3 ''x1'')
     (fst (pg_CreateUser (demoPg 2 ''u2'') (fst (pg_CreateUser (demoPg 1 ''u1'') emptyDB ''a@x'' ''h'')) ''b@x'' ''h''))
     \<lparr>sn_ID = [], sn_UserID = ''u1'', sn_Name = ''n'', sn_Body = ''b'', sn_CreatedAt = 0, sn_UpdatedAt = 0\<rparr>)"

theorem pg_no_orphans_witness:
  "rows_of ''u1'' demoOwnedDB = 1 \<and> rows_of ''u1'' (fst (pg_DeleteUser (demoPg 4 ''y'') demoOwnedDB ''u1'')) = 0 \<and>
   rows_of ''u2'' (fst (pg_DeleteUser (demoPg 4 ''y'') demoOwnedDB ''u1'')) = rows_of ''u2'' demoOwnedDB"
proof -
  have r: "pg_reach demoOwnedDB"
    unfolding demoOwnedDB_def by (rule pg_then [OF _ ps_CreateSnippet] pg_then [OF _ ps_CreateUser] pg_empty)+
  have n: "rows_of ''u1'' demoOwnedDB = 1" by code_simp
  have d: "snd (pg_DeleteUser (demoPg 4 ''y'') demoOwnedDB ''u1'') = None" by code_simp
  obtain db' where e: "pg_DeleteUser (demoPg 4 ''y'') demoOwnedDB ''u1'' = (db', None)"
    using d by (cases "pg_DeleteUser (demoPg 4 ''y'') demoOwnedDB ''u1''") simp
  show ?thesis using pg_no_orphans [OF r, of "demoPg 4 ''y''" "''u1''" db'] n e by simp
qed

end
