(* ===== verification/Pg_Theorems.thy ===== *)
theory Pg_Theorems
  imports Pg_Reach M5_Theorems
begin

text \<open>
  The services over the database: the contracts the Postgres stores are shown to satisfy carry
  the theorems of the clients over to production, where any statement may fail to run.
\<close>

section \<open>Accounts\<close>

text \<open>Of the environment of a request, the invariant of the accounts depends on the digest only.\<close>

lemma pg_auth_ok_digest: "pe_digest penv' = pe_digest penv \<Longrightarrow> pg_auth_ok penv db \<Longrightarrow> pg_auth_ok penv' db"
  by (simp add: pg_auth_ok_def)

text \<open>The guard lets nothing through when a statement fails.\<close>

lemma pg_guard_sound:
  assumes "RequireVerified (pgAuthOps penv) env db r = Inr u"
  shows "\<exists>x row. gget (pg_sessions db) (pe_digest penv (sessionToken r)) = Some x \<and> ev_clock env 0 \<le> pt_expires_at x \<and>
    gget (pg_users db) (pt_user_id x) = Some row \<and> u = toUser row \<and> pu_verified row"
  using assms
  by (auto simp: RequireVerified_def Let_def pgAuthOps_def pg_SessionByToken_def pg_UserByID_def scanUser_def after_def
      split: sum.splits option.splits if_splits auth_err.splits)

text \<open>
  C23: In production too a confirmed reset logs the account out everywhere. With the accounts in
  Postgres, where any statement may fail, a confirmation answered with 200 found, under the
  digest of its token, a reset that had not expired; of the accounts it changed the hash of
  that user only; no later request passes the guard as that user; and every answer but 200
  leaves all accounts and sessions as they were.
\<close>

theorem pg_reset_logs_out_everywhere:
  assumes ok: "pg_auth_ok penv (sv_repo st)"
    and e: "handleResetConfirm (pgAuthOps penv) cfg env st r (Some req) = (st', resp)"
  shows "(ap_status resp \<noteq> 200 \<longrightarrow>
      v_users (pg_auth_view penv (sv_repo st')) = v_users (pg_auth_view penv (sv_repo st)) \<and>
      v_sessions (pg_auth_view penv (sv_repo st')) = v_sessions (pg_auth_view penv (sv_repo st))) \<and>
    (ap_status resp = 200 \<longrightarrow> (\<exists>hash x u.
      HashPassword env (rc_NewPassword req) = Some hash \<and>
      gget (pg_resets (sv_repo st)) (pe_digest penv (rc_Token req)) = Some x \<and>
      micros (ev_clock env 1) \<le> pt_expires_at x \<and>
      v_users (pg_auth_view penv (sv_repo st)) (pt_user_id x) = Some u \<and>
      v_users (pg_auth_view penv (sv_repo st')) =
        (v_users (pg_auth_view penv (sv_repo st)))(pt_user_id x \<mapsto> u\<lparr>u_PasswordHash := hash\<rparr>) \<and>
      (\<forall>penv' env' r' w. pe_digest penv' = pe_digest penv \<longrightarrow>
        RequireVerified (pgAuthOps penv') env' (sv_repo st') r' = Inr w \<longrightarrow> u_ID w \<noteq> pt_user_id x)))"
proof (intro conjI impI)
  note o = pgAuth.handleResetConfirm_outcome [OF ok e]
  show "v_users (pg_auth_view penv (sv_repo st')) = v_users (pg_auth_view penv (sv_repo st))"
    "v_sessions (pg_auth_view penv (sv_repo st')) = v_sessions (pg_auth_view penv (sv_repo st))" if "ap_status resp \<noteq> 200"
    using o that by blast+
  assume s: "ap_status resp = 200"
  obtain hash i u where w: "HashPassword env (rc_NewPassword req) = Some hash"
    "token_for (v_resets (pg_auth_view penv (sv_repo st))) (rc_Token req) (micros (ev_clock env 1)) i"
    "v_users (pg_auth_view penv (sv_repo st)) i = Some u"
    and v: "pg_auth_view penv (sv_repo st') = (pg_auth_view penv (sv_repo st))
         \<lparr>v_users := (v_users (pg_auth_view penv (sv_repo st)))(i \<mapsto> u\<lparr>u_PasswordHash := hash\<rparr>),
          v_sessions := without s_UserID i (v_sessions (pg_auth_view penv (sv_repo st))),
          v_resets := (v_resets (pg_auth_view penv (sv_repo st)))(rc_Token req := None)\<rparr>"
    using o s by auto
  obtain x where x: "gget (pg_resets (sv_repo st)) (pe_digest penv (rc_Token req)) = Some x"
    "micros (ev_clock env 1) \<le> pt_expires_at x" "pt_user_id x = i"
    using w(2) by (auto simp: token_for_def pg_auth_view_sel after_def)
  have "u_ID y \<noteq> i" if d: "pe_digest penv' = pe_digest penv"
    and g: "RequireVerified (pgAuthOps penv') env' (sv_repo st') r' = Inr y" for penv' env' r' y
  proof -
    obtain z row where z: "gget (pg_sessions (sv_repo st')) (pe_digest penv (sessionToken r')) = Some z"
      "gget (pg_users (sv_repo st')) (pt_user_id z) = Some row" "y = toUser row"
      using pg_guard_sound [OF g] d by auto
    have "v_sessions (pg_auth_view penv (sv_repo st')) (sessionToken r') = Some (toSession (sessionToken r') z)"
      using z(1) by (simp add: pg_auth_view_sel)
    then have "pt_user_id z \<noteq> i" unfolding v by (auto simp: without_def split: option.splits if_splits)
    moreover have "pg_auth_ok penv (sv_repo st')" using o by blast
    ultimately show ?thesis using pg_auth_okD(6) z(2,3) by auto
  qed
  then show "\<exists>hash x u. HashPassword env (rc_NewPassword req) = Some hash \<and>
      gget (pg_resets (sv_repo st)) (pe_digest penv (rc_Token req)) = Some x \<and>
      micros (ev_clock env 1) \<le> pt_expires_at x \<and>
      v_users (pg_auth_view penv (sv_repo st)) (pt_user_id x) = Some u \<and>
      v_users (pg_auth_view penv (sv_repo st')) =
        (v_users (pg_auth_view penv (sv_repo st)))(pt_user_id x \<mapsto> u\<lparr>u_PasswordHash := hash\<rparr>) \<and>
      (\<forall>penv' env' r' w. pe_digest penv' = pe_digest penv \<longrightarrow>
        RequireVerified (pgAuthOps penv') env' (sv_repo st') r' = Inr w \<longrightarrow> u_ID w \<noteq> pt_user_id x)"
    using w x unfolding v by (intro exI [of _ hash] exI [of _ x] exI [of _ u]) simp
qed

definition demoAuthDB :: pgDB where
  "demoAuthDB = fst (pg_CreateSession (demoPg 3 ''s'') (fst (pg_CreateReset (demoPg 2 ''r'')
     (fst (pg_CreateUser (demoPg 1 ''u1'') emptyDB ''a@x'' ''h'')) ''u1'' ''reset'' 9000))
     \<lparr>s_Token = ''t'', s_UserID = ''u1'', s_ExpiresAt = 9000\<rparr>)"

lemma demoPg_auth_ok: "pg_auth_ok (demoPg s j) db \<Longrightarrow> pg_auth_ok (demoPg t i) db"
  by (rule pg_auth_ok_digest) (simp_all add: demoPg_def)

lemma demoAuthDB_ok: "pg_auth_ok (demoPg t i) demoAuthDB"
proof -
  have 1: "pg_auth_ok (demoPg 1 ''u1'') emptyDB" by (simp add: pg_auth_ok_def emptyDB_def demoPg_def inj_on_def)
  have 2: "pg_auth_ok (demoPg 1 ''u1'') (fst (pg_CreateUser (demoPg 1 ''u1'') emptyDB ''a@x'' ''h''))" (is "pg_auth_ok _ ?b")
    by (rule pgAuth.CreateUser [OF 1, THEN conjunct1]) (simp add: pgAuthOps_def prod_eq_iff)
  have 3: "pg_auth_ok (demoPg 2 ''r'') (fst (pg_CreateReset (demoPg 2 ''r'') ?b ''u1'' ''reset'' 9000))" (is "pg_auth_ok _ ?c")
    by (rule pgAuth.CreateReset [OF demoPg_auth_ok [OF 2], THEN conjunct1]) (simp add: pgAuthOps_def prod_eq_iff)
  have "pg_auth_ok (demoPg 3 ''s'') demoAuthDB"
    unfolding demoAuthDB_def
    by (rule pgAuth.CreateSession [OF demoPg_auth_ok [OF 3], THEN conjunct1]) (simp add: pgAuthOps_def prod_eq_iff)
  then show ?thesis by (rule demoPg_auth_ok)
qed

definition demoPgSvc :: "pgDB authSvc" where
  "demoPgSvc = snd (NewAuthService demoAuthDB sampleCfg)"

theorem pg_reset_logs_out_everywhere_witness:
  "\<exists>st'. fst (handleResetConfirm (pgAuthOps (demoPg 4 ''y'')) sampleCfg sampleEnv demoPgSvc sampleReq
      (Some \<lparr>rc_Token = ''reset'', rc_NewPassword = ''anotherone''\<rparr>)) = st' \<and>
     (\<forall>penv' env' r' w. pe_digest penv' = pe_digest (demoPg 4 ''y'') \<longrightarrow>
       RequireVerified (pgAuthOps penv') env' (sv_repo st') r' = Inr w \<longrightarrow> u_ID w \<noteq> ''u1'')"
proof -
  let ?req = "\<lparr>rc_Token = ''reset'', rc_NewPassword = ''anotherone''\<rparr>" and ?penv = "demoPg 4 ''y''"
  let ?out = "handleResetConfirm (pgAuthOps ?penv) sampleCfg sampleEnv demoPgSvc sampleReq (Some ?req)"
  have db: "sv_repo demoPgSvc = demoAuthDB" by (simp add: demoPgSvc_def NewAuthService_def Let_def)
  have i: "pg_auth_ok ?penv (sv_repo demoPgSvc)" unfolding db by (rule demoAuthDB_ok)
  have s: "ap_status (snd ?out) = 200" by code_simp
  have t: "map_option pt_user_id (gget (pg_resets demoAuthDB) (pe_digest ?penv ''reset'')) = Some ''u1''" by code_simp
  obtain st' resp where o: "?out = (st', resp)" by (cases ?out) blast
  have "ap_status resp = 200" using s unfolding o snd_conv .
  with pg_reset_logs_out_everywhere [OF i o] obtain x where
    x: "gget (pg_resets (sv_repo demoPgSvc)) (pe_digest ?penv (rc_Token ?req)) = Some x"
    "\<forall>penv' env' r' w. pe_digest penv' = pe_digest ?penv \<longrightarrow>
        RequireVerified (pgAuthOps penv') env' (sv_repo st') r' = Inr w \<longrightarrow> u_ID w \<noteq> pt_user_id x" by blast
  have "pt_user_id x = ''u1''" using t x(1) by (simp add: db)
  then show ?thesis using x(2) o by simp
qed

section \<open>The constraints of the seeker's tables\<close>

text \<open>
  What migrations 0001 and 0009 ask of the tables of the seeker: primary keys (in \<open>pg_m5_ok\<close>),
  \<open>UNIQUE (user_id, name)\<close> on filters and snippets, \<open>UNIQUE (user_id, job_id)\<close> and the \<open>CHECK\<close>
  of the status on applications, and the foreign keys to accounts and listings (in \<open>pg_wf\<close>).
\<close>

definition one_per_name :: "pgDB \<Rightarrow> bool" where
  "one_per_name db \<longleftrightarrow> uniq_on (\<lambda>f. (sf_UserID f, sf_Name f)) (pg_filters db) \<and>
     uniq_on (\<lambda>x. (sn_UserID x, sn_Name x)) (pg_snips db) \<and>
     uniq_on (\<lambda>a. (pa_user_id a, pa_job_id a)) (pg_apps db)"

definition status_checked :: "pgDB \<Rightarrow> bool" where
  "status_checked db \<longleftrightarrow> (\<forall>k a. gget (pg_apps db) k = Some a \<longrightarrow> validStatus (pa_status a))"

definition pg_seeker_ok :: "pgDB \<Rightarrow> bool" where
  "pg_seeker_ok db \<longleftrightarrow> pg_wf db \<and> one_per_name db \<and> status_checked db"

definition kept_in :: "('k, 'r) gomap \<Rightarrow> ('k, 'r) gomap \<Rightarrow> bool" where
  "kept_in m' m \<longleftrightarrow> (\<forall>k r. gget m' k = Some r \<longrightarrow> gget m k = Some r)"

lemma kept_in_simps [simp]: "kept_in m m" "kept_in (gdel k m) m"
  by (auto simp: kept_in_def split: if_splits)

lemma kept_in_del_if [simp]: "gok m \<Longrightarrow> kept_in (gdel_if P m) m"
  by (auto simp: kept_in_def gget_del_if split: option.splits if_splits)

lemma kept_in_trans: "kept_in a b \<Longrightarrow> kept_in b c \<Longrightarrow> kept_in a c"
  by (simp add: kept_in_def)

lemma uniq_on_kept:
  assumes "uniq_on f m" "kept_in m' m" shows "uniq_on f m'"
  unfolding uniq_on_def
proof (intro allI impI)
  fix i j x y assume a: "gget m' i = Some x" "gget m' j = Some y" and e: "f x = f y"
  from a have "gget m i = Some x" "gget m j = Some y" using assms(2) unfolding kept_in_def by iprover+
  then show "i = j" using e by (rule uniq_onD [OF assms(1)])
qed

lemma seeker_okD:
  assumes "pg_seeker_ok db"
  shows "pg_wf db" "pg_m5_ok db" "gok (pg_filters db)" "gok (pg_states db)" "gok (pg_apps db)" "gok (pg_snips db)"
    "uniq_on (\<lambda>f. (sf_UserID f, sf_Name f)) (pg_filters db)" "uniq_on (\<lambda>x. (sn_UserID x, sn_Name x)) (pg_snips db)"
    "uniq_on (\<lambda>a. (pa_user_id a, pa_job_id a)) (pg_apps db)"
    "gget (pg_apps db) k = Some a \<Longrightarrow> validStatus (pa_status a)"
  using assms wf_D(12,14-17) [of db] by (auto simp: pg_seeker_ok_def one_per_name_def status_checked_def keyed_def)

text \<open>Rows that go leave nothing behind that could break a constraint.\<close>

definition fewer_rows :: "pgDB \<Rightarrow> pgDB \<Rightarrow> bool" where
  "fewer_rows db' db \<longleftrightarrow> kept_in (pg_filters db') (pg_filters db) \<and> kept_in (pg_snips db') (pg_snips db) \<and>
     kept_in (pg_apps db') (pg_apps db)"

lemma fewer_ok: "pg_seeker_ok db \<Longrightarrow> pg_wf db' \<Longrightarrow> fewer_rows db' db \<Longrightarrow> pg_seeker_ok db'"
proof -
  assume ok: "pg_seeker_ok db" and wf: "pg_wf db'" and k: "fewer_rows db' db"
  have "one_per_name db'"
    using k uniq_on_kept [OF seeker_okD(7) [OF ok]] uniq_on_kept [OF seeker_okD(8) [OF ok]] uniq_on_kept [OF seeker_okD(9) [OF ok]]
    by (simp add: one_per_name_def fewer_rows_def)
  moreover have "validStatus (pa_status a)" if "gget (pg_apps db') i = Some a" for i a
  proof -
    have "gget (pg_apps db) i = Some a" using k that by (simp add: fewer_rows_def kept_in_def)
    then show ?thesis by (rule seeker_okD(10) [OF ok])
  qed
  ultimately show "pg_seeker_ok db'" using wf by (simp add: pg_seeker_ok_def status_checked_def)
qed

lemma fewer_refl [simp]: "fewer_rows db db"
  by (simp add: fewer_rows_def)

lemma filter_put_ok:
  assumes "pg_seeker_ok db" "pg_wf (db\<lparr>pg_filters := gput i f (pg_filters db)\<rparr>)"
    "\<And>j g. gget (pg_filters db) j = Some g \<Longrightarrow> sf_UserID g = sf_UserID f \<Longrightarrow> sf_Name g = sf_Name f \<Longrightarrow> j = i"
  shows "pg_seeker_ok (db\<lparr>pg_filters := gput i f (pg_filters db)\<rparr>)"
proof -
  have "uniq_on (\<lambda>f. (sf_UserID f, sf_Name f)) (gput i f (pg_filters db))"
    by (rule uniq_on_put [OF seeker_okD(7) [OF assms(1)]]) (use assms(3) in simp)
  then show ?thesis using assms(1,2) by (simp add: pg_seeker_ok_def one_per_name_def status_checked_def)
qed

lemma snip_put_ok:
  assumes "pg_seeker_ok db" "pg_wf (db\<lparr>pg_snips := gput i x (pg_snips db)\<rparr>)"
    "\<And>j y. gget (pg_snips db) j = Some y \<Longrightarrow> sn_UserID y = sn_UserID x \<Longrightarrow> sn_Name y = sn_Name x \<Longrightarrow> j = i"
  shows "pg_seeker_ok (db\<lparr>pg_snips := gput i x (pg_snips db)\<rparr>)"
proof -
  have "uniq_on (\<lambda>x. (sn_UserID x, sn_Name x)) (gput i x (pg_snips db))"
    by (rule uniq_on_put [OF seeker_okD(8) [OF assms(1)]]) (use assms(3) in simp)
  then show ?thesis using assms(1,2) by (simp add: pg_seeker_ok_def one_per_name_def status_checked_def)
qed

lemma app_put_ok:
  assumes "pg_seeker_ok db" "pg_wf (db\<lparr>pg_apps := gput i a (pg_apps db)\<rparr>)" "validStatus (pa_status a)"
    "\<And>j b. gget (pg_apps db) j = Some b \<Longrightarrow> pa_user_id b = pa_user_id a \<Longrightarrow> pa_job_id b = pa_job_id a \<Longrightarrow> j = i"
  shows "pg_seeker_ok (db\<lparr>pg_apps := gput i a (pg_apps db)\<rparr>)"
proof -
  have "uniq_on (\<lambda>a. (pa_user_id a, pa_job_id a)) (gput i a (pg_apps db))"
    by (rule uniq_on_put [OF seeker_okD(9) [OF assms(1)]]) (use assms(4) in simp)
  moreover have "validStatus (pa_status b)" if "gget (gput i a (pg_apps db)) j = Some b" for j b
    using that assms(3) seeker_okD(10) [OF assms(1)] by (cases "j = i") auto
  ultimately show ?thesis using assms(1,2) by (simp add: pg_seeker_ok_def one_per_name_def status_checked_def)
qed

text \<open>Every write of the seeker store keeps the constraints.\<close>

lemma no_row: "gok m \<Longrightarrow> \<not> list_ex P (gvals m) \<Longrightarrow> gget m i = Some h \<Longrightarrow> \<not> P h"
  using gvals_ex [of m P] by auto

lemma seeker_filters:
  assumes ok: "pg_seeker_ok db"
  shows "pg_seeker_ok (fst (pg_CreateSavedFilter env db f))" "pg_seeker_ok (fst (pg_DeleteSavedFilter env db i c))"
    "pg_seeker_ok (fst (pg_TouchSavedFilter env db i c t))" "pg_seeker_ok (fst (pg_SetJobState env db i s))"
proof -
  note wf = step_filters [OF seeker_okD(1) [OF ok]]
  show "pg_seeker_ok (fst (pg_CreateSavedFilter env db f))"
  proof (cases "fst (pg_CreateSavedFilter env db f) = db")
    case False
    let ?n = "trim_space (sf_Name f)"
    have no: "\<not> list_ex (\<lambda>h. sf_UserID h = sf_UserID f \<and> sf_Name h = ?n) (gvals (pg_filters db))"
      and put: "fst (pg_CreateSavedFilter env db f) = db\<lparr>pg_filters := gput (pe_uuid env)
        \<lparr>sf_ID = pe_uuid env, sf_UserID = sf_UserID f, sf_Name = ?n, sf_Query = sf_Query f,
         sf_CreatedAt = stamp_now env, sf_LastAlertedAt = None\<rparr> (pg_filters db)\<rparr>"
      using False by (auto simp: pg_CreateSavedFilter_def Let_def split: if_splits)
    show ?thesis unfolding put
      by (rule filter_put_ok [OF ok wf(1) [of env f, unfolded put]]) (use no_row [OF seeker_okD(3) [OF ok] no] in auto)
  qed (use ok in simp)
  show "pg_seeker_ok (fst (pg_DeleteSavedFilter env db i c))"
    by (rule fewer_ok [OF ok wf(2)])
      (simp add: pg_DeleteSavedFilter_def m5exec_def fewer_rows_def split: option.split)
  show "pg_seeker_ok (fst (pg_TouchSavedFilter env db i c t))"
  proof (cases "fst (pg_TouchSavedFilter env db i c t) = db")
    case False
    then obtain g where g: "gget (pg_filters db) c = Some g"
      and put: "fst (pg_TouchSavedFilter env db i c t) = db\<lparr>pg_filters := gput c (g\<lparr>sf_LastAlertedAt := Some (micros t)\<rparr>) (pg_filters db)\<rparr>"
      by (auto simp: pg_TouchSavedFilter_def m5exec_def of_user_def split: option.splits if_splits)
    have "j = c" if "gget (pg_filters db) j = Some h" "sf_UserID h = sf_UserID g" "sf_Name h = sf_Name g" for j h
      by (rule uniq_onD [OF seeker_okD(7) [OF ok] that(1) g]) (use that(2,3) in simp)
    then show ?thesis unfolding put
      by (intro filter_put_ok [OF ok wf(3) [of env i c t, unfolded put]]) simp
  qed (use ok in simp)
  show "pg_seeker_ok (fst (pg_SetJobState env db i s))"
    by (rule fewer_ok [OF ok wf(4)]) (simp add: pg_SetJobState_def Let_def fewer_rows_def)
qed

lemma seeker_snips:
  assumes ok: "pg_seeker_ok db"
  shows "pg_seeker_ok (fst (pg_CreateSnippet env db x))" "pg_seeker_ok (fst (pg_UpdateSnippet env db i x))"
    "pg_seeker_ok (fst (pg_DeleteSnippet env db i c))"
proof -
  note wf = step_snips [OF seeker_okD(1) [OF ok]]
  let ?n = "trim_space (sn_Name x)"
  show "pg_seeker_ok (fst (pg_CreateSnippet env db x))"
  proof (cases "fst (pg_CreateSnippet env db x) = db")
    case False
    have no: "\<not> list_ex (\<lambda>z. sn_UserID z = sn_UserID x \<and> sn_Name z = ?n) (gvals (pg_snips db))"
      and put: "fst (pg_CreateSnippet env db x) = db\<lparr>pg_snips := gput (pe_uuid env)
        \<lparr>sn_ID = pe_uuid env, sn_UserID = sn_UserID x, sn_Name = ?n, sn_Body = sn_Body x,
         sn_CreatedAt = stamp_now env, sn_UpdatedAt = stamp_now env\<rparr> (pg_snips db)\<rparr>"
      using False by (auto simp: pg_CreateSnippet_def Let_def split: if_splits)
    show ?thesis unfolding put
      by (rule snip_put_ok [OF ok wf(1) [of env x, unfolded put]]) (use no_row [OF seeker_okD(6) [OF ok] no] in auto)
  qed (use ok in simp)
  show "pg_seeker_ok (fst (pg_UpdateSnippet env db i x))"
  proof (cases "fst (pg_UpdateSnippet env db i x) = db")
    case False
    then obtain z where o: "of_user sn_UserID i (gget (pg_snips db) (sn_ID x)) = Some z"
      by (auto simp: pg_UpdateSnippet_def Let_def split: option.splits if_splits)
    then have z: "gget (pg_snips db) (sn_ID x) = Some z" "sn_UserID z = i" by (simp_all add: of_user_Some)
    have no: "\<not> list_ex (\<lambda>w. sn_ID w \<noteq> sn_ID x \<and> sn_UserID w = i \<and> sn_Name w = ?n) (gvals (pg_snips db))"
      and put: "fst (pg_UpdateSnippet env db i x) = db\<lparr>pg_snips := gput (sn_ID x)
        (z\<lparr>sn_Name := ?n, sn_Body := sn_Body x, sn_UpdatedAt := stamp_now env\<rparr>) (pg_snips db)\<rparr>"
      using False o by (auto simp: pg_UpdateSnippet_def Let_def split: if_splits)
    have k: "sn_ID y = j" if "gget (pg_snips db) j = Some y" for j y
      by (rule keyedD(2) [OF wf_D(17) [OF seeker_okD(1) [OF ok]] that])
    show ?thesis unfolding put
      by (rule snip_put_ok [OF ok wf(2) [of env i x, unfolded put]])
        (use no_row [OF seeker_okD(6) [OF ok] no] z(2) k in auto)
  qed (use ok in simp)
  show "pg_seeker_ok (fst (pg_DeleteSnippet env db i c))"
    by (rule fewer_ok [OF ok wf(3)])
      (simp add: pg_DeleteSnippet_def m5exec_def fewer_rows_def split: option.split)
qed

lemma seeker_apps:
  assumes ok: "pg_seeker_ok db"
  shows "pg_seeker_ok (fst (pg_CreateApplication env db a))" "pg_seeker_ok (fst (pg_UpdateApplication env db i a))"
proof -
  note wf = step_apps [OF seeker_okD(1) [OF ok]]
  show "pg_seeker_ok (fst (pg_CreateApplication env db a))"
  proof (cases "fst (pg_CreateApplication env db a) = db")
    case False
    let ?x = "\<lambda>j. \<lparr>pa_id = pe_uuid env, pa_user_id = ap_UserID a, pa_job_id = pj_id j, pa_status = ap_Status a,
         pa_created_at = stamp_now env, pa_updated_at = stamp_now env\<rparr>"
    obtain j where J: "find (\<lambda>j. j_DedupKey (pj_job j) = ap_JobKey a) (gvals (pg_jobs db)) = Some j"
      using False by (cases "find (\<lambda>j. j_DedupKey (pj_job j) = ap_JobKey a) (gvals (pg_jobs db))") (auto simp: pg_CreateApplication_def)
    have "find (\<lambda>x. pa_user_id x = ap_UserID a \<and> pa_job_id x = pj_id j) (gvals (pg_apps db)) = None \<and> validStatus (ap_Status a) \<and>
        fst (pg_CreateApplication env db a) = db\<lparr>pg_apps := gput (pe_uuid env) (?x j) (pg_apps db)\<rparr>"
      using False J by (cases "find (\<lambda>x. pa_user_id x = ap_UserID a \<and> pa_job_id x = pj_id j) (gvals (pg_apps db))")
        (auto simp: pg_CreateApplication_def Let_def split: if_splits)
    then have no: "find (\<lambda>x. pa_user_id x = ap_UserID a \<and> pa_job_id x = pj_id j) (gvals (pg_apps db)) = None"
      and v: "validStatus (ap_Status a)"
      and put: "fst (pg_CreateApplication env db a) = db\<lparr>pg_apps := gput (pe_uuid env)
        (?x j) (pg_apps db)\<rparr>"
      by simp_all
    show ?thesis unfolding put
      by (rule app_put_ok [OF ok wf(1) [of env a, unfolded put]]) (use v find_none [OF seeker_okD(5) [OF ok] no] in auto)
  qed (use ok in simp)
  show "pg_seeker_ok (fst (pg_UpdateApplication env db i a))"
  proof (cases "fst (pg_UpdateApplication env db i a) = db")
    case False
    then obtain x where o: "of_user pa_user_id i (gget (pg_apps db) (ap_ID a)) = Some x"
      by (auto simp: pg_UpdateApplication_def Let_def split: option.splits if_splits)
    then have x: "gget (pg_apps db) (ap_ID a) = Some x" by (simp add: of_user_Some)
    have v: "validStatus (ap_Status a)"
      and put: "fst (pg_UpdateApplication env db i a) = db\<lparr>pg_apps := gput (ap_ID a)
        (x\<lparr>pa_status := ap_Status a, pa_updated_at := stamp_now env\<rparr>) (pg_apps db)\<rparr>"
      using False o by (auto simp: pg_UpdateApplication_def Let_def split: if_splits)
    have "j = ap_ID a" if "gget (pg_apps db) j = Some y" "pa_user_id y = pa_user_id x" "pa_job_id y = pa_job_id x" for j y
      by (rule uniq_onD [OF seeker_okD(9) [OF ok] that(1) x]) (use that(2,3) in simp)
    then show ?thesis unfolding put
      by (intro app_put_ok [OF ok wf(2) [of env i a, unfolded put]]) (simp_all add: v)
  qed (use ok in simp)
qed

lemma seeker_erase:
  assumes ok: "pg_seeker_ok db" shows "pg_seeker_ok (fst (pg_m5_DeleteUser env db i))"
proof (rule fewer_ok [OF ok step_erase [OF seeker_okD(1) [OF ok]]])
  show "fewer_rows (fst (pg_m5_DeleteUser env db i)) db"
    using seeker_okD(3,5,6) [OF ok] by (simp add: pg_m5_DeleteUser_def fewer_rows_def)
qed

lemmas seeker_writes = seeker_filters seeker_snips seeker_apps seeker_erase

text \<open>So does every other write of the stores: none of them touches these tables but a cascade.\<close>

lemma others_fewer:
  assumes "pg_step env db db'" "pg_wf db"
  shows "fewer_rows db' db \<or> (pg_seeker_ok db \<longrightarrow> pg_seeker_ok db')"
  using assms(1)
proof cases
  case ps_DeleteUser
  have "gok (pg_filters db)" "gok (pg_snips db)" "gok (pg_apps db)" using wf_D(14-17) [OF assms(2)] by (simp_all add: keyed_def)
  then show ?thesis unfolding ps_DeleteUser
    by (simp add: pg_DeleteUser_def execAffecting_def pg_cascade_def fewer_rows_def split: option.split)
next
  case (ps_UpdateVersion i c l pr)
  obtain x r where p: "pg_UpdateVersion env db i c l pr = (x, r)" by fastforce
  obtain m where "x = db\<lparr>pg_cvs := m\<rparr>" using pg_UpdateVersion_ok [OF wf_D(11) [OF assms(2)] p] by blast
  then show ?thesis unfolding ps_UpdateVersion p by (simp add: fewer_rows_def)
qed (simp_all add: seeker_writes fewer_rows_def set_user_def execAffecting_def Let_def pg_CreateUser_def pg_SetVerified_def
    pg_SetConsent_def pg_UpdatePassword_def pg_CreateVerification_def pg_VerifyUser_def pg_CreateSession_def pg_DeleteSession_def
    pg_CreateReset_def pg_ResetPassword_def pg_CreateFile_def pg_DeleteByUser_def pg_prof_Save_def pg_prof_Delete_def
    pg_Upsert_def pg_SweepStale_def split: option.split)

lemma reach_seeker_ok: "pg_reach db \<Longrightarrow> pg_seeker_ok db"
proof (induction rule: pg_reach.induct)
  case pg_empty
  then show ?case using wf_empty by (simp add: pg_seeker_ok_def one_per_name_def status_checked_def emptyDB_def)
next
  case (pg_then db env db')
  then show ?case using others_fewer [OF pg_then(2) seeker_okD(1)] fewer_ok step_wf [OF pg_then(2) seeker_okD(1)] by blast
qed

text \<open>The contract of the store with all these constraints as its invariant.\<close>

interpretation pgSeek: m5_store "pgM5Ops env" pg_seeker_ok pg_m5_view "\<lambda>k. k" "(=)" micros
proof (unfold_locales, goal_cases)
  case (1 s u s')
  then show ?case using pgM5.DeleteUser [OF seeker_okD(2) [OF 1(1)] 1(2,3)] seeker_erase [OF 1(1), of env u] by (simp add: pgM5Ops_def)
next
  case (2 s u i f) then show ?case using pgM5.GetSavedFilter [OF seeker_okD(2)] by blast
next
  case (3 s f s' g)
  have "pg_seeker_ok s'" using seeker_filters(1) [OF 3(1), of env f] 3(3) by (simp add: pgM5Ops_def)
  then show ?case by (rule conjI [OF _ conjunct2 [OF pgM5.CreateSavedFilter_ok [OF seeker_okD(2) [OF 3(1)] 3(2,3)]]])
next
  case (4 s f s' e)
  then show ?case using pgM5.CreateSavedFilter_err [OF seeker_okD(2) [OF 4(1)] 4(2)] seeker_filters(1) [OF 4(1), of env f]
    by (simp add: pgM5Ops_def)
next
  case (5 s u i s' r)
  then show ?case using pgM5.DeleteSavedFilter [OF seeker_okD(2) [OF 5(1)] 5(2)] seeker_filters(2) [OF 5(1), of env u i]
    by (simp add: pgM5Ops_def)
next
  case (6 s u i t s' r)
  then show ?case using pgM5.TouchSavedFilter [OF seeker_okD(2) [OF 6(1)] 6(2)] seeker_filters(3) [OF 6(1), of env u i t]
    by (simp add: pgM5Ops_def)
next
  case (7 s u k st) then show ?case using pgM5.GetJobState [OF seeker_okD(2)] by blast
next
  case (8 s u st s' st2)
  then show ?case using pgM5.SetJobState_ok [OF seeker_okD(2) [OF 8(1)] 8(2,3)] seeker_filters(4) [OF 8(1), of env u st]
    by (simp add: pgM5Ops_def)
next
  case (9 s u st s' e)
  then show ?case using pgM5.SetJobState_err [OF seeker_okD(2) [OF 9(1)] 9(2)] seeker_filters(4) [OF 9(1), of env u st]
    by (simp add: pgM5Ops_def)
next
  case (10 s u i a) then show ?case using pgM5.GetApplication [OF seeker_okD(2)] by blast
next
  case (11 s a s' b)
  then show ?case using pgM5.CreateApplication_ok [OF seeker_okD(2) [OF 11(1)] 11(2,3)] seeker_apps(1) [OF 11(1), of env a]
    by (simp add: pgM5Ops_def)
next
  case (12 s a s' e)
  then show ?case using pgM5.CreateApplication_err [OF seeker_okD(2) [OF 12(1)] 12(2)] seeker_apps(1) [OF 12(1), of env a]
    by (simp add: pgM5Ops_def)
next
  case (13 s u a s' b)
  then show ?case using pgM5.UpdateApplication_ok [OF seeker_okD(2) [OF 13(1)] 13(2)] seeker_apps(2) [OF 13(1), of env u a]
    by (simp add: pgM5Ops_def)
next
  case (14 s u a s' e)
  then show ?case using pgM5.UpdateApplication_err [OF seeker_okD(2) [OF 14(1)] 14(2)] seeker_apps(2) [OF 14(1), of env u a]
    by (simp add: pgM5Ops_def)
next
  case (15 s x s' y)
  then show ?case using pgM5.CreateSnippet_ok [OF seeker_okD(2) [OF 15(1)] 15(2,3)] seeker_snips(1) [OF 15(1), of env x]
    by (simp add: pgM5Ops_def)
next
  case (16 s x s' e)
  then show ?case using pgM5.CreateSnippet_err [OF seeker_okD(2) [OF 16(1)] 16(2)] seeker_snips(1) [OF 16(1), of env x]
    by (simp add: pgM5Ops_def)
next
  case (17 s u x s' y)
  then show ?case using pgM5.UpdateSnippet_ok [OF seeker_okD(2) [OF 17(1)] 17(2)] seeker_snips(2) [OF 17(1), of env u x]
    by (simp add: pgM5Ops_def)
next
  case (18 s u x s' e)
  then show ?case using pgM5.UpdateSnippet_err [OF seeker_okD(2) [OF 18(1)] 18(2)] seeker_snips(2) [OF 18(1), of env u x]
    by (simp add: pgM5Ops_def)
next
  case (19 s u i s' r)
  then show ?case using pgM5.DeleteSnippet [OF seeker_okD(2) [OF 19(1)] 19(2)] seeker_snips(3) [OF 19(1), of env u i]
    by (simp add: pgM5Ops_def)
qed

section \<open>The seeker's data\<close>

text \<open>A sequence of requests, each with the statements that run for it and its clock and ids.\<close>

definition pg_m5_run :: "m5Env \<Rightarrow> pgDB m5Svc \<Rightarrow> (pgEnv \<times> user option \<times> m5Call) list \<Rightarrow> pgDB m5Svc" where
  "pg_m5_run env st reqs = foldl (\<lambda>s (penv, ctx, c). m5_call (pgM5Ops penv) env s ctx c) st reqs"

lemma pg_m5_run_simps [simp]:
  "pg_m5_run env st [] = st"
  "pg_m5_run env st ((penv, ctx, c) # reqs) = pg_m5_run env (m5_call (pgM5Ops penv) env st ctx c) reqs"
  by (simp_all add: pg_m5_run_def)

lemma pg_call_good:
  assumes "pg_seeker_ok (ms5_store st)" "issued (ctx, c)"
  shows "good_step pg_seeker_ok pg_m5_view (case ctx of None \<Rightarrow> [] | Some u \<Rightarrow> u_ID u) (ms5_store st)
    (ms5_store (m5_call (pgM5Ops penv) env st ctx c))"
proof (cases ctx)
  case None
  then show ?thesis using assms(1) pgSeek.no_user_call by (simp add: good_step_same)
next
  case (Some u)
  then show ?thesis using assms pgSeek.good_call [of st u penv env c] by (simp add: issued_def)
qed

lemma pg_call_same_user:
  assumes "pg_seeker_ok (ms5_store st)" "issued (ctx, c)" "uid_ok w" "from_others w (ctx, c)"
  shows "same_user w (pg_m5_view (ms5_store st)) (pg_m5_view (ms5_store (m5_call (pgM5Ops penv) env st ctx c)))"
proof (cases ctx)
  case None then show ?thesis using pgSeek.no_user_call by simp
next
  case (Some u)
  then show ?thesis using pg_call_good [OF assms(1,2)] assms(3,4) by (simp add: good_step_def from_others_def)
qed

text \<open>
  C24: On the production database too, requests of others cannot touch a user's data, and an
  application cannot be moved back. Whatever sequence of requests is served, with any of their
  statements failing, the constraints the schema puts on these tables keep holding (primary
  keys, one filter and one snippet per user and name, one application per user and listing, the
  statuses allowed, references to accounts and listings that are there), no application is lost, changes owner
  or listing or returns to form_filled, and whoever sent none of the requests keeps every saved
  filter, job state, application and snippet as it was.
\<close>

theorem pg_seeker_safe:
  assumes "pg_seeker_ok (ms5_store st)" "list_all (\<lambda>(_, r). issued r) reqs"
  shows "pg_seeker_ok (ms5_store (pg_m5_run env st reqs)) \<and>
    app_step (app_of (ms5_store st)) (app_of (ms5_store (pg_m5_run env st reqs))) \<and>
    (uid_ok w \<longrightarrow> list_all (\<lambda>(_, r). from_others w r) reqs \<longrightarrow>
       same_user w (pg_m5_view (ms5_store st)) (pg_m5_view (ms5_store (pg_m5_run env st reqs))))"
  using assms
proof (induction reqs arbitrary: st)
  case (Cons r reqs)
  obtain penv ctx c where r: "r = (penv, ctx, c)" by (cases r) auto
  let ?s = "m5_call (pgM5Ops penv) env st ctx c"
  have iss: "issued (ctx, c)" using Cons.prems(2) r by simp
  have g: "pg_seeker_ok (ms5_store ?s)" "app_step (app_of (ms5_store st)) (app_of (ms5_store ?s))"
    using pg_call_good [OF Cons.prems(1) iss, of penv env] by (simp_all add: good_step_def)
  note h = Cons.IH [OF g(1)]
  show ?case
    using h Cons.prems app_step_trans [OF g(2)] pg_call_same_user [OF Cons.prems(1) iss, of w penv env] same_user_trans
    by (auto simp: r)
qed (simp add: same_user_def)

definition demoSeekDB :: "pgDB m5Svc" where
  "demoSeekDB = \<lparr>ms5_store = fst (pg_CreateUser (demoPg 2 ''u1'') (fst (pg_Upsert (demoPg 1 ''j1'') emptyDB sampleJob)) ''a@x'' ''h''),
     ms5_sent = [], ms5_ticks = 0\<rparr>"

definition demoPgReqs :: "(pgEnv \<times> user option \<times> m5Call) list" where
  "demoPgReqs = [(demoPg 3 ''a1'', Some (demo_user ''u1''), CCreateApp (Some \<lparr>aq_JobID = ''k1'', aq_Status = []\<rparr>)),
     (demoPg 4 ''a2'', Some (demo_user ''u2''), CConfirm ''a1''), (demoPg 5 ''a3'', Some (demo_user ''u1''), CConfirm ''a1''),
     ((demoPg 6 ''a4'')\<lparr>pe_run := (\<lambda>_ _. False)\<rparr>, Some (demo_user ''u1''), CConfirm ''a1'')]"

theorem pg_seeker_safe_witness:
  "map_option ap_Status (app_of (ms5_store (pg_m5_run (demo_env []) demoSeekDB demoPgReqs)) ''a1'') = Some StatusSubmitted \<and>
   same_user ''u3'' (pg_m5_view (ms5_store demoSeekDB)) (pg_m5_view (ms5_store (pg_m5_run (demo_env []) demoSeekDB demoPgReqs)))"
proof -
  have "pg_reach (ms5_store demoSeekDB)"
    unfolding demoSeekDB_def m5Svc.simps by (rule pg_then [OF _ ps_CreateUser] pg_then [OF _ ps_Upsert] pg_empty)+
  from reach_seeker_ok [OF this] have ok: "pg_seeker_ok (ms5_store demoSeekDB)" .
  have i: "list_all (\<lambda>(_, r). issued r) demoPgReqs" "uid_ok ''u3''" "list_all (\<lambda>(_, r). from_others ''u3'' r) demoPgReqs"
    by code_simp+
  have s: "map_option ap_Status (app_of (ms5_store (pg_m5_run (demo_env []) demoSeekDB demoPgReqs)) ''a1'') = Some StatusSubmitted"
    by code_simp
  show ?thesis using pg_seeker_safe [OF ok i(1), of "demo_env []" "''u3''"] i(2,3) s by blast
qed

section \<open>Duplicate names\<close>

text \<open>
  The unnamed constraints on the names of filters and snippets have the names Postgres gives
  them, which are not the names the store looks for: a duplicate is not reported as one.
\<close>

definition pgDupText :: "string \<Rightarrow> string list \<Rightarrow> string" where
  "pgDupText tbl cols = ''ERROR: duplicate key value violates unique constraint '' @ [CHR 0x22] @ tbl @
     concat (map (\<lambda>c. ''_'' @ c) cols) @ ''_key'' @ [CHR 0x22] @ '' (SQLSTATE 23505)''"

lemma duplicate_names_unreported:
  "snd (pg_CreateSavedFilter ((demoPg 5 ''f2'')\<lparr>pe_dup := pgDupText\<rparr>)
     (fst (pg_CreateSavedFilter (demoPg 4 ''f1'') (ms5_store demoSeekDB) (newFilter ''u1'' ''n'' anyQuery)))
     (newFilter ''u1'' ''n'' anyQuery)) = Inl M5Other"
  "snippet_dup ((demoPg 5 ''f2'')\<lparr>pe_dup := pgDupText\<rparr>) = M5Other"
  by code_simp+

end
