(* ===== verification/Go_Redirect.thy ===== *)
theory Go_Redirect
  imports Go_Net
begin

text \<open>
  How the client of \<open>net/http\<close> follows redirects when it has no policy of its own: which
  answers it follows, to which URL, with which method, and whether the body and the sensitive
  headers (\<open>Authorization\<close>) go along. A body that was dropped stays dropped, and so do the
  sensitive headers.
\<close>

section \<open>One redirect\<close>

text \<open>An answer: its status, its \<open>Location\<close> (empty when there is none), and what the caller reads.\<close>

record 'a httpAnswer =
  ha_Status :: nat
  ha_Location :: string
  ha_Read :: 'a

record hop =
  hop_Method :: string
  hop_URL :: url
  hop_Sensitive :: bool
  hop_Body :: bool

text \<open>
  \<open>ne_target\<close> is path and query of a reference resolved against a URL, \<open>ne_ascii\<close> the ASCII form
  of a host name that is not ASCII.
\<close>

record redirectEnv =
  ne_target :: "url \<Rightarrow> string \<Rightarrow> string \<times> string"
  ne_ascii :: "string \<Rightarrow> string"

text \<open>\<open>URL.Parse\<close>: the reference names a host or a scheme of its own, or stays with those of the base.\<close>

definition url_resolve :: "redirectEnv \<Rightarrow> url \<Rightarrow> string \<Rightarrow> url option" where
  "url_resolve net base loc =
     (case url_parse loc of
        None \<Rightarrow> None
      | Some r \<Rightarrow>
          (let (path, query) = ne_target net base loc in
           if url_Scheme r \<noteq> [] \<or> url_Host r \<noteq> [] \<or> url_User r
           then Some (r\<lparr>url_Scheme := (if url_Scheme r = [] then url_Scheme base else url_Scheme r),
                        url_Path := path, url_RawQuery := query\<rparr>)
           else Some (base\<lparr>url_Path := path, url_RawQuery := query\<rparr>)))"

definition isDomainOrSubdomain :: "string \<Rightarrow> string \<Rightarrow> bool" where
  "isDomainOrSubdomain sub parent \<longleftrightarrow>
     sub = parent \<or>
     CHR '':'' \<notin> set sub \<and> CHR ''%'' \<notin> set sub \<and> has_suffix sub parent \<and>
       sub ! (length sub - length parent - 1) = CHR ''.''"

definition host_ascii :: "redirectEnv \<Rightarrow> url \<Rightarrow> string" where
  "host_ascii net u =
     (let h = url_Hostname u in if list_all (\<lambda>c. (of_char c :: int) < 128) h then h else ne_ascii net h)"

definition shouldCopyHeaders :: "redirectEnv \<Rightarrow> url \<Rightarrow> url \<Rightarrow> bool" where
  "shouldCopyHeaders net initial dest \<longleftrightarrow> isDomainOrSubdomain (host_ascii net dest) (host_ascii net initial)"

datatype redirection = Stay | BadLocation | Follow hop

text \<open>301, 302 and 303 become a GET without the body; 307 and 308 repeat the request.\<close>

definition redirectBehavior :: "redirectEnv \<Rightarrow> url \<Rightarrow> hop \<Rightarrow> 'a httpAnswer \<Rightarrow> redirection" where
  "redirectBehavior net initial q a =
     (if ha_Status a \<notin> {301, 302, 303, 307, 308} \<or> ha_Location a = [] then Stay
      else (case url_resolve net (hop_URL q) (ha_Location a) of
          None \<Rightarrow> BadLocation
        | Some u \<Rightarrow>
            (let repeat = (ha_Status a \<in> {307, 308}) in
             Follow \<lparr>hop_Method = (if \<not> repeat \<and> hop_Method q \<notin> {''GET'', ''HEAD''} then ''GET'' else hop_Method q),
               hop_URL = u,
               hop_Sensitive = (hop_Sensitive q \<and> (url_Host initial = url_Host u \<or> shouldCopyHeaders net initial u)),
               hop_Body = (hop_Body q \<and> repeat)\<rparr>)))"

section \<open>The whole call\<close>

text \<open>
  The client gives up when ten requests have been made. \<open>call\<close> answers the last of the requests
  made so far, or nothing when the request fails. The result has all requests, and the answer
  the caller gets.
\<close>

definition maxRequests :: nat where "maxRequests = 10"

function http_hops ::
  "redirectEnv \<Rightarrow> (hop list \<Rightarrow> 'a httpAnswer option) \<Rightarrow> hop list \<Rightarrow> hop \<Rightarrow> hop list \<times> 'a httpAnswer option" where
  "http_hops net call via q =
     (let reqs = via @ [q] in
      case call reqs of
        None \<Rightarrow> (reqs, None)
      | Some a \<Rightarrow> (case redirectBehavior net (hop_URL (hd reqs)) q a of
            Stay \<Rightarrow> (reqs, Some a)
          | BadLocation \<Rightarrow> (reqs, None)
          | Follow q' \<Rightarrow> if maxRequests \<le> length reqs then (reqs, None) else http_hops net call reqs q'))"
  by pat_completeness auto
termination by (relation "measure (\<lambda>(net, call, via, q). maxRequests - length via)") auto

declare http_hops.simps [simp del]

definition http_do :: "redirectEnv \<Rightarrow> (hop list \<Rightarrow> 'a httpAnswer option) \<Rightarrow> hop \<Rightarrow> hop list \<times> 'a httpAnswer option" where
  "http_do net call q = http_hops net call [] q"

section \<open>What the client may send\<close>

text \<open>A later request was asked for by the answer to the request before it.\<close>

definition follows ::
  "redirectEnv \<Rightarrow> (hop list \<Rightarrow> 'a httpAnswer option) \<Rightarrow> hop list \<Rightarrow> nat \<Rightarrow> bool" where
  "follows net call reqs k \<longleftrightarrow>
     (\<exists>a. call (take (Suc k) reqs) = Some a \<and> ha_Status a \<in> {301, 302, 303, 307, 308} \<and> ha_Location a \<noteq> [] \<and>
        url_resolve net (hop_URL (reqs ! k)) (ha_Location a) = Some (hop_URL (reqs ! Suc k)) \<and>
        (hop_Body (reqs ! Suc k) \<longrightarrow> hop_Body (reqs ! k) \<and> ha_Status a \<in> {307, 308} \<and>
           hop_Method (reqs ! Suc k) = hop_Method (reqs ! k)) \<and>
        (hop_Sensitive (reqs ! Suc k) \<longrightarrow> hop_Sensitive (reqs ! k) \<and>
           (url_Host (hop_URL (hd reqs)) = url_Host (hop_URL (reqs ! Suc k)) \<or>
            shouldCopyHeaders net (hop_URL (hd reqs)) (hop_URL (reqs ! Suc k)))))"

lemma redirect_followed:
  "redirectBehavior net initial q a = Follow q' \<Longrightarrow>
     ha_Status a \<in> {301, 302, 303, 307, 308} \<and> ha_Location a \<noteq> [] \<and>
     url_resolve net (hop_URL q) (ha_Location a) = Some (hop_URL q') \<and>
     (hop_Body q' \<longrightarrow> hop_Body q \<and> ha_Status a \<in> {307, 308} \<and> hop_Method q' = hop_Method q) \<and>
     (hop_Sensitive q' \<longrightarrow> hop_Sensitive q \<and> (url_Host initial = url_Host (hop_URL q') \<or> shouldCopyHeaders net initial (hop_URL q')))"
  unfolding redirectBehavior_def Let_def by (auto split: if_splits option.splits)

lemma follows_append: "Suc k < length xs \<Longrightarrow> follows net call (xs @ ys) k = follows net call xs k"
proof -
  assume k: "Suc k < length xs"
  then have "hd (xs @ ys) = hd xs" "(xs @ ys) ! k = xs ! k" "(xs @ ys) ! Suc k = xs ! Suc k" "take (Suc k) (xs @ ys) = take (Suc k) xs"
    by (auto simp: nth_append hd_append)
  then show ?thesis by (simp only: follows_def)
qed

lemma http_hops_chain:
  assumes "http_hops net call via q = (reqs, r)" "\<And>k. Suc k < length (via @ [q]) \<Longrightarrow> follows net call (via @ [q]) k"
    "length via < maxRequests"
  shows "prefix (via @ [q]) reqs \<and> length reqs \<le> maxRequests \<and> (\<forall>k. Suc k < length reqs \<longrightarrow> follows net call reqs k) \<and>
    (\<forall>a. r = Some a \<longrightarrow> call reqs = Some a \<and> redirectBehavior net (hop_URL (hd reqs)) (last reqs) a = Stay)"
  using assms
proof (induction net call via q rule: http_hops.induct)
  case (1 net call via q)
  let ?reqs = "via @ [q]"
  note run = "1.prems"(1) [unfolded http_hops.simps [of net call via q] Let_def]
  have stop: "reqs = ?reqs \<Longrightarrow> prefix ?reqs reqs \<and> length reqs \<le> maxRequests \<and> (\<forall>k. Suc k < length reqs \<longrightarrow> follows net call reqs k)"
    using "1.prems"(2,3) by simp
  show ?case
  proof (cases "call ?reqs")
    case None
    then show ?thesis using run stop by simp
  next
    case (Some a)
    show ?thesis
    proof (cases "redirectBehavior net (hop_URL (hd ?reqs)) q a")
      case Stay
      then show ?thesis using run Some stop by auto
    next
      case BadLocation
      then show ?thesis using run Some stop by simp
    next
      case (Follow q')
      show ?thesis
      proof (cases "maxRequests \<le> length ?reqs")
        case True
        then show ?thesis using run Some Follow stop by simp
      next
        case False
        have rec: "http_hops net call ?reqs q' = (reqs, r)" using run Some Follow False by simp
        have "follows net call (?reqs @ [q']) k" if k: "Suc k < length (?reqs @ [q'])" for k
        proof (cases "k = length via")
          case True
          then show ?thesis using redirect_followed [OF Follow] Some unfolding follows_def
            by (intro exI [of _ a], cases via) (auto simp: nth_append)
        next
          case False
          then have "Suc k < length ?reqs" using k by simp
          then show ?thesis using "1.prems"(2) [of k] follows_append [of k ?reqs net call "[q']"] by simp
        qed
        moreover have "length ?reqs < maxRequests" using False by simp
        ultimately have "prefix (?reqs @ [q']) reqs \<and> length reqs \<le> maxRequests \<and> (\<forall>k. Suc k < length reqs \<longrightarrow> follows net call reqs k) \<and>
            (\<forall>a. r = Some a \<longrightarrow> call reqs = Some a \<and> redirectBehavior net (hop_URL (hd reqs)) (last reqs) a = Stay)"
          by (intro "1.IH" [OF refl Some Follow False rec])
        then show ?thesis by (metis append_prefixD)
      qed
    qed
  qed
qed

lemma http_do_chain:
  assumes "http_do net call q = (reqs, r)"
  shows "reqs \<noteq> [] \<and> hd reqs = q \<and> length reqs \<le> maxRequests \<and> (\<forall>k. Suc k < length reqs \<longrightarrow> follows net call reqs k) \<and>
    (\<forall>a. r = Some a \<longrightarrow> call reqs = Some a \<and> redirectBehavior net (hop_URL q) (last reqs) a = Stay)"
proof -
  have "prefix ([] @ [q]) reqs \<and> length reqs \<le> maxRequests \<and> (\<forall>k. Suc k < length reqs \<longrightarrow> follows net call reqs k) \<and>
    (\<forall>a. r = Some a \<longrightarrow> call reqs = Some a \<and> redirectBehavior net (hop_URL (hd reqs)) (last reqs) a = Stay)"
    by (rule http_hops_chain [OF assms [unfolded http_do_def]]) (simp_all add: maxRequests_def)
  moreover from this have "reqs \<noteq> [] \<and> hd reqs = q" by (auto simp: prefix_def)
  ultimately show ?thesis by simp
qed

section \<open>A path added to a URL\<close>

lemma cut_found: "cut c s = (x, Some y) \<Longrightarrow> cut c (s @ t) = (x, Some (y @ t))"
  by (induction s arbitrary: x) (auto split: if_splits prod.splits)

lemma cut_absent: "cut c s = (x, None) \<Longrightarrow> x = s \<and> c \<notin> set s"
  by (induction s arbitrary: x) (auto split: if_splits prod.splits)

lemma cut_skip: "c \<notin> set s \<Longrightarrow> cut c (s @ t) = (s @ fst (cut c t), snd (cut c t))"
  by (induction s) (auto split: prod.split)

lemma cut_first_slash: "fst (cut c (s @ c # t)) = fst (cut c s)"
  by (induction s) (auto split: prod.split)

lemma scheme_len_append:
  "scheme_len s first = Some (Some n) \<Longrightarrow> scheme_len (s @ t) first = Some (Some n) \<and> n < length s"
  by (induction s first arbitrary: n rule: scheme_len.induct) (force split: if_splits option.splits)+

text \<open>The parts of \<open>url_parse\<close> after the fragment and after scheme and query are cut off.\<close>

definition url_of :: "string \<Rightarrow> string \<Rightarrow> string \<Rightarrow> url option" where
  "url_of scheme rest q =
     (let plain = (\<lambda>usr host path. map_option (\<lambda>p. \<lparr>url_Scheme = scheme, url_User = usr, url_Host = host,
                          url_Path = p, url_RawQuery = q\<rparr>) (path_unescape path))
      in if \<not> has_prefix rest ''/'' \<and> scheme \<noteq> []
         then Some \<lparr>url_Scheme = scheme, url_User = False, url_Host = [], url_Path = [], url_RawQuery = q\<rparr>
         else if \<not> has_prefix rest ''/'' \<and> CHR '':'' \<in> set (fst (cut CHR ''/'' rest)) then None
         else if (scheme \<noteq> [] \<or> \<not> has_prefix rest ''///'') \<and> has_prefix rest ''//''
         then (let body = drop 2 rest; auth = fst (cut CHR ''/'' body) in
               case parseAuthority auth of
                 None \<Rightarrow> None
               | Some (usr, host) \<Rightarrow> plain usr host (drop (length auth) body))
         else plain False [] rest)"

definition url_body :: "string \<Rightarrow> url option" where
  "url_body x = (case getScheme x of
        None \<Rightarrow> None
      | Some (sch, rest0) \<Rightarrow> (let (rest, q) = (case cut CHR ''?'' rest0 of (r, None) \<Rightarrow> (r, []) | (r, Some q) \<Rightarrow> (r, q))
           in url_of (to_lower sch) rest q))"

lemma url_parse_body:
  assumes "url_parse raw = Some u" shows "url_body (fst (cut CHR ''#'' raw)) = Some u"
proof -
  have "url_parse raw = None \<or> url_parse raw = url_body (fst (cut CHR ''#'' raw))"
    unfolding url_parse_def url_body_def url_of_def Let_def case_prod_unfold by simp
  then show ?thesis using assms by simp
qed

lemma url_of_scheme: "url_of sc r q = Some u \<Longrightarrow> url_Scheme u = sc"
  by (auto simp: url_of_def Let_def split: if_splits option.splits prod.splits)

lemma url_of_query:
  "url_of sc r q = Some u \<Longrightarrow> url_of sc r q' = Some v \<Longrightarrow> url_Host v = url_Host u"
  by (auto simp: url_of_def Let_def split: if_splits option.splits prod.splits)

lemma url_of_path:
  assumes "url_of sc r q = Some u" "url_Host u \<noteq> []" "url_of sc (r @ CHR ''/'' # t) q' = Some v"
  shows "url_Host v = url_Host u"
proof -
  have p: "has_prefix r ''//''" "sc \<noteq> [] \<or> \<not> has_prefix r ''///''"
    using assms(1,2) by (auto simp: url_of_def Let_def split: if_splits option.splits prod.splits)
  obtain body where r: "r = ''//'' @ body" using p(1) by (auto simp: has_prefix_iff prefix_def)
  have b: "sc \<noteq> [] \<or> \<not> has_prefix body ''/''" using p(2) by (auto simp: r has_prefix_def)
  have n: "body \<noteq> []" 
  proof
    assume "body = []"
    then show False using assms(1,2) by (auto simp: r url_of_def Let_def has_prefix_def parseAuthority_def parseHost_def
        last_index_byte_def host_unescape_def split: if_splits option.splits prod.splits)
  qed
  then have "has_prefix (body @ CHR ''/'' # t) ''/'' = has_prefix body ''/''" by (cases body) (simp_all add: has_prefix_def)
  then show ?thesis using assms(1,3) b cut_first_slash [of "CHR ''/''" body t]
    by (auto simp: r url_of_def Let_def has_prefix_def split: if_splits option.splits prod.splits)
qed

lemma url_parse_append:
  assumes "url_parse b = Some u" "url_Scheme u \<noteq> []" "url_Host u \<noteq> []"
    and "url_parse (b @ CHR ''/'' # t) = Some v" "CHR ''#'' \<notin> set t" "CHR ''?'' \<notin> set t"
  shows "url_Scheme v = url_Scheme u \<and> url_Host v = url_Host u"
proof (cases "cut CHR ''#'' b")
  case (Pair x frag)
  note u = url_parse_body [OF assms(1)] and v = url_parse_body [OF assms(4)]
  show ?thesis
  proof (cases frag)
    case (Some f)
    then have "cut CHR ''#'' (b @ CHR ''/'' # t) = (x, Some (f @ CHR ''/'' # t))" using cut_found Pair by simp
    then have "u = v" using u v Pair by simp
    then show ?thesis by simp
  next
    case None
    then have x: "x = b" "CHR ''#'' \<notin> set b" using cut_absent [of "CHR ''#''" b x] Pair by simp_all
    have "cut CHR ''#'' t = (t, None)" using assms(5) cut_skip [of "CHR ''#''" t "[]"] by simp
    then have v': "url_body (b @ CHR ''/'' # t) = Some v"
      using v cut_skip [OF x(2), of "CHR ''/'' # t"] by simp
    have u': "url_body b = Some u" using u Pair x by simp
    obtain sch rest0 where g: "getScheme b = Some (sch, rest0)"
      using u' by (auto simp: url_body_def split: option.splits)
    obtain r q where rq: "(case cut CHR ''?'' rest0 of (r, None) \<Rightarrow> (r, []) | (r, Some q) \<Rightarrow> (r, q)) = (r, q)" by fastforce
    have "url_of (to_lower sch) r q = Some u" using u' g rq by (simp add: url_body_def)
    from url_of_scheme [OF this] have "sch \<noteq> []" using assms(2) by (auto simp: to_lower_def)
    then obtain n where n: "scheme_len b True = Some (Some n)" "sch = take n b" "rest0 = drop (Suc n) b"
      using g by (auto simp: getScheme_def split: option.splits)
    note sl = scheme_len_append [OF n(1), of "CHR ''/'' # t"]
    have g': "getScheme (b @ CHR ''/'' # t) = Some (sch, rest0 @ CHR ''/'' # t)"
      using sl n by (auto simp: getScheme_def)
    show ?thesis
    proof (cases "cut CHR ''?'' rest0")
      case C: (Pair r qo)
      show ?thesis
      proof (cases qo)
        case (Some q)
        then have "cut CHR ''?'' (rest0 @ CHR ''/'' # t) = (r, Some (q @ CHR ''/'' # t))" using cut_found C by simp
        then have "url_of (to_lower sch) r q = Some u" "url_of (to_lower sch) r (q @ CHR ''/'' # t) = Some v"
          using u' v' g g' C Some by (simp_all add: url_body_def)
        then show ?thesis using url_of_query url_of_scheme by metis
      next
        case None
        then have r: "r = rest0" "CHR ''?'' \<notin> set rest0" using cut_absent [of "CHR ''?''" rest0 r] C by simp_all
        have "cut CHR ''?'' t = (t, None)" using assms(6) cut_skip [of "CHR ''?''" t "[]"] by simp
        then have "cut CHR ''?'' (rest0 @ CHR ''/'' # t) = (rest0 @ CHR ''/'' # t, None)"
          using cut_skip [OF r(2), of "CHR ''/'' # t"] by simp
        then have w: "url_of (to_lower sch) rest0 [] = Some u" "url_of (to_lower sch) (rest0 @ CHR ''/'' # t) [] = Some v"
          using u' v' g g' C None r by (simp_all add: url_body_def)
        then show ?thesis using url_of_path [OF w(1) assms(3) w(2)] url_of_scheme by metis
      qed
    qed
  qed
qed

end
