(* ===== verification/Parser_Props.thy ===== *)
theory Parser_Props
  imports Parser_Service
begin

text \<open>
  What the parser service promises: whose documents it sends to the provider and what of them,
  and that the CV service's client and the service together parse a document.
\<close>

section \<open>Plain characters\<close>

lemma dropWhile_none: "(\<And>c. c \<in> set s \<Longrightarrow> \<not> P c) \<Longrightarrow> dropWhile P s = s"
  by (cases s) auto

lemma trim_space_plain: "(\<And>c. c \<in> set s \<Longrightarrow> \<not> is_space c) \<Longrightarrow> trim_space s = s"
  using dropWhile_none [of s is_space] dropWhile_none [of "rev s" is_space]
  unfolding trim_space_def trim_left_def trim_right_def by simp

lemma std_val_space: "is_space c \<Longrightarrow> std_val c = None"
  by (auto simp: is_space_def std_val_def Let_def)

lemma std_encode_plain: "c \<in> set (std_encode s) \<Longrightarrow> \<not> is_space c"
proof -
  assume c: "c \<in> set (std_encode s)"
  have "c = CHR ''='' \<or> (\<exists>g < 64. c = std_char g)"
    using c b64_groups_small [OF str_bytes_small, of s]
    by (auto simp: std_encode_def raw_std_encode_def Let_def)
  then show ?thesis
  proof
    assume "c = CHR ''=''" then show ?thesis by (simp add: is_space_def)
  next
    assume "\<exists>g < 64. c = std_char g"
    then obtain g where "g < 64" "c = std_char g" by blast
    then have "std_val c = Some g" by simp
    then show ?thesis using std_val_space by (metis option.distinct(1))
  qed
qed

lemma bearer_of: "bearerToken (''Bearer '' @ k) = trim_space k"
  by (simp add: bearerToken_def equal_fold_def)

section \<open>What is sent\<close>

text \<open>
  A request after the first was asked for by the answer to the request before it. The text goes
  along only on a 307 or 308 and only if it went so far, the key only to the host of the first
  request or below it.
\<close>

definition redirected :: "parserEnv \<Rightarrow> orRequest list \<Rightarrow> nat \<Rightarrow> bool" where
  "redirected env sent k \<longleftrightarrow>
     (\<exists>a. xe_call env (take (Suc k) sent) = Some a \<and> ha_Status a \<in> {301, 302, 303, 307, 308} \<and> ha_Location a \<noteq> [] \<and>
        url_resolve (xe_net env) (or_URL (sent ! k)) (ha_Location a) = Some (or_URL (sent ! Suc k)) \<and>
        (or_Body (sent ! Suc k) \<noteq> None \<longrightarrow> or_Body (sent ! k) \<noteq> None \<and> ha_Status a \<in> {307, 308}) \<and>
        (or_Authorization (sent ! Suc k) \<noteq> None \<longrightarrow> or_Authorization (sent ! k) \<noteq> None \<and>
           (url_Host (or_URL (hd sent)) = url_Host (or_URL (sent ! Suc k)) \<or>
            shouldCopyHeaders (xe_net env) (or_URL (hd sent)) (or_URL (sent ! Suc k)))))"

definition sent_for :: "parserEnv \<Rightarrow> OpenRouter \<Rightarrow> string \<Rightarrow> url \<Rightarrow> orRequest list \<Rightarrow> bool" where
  "sent_for env eng txt u sent \<longleftrightarrow> sent \<noteq> [] \<and>
     hd sent = orSend eng txt \<lparr>hop_Method = ''POST'', hop_URL = u, hop_Sensitive = True, hop_Body = True\<rparr> \<and>
     (\<forall>q\<in>set sent. \<exists>h. q = orSend eng txt h) \<and> length sent \<le> maxRequests \<and>
     (\<forall>k. Suc k < length sent \<longrightarrow> redirected env sent k)"

lemma orSend_sel [simp]:
  "or_URL (orSend eng txt h) = hop_URL h" "or_Method (orSend eng txt h) = hop_Method h"
  "or_Body (orSend eng txt h) = None \<longleftrightarrow> \<not> hop_Body h" "or_Authorization (orSend eng txt h) = None \<longleftrightarrow> \<not> hop_Sensitive h"
  by (simp_all add: orSend_def)

lemma orDo_sent:
  assumes "orDo env eng txt u = (sent, r)" shows "sent_for env eng txt u sent"
proof -
  let ?first = "\<lparr>hop_Method = ''POST'', hop_URL = u, hop_Sensitive = True, hop_Body = True\<rparr>"
  let ?call = "\<lambda>hs. xe_call env (map (orSend eng txt) hs)"
  obtain hs x where h: "http_do (xe_net env) ?call ?first = (hs, x)" by fastforce
  have sent: "sent = map (orSend eng txt) hs" using assms h by (simp add: orDo_def)
  note c = http_do_chain [OF h]
  have "redirected env sent k" if k: "Suc k < length sent" for k
  proof -
    have f: "follows (xe_net env) ?call hs k" using c k sent by simp
    have "hd sent = orSend eng txt (hd hs)" "sent ! k = orSend eng txt (hs ! k)" "sent ! Suc k = orSend eng txt (hs ! Suc k)"
      "take (Suc k) sent = map (orSend eng txt) (take (Suc k) hs)"
      using sent k c by (auto simp: hd_map take_map)
    then show ?thesis using f unfolding redirected_def follows_def by auto
  qed
  then show ?thesis using c sent by (auto simp: sent_for_def hd_map)
qed

lemma orExtract_sent:
  assumes "orExtract env eng txt = (sent, r)"
  shows "(sent = [] \<or> (\<exists>u. url_parse (oc_BaseURL eng @ ''/chat/completions'') = Some u \<and> sent_for env eng txt u sent)) \<and>
    (\<forall>x. r = Inr x \<longrightarrow> sent \<noteq> [])"
proof (cases "url_parse (oc_BaseURL eng @ ''/chat/completions'')")
  case None
  then show ?thesis using assms by (auto simp: orExtract_def)
next
  case (Some u)
  obtain qs a where d: "orDo env eng txt u = (qs, a)" by fastforce
  have "sent = qs" using assms Some d by (cases a) (simp_all add: orExtract_def)
  then show ?thesis using orDo_sent [OF d] Some by (simp add: sent_for_def)
qed

lemma svcParse_sent:
  assumes "svcParse env s doc = (sent, r)"
  shows "(\<forall>x. r = Inr x \<longrightarrow> sent \<noteq> []) \<and> (sent = [] \<or> (\<exists>eng dat txt u. pv_engine s = Some eng \<and>
    std_decode (trim_space (hq_DocumentB64 doc)) = Some dat \<and> dat \<noteq> [] \<and> int (length dat) \<le> pv_maxBytes s \<and>
    defaultExtract env dat = Inr txt \<and> trim_space txt \<noteq> [] \<and>
    url_parse (oc_BaseURL eng @ ''/chat/completions'') = Some u \<and> sent_for env eng txt u sent))"
proof (cases "\<exists>eng dat txt. pv_engine s = Some eng \<and> std_decode (trim_space (hq_DocumentB64 doc)) = Some dat \<and> dat \<noteq> [] \<and>
    int (length dat) \<le> pv_maxBytes s \<and> defaultExtract env dat = Inr txt \<and> trim_space txt \<noteq> []")
  case False
  then show ?thesis using assms
    by (auto simp: svcParse_def not_less split: option.splits if_splits sum.splits)
next
  case True
  then obtain eng dat tx where g: "pv_engine s = Some eng" "std_decode (trim_space (hq_DocumentB64 doc)) = Some dat" "dat \<noteq> []"
    "int (length dat) \<le> pv_maxBytes s" "defaultExtract env dat = Inr tx" "trim_space tx \<noteq> []" by blast
  then have "orExtract env eng tx = (sent, r)" using assms by (simp add: svcParse_def)
  from orExtract_sent [OF this] show ?thesis using g by blast
qed

definition parserMessages :: "string list" where
  "parserMessages = [''unauthorized'', ''request too large'', ''invalid request body'', ''document too large'',
     ''unsupported document type'', ''no extractable text in document'', ''malformed document'', ''resume parsing failed'',
     ''internal error'']"

lemma status_message: "statusForError e = (code, msg) \<Longrightarrow> code \<noteq> 200 \<and> msg \<in> set parserMessages"
  by (cases e) (auto simp: parserMessages_def)

lemma parserMain_server:
  assumes "parserMain vars = Inr s"
  shows "px_apiKey s = vars ''CV_PARSER_API_KEY'' \<and> 0 < pv_maxBytes (px_svc s) \<and>
    (\<exists>eng u. pv_engine (px_svc s) = Some eng \<and> oc_APIKey eng = vars ''OPENROUTER_API_KEY'' \<and>
       url_parse (oc_BaseURL eng) = Some u \<and> url_Scheme u \<noteq> [] \<and> url_Host u \<noteq> [] \<and> orSecureBaseURL u)"
  using assms
  by (auto simp: parserMain_def Let_def NewOpenRouter_def NewParserServer_def NewParserService_def split: sum.splits option.splits if_splits)

lemma secure_endpoint:
  assumes "url_parse base = Some u" "url_Scheme u \<noteq> []" "url_Host u \<noteq> []" "orSecureBaseURL u"
    and "url_parse (base @ ''/chat/completions'') = Some v"
  shows "orSecureBaseURL v"
proof -
  have "url_Scheme v = url_Scheme u \<and> url_Host v = url_Host u"
    by (rule url_parse_append [OF assms(1-3), of "''chat/completions''"]) (use assms(5) in simp_all)
  then show ?thesis using assms(4) by (simp add: orSecureBaseURL_def url_Hostname_def)
qed

text \<open>
  C34: The parser service sends a text to its provider only on behalf of an authorized caller,
  and no error gives a document away. Of a server that starts, a request that sends anything
  comes from a caller who presents the configured key if there is one, and first makes a POST
  to the configured endpoint, over HTTPS or to the machine itself, with the provider's key and
  the fixed prompt followed by exactly the text of the one document of the request, which is
  within the limit and not blank. What else is sent, ten requests at most, are the redirects of
  the provider: each goes where the answer to the request before it points, the text goes along
  only on a 307 or 308 and nothing but that text, and the key only to the same host or below it.
  200 is answered only after such a call, and every other answer is one of nine fixed messages.
\<close>

theorem parser_sends_only:
  assumes "parserMain vars = Inr s" and "px_handleParse env s header body = (sent, resp)"
  shows "(sent = [] \<or> (\<exists>n d dat txt.
      (vars ''CV_PARSER_API_KEY'' = [] \<or> bearerToken header = vars ''CV_PARSER_API_KEY'') \<and>
      xe_body env body = (n, Some d) \<and> std_decode (trim_space (hq_DocumentB64 d)) = Some dat \<and>
      0 < length dat \<and> int (length dat) \<le> pv_maxBytes (px_svc s) \<and> defaultExtract env dat = Inr txt \<and> trim_space txt \<noteq> [] \<and>
      url_parse (oc_BaseURL (the (pv_engine (px_svc s))) @ ''/chat/completions'') = Some (or_URL (hd sent)) \<and>
      orSecureBaseURL (or_URL (hd sent)) \<and> or_Method (hd sent) = ''POST'' \<and>
      or_Authorization (hd sent) = Some (''Bearer '' @ vars ''OPENROUTER_API_KEY'') \<and> or_Body (hd sent) \<noteq> None \<and>
      (\<forall>q\<in>set sent. (or_Authorization q = None \<or> or_Authorization q = Some (''Bearer '' @ vars ''OPENROUTER_API_KEY'')) \<and>
         (\<forall>b. or_Body q = Some b \<longrightarrow> ch_Messages b = [\<lparr>cm_Role = ''user'', cm_Content = extractionPrompt @ txt\<rparr>])) \<and>
      length sent \<le> 10 \<and> (\<forall>k. Suc k < length sent \<longrightarrow> redirected env sent k))) \<and>
    (if status resp = 200 then sent \<noteq> [] else \<exists>msg \<in> set parserMessages. payload resp = PbError msg)"
proof -
  from parserMain_server [OF assms(1)] obtain eng u where m: "px_apiKey s = vars ''CV_PARSER_API_KEY''"
    "pv_engine (px_svc s) = Some eng" "oc_APIKey eng = vars ''OPENROUTER_API_KEY''" "url_parse (oc_BaseURL eng) = Some u"
    "url_Scheme u \<noteq> []" "url_Host u \<noteq> []" "orSecureBaseURL u" by blast
  obtain n doc where b: "xe_body env body = (n, doc)" by fastforce
  show ?thesis
  proof (cases "authorized s header \<and> int n \<le> max 0 (px_maxBody s) \<and> doc \<noteq> None")
    case False
    then show ?thesis using assms(2) b
      by (auto simp: px_handleParse_def parserMessages_def not_less split: if_splits)
  next
    case True
    then obtain d where d: "doc = Some d" by blast
    have lim: "\<not> max 0 (px_maxBody s) < int n" using True by linarith
    obtain r where p: "svcParse env (px_svc s) d = (sent, r)"
      using assms(2) b d True lim by (auto simp: px_handleParse_def simp del: less_max_iff_disj max_less_iff_conj split: prod.splits sum.splits)
    note sp = svcParse_sent [OF p]
    have r: "if status resp = 200 then sent \<noteq> [] else \<exists>msg \<in> set parserMessages. payload resp = PbError msg"
    proof (cases r)
      case (Inl e)
      obtain code msg where e: "statusForError e = (code, msg)" by fastforce
      have "resp = Resp code (PbError msg)" using assms(2) b d True lim p Inl e
        by (simp add: px_handleParse_def del: less_max_iff_disj max_less_iff_conj)
      then show ?thesis using status_message [OF e] by simp
    next
      case (Inr x)
      then have "resp = Resp 200 (PbData x)" using assms(2) b d True lim p
        by (simp add: px_handleParse_def del: less_max_iff_disj max_less_iff_conj)
      then show ?thesis using sp Inr by simp
    qed
    show ?thesis
    proof (cases "sent = []")
      case True then show ?thesis using r by simp
    next
      case False
      then obtain dat tx v where t: "std_decode (trim_space (hq_DocumentB64 d)) = Some dat" "dat \<noteq> []"
        "int (length dat) \<le> pv_maxBytes (px_svc s)" "defaultExtract env dat = Inr tx" "trim_space tx \<noteq> []"
        and v: "url_parse (oc_BaseURL eng @ ''/chat/completions'') = Some v" "sent_for env eng tx v sent" using sp m(2) by auto
      have a: "vars ''CV_PARSER_API_KEY'' = [] \<or> bearerToken header = vars ''CV_PARSER_API_KEY''"
        using True m(1) by (auto simp: authorized_def split: if_splits)
      have first: "or_URL (hd sent) = v" "or_Method (hd sent) = ''POST''" "or_Body (hd sent) \<noteq> None"
        "or_Authorization (hd sent) = Some (''Bearer '' @ vars ''OPENROUTER_API_KEY'')"
        using v(2) m(3) by (auto simp: sent_for_def orSend_def)
      have each: "(or_Authorization q = None \<or> or_Authorization q = Some (''Bearer '' @ vars ''OPENROUTER_API_KEY'')) \<and>
         (\<forall>b. or_Body q = Some b \<longrightarrow> ch_Messages b = [\<lparr>cm_Role = ''user'', cm_Content = extractionPrompt @ tx\<rparr>])" if "q \<in> set sent" for q
      proof -
        have "\<forall>q\<in>set sent. \<exists>h. q = orSend eng tx h" using v(2) unfolding sent_for_def by (elim conjE)
        from bspec [OF this that] obtain h where "q = orSend eng tx h" ..
        then show ?thesis using m(3) by (auto simp: orSend_def orBuild_def)
      qed
      have later: "length sent \<le> 10" "\<forall>k. Suc k < length sent \<longrightarrow> redirected env sent k"
        using v(2) by (simp_all add: sent_for_def maxRequests_def)
      note sec = secure_endpoint [OF m(4-7) v(1)]
      show ?thesis
        by (rule conjI [OF disjI2 r], rule exI [of _ n], rule exI [of _ d], rule exI [of _ dat], rule exI [of _ tx])
          (use t a b d m(2) v(1) sec first each later in simp)
    qed
  qed
qed

section \<open>Client and service together\<close>

text \<open>
  The client's round trip, answered by the service: \<open>enc\<close> is the JSON text of a request, \<open>late\<close>
  tells whether the answer misses the client's deadline of 30 s, and \<open>alen\<close> is the length of
  the JSON text of an answer, of which the client reads 2 MiB.
\<close>

definition serviceCall ::
  "parserEnv \<Rightarrow> parserServer \<Rightarrow> (hostedRequest \<Rightarrow> string) \<Rightarrow> (hostedRequest \<Rightarrow> bool) \<Rightarrow> (hostedResponse \<Rightarrow> int) \<Rightarrow>
   hostedRequest \<Rightarrow> string option \<Rightarrow> (nat \<times> hostedResponse option) option" where
  "serviceCall env s enc late alen req auth =
     (if late req then None
      else (case snd (px_handleParse env s (case auth of None \<Rightarrow> [] | Some h \<Rightarrow> h) (enc req)) of
        Resp code b \<Rightarrow> Some (code, (case b of PbData r \<Rightarrow> if alen r \<le> 2097152 then Some r else None | _ \<Rightarrow> None))))"

text \<open>
  C35: The CV service and the parser service fit together. With the same key on both sides and a
  JSON text that is read back as it was written, a document within the limits reaches the
  extractor byte for byte, and the client returns the normalized answer of the model for the
  text of that very document; it fails when there is no text or no usable answer, and when the
  answer misses the client's deadline or is longer than the 2 MiB it reads.
\<close>

theorem hosted_parse_end_to_end:
  assumes "url_parse (hp_endpoint h) = Some u" "url_Scheme u \<noteq> []" "url_Host u \<noteq> []" "secureParserURL u"
    and "pv_engine (px_svc s) = Some eng" and "hp_apiKey h = px_apiKey s" "trim_space (px_apiKey s) = px_apiKey s"
    and "hp_call h = serviceCall env s enc late alen" and "\<And>d. xe_body env (enc d) = (length (enc d), Some d)"
    and "dat \<noteq> []" "int (length dat) \<le> pv_maxBytes (px_svc s)"
    and "int (length (enc \<lparr>hq_Filename = f, hq_ContentType = ct, hq_DocumentB64 = std_encode dat\<rparr>)) \<le> px_maxBody s"
  shows "HostedParse h dat f ct =
    (case defaultExtract env dat of
       Inl _ \<Rightarrow> Inl ParseFailed
     | Inr txt \<Rightarrow> if trim_space txt = [] then Inl ParseFailed
         else (case snd (orExtract env eng txt) of
             Inl _ \<Rightarrow> Inl ParseFailed
           | Inr r \<Rightarrow>
               if late \<lparr>hq_Filename = f, hq_ContentType = ct, hq_DocumentB64 = std_encode dat\<rparr> \<or> 2097152 < alen r
               then Inl ParseFailed else Inr (toParsedCV r)))"
proof -
  let ?req = "\<lparr>hq_Filename = f, hq_ContentType = ct, hq_DocumentB64 = std_encode dat\<rparr>"
  let ?auth = "if hp_apiKey h \<noteq> [] then Some (''Bearer '' @ hp_apiKey h) else None"
  have "url_Scheme (the (url_parse [])) = []" by code_simp
  then have ep: "hp_endpoint h \<noteq> []" using assms(1,2) by auto
  have a: "authorized s (case ?auth of None \<Rightarrow> [] | Some x \<Rightarrow> x)"
    using assms(6,7) bearer_of [of "px_apiKey s"] by (simp add: authorized_def)
  have dec: "std_decode (trim_space (std_encode dat)) = Some dat"
    using trim_space_plain [OF std_encode_plain] by simp
  obtain sent r where p: "svcParse env (px_svc s) ?req = (sent, r)" by fastforce
  have lim: "\<not> max 0 (px_maxBody s) < int (length (enc ?req))" using assms(12) by linarith
  have call: "hp_call h ?req ?auth = (if late ?req then None else (case r of
      Inl e \<Rightarrow> Some (fst (statusForError e), None) | Inr x \<Rightarrow> Some (200, if alen x \<le> 2097152 then Some x else None)))"
    unfolding assms(8) serviceCall_def px_handleParse_def
    using a assms(9) lim p by (simp del: less_max_iff_disj max_less_iff_conj split: sum.splits prod.splits)
  have svc: "svcParse env (px_svc s) ?req = (case defaultExtract env dat of Inl e \<Rightarrow> ([], Inl e)
      | Inr txt \<Rightarrow> if trim_space txt = [] then ([], Inl PaEmptyText) else orExtract env eng txt)"
    using assms(5,10,11) dec by (simp add: svcParse_def split: sum.splits)
  have hp: "HostedParse h dat f ct = (case r of Inl e \<Rightarrow> Inl ParseFailed
      | Inr x \<Rightarrow> if late ?req \<or> 2097152 < alen x then Inl ParseFailed else Inr (toParsedCV x))"
  proof (cases r)
    case (Inl e)
    have "fst (statusForError e) \<noteq> 200" using status_message [of e] by (cases "statusForError e") auto
    then show ?thesis using ep assms(1-4) call Inl by (simp add: HostedParse_def)
  next
    case (Inr x) then show ?thesis using ep assms(1-4) call by (simp add: HostedParse_def)
  qed
  have "r = snd (svcParse env (px_svc s) ?req)" using p by simp
  then show ?thesis unfolding hp svc by (simp split: sum.splits)
qed

section \<open>Examples\<close>

definition demoVars :: environ where
  "demoVars v = (if v = ''OPENROUTER_API_KEY'' then ''ork'' else if v = ''CV_PARSER_API_KEY'' then ''key'' else [])"

definition demoExtraction :: hostedResponse where
  "demoExtraction = \<lparr>hr_Name = ''  Ana  '', hr_Email = ''A@X'', hr_Phone = [], hr_Education = [], hr_WorkHistory = [],
     hr_Skills = [''Go'']\<rparr>"

text \<open>A request body is the base64 text itself; the provider answers with an object in a fence.\<close>

definition demoParserEnv :: parserEnv where
  "demoParserEnv = \<lparr>xe_zip = (\<lambda>_. None), xe_pdf = (\<lambda>_. Some ''Ana, Go''), 
     xe_net = \<lparr>ne_target = (\<lambda>_ l. (l, [])), ne_ascii = (\<lambda>h. h)\<rparr>,
     xe_call = (\<lambda>_. Some \<lparr>ha_Status = 200, ha_Location = [], ha_Read = Some [''x {} y'']\<rparr>),
     xe_decode = (\<lambda>_. Some demoExtraction),
     xe_body = (\<lambda>b. (length b, Some \<lparr>hq_Filename = [], hq_ContentType = [], hq_DocumentB64 = b\<rparr>))\<rparr>"

definition demoServer :: parserServer where
  "demoServer = projr (parserMain demoVars)"

lemma demoServer_main: "parserMain demoVars = Inr demoServer"
  unfolding demoServer_def by code_simp

theorem parser_sends_only_witness:
  "\<exists>sent b. px_handleParse demoParserEnv demoServer ''bearer key '' (std_encode ''%PDF-1'') = (sent, Resp 200 (PbData demoExtraction)) \<and>
     sent \<noteq> [] \<and> or_Body (hd sent) = Some b \<and> ch_Messages b = [\<lparr>cm_Role = ''user'', cm_Content = extractionPrompt @ ''Ana, Go''\<rparr>]"
proof -
  let ?out = "px_handleParse demoParserEnv demoServer ''bearer key '' (std_encode ''%PDF-1'')"
  have r: "snd ?out = Resp 200 (PbData demoExtraction)" by code_simp
  obtain sent where o: "?out = (sent, Resp 200 (PbData demoExtraction))" using r by (cases ?out) simp
  from parser_sends_only [OF demoServer_main o] have ne: "sent \<noteq> []" by simp
  then obtain n d dat tx where t: "xe_body demoParserEnv (std_encode ''%PDF-1'') = (n, Some d)"
    "std_decode (trim_space (hq_DocumentB64 d)) = Some dat" "defaultExtract demoParserEnv dat = Inr tx"
    "or_Body (hd sent) \<noteq> None"
    "\<forall>q\<in>set sent. \<forall>b. or_Body q = Some b \<longrightarrow> ch_Messages b = [\<lparr>cm_Role = ''user'', cm_Content = extractionPrompt @ tx\<rparr>]"
    using parser_sends_only [OF demoServer_main o] by blast
  have "hq_DocumentB64 d = std_encode ''%PDF-1''" using t(1) by (auto simp: demoParserEnv_def)
  then have "dat = ''%PDF-1''" using t(2) trim_space_plain [OF std_encode_plain] by simp
  then have "tx = ''Ana, Go''" using t(3) by (simp add: defaultExtract_def extractPDF_def demoParserEnv_def has_prefix_def)
  moreover obtain b where "or_Body (hd sent) = Some b" using t(4) by blast
  ultimately show ?thesis using o ne t(5) by auto
qed

text \<open>
  The redirects are followed anywhere: a 307 to a plain HTTP address sends the text there, in
  clear, and if it names the provider's own host, the key as well.
\<close>

definition redirectTo :: "string \<Rightarrow> parserEnv" where
  "redirectTo loc = demoParserEnv\<lparr>xe_call := (\<lambda>sent.
     if length sent = 1 then Some \<lparr>ha_Status = 307, ha_Location = loc, ha_Read = None\<rparr>
     else Some \<lparr>ha_Status = 200, ha_Location = [], ha_Read = Some [''{}'']\<rparr>)\<rparr>"

definition redirectSent :: "string \<Rightarrow> (string \<times> string \<times> string option \<times> string list option) list" where
  "redirectSent loc = map (\<lambda>q. (url_Scheme (or_URL q), url_Host (or_URL q), or_Authorization q,
       map_option (\<lambda>b. map cm_Content (ch_Messages b)) (or_Body q)))
     (fst (px_handleParse (redirectTo loc) demoServer ''bearer key '' (std_encode ''%PDF-1'')))"

lemma redirect_leaks_text:
  "redirectSent ''http://mirror.example/x'' =
     [(''https'', ''openrouter.ai'', Some ''Bearer ork'', Some [extractionPrompt @ ''Ana, Go'']),
      (''http'', ''mirror.example'', None, Some [extractionPrompt @ ''Ana, Go''])]"
  "redirectSent ''http://openrouter.ai/x'' =
     [(''https'', ''openrouter.ai'', Some ''Bearer ork'', Some [extractionPrompt @ ''Ana, Go'']),
      (''http'', ''openrouter.ai'', Some ''Bearer ork'', Some [extractionPrompt @ ''Ana, Go''])]"
  by code_simp+

text \<open>A client of that service, and a JSON text that says all of the request.\<close>

definition demoEnc :: "hostedRequest \<Rightarrow> string" where
  "demoEnc d = std_encode (hq_Filename d) @ '' '' @ std_encode (hq_ContentType d) @ '' '' @ hq_DocumentB64 d"

definition demoDec :: "string \<Rightarrow> hostedRequest option" where
  "demoDec b = (case (Go_Net.cut CHR '' '' b) of
      (f, Some r) \<Rightarrow> (case Go_Net.cut CHR '' '' r of
          (c, Some d) \<Rightarrow> (case (std_decode f, std_decode c) of
              (Some fn, Some ct) \<Rightarrow> Some \<lparr>hq_Filename = fn, hq_ContentType = ct, hq_DocumentB64 = d\<rparr> | _ \<Rightarrow> None)
        | _ \<Rightarrow> None)
    | _ \<Rightarrow> None)"

lemma cut_first: "c \<notin> set s \<Longrightarrow> Go_Net.cut c (s @ c # t) = (s, Some t)"
  by (induction s) auto

lemma demoDec_Enc: "demoDec (demoEnc d) = Some d"
proof -
  have n: "CHR '' '' \<notin> set (std_encode s)" for s using std_encode_plain [of "CHR '' ''" s] by (auto simp: is_space_def)
  show ?thesis by (cases d) (simp add: demoDec_def demoEnc_def cut_first [OF n])
qed

definition demoEndEnv :: parserEnv where
  "demoEndEnv = demoParserEnv\<lparr>xe_body := (\<lambda>b. (length b, demoDec b))\<rparr>"

definition demoHosted :: HostedParser where
  "demoHosted = \<lparr>hp_endpoint = ''http://localhost:8090/parse'', hp_apiKey = ''key'',
     hp_call = serviceCall demoEndEnv demoServer demoEnc (\<lambda>_. False) (\<lambda>_. 300)\<rparr>"

theorem hosted_parse_end_to_end_witness:
  "HostedParse demoHosted ''%PDF-1'' ''cv.pdf'' [] = Inr (toParsedCV demoExtraction)"
proof -
  let ?u = "url_parse (hp_endpoint demoHosted)" and ?eng = "the (pv_engine (px_svc demoServer))"
  have u: "?u = Some (the ?u)" "url_Scheme (the ?u) \<noteq> []" "url_Host (the ?u) \<noteq> []" "secureParserURL (the ?u)" by code_simp+
  have e: "pv_engine (px_svc demoServer) = Some ?eng" by code_simp
  have k: "hp_apiKey demoHosted = px_apiKey demoServer" "trim_space (px_apiKey demoServer) = px_apiKey demoServer" by code_simp+
  have c: "hp_call demoHosted = serviceCall demoEndEnv demoServer demoEnc (\<lambda>_. False) (\<lambda>_. 300)" by (simp add: demoHosted_def)
  have d: "xe_body demoEndEnv (demoEnc r) = (length (demoEnc r), Some r)" for r by (simp add: demoEndEnv_def demoDec_Enc)
  have l: "''%PDF-1'' \<noteq> []" "int (length ''%PDF-1'') \<le> pv_maxBytes (px_svc demoServer)"
    "int (length (demoEnc \<lparr>hq_Filename = ''cv.pdf'', hq_ContentType = [], hq_DocumentB64 = std_encode ''%PDF-1''\<rparr>)) \<le> px_maxBody demoServer"
    by code_simp+
  have x: "defaultExtract demoEndEnv ''%PDF-1'' = Inr ''Ana, Go''" "snd (orExtract demoEndEnv ?eng ''Ana, Go'') = Inr demoExtraction"
    "trim_space ''Ana, Go'' \<noteq> []" by code_simp+
  show ?thesis using hosted_parse_end_to_end [OF u e k c d l] x by simp
qed

end
