(* ===== verification/Migrations.thy ===== *)
theory Migrations
  imports Go_Prelude
begin

text \<open>
  The migrations of the schema (\<open>internal/db\<close>): the embedded files read into a list of versions,
  and their application in one transaction. What a script does to the data is a parameter, and
  so is which steps of the transaction fail.
\<close>

section \<open>File names\<close>

record Migration =
  mg_Version :: int
  mg_Name :: string
  mg_Up :: string
  mg_Down :: string

datatype direction = DirUp | DirDown

text \<open>\<open>0001_init.up.sql\<close> is version 1, name \<open>init\<close>, direction up.\<close>

definition parseName :: "string \<Rightarrow> (int \<times> string \<times> direction) option" where
  "parseName name =
     (if \<not> has_suffix name ''.sql'' then None
      else (let trimmed = take (length name - 4) name in
        case last_index_byte trimmed CHR ''.'' of
          None \<Rightarrow> None
        | Some dot \<Rightarrow>
            (let dir = drop (Suc dot) trimmed; rest = take dot trimmed in
             if dir \<noteq> ''up'' \<and> dir \<noteq> ''down'' then None
             else (case index_byte rest CHR ''_'' of
                 None \<Rightarrow> None
               | Some u \<Rightarrow>
                   if u = 0 then None
                   else (case parse_int64 (take u rest) of
                       None \<Rightarrow> None
                     | Some v \<Rightarrow>
                         (let base = drop (Suc u) rest in
                          if base = [] then None else Some (v, base, if dir = ''up'' then DirUp else DirDown)))))))"

section \<open>Loading\<close>

text \<open>A file of the embedded directory; its contents are missing when it cannot be read.\<close>

record migFile =
  mf_Name :: string
  mf_IsDir :: bool
  mf_Content :: "string option"

record migPair =
  mp_name :: string
  mp_up :: string
  mp_down :: string

definition loadFile :: "(int, migPair) gomap \<Rightarrow> migFile \<Rightarrow> (int, migPair) gomap option" where
  "loadFile byVersion e =
     (if mf_IsDir e then Some byVersion
      else (case parseName (mf_Name e) of
          None \<Rightarrow> None
        | Some (v, base, dir) \<Rightarrow>
            (case mf_Content e of
               None \<Rightarrow> None
             | Some content \<Rightarrow>
                 if trim_space content = [] then None
                 else (let p = (case gget byVersion v of Some p \<Rightarrow> p | None \<Rightarrow> \<lparr>mp_name = base, mp_up = [], mp_down = []\<rparr>) in
                   if mp_name p \<noteq> base then None
                   else (case dir of
                       DirUp \<Rightarrow> if mp_up p \<noteq> [] then None else Some (gput v (p\<lparr>mp_up := content\<rparr>) byVersion)
                     | DirDown \<Rightarrow> if mp_down p \<noteq> [] then None else Some (gput v (p\<lparr>mp_down := content\<rparr>) byVersion))))))"

fun loadFiles :: "(int, migPair) gomap \<Rightarrow> migFile list \<Rightarrow> (int, migPair) gomap option" where
  "loadFiles byVersion [] = Some byVersion"
| "loadFiles byVersion (e # es) = (case loadFile byVersion e of None \<Rightarrow> None | Some m \<Rightarrow> loadFiles m es)"

fun checkVersions :: "(int, migPair) gomap \<Rightarrow> int \<Rightarrow> int list \<Rightarrow> Migration list option" where
  "checkVersions byVersion i [] = Some []"
| "checkVersions byVersion i (v # vs) =
     (if v \<noteq> i + 1 then None
      else (case gget byVersion v of
          None \<Rightarrow> None
        | Some p \<Rightarrow>
            if mp_up p = [] then None
            else if mp_down p = [] then None
            else map_option (\<lambda>ms. \<lparr>mg_Version = v, mg_Name = mp_name p, mg_Up = mp_up p, mg_Down = mp_down p\<rparr> # ms)
                   (checkVersions byVersion (i + 1) vs)))"

definition LoadMigrations :: "migFile list \<Rightarrow> Migration list option" where
  "LoadMigrations files =
     (case loadFiles [] files of
        None \<Rightarrow> None
      | Some byVersion \<Rightarrow> checkVersions byVersion 0 (sort (map fst byVersion)))"

section \<open>Applying\<close>

text \<open>The database: its data, and the table of applied versions once it is there.\<close>

record 'd migDB =
  md_data :: 'd
  md_done :: "(int, string) gomap option"

datatype migStep = StBegin | StLock | StEnsure | StCheck int | StUp int | StRecord int | StCommit

definition doneVersions :: "'d migDB \<Rightarrow> int set" where
  "doneVersions db = (case md_done db of None \<Rightarrow> {} | Some m \<Rightarrow> fst ` set m)"

definition isDone :: "'d migDB \<Rightarrow> int \<Rightarrow> bool" where
  "isDone db v = (case md_done db of None \<Rightarrow> False | Some m \<Rightarrow> gget m v \<noteq> None)"

fun applyEach ::
  "(migStep \<Rightarrow> bool) \<Rightarrow> (string \<Rightarrow> 'd \<Rightarrow> 'd option) \<Rightarrow> Migration list \<Rightarrow> 'd migDB \<Rightarrow> nat \<Rightarrow> ('d migDB \<times> nat) option" where
  "applyEach ok run [] db n = Some (db, n)"
| "applyEach ok run (m # ms) db n =
     (if \<not> ok (StCheck (mg_Version m)) then None
      else if isDone db (mg_Version m) then applyEach ok run ms db n
      else if \<not> ok (StUp (mg_Version m)) then None
      else (case run (mg_Up m) (md_data db) of
          None \<Rightarrow> None
        | Some d \<Rightarrow>
            if \<not> ok (StRecord (mg_Version m)) then None
            else applyEach ok run ms
              \<lparr>md_data = d, md_done = map_option (gput (mg_Version m) (mg_Name m)) (md_done db)\<rparr> (Suc n)))"

text \<open>The transaction is rolled back on every way out but the commit.\<close>

definition Apply ::
  "(migStep \<Rightarrow> bool) \<Rightarrow> (string \<Rightarrow> 'd \<Rightarrow> 'd option) \<Rightarrow> migFile list \<Rightarrow> 'd migDB \<Rightarrow> 'd migDB \<times> nat option" where
  "Apply ok run files db =
     (case LoadMigrations files of
        None \<Rightarrow> (db, None)
      | Some migs \<Rightarrow>
          if \<not> (ok StBegin \<and> ok StLock \<and> ok StEnsure) then (db, None)
          else (let db1 = (case md_done db of None \<Rightarrow> db\<lparr>md_done := Some []\<rparr> | Some _ \<Rightarrow> db) in
            case applyEach ok run migs db1 0 of
              None \<Rightarrow> (db, None)
            | Some (db2, n) \<Rightarrow> if ok StCommit then (db2, Some n) else (db, None)))"

section \<open>What loading promises\<close>

lemma checkVersions_range:
  "checkVersions m i vs = Some ms \<Longrightarrow> map mg_Version ms = map (\<lambda>k. i + 1 + int k) [0..<length ms] \<and> length ms = length vs"
proof (induction m i vs arbitrary: ms rule: checkVersions.induct)
  case (2 m i v vs)
  then obtain p ns where p: "v = i + 1" "gget m v = Some p" "mp_up p \<noteq> []" "mp_down p \<noteq> []"
    "checkVersions m (i + 1) vs = Some ns"
    "ms = \<lparr>mg_Version = v, mg_Name = mp_name p, mg_Up = mp_up p, mg_Down = mp_down p\<rparr> # ns"
    by (auto split: if_splits option.splits)
  have ih: "map mg_Version ns = map (\<lambda>k. i + 1 + 1 + int k) [0..<length ns] \<and> length ns = length vs"
    using 2 p by simp
  have "map (\<lambda>k. i + 1 + int k) [0..<Suc (length ns)] = (i + 1) # map (\<lambda>k. i + 1 + int (Suc k)) [0..<length ns]"
    unfolding upt_conv_Cons [OF zero_less_Suc] map_Suc_upt [symmetric] by simp
  then show ?case using ih p(1,6) by (simp add: add.commute add.left_commute)
qed simp

lemma checkVersions_pairs:
  "checkVersions m i vs = Some ms \<Longrightarrow> mg \<in> set ms \<Longrightarrow> \<exists>p. gget m (mg_Version mg) = Some p \<and> mg_Name mg = mp_name p \<and>
     mg_Up mg = mp_up p \<and> mg_Down mg = mp_down p \<and> mp_up p \<noteq> [] \<and> mp_down p \<noteq> []"
  by (induction m i vs arbitrary: ms rule: checkVersions.induct) (auto split: if_splits option.splits)

text \<open>What is loaded stands in the files.\<close>

definition fromFile :: "migFile list \<Rightarrow> int \<Rightarrow> string \<Rightarrow> direction \<Rightarrow> string \<Rightarrow> bool" where
  "fromFile files v base dir content \<longleftrightarrow>
     (\<exists>e \<in> set files. \<not> mf_IsDir e \<and> parseName (mf_Name e) = Some (v, base, dir) \<and> mf_Content e = Some content)"

lemma loadFile_from:
  assumes "loadFile m e = Some m'" "gget m' v = Some p"
    and "\<And>w q. gget m w = Some q \<Longrightarrow> (mp_up q \<noteq> [] \<longrightarrow> fromFile es w (mp_name q) DirUp (mp_up q)) \<and>
      (mp_down q \<noteq> [] \<longrightarrow> fromFile es w (mp_name q) DirDown (mp_down q))"
  shows "(mp_up p \<noteq> [] \<longrightarrow> fromFile (e # es) v (mp_name p) DirUp (mp_up p)) \<and>
      (mp_down p \<noteq> [] \<longrightarrow> fromFile (e # es) v (mp_name p) DirDown (mp_down p))"
proof -
  have mono: "fromFile es w b d c \<Longrightarrow> fromFile (e # es) w b d c" for w b d c by (auto simp: fromFile_def)
  show ?thesis
  proof (cases "mf_IsDir e")
    case True then show ?thesis using assms mono by (auto simp: loadFile_def)
  next
    case False
    then obtain w base dir content where f: "parseName (mf_Name e) = Some (w, base, dir)" "mf_Content e = Some content"
      using assms(1) by (auto simp: loadFile_def split: option.splits)
    define q where "q = (case gget m w of Some p \<Rightarrow> p | None \<Rightarrow> \<lparr>mp_name = base, mp_up = [], mp_down = []\<rparr>)"
    have m': "mp_name q = base"
      "m' = gput w (case dir of DirUp \<Rightarrow> q\<lparr>mp_up := content\<rparr> | DirDown \<Rightarrow> q\<lparr>mp_down := content\<rparr>) m"
      using assms(1) False f unfolding loadFile_def q_def Let_def by (auto split: if_splits direction.splits option.splits)
    have here: "fromFile (e # es) w base dir content" using False f by (auto simp: fromFile_def)
    have old: "(mp_up q \<noteq> [] \<longrightarrow> fromFile es w base DirUp (mp_up q)) \<and> (mp_down q \<noteq> [] \<longrightarrow> fromFile es w base DirDown (mp_down q))"
      using assms(3) [of w q] m'(1) by (cases "gget m w") (simp_all add: q_def)
    show ?thesis
    proof (cases "v = w")
      case True
      then show ?thesis using assms(2) m' here old mono by (cases dir) auto
    next
      case v: False
      then show ?thesis using assms(2,3) m'(2) mono by auto
    qed
  qed
qed

lemma loadFiles_from:
  assumes "loadFiles m fs = Some m'" "gget m' v = Some p"
    and "\<And>w q. gget m w = Some q \<Longrightarrow> (mp_up q \<noteq> [] \<longrightarrow> fromFile es w (mp_name q) DirUp (mp_up q)) \<and>
      (mp_down q \<noteq> [] \<longrightarrow> fromFile es w (mp_name q) DirDown (mp_down q))"
  shows "(mp_up p \<noteq> [] \<longrightarrow> fromFile (rev fs @ es) v (mp_name p) DirUp (mp_up p)) \<and>
      (mp_down p \<noteq> [] \<longrightarrow> fromFile (rev fs @ es) v (mp_name p) DirDown (mp_down p))"
  using assms
proof (induction fs arbitrary: m es)
  case Nil then show ?case by simp
next
  case (Cons e fs)
  obtain m1 where m1: "loadFile m e = Some m1" "loadFiles m1 fs = Some m'"
    using Cons.prems(1) by (simp split: option.splits)
  note l = loadFile_from [OF m1(1) _ Cons.prems(3)]
  show ?case using Cons.IH [OF m1(2) Cons.prems(2), of "e # es"] l by simp
qed

lemma load_sound:
  assumes "LoadMigrations files = Some ms"
  shows "map mg_Version ms = map (\<lambda>k. 1 + int k) [0..<length ms]"
    "mg \<in> set ms \<Longrightarrow> fromFile files (mg_Version mg) (mg_Name mg) DirUp (mg_Up mg) \<and>
      fromFile files (mg_Version mg) (mg_Name mg) DirDown (mg_Down mg)"
proof -
  obtain m where m: "loadFiles [] files = Some m" "checkVersions m 0 (sort (map fst m)) = Some ms"
    using assms by (auto simp: LoadMigrations_def split: option.splits)
  show "map mg_Version ms = map (\<lambda>k. 1 + int k) [0..<length ms]" using checkVersions_range [OF m(2)] by simp
  assume "mg \<in> set ms"
  from checkVersions_pairs [OF m(2) this] obtain p where p: "gget m (mg_Version mg) = Some p" "mg_Name mg = mp_name p"
    "mg_Up mg = mp_up p" "mg_Down mg = mp_down p" "mp_up p \<noteq> []" "mp_down p \<noteq> []" by blast
  have "fromFile (rev files @ []) (mg_Version mg) (mp_name p) DirUp (mp_up p) \<and>
      fromFile (rev files @ []) (mg_Version mg) (mp_name p) DirDown (mp_down p)"
    using loadFiles_from [OF m(1) p(1), of "[]"] p(5,6) by simp
  then show "fromFile files (mg_Version mg) (mg_Name mg) DirUp (mg_Up mg) \<and>
      fromFile files (mg_Version mg) (mg_Name mg) DirDown (mg_Down mg)"
    using p by (simp add: fromFile_def)
qed

section \<open>What applying promises\<close>

fun run_scripts :: "(string \<Rightarrow> 'd \<Rightarrow> 'd option) \<Rightarrow> string list \<Rightarrow> 'd \<Rightarrow> 'd option" where
  "run_scripts run [] d = Some d"
| "run_scripts run (q # qs) d = (case run q d of None \<Rightarrow> None | Some d' \<Rightarrow> run_scripts run qs d')"

lemma isDone_iff: "isDone db v \<longleftrightarrow> v \<in> doneVersions db"
  by (auto simp: isDone_def doneVersions_def gget_def map_of_eq_None_iff split: option.split)

lemma keys_put: "fst ` set (gput k r m) = insert k (fst ` set m)"
  unfolding gput_def by (induction m) auto

lemma done_put:
  "md_done db \<noteq> None \<Longrightarrow> doneVersions \<lparr>md_data = d, md_done = map_option (gput v n) (md_done db)\<rparr> = insert v (doneVersions db)"
  by (auto simp: doneVersions_def keys_put)

lemma applyEach_some:
  assumes "applyEach ok run ms db n = Some (db', n')" "md_done db \<noteq> None" "distinct (map mg_Version ms)"
  shows "md_done db' \<noteq> None \<and> doneVersions db' = doneVersions db \<union> mg_Version ` set ms \<and>
    n' = n + length (filter (\<lambda>m. mg_Version m \<notin> doneVersions db) ms) \<and>
    run_scripts run (map mg_Up (filter (\<lambda>m. mg_Version m \<notin> doneVersions db) ms)) (md_data db) = Some (md_data db')"
  using assms
proof (induction ok run ms db n rule: applyEach.induct)
  case (2 ok run m ms db n)
  show ?case
  proof (cases "isDone db (mg_Version m)")
    case True
    then show ?thesis using 2 by (auto simp: isDone_iff split: if_splits)
  next
    case False
    then obtain d where d: "run (mg_Up m) (md_data db) = Some d" and ok: "ok (StCheck (mg_Version m))" "ok (StUp (mg_Version m))" "ok (StRecord (mg_Version m))"
      using "2.prems"(1) by (auto split: if_splits option.splits)
    let ?db = "\<lparr>md_data = d, md_done = map_option (gput (mg_Version m) (mg_Name m)) (md_done db)\<rparr>"
    have dv: "doneVersions ?db = insert (mg_Version m) (doneVersions db)" by (rule done_put [OF "2.prems"(2)])
    have f: "filter (\<lambda>x. mg_Version x \<notin> insert (mg_Version m) (doneVersions db)) ms = filter (\<lambda>x. mg_Version x \<notin> doneVersions db) ms"
    proof (rule filter_cong [OF refl])
      fix x assume "x \<in> set ms"
      then have "mg_Version x \<in> mg_Version ` set ms" by (rule imageI)
      then have "mg_Version x \<noteq> mg_Version m" using "2.prems"(3) by auto
      then show "(mg_Version x \<notin> insert (mg_Version m) (doneVersions db)) = (mg_Version x \<notin> doneVersions db)" by simp
    qed
    have a: "applyEach ok run ms ?db (Suc n) = Some (db', n')" using "2.prems"(1) False d ok by simp
    have nd: "mg_Version m \<notin> doneVersions db" using False by (simp add: isDone_iff)
    have "md_done ?db \<noteq> None" using "2.prems"(2) by simp
    from "2.IH"(2) [OF _ False _ d _ a this] ok "2.prems"(3)
    show ?thesis unfolding dv f using d nd by auto
  qed
qed simp

lemma applyEach_done:
  assumes "\<And>s. ok s" "\<And>m. m \<in> set ms \<Longrightarrow> mg_Version m \<in> doneVersions db"
  shows "applyEach ok run ms db n = Some (db, n)"
  using assms(2) by (induction ms) (simp_all add: assms(1) isDone_iff)

text \<open>
  C36: Migrations are all or nothing, and applied once. Whichever step fails, the data and the
  table of versions are what they were before. On success the files were well formed, with an up
  and a down script for each version from 1 on without a gap; exactly the scripts of the versions
  not yet recorded were run, in ascending order; exactly the versions of the files are recorded
  in addition; and applying them again finds nothing to do.
\<close>

theorem migrations_atomic:
  assumes "Apply ok run files db = (db', r)"
  shows "case r of None \<Rightarrow> db' = db
    | Some n \<Rightarrow> \<exists>ms. LoadMigrations files = Some ms \<and> map mg_Version ms = map (\<lambda>k. 1 + int k) [0..<length ms] \<and>
        list_all (\<lambda>m. fromFile files (mg_Version m) (mg_Name m) DirUp (mg_Up m) \<and>
          fromFile files (mg_Version m) (mg_Name m) DirDown (mg_Down m)) ms \<and>
        (let todo = filter (\<lambda>m. mg_Version m \<notin> doneVersions db) ms
         in n = length todo \<and> run_scripts run (map mg_Up todo) (md_data db) = Some (md_data db')) \<and>
        doneVersions db' = doneVersions db \<union> mg_Version ` set ms \<and>
        Apply (\<lambda>_. True) run files db' = (db', Some 0)"
proof (cases r)
  case None
  then show ?thesis using assms by (auto simp: Apply_def Let_def split: option.splits if_splits prod.splits)
next
  case (Some n)
  define db1 where "db1 = (case md_done db of None \<Rightarrow> db\<lparr>md_done := Some []\<rparr> | Some _ \<Rightarrow> db)"
  have d1: "md_done db1 \<noteq> None" "doneVersions db1 = doneVersions db" "md_data db1 = md_data db"
    by (auto simp: db1_def doneVersions_def split: option.split)
  obtain ms where ms: "LoadMigrations files = Some ms" "applyEach ok run ms db1 0 = Some (db', n)"
    using assms Some unfolding Apply_def db1_def Let_def by (auto split: option.splits if_splits prod.splits)
  note l = load_sound [OF ms(1)]
  have dist: "distinct (map mg_Version ms)" unfolding l(1) by (simp add: distinct_map inj_on_def)
  note a = applyEach_some [OF ms(2) d1(1) dist, unfolded d1(2,3)]
  have "applyEach (\<lambda>_. True) run ms db' 0 = Some (db', 0)"
    by (rule applyEach_done) (use a in auto)
  then have again: "Apply (\<lambda>_. True) run files db' = (db', Some 0)"
    using a ms(1) by (auto simp: Apply_def Let_def split: option.splits)
  show ?thesis using Some ms(1) l a again by (auto simp: list.pred_set Let_def)
qed

definition demoFiles :: "migFile list" where
  "demoFiles = map (\<lambda>(n, c). \<lparr>mf_Name = n, mf_IsDir = False, mf_Content = Some c\<rparr>)
     [(''0001_init.down.sql'', ''-a''), (''0001_init.up.sql'', ''a''), (''0002_more.down.sql'', ''-b''), (''0002_more.up.sql'', ''b'')]"

theorem migrations_atomic_witness:
  "snd (Apply (\<lambda>_. True) (\<lambda>q d. Some (d @ q)) demoFiles \<lparr>md_data = ''x'', md_done = Some [(1, ''init'')]\<rparr>) = Some 1 \<and>
   (\<exists>db'. Apply (\<lambda>_. True) (\<lambda>q d. Some (d @ q)) demoFiles \<lparr>md_data = ''x'', md_done = Some [(1, ''init'')]\<rparr> = (db', Some 1) \<and>
     Apply (\<lambda>_. True) (\<lambda>q d. Some (d @ q)) demoFiles db' = (db', Some 0))"
proof -
  let ?out = "Apply (\<lambda>_. True) (\<lambda>q d. Some (d @ q)) demoFiles \<lparr>md_data = ''x'', md_done = Some [(1, ''init'')]\<rparr>"
  have s: "snd ?out = Some 1" by code_simp
  then obtain db' where o: "?out = (db', Some 1)" by (cases ?out) simp
  show ?thesis using migrations_atomic [OF o] s o by auto
qed

end
