(* ===== verification/Seed_Gen.thy ===== *)
theory Seed_Gen
  imports App Migrations Ingest_Sources
begin

text \<open>
  The synthetic listings (\<open>internal/seed\<close>) and the command that fills a store (\<open>cmd/seed\<close>).
  The pseudo-random generator of the library (\<open>math/rand\<close>) is a parameter: its state, and the
  draws from it. What the program draws, in which order and from which range, is the model's.
\<close>

section \<open>The material\<close>

definition seedCities :: "(string \<times> string) list" where
  "seedCities =
     [(''Jakarta Pusat'', ''DKI Jakarta''), (''Jakarta Selatan'', ''DKI Jakarta''),
      (''Jakarta Barat'', ''DKI Jakarta''), (''Jakarta Timur'', ''DKI Jakarta''),
      (''Jakarta Utara'', ''DKI Jakarta''), (''Bogor'', ''Jawa Barat''), (''Depok'', ''Jawa Barat''),
      (''Tangerang'', ''Banten''), (''Tangerang Selatan'', ''Banten''), (''Bekasi'', ''Jawa Barat'')]"

definition seedTitles :: "string list" where
  "seedTitles =
     [''Software Engineer'', ''Backend Engineer'', ''Frontend Engineer'', ''Full Stack Developer'',
      ''Mobile Engineer'', ''Data Analyst'', ''Data Engineer'', ''Data Scientist'', ''Product Manager'',
      ''Product Designer'', ''UX Researcher'', ''QA Engineer'', ''DevOps Engineer'',
      ''Site Reliability Engineer'', ''Security Engineer'', ''Business Analyst'',
      ''Digital Marketing Specialist'', ''Content Writer'', ''Social Media Officer'', ''Accountant'',
      ''Finance Staff'', ''HR Generalist'', ''Recruiter'', ''Customer Success Officer'',
      ''Customer Service Representative'', ''Sales Executive'', ''Account Manager'', ''Operations Staff'',
      ''Project Manager'', ''Graphic Designer'', ''Video Editor'', ''Machine Learning Engineer'',
      ''Android Developer'', ''iOS Developer'', ''Network Engineer'', ''Database Administrator'',
      ''Technical Writer'', ''Growth Marketer'', ''Legal Officer'', ''Procurement Staff'']"

definition seedCompanies :: "string list" where
  "seedCompanies =
     [''Nusantara Digital'', ''Jaya Teknologi'', ''Sinar Data'', ''Cakra Solusi'', ''Garuda Analytics'',
      ''Bahtera Fintech'', ''Meridian Labs'', ''Andalan Group'', ''Mitra Cerdas'', ''Kirana Media'',
      ''Prima Logistik'', ''Sentosa Retail'', ''Wana Energi'', ''Bumi Kreasi'', ''Cendana Bank'',
      ''Delta Payments'', ''Elang Commerce'', ''Fajar Studio'', ''Gemilang Health'', ''Harmoni Edu'',
      ''Insan Mandiri'', ''Juwita Beauty'', ''Kartika Foods'', ''Lentera Cloud'', ''Mustika Travel'',
      ''Nirwana Property'', ''Oasis Agritech'', ''Pelita Insurance'', ''Rajawali Auto'', ''Selaras HR'',
      ''Teratai Games'', ''Untung Marketplace'', ''Vega Robotics'', ''Wijaya Manufaktur'',
      ''Xenia Mobility'', ''Yudha Security'', ''Zamrud Ventures'', ''Angkasa Aero'', ''Buana Maritim'',
      ''Cahaya Solar'']"

definition seedEmploymentTypes :: "string list" where
  "seedEmploymentTypes =
     [''Full Time'', ''Kontrak'', ''Paruh Waktu'', ''Magang'', ''Freelance'']"

text \<open>The label, the years of experience and the word before the title.\<close>

definition seedSeniorities :: "(string \<times> int \<times> string) list" where
  "seedSeniorities =
     [(''Fresh Graduate'', 0, []), (''Junior'', 1, ''Junior''), (''Mid'', 3, []),
      (''Senior'', 5, ''Senior''), (''Lead'', 7, ''Lead''), (''Manager'', 8, ''Manager'')]"

definition seedSources :: "string list" where
  "seedSources =
     [''kalibrr'', ''glints'', ''jobstreet'', ''kemnaker'', ''company-career'']"

definition skillPool :: "string list" where
  "skillPool =
     [''Go'', ''Python'', ''JavaScript'', ''TypeScript'', ''React'', ''SQL'', ''PostgreSQL'', ''Docker'',
      ''Kubernetes'', ''AWS'', ''GCP'', ''Java'', ''Kotlin'', ''Swift'', ''Figma'', ''Excel'', ''Tableau'',
      ''Communication'', ''English'', ''Bahasa Indonesia'']"

section \<open>The generator\<close>

text \<open>\<open>rand.NewSource\<close>, \<open>Intn\<close> and \<open>Perm\<close>, with what the library documents of their results.\<close>

record 'g prng =
  pg_NewSource :: "int \<Rightarrow> 'g"
  pg_Intn :: "'g \<Rightarrow> nat \<Rightarrow> nat \<times> 'g"
  pg_Perm :: "'g \<Rightarrow> nat \<Rightarrow> nat list \<times> 'g"

definition prng_ok :: "'g prng \<Rightarrow> bool" where
  "prng_ok R \<longleftrightarrow> (\<forall>r n. 0 < n \<longrightarrow> fst (pg_Intn R r n) < n) \<and>
     (\<forall>r n. distinct (fst (pg_Perm R r n)) \<and> set (fst (pg_Perm R r n)) = {..<n})"

record Generator =
  gn_seed :: int
  gn_baseTime :: time

definition NewGenerator :: "int \<Rightarrow> time \<Rightarrow> Generator" where
  "NewGenerator seed baseTime = \<lparr>gn_seed = seed, gn_baseTime = baseTime\<rparr>"

definition pickSkills :: "'g prng \<Rightarrow> 'g \<Rightarrow> nat \<Rightarrow> string list \<times> 'g" where
  "pickSkills R r k =
     (let k' = (if k > length skillPool then length skillPool else k);
          (perm, r1) = pg_Perm R r (length skillPool)
      in (map ((!) skillPool) (take k' perm), r1))"

definition seedSalaryText :: "'g prng \<Rightarrow> 'g \<Rightarrow> string \<times> 'g" where
  "seedSalaryText R r =
     (case pg_Intn R r 100 of (p, r1) \<Rightarrow>
        if p < 12 then (''Gaji Negosiasi'', r1)
        else (case pg_Intn R r1 20 of (a, r2) \<Rightarrow>
          (case pg_Intn R r2 15 of (b, r3) \<Rightarrow>
            (let lo = 4 + a; hi = lo + 2 + b in
             (''Rp '' @ itoa (int lo) @ ''.000.000 - Rp '' @ itoa (int hi) @ ''.000.000'', r3)))))"

text \<open>The identity of the \<open>i\<close>-th listing: place, title and employer by its position.\<close>

definition seedCity :: "nat \<Rightarrow> string \<times> string" where
  "seedCity i = seedCities ! (i mod length seedCities)"

definition seedTitle :: "nat \<Rightarrow> string" where
  "seedTitle i = seedTitles ! (i div length seedCities mod length seedTitles)"

definition seedCompanyBase :: "nat \<Rightarrow> string" where
  "seedCompanyBase i = seedCompanies ! (i div (length seedCities * length seedTitles) mod length seedCompanies)"

definition seedCompany :: "nat \<Rightarrow> string" where
  "seedCompany i =
     (let grp = i div (length seedCities * length seedTitles * length seedCompanies) in
      if grp > 0 then seedCompanyBase i @ '' '' @ itoa (int (grp + 1)) else seedCompanyBase i)"

definition seedDisplayTitle :: "string \<Rightarrow> string \<Rightarrow> string" where
  "seedDisplayTitle tag title = (if tag \<noteq> [] then tag @ '' '' @ title else title)"

definition genRawJob :: "'g prng \<Rightarrow> Generator \<Rightarrow> nat \<Rightarrow> RawJob" where
  "genRawJob R g i =
     (let r0 = pg_NewSource R (wrap_int64 (gn_seed g + int i * 2654435761));
          (s, r1) = pg_Intn R r0 (length seedSeniorities);
          (label, minYoE, tag) = seedSeniorities ! s;
          (p, r2) = pg_Intn R r1 100;
          (k, r3) = pg_Intn R r2 4;
          (skills, r4) = pickSkills R r3 (2 + k);
          (y, r5) = pg_Intn R r4 100;
          reqs = (if y < 80 then skills @ [''Minimum '' @ itoa minYoE @ '' years experience''] else skills);
          (h, r6) = pg_Intn R r5 (30 * 24);
          (s', r7) = pg_Intn R r6 (length seedSources);
          (salary, r8) = seedSalaryText R r7;
          (e, r9) = pg_Intn R r8 (length seedEmploymentTypes)
      in \<lparr>rj_Source = seedSources ! s',
          rj_SourceURL = ''https://example.test/'' @ seedCompanyBase i @ ''/'' @ itoa (int i),
          rj_Synthetic = True, rj_Title = seedDisplayTitle tag (seedTitle i), rj_Company = seedCompany i,
          rj_Location = fst (seedCity i) @ '', '' @ snd (seedCity i), rj_Remote = (p < 15),
          rj_SalaryText = salary, rj_Seniority = label, rj_EmploymentType = seedEmploymentTypes ! e,
          rj_Requirements = reqs, rj_PostedAt = Some (add_dur (gn_baseTime g) (- hours (int h)))\<rparr>)"

definition gen_Jobs :: "normEnv \<Rightarrow> 'g prng \<Rightarrow> Generator \<Rightarrow> nat \<Rightarrow> Job list" where
  "gen_Jobs env R g n = some_vals (\<lambda>i. case Normalize env (genRawJob R g i) of Inl _ \<Rightarrow> None | Inr j \<Rightarrow> Some j) [0..<n]"

section \<open>Seeding a store\<close>

datatype 'e seed_err = SeedCancelled | SeedStore 'e

text \<open>\<open>cancelled i\<close> is whether the context has ended when the \<open>i\<close>-th listing is due.\<close>

fun seedEach ::
  "('s \<Rightarrow> Job \<Rightarrow> 's \<times> ('e + bool)) \<Rightarrow> normEnv \<Rightarrow> 'g prng \<Rightarrow> (nat \<Rightarrow> bool) \<Rightarrow> Generator \<Rightarrow> nat list \<Rightarrow> 's \<Rightarrow> int \<Rightarrow>
   's \<times> int \<times> 'e seed_err option" where
  "seedEach upsert env R cancelled g [] s created = (s, created, None)"
| "seedEach upsert env R cancelled g (i # is) s created =
     (if cancelled i then (s, created, Some SeedCancelled)
      else (case Normalize env (genRawJob R g i) of
          Inl _ \<Rightarrow> seedEach upsert env R cancelled g is s created
        | Inr j \<Rightarrow> (case upsert s j of
            (s', Inl e) \<Rightarrow> (s', created, Some (SeedStore e))
          | (s', Inr wasNew) \<Rightarrow> seedEach upsert env R cancelled g is s' (if wasNew then created + 1 else created))))"

definition Seed ::
  "('s \<Rightarrow> Job \<Rightarrow> 's \<times> ('e + bool)) \<Rightarrow> normEnv \<Rightarrow> 'g prng \<Rightarrow> (nat \<Rightarrow> bool) \<Rightarrow> 's \<Rightarrow> nat \<Rightarrow> int \<Rightarrow> time \<Rightarrow>
   's \<times> int \<times> 'e seed_err option" where
  "Seed upsert env R cancelled s n seedVal baseTime =
     seedEach upsert env R cancelled (NewGenerator seedVal baseTime) [0..<n] s 0"

section \<open>The command\<close>

definition validateSyntheticSeedTarget :: "string \<Rightarrow> string option" where
  "validateSyntheticSeedTarget databaseURL =
     (if databaseURL \<noteq> [] then Some ''synthetic seeding refuses DATABASE_URL; use -real for persistent real listings'' else None)"

text \<open>What is logged: the number created, and whether the warning of too few follows.\<close>

definition seedInto ::
  "('s \<Rightarrow> Job \<Rightarrow> 's \<times> ('e + bool)) \<Rightarrow> normEnv \<Rightarrow> 'g prng \<Rightarrow> 's \<Rightarrow> nat \<Rightarrow> int \<Rightarrow> time \<Rightarrow> 's \<times> ('e seed_err + int \<times> bool)" where
  "seedInto upsert env R s n seedVal now =
     (case Seed upsert env R (\<lambda>_. False) s n seedVal now of
        (s', created, Some e) \<Rightarrow> (s', Inl e)
      | (s', created, None) \<Rightarrow> (s', Inr (created, created < DefaultCount)))"

definition realSeedCaps :: "int \<Rightarrow> bool \<Rightarrow> int \<times> int" where
  "realSeedCaps target joobleEnabled =
     (let t = (if target \<le> 0 then DefaultCount else target) in (t, if joobleEnabled then t else 0))"

datatype 'e seedFault = PersistFault string 'e | CountFault 'e | TooFewListings nat

text \<open>\<open>counted\<close> is the answer of the store to \<open>RealActiveCount\<close>; the faults are joined into one error.\<close>

definition validateRealSeedResult :: "'e + nat \<Rightarrow> ('f, 'e) SourceReport list \<Rightarrow> 'e seedFault list + nat" where
  "validateRealSeedResult counted rep =
     (let errs = some_vals (\<lambda>sr. map_option (PersistFault (sr_Source sr)) (sr_PersistErr sr)) rep @
        (case counted of Inl e \<Rightarrow> [CountFault e]
         | Inr realCount \<Rightarrow> if int realCount < DefaultCount then [TooFewListings realCount] else [])
      in if length errs > 0 then Inl errs else (case counted of Inl e \<Rightarrow> Inl [] | Inr realCount \<Rightarrow> Inr realCount))"

definition seedRealConfig :: "environ \<Rightarrow> int \<Rightarrow> SourceConfig" where
  "seedRealConfig vars target =
     (let joobleKey0 = trim_space (vars ''JOOBLE_API_KEY'');
          (kalibrrLimit, joobleLimit) = realSeedCaps target (joobleKey0 \<noteq> []);
          joobleKey = (if joobleLimit = 0 then [] else joobleKey0)
      in \<lparr>sg_KalibrrLimit = kalibrrLimit, sg_JoobleAPIKey = joobleKey, sg_JoobleLimit = joobleLimit,
          sg_JoobleBackfill = (joobleKey \<noteq> []), sg_CareerjetAffid = trim_space (vars ''CAREERJET_AFFID''),
          sg_CareerjetLimit = target, sg_ATSEnabled = True, sg_ATSSlugs = [], sg_WorkdayCompanies = None,
          sg_SmartRecruitersCompanies = None, sg_RemoteEnabled = True, sg_RemoteLimit = 100\<rparr>)"

datatype 'e seedRealErr = SeedNoDatabase | SeedPool string | SeedNoSources | SeedFaults "'e seedFault list"

text \<open>\<open>connect\<close> is the database if it can be reached; its migrations are applied before it is used.\<close>

definition openPool ::
  "(migStep \<Rightarrow> bool) \<Rightarrow> (string \<Rightarrow> 'd \<Rightarrow> 'd option) \<Rightarrow> migFile list \<Rightarrow> 'd migDB option \<Rightarrow> string + 'd migDB" where
  "openPool ok run files connect =
     (case connect of
        None \<Rightarrow> Inl ''connect to database''
      | Some db \<Rightarrow> (case Apply ok run files db of
          (db', None) \<Rightarrow> Inl ''apply migrations'' | (db', Some applied) \<Rightarrow> Inr db'))"

text \<open>
  \<open>opened\<close> is the store of the opened database, \<open>fetch\<close> the answers of the sources within the
  time limit of the pass. The result is the store after the command, if it was opened.
\<close>

definition seedReal ::
  "('s \<Rightarrow> Job \<Rightarrow> 's \<times> ('e + bool)) \<Rightarrow> ('s \<Rightarrow> 'e + nat) \<Rightarrow> normEnv \<Rightarrow> environ \<Rightarrow> (string \<Rightarrow> raw) \<Rightarrow>
   (string \<Rightarrow> 'f + RawJob list) \<Rightarrow> time \<Rightarrow> int \<Rightarrow> string + 's \<Rightarrow> 's option \<times> ('e seedRealErr + nat)" where
  "seedReal upsert realActive env vars files fetch now target0 opened =
     (if vars ''DATABASE_URL'' = [] then (None, Inl SeedNoDatabase)
      else (let target = (if target0 \<le> 0 then DefaultCount else target0) in
        case opened of
          Inl e \<Rightarrow> (None, Inl (SeedPool e))
        | Inr s \<Rightarrow>
            (let reg = BuildRegistry files (seedRealConfig vars target) in
             if length (reg_Sources reg) = 0 then (Some s, Inl SeedNoSources)
             else (case RunOnce upsert env fetch now (map the (reg_Sources reg)) (NewRunner s 0 0) of
               (r, rep) \<Rightarrow>
                 (Some (rn_store r),
                  (case validateRealSeedResult (realActive (rn_store r)) rep of
                     Inl errs \<Rightarrow> Inl (SeedFaults errs) | Inr realCount \<Rightarrow> Inr realCount))))))"

end
