(* ===== verification/Seed_Props.thy ===== *)
theory Seed_Props
  imports Seed_Gen
begin

text \<open>
  The identities of the synthetic listings are pairwise different, every one of them passes the
  normalizer, and seeding a fresh store creates them all.
\<close>

section \<open>Words\<close>

lemma split_by_sep: "P c \<Longrightarrow> split_by P (s @ c # t) = split_by P s @ split_by P t"
proof (induction s)
  case (Cons a s)
  then show ?case by (cases "split_by P s") auto
qed simp

lemma words_of_sep: "nonAlnum c \<Longrightarrow> lower_char c = c \<Longrightarrow> words_of (s @ c # t) = words_of s @ words_of t"
  by (simp add: words_of_def fields_func_def split_by_sep to_lower_def)

lemma digit_plain: "is_digit c \<Longrightarrow> lower_char c = c \<and> \<not> nonAlnum c \<and> \<not> is_space c \<and> \<not> re_space c"
  by (auto simp: is_digit_def lower_char_def nonAlnum_def is_space_def re_space_def)

lemma split_by_plain: "\<forall>c \<in> set s. \<not> P c \<Longrightarrow> split_by P s = [s]"
  by (induction s) auto

lemma words_of_digits: "list_all is_digit ds \<Longrightarrow> ds \<noteq> [] \<Longrightarrow> words_of ds = [ds]"
proof -
  assume a: "list_all is_digit ds" "ds \<noteq> []"
  have "to_lower ds = ds" using a digit_plain by (auto simp: to_lower_def list_all_iff map_idI)
  then show ?thesis using a digit_plain split_by_plain [of ds nonAlnum]
    by (auto simp: words_of_def fields_func_def list_all_iff)
qed

lemma squeeze_mid: "s \<noteq> [] \<Longrightarrow> \<not> P (last s) \<Longrightarrow> squeeze P (s @ t) = squeeze P s @ squeeze P t"
proof (induction P s rule: squeeze.induct)
  case (2 P c cs)
  have "\<exists>x \<in> set cs. \<not> P x" if "P c" using 2 that last_in_set [of cs] by (auto split: if_splits)
  moreover have "last (dropWhile P cs) = last cs" if "dropWhile P cs \<noteq> []"
    using that by (metis last_appendR takeWhile_dropWhile_id)
  ultimately show ?case using 2 by (cases "cs = []") (auto simp: dropWhile_append dropWhile_eq_Nil_conv split: if_splits)
qed simp

lemma squeeze_plain: "\<forall>c \<in> set s. \<not> P c \<Longrightarrow> squeeze P s = s"
  using squeeze_append [of s P "[]"] by simp

lemma itoa_digits: "list_all is_digit (itoa (int n))" "itoa (int n) \<noteq> []"
  by (simp_all add: itoa_def nat_digits_digit)

text \<open>Two tidy texts with a blank between them.\<close>

lemma tidyD:
  assumes "tidy s" "s \<noteq> []"
  shows "trim_space s = s" "squeeze re_space s = s" "\<not> is_space (hd s)" "\<not> is_space (last s)"
proof -
  have c: "squeeze re_space (trim_space s) = s" using assms by (simp add: tidy_def collapse_squeeze)
  have "trim_space (collapse s) = collapse s"
    using collapse_idem [of s] by (metis assms(1) c collapse_squeeze squeeze_hd last_squeeze re_space_is_space squeeze_Nil tidy_def trim_space_eq trim_space_idem)
  then show t: "trim_space s = s" using assms by (simp add: tidy_def)
  then show "squeeze re_space s = s" using c by simp
  show "\<not> is_space (hd s)" "\<not> is_space (last s)" using t assms(2) by (simp_all add: trim_space_eq)
qed

lemma tidy_pair:
  assumes "tidy s" "s \<noteq> []" "tidy t" "t \<noteq> []"
  shows "tidy (s @ '' '' @ t)"
proof -
  note s = tidyD [OF assms(1,2)] and t = tidyD [OF assms(3,4)]
  have tr: "trim_space (s @ '' '' @ t) = s @ '' '' @ t" using assms(2,4) s t by (simp add: trim_space_eq)
  have "re_space CHR '' ''" by code_simp
  moreover have "\<not> re_space (hd t)" using t re_space_is_space by blast
  ultimately have "squeeze re_space ('' '' @ t) = '' '' @ t" using t(2) assms(4) by (cases t) auto
  moreover have "\<not> re_space (last s)" using s re_space_is_space by blast
  ultimately show ?thesis using squeeze_mid [OF assms(2), of re_space "'' '' @ t"] s tr by (simp add: tidy_def collapse_squeeze)
qed

lemma tidy_itoa: "tidy (itoa (int n))"
proof -
  have d: "\<forall>c \<in> set (itoa (int n)). \<not> is_space c \<and> \<not> re_space c" using digit_plain itoa_digits [of n] by (auto simp: list_all_iff)
  then have "trim_space (itoa (int n)) = itoa (int n)" using itoa_digits(2) [of n] by (simp add: trim_space_eq)
  then show ?thesis using d squeeze_plain [of "itoa (int n)" re_space] by (simp add: tidy_def collapse_squeeze)
qed

section \<open>The URLs\<close>

lemma cut_none: "b \<notin> set s \<Longrightarrow> Go_Net.cut b s = (s, None)"
  by (induction s) auto

lemma unescape_plain: "CHR ''%'' \<notin> set s \<Longrightarrow> unescape (\<lambda>_. False) ok s = Some s"
  by (induction s) auto

definition urlSafe :: "char \<Rightarrow> bool" where
  "urlSafe c \<longleftrightarrow> \<not> (of_char c :: int) < 32 \<and> c \<notin> set ''#?%'' \<and> c \<noteq> CHR 0x7F"

lemma example_url_ok:
  assumes "list_all urlSafe p" "p \<noteq> []" "\<not> is_space (last p)"
  shows "ValidateSourceURL (''https://example.test/'' @ p)" "trim_space (''https://example.test/'' @ p) = ''https://example.test/'' @ p"
proof -
  let ?u = "''https://example.test/'' @ p"
  show t: "trim_space ?u = ?u" using assms(2,3) by (simp add: trim_space_eq) (simp add: is_space_def)
  have n: "CHR ''#'' \<notin> set p" "CHR ''?'' \<notin> set p" "CHR ''%'' \<notin> set p" using assms(1) by (auto simp: list_all_iff urlSafe_def)
  have ctl: "\<not> list_ex (\<lambda>c. (of_char c :: int) < 32 \<or> c = CHR 0x7F) ?u"
    using assms(1) by (auto simp: list_all_iff list_ex_iff urlSafe_def)
  have l: "is_letter CHR ''h''" "is_letter CHR ''t''" "is_letter CHR ''p''" "is_letter CHR ''s''"
    "\<not> is_letter CHR '':''" "\<not> is_digit CHR '':''" by code_simp+
  have "scheme_len ?u True = Some (Some 5)" by (simp add: l)
  then have sch: "getScheme ?u = Some (''https'', ''//example.test/'' @ p)" by (simp add: getScheme_def)
  have host: "parseAuthority ''example.test'' = Some (False, ''example.test'')" by code_simp
  have path: "path_unescape (CHR ''/'' # p) = Some (CHR ''/'' # p)" using n(3) unescape_plain [of p] by (simp add: path_unescape_def)
  have cq: "Go_Net.cut CHR ''?'' (''//example.test/'' @ p) = (''//example.test/'' @ p, None)" using n(2) by (intro cut_none) simp
  have ch: "Go_Net.cut CHR ''#'' ?u = (?u, None)" using n(1) by (intro cut_none) simp
  have auth: "fst (Go_Net.cut CHR ''/'' (''example.test/'' @ p)) = ''example.test''" by simp
  have "url_parse ?u = Some \<lparr>url_Scheme = ''https'', url_User = False, url_Host = ''example.test'', url_Path = CHR ''/'' # p, url_RawQuery = []\<rparr>"
    unfolding url_parse_def ch using ctl sch host path cq auth
    by (simp add: has_prefix_def to_lower_def lower_char_def Let_def)
  moreover have "url_Hostname \<lparr>url_Scheme = ''https'', url_User = False, url_Host = ''example.test'', url_Path = CHR ''/'' # p, url_RawQuery = []\<rparr> = ''example.test''"
    unfolding url_Hostname_def by code_simp
  ultimately show "ValidateSourceURL ?u" unfolding ValidateSourceURL_def t by (simp add: equal_fold_def)
qed

section \<open>The material\<close>

declare collapse_squeeze [code]

lemma material_lengths:
  "length seedCities = 10" "length seedTitles = 40" "length seedCompanies = 40"
  "length seedSeniorities = 6" "length seedSources = 5" "length seedEmploymentTypes = 5" "length skillPool = 20"
  by code_simp+

text \<open>The title without the word of the seniority.\<close>

definition seedTags :: "string list" where
  "seedTags = map (\<lambda>(_, _, tag). tag) seedSeniorities"

definition stripTag :: "string list \<Rightarrow> string list" where
  "stripTag ws = (if hd ws \<in> set (map to_lower seedTags) then tl ws else ws)"

lemma titles_ok: "list_all (\<lambda>t. tidy t \<and> t \<noteq> [] \<and> hd (words_of t) \<notin> set (map to_lower seedTags)) seedTitles"
  by code_simp

lemma tags_ok: "list_all (\<lambda>t. tidy t \<and> (t \<noteq> [] \<longrightarrow> words_of t = [to_lower t])) seedTags"
  by code_simp

lemma titles_distinct: "distinct (map words_of seedTitles)"
  by code_simp

lemma companies_ok: "list_all (\<lambda>c. tidy c \<and> c \<noteq> [] \<and> length (words_of c) = 2 \<and> list_all urlSafe c) seedCompanies"
  by code_simp

lemma companies_distinct: "distinct (map words_of seedCompanies)"
  by code_simp

definition cityOk :: "string \<times> string \<Rightarrow> bool" where
  "cityOk c \<longleftrightarrow> (let l = fst c @ '', '' @ snd c in tidy l \<and> cityOf l = fst c \<and> trim_space l = l \<and>
     list_ex (contains (to_lower l)) jabodetabekTokens)"

lemma cities_ok: "list_all cityOk seedCities"
  by code_simp

lemma cities_distinct: "distinct (map (words_of \<circ> fst) seedCities)"
  by code_simp

lemma sources_ok: "list_all (\<lambda>s. collapse s \<noteq> []) seedSources"
  by code_simp

section \<open>Identities\<close>

lemma nth_okI: "list_all P xs \<Longrightarrow> k < length xs \<Longrightarrow> P (xs ! k)"
  by (simp add: list_all_length)

lemma seedTitle_ok: "tidy (seedTitle i) \<and> seedTitle i \<noteq> [] \<and> hd (words_of (seedTitle i)) \<notin> set (map to_lower seedTags)"
  unfolding seedTitle_def by (rule nth_okI [OF titles_ok]) (simp add: material_lengths)

lemma seedCompanyBase_ok:
  "tidy (seedCompanyBase i) \<and> seedCompanyBase i \<noteq> [] \<and> length (words_of (seedCompanyBase i)) = 2 \<and> list_all urlSafe (seedCompanyBase i)"
  unfolding seedCompanyBase_def by (rule nth_okI [OF companies_ok]) (simp add: material_lengths)

lemma seedCity_ok: "cityOk (seedCity i)"
  unfolding seedCity_def by (rule nth_okI [OF cities_ok]) (simp add: material_lengths)

lemma display_ok:
  assumes "tag \<in> set seedTags"
  shows "tidy (seedDisplayTitle tag (seedTitle i)) \<and> seedDisplayTitle tag (seedTitle i) \<noteq> [] \<and>
    stripTag (words_of (seedDisplayTitle tag (seedTitle i))) = words_of (seedTitle i)"
proof -
  have t: "tidy tag \<and> (tag \<noteq> [] \<longrightarrow> words_of tag = [to_lower tag])"
    using tags_ok assms by (auto simp: list_all_iff)
  have "nonAlnum CHR '' ''" "lower_char CHR '' '' = CHR '' ''" by code_simp+
  then have "words_of (tag @ '' '' @ seedTitle i) = words_of tag @ words_of (seedTitle i)"
    using words_of_sep [of "CHR '' ''" tag "seedTitle i"] by simp
  then show ?thesis using t seedTitle_ok [of i] tidy_pair [of tag "seedTitle i"] assms
    by (auto simp: seedDisplayTitle_def stripTag_def)
qed

definition seedGroup :: "nat \<Rightarrow> nat" where
  "seedGroup i = i div 16000"

lemma company_ok:
  "tidy (seedCompany i) \<and> seedCompany i \<noteq> [] \<and>
   words_of (seedCompany i) = words_of (seedCompanyBase i) @ (if seedGroup i > 0 then [itoa (int (seedGroup i + 1))] else [])"
proof -
  have g: "length seedCities * length seedTitles * length seedCompanies = 16000" by (simp add: material_lengths)
  have "nonAlnum CHR '' ''" "lower_char CHR '' '' = CHR '' ''" by code_simp+
  then have "words_of (seedCompanyBase i @ '' '' @ itoa (int n)) = words_of (seedCompanyBase i) @ [itoa (int n)]" for n
    using words_of_sep [of "CHR '' ''" "seedCompanyBase i" "itoa (int n)"] words_of_digits [OF itoa_digits, of n] by simp
  then show ?thesis
    using seedCompanyBase_ok [of i] tidy_pair [OF _ _ tidy_itoa itoa_digits(2), of "seedCompanyBase i"]
    unfolding seedCompany_def g seedGroup_def [symmetric] Let_def by (auto simp del: append_Cons of_nat_add of_nat_Suc)
qed

lemma distinct_nth: "distinct (map f xs) \<Longrightarrow> k < length xs \<Longrightarrow> k' < length xs \<Longrightarrow> f (xs ! k) = f (xs ! k') \<Longrightarrow> k = k'"
  using nth_eq_iff_index_eq [of "map f xs" k k'] by simp

text \<open>The three parts of an identity determine the position.\<close>

lemma identity_inj:
  assumes c: "words_of (seedCompany i) = words_of (seedCompany j)"
    and t: "words_of (seedTitle i) = words_of (seedTitle j)"
    and l: "words_of (fst (seedCity i)) = words_of (fst (seedCity j))"
  shows "i = j"
proof -
  have 1: "i mod 10 = j mod 10"
    using distinct_nth [OF cities_distinct, of "i mod 10" "j mod 10"] l by (simp add: seedCity_def material_lengths)
  have 2: "i div 10 mod 40 = j div 10 mod 40"
    using distinct_nth [OF titles_distinct, of "i div 10 mod 40" "j div 10 mod 40"] t by (simp add: seedTitle_def material_lengths)
  have len: "length (words_of (seedCompanyBase i)) = 2" "length (words_of (seedCompanyBase j)) = 2"
    using seedCompanyBase_ok by auto
  have b: "words_of (seedCompanyBase i) = words_of (seedCompanyBase j)"
    and g: "(if seedGroup i > 0 then [itoa (int (seedGroup i + 1))] else []) = (if seedGroup j > 0 then [itoa (int (seedGroup j + 1))] else [])"
    using c len unfolding company_ok [THEN conjunct2, THEN conjunct2] by simp_all
  have 3: "i div 400 mod 40 = j div 400 mod 40"
    using distinct_nth [OF companies_distinct, of "i div 400 mod 40" "j div 400 mod 40"] b
    by (simp add: seedCompanyBase_def material_lengths)
  have 4: "seedGroup i = seedGroup j"
    using g itoa_inj [of "int (seedGroup i + 1)" "int (seedGroup j + 1)"] by (simp split: if_splits)
  have d: "k div 16000 = k div 400 div 40" "k div 400 = k div 10 div 40" for k :: nat by (simp_all add: div_mult2_eq [symmetric])
  have "i div 400 = j div 400" using 3 4 unfolding seedGroup_def d(1) by (metis div_mult_mod_eq)
  then have "i div 10 = j div 10" using 2 unfolding d(2) by (metis div_mult_mod_eq)
  then show ?thesis using 1 by (metis div_mult_mod_eq)
qed

section \<open>The listings\<close>

text \<open>The text that is hashed for a raw listing.\<close>

definition rawSeed :: "RawJob \<Rightarrow> string" where
  "rawSeed raw = dedupSeed (collapse (rj_Company raw)) (collapse (rj_Title raw)) (collapse (rj_Location raw))"

lemma gen_fields:
  assumes "prng_ok R"
  shows "\<exists>tag \<in> set seedTags. rj_Title (genRawJob R g i) = seedDisplayTitle tag (seedTitle i)"
    "rj_Source (genRawJob R g i) \<in> set seedSources"
    "rj_SourceURL (genRawJob R g i) = ''https://example.test/'' @ seedCompanyBase i @ ''/'' @ itoa (int i)"
    "rj_Company (genRawJob R g i) = seedCompany i" "rj_Synthetic (genRawJob R g i)"
    "rj_Location (genRawJob R g i) = fst (seedCity i) @ '', '' @ snd (seedCity i)"
proof -
  have r: "0 < n \<Longrightarrow> fst (pg_Intn R r n) < n" for r n using assms by (simp add: prng_ok_def)
  have p: "0 < length seedSeniorities" "0 < length seedSources" by (simp_all add: material_lengths)
  let ?s = "seedSeniorities ! fst (pg_Intn R (pg_NewSource R (wrap_int64 (gn_seed g + int i * 2654435761))) (length seedSeniorities))"
  have "?s \<in> set seedSeniorities" by (rule nth_mem [OF r [OF p(1)]])
  moreover have "rj_Title (genRawJob R g i) = seedDisplayTitle (snd (snd ?s)) (seedTitle i)"
    by (simp add: genRawJob_def Let_def case_prod_unfold)
  ultimately show "\<exists>tag \<in> set seedTags. rj_Title (genRawJob R g i) = seedDisplayTitle tag (seedTitle i)"
    by (auto simp: seedTags_def case_prod_unfold)
  show "rj_Source (genRawJob R g i) \<in> set seedSources"
    by (simp add: genRawJob_def Let_def case_prod_unfold nth_mem [OF r [OF p(2)]])
  show "rj_SourceURL (genRawJob R g i) = ''https://example.test/'' @ seedCompanyBase i @ ''/'' @ itoa (int i)"
    "rj_Company (genRawJob R g i) = seedCompany i" "rj_Synthetic (genRawJob R g i)"
    "rj_Location (genRawJob R g i) = fst (seedCity i) @ '', '' @ snd (seedCity i)"
    by (simp_all add: genRawJob_def Let_def case_prod_unfold)
qed

lemma gen_normal:
  assumes "prng_ok R"
  shows "\<exists>j. Normalize env (genRawJob R g i) = Inr j \<and> j_DedupKey j = hex_encode (take 16 (ne_sha256 env (rawSeed (genRawJob R g i)))) \<and>
    j_Synthetic j \<and> isJabodetabekOrRemote j \<and> ValidateSourceURL (j_SourceURL j)"
proof -
  let ?r = "genRawJob R g i"
  note f = gen_fields [OF assms, of g i]
  obtain tag where tag: "tag \<in> set seedTags" "rj_Title ?r = seedDisplayTitle tag (seedTitle i)" using f(1) by blast
  have src: "collapse (rj_Source ?r) \<noteq> []" using f(2) sources_ok by (auto simp: list_all_iff)
  have ti: "collapse (rj_Title ?r) \<noteq> []" using display_ok [OF tag(1), of i] tag(2) by (simp add: tidy_def)
  have co: "collapse (rj_Company ?r) \<noteq> []" using company_ok [of i] f(4) by (simp add: tidy_def)
  let ?p = "seedCompanyBase i @ ''/'' @ itoa (int i)"
  have dig: "is_digit c \<Longrightarrow> urlSafe c" for c by (auto simp: is_digit_def urlSafe_def of_char_int)
  have "urlSafe CHR ''/''" by code_simp
  then have "list_all urlSafe ?p" using seedCompanyBase_ok [of i] itoa_digits [of i] dig by (auto simp: list_all_iff)
  moreover have "\<not> is_space (last ?p)" using itoa_digits [of i] digit_plain by (simp add: list_all_iff)
  ultimately have u: "ValidateSourceURL (rj_SourceURL ?r)" "trim_space (rj_SourceURL ?r) = rj_SourceURL ?r"
    using example_url_ok [of ?p] f(3) by simp_all
  have u0: "rj_SourceURL ?r \<noteq> []" using f(3) by simp
  have loc: "collapse (rj_Location ?r) = rj_Location ?r" "trim_space (rj_Location ?r) = rj_Location ?r"
    "list_ex (contains (to_lower (rj_Location ?r))) jabodetabekTokens" "rj_Location ?r \<noteq> []"
    using seedCity_ok [of i] f(6) by (simp_all add: cityOk_def tidy_def Let_def)
  obtain lo hi where s: "ParseSalaryIDR env (rj_SalaryText ?r) = (lo, hi)" by fastforce
  show ?thesis
    using src ti co u u0 loc s f(5)
    by (simp add: Normalize_def Let_def rawSeed_def dedupKey_def isJabodetabekOrRemote_def)
qed

lemma rawSeed_inj:
  assumes "prng_ok R" "rawSeed (genRawJob R g i) = rawSeed (genRawJob R g j)"
  shows "i = j"
proof (rule identity_inj)
  note f = gen_fields [OF assms(1), of g]
  have c: "words_of (seedCompany i) = words_of (seedCompany j)"
    and t: "words_of (collapse (rj_Title (genRawJob R g i))) = words_of (collapse (rj_Title (genRawJob R g j)))"
    and l: "words_of (cityOf (collapse (rj_Location (genRawJob R g i)))) = words_of (cityOf (collapse (rj_Location (genRawJob R g j))))"
    using assms(2) company_ok [of i] company_ok [of j] f(4) [of i] f(4) [of j]
    by (simp_all add: rawSeed_def dedupSeed_eq_iff canon_eq_iff tidy_def)
  show "words_of (seedCompany i) = words_of (seedCompany j)" by (rule c)
  have st: "stripTag (words_of (collapse (rj_Title (genRawJob R g k)))) = words_of (seedTitle k)" for k
  proof -
    obtain tag where tag: "tag \<in> set seedTags" "rj_Title (genRawJob R g k) = seedDisplayTitle tag (seedTitle k)" using f(1) by blast
    then show ?thesis using display_ok [OF tag(1), of k] by (simp add: tidy_def)
  qed
  show "words_of (seedTitle i) = words_of (seedTitle j)" using st t by metis
  have "cityOf (collapse (rj_Location (genRawJob R g k))) = fst (seedCity k)" for k
    using seedCity_ok [of k] f(6) [of k] by (simp add: cityOk_def tidy_def Let_def)
  then show "words_of (fst (seedCity i)) = words_of (fst (seedCity j))" using l by simp
qed

section \<open>Seeding\<close>

lemma fold_put:
  assumes "inj_on key (set is)"
  shows "foldl (\<lambda>v i. v(key i \<mapsto> f i)) v0 is x = (if x \<in> key ` set is then Some (f (the_inv_into (set is) key x)) else v0 x)"
  using assms
proof (induction "is" rule: rev_induct)
  case (snoc i xs)
  have "inj_on key (set xs)" using snoc.prems by (auto simp: inj_on_def)
  moreover have "the_inv_into (set xs) key (key k) = k" if "k \<in> set xs" for k
    using the_inv_into_f_f [OF calculation that] .
  moreover have "the_inv_into (set (xs @ [i])) key (key k) = k" if "k \<in> set (xs @ [i])" for k
    using the_inv_into_f_f [OF snoc.prems that] .
  ultimately show ?case using snoc.IH by auto
qed simp

context job_store_total
begin

lemma seedEach_total:
  assumes "inv s" "distinct is"
    and "\<And>i. i \<in> set is \<Longrightarrow> Normalize env (genRawJob R g i) = Inr (f i) \<and> ValidateSourceURL (j_SourceURL (f i)) \<and> view s (j_DedupKey (f i)) = None"
    and "inj_on (\<lambda>i. j_DedupKey (f i)) (set is)"
    and "seedEach upsert env R cancelled g is s c = (s', c', err)"
  shows "let k = takeWhile (\<lambda>i. \<not> cancelled i) is in
    inv s' \<and> c' = c + int (length k) \<and> err = (if k = is then None else Some SeedCancelled) \<and>
    view s' = foldl (\<lambda>v i. v(j_DedupKey (f i) \<mapsto> kept (f i))) (view s) k"
  using assms
proof (induction "is" arbitrary: s c)
  case (Cons i js)
  show ?case
  proof (cases "cancelled i")
    case True
    then show ?thesis using Cons.prems by simp
  next
    case False
    have i: "Normalize env (genRawJob R g i) = Inr (f i)" "ValidateSourceURL (j_SourceURL (f i))" "view s (j_DedupKey (f i)) = None"
      using Cons.prems(3) by auto
    obtain s1 created where u: "upsert s (f i) = (s1, Inr created)" using upsert_total [OF Cons.prems(1) i(2)] by blast
    have s1: "inv s1" "view s1 = (view s)(j_DedupKey (f i) \<mapsto> kept (f i))" "created"
      using upsert_ok [OF Cons.prems(1) u] i(3) by simp_all
    have "j_DedupKey (f k) \<noteq> j_DedupKey (f i)" if "k \<in> set js" for k
      using Cons.prems(2,4) that by (auto simp: inj_on_def)
    then have "view s1 (j_DedupKey (f k)) = None" if "k \<in> set js" for k
      using Cons.prems(3) [of k] that s1(2) by simp
    moreover have "seedEach upsert env R cancelled g js s1 (c + 1) = (s', c', err)"
      using Cons.prems(5) False i(1) u s1(3) by simp
    ultimately show ?thesis
      using Cons.IH [OF s1(1), of "c + 1"] Cons.prems(2,3,4) False s1(2) by (simp add: Let_def)
  qed
qed simp

end

lemma dom_gget: "dom (gget m) = fst ` set m"
  unfolding gget_def by (rule dom_map_of_conv_image_fst)

lemma jm_Len_view:
  assumes "jm_inv m"
  shows "jm_Len m = card (dom (jm_view m))"
proof -
  have "dom (jm_view m) = dom (gget (ms_jobs m))" by (auto simp: jm_view_def)
  then have "dom (jm_view m) = set (map fst (ms_jobs m))" by (simp add: dom_gget)
  moreover have "distinct (map fst (ms_jobs m))" using assms by (simp add: jm_inv_def gok_def)
  ultimately show ?thesis by (simp only: distinct_card jm_Len_def length_map)
qed

lemma jm_All_view: "jm_inv m \<Longrightarrow> j \<in> set (jm_All m) \<longleftrightarrow> jm_view m (j_DedupKey j) = Some j"
  by (simp add: jm_All_def jm_snapshot_mem jm_view_def)

lemma jm_real_none: "\<forall>j \<in> set (jm_All m). j_Synthetic j \<Longrightarrow> jm_RealActiveCount m = 0"
  by (auto simp: jm_All_def jm_snapshot_def jm_RealActiveCount_def filter_empty_conv)

text \<open>
  C37: Seeding fills an empty store. Whatever the random generator draws within its ranges, and
  unless the truncated hash collides on the listings themselves, the listings the generator makes
  for different positions are never taken for one job: all \<open>n\<close> pass the normalizer, and seeding a
  fresh store creates exactly as many as there were before the context ended, all of them
  synthetic and in Jabodetabek, and holds nothing else. None of them counts as a real listing, so
  seeding alone never opens registration.
\<close>

theorem seed_fills_fresh_store:
  assumes "prng_ok R" and "inj_on (\<lambda>x. take 16 (ne_sha256 env x)) ((\<lambda>i. rawSeed (genRawJob R (NewGenerator seedVal base) i)) ` {..<n})"
    and "Seed jm_Upsert env R cancelled (NewMemoryStoreClock now) n seedVal base = (s, created, err)"
  shows "let k = length (takeWhile (\<lambda>i. \<not> cancelled i) [0..<n]) in
    created = int k \<and> jm_Len s = k \<and> err = (if k = n then None else Some SeedCancelled) \<and>
    set (jm_All s) = set (gen_Jobs env R (NewGenerator seedVal base) k) \<and>
    length (gen_Jobs env R (NewGenerator seedVal base) k) = k \<and>
    list_all (\<lambda>j. j_Synthetic j \<and> isJabodetabekOrRemote j) (jm_All s) \<and>
    \<not> registrationGate vars (Some (Inr (int (jm_RealActiveCount s)) :: unit + int)) ''POST'' ''/auth/register''"
proof -
  define g where "g = NewGenerator seedVal base"
  define f where "f i = projr (Normalize env (genRawJob R g i))" for i
  define ks where "ks = takeWhile (\<lambda>i. \<not> cancelled i) [0..<n]"
  let ?s0 = "NewMemoryStoreClock now"
  have f: "Normalize env (genRawJob R g i) = Inr (f i) \<and>
      j_DedupKey (f i) = hex_encode (take 16 (ne_sha256 env (rawSeed (genRawJob R g i)))) \<and>
      j_Synthetic (f i) \<and> isJabodetabekOrRemote (f i) \<and> ValidateSourceURL (j_SourceURL (f i))" for i
    using gen_normal [OF assms(1), of env g i] unfolding f_def by auto
  have inj: "inj_on (\<lambda>i. j_DedupKey (f i)) {..<n}"
  proof (rule inj_onI)
    fix i j assume a: "i \<in> {..<n}" "j \<in> {..<n}" "j_DedupKey (f i) = j_DedupKey (f j)"
    then have "take 16 (ne_sha256 env (rawSeed (genRawJob R g i))) = take 16 (ne_sha256 env (rawSeed (genRawJob R g j)))"
      using f by (simp add: hex_encode_inj)
    then have "rawSeed (genRawJob R g i) = rawSeed (genRawJob R g j)"
      using inj_onD [OF assms(2) [folded g_def]] a(1,2) by blast
    then show "i = j" by (rule rawSeed_inj [OF assms(1)])
  qed
  have i0: "jm_inv ?s0" "jm_view ?s0 = Map.empty"
    by (simp_all add: jm_inv_def NewMemoryStoreClock_def jm_view_def fun_eq_iff)
  have sub: "set ks \<subseteq> {..<n}" "distinct ks" unfolding ks_def by (auto dest: set_takeWhileD)
  have e: "seedEach jm_Upsert env R cancelled g [0..<n] ?s0 0 = (s, created, err)" using assms(3) by (simp add: Seed_def g_def)
  have r: "jm_inv s" "created = int (length ks)" "err = (if ks = [0..<n] then None else Some SeedCancelled)"
    "jm_view s = foldl (\<lambda>v i. v(j_DedupKey (f i) \<mapsto> f i)) Map.empty ks"
    using jobMem.seedEach_total [OF i0(1) distinct_upt _ _ e, of f] f inj i0(2)
    by (simp_all add: Let_def ks_def atLeast0LessThan)
  have injk: "inj_on (\<lambda>i. j_DedupKey (f i)) (set ks)" using inj sub(1) by (rule inj_on_subset)
  have v: "jm_view s x = (if x \<in> (\<lambda>i. j_DedupKey (f i)) ` set ks then Some (f (the_inv_into (set ks) (\<lambda>i. j_DedupKey (f i)) x)) else None)" for x
    unfolding r(4) fold_put [OF injk, of f Map.empty x] by simp
  have vk: "jm_view s (j_DedupKey (f i)) = Some (f i)" if "i \<in> set ks" for i
    unfolding v using that the_inv_into_f_f [OF injk that] by simp
  have all: "set (jm_All s) = f ` set ks"
  proof (intro set_eqI iffI)
    fix j assume "j \<in> set (jm_All s)"
    then have j: "jm_view s (j_DedupKey j) = Some j" using jm_All_view [OF r(1)] by simp
    then obtain i where "i \<in> set ks" "j_DedupKey j = j_DedupKey (f i)" using v [of "j_DedupKey j"] by (auto split: if_splits)
    then show "j \<in> f ` set ks" using j vk by auto
  next
    fix j assume "j \<in> f ` set ks"
    then show "j \<in> set (jm_All s)" using jm_All_view [OF r(1)] vk by auto
  qed
  have "dom (jm_view s) = (\<lambda>i. j_DedupKey (f i)) ` set ks" by (auto simp: v split: if_splits)
  then have len: "jm_Len s = length ks"
    using jm_Len_view [OF r(1)] card_image [OF injk] distinct_card [OF sub(2)] by simp
  have jobs: "gen_Jobs env R g k = map f [0..<k]" for k
    using f by (simp add: gen_Jobs_def some_vals_def)
  have ks: "ks = [0..<length ks]"
    unfolding ks_def using takeWhile_eq_take [of "\<lambda>i. \<not> cancelled i" "[0..<n]"] by (metis add_0 length_take length_takeWhile_le length_upt min.absorb2 min_def take_upt diff_zero)
  have ken: "ks = [0..<n] \<longleftrightarrow> length ks = n" using ks by (metis diff_zero length_upt)
  have syn: "list_all (\<lambda>j. j_Synthetic j \<and> isJabodetabekOrRemote j) (jm_All s)" using all f by (auto simp: list_all_iff)
  then have "jm_RealActiveCount s = 0" by (intro jm_real_none) (simp add: list_all_iff)
  then have gate: "\<not> registrationGate vars (Some (Inr (int (jm_RealActiveCount s)) :: unit + int)) ''POST'' ''/auth/register''"
    by (simp add: registrationGate_def DefaultCount_def)
  have "set (jm_All s) = set (gen_Jobs env R g (length ks))" unfolding all jobs using ks by (metis set_map)
  then show ?thesis
    using r len syn gate ken jobs unfolding ks_def [symmetric] g_def [symmetric] by (simp add: Let_def)
qed

definition zeroPrng :: "unit prng" where
  "zeroPrng = \<lparr>pg_NewSource = (\<lambda>_. ()), pg_Intn = (\<lambda>r n. (0, r)), pg_Perm = (\<lambda>r n. ([0..<n], r))\<rparr>"

definition revHash :: normEnv where
  "revHash = \<lparr>ne_sha256 = rev, ne_order = employmentSynonyms, ne_big = 0\<rparr>"

theorem seed_fills_fresh_store_witness:
  "\<exists>s. Seed jm_Upsert revHash zeroPrng (\<lambda>i. 2 \<le> i) (NewMemoryStoreClock (\<lambda>_. 0)) 3 7 0 = (s, 2, Some SeedCancelled) \<and>
     jm_Len s = 2 \<and> list_all j_Synthetic (jm_All s)"
proof -
  let ?seed = "\<lambda>i. rawSeed (genRawJob zeroPrng (NewGenerator 7 0) i)"
  have ok: "prng_ok zeroPrng" by (auto simp: prng_ok_def zeroPrng_def)
  have "distinct (map (\<lambda>i. take 16 (ne_sha256 revHash (?seed i))) [0..<3])" by code_simp
  then have "inj_on (\<lambda>i. take 16 (ne_sha256 revHash (?seed i))) {..<3}" by (simp add: distinct_map atLeast0LessThan)
  then have inj: "inj_on (\<lambda>x. take 16 (ne_sha256 revHash x)) (?seed ` {..<3})" by (intro inj_on_imageI) (simp add: comp_def)
  obtain s created and err :: "store_err seed_err option"
    where r: "Seed jm_Upsert revHash zeroPrng (\<lambda>i. 2 \<le> i) (NewMemoryStoreClock (\<lambda>_. 0)) 3 7 0 = (s, created, err)"
    using prod_cases3 by blast
  have "length (takeWhile (\<lambda>i. \<not> (2 :: nat) \<le> i) [0..<3]) = 2" by code_simp
  then have "created = 2 \<and> jm_Len s = 2 \<and> err = Some SeedCancelled \<and> list_all (\<lambda>j. j_Synthetic j \<and> isJabodetabekOrRemote j) (jm_All s)"
    using seed_fills_fresh_store [OF ok inj r] by (simp add: Let_def)
  then show ?thesis using r by (auto simp: list_all_iff)
qed

end
