(* ===== verification/Seed_Real.thy ===== *)
theory Seed_Real
  imports Seed_Gen Pg_Feed Ingest_SourceProps
begin

text \<open>
  Seeding the database with real listings (\<open>cmd/seed -real\<close>): a pass over a store whose statements
  may fail, and what a success of the command says of the database.
\<close>

section \<open>A pass without a reported failure\<close>

text \<open>Where nothing failed to be stored, everything accepted is stored, also in a store that may fail.\<close>

context job_store
begin

lemma ingestRaw_kept:
  assumes "inv s" "foldl (ingestRaw upsert env) (s, sr) raws = (s', sr')" "sr_PersistErr sr' = None"
  shows "inv s' \<and> sr_PersistErr sr = None \<and> view s' = foldl put_job (view s) (map kept (accepted env raws))"
  using assms
proof (induction raws arbitrary: s sr)
  case (Cons raw raws)
  obtain s1 sr1 where st: "ingestRaw upsert env (s, sr) raw = (s1, sr1)" by fastforce
  have rest: "foldl (ingestRaw upsert env) (s1, sr1) raws = (s', sr')" using Cons.prems(2) st by simp
  show ?case
  proof (cases "\<exists>j. Normalize env raw = Inr j \<and> isJabodetabekOrRemote j")
    case False
    then have "s1 = s" "sr1 = sr" "accepted env (raw # raws) = accepted env raws"
      using st by (auto simp: ingestRaw_def accepted_Cons split: sum.splits)
    then show ?thesis using Cons.IH [OF Cons.prems(1) _ Cons.prems(3)] rest by simp
  next
    case True
    then obtain j where j: "Normalize env raw = Inr j" "isJabodetabekOrRemote j" by blast
    obtain s2 r where u: "upsert s j = (s2, r)" by fastforce
    have s2: "s1 = s2" using st j u by (simp add: ingestRaw_def Let_def split: sum.splits)
    have i2: "inv s2" using u upsert_ok [OF Cons.prems(1)] upsert_err [OF Cons.prems(1)] by (cases r) blast+
    note IH = Cons.IH [OF _ rest Cons.prems(3)]
    show ?thesis
    proof (cases r)
      case (Inl e)
      then have "sr_PersistErr sr1 = Some e" using st j u by (auto simp: ingestRaw_def Let_def)
      then show ?thesis using IH i2 s2 by simp
    next
      case (Inr c)
      then have "sr_PersistErr sr1 = sr_PersistErr sr" using st j u by (auto simp: ingestRaw_def Let_def)
      moreover have "view s2 = put_job (view s) (kept j)"
        using upsert_ok [OF Cons.prems(1), of j s2 c] u Inr by (simp add: put_job_def kept_key)
      ultimately show ?thesis using IH i2 s2 j by (simp add: accepted_Cons)
    qed
  qed
qed simp

lemma runSources_kept:
  fixes fetch :: "string \<Rightarrow> 'f + RawJob list"
  assumes "inv (rn_store r)" "distinct (map src_ID srcs)" "\<And>src. src \<in> set srcs \<Longrightarrow> b_allow (breakerFor r (src_ID src)) now"
    and "foldl (runSource upsert env fetch now) (r, reps) srcs = (r', reps')" "\<forall>sr \<in> set reps'. sr_PersistErr sr = None"
  shows "inv (rn_store r') \<and> (\<exists>new. reps' = reps @ new) \<and> view (rn_store r') = foldl put_job (view (rn_store r))
    (map kept (concat (map (\<lambda>src. case fetch (src_ID src) of Inl _ \<Rightarrow> [] | Inr raws \<Rightarrow> accepted env raws) srcs)))"
  using assms
proof (induction srcs arbitrary: r reps)
  case (Cons src srcs)
  obtain r1 reps1 where one: "runSource upsert env fetch now (r, reps) src = (r1, reps1)" by fastforce
  have rest: "foldl (runSource upsert env fetch now) (r1, reps1) srcs = (r', reps')" using Cons.prems(4) one by simp
  let ?b = "breakerFor r (src_ID src)"
  have al: "b_allow ?b now" using Cons.prems(3) by simp
  have br: "breakerFor r1 k = breakerFor r k" if "k \<noteq> src_ID src" for k
    using one al that by (auto simp: runSource_def Let_def breakerFor_def split: sum.splits prod.splits option.split)
  have ot: "src_ID s \<noteq> src_ID src" if "s \<in> set srcs" for s
    using that Cons.prems(2) by (metis distinct.simps(2) imageI list.set_map list.simps(9))
  have al1: "b_allow (breakerFor r1 (src_ID s)) now" if "s \<in> set srcs" for s
    using Cons.prems(3) [of s] br [OF ot [OF that]] that by simp
  have d: "distinct (map src_ID srcs)" using Cons.prems(2) by simp
  note IH = Cons.IH [OF _ d al1 rest Cons.prems(5)]
  show ?case
  proof (cases "fetch (src_ID src)")
    case (Inl e)
    then have "rn_store r1 = rn_store r" "\<exists>x. reps1 = reps @ [x]" using one al by (auto simp: runSource_def Let_def)
    then show ?thesis using IH Cons.prems(1) Inl by auto
  next
    case (Inr raws)
    obtain s and sr :: "('f, 'e) SourceReport"
      where f: "foldl (ingestRaw upsert env) (rn_store r, newReport (src_ID src)) raws = (s, sr)" by fastforce
    have o: "rn_store r1 = s" "reps1 = reps @ [sr]" using one al Inr f by (auto simp: runSource_def Let_def)
    show ?thesis
    proof (cases "inv s \<and> sr_PersistErr sr = None")
      case True
      then have "view s = foldl put_job (view (rn_store r)) (map kept (accepted env raws))"
        using ingestRaw_kept [OF Cons.prems(1) f] by blast
      then show ?thesis using IH True o Inr by auto
    next
      case False
      have "\<exists>new. reps' = reps1 @ new" using rest
      proof (induction srcs arbitrary: r1 reps1)
        case (Cons t ts)
        obtain r2 reps2 where t: "runSource upsert env fetch now (r1, reps1) t = (r2, reps2)" by fastforce
        then have "\<exists>new. reps2 = reps1 @ new" by (auto simp: runSource_def Let_def split: if_splits sum.splits prod.splits)
        then show ?case using Cons.IH [of r2 reps2] Cons.prems t by auto
      qed simp
      then have "sr \<in> set reps'" using o(2) by auto
      then have none: "sr_PersistErr sr = None" using Cons.prems(5) by simp
      have "inv s" using ingestRaw_kept [OF Cons.prems(1) f none] by simp
      then show ?thesis using False none by simp
    qed
  qed
qed simp

end

lemma register_all_reach: "reg_reach r \<Longrightarrow> reg_reach (register_all r ss)"
  by (induction r ss rule: register_all.induct) (auto intro: reg_step)

lemma reg_ids_distinct: "reg_inv r \<Longrightarrow> distinct (map src_ID (map the (reg_Sources r)))"
proof -
  assume i: "reg_inv r"
  have "map src_ID (map the (reg_Sources r)) = rg_order r"
    unfolding reg_Sources_def map_map by (rule map_idI) (use i in \<open>auto simp: reg_inv_def domIff\<close>)
  then show ?thesis using i by (simp add: reg_inv_def)
qed

lemma fresh_breakers: "b_allow (breakerFor (NewRunner s 0 0) i) now"
  by (simp add: NewRunner_def breakerFor_def newBreaker_def b_allow_def)

lemma some_vals_nil: "some_vals f xs = [] \<longleftrightarrow> (\<forall>x \<in> set xs. f x = None)"
  by (induction xs) (auto split: option.splits)

section \<open>The database through a pass\<close>

text \<open>Each statement has its own answers, clock and identifiers: the \<open>k\<close>-th is run in \<open>envs k\<close>.\<close>

definition pg_UpsertSeq :: "(nat \<Rightarrow> pgEnv) \<Rightarrow> nat \<times> pgDB \<Rightarrow> Job \<Rightarrow> (nat \<times> pgDB) \<times> (pg_job_err + bool)" where
  "pg_UpsertSeq envs st j =
     (case st of (k, db) \<Rightarrow> (case pg_Upsert (envs k) db j of (db', r) \<Rightarrow> ((Suc k, db'), r)))"

definition pg_CountSeq :: "(nat \<Rightarrow> pgEnv) \<Rightarrow> nat \<times> pgDB \<Rightarrow> pg_job_err + nat" where
  "pg_CountSeq envs st = (case st of (k, db) \<Rightarrow> pg_RealActiveCount (envs k) db)"

interpretation pgSeq: job_store "pg_UpsertSeq envs" "\<lambda>st. pg_jobs_ok (snd st)" "\<lambda>st. pg_job_view (snd st)" stored_job for envs
proof unfold_locales
  show "j_DedupKey (stored_job j) = j_DedupKey j" for j by simp
next
  fix st j st' created assume a: "pg_jobs_ok (snd st)" "pg_UpsertSeq envs st j = (st', Inr created)"
  then have "pg_Upsert (envs (fst st)) (snd st) j = (snd st', Inr created)"
    by (auto simp: pg_UpsertSeq_def split: prod.splits)
  from pgJobs.upsert_ok [OF a(1) this]
  show "pg_jobs_ok (snd st') \<and> pg_job_view (snd st') = (pg_job_view (snd st))(j_DedupKey j \<mapsto> stored_job j) \<and>
    (created \<longleftrightarrow> pg_job_view (snd st) (j_DedupKey j) = None)" .
next
  fix st j st' e assume a: "pg_jobs_ok (snd st)" "pg_UpsertSeq envs st j = (st', Inl e)"
  then have "pg_Upsert (envs (fst st)) (snd st) j = (snd st', Inl e)"
    by (auto simp: pg_UpsertSeq_def split: prod.splits)
  from pgJobs.upsert_err [OF a(1) this]
  show "pg_jobs_ok (snd st') \<and> pg_job_view (snd st') = pg_job_view (snd st)" .
qed

lemma validated:
  "validateRealSeedResult counted rep = Inr n \<Longrightarrow>
     counted = Inr n \<and> DefaultCount \<le> int n \<and> (\<forall>sr \<in> set rep. sr_PersistErr sr = None)"
  by (auto simp: validateRealSeedResult_def Let_def some_vals_nil not_less split: sum.splits if_splits)

text \<open>
  C38: A successful real seed leaves a database from which registration opens. If the command
  reports \<open>n\<close> listings, then a database was configured and opened, every source of the registry was
  asked, Jooble among them exactly with a key, every well-formed listing in Jabodetabek or remote of
  the sources that answered is stored, the later over the earlier, all else is as it was, and the
  database counts \<open>n\<close> active real listings, enough for the registration gate.
\<close>

theorem real_seed_opens_registration:
  assumes "seedReal (pg_UpsertSeq envs) (pg_CountSeq envs) nenv vars files fetch now target opened = (st, Inr n)"
    and "case opened of Inl _ \<Rightarrow> True | Inr (k, db) \<Rightarrow> pg_jobs_ok db"
  shows "\<exists>k db k' db'. vars ''DATABASE_URL'' \<noteq> [] \<and> opened = Inr (k, db) \<and> st = Some (k', db') \<and> pg_jobs_ok db' \<and>
    pg_RealActiveCount (envs k') db' = Inr n \<and>
    registrationGate vars (Some (Inr (int n)) :: (pg_job_err + int) option) meth path \<and>
    (let srcs = map the (reg_Sources (BuildRegistry files (seedRealConfig vars (if target \<le> 0 then DefaultCount else target))))
     in srcs \<noteq> [] \<and> (''jooble'' \<in> set (map src_ID srcs) \<longleftrightarrow> trim_space (vars ''JOOBLE_API_KEY'') \<noteq> []) \<and>
        pg_job_view db' = foldl put_job (pg_job_view db) (map stored_job
          (concat (map (\<lambda>src. case fetch (src_ID src) of Inl _ \<Rightarrow> [] | Inr raws \<Rightarrow> accepted nenv raws) srcs))))"
proof -
  define t where "t = (if target \<le> 0 then DefaultCount else target)"
  define reg where "reg = BuildRegistry files (seedRealConfig vars t)"
  have url: "vars ''DATABASE_URL'' \<noteq> []" and "\<exists>s. opened = Inr s"
    using assms(1) by (auto simp: seedReal_def split: if_splits sum.splits)
  then obtain k db where o: "opened = Inr (k, db)" by fastforce
  obtain r rep where run: "RunOnce (pg_UpsertSeq envs) nenv fetch now (map the (reg_Sources reg)) (NewRunner (k, db) 0 0) = (r, rep)"
    by fastforce
  obtain k' db' where st: "rn_store r = (k', db')" by fastforce
  have v: "validateRealSeedResult (pg_CountSeq envs (k', db')) rep = Inr n" "reg_Sources reg \<noteq> []" "st = Some (k', db')"
    using assms(1) url o run st unfolding seedReal_def reg_def t_def Let_def by (auto split: if_splits sum.splits)
  note val = validated [OF v(1)]
  have inv: "reg_inv reg" unfolding reg_def BuildRegistry_def
    by (rule reg_reach_inv [OF register_all_reach [OF reg_new]])
  have ids: "map src_ID (map the (reg_Sources reg)) = rg_order reg"
    unfolding reg_Sources_def map_map by (rule map_idI) (use inv in \<open>auto simp: reg_inv_def domIff\<close>)
  have ok: "pg_jobs_ok (snd (rn_store (NewRunner (k, db) 0 0)))" using assms(2) o by (simp add: NewRunner_def)
  have f: "foldl (runSource (pg_UpsertSeq envs) nenv fetch now) (NewRunner (k, db) 0 0, []) (map the (reg_Sources reg)) = (r, rep)"
    using run by (simp add: RunOnce_def)
  note kept = pgSeq.runSources_kept [OF ok reg_ids_distinct [OF inv] fresh_breakers f, of]
  have "\<forall>sr \<in> set rep. sr_PersistErr sr = None" using val by blast
  from kept [OF this] have kept': "pg_jobs_ok db' \<and> pg_job_view db' = foldl put_job (pg_job_view db) (map stored_job
      (concat (map (\<lambda>src. case fetch (src_ID src) of Inl _ \<Rightarrow> [] | Inr raws \<Rightarrow> accepted nenv raws) (map the (reg_Sources reg)))))"
    using st by (simp add: NewRunner_def)
  have "t > 0" by (simp add: t_def DefaultCount_def)
  then have "''jooble'' \<in> set (rg_order reg) \<longleftrightarrow> trim_space (vars ''JOOBLE_API_KEY'') \<noteq> []"
    using BuildRegistry_jooble [of files "seedRealConfig vars t"] unfolding reg_def
    by (auto simp: seedRealConfig_def realSeedCaps_def Let_def)
  then have jo: "''jooble'' \<in> set (map src_ID (map the (reg_Sources reg))) \<longleftrightarrow> trim_space (vars ''JOOBLE_API_KEY'') \<noteq> []"
    by (simp only: ids)
  have gate: "registrationGate vars (Some (Inr (int n)) :: (pg_job_err + int) option) meth path"
    using val by (simp add: registrationGate_def)
  show ?thesis
    unfolding t_def [symmetric] reg_def [symmetric] Let_def
    using url o v(2,3) kept' jo gate val by (simp add: pg_CountSeq_def)
qed

section \<open>Example\<close>

definition realRow :: "nat \<Rightarrow> pgJob" where
  "realRow i = \<lparr>pj_id = nat_digits i, pj_job = sampleJob\<lparr>j_DedupKey := nat_digits i\<rparr>, pj_stale = False,
     pj_stale_at = None, pj_updated_at = 0\<rparr>"

definition realDB :: "nat \<Rightarrow> pgDB" where
  "realDB n = emptyDB\<lparr>pg_jobs := map (\<lambda>i. (nat_digits i, realRow i)) [0..<n]\<rparr>"

lemma realDB_ok: "pg_jobs_ok (realDB n)"
proof -
  have "inj_on nat_digits A" for A using nat_digits_inj by (rule inj_onI)
  then have g: "gok (pg_jobs (realDB n))" by (simp add: realDB_def gok_def comp_def distinct_map)
  have u: "ValidateSourceURL (j_SourceURL sampleJob)" by code_simp
  have m: "pj_id r = k \<and> row_key r = k \<and> ValidateSourceURL (j_SourceURL (pgJob.pj_job r)) \<and> \<not> pj_stale r \<and> pj_stale_at r = None"
    if "gget (pg_jobs (realDB n)) k = Some r" for k r
    using gget_SomeD [OF that] u by (auto simp: realDB_def realRow_def row_key_def)
  show ?thesis unfolding pg_jobs_ok_def keyed_def uniq_on_def using g m by metis
qed

lemma realDB_count: "pe_run env ''jobs.real'' [] \<Longrightarrow> pg_RealActiveCount env (realDB n) = Inr n"
  by (simp add: pg_RealActiveCount_def pjrun_def realDB_def gvals_def realRow_def sampleJob_def comp_def)

lemma failing_pass:
  fixes reps :: "(unit, 'e) SourceReport list"
  assumes "foldl (runSource upsert env (\<lambda>_. Inl ()) now) (r, reps) srcs = (r', reps')" "\<forall>sr \<in> set reps. sr_PersistErr sr = None"
  shows "rn_store r' = rn_store r \<and> (\<forall>sr \<in> set reps'. sr_PersistErr sr = None)"
  using assms
proof (induction srcs arbitrary: r reps)
  case (Cons src srcs)
  obtain r1 reps1 where one: "runSource upsert env (\<lambda>_. Inl ()) now (r, reps) src = (r1, reps1)" by fastforce
  then have "rn_store r1 = rn_store r \<and> (\<forall>sr \<in> set reps1. sr_PersistErr sr = None)"
    using Cons.prems(2) by (auto simp: runSource_def Let_def newReport_def split: if_splits)
  moreover have "foldl (runSource upsert env (\<lambda>_. Inl ()) now) (r1, reps1) srcs = (r', reps')" using Cons.prems(1) one by simp
  ultimately show ?case using Cons.IH by metis
qed simp

definition seedVars :: environ where
  "seedVars k = (if k = ''DATABASE_URL'' then ''postgres://db'' else [])"

theorem real_seed_opens_registration_witness:
  "\<exists>st. seedReal (pg_UpsertSeq (\<lambda>_. demoPg 0 ''id'')) (pg_CountSeq (\<lambda>_. demoPg 0 ''id'')) sampleNormEnv seedVars (\<lambda>_. None)
       (\<lambda>_. Inl ()) 0 0 (Inr (0, realDB 5000)) = (st, Inr 5000) \<and>
     registrationGate seedVars (Some (Inr 5000) :: (pg_job_err + int) option) ''POST'' ''/auth/register''"
proof -
  let ?envs = "\<lambda>_ :: nat. demoPg 0 ''id''"
  let ?reg = "BuildRegistry (\<lambda>_. None) (seedRealConfig seedVars DefaultCount)"
  obtain r and rep :: "(unit, pg_job_err) SourceReport list"
    where run: "RunOnce (pg_UpsertSeq ?envs) sampleNormEnv (\<lambda>_. Inl ()) 0 (map the (reg_Sources ?reg)) (NewRunner (0, realDB 5000) 0 0) = (r, rep)"
    by fastforce
  have f: "rn_store r = (0, realDB 5000)" "\<forall>sr \<in> set rep. sr_PersistErr sr = None"
    using failing_pass [OF run [unfolded RunOnce_def]] by (simp_all add: NewRunner_def)
  have "''kalibrr'' \<in> set (rg_order ?reg)"
    unfolding BuildRegistry_fixed enabled_kinds by (simp add: seedRealConfig_def realSeedCaps_def Let_def DefaultCount_def)
  then have n: "reg_Sources ?reg \<noteq> []" by (auto simp: reg_Sources_def)
  have c: "pg_CountSeq ?envs (0, realDB 5000) = Inr 5000" by (simp add: pg_CountSeq_def realDB_count)
  have "some_vals (\<lambda>sr. map_option (PersistFault (sr_Source sr)) (sr_PersistErr sr)) rep = []" using f(2) by (simp add: some_vals_nil)
  then have v: "validateRealSeedResult (Inr 5000) rep = Inr 5000" by (simp add: validateRealSeedResult_def DefaultCount_def)
  have s: "seedReal (pg_UpsertSeq ?envs) (pg_CountSeq ?envs) sampleNormEnv seedVars (\<lambda>_. None) (\<lambda>_. Inl ()) 0 0 (Inr (0, realDB 5000)) =
      (Some (0, realDB 5000), Inr 5000)"
    using run n f(1) c v by (simp add: seedReal_def seedVars_def)
  have "case Inr (0, realDB 5000) of Inl (_ :: string) \<Rightarrow> True | Inr (k :: nat, db) \<Rightarrow> pg_jobs_ok db" by (simp add: realDB_ok)
  from real_seed_opens_registration [OF s this, of "''POST''" "''/auth/register''"] s show ?thesis by auto
qed

end
