(* ===== verification/Mailer.thy ===== *)
theory Mailer
  imports App
begin

text \<open>
  Sending mail (\<open>internal/auth/mailer.go\<close>): what the mailer says to its SMTP server, as the list of
  the commands of a session. \<open>mail.ParseAddress\<close> is a parameter, and so is which commands succeed.
\<close>

section \<open>The mailer\<close>

text \<open>An address, and how it is printed in a header.\<close>

record mailAddress =
  md_Address :: string
  md_String :: string

record SMTPMailer =
  sm_addr :: string
  sm_host :: string
  sm_from :: mailAddress
  sm_auth :: "(string \<times> string) option"

definition NewSMTPMailer ::
  "(string \<Rightarrow> mailAddress option) \<Rightarrow> string \<Rightarrow> string \<Rightarrow> string \<Rightarrow> string \<Rightarrow> string + SMTPMailer" where
  "NewSMTPMailer parse addr username password from0 =
     (case splitHostPort addr of
        None \<Rightarrow> Inl ''auth: parse SMTP address''
      | Some (host, _) \<Rightarrow>
          (case parse from0 of
             None \<Rightarrow> Inl ''auth: parse SMTP sender''
           | Some sender \<Rightarrow> Inr \<lparr>sm_addr = addr, sm_host = host, sm_from = sender,
               sm_auth = (if username \<noteq> [] then Some (username, password) else None)\<rparr>))"

text \<open>The mailer of the server, none without an address.\<close>

definition newMailer :: "(string \<Rightarrow> mailAddress option) \<Rightarrow> environ \<Rightarrow> string + SMTPMailer option" where
  "newMailer parse vars =
     (if vars ''SMTP_ADDR'' = [] then Inr None
      else (case NewSMTPMailer parse (vars ''SMTP_ADDR'') (vars ''SMTP_USERNAME'') (vars ''SMTP_PASSWORD'') (vars ''SMTP_FROM'') of
          Inl e \<Rightarrow> Inl e | Inr m \<Rightarrow> Inr (Some m)))"

section \<open>A session\<close>

datatype smtpCmd = CDial string | CExtension string | CStartTLS string | CAuth string string | CMail string | CRcpt string
  | CData | CWrite string | CEndData | CClose

text \<open>
  \<open>srv h c\<close> is whether command \<open>c\<close> succeeds after the commands \<open>h\<close>. The first failure ends the
  session; what has been said is part of the result.
\<close>

fun smtpRun :: "(smtpCmd list \<Rightarrow> smtpCmd \<Rightarrow> bool) \<Rightarrow> smtpCmd list \<Rightarrow> smtpCmd list \<Rightarrow> smtpCmd list \<times> smtpCmd option" where
  "smtpRun srv h [] = (h, None)"
| "smtpRun srv h (c # cs) = (if srv h c then smtpRun srv (h @ [c]) cs else (h @ [c], Some c))"

definition crlf :: string where "crlf = [CHR 0x0D, CHR 0x0A]"

definition mailMessage :: "SMTPMailer \<Rightarrow> mailAddress \<Rightarrow> string \<Rightarrow> string \<Rightarrow> string" where
  "mailMessage m recipient subject body =
     ''From: '' @ md_String (sm_from m) @ crlf @ ''To: '' @ md_String recipient @ crlf @
     ''Subject: '' @ subject @ crlf @ ''MIME-Version: 1.0'' @ crlf @
     ''Content-Type: text/plain; charset=UTF-8'' @ crlf @ crlf @ body"

definition mailCommands :: "SMTPMailer \<Rightarrow> mailAddress \<Rightarrow> string \<Rightarrow> smtpCmd list" where
  "mailCommands m recipient message =
     [CExtension ''STARTTLS'', CStartTLS (sm_host m)] @
     (case sm_auth m of None \<Rightarrow> [] | Some (u, p) \<Rightarrow> [CAuth u p]) @
     [CMail (md_Address (sm_from m)), CRcpt (md_Address recipient), CData, CWrite message, CEndData]"

text \<open>
  A writer that failed is closed, which ends the data too, and the connection is always closed.
  The result is what was said and whether no error is returned.
\<close>

definition mailSend ::
  "(string \<Rightarrow> mailAddress option) \<Rightarrow> (smtpCmd list \<Rightarrow> smtpCmd \<Rightarrow> bool) \<Rightarrow> bool \<Rightarrow> SMTPMailer \<Rightarrow> string \<Rightarrow> string \<Rightarrow> string \<Rightarrow>
   smtpCmd list \<times> bool" where
  "mailSend parse srv cancelled m to subject body =
     (if cancelled then ([], False)
      else (case parse to of
          None \<Rightarrow> ([], False)
        | Some recipient \<Rightarrow>
            if md_Address recipient \<noteq> to then ([], False)
            else if contains_any subject crlf then ([], False)
            else if \<not> srv [] (CDial (sm_addr m)) then ([CDial (sm_addr m)], False)
            else (case smtpRun srv [CDial (sm_addr m)] (mailCommands m recipient (mailMessage m recipient subject body)) of
                (h, None) \<Rightarrow> (h @ [CClose], True)
              | (h, Some (CWrite _)) \<Rightarrow> (h @ [CEndData, CClose], False)
              | (h, Some _) \<Rightarrow> (h @ [CClose], False))))"

section \<open>What it says\<close>

text \<open>The commands that carry a credential, an address or a text.\<close>

fun carries :: "smtpCmd \<Rightarrow> bool" where
  "carries (CAuth u p) = True"
| "carries (CMail x) = True"
| "carries (CRcpt x) = True"
| "carries CData = True"
| "carries (CWrite x) = True"
| "carries CEndData = True"
| "carries _ = False"

text \<open>Every command of \<open>cs\<close>, said after \<open>h\<close>, that carries something comes after a successful STARTTLS.\<close>

definition onlyTLS :: "(smtpCmd list \<Rightarrow> smtpCmd \<Rightarrow> bool) \<Rightarrow> string \<Rightarrow> smtpCmd list \<Rightarrow> bool" where
  "onlyTLS srv host said \<longleftrightarrow>
     (\<forall>i < length said. carries (said ! i) \<longrightarrow> (\<exists>k < i. said ! k = CStartTLS host \<and> srv (take k said) (CStartTLS host)))"

lemma onlyTLS_snoc:
  "onlyTLS srv host (said @ [c]) \<longleftrightarrow> onlyTLS srv host said \<and>
     (carries c \<longrightarrow> (\<exists>k < length said. said ! k = CStartTLS host \<and> srv (take k said) (CStartTLS host)))"
  unfolding onlyTLS_def by (fastforce simp: nth_append less_Suc_eq)

lemma onlyTLS_append:
  assumes "onlyTLS srv host said" "list_all (\<lambda>c. \<not> carries c) cs \<or> (\<exists>k < length said. said ! k = CStartTLS host \<and> srv (take k said) (CStartTLS host))"
  shows "onlyTLS srv host (said @ cs)"
  using assms
proof (induction cs rule: rev_induct)
  case (snoc c cs)
  then have o: "onlyTLS srv host (said @ cs)" by auto
  have "carries c \<Longrightarrow> \<exists>k < length (said @ cs). (said @ cs) ! k = CStartTLS host \<and> srv (take k (said @ cs)) (CStartTLS host)"
    using snoc.prems(2) by (auto simp: nth_append intro: less_le_trans)
  then show ?case using o onlyTLS_snoc [of srv host "said @ cs" c] by simp
qed simp

lemma smtpRun_said:
  "smtpRun srv h cs = (h', r) \<Longrightarrow> \<exists>n. h' = h @ take n cs \<and>
     (case r of None \<Rightarrow> n = length cs \<and> (\<forall>k < length cs. srv (h @ take k cs) (cs ! k)) | Some c \<Rightarrow> c \<in> set cs \<and> last h' = c \<and> h' \<noteq> [] \<and> \<not> srv (butlast h') c)"
proof (induction srv h cs rule: smtpRun.induct)
  case (2 srv h c cs)
  show ?case
  proof (cases "srv h c")
    case True
    then have "smtpRun srv (h @ [c]) cs = (h', r)" using 2(2) by simp
    from 2(1) [OF True this] obtain n where n: "h' = (h @ [c]) @ take n cs"
      "case r of None \<Rightarrow> n = length cs \<and> (\<forall>k < length cs. srv ((h @ [c]) @ take k cs) (cs ! k))
        | Some c' \<Rightarrow> c' \<in> set cs \<and> last h' = c' \<and> h' \<noteq> [] \<and> \<not> srv (butlast h') c'" by blast
    have "srv (h @ take k (c # cs)) ((c # cs) ! k)" if "r = None" "k < length (c # cs)" for k
      using that n(2) True by (cases k) auto
    then show ?thesis using n by (intro exI [of _ "Suc n"]) (auto split: option.splits)
  next
    case False
    then show ?thesis using 2(2) by (intro exI [of _ 1]) auto
  qed
qed simp

text \<open>
  C39: Mail leaves the server only encrypted and only for the address it is meant for. Whatever the
  server answers, the mailer says nothing that carries a credential, an address or a text before a
  successful STARTTLS that checks the name of the configured host; the only recipient it ever names
  is the given one; no subject can add a header; it reports success only when each command of
  the whole session succeeded, the end of the data included; and a connection that was made is
  closed.
\<close>

theorem mail_only_over_tls:
  assumes "mailSend parse srv cancelled m to subject body = (said, ok)"
  shows "onlyTLS srv (sm_host m) said \<and> (\<forall>x. CRcpt x \<in> set said \<longrightarrow> x = to) \<and>
    (said \<noteq> [] \<longrightarrow> said = [CDial (sm_addr m)] \<or> last said = CClose) \<and>
    (\<forall>x. CWrite x \<in> set said \<longrightarrow> \<not> contains_any subject crlf \<and>
       (\<exists>recipient. parse to = Some recipient \<and> x = mailMessage m recipient subject body)) \<and>
    (ok \<longrightarrow> (\<exists>recipient. parse to = Some recipient \<and> md_Address recipient = to \<and>
       said = CDial (sm_addr m) # mailCommands m recipient (mailMessage m recipient subject body) @ [CClose] \<and>
       (\<forall>k < length said - 1. srv (take k said) (said ! k))))"
proof (cases "said = [] \<or> said = [CDial (sm_addr m)]")
  case True
  then have "\<not> ok" using assms by (auto simp: mailSend_def split: if_splits option.splits prod.splits smtpCmd.splits)
  then show ?thesis using True by (auto simp: onlyTLS_def)
next
  case False
  then obtain rc where rc: "parse to = Some rc" "md_Address rc = to" "\<not> contains_any subject crlf" "srv [] (CDial (sm_addr m))" "\<not> cancelled"
    using assms by (auto simp: mailSend_def split: if_splits option.splits)
  let ?d = "CDial (sm_addr m)" and ?e = "CExtension ''STARTTLS''" and ?t = "CStartTLS (sm_host m)"
  define rest where "rest = (case sm_auth m of None \<Rightarrow> [] | Some (u, p) \<Rightarrow> [CAuth u p]) @
     [CMail (md_Address (sm_from m)), CRcpt to, CData, CWrite (mailMessage m rc subject body), CEndData]"
  have cs: "mailCommands m rc (mailMessage m rc subject body) = ?e # ?t # rest" using rc(2) by (simp add: mailCommands_def rest_def)
  obtain h r where run: "smtpRun srv [?d] (?e # ?t # rest) = (h, r)" by fastforce
  have s: "(said, ok) = (case r of None \<Rightarrow> (h @ [CClose], True) | Some (CWrite _) \<Rightarrow> (h @ [CEndData, CClose], False)
      | Some _ \<Rightarrow> (h @ [CClose], False))"
    using assms rc run by (cases r; cases "the r") (auto simp: mailSend_def cs simp del: smtpRun.simps)
  show ?thesis
  proof (cases "srv [?d] ?e \<and> srv [?d, ?e] ?t")
    case False
    then have "\<not> ok \<and> (said = [?d, ?e, CClose] \<or> said = [?d, ?e, ?t, CClose])" using run s by (auto split: if_splits)
    then show ?thesis by (auto simp: onlyTLS_def nth_Cons' split: if_splits)
  next
    case True
    then have run': "smtpRun srv [?d, ?e, ?t] rest = (h, r)" using run by simp
    from smtpRun_said [OF this] obtain n where n: "h = [?d, ?e, ?t] @ take n rest"
      "r = None \<Longrightarrow> n = length rest \<and> (\<forall>k < length rest. srv ([?d, ?e, ?t] @ take k rest) (rest ! k))"
      by (cases r) auto
    obtain cl where cl: "said = [?d, ?e, ?t] @ take n rest @ cl" "set cl \<subseteq> {CEndData, CClose}" "cl \<noteq> []" "last cl = CClose"
      "ok \<Longrightarrow> cl = [CClose] \<and> r = None"
      using s n(1) by (cases r; cases "the r") auto
    have t: "\<exists>k < length [?d, ?e, ?t]. [?d, ?e, ?t] ! k = ?t \<and> srv (take k [?d, ?e, ?t]) ?t"
      by (rule exI [of _ 2]) (use True in simp)
    have "onlyTLS srv (sm_host m) [?d, ?e, ?t]" by (auto simp: onlyTLS_def nth_Cons' split: if_splits)
    then have o: "onlyTLS srv (sm_host m) said" unfolding cl(1) using t by (intro onlyTLS_append) blast+
    have sub: "set said \<subseteq> {?d, ?e, ?t} \<union> set rest \<union> {CEndData, CClose}" using cl(1,2) set_take_subset [of n rest] by auto
    have only: "CRcpt x \<in> set said \<Longrightarrow> x = to" "CWrite x \<in> set said \<Longrightarrow> x = mailMessage m rc subject body" for x
      using sub by (auto simp: rest_def split: option.splits)
    have fin: "said = ?d # (?e # ?t # rest) @ [CClose] \<and> (\<forall>k < length said - 1. srv (take k said) (said ! k))" if ok
    proof -
      have sd: "said = ?d # (?e # ?t # rest) @ [CClose]" using cl n(2) that by simp
      have "srv (take k said) (said ! k)" if k: "k < length said - 1" for k
      proof (cases "k < 3")
        case True2: True
        then consider "k = 0" | "k = 1" | "k = 2" by linarith
        then show ?thesis by cases (use True rc(4) sd in simp_all)
      next
        case False
        then have "k = Suc (Suc (Suc (k - 3)))" by simp
        then obtain j where j: "k = Suc (Suc (Suc j))" by blast
        then have "j < length rest" using k sd by simp
        then show ?thesis using n(2) cl(5) \<open>ok\<close> sd j by (simp add: nth_append)
      qed
      then show ?thesis using sd by blast
    qed
    have l: "last said = CClose" using cl(1,3,4) by simp
    have f: "\<exists>recipient. parse to = Some recipient \<and> md_Address recipient = to \<and>
       said = ?d # mailCommands m recipient (mailMessage m recipient subject body) @ [CClose] \<and>
       (\<forall>k < length said - 1. srv (take k said) (said ! k))" if ok
      by (rule exI [of _ rc], unfold cs, use rc(1,2) fin [OF that] in blast)
    show ?thesis using o only rc(1,3) l f by blast
  qed
qed

definition demoParseAddr :: "string \<Rightarrow> mailAddress option" where
  "demoParseAddr a = (if contains a ''@'' then Some \<lparr>md_Address = a, md_String = ''<'' @ a @ ''>''\<rparr> else None)"

definition demoMailer :: SMTPMailer where
  "demoMailer = \<lparr>sm_addr = ''mx.test:587'', sm_host = ''mx.test'', sm_from = \<lparr>md_Address = ''app@x.id'', md_String = ''<app@x.id>''\<rparr>,
     sm_auth = Some (''app'', ''secret'')\<rparr>"

theorem mail_only_over_tls_witness:
  "let (said, ok) = mailSend demoParseAddr (\<lambda>h c. c \<noteq> CRcpt ''ani@x.id'') False demoMailer ''ani@x.id'' ''Verify'' ''hello'' in
     \<not> ok \<and> CAuth ''app'' ''secret'' \<in> set said \<and> last said = CClose \<and> onlyTLS (\<lambda>h c. c \<noteq> CRcpt ''ani@x.id'') ''mx.test'' said"
proof -
  let ?srv = "\<lambda>h c. c \<noteq> CRcpt ''ani@x.id''"
  obtain said ok where r: "mailSend demoParseAddr ?srv False demoMailer ''ani@x.id'' ''Verify'' ''hello'' = (said, ok)" by fastforce
  have e: "mailSend demoParseAddr ?srv False demoMailer ''ani@x.id'' ''Verify'' ''hello'' =
    ([CDial ''mx.test:587'', CExtension ''STARTTLS'', CStartTLS ''mx.test'', CAuth ''app'' ''secret'', CMail ''app@x.id'',
      CRcpt ''ani@x.id'', CClose], False)" by code_simp
  have "sm_host demoMailer = ''mx.test''" by (simp add: demoMailer_def)
  moreover have "said = [CDial ''mx.test:587'', CExtension ''STARTTLS'', CStartTLS ''mx.test'', CAuth ''app'' ''secret'', CMail ''app@x.id'',
      CRcpt ''ani@x.id'', CClose]" "\<not> ok" using r e by simp_all
  moreover have "onlyTLS ?srv (sm_host demoMailer) said" using mail_only_over_tls [OF r] by blast
  ultimately show ?thesis using r by simp
qed

end
