(* ===== verification/S3_Store.thy ===== *)
theory S3_Store
  imports Storage
begin

text \<open>
  The store of objects in an S3 bucket (\<open>internal/storage/s3.go\<close>). The client of the library is a
  parameter, the interface \<open>s3Client\<close> over the state of the service; \<open>s3_reliable\<close> is what its
  documentation says of requests that all get through.
\<close>

section \<open>The client\<close>

text \<open>The codes of an error response; reading the body of an object may fail after it was opened.\<close>

type_synonym s3_code = string

record 's s3Client =
  sc_BucketExists :: "'s \<Rightarrow> string \<Rightarrow> 's \<times> (s3_code + bool)"
  sc_MakeBucket :: "'s \<Rightarrow> string \<Rightarrow> 's \<times> s3_code option"
  sc_PutObject :: "'s \<Rightarrow> string \<Rightarrow> string \<Rightarrow> string \<Rightarrow> 's \<times> s3_code option"
  sc_GetObject :: "'s \<Rightarrow> string \<Rightarrow> string \<Rightarrow> s3_code + (s3_code + string)"
  sc_RemoveObject :: "'s \<Rightarrow> string \<Rightarrow> string \<Rightarrow> 's \<times> s3_code option"

section \<open>The store\<close>

definition newS3Store :: "'s s3Client \<Rightarrow> 's \<Rightarrow> string \<Rightarrow> 's \<times> (string + string)" where
  "newS3Store C s bucket =
     (case sc_BucketExists C s bucket of
        (s1, Inl e) \<Rightarrow> (s1, Inl ''storage: check bucket'')
      | (s1, Inr True) \<Rightarrow> (s1, Inr bucket)
      | (s1, Inr False) \<Rightarrow>
          (case sc_MakeBucket C s1 bucket of
             (s2, None) \<Rightarrow> (s2, Inr bucket)
           | (s2, Some e) \<Rightarrow>
               (case sc_BucketExists C s2 bucket of
                  (s3, Inl e') \<Rightarrow> (s3, Inl ''storage: create bucket'')
                | (s3, Inr False) \<Rightarrow> (s3, Inl ''storage: create bucket'')
                | (s3, Inr True) \<Rightarrow> (s3, Inr bucket))))"

definition mapS3Error :: "s3_code \<Rightarrow> obj_err" where
  "mapS3Error code = (if code \<in> set [''NoSuchKey'', ''NoSuchObject'', ''NotFound''] then ObjNotFound else ObjOther)"

definition s3_Put :: "'s s3Client \<Rightarrow> string \<Rightarrow> 's \<Rightarrow> string \<Rightarrow> string \<Rightarrow> 's \<times> obj_err option" where
  "s3_Put C bucket s key dat =
     (case sc_PutObject C s bucket key dat of (s', None) \<Rightarrow> (s', None) | (s', Some e) \<Rightarrow> (s', Some ObjOther))"

definition s3_Get :: "'s s3Client \<Rightarrow> string \<Rightarrow> 's \<Rightarrow> string \<Rightarrow> obj_err + string" where
  "s3_Get C bucket s key =
     (case sc_GetObject C s bucket key of
        Inl e \<Rightarrow> Inl (mapS3Error e)
      | Inr (Inl e) \<Rightarrow> Inl (mapS3Error e)
      | Inr (Inr dat) \<Rightarrow> Inr dat)"

definition s3_Delete :: "'s s3Client \<Rightarrow> string \<Rightarrow> 's \<Rightarrow> string \<Rightarrow> 's \<times> obj_err option" where
  "s3_Delete C bucket s key =
     (case sc_RemoveObject C s bucket key of (s', None) \<Rightarrow> (s', None) | (s', Some e) \<Rightarrow> (s', Some ObjOther))"

definition s3Ops :: "'s s3Client \<Rightarrow> string \<Rightarrow> 's objectStore" where
  "s3Ops C bucket = \<lparr>os_Put = s3_Put C bucket, os_Get = s3_Get C bucket, os_Delete = s3_Delete C bucket\<rparr>"

section \<open>The contract\<close>

text \<open>
  The documented service: \<open>objs s b\<close> are the objects of bucket \<open>b\<close>, nothing if it does not exist.
  Other clients may create buckets during the requests on buckets. A request on an object of an
  existing bucket that fails changes nothing, a missing object has the code \<open>NoSuchKey\<close>, and
  removing a missing object succeeds.
\<close>

definition s3_reliable :: "'s s3Client \<Rightarrow> ('s \<Rightarrow> string \<Rightarrow> (string \<Rightarrow> string option) option) \<Rightarrow> bool" where
  "s3_reliable C objs \<longleftrightarrow>
     (\<forall>s b. objs s \<subseteq>\<^sub>m objs (fst (sc_BucketExists C s b)) \<and>
        (\<forall>x. snd (sc_BucketExists C s b) = Inr x \<longrightarrow> (x \<longleftrightarrow> objs (fst (sc_BucketExists C s b)) b \<noteq> None))) \<and>
     (\<forall>s b. objs s \<subseteq>\<^sub>m objs (fst (sc_MakeBucket C s b)) \<and>
        (snd (sc_MakeBucket C s b) = None \<longrightarrow> objs (fst (sc_MakeBucket C s b)) b = Some Map.empty)) \<and>
     (\<forall>s b k d m. objs s b = Some m \<longrightarrow> objs (fst (sc_PutObject C s b k d)) =
        (if snd (sc_PutObject C s b k d) = None then (objs s)(b \<mapsto> m(k \<mapsto> d)) else objs s)) \<and>
     (\<forall>s b k m. objs s b = Some m \<longrightarrow> objs (fst (sc_RemoveObject C s b k)) =
        (if snd (sc_RemoveObject C s b k) = None then (objs s)(b \<mapsto> m(k := None)) else objs s)) \<and>
     (\<forall>s b k m. objs s b = Some m \<longrightarrow> sc_GetObject C s b k =
        Inr (case m k of None \<Rightarrow> Inl ''NoSuchKey'' | Some d \<Rightarrow> Inr d))"

lemma s3_reliableD:
  assumes "s3_reliable C objs"
  shows "objs s \<subseteq>\<^sub>m objs (fst (sc_BucketExists C s b))"
    "snd (sc_BucketExists C s b) = Inr x \<Longrightarrow> x \<longleftrightarrow> objs (fst (sc_BucketExists C s b)) b \<noteq> None"
    "objs s \<subseteq>\<^sub>m objs (fst (sc_MakeBucket C s b))"
    "snd (sc_MakeBucket C s b) = None \<Longrightarrow> objs (fst (sc_MakeBucket C s b)) b = Some Map.empty"
    "objs s b = Some m \<Longrightarrow> objs (fst (sc_PutObject C s b k d)) =
      (if snd (sc_PutObject C s b k d) = None then (objs s)(b \<mapsto> m(k \<mapsto> d)) else objs s)"
    "objs s b = Some m \<Longrightarrow> objs (fst (sc_RemoveObject C s b k)) =
      (if snd (sc_RemoveObject C s b k) = None then (objs s)(b \<mapsto> m(k := None)) else objs s)"
    "objs s b = Some m \<Longrightarrow> sc_GetObject C s b k = Inr (case m k of None \<Rightarrow> Inl ''NoSuchKey'' | Some d \<Rightarrow> Inr d)"
  using assms unfolding s3_reliable_def by simp_all

text \<open>Over a reliable service the bucket is an object store.\<close>

lemma s3_object_store:
  assumes "s3_reliable C objs"
  shows "object_store (s3Ops C b) (\<lambda>s. objs s b \<noteq> None) (\<lambda>s. the (objs s b))"
proof -
  note D = s3_reliableD [OF assms]
  show ?thesis
  proof unfold_locales
    fix s k d s' assume "objs s b \<noteq> None" "os_Put (s3Ops C b) s k d = (s', None)"
    then show "objs s' b \<noteq> None \<and> the (objs s' b) = (the (objs s b))(k \<mapsto> d)"
      using D(5) [of s b _ k d] by (cases "sc_PutObject C s b k d") (auto simp: s3Ops_def s3_Put_def split: option.splits)
  next
    fix s k d s' e assume "objs s b \<noteq> None" "os_Put (s3Ops C b) s k d = (s', Some e)"
    then show "objs s' b \<noteq> None \<and> the (objs s' b) = the (objs s b)"
      using D(5) [of s b _ k d] by (cases "sc_PutObject C s b k d") (auto simp: s3Ops_def s3_Put_def split: option.splits)
  next
    fix s k d assume "objs s b \<noteq> None"
    then show "os_Get (s3Ops C b) s k = Inr d \<longleftrightarrow> the (objs s b) k = Some d"
      using D(7) [of s b _ k] by (auto simp: s3Ops_def s3_Get_def split: option.splits sum.splits)
  next
    fix s k s' assume "objs s b \<noteq> None" "os_Delete (s3Ops C b) s k = (s', None)"
    then show "objs s' b \<noteq> None \<and> the (objs s' b) = (the (objs s b))(k := None)"
      using D(6) [of s b _ k] by (cases "sc_RemoveObject C s b k") (auto simp: s3Ops_def s3_Delete_def split: option.splits)
  next
    fix s k s' e assume "objs s b \<noteq> None" "os_Delete (s3Ops C b) s k = (s', Some e)"
    then show "objs s' b \<noteq> None \<and> the (objs s' b) = the (objs s b)"
      using D(6) [of s b _ k] by (cases "sc_RemoveObject C s b k") (auto simp: s3Ops_def s3_Delete_def split: option.splits)
  qed
qed

section \<open>Starting and storing\<close>

lemma s3_Get_val:
  "s3_reliable C objs \<Longrightarrow> objs s b = Some m \<Longrightarrow> s3_Get C b s k = (case m k of None \<Rightarrow> Inl ObjNotFound | Some d \<Rightarrow> Inr d)"
  using s3_reliableD(7) [of C objs s b m k] by (simp add: s3_Get_def mapS3Error_def split: option.split)

lemma newS3Store_ready:
  assumes "s3_reliable C objs" "newS3Store C s bucket = (s', Inr b)"
  shows "b = bucket \<and> objs s' b \<noteq> None \<and> objs s \<subseteq>\<^sub>m objs s'"
proof -
  note D = s3_reliableD [OF assms(1)]
  obtain s1 r1 where 1: "sc_BucketExists C s bucket = (s1, r1)" by fastforce
  have l1: "objs s \<subseteq>\<^sub>m objs s1" using D(1) [of s bucket] 1 by simp
  show ?thesis
  proof (cases "r1 = Inr True")
    case True
    then show ?thesis using assms(2) 1 l1 D(2) [of s bucket True] by (simp add: newS3Store_def)
  next
    case False
    then have "r1 = Inr False" using assms(2) 1 by (auto simp: newS3Store_def split: sum.splits)
    moreover obtain s2 r2 where 2: "sc_MakeBucket C s1 bucket = (s2, r2)" by fastforce
    have l2: "objs s \<subseteq>\<^sub>m objs s2" using D(3) [of s1 bucket] 2 l1 map_le_trans by fastforce
    ultimately show ?thesis
    proof (cases r2)
      case None
      then show ?thesis using assms(2) 1 2 l2 \<open>r1 = Inr False\<close> D(4) [of s1 bucket] by (simp add: newS3Store_def)
    next
      case (Some e)
      obtain s3 r3 where 3: "sc_BucketExists C s2 bucket = (s3, r3)" by fastforce
      then have "r3 = Inr True \<and> s' = s3 \<and> b = bucket"
        using assms(2) 1 2 \<open>r1 = Inr False\<close> Some by (auto simp: newS3Store_def split: sum.splits bool.splits)
      moreover have "objs s \<subseteq>\<^sub>m objs s3" using D(1) [of s2 bucket] 3 l2 map_le_trans by fastforce
      ultimately show ?thesis using D(2) [of s2 bucket True] 3 by simp
    qed
  qed
qed

text \<open>
  C40: CVs kept in S3 are kept. A store that starts has its bucket, whoever created it first, and has
  changed no bucket that was there. What is then put into the encrypted store over it is read back
  under its key as it was, every other key reads as before, a key without an object is reported
  as not found, and what the bucket holds is the plaintext sealed, 28 bytes longer.
\<close>

theorem s3_encrypted_roundtrip:
  assumes "s3_reliable C objs" "newS3Store C s bucket = (s', Inr b)"
    and "aead_ok (en_gcm e)" "rand_ok (en_rand e)" "en_backend e = s'" "en_Put (s3Ops C b) e k d = (e', None)"
  shows "b = bucket \<and> objs s \<subseteq>\<^sub>m objs s' \<and> en_Get (s3Ops C b) e' k = Inr d \<and>
    (\<forall>k'. k' = k \<or> en_Get (s3Ops C b) e' k' = en_Get (s3Ops C b) e k') \<and>
    (\<forall>k'. the (objs s' b) k' = None \<longrightarrow> s3_Get C b s' k' = Inl ObjNotFound) \<and>
    (\<exists>m stored. objs (en_backend e') b = Some m \<and> m k = Some stored \<and> length stored = length d + 28)"
proof -
  note D = s3_reliableD [OF assms(1)]
  have ready: "b = bucket \<and> objs s' b \<noteq> None \<and> objs s \<subseteq>\<^sub>m objs s'" by (rule newS3Store_ready [OF assms(1,2)])
  then obtain m where m: "objs s' b = Some m" by blast
  note os = s3_object_store [OF assms(1), of b]
  have g: "en_good (\<lambda>s. objs s b \<noteq> None) e" using assms(3-5) m by (simp add: en_good_def)
  have get: "en_Get (s3Ops C b) e' k = Inr d"
    using object_store.Put_Get [OF object_store.encrypted [OF os] g, of k d e'] assms(6) by (simp add: encOps_def)
  obtain nonce s2 where n: "en_rand e (en_draws e) = Some nonce"
    "os_Put (s3Ops C b) s' k (nonce @ ae_Seal (en_gcm e) nonce d) = (s2, None)" "en_backend e' = s2" "en_gcm e' = en_gcm e"
    using assms(5,6) by (auto simp: en_Put_def Let_def split: option.splits prod.splits)
  have put: "objs s2 b = Some (m(k \<mapsto> nonce @ ae_Seal (en_gcm e) nonce d))"
    using object_store.Put_ok [OF os _ n(2)] m by auto
  have other: "en_Get (s3Ops C b) e' k' = en_Get (s3Ops C b) e k'" if "k' \<noteq> k" for k'
  proof -
    have "os_Get (s3Ops C b) s2 k' = os_Get (s3Ops C b) s' k'"
      using s3_Get_val [OF assms(1) put, of k'] s3_Get_val [OF assms(1) m, of k'] that by (simp add: s3Ops_def)
    then show ?thesis unfolding en_Get_def n(3,4) assms(5) by simp
  qed
  have "s3_Get C b s' k' = Inl ObjNotFound" if "the (objs s' b) k' = None" for k'
    using s3_Get_val [OF assms(1) m, of k'] m that by simp
  moreover have "length (nonce @ ae_Seal (en_gcm e) nonce d) = length d + 28"
    using assms(3,4) n(1) by (simp add: aead_ok_def rand_ok_def nonceSize_def tagSize_def)
  ultimately show ?thesis using ready get other put n(3) by (auto intro: exI [of _ "m(k \<mapsto> nonce @ ae_Seal (en_gcm e) nonce d)"])
qed

text \<open>A service whose bucket is created by somebody else between the two requests.\<close>

definition raceClient :: "(string \<Rightarrow> (string \<Rightarrow> string option) option) s3Client" where
  "raceClient =
     \<lparr>sc_BucketExists = (\<lambda>s b. (s, Inr (s b \<noteq> None))),
      sc_MakeBucket = (\<lambda>s b. (if s b = None then s(b \<mapsto> Map.empty) else s, Some ''BucketAlreadyOwnedByYou'')),
      sc_PutObject = (\<lambda>s b k d. (s(b := map_option (\<lambda>m. m(k \<mapsto> d)) (s b)), None)),
      sc_GetObject = (\<lambda>s b k. case s b of None \<Rightarrow> Inl ''NoSuchBucket''
        | Some m \<Rightarrow> Inr (case m k of None \<Rightarrow> Inl ''NoSuchKey'' | Some d \<Rightarrow> Inr d)),
      sc_RemoveObject = (\<lambda>s b k. (s(b := map_option (\<lambda>m. m(k := None)) (s b)), None))\<rparr>"

lemma raceClient_reliable: "s3_reliable raceClient (\<lambda>s. s)"
  by (auto simp: s3_reliable_def raceClient_def map_le_def)

theorem s3_encrypted_roundtrip_witness:
  "\<exists>s' e'. newS3Store raceClient Map.empty ''cv'' = (s', Inr ''cv'') \<and>
     en_Get (s3Ops raceClient ''cv'') e' ''k'' = Inr ''text'' \<and> s3_Get raceClient ''cv'' s' ''k'' = Inl ObjNotFound"
proof -
  let ?s = "Map.empty(''cv'' \<mapsto> Map.empty) :: string \<Rightarrow> (string \<Rightarrow> string option) option"
  let ?e = "\<lparr>en_backend = ?s, en_gcm = tagAEAD, en_rand = (\<lambda>_. Some (replicate 12 CHR ''n'')), en_draws = 0\<rparr>"
  have n: "newS3Store raceClient Map.empty ''cv'' = (?s, Inr ''cv'')" by (simp add: newS3Store_def raceClient_def)
  have a: "aead_ok (en_gcm ?e)" "rand_ok (en_rand ?e)" "en_backend ?e = ?s"
    by (auto simp: aead_ok_def tagAEAD_def rand_ok_def nonceSize_def tagSize_def)
  obtain e' r where o: "en_Put (s3Ops raceClient ''cv'') ?e ''k'' ''text'' = (e', r)" by fastforce
  then have "r = None" by (auto simp: en_Put_def s3Ops_def s3_Put_def raceClient_def Let_def)
  then have p: "en_Put (s3Ops raceClient ''cv'') ?e ''k'' ''text'' = (e', None)" using o by simp
  from s3_encrypted_roundtrip [OF raceClient_reliable n a p] n show ?thesis by auto
qed

end
