(* ===== verification/Spec2Isabelle.thy ===== *)
theory Spec2Isabelle
  imports Auth_Limiter Auth_Props Ingest_NormProps Ingest_Runner Ingest_Fetch M5_Theorems Profile_Theorems CV_Service Feed_Theorems Account_Theorems App_Theorems Discover_Props Pg_Theorems Parser_Props Migrations Seed_Props Seed_Real Mailer S3_Store
begin

text \<open>
  The auto-applier backend (\<open>src/backend\<close>, Go): a service for job seekers that ingests listings
  from job boards, serves them as a feed, keeps a seeker's reviewed profile and encrypted CVs,
  and hands a browser extension the data to fill an application form, which only the user
  submits. This root holds no definitions; it imports the whole development.

  \<^bold>\<open>The program and its model.\<close> A handler of the program is a function of the operations of the
  store it calls, an environment record with what it reads from outside (clock readings, random
  bytes, mail delivery, remote answers), the state and the request; it returns the new state
  and the response, every early return a branch. Errors are values of a sum or of an option.
  Go maps are association lists with the laws of a map (\<open>gomap\<close> in Go_Prelude), so that the order
  of iteration is arbitrary but fixed. Handlers that hold a mutex are one step of the state.
  An interface of the program is a record of its operations and a locale with the laws its
  clients use; each locale is interpreted on the in-memory store and on the Postgres store.

  \<^item> The library of Go: Go_Prelude (strings as bytes, maps, time), Go_Float and Go_FloatText
    (IEEE doubles, exactly, and as text), Go_Regex (leftmost-first regular expressions), Go_JSON,
    Go_Base64, Go_Net (URLs and addresses), Go_Redirect (the redirects the client of \<open>net/http\<close>
    follows), Go_Mux (\<open>http.ServeMux\<close>), Go_Sort.
  \<^item> Accounts (\<open>internal/auth\<close>): Auth_Limiter (\<open>ratelimit.go\<close>), Auth_Repo (\<open>repo.go\<close>, \<open>memrepo.go\<close>,
    \<open>errors.go\<close>, \<open>password.go\<close>; locales \<open>auth_repo\<close>, \<open>auth_repo_total\<close>), Auth_Service (\<open>service.go\<close>,
    \<open>oauth.go\<close>, the middlewares), Auth_Props (registration, sessions, reset, sign-in).
  \<^item> Listings (\<open>internal/ingest\<close>): Ingest_Model, Ingest_Normalize and Ingest_NormProps
    (\<open>normalize.go\<close>), Ingest_Store (\<open>memstore.go\<close>; locales \<open>job_store\<close>, \<open>job_store_total\<close>), Ingest_Runner
    (\<open>runner.go\<close>, the circuit breakers), Ingest_Fetch (\<open>conditionalfetch.go\<close>), Ingest_Wire, Ingest_ATS,
    Ingest_Remote, Ingest_Paging, Ingest_Sources (the boards and the registry; locale
    \<open>offset_paging\<close>), Ingest_SourceProps, Ingest_Control (\<open>internal/ingestctl\<close>, \<open>internal/queue\<close>), Discover and
    Discover_Props (\<open>internal/discover\<close>).
  \<^item> The seeker's data (\<open>internal/m5\<close>): M5_Match (tags, scores, salary estimates), M5_Store
    (\<open>store.go\<close>, \<open>memstore.go\<close>; locale \<open>m5_store\<close>), M5_Service (\<open>service.go\<close>), M5_Props, M5_Theorems.
  \<^item> CVs and profiles: Storage and S3_Store (\<open>internal/storage\<close>; locale \<open>object_store\<close>, encryption at rest),
    CV_Parser, CV_Store (locale \<open>cv_repo\<close>), CV_Service (\<open>internal/cv\<close>; locale \<open>cv_backend\<close>), Profile,
    Profile_Service, Profile_Theorems (\<open>internal/profile\<close>; locale \<open>prof_repo\<close>, the confirmation gate).
  \<^item> Feed and Feed_Theorems (\<open>internal/feed\<close>); Account and Account_Theorems (\<open>internal/account\<close>;
    locale \<open>account_backend\<close>, over the contracts of the four stores).
  \<^item> The database (\<open>pgxrepo.go\<close>, \<open>pgxstore.go\<close> of each package): Pg_Schema (the tables and
    constraints of \<open>internal/db/migrations\<close>), Pg_Auth, Pg_CV, Pg_M5, Pg_Jobs (one definition per
    method), Pg_Feed (against the in-memory store), Pg_Reach (the step relation of all writes),
    Pg_Theorems (the services over the database; the constraints of the seeker's tables).
  \<^item> The server (\<open>cmd/api/main.go\<close>, \<open>internal/api\<close>): Api, App, App_Theorems.

  \<^item> Mailer (\<open>mailer.go\<close>): what is said to the SMTP server.
  \<^item> The other commands: Parser_Service and Parser_Props (\<open>internal/parser\<close>, \<open>cmd/parser\<close>: extraction, the
    model call, and the service together with its client in \<open>internal/cv\<close>), Migrations (\<open>internal/db\<close>),
    Seed_Gen, Seed_Props and Seed_Real (\<open>internal/seed\<close>, \<open>cmd/seed\<close>: synthetic and real listings).

  \<^bold>\<open>What is shown.\<close> Safety of the identity: the guard admits exactly the verified sessions,
  routes need it, a reset ends every session, registration is all or nothing, sign-in through
  Google needs a verified address. Safety of the application form: fill data comes from a
  confirmed profile of the caller only, an edit closes the gate, an application never returns
  to \<open>form_filled\<close>, nothing but a confirmation submits it. Data rights: erasure leaves nothing
  and touches nobody else, in memory and, as no database reachable by the stores' writes has a
  row without its account, on Postgres. Ingestion: one pass at a time, exactly the accepted
  listings of the sources that answered, breakers and staleness by their histories, fetches
  end and stay within their limits, a replayed listing is the last one read and, against
  servers that keep to RFC 9110, the current one. The feed: exact pages, personalization, and the same
  answers whether SQL or the index searches. The commands: the parser service sends
  nothing but an authorized caller's document, first to its provider over HTTPS or to the
  machine itself and then wherever the provider redirects it, migrations are all or nothing, synthetic listings
  never collide, a successful real seed opens registration. Lemmas state where the code does not do what it
  means to (named in the findings of the manifest).

  \<^bold>\<open>Bounds and fuel.\<close> Loops over lists are structural recursion; the other loops have a measure
  on what is left to read, and the paging loops the bound of the code. The loop of Kalibrr has
  none and is a \<open>partial_function\<close>: that it returns is a hypothesis on the board, and a lemma shows
  a board for which it does not. Printing a double searches at most 17 digits, which determine
  every double, and its shortest form with fuel 16 on top of the first. Integers are kept in
  \<open>int\<close>; where 64 or 32 bits matter (parsing, durations, salaries, sizes, \<open>INT\<close> columns) the bounds
  are written out. The end of a page of the index, start plus limit, is not wrapped: the handler
  caps the limit at 100. A call to the provider makes ten requests at most, as the client does.

  \<^bold>\<open>Parameters.\<close> PBKDF2, AES-GCM, the S3 client, \<open>mail.ParseAddress\<close>, SHA-256 (injective where tokens are stored as digests), random
  bytes, clocks, mail delivery, the identity provider, the remote servers, the HTML parser,
  \<open>time.Parse\<close>, \<open>time.ParseDuration\<close>, \<open>math/rand\<close> (with the ranges of its draws), the readers of PDF, ZIP
  and XML, what a migration script does, JSON texts beyond the values modelled, archives and catalog
  files. Of Postgres: which statement runs, with which texts; \<open>now()\<close> and generated ids; the text of
  a constraint violation; what a \<open>jsonb\<close> column gives back; the collation. A statement takes
  effect as a whole or not at all, and within a request all see the same \<open>now()\<close>; a commit that
  answers with an error has committed nothing, so a commit whose answer is lost is not covered. Upper and lower
  case and white space are those of ASCII.

  \<^bold>\<open>Not modelled.\<close> The listening socket and signals, the River client behind the queue, the
  redaction of the Jooble key from error texts, writes of
  catalog files that break off half way, and the choice between the stores at start-up. Log
  lines carry nothing the rest depends on.
\<close>

end
